(* ===== verification/Prelude.thy ===== *)
theory Prelude
  imports Complex_Main "HOL-Library.Sublist" "HOL-Library.List_Lexorder" "HOL-Library.Char_ord"
begin

text \<open>
  The Python values and library operations the engine's modules share.

  \<^item> A Python \<open>str\<close> is a \<^typ>\<open>string\<close> holding the UTF-8 bytes of the text: \<open>==\<close>, dictionary
    lookup and ordering of texts are those of their encodings. Operations that look inside the
    text (case folding, stripping, Unicode normalisation, categories) are written out for ASCII
    text; for other text they are the fields of a record \<open>ucd\<close>, the Unicode character database,
    which every definition that needs it takes as an argument.
  \<^item> A decoded JSON value is a \<open>json\<close>; a \<open>dict\<close> is an association list in insertion order.
  \<^item> A finite Python \<open>float\<close> is the rational it denotes.
  \<^item> A raised exception is the \<open>Inl\<close> side of a sum.
\<close>

named_theorems py_simps \<open>unfolding rules for the Python operations of this theory\<close>

section \<open>JSON values\<close>

datatype pyfloat = Fin rat | PosInf | NegInf | NaN

datatype json =
    JNull
  | JBool bool
  | JInt int
  | JFloat pyfloat
  | JStr string
  | JArr "json list"
  | JObj "(string \<times> json) list"

type_synonym dict = "(string \<times> json) list"

abbreviation obj_get :: "dict \<Rightarrow> string \<Rightarrow> json option" where
  "obj_get d k \<equiv> map_of d k"

text \<open>\<open>d[k] = v\<close>: an existing key keeps its position, a new one goes to the end.\<close>

fun dput :: "'k \<Rightarrow> 'v \<Rightarrow> ('k \<times> 'v) list \<Rightarrow> ('k \<times> 'v) list" where
  "dput k v [] = [(k, v)]"
| "dput k v ((k', v') # d) = (if k = k' then (k, v) # d else (k', v') # dput k v d)"

text \<open>\<open>d.get(k)\<close>, with \<open>None\<close> for a missing key.\<close>

definition dget :: "dict \<Rightarrow> string \<Rightarrow> json" where
  "dget d k = (case map_of d k of None \<Rightarrow> JNull | Some v \<Rightarrow> v)"

text \<open>\<open>d.get(k, dflt)\<close>.\<close>

definition dget_or :: "dict \<Rightarrow> string \<Rightarrow> json \<Rightarrow> json" where
  "dget_or d k dflt = (case map_of d k of None \<Rightarrow> dflt | Some v \<Rightarrow> v)"

text \<open>The object a value is, or the empty one: \<open>x if isinstance(x, dict) else {}\<close>.\<close>

fun as_obj :: "json \<Rightarrow> dict" where
  "as_obj (JObj d) = d"
| "as_obj _ = []"

fun is_obj :: "json \<Rightarrow> bool" where
  "is_obj (JObj _) = True"
| "is_obj _ = False"

fun is_arr :: "json \<Rightarrow> bool" where
  "is_arr (JArr _) = True"
| "is_arr _ = False"

fun is_str :: "json \<Rightarrow> bool" where
  "is_str (JStr _) = True"
| "is_str _ = False"

text \<open>\<open>bool(x)\<close>.\<close>

fun py_truth :: "json \<Rightarrow> bool" where
  "py_truth JNull = False"
| "py_truth (JBool b) = b"
| "py_truth (JInt n) = (n \<noteq> 0)"
| "py_truth (JFloat f) = (f \<noteq> Fin 0)"
| "py_truth (JStr s) = (s \<noteq> [])"
| "py_truth (JArr xs) = (xs \<noteq> [])"
| "py_truth (JObj d) = (d \<noteq> [])"

text \<open>The number a value is for Python's \<open>==\<close> (\<open>True == 1 == 1.0\<close>).\<close>

fun num_of :: "json \<Rightarrow> pyfloat option" where
  "num_of (JBool b) = Some (Fin (if b then 1 else 0))"
| "num_of (JInt n) = Some (Fin (of_int n))"
| "num_of (JFloat f) = Some f"
| "num_of _ = None"

text \<open>\<open>a == b\<close> on decoded JSON values; a \<open>NaN\<close> equals nothing.\<close>

function py_eq :: "json \<Rightarrow> json \<Rightarrow> bool" where
  "py_eq a b =
     (case num_of a of
        Some x \<Rightarrow> (case num_of b of Some y \<Rightarrow> x = y \<and> x \<noteq> NaN | None \<Rightarrow> False)
      | None \<Rightarrow>
          (case a of
             JArr xs \<Rightarrow> (case b of JArr ys \<Rightarrow>
                 length xs = length ys \<and> (\<forall>p \<in> set (zip xs ys). py_eq (fst p) (snd p))
               | _ \<Rightarrow> False)
           | JObj d \<Rightarrow> (case b of JObj e \<Rightarrow>
                 length d = length e \<and>
                 (\<forall>p \<in> set d. case map_of e (fst p) of None \<Rightarrow> False | Some w \<Rightarrow> py_eq (snd p) w)
               | _ \<Rightarrow> False)
           | _ \<Rightarrow> a = b))"
  by pat_completeness auto
termination
proof (relation "measure (\<lambda>(a, b). size a)", goal_cases)
  case 1
  show ?case by simp
next
  case (2 a b xs ys p)
  then have "fst p \<in> set xs" by (cases p) (auto dest: set_zip_leftD)
  then have "size (fst p) < size (JArr xs)"
    by (simp add: less_Suc_eq_le size_list_estimation')
  with 2 show ?case by (cases p) simp
next
  case (3 a b d e p w)
  then have "size (snd p) < Suc (size_list (size_prod (\<lambda>_. 0) size) d)"
    by (cases p) (force simp: less_Suc_eq_le intro: size_list_estimation')
  with 3 show ?case by (cases p) simp
qed

declare py_eq.simps [simp del]

lemma py_eq_str [simp]: "py_eq (JStr s) (JStr t) \<longleftrightarrow> s = t"
  by (simp add: py_eq.simps)

lemma py_eq_null [simp]: "py_eq JNull b \<longleftrightarrow> b = JNull" "py_eq a JNull \<longleftrightarrow> a = JNull"
  by (cases b; simp add: py_eq.simps) (cases a; simp add: py_eq.simps)

lemma py_eq_int [simp]: "py_eq (JInt m) (JInt n) \<longleftrightarrow> m = n"
  by (simp add: py_eq.simps)

section \<open>Exceptions\<close>

text \<open>Running \<open>f\<close> after \<open>m\<close> when \<open>m\<close> did not raise.\<close>

fun bindE :: "'e + 'a \<Rightarrow> ('a \<Rightarrow> 'e + 'b) \<Rightarrow> 'e + 'b" where
  "bindE (Inl e) f = Inl e"
| "bindE (Inr x) f = f x"

lemma bindE_Inr_iff [py_simps]: "bindE m f = Inr y \<longleftrightarrow> (\<exists>x. m = Inr x \<and> f x = Inr y)"
  by (cases m) auto

lemma bindE_Inl_iff [py_simps]:
  "bindE m f = Inl e \<longleftrightarrow> m = Inl e \<or> (\<exists>x. m = Inr x \<and> f x = Inl e)"
  by (cases m) auto

lemma bindE_assoc: "bindE (bindE m f) g = bindE m (\<lambda>x. bindE (f x) g)"
  by (cases m) auto

lemma if_Inl_eq_Inr [py_simps]: "(if b then Inl e else m) = Inr y \<longleftrightarrow> \<not> b \<and> m = Inr y"
  by simp

text \<open>Computations that read and change a state and may raise: a raise keeps the changes made so far.\<close>

definition bindS ::
  "('s \<Rightarrow> 's \<times> ('e + 'a)) \<Rightarrow> ('a \<Rightarrow> 's \<Rightarrow> 's \<times> ('e + 'b)) \<Rightarrow> 's \<Rightarrow> 's \<times> ('e + 'b)" where
  "bindS m f s = (case m s of (s', Inl e) \<Rightarrow> (s', Inl e) | (s', Inr x) \<Rightarrow> f x s')"

definition retS :: "'a \<Rightarrow> 's \<Rightarrow> 's \<times> ('e + 'a)" where
  "retS x s = (s, Inr x)"

lemma bindS_ret [simp]: "bindS (retS x) f = f x" "bindS m retS = m"
  by (auto simp: bindS_def retS_def fun_eq_iff split: prod.split sum.split)

lemma bindS_assoc: "bindS (bindS m f) g = bindS m (\<lambda>x. bindS (f x) g)"
  by (auto simp: bindS_def fun_eq_iff split: prod.split sum.split)

lemma bindS_Inr [py_simps]:
  "bindS m f s = (s'', Inr y) \<longleftrightarrow> (\<exists>s' x. m s = (s', Inr x) \<and> f x s' = (s'', Inr y))"
  by (auto simp: bindS_def split: prod.split sum.split)

lemma bindS_eq: "m s = (s', Inr x) \<Longrightarrow> bindS m f s = f x s'"
  by (simp add: bindS_def)

lemma pair_InrE:
  assumes "case p of (s', r) \<Rightarrow> s' = s \<and> \<not> isl r"
  obtains y where "p = (s, Inr y)"
  using assms by (cases p; cases "snd p") auto

section \<open>Floats\<close>

text \<open>Addition, absolute value and order of floats; \<open>rnd\<close> rounds an exact result to the nearest double
  (an infinity when it overflows).\<close>

fun fadd :: "(rat \<Rightarrow> pyfloat) \<Rightarrow> pyfloat \<Rightarrow> pyfloat \<Rightarrow> pyfloat" where
  "fadd rnd (Fin x) (Fin y) = rnd (x + y)"
| "fadd rnd NaN y = NaN"
| "fadd rnd x NaN = NaN"
| "fadd rnd PosInf NegInf = NaN"
| "fadd rnd NegInf PosInf = NaN"
| "fadd rnd PosInf y = PosInf"
| "fadd rnd NegInf y = NegInf"
| "fadd rnd x PosInf = PosInf"
| "fadd rnd x NegInf = NegInf"

fun fabs :: "pyfloat \<Rightarrow> pyfloat" where
  "fabs (Fin x) = Fin \<bar>x\<bar>"
| "fabs NegInf = PosInf"
| "fabs x = x"

fun fle :: "pyfloat \<Rightarrow> pyfloat \<Rightarrow> bool" where
  "fle (Fin x) (Fin y) = (x \<le> y)"
| "fle NaN y = False"
| "fle x NaN = False"
| "fle NegInf y = True"
| "fle x PosInf = True"
| "fle x y = False"

text \<open>\<open>float(x)\<close> of a JSON number.\<close>

fun to_float :: "(rat \<Rightarrow> pyfloat) \<Rightarrow> json \<Rightarrow> pyfloat" where
  "to_float rnd (JInt n) = rnd (of_int n)"
| "to_float rnd (JFloat f) = f"
| "to_float rnd _ = Fin 0"

section \<open>Dictionaries\<close>

text \<open>Looking a literal key up in a literal table, one comparison at a time.\<close>

lemmas lookup_simps =
  map_of_Cons_code list.inject list.distinct char.inject if_True if_False simp_thms

lemma map_of_dput [simp]: "map_of (dput k v d) j = (if j = k then Some v else map_of d j)"
  by (induction k v d rule: dput.induct) auto

lemma keys_dput: "map fst (dput k v d) = (if k \<in> set (map fst d) then map fst d else map fst d @ [k])"
  by (induction k v d rule: dput.induct) auto

lemma distinct_keys_dput: "distinct (map fst d) \<Longrightarrow> distinct (map fst (dput k v d))"
  by (simp add: keys_dput)

lemma dput_same: "map_of d k = Some v \<Longrightarrow> dput k v d = d"
  by (induction k v d rule: dput.induct) (auto split: if_splits)

lemma dget_dput [simp]: "dget (dput k v d) j = (if j = k then v else dget d j)"
  by (simp add: dget_def)

lemma dget_Nil [simp]: "dget [] j = JNull"
  by (simp add: dget_def)

lemma dget_Cons [simp]: "dget (p # d) j = (if fst p = j then snd p else dget d j)"
  by (simp add: dget_def)

lemma dput_dget_same: "dget d k = v \<Longrightarrow> v \<noteq> JNull \<Longrightarrow> dput k v d = d"
  by (auto simp: dget_def dput_same split: option.splits)

lemma as_obj_eq_iff: "is_obj j \<Longrightarrow> JObj (as_obj j) = j"
  by (cases j) auto

end
