(* ===== verification/PyText.thy ===== *)
theory PyText
  imports Prelude
begin

text \<open>
  Text operations: the character classes and \<open>str\<close> methods the engine uses, \<open>posixpath.normpath\<close>,
  and the token normalisation shared by \<open>envelope._normalize_token\<close> and
  \<open>principal.normalize_identity\<close>.
\<close>

section \<open>Characters and the Unicode database\<close>

abbreviation code :: "char \<Rightarrow> nat" where
  "code c \<equiv> of_char c"

definition is_ascii :: "string \<Rightarrow> bool" where
  "is_ascii s \<longleftrightarrow> list_all (\<lambda>c. code c < 128) s"

definition is_upper_char :: "char \<Rightarrow> bool" where
  "is_upper_char c \<longleftrightarrow> 65 \<le> code c \<and> code c \<le> 90"

definition is_lower_char :: "char \<Rightarrow> bool" where
  "is_lower_char c \<longleftrightarrow> 97 \<le> code c \<and> code c \<le> 122"

definition is_digit_char :: "char \<Rightarrow> bool" where
  "is_digit_char c \<longleftrightarrow> 48 \<le> code c \<and> code c \<le> 57"

text \<open>The ASCII characters of category \<open>Cc\<close> (none is of category \<open>Cf\<close>), and those \<open>str.strip()\<close>
  removes.\<close>

definition is_control_char :: "char \<Rightarrow> bool" where
  "is_control_char c \<longleftrightarrow> code c < 32 \<or> code c = 127"

definition is_space_char :: "char \<Rightarrow> bool" where
  "is_space_char c \<longleftrightarrow> code c = 32 \<or> (9 \<le> code c \<and> code c \<le> 13) \<or> (28 \<le> code c \<and> code c \<le> 31)"

definition lower_char :: "char \<Rightarrow> char" where
  "lower_char c = (if is_upper_char c then char_of (code c + 32) else c)"

definition upper_char :: "char \<Rightarrow> char" where
  "upper_char c = (if is_lower_char c then char_of (code c - 32) else c)"

text \<open>The same tests on the bits of the character, which is how they are evaluated.\<close>

lemma is_ascii_code [code]:
  "is_ascii [] = True"
  "is_ascii (Char b0 b1 b2 b3 b4 b5 b6 b7 # s) = (\<not> b7 \<and> is_ascii s)"
  by (simp_all add: is_ascii_def)

lemma is_upper_char_code [code]:
  "is_upper_char (Char b0 b1 b2 b3 b4 b5 b6 b7) =
     (\<not> b7 \<and> b6 \<and> \<not> b5 \<and> (b4 \<or> b3 \<or> b2 \<or> b1 \<or> b0) \<and> \<not> (b4 \<and> b3 \<and> (b2 \<or> (b1 \<and> b0))))"
  by (cases b0; cases b1; cases b2; cases b3; cases b4; cases b5; cases b6; cases b7)
     (simp_all add: is_upper_char_def)

lemma is_lower_char_code [code]:
  "is_lower_char (Char b0 b1 b2 b3 b4 b5 b6 b7) =
     (\<not> b7 \<and> b6 \<and> b5 \<and> (b4 \<or> b3 \<or> b2 \<or> b1 \<or> b0) \<and> \<not> (b4 \<and> b3 \<and> (b2 \<or> (b1 \<and> b0))))"
  by (cases b0; cases b1; cases b2; cases b3; cases b4; cases b5; cases b6; cases b7)
     (simp_all add: is_lower_char_def)

lemma is_digit_char_code [code]:
  "is_digit_char (Char b0 b1 b2 b3 b4 b5 b6 b7) =
     (\<not> b7 \<and> \<not> b6 \<and> b5 \<and> b4 \<and> \<not> (b3 \<and> (b2 \<or> b1)))"
  by (cases b0; cases b1; cases b2; cases b3; cases b4; cases b5; cases b6; cases b7)
     (simp_all add: is_digit_char_def)

lemma is_control_char_code [code]:
  "is_control_char (Char b0 b1 b2 b3 b4 b5 b6 b7) =
     (\<not> b7 \<and> (\<not> b6 \<and> \<not> b5 \<or> b6 \<and> b5 \<and> b4 \<and> b3 \<and> b2 \<and> b1 \<and> b0))"
  by (cases b0; cases b1; cases b2; cases b3; cases b4; cases b5; cases b6; cases b7)
     (simp_all add: is_control_char_def)

lemma is_space_char_code [code]:
  "is_space_char (Char b0 b1 b2 b3 b4 b5 b6 b7) =
     (\<not> b7 \<and> \<not> b6 \<and>
      (if b5 then \<not> b4 \<and> \<not> b3 \<and> \<not> b2 \<and> \<not> b1 \<and> \<not> b0
       else if b4 then b3 \<and> b2 else b3 \<and> (b2 \<or> b1 \<or> b0) \<and> \<not> (b2 \<and> b1)))"
  by (cases b0; cases b1; cases b2; cases b3; cases b4; cases b5; cases b6; cases b7)
     (simp_all add: is_space_char_def)

lemma lower_char_code [code]:
  "lower_char (Char b0 b1 b2 b3 b4 b5 b6 b7) =
     (if is_upper_char (Char b0 b1 b2 b3 b4 b5 b6 b7) then Char b0 b1 b2 b3 b4 True b6 b7
      else Char b0 b1 b2 b3 b4 b5 b6 b7)"
  by (cases b0; cases b1; cases b2; cases b3; cases b4; cases b5; cases b6; cases b7)
     (simp_all add: lower_char_def is_upper_char_def char_of_def bit_iff_odd)

lemma upper_char_code [code]:
  "upper_char (Char b0 b1 b2 b3 b4 b5 b6 b7) =
     (if is_lower_char (Char b0 b1 b2 b3 b4 b5 b6 b7) then Char b0 b1 b2 b3 b4 False b6 b7
      else Char b0 b1 b2 b3 b4 b5 b6 b7)"
  by (cases b0; cases b1; cases b2; cases b3; cases b4; cases b5; cases b6; cases b7)
     (simp_all add: upper_char_def is_lower_char_def char_of_def bit_iff_odd)

text \<open>
  What Python's \<open>unicodedata\<close> and \<open>str\<close> methods do on text with a character outside ASCII (the
  Unicode tables, which the repository does not hold), and the text \<open>str\<close> gives a float, a list or a
  dict.
\<close>

record ucd =
  u_nfkc :: "string \<Rightarrow> string"
  u_drop_ccf :: "string \<Rightarrow> string"
  u_strip :: "string \<Rightarrow> string"
  u_casefold :: "string \<Rightarrow> string"
  u_upper :: "string \<Rightarrow> string"
  u_mark_camel :: "string \<Rightarrow> string"
  u_float_str :: "pyfloat \<Rightarrow> string"
  u_container_str :: "json \<Rightarrow> string"

definition nfkc :: "ucd \<Rightarrow> string \<Rightarrow> string" where
  "nfkc u s = (if is_ascii s then s else u_nfkc u s)"

definition drop_ccf :: "ucd \<Rightarrow> string \<Rightarrow> string" where
  "drop_ccf u s = (if is_ascii s then filter (\<lambda>c. \<not> is_control_char c) s else u_drop_ccf u s)"

definition strip_ascii :: "string \<Rightarrow> string" where
  "strip_ascii s = rev (dropWhile is_space_char (rev (dropWhile is_space_char s)))"

definition py_strip :: "ucd \<Rightarrow> string \<Rightarrow> string" where
  "py_strip u s = (if is_ascii s then strip_ascii s else u_strip u s)"

definition casefold :: "ucd \<Rightarrow> string \<Rightarrow> string" where
  "casefold u s = (if is_ascii s then map lower_char s else u_casefold u s)"

definition py_upper :: "ucd \<Rightarrow> string \<Rightarrow> string" where
  "py_upper u s = (if is_ascii s then map upper_char s else u_upper u s)"

text \<open>\<open>_normalize_token\<close>: NFKC, drop control and format characters, trim, casefold.\<close>

definition clean_text :: "ucd \<Rightarrow> string \<Rightarrow> string" where
  "clean_text u raw = py_strip u (drop_ccf u (nfkc u raw))"

definition normalize_token :: "ucd \<Rightarrow> string \<Rightarrow> string" where
  "normalize_token u raw = casefold u (clean_text u raw)"

section \<open>Splitting and joining\<close>

text \<open>\<open>s.split(c)\<close> for a one-character separator.\<close>

fun split_on :: "char \<Rightarrow> string \<Rightarrow> string list" where
  "split_on c [] = [[]]"
| "split_on c (x # xs) =
     (if x = c then [] # split_on c xs
      else (case split_on c xs of [] \<Rightarrow> [[x]] | w # ws \<Rightarrow> (x # w) # ws))"

text \<open>\<open>c.join(ws)\<close>.\<close>

fun join_with :: "string \<Rightarrow> string list \<Rightarrow> string" where
  "join_with sep [] = []"
| "join_with sep [w] = w"
| "join_with sep (w # ws) = w @ sep @ join_with sep ws"

text \<open>\<open>s.split(c, 1)[1]\<close> when \<open>c\<close> occurs in \<open>s\<close>, and the part before it.\<close>

definition before_first :: "char \<Rightarrow> string \<Rightarrow> string" where
  "before_first c s = takeWhile (\<lambda>x. x \<noteq> c) s"

definition after_first :: "char \<Rightarrow> string \<Rightarrow> string" where
  "after_first c s = drop 1 (dropWhile (\<lambda>x. x \<noteq> c) s)"

text \<open>\<open>s.rsplit(c, 1)[-1]\<close>: the part after the last \<open>c\<close>, or all of \<open>s\<close>.\<close>

definition after_last :: "char \<Rightarrow> string \<Rightarrow> string" where
  "after_last c s = rev (takeWhile (\<lambda>x. x \<noteq> c) (rev s))"

text \<open>\<open>sub in s\<close>.\<close>

definition contains_text :: "string \<Rightarrow> string \<Rightarrow> bool" where
  "contains_text sub s \<longleftrightarrow> sublist sub s"

section \<open>\<open>str\<close> of a number\<close>

fun str_nat :: "nat \<Rightarrow> string" where
  "str_nat n = (if n < 10 then [char_of (48 + n)] else str_nat (n div 10) @ [char_of (48 + n mod 10)])"

declare str_nat.simps [simp del]

definition str_int :: "int \<Rightarrow> string" where
  "str_int i = (if i < 0 then CHR ''-'' # str_nat (nat (- i)) else str_nat (nat i))"

text \<open>\<open>str(x)\<close> of a decoded JSON value.\<close>

fun py_str :: "ucd \<Rightarrow> json \<Rightarrow> string" where
  "py_str u (JStr s) = s"
| "py_str u JNull = ''None''"
| "py_str u (JBool b) = (if b then ''True'' else ''False'')"
| "py_str u (JInt n) = str_int n"
| "py_str u (JFloat f) = u_float_str u f"
| "py_str u j = u_container_str u j"

section \<open>posixpath.normpath\<close>

text \<open>The loop over the components of the path: \<open>absolute\<close> says the path starts with a slash, the
  accumulator holds the kept components, last first.\<close>

fun norm_comps :: "bool \<Rightarrow> string list \<Rightarrow> string list \<Rightarrow> string list" where
  "norm_comps absolute acc [] = rev acc"
| "norm_comps absolute acc (c # cs) =
     (if c = [] \<or> c = ''.'' then norm_comps absolute acc cs
      else if c \<noteq> ''..'' \<or> (\<not> absolute \<and> acc = []) \<or> (acc \<noteq> [] \<and> hd acc = ''..'')
      then norm_comps absolute (c # acc) cs
      else norm_comps absolute (tl acc) cs)"

definition initial_slashes :: "string \<Rightarrow> nat" where
  "initial_slashes p =
     (if prefix ''//'' p \<and> \<not> prefix ''///'' p then 2 else if prefix ''/'' p then 1 else 0)"

definition normpath :: "string \<Rightarrow> string" where
  "normpath p =
     (if p = [] then ''.''
      else
        let r = replicate (initial_slashes p) CHR ''/''
                @ join_with ''/'' (norm_comps (0 < initial_slashes p) [] (split_on CHR ''/'' p))
        in if r = [] then ''.'' else r)"

section \<open>Facts about text\<close>

lemma is_ascii_Nil [simp]: "is_ascii []"
  by (simp add: is_ascii_def)

lemma is_ascii_Cons: "is_ascii (c # s) \<longleftrightarrow> code c < 128 \<and> is_ascii s"
  by (simp add: is_ascii_def)

lemma is_ascii_append: "is_ascii (s @ t) \<longleftrightarrow> is_ascii s \<and> is_ascii t"
  by (simp add: is_ascii_def)

lemma is_ascii_subset: "is_ascii s \<Longrightarrow> set t \<subseteq> set s \<Longrightarrow> is_ascii t"
  by (auto simp: is_ascii_def list_all_iff)

lemma code_lower_char: "code (lower_char c) = (if is_upper_char c then code c + 32 else code c)"
  by (simp add: lower_char_def is_upper_char_def of_char_of)

lemma code_upper_char: "code (upper_char c) = (if is_lower_char c then code c - 32 else code c)"
  by (auto simp: upper_char_def is_lower_char_def of_char_of)

lemma lower_char_idem [simp]: "lower_char (lower_char c) = lower_char c"
  by (simp add: lower_char_def is_upper_char_def of_char_of)

lemma is_control_lower [simp]: "is_control_char (lower_char c) = is_control_char c"
  by (auto simp: is_control_char_def code_lower_char is_upper_char_def)

lemma is_space_lower [simp]: "is_space_char (lower_char c) = is_space_char c"
  by (auto simp: is_space_char_def code_lower_char is_upper_char_def)

lemma is_ascii_lower [simp]: "is_ascii (map lower_char s) = is_ascii s"
  by (auto simp: is_ascii_def list_all_iff code_lower_char is_upper_char_def)

lemma set_strip_ascii: "set (strip_ascii s) \<subseteq> set s"
  by (auto simp: strip_ascii_def dest!: set_dropWhileD)

lemma is_ascii_filter: "is_ascii s \<Longrightarrow> is_ascii (filter P s)"
  by (auto simp: is_ascii_def list_all_iff)

lemma is_ascii_strip: "is_ascii s \<Longrightarrow> is_ascii (strip_ascii s)"
  using set_strip_ascii is_ascii_subset by blast

lemma dropWhile_idem [simp]: "dropWhile P (dropWhile P xs) = dropWhile P xs"
  by (induction xs) auto

lemma dropWhile_eq_self: "xs = [] \<or> \<not> P (hd xs) \<Longrightarrow> dropWhile P xs = xs"
  by (cases xs) auto

lemma hd_rev_dropWhile_rev:
  assumes "rev (dropWhile P (rev xs)) \<noteq> []"
  shows "hd (rev (dropWhile P (rev xs))) = hd xs"
proof -
  have "rev xs = takeWhile P (rev xs) @ dropWhile P (rev xs)" by simp
  then have "xs = rev (dropWhile P (rev xs)) @ rev (takeWhile P (rev xs))"
    by (metis rev_append rev_rev_ident)
  then show ?thesis using assms by (metis hd_append2)
qed

lemma strip_ascii_idem [simp]: "strip_ascii (strip_ascii s) = strip_ascii s"
proof -
  let ?P = is_space_char
  let ?t = "rev (dropWhile ?P (rev (dropWhile ?P s)))"
  have "?t = [] \<or> \<not> ?P (hd ?t)"
    by (metis hd_dropWhile hd_rev_dropWhile_rev rev_is_Nil_conv dropWhile.simps(1))
  then have "dropWhile ?P ?t = ?t" by (rule dropWhile_eq_self)
  then show ?thesis by (simp add: strip_ascii_def)
qed

lemma filter_strip_ascii:
  assumes "\<forall>c \<in> set s. P c"
  shows "filter P (strip_ascii s) = strip_ascii s"
  using assms set_strip_ascii by (fastforce simp: filter_id_conv)

lemma strip_ascii_lower: "strip_ascii (map lower_char s) = map lower_char (strip_ascii s)"
  by (simp add: strip_ascii_def dropWhile_map rev_map comp_def)

text \<open>On ASCII text the token is the lower-cased, trimmed text without control characters, and it
  is its own token.\<close>

lemma clean_text_ascii:
  "is_ascii s \<Longrightarrow> clean_text u s = strip_ascii (filter (\<lambda>c. \<not> is_control_char c) s)"
  by (simp add: clean_text_def nfkc_def drop_ccf_def py_strip_def is_ascii_filter)

lemma is_ascii_clean: "is_ascii s \<Longrightarrow> is_ascii (clean_text u s)"
  by (simp add: clean_text_ascii is_ascii_filter is_ascii_strip)

lemma normalize_token_ascii:
  "is_ascii s \<Longrightarrow>
    normalize_token u s = map lower_char (strip_ascii (filter (\<lambda>c. \<not> is_control_char c) s))"
  by (simp add: normalize_token_def casefold_def is_ascii_clean)
     (simp add: clean_text_ascii)

lemma is_ascii_normalize: "is_ascii s \<Longrightarrow> is_ascii (normalize_token u s)"
  by (simp add: normalize_token_ascii is_ascii_filter is_ascii_strip)

lemma clean_text_idem: "is_ascii s \<Longrightarrow> clean_text u (clean_text u s) = clean_text u s"
  by (simp add: clean_text_ascii is_ascii_filter is_ascii_strip filter_strip_ascii)

lemma filter_map_lower:
  "filter (\<lambda>c. \<not> is_control_char c) (map lower_char s) =
   map lower_char (filter (\<lambda>c. \<not> is_control_char c) s)"
  by (induction s) auto

lemma normalize_token_idem:
  "is_ascii s \<Longrightarrow> normalize_token u (normalize_token u s) = normalize_token u s"
  by (simp add: normalize_token_ascii is_ascii_filter is_ascii_strip filter_map_lower
        strip_ascii_lower filter_strip_ascii comp_def)

text \<open>A case variant, surrounding blanks or control characters do not change the token.\<close>

lemma normalize_token_lower: "is_ascii s \<Longrightarrow> normalize_token u (map lower_char s) = normalize_token u s"
  by (simp add: normalize_token_ascii filter_map_lower strip_ascii_lower comp_def)

section \<open>Splitting undoes joining\<close>

lemma split_on_nonempty [simp]: "split_on c s \<noteq> []"
  by (induction c s rule: split_on.induct) (auto split: list.splits)

lemma split_on_no_sep: "c \<notin> set s \<Longrightarrow> split_on c s = [s]"
  by (induction c s rule: split_on.induct) auto

lemma split_on_append: "c \<notin> set w \<Longrightarrow> split_on c (w @ c # s) = w # split_on c s"
  by (induction w) auto

lemma split_on_append_sep: "split_on c (a @ c # b) = split_on c a @ split_on c b"
  by (induction a) (auto split: list.splits simp: neq_Nil_conv)

lemma split_on_parts: "w \<in> set (split_on c s) \<Longrightarrow> c \<notin> set w"
  by (induction c s arbitrary: w rule: split_on.induct) (auto split: if_splits list.splits)

lemma split_on_join:
  "ws \<noteq> [] \<Longrightarrow> \<forall>w \<in> set ws. c \<notin> set w \<Longrightarrow> split_on c (join_with [c] ws) = ws"
  by (induction "[c]" ws rule: join_with.induct) (auto simp: split_on_no_sep split_on_append)

lemma join_with_inject:
  assumes "\<forall>w \<in> set ws. w \<noteq> [] \<and> c \<notin> set w" "\<forall>w \<in> set vs. w \<noteq> [] \<and> c \<notin> set w"
    and "join_with [c] ws = join_with [c] vs"
  shows "ws = vs"
proof -
  have e: "join_with [c] zs = [] \<longleftrightarrow> zs = []" if "\<forall>w \<in> set zs. w \<noteq> [] \<and> c \<notin> set w" for zs
    using that by (cases zs rule: list.exhaust; cases "tl zs") auto
  show ?thesis
  proof (cases "ws = [] \<or> vs = []")
    case True
    then show ?thesis using assms e by (metis join_with.simps(1))
  next
    case False
    then show ?thesis using assms split_on_join by metis
  qed
qed

section \<open>Lexical paths\<close>

lemma in_set_tlD: "x \<in> set (tl xs) \<Longrightarrow> x \<in> set xs"
  by (cases xs) auto

text \<open>
  What an absolute path means: the stack of directory names, innermost first, after walking its
  components from the root. An empty component and \<open>.\<close> stay where they are, \<open>..\<close> goes up (and
  stays at the root), any other name goes down.
\<close>

fun walk :: "string list \<Rightarrow> string list \<Rightarrow> string list" where
  "walk dirs [] = dirs"
| "walk dirs (c # cs) =
     walk (if c = [] \<or> c = ''.'' then dirs else if c = ''..'' then tl dirs else c # dirs) cs"

definition name_comp :: "string \<Rightarrow> bool" where
  "name_comp d \<longleftrightarrow> d \<noteq> [] \<and> d \<noteq> ''.'' \<and> d \<noteq> ''..''"

lemma walk_step:
  "walk dirs (c # cs) =
     walk (if name_comp c then c # dirs else if c = ''..'' then tl dirs else dirs) cs"
  by (simp add: name_comp_def)

lemma walk_names: "list_all name_comp dirs \<Longrightarrow> list_all name_comp (walk dirs cs)"
proof (induction cs arbitrary: dirs)
  case (Cons c cs)
  then have "list_all name_comp (tl dirs)" by (cases dirs) auto
  with Cons show ?case by (simp del: walk.simps add: walk_step)
qed simp

lemma set_walk: "set (walk dirs cs) \<subseteq> set dirs \<union> set cs"
proof (induction cs arbitrary: dirs)
  case (Cons c cs)
  show ?case
    using Cons.IH [of "if c = [] \<or> c = ''.'' then dirs else if c = ''..'' then tl dirs else c # dirs"]
    by (auto split: if_splits dest: in_set_tlD)
qed simp

lemma norm_comps_walk:
  "''..'' \<notin> set dirs \<Longrightarrow> norm_comps True dirs cs = rev (walk dirs cs)"
proof (induction cs arbitrary: dirs)
  case (Cons c cs)
  have "''..'' \<notin> set (tl dirs)" using Cons.prems by (auto dest: in_set_tlD)
  moreover have "dirs \<noteq> [] \<Longrightarrow> hd dirs \<noteq> ''..''" using Cons.prems by (cases dirs) auto
  ultimately show ?case using Cons by auto
qed simp

text \<open>A database for text outside ASCII that leaves it alone, for evaluating examples.\<close>

definition plain_ucd :: ucd where
  "plain_ucd = \<lparr>u_nfkc = id, u_drop_ccf = id, u_strip = id, u_casefold = id, u_upper = id,
     u_mark_camel = id, u_float_str = (\<lambda>_. ''0.0''),
     u_container_str = (\<lambda>_. ''[]'')\<rparr>"

end
