(* ===== verification/Envelope.thy ===== *)
theory Envelope
  imports PyText
begin

text \<open>
  \<open>app/envelope.py\<close>: structural validation of an action envelope and the canonicalisation of
  every field a rule reads. The definitions follow the order of
  \<open>validate_and_fill_defaults\<close>: required fields, the nonce, target, params, axes, verb,
  provenance, magnitude, approval. A raised \<open>ValidationError\<close> is an \<open>Inl\<close> value that names the
  failed check; the other exceptions the code can raise on decoded JSON are kept apart, because
  the server answers them differently.
\<close>

section \<open>Errors\<close>

datatype val_err =
    EnvelopeNotObject | ActionNotObject | VerbMissing | TargetNotObject | EnvironmentMissing
  | AxesNotObject | SessionMissing | NonceReplayed | RefNotIdentifier | SafetyNotBool
  | AmountNotNumber | MagnitudeNotObject | CountIsBool | CountNotInt | CountBelowOne
  | PhysicalNotObject | FractionInvalid

datatype pyexc = ValidationError val_err | AttributeError | TypeError | OverflowError

fun is_validation :: "pyexc \<Rightarrow> bool" where
  "is_validation (ValidationError v) = True"
| "is_validation _ = False"

section \<open>Axes and environment\<close>

definition axis_allowed :: "(string \<times> string list) list" where
  "axis_allowed =
    [(''reversibility'', [''reversible'', ''recoverable'', ''irreversible'']),
     (''blast_radius'', [''single'', ''scoped'', ''broad'', ''systemic'']),
     (''externality'', [''internal'', ''outbound'', ''physical''])]"

definition axis_members :: "string \<Rightarrow> string list" where
  "axis_members axis = (case map_of axis_allowed axis of None \<Rightarrow> [] | Some ms \<Rightarrow> ms)"

definition axis_defaults :: "(string \<times> string) list" where
  "axis_defaults =
    [(''reversibility'', ''irreversible''), (''blast_radius'', ''systemic''),
     (''externality'', ''outbound'')]"

definition env_canon :: "(string \<times> string) list" where
  "env_canon =
    [(''production'', ''production''), (''prod'', ''production''), (''prods'', ''production''),
     (''prd'', ''production''), (''live'', ''production''),
     (''staging'', ''staging''), (''stage'', ''staging''), (''stg'', ''staging''),
     (''dev'', ''dev''), (''development'', ''dev''), (''develop'', ''dev''),
     (''test'', ''dev''), (''testing'', ''dev'')]"

definition env_default :: string where
  "env_default = ''production''"

definition canonicalize_environment :: "ucd \<Rightarrow> string \<Rightarrow> string" where
  "canonicalize_environment u raw_env =
     (case map_of env_canon (normalize_token u raw_env) of
        Some e \<Rightarrow> e | None \<Rightarrow> env_default)"

section \<open>Verbs\<close>

definition spec_verbs :: "string list" where
  "spec_verbs = [''read'', ''create'', ''update'', ''delete'', ''execute'', ''transact'', ''emit'']"

definition verb_canon :: "(string \<times> string) list" where
  "verb_canon = [
    (''read'', ''read''), (''list'', ''read''), (''get'', ''read''), (''query'', ''read''),
    (''search'', ''read''), (''describe'', ''read''), (''inspect'', ''read''),
    (''select'', ''read''), (''fetch'', ''read''), (''view'', ''read''),
    (''show'', ''read''), (''head'', ''read''), (''index'', ''read''),
    (''count'', ''read''), (''exists'', ''read''), (''stat'', ''read''),
    (''ls'', ''read''), (''cat'', ''read''), (''find'', ''read''), (''scan'', ''read''),
    (''lookup'', ''read''), (''retrieve'', ''read''), (''download'', ''read''),
    (''export'', ''read''), (''check'', ''read''), (''status'', ''read''),
    (''diff'', ''read''), (''log'', ''read''), (''create'', ''create''),
    (''insert'', ''create''), (''add'', ''create''), (''new'', ''create''),
    (''make'', ''create''), (''register'', ''create''), (''provision'', ''create''),
    (''upload'', ''create''), (''import'', ''create''), (''mkdir'', ''create''),
    (''clone'', ''create''), (''copy'', ''create''), (''duplicate'', ''create''),
    (''generate'', ''create''), (''issue'', ''create''), (''mint'', ''create''),
    (''post'', ''create''), (''attach'', ''create''), (''update'', ''update''),
    (''modify'', ''update''), (''edit'', ''update''), (''patch'', ''update''),
    (''change'', ''update''), (''set'', ''update''), (''rename'', ''update''),
    (''move'', ''update''), (''alter'', ''update''), (''upsert'', ''update''),
    (''replace'', ''update''), (''put'', ''update''), (''write'', ''update''),
    (''configure'', ''update''), (''enable'', ''update''), (''disable'', ''update''),
    (''toggle'', ''update''), (''assign'', ''update''), (''grant'', ''update''),
    (''tag'', ''update''), (''label'', ''update''), (''publish_draft'', ''update''),
    (''approve'', ''update''), (''merge'', ''update''), (''delete'', ''delete''),
    (''remove'', ''delete''), (''destroy'', ''delete''), (''drop'', ''delete''),
    (''truncate'', ''delete''), (''purge'', ''delete''), (''erase'', ''delete''),
    (''wipe'', ''delete''), (''del'', ''delete''), (''rm'', ''delete''),
    (''rmdir'', ''delete''), (''unlink'', ''delete''), (''expunge'', ''delete''),
    (''clear'', ''delete''), (''flush'', ''delete''), (''evict'', ''delete''),
    (''prune'', ''delete''), (''obliterate'', ''delete''), (''nuke'', ''delete''),
    (''shred'', ''delete''), (''discard'', ''delete''), (''trash'', ''delete''),
    (''revoke'', ''delete''), (''deprovision'', ''delete''), (''terminate'', ''delete''),
    (''kill'', ''delete''), (''teardown'', ''delete''), (''destroy_all'', ''delete''),
    (''hard_delete'', ''delete''), (''soft_delete'', ''delete''),
    (''bulk_delete'', ''delete''), (''delete_all'', ''delete''),
    (''delete_many'', ''delete''), (''batch_delete'', ''delete''),
    (''mass_delete'', ''delete''), (''force_delete'', ''delete''),
    (''uninstall'', ''delete''), (''deregister'', ''delete''), (''detach'', ''delete''),
    (''unpublish'', ''delete''), (''unset'', ''delete''), (''format'', ''delete''),
    (''expire'', ''delete''), (''reset'', ''delete''), (''rotate'', ''delete''),
    (''overwrite'', ''delete''), (''compact'', ''delete''), (''vacuum'', ''delete''),
    (''restore'', ''delete''), (''execute'', ''execute''), (''exec'', ''execute''),
    (''run'', ''execute''), (''invoke'', ''execute''), (''call'', ''execute''),
    (''trigger'', ''execute''), (''deploy'', ''execute''), (''apply'', ''execute''),
    (''start'', ''execute''), (''restart'', ''execute''), (''stop'', ''execute''),
    (''launch'', ''execute''), (''schedule'', ''execute''), (''spawn'', ''execute''),
    (''rollout'', ''execute''), (''rollback'', ''execute''), (''migrate'', ''execute''),
    (''build'', ''execute''), (''compile'', ''execute''), (''sync'', ''execute''),
    (''reindex'', ''execute''), (''transact'', ''transact''), (''pay'', ''transact''),
    (''payment'', ''transact''), (''refund'', ''transact''), (''charge'', ''transact''),
    (''transfer'', ''transact''), (''withdraw'', ''transact''),
    (''deposit'', ''transact''), (''purchase'', ''transact''), (''buy'', ''transact''),
    (''sell'', ''transact''), (''invoice'', ''transact''), (''settle'', ''transact''),
    (''sign'', ''transact''), (''subscribe'', ''transact''),
    (''chargeback'', ''transact''), (''payout'', ''transact''),
    (''capture'', ''transact''), (''emit'', ''emit''), (''send'', ''emit''),
    (''publish'', ''emit''), (''notify'', ''emit''), (''email'', ''emit''),
    (''mail'', ''emit''), (''message'', ''emit''), (''broadcast'', ''emit''),
    (''dispatch'', ''emit''), (''share'', ''emit''), (''tweet'', ''emit''),
    (''webhook'', ''emit''), (''sms'', ''emit''), (''push'', ''emit''),
    (''announce'', ''emit''), (''forward'', ''emit''), (''reply'', ''emit''),
    (''post_message'', ''emit''), (''comment'', ''emit''), (''react'', ''create''),
    (''like'', ''create''), (''upvote'', ''create''), (''downvote'', ''create''),
    (''vote'', ''create''), (''star'', ''create''), (''bookmark'', ''create''),
    (''favorite'', ''create''), (''follow'', ''create''), (''annotate'', ''create''),
    (''note'', ''create''), (''rate'', ''create''), (''ping'', ''read''),
    (''heartbeat'', ''read''), (''healthcheck'', ''read''), (''acknowledge'', ''update''),
    (''mark_read'', ''update''), (''pin'', ''update''), (''watch'', ''update''),
    (''subscribe_topic'', ''update'')]"

text \<open>\<open>_VERB_CANON.get(word)\<close>, and the chain of comparisons it is evaluated by.\<close>

definition canon_of :: "string \<Rightarrow> string option" where
  "canon_of word = map_of verb_canon word"

lemmas canon_of_code [code] = canon_of_def [unfolded verb_canon_def map_of_Cons_code]

definition verb_default_irreversible :: string where
  "verb_default_irreversible = ''delete''"

definition verb_default :: string where
  "verb_default = ''update''"

definition physical_verbs :: "string list" where
  "physical_verbs = [''set'', ''mode'', ''override'', ''actuate'', ''flash'']"

text \<open>\<open>_VERB_SEPARATORS\<close>: the characters \<open>translate\<close> turns into an underscore.\<close>

definition verb_separators :: "char list" where
  "verb_separators =
     [CHR '' '', CHR ''-'', CHR ''.'', CHR ''/'', CHR '':'', CHR 0x5C, CHR 0x09]"

definition verb_guard_rank :: "(string \<times> nat) list" where
  "verb_guard_rank =
    [(''read'', 0), (''create'', 1), (''update'', 1), (''execute'', 1), (''transact'', 1),
     (''emit'', 1), (''delete'', 2)]"

definition verb_conjunctions :: "string list" where
  "verb_conjunctions = [''and'', ''or'', ''then'']"

text \<open>The loop of \<open>_split_words\<close> that puts an underscore before an upper-case letter that follows
  a lower-case letter or a digit; \<open>p\<close> is the character before.\<close>

fun mark_camel_from :: "char option \<Rightarrow> string \<Rightarrow> string" where
  "mark_camel_from p [] = []"
| "mark_camel_from p (c # cs) =
     (if is_upper_char c \<and> (case p of None \<Rightarrow> False | Some q \<Rightarrow> is_lower_char q \<or> is_digit_char q)
      then [CHR ''_'', c] else [c])
     @ mark_camel_from (Some c) cs"

definition mark_camel :: "ucd \<Rightarrow> string \<Rightarrow> string" where
  "mark_camel u raw = (if is_ascii raw then mark_camel_from None raw else u_mark_camel u raw)"

definition split_words :: "ucd \<Rightarrow> string \<Rightarrow> string list" where
  "split_words u raw =
     (let token = normalize_token u (mark_camel u raw);
          folded = map (\<lambda>c. if c \<in> set verb_separators then CHR ''_'' else c) token
      in filter (\<lambda>p. p \<noteq> []) (split_on CHR ''_'' folded))"

definition verb_key_variants :: "ucd \<Rightarrow> string \<Rightarrow> string list" where
  "verb_key_variants u raw_verb =
     (let words = split_words u raw_verb
      in normalize_token u raw_verb
         # (if words = [] then [] else [join_with ''_'' words, concat words]))"

text \<open>The election loop: the accumulator is \<open>(best_rank, best_word)\<close>, \<open>None\<close> before the first
  known word; a later word replaces it only with a strictly greater rank.\<close>

fun elect_word :: "(nat \<times> string) option \<Rightarrow> string list \<Rightarrow> (nat \<times> string) option" where
  "elect_word best [] = best"
| "elect_word best (w # ws) =
     (case canon_of w of
        None \<Rightarrow> elect_word best ws
      | Some canon \<Rightarrow>
          (let rank = the (map_of verb_guard_rank canon)
           in case best of
                None \<Rightarrow> elect_word (Some (rank, w)) ws
              | Some (r, b) \<Rightarrow>
                  if r < rank then elect_word (Some (rank, w)) ws else elect_word best ws))"

text \<open>A conjunction word followed, anywhere later, by a word the canon does not know.\<close>

fun joins_unknown :: "string list \<Rightarrow> bool" where
  "joins_unknown [] = False"
| "joins_unknown (w # ws) =
     ((w \<in> set verb_conjunctions \<and> list_ex (\<lambda>later. canon_of later = None) ws)
      \<or> joins_unknown ws)"

definition verb_last_resort_key :: "ucd \<Rightarrow> string \<Rightarrow> string \<Rightarrow> string option" where
  "verb_last_resort_key u raw_verb canonical_reversibility =
     (let words = split_words u raw_verb
      in if length words < 2 then None
         else case elect_word None words of
           None \<Rightarrow> None
         | Some (best_rank, best_word) \<Rightarrow>
             if best_rank = 0 \<and> best_word \<noteq> hd words then None
             else if best_rank = 0 \<and> joins_unknown words then None
             else if best_rank = 0 \<and> canonical_reversibility = ''irreversible'' then None
             else Some best_word)"

definition physical_verb :: "ucd \<Rightarrow> json \<Rightarrow> string option" where
  "physical_verb u raw_verb =
     (case raw_verb of
        JStr s \<Rightarrow> find (\<lambda>key. key \<in> set physical_verbs) (verb_key_variants u s)
      | _ \<Rightarrow> None)"

text \<open>The part of \<open>_canonicalize_verb\<close> after the physical case: whole-verb keys, the election, the
  reversibility default.\<close>

definition canonicalize_it_verb :: "ucd \<Rightarrow> string \<Rightarrow> string \<Rightarrow> string" where
  "canonicalize_it_verb u raw_verb rvs =
     (case find (\<lambda>key. canon_of key \<noteq> None) (verb_key_variants u raw_verb) of
        Some key \<Rightarrow> the (canon_of key)
      | None \<Rightarrow>
          (case verb_last_resort_key u raw_verb rvs of
             Some elected \<Rightarrow> the (canon_of elected)
           | None \<Rightarrow>
               if rvs = ''irreversible'' then verb_default_irreversible else verb_default))"

definition canonicalize_verb :: "ucd \<Rightarrow> string \<Rightarrow> string \<Rightarrow> string option \<Rightarrow> string" where
  "canonicalize_verb u raw_verb rvs ext =
     (case (if ext = Some ''physical'' then physical_verb u (JStr raw_verb) else None) of
        Some p \<Rightarrow> p
      | None \<Rightarrow> canonicalize_it_verb u raw_verb rvs)"

section \<open>What the caller declared\<close>

definition count_is_declared :: "json \<Rightarrow> bool" where
  "count_is_declared raw_magnitude =
     (case raw_magnitude of
        JObj m \<Rightarrow> (case dget m ''count'' of JInt n \<Rightarrow> 1 \<le> n | _ \<Rightarrow> False)
      | _ \<Rightarrow> False)"

definition axis_is_declared :: "ucd \<Rightarrow> json \<Rightarrow> string \<Rightarrow> bool" where
  "axis_is_declared u raw_value axis =
     (case raw_value of
        JStr s \<Rightarrow> normalize_token u s \<in> set (axis_members axis)
      | _ \<Rightarrow> False)"

definition environment_is_declared :: "ucd \<Rightarrow> json \<Rightarrow> bool" where
  "environment_is_declared u raw_env =
     (case raw_env of
        JStr s \<Rightarrow> map_of env_canon (normalize_token u s) \<noteq> None
      | _ \<Rightarrow> False)"

definition verb_is_declared :: "ucd \<Rightarrow> json \<Rightarrow> string option \<Rightarrow> bool" where
  "verb_is_declared u raw_verb ext =
     (case raw_verb of
        JStr s \<Rightarrow>
          (ext = Some ''physical'' \<and> physical_verb u raw_verb \<noteq> None)
          \<or> list_ex (\<lambda>key. canon_of key \<noteq> None) (verb_key_variants u s)
      | _ \<Rightarrow> False)"

definition delete_signal_from_ability :: "ucd \<Rightarrow> json \<Rightarrow> bool" where
  "delete_signal_from_ability u ability =
     (case ability of
        JStr s \<Rightarrow>
          s \<noteq> []
          \<and> list_ex (\<lambda>word. canon_of word = Some ''delete'')
              (split_words u (after_last CHR ''/'' s))
      | _ \<Rightarrow> False)"

section \<open>Money, fractions and references\<close>

definition currency_undeclared :: string where
  "currency_undeclared = ''XXX''"

definition canonicalize_currency :: "ucd \<Rightarrow> json \<Rightarrow> string" where
  "canonicalize_currency u raw =
     (case raw of
        JStr s \<Rightarrow>
          (let token = py_upper u (normalize_token u s)
           in if length token = 3 \<and> is_ascii token
                 \<and> list_all (\<lambda>c. is_upper_char c \<or> is_lower_char c) token
              then token else currency_undeclared)
      | _ \<Rightarrow> currency_undeclared)"

text \<open>\<open>math.isfinite(n)\<close> converts an \<open>int\<close> to a double and raises when it is at or beyond the
  point that rounds to \<open>2^1024\<close>.\<close>

definition double_overflow :: int where
  "double_overflow = 2 ^ 1024 - 2 ^ 970"

fun is_money_amount :: "json \<Rightarrow> pyexc + bool" where
  "is_money_amount (JInt n) =
     (if double_overflow \<le> \<bar>n\<bar> then Inl OverflowError else Inr True)"
| "is_money_amount (JFloat f) = Inr (case f of Fin _ \<Rightarrow> True | _ \<Rightarrow> False)"
| "is_money_amount _ = Inr False"

fun non_negative :: "json \<Rightarrow> bool" where
  "non_negative (JInt n) = (0 \<le> n)"
| "non_negative (JFloat (Fin r)) = (0 \<le> r)"
| "non_negative (JFloat PosInf) = True"
| "non_negative _ = False"

definition is_envelope_fraction :: "json \<Rightarrow> pyexc + bool" where
  "is_envelope_fraction raw =
     bindE (is_money_amount raw) (\<lambda>ok. Inr (ok \<and> non_negative raw))"

text \<open>\<open>while s.startswith("//"): s = s[1:]\<close>\<close>

fun drop_double_slash :: "string \<Rightarrow> string" where
  "drop_double_slash (a # b # s) =
     (if a = CHR ''/'' \<and> b = CHR ''/'' then drop_double_slash (b # s) else a # b # s)"
| "drop_double_slash s = s"

definition fold_ref :: "ucd \<Rightarrow> string \<Rightarrow> string" where
  "fold_ref u raw =
     (let cleaned = clean_text u raw
      in if cleaned = [] then []
         else if contains_text ''://'' cleaned then cleaned
         else drop_double_slash (normpath cleaned))"

fun canonicalize_target_ref :: "ucd \<Rightarrow> json \<Rightarrow> pyexc + json" where
  "canonicalize_target_ref u JNull = Inr JNull"
| "canonicalize_target_ref u (JArr _) = Inl (ValidationError RefNotIdentifier)"
| "canonicalize_target_ref u (JObj _) = Inl (ValidationError RefNotIdentifier)"
| "canonicalize_target_ref u raw = Inr (JStr (fold_ref u (py_str u raw)))"

section \<open>Validation\<close>

text \<open>\<open>_check_nonce\<close>: the store is the list of nonces seen by this process. Set membership compares
  identity first, and the JSON decoder returns one \<open>NaN\<close> object.\<close>

definition nonce_seen :: "json list \<Rightarrow> json \<Rightarrow> bool" where
  "nonce_seen seen nonce = list_ex (\<lambda>m. m = nonce \<or> py_eq m nonce) seen"

definition check_nonce :: "json list \<Rightarrow> json \<Rightarrow> json list \<times> (pyexc + unit)" where
  "check_nonce seen nonce =
     (if \<not> py_truth nonce then (seen, Inr ())
      else case nonce of
        JArr _ \<Rightarrow> (seen, Inl TypeError)
      | JObj _ \<Rightarrow> (seen, Inl TypeError)
      | _ \<Rightarrow>
          if nonce_seen seen nonce then (seen, Inl (ValidationError NonceReplayed))
          else (nonce # seen, Inr ()))"

definition meta_nonce :: "dict \<Rightarrow> pyexc + json" where
  "meta_nonce raw =
     (if \<not> py_truth (dget raw ''meta'') then Inr JNull
      else case dget raw ''meta'' of JObj m \<Rightarrow> Inr (dget m ''nonce'') | _ \<Rightarrow> Inl AttributeError)"

definition nonempty_str :: "json \<Rightarrow> bool" where
  "nonempty_str j = (case j of JStr s \<Rightarrow> s \<noteq> [] | _ \<Rightarrow> False)"

definition required_fields :: "ucd \<Rightarrow> dict \<Rightarrow> pyexc + unit" where
  "required_fields u raw =
     (let action = dget raw ''action''; target = dget raw ''target'';
          axes = dget raw ''axes''; agent = dget raw ''agent''
      in if \<not> is_obj action then Inl (ValidationError ActionNotObject)
         else if \<not> nonempty_str (dget (as_obj action) ''verb'')
         then Inl (ValidationError VerbMissing)
         else if \<not> is_obj target then Inl (ValidationError TargetNotObject)
         else if \<not> nonempty_str (dget (as_obj target) ''environment'')
         then Inl (ValidationError EnvironmentMissing)
         else if axes \<noteq> JNull \<and> \<not> is_obj axes then Inl (ValidationError AxesNotObject)
         else if \<not> is_obj agent then Inl (ValidationError SessionMissing)
         else case dget (as_obj agent) ''session_id'' of
           JStr sid \<Rightarrow>
             if py_strip u sid = [] then Inl (ValidationError SessionMissing) else Inr ()
         | _ \<Rightarrow> Inl (ValidationError SessionMissing))"

fun str_of :: "json \<Rightarrow> string" where
  "str_of (JStr s) = s"
| "str_of _ = []"

definition raw_verb :: "dict \<Rightarrow> string" where
  "raw_verb raw = str_of (dget (as_obj (dget raw ''action'')) ''verb'')"

definition raw_environment :: "dict \<Rightarrow> string" where
  "raw_environment raw = str_of (dget (as_obj (dget raw ''target'')) ''environment'')"

definition fill_target :: "ucd \<Rightarrow> dict \<Rightarrow> pyexc + dict" where
  "fill_target u raw =
     (let target = as_obj (dget raw ''target'');
          t1 = dput ''environment'' (JStr (canonicalize_environment u (raw_environment raw))) target
      in bindE
           (case map_of t1 ''ref'' of
              None \<Rightarrow> Inr t1
            | Some r \<Rightarrow> bindE (canonicalize_target_ref u r) (\<lambda>r'. Inr (dput ''ref'' r' t1)))
           (\<lambda>t2. case map_of t2 ''safety_function'' of
              None \<Rightarrow> Inr (dput ''target'' (JObj t2) raw)
            | Some (JBool b) \<Rightarrow> Inr (dput ''target'' (JObj t2) raw)
            | Some _ \<Rightarrow> Inl (ValidationError SafetyNotBool)))"

definition fill_params :: "ucd \<Rightarrow> dict \<Rightarrow> pyexc + dict" where
  "fill_params u env =
     (let raw_params = dget env ''params'';
          env1 = (if raw_params \<noteq> JNull \<and> \<not> is_obj raw_params
                  then dput ''params'' (JObj []) env else env)
      in case dget env1 ''params'' of
           JObj params \<Rightarrow>
             (let amount = dget params ''amount''
              in if amount = JNull then Inr env1
                 else bindE (is_money_amount amount) (\<lambda>money.
                   if \<not> money then Inl (ValidationError AmountNotNumber)
                   else Inr (dput ''params''
                     (JObj (dput ''currency''
                        (JStr (canonicalize_currency u (dget params ''currency''))) params))
                     env1)))
         | _ \<Rightarrow> Inr env1)"

definition coerce_axis :: "dict \<Rightarrow> string \<times> string \<Rightarrow> dict" where
  "coerce_axis axes p =
     (case dget axes (fst p) of
        JStr v \<Rightarrow>
          if v \<in> set (axis_members (fst p)) then axes else dput (fst p) (JStr (snd p)) axes
      | _ \<Rightarrow> dput (fst p) (JStr (snd p)) axes)"

definition normalized_axes :: "dict \<Rightarrow> dict" where
  "normalized_axes raw = foldl coerce_axis (as_obj (dget raw ''axes'')) axis_defaults"

definition fill_axes :: "dict \<Rightarrow> dict \<Rightarrow> dict" where
  "fill_axes raw env = dput ''axes'' (JObj (normalized_axes raw)) env"

definition canonical_axis :: "dict \<Rightarrow> string \<Rightarrow> string" where
  "canonical_axis raw axis = str_of (dget (normalized_axes raw) axis)"

definition canonical_verb :: "ucd \<Rightarrow> dict \<Rightarrow> string" where
  "canonical_verb u raw =
     (let v = canonicalize_verb u (raw_verb raw) (canonical_axis raw ''reversibility'')
                (Some (canonical_axis raw ''externality''))
      in if v \<noteq> ''delete''
            \<and> delete_signal_from_ability u (dget (as_obj (dget raw ''action'')) ''ability'')
         then ''delete'' else v)"

definition fill_verb :: "ucd \<Rightarrow> dict \<Rightarrow> dict \<Rightarrow> dict" where
  "fill_verb u raw env =
     dput ''action''
       (JObj (dput ''verb'' (JStr (canonical_verb u raw)) (as_obj (dget raw ''action''))))
       env"

definition undeclared_fields :: "ucd \<Rightarrow> dict \<Rightarrow> string list" where
  "undeclared_fields u raw =
     (let axes = as_obj (dget raw ''axes'') in
      sort (
        (if axis_is_declared u (dget axes ''reversibility'') ''reversibility'' then []
         else [''axes.reversibility''])
        @ (if axis_is_declared u (dget axes ''blast_radius'') ''blast_radius'' then []
           else [''axes.blast_radius''])
        @ (if axis_is_declared u (dget axes ''externality'') ''externality'' then []
           else [''axes.externality''])
        @ (if environment_is_declared u (JStr (raw_environment raw)) then []
           else [''target.environment''])
        @ (if verb_is_declared u (JStr (raw_verb raw)) (Some (canonical_axis raw ''externality''))
           then [] else [''action.verb''])
        @ (if count_is_declared (dget raw ''magnitude'') then [] else [''magnitude.count''])))"

definition fill_provenance :: "ucd \<Rightarrow> dict \<Rightarrow> dict \<Rightarrow> dict" where
  "fill_provenance u raw env =
     dput ''provenance'' (JObj [(''undeclared'', JArr (map JStr (undeclared_fields u raw)))]) env"

definition check_count :: "dict \<Rightarrow> pyexc + dict" where
  "check_count magnitude =
     (case dget magnitude ''count'' of
        JNull \<Rightarrow> Inr (dput ''count'' (JInt 1) magnitude)
      | JBool _ \<Rightarrow> Inl (ValidationError CountIsBool)
      | JInt n \<Rightarrow>
          if n < 1 then Inl (ValidationError CountBelowOne)
          else Inr (dput ''count'' (JInt n) magnitude)
      | _ \<Rightarrow> Inl (ValidationError CountNotInt))"

definition check_physical :: "dict \<Rightarrow> pyexc + unit" where
  "check_physical magnitude =
     (case map_of magnitude ''physical'' of
        None \<Rightarrow> Inr ()
      | Some (JObj p) \<Rightarrow>
          (case map_of p ''envelope_fraction'' of
             None \<Rightarrow> Inr ()
           | Some f \<Rightarrow>
               bindE (is_envelope_fraction f) (\<lambda>ok.
                 if ok then Inr () else Inl (ValidationError FractionInvalid)))
      | Some _ \<Rightarrow> Inl (ValidationError PhysicalNotObject))"

definition fill_magnitude :: "dict \<Rightarrow> dict \<Rightarrow> pyexc + dict" where
  "fill_magnitude raw env =
     (let raw_magnitude = dget raw ''magnitude''
      in if raw_magnitude \<noteq> JNull \<and> \<not> is_obj raw_magnitude
         then Inl (ValidationError MagnitudeNotObject)
         else bindE (check_count (as_obj raw_magnitude)) (\<lambda>magnitude.
                bindE (check_physical magnitude) (\<lambda>_.
                  Inr (dput ''magnitude'' (JObj magnitude) env))))"

fun is_bool :: "json \<Rightarrow> bool" where
  "is_bool (JBool _) = True"
| "is_bool _ = False"

definition fill_approval :: "dict \<Rightarrow> dict \<Rightarrow> dict" where
  "fill_approval raw env =
     (let approval = as_obj (dget raw ''approval'')
      in dput ''approval''
           (JObj (if is_bool (dget approval ''present'') then approval
                  else dput ''present'' (JBool False) approval))
           env)"

text \<open>The normalised copy, once the required fields and the nonce have passed.\<close>

definition fill_defaults :: "ucd \<Rightarrow> dict \<Rightarrow> pyexc + dict" where
  "fill_defaults u raw =
     bindE (fill_target u raw) (\<lambda>e1.
     bindE (fill_params u e1) (\<lambda>e2.
     bindE (fill_magnitude raw (fill_provenance u raw (fill_verb u raw (fill_axes raw e2)))) (\<lambda>e3.
     Inr (fill_approval raw e3))))"

definition validate_and_fill_defaults ::
  "ucd \<Rightarrow> json list \<Rightarrow> json \<Rightarrow> json list \<times> (pyexc + dict)" where
  "validate_and_fill_defaults u seen raw =
     (case raw of
        JObj d \<Rightarrow>
          (case bindE (required_fields u d) (\<lambda>_. meta_nonce d) of
             Inl e \<Rightarrow> (seen, Inl e)
           | Inr nonce \<Rightarrow>
               (let (seen', r) = check_nonce seen nonce
                in (seen', bindE r (\<lambda>_. fill_defaults u d))))
      | _ \<Rightarrow> (seen, Inl (ValidationError EnvelopeNotObject)))"

section \<open>Facts about the tables and the verb canon\<close>

lemma verb_canon_values: "canon_of w = Some v \<Longrightarrow> v \<in> set spec_verbs"
proof -
  have "list_all (\<lambda>p. snd p \<in> set spec_verbs) verb_canon" by code_simp
  then show "canon_of w = Some v \<Longrightarrow> v \<in> set spec_verbs"
    by (auto simp: list_all_iff canon_of_def dest!: map_of_SomeD)
qed

lemma spec_verbs_ranked: "v \<in> set spec_verbs \<Longrightarrow> map_of verb_guard_rank v \<noteq> None"
  by (auto simp: spec_verbs_def verb_guard_rank_def)

lemma spec_verbs_canonical: "v \<in> set spec_verbs \<Longrightarrow> canon_of v = Some v"
  by (simp only: spec_verbs_def list.set insert_iff empty_iff)
     (elim disjE; simp only: canon_of_def verb_canon_def lookup_simps)

lemma rank_zero_read: "v \<in> set spec_verbs \<Longrightarrow> the (map_of verb_guard_rank v) = 0 \<longleftrightarrow> v = ''read''"
  by (auto simp: spec_verbs_def verb_guard_rank_def)

lemma env_canon_values:
  "map_of env_canon k = Some v \<Longrightarrow> v \<in> {''production'', ''staging'', ''dev''}"
  by (auto simp: env_canon_def split: if_splits)

lemma canonicalize_environment_closed:
  "canonicalize_environment u s \<in> {''production'', ''staging'', ''dev''}"
  using env_canon_values by (auto simp: canonicalize_environment_def env_default_def split: option.splits)

text \<open>What the election returns: a known word of the list, of the rank it reports, and no later
  known word has a greater one.\<close>

definition word_rank :: "string \<Rightarrow> nat" where
  "word_rank w = the (map_of verb_guard_rank (the (canon_of w)))"

lemma elect_word_step:
  "elect_word best (w # ws) =
     (if canon_of w = None then elect_word best ws
      else case best of
        None \<Rightarrow> elect_word (Some (word_rank w, w)) ws
      | Some (r, b) \<Rightarrow>
          if r < word_rank w then elect_word (Some (word_rank w, w)) ws else elect_word best ws)"
  by (auto simp: word_rank_def Let_def split: option.splits)

declare elect_word.simps(2) [simp del]

lemma elect_word_Some:
  "elect_word best ws = Some (r, w) \<Longrightarrow>
     best = Some (r, w) \<or> (w \<in> set ws \<and> canon_of w \<noteq> None \<and> r = word_rank w)"
proof (induction ws arbitrary: best)
  case (Cons x xs)
  show ?case
  proof (cases "canon_of x = None")
    case True
    then show ?thesis using Cons by (auto simp: elect_word_step)
  next
    case False
    have step: "elect_word (Some (word_rank x, x)) xs = Some (r, w) \<Longrightarrow> ?thesis"
      using Cons.IH [of "Some (word_rank x, x)"] False by auto
    show ?thesis
      using Cons.prems Cons.IH [of best] False step
      by (cases best) (auto simp del: not_None_eq simp: elect_word_step split: if_splits)
  qed
qed simp

lemma elect_word_ge: "elect_word (Some (r, b)) ws = Some (r', w) \<Longrightarrow> r \<le> r'"
proof (induction ws arbitrary: r b)
  case (Cons x xs)
  then show ?case by (fastforce simp: elect_word_step split: if_splits)
qed simp

lemma elect_word_defined: "\<exists>r' w. elect_word (Some (r, b)) ws = Some (r', w)"
  by (induction ws arbitrary: r b) (auto simp: elect_word_step)

lemma elect_word_max:
  assumes "elect_word best ws = Some (r, w)" "x \<in> set ws" "canon_of x \<noteq> None"
  shows "word_rank x \<le> r"
  using assms
proof (induction ws arbitrary: best)
  case (Cons y ys)
  show ?case
  proof (cases "x \<in> set ys")
    case True
    then show ?thesis using Cons by (auto simp: elect_word_step split: if_splits option.splits)
  next
    case False
    then have "y = x" using Cons by simp
    then show ?thesis using Cons.prems
      by (fastforce simp: elect_word_step split: if_splits option.splits dest: elect_word_ge)
  qed
qed simp

lemma last_resort_elected:
  assumes "verb_last_resort_key u raw rv = Some w"
  obtains r where "elect_word None (split_words u raw) = Some (r, w)"
    and "r = word_rank w" and "w \<in> set (split_words u raw)" and "canon_of w \<noteq> None"
    and "r = 0 \<longrightarrow> w = hd (split_words u raw) \<and> rv \<noteq> ''irreversible''"
proof -
  obtain r where e: "elect_word None (split_words u raw) = Some (r, w)"
    and z: "r = 0 \<longrightarrow> w = hd (split_words u raw) \<and> rv \<noteq> ''irreversible''"
    using assms
    by (auto simp: verb_last_resort_key_def Let_def split: option.splits prod.splits if_splits)
  show thesis
    by (rule that [OF e]) (use elect_word_Some [OF e] z in auto)
qed

lemma last_resort_max:
  "verb_last_resort_key u raw rv = Some w \<Longrightarrow> x \<in> set (split_words u raw) \<Longrightarrow>
     canon_of x \<noteq> None \<Longrightarrow> word_rank x \<le> word_rank w"
  by (metis last_resort_elected elect_word_max)

section \<open>The normalised copy, field by field\<close>

lemma validate_Inr:
  assumes "validate_and_fill_defaults u seen raw = (seen', Inr env)"
  obtains d nonce where "raw = JObj d" "required_fields u d = Inr ()" "meta_nonce d = Inr nonce"
    "check_nonce seen nonce = (seen', Inr ())" "fill_defaults u d = Inr env"
  using assms
  by (auto simp: validate_and_fill_defaults_def py_simps split: json.splits sum.splits prod.splits)

lemma fill_params_other:
  "fill_params u e = Inr e' \<Longrightarrow> j \<noteq> ''params'' \<Longrightarrow> map_of e' j = map_of e j"
  by (auto simp: fill_params_def Let_def py_simps split: json.splits if_splits)

lemma fill_target_shape:
  assumes "fill_target u raw = Inr e"
  obtains t where "e = dput ''target'' (JObj t) raw"
    and "map_of t ''environment'' = Some (JStr (canonicalize_environment u (raw_environment raw)))"
    and "case map_of (as_obj (dget raw ''target'')) ''ref'' of
           None \<Rightarrow> map_of t ''ref'' = None
         | Some r \<Rightarrow> \<exists>r'. canonicalize_target_ref u r = Inr r' \<and> map_of t ''ref'' = Some r'"
    and "map_of t ''safety_function'' \<in> {None, Some (JBool True), Some (JBool False)}"
    and "\<And>k. k \<notin> {''environment'', ''ref''} \<Longrightarrow> map_of t k = map_of (as_obj (dget raw ''target'')) k"
proof -
  let ?t1 = "dput ''environment'' (JStr (canonicalize_environment u (raw_environment raw)))
               (as_obj (dget raw ''target''))"
  obtain t where t: "(case map_of ?t1 ''ref'' of None \<Rightarrow> Inr ?t1
            | Some r \<Rightarrow> bindE (canonicalize_target_ref u r) (\<lambda>r'. Inr (dput ''ref'' r' ?t1))) = Inr t"
    and s: "(case map_of t ''safety_function'' of
              None \<Rightarrow> Inr (dput ''target'' (JObj t) raw)
            | Some (JBool b) \<Rightarrow> Inr (dput ''target'' (JObj t) raw)
            | Some _ \<Rightarrow> Inl (ValidationError SafetyNotBool)) = Inr e"
    using assms unfolding fill_target_def Let_def bindE_Inr_iff by blast
  show thesis
  proof (rule that [of t])
    show "e = dput ''target'' (JObj t) raw" using s by (auto split: option.splits json.splits)
    show "map_of t ''environment'' = Some (JStr (canonicalize_environment u (raw_environment raw)))"
      using t by (auto simp: py_simps split: option.splits)
    show "case map_of (as_obj (dget raw ''target'')) ''ref'' of
           None \<Rightarrow> map_of t ''ref'' = None
         | Some r \<Rightarrow> \<exists>r'. canonicalize_target_ref u r = Inr r' \<and> map_of t ''ref'' = Some r'"
      using t by (auto simp: py_simps split: option.splits)
    show "map_of t ''safety_function'' \<in> {None, Some (JBool True), Some (JBool False)}"
      using s by (auto split: option.splits json.splits)
    show "\<And>k. k \<notin> {''environment'', ''ref''} \<Longrightarrow> map_of t k = map_of (as_obj (dget raw ''target'')) k"
      using t by (auto simp: py_simps split: option.splits)
  qed
qed

lemma fill_defaults_shape:
  assumes "fill_defaults u raw = Inr env"
  obtains e1 e2 m where "fill_target u raw = Inr e1" "fill_params u e1 = Inr e2"
    "check_count (as_obj (dget raw ''magnitude'')) = Inr m" "check_physical m = Inr ()"
    "env = fill_approval raw (dput ''magnitude'' (JObj m)
             (fill_provenance u raw (fill_verb u raw (fill_axes raw e2))))"
  using assms
  by (auto simp: fill_defaults_def fill_magnitude_def Let_def py_simps split: if_splits)

lemma fill_defaults_get:
  assumes "fill_defaults u raw = Inr env"
  shows "dget env ''axes'' = JObj (normalized_axes raw)"
    and "dget env ''action'' =
           JObj (dput ''verb'' (JStr (canonical_verb u raw)) (as_obj (dget raw ''action'')))"
    and "dget env ''provenance'' = JObj [(''undeclared'', JArr (map JStr (undeclared_fields u raw)))]"
    and "\<exists>m. dget env ''magnitude'' = JObj m \<and> check_count (as_obj (dget raw ''magnitude'')) = Inr m
             \<and> check_physical m = Inr ()"
    and "\<exists>t. dget env ''target'' = JObj t \<and> fill_target u raw = Inr (dput ''target'' (JObj t) raw)"
    and "dget env ''approval'' = dget (fill_approval raw []) ''approval''"
    and "\<exists>e1 e2. fill_params u e1 = Inr e2 \<and> dget e1 ''params'' = dget raw ''params''
              \<and> dget env ''params'' = dget e2 ''params''"
proof -
  obtain e1 e2 m where e1: "fill_target u raw = Inr e1" and e2: "fill_params u e1 = Inr e2"
    and m: "check_count (as_obj (dget raw ''magnitude'')) = Inr m" "check_physical m = Inr ()"
    and env: "env = fill_approval raw (dput ''magnitude'' (JObj m)
             (fill_provenance u raw (fill_verb u raw (fill_axes raw e2))))"
    using assms by (rule fill_defaults_shape)
  obtain t where t: "e1 = dput ''target'' (JObj t) raw" using e1 by (rule fill_target_shape)
  note defs = env fill_approval_def fill_provenance_def fill_verb_def fill_axes_def Let_def
  show "dget env ''axes'' = JObj (normalized_axes raw)" by (simp add: defs)
  show "dget env ''action'' =
           JObj (dput ''verb'' (JStr (canonical_verb u raw)) (as_obj (dget raw ''action'')))"
    by (simp add: defs)
  show "dget env ''provenance'' = JObj [(''undeclared'', JArr (map JStr (undeclared_fields u raw)))]"
    by (simp add: defs)
  show "\<exists>m. dget env ''magnitude'' = JObj m \<and> check_count (as_obj (dget raw ''magnitude'')) = Inr m
             \<and> check_physical m = Inr ()"
    using m by (simp add: defs)
  show "\<exists>t. dget env ''target'' = JObj t \<and> fill_target u raw = Inr (dput ''target'' (JObj t) raw)"
  proof -
    have "dget e2 ''target'' = JObj t"
      using fill_params_other [OF e2, of "''target''"] t by (simp add: dget_def)
    then have "dget env ''target'' = JObj t" by (simp add: defs)
    then show ?thesis using e1 t by blast
  qed
  show "dget env ''approval'' = dget (fill_approval raw []) ''approval''"
    by (simp add: defs dget_def)
  show "\<exists>e1 e2. fill_params u e1 = Inr e2 \<and> dget e1 ''params'' = dget raw ''params''
              \<and> dget env ''params'' = dget e2 ''params''"
  proof (intro exI conjI)
    show "fill_params u e1 = Inr e2" by (rule e2)
    show "dget e1 ''params'' = dget raw ''params''" by (simp add: t)
    show "dget env ''params'' = dget e2 ''params''" by (simp add: defs)
  qed
qed

text \<open>The value each axis ends with, by the code's rule: an exact member stays, anything else is the
  default.\<close>

definition coerced_axis :: "json \<Rightarrow> string \<Rightarrow> string \<Rightarrow> string" where
  "coerced_axis raw_value axis dflt =
     (case raw_value of JStr v \<Rightarrow> if v \<in> set (axis_members axis) then v else dflt | _ \<Rightarrow> dflt)"

lemma dget_coerce_axis:
  "dget (coerce_axis axes p) j =
     (if j = fst p then JStr (coerced_axis (dget axes j) j (snd p)) else dget axes j)"
  by (simp add: coerce_axis_def coerced_axis_def split: json.splits)

lemma canonical_axis_eq:
  "p \<in> set axis_defaults \<Longrightarrow>
     dget (normalized_axes raw) (fst p) =
       JStr (coerced_axis (dget (as_obj (dget raw ''axes'')) (fst p)) (fst p) (snd p))"
  by (simp add: axis_defaults_def normalized_axes_def)
     (elim disjE; simp add: dget_coerce_axis)

lemma coerced_axis_member:
  assumes "p \<in> set axis_defaults"
  shows "coerced_axis v (fst p) (snd p) \<in> set (axis_members (fst p))"
proof -
  have "snd p \<in> set (axis_members (fst p))"
    using assms by (auto simp: axis_defaults_def axis_members_def axis_allowed_def)
  then show ?thesis by (simp add: coerced_axis_def split: json.splits)
qed

lemma normalized_axes_member:
  "p \<in> set axis_defaults \<Longrightarrow>
     \<exists>v. dget (normalized_axes raw) (fst p) = JStr v \<and> v \<in> set (axis_members (fst p))"
  using canonical_axis_eq coerced_axis_member by blast

text \<open>The verb is a member of the closed set, or a physical verb on a physical envelope.\<close>

lemma canonicalize_it_verb_spec: "canonicalize_it_verb u v rv \<in> set spec_verbs"
proof -
  have d: "verb_default_irreversible \<in> set spec_verbs" "verb_default \<in> set spec_verbs"
    by (simp_all add: verb_default_irreversible_def verb_default_def spec_verbs_def)
  have f: "find (\<lambda>key. canon_of key \<noteq> None) xs = Some k \<Longrightarrow>
             the (canon_of k) \<in> set spec_verbs" for xs k
    using verb_canon_values by (fastforce simp: find_Some_iff)
  have e: "verb_last_resort_key u v rv = Some w \<Longrightarrow> the (canon_of w) \<in> set spec_verbs" for w
    using verb_canon_values by (metis last_resort_elected option.exhaust_sel)
  show ?thesis
    unfolding canonicalize_it_verb_def using d f e by (auto simp del: not_None_eq split: option.splits)
qed

lemma physical_verb_member: "physical_verb u j = Some p \<Longrightarrow> p \<in> set physical_verbs"
  by (auto simp: physical_verb_def find_Some_iff split: json.splits)

lemma canonicalize_verb_closed:
  "canonicalize_verb u v rv ext \<in> set spec_verbs
   \<or> (ext = Some ''physical'' \<and> canonicalize_verb u v rv ext \<in> set physical_verbs)"
  using canonicalize_it_verb_spec physical_verb_member
  by (auto simp: canonicalize_verb_def split: option.splits)

lemma canonical_verb_closed:
  "canonical_verb u raw \<in> set spec_verbs
   \<or> (canonical_axis raw ''externality'' = ''physical'' \<and> canonical_verb u raw \<in> set physical_verbs)"
proof -
  have "''delete'' \<in> set spec_verbs" by (simp add: spec_verbs_def)
  then show ?thesis
    using canonicalize_verb_closed [of u "raw_verb raw" "canonical_axis raw ''reversibility''"
        "Some (canonical_axis raw ''externality'')"]
    by (auto simp: canonical_verb_def Let_def)
qed

text \<open>A verb core did not recognise whole never becomes \<open>read\<close> on an irreversible action.\<close>

lemma word_rank_zero: "canon_of w \<noteq> None \<Longrightarrow>
   word_rank w = 0 \<longleftrightarrow> canon_of w = Some ''read''"
  using rank_zero_read verb_canon_values by (auto simp: word_rank_def)

lemma it_verb_read:
  assumes "canonicalize_it_verb u v rv = ''read''"
  shows "list_ex (\<lambda>key. canon_of key \<noteq> None) (verb_key_variants u v)
         \<or> (rv \<noteq> ''irreversible'' \<and> (\<exists>ws. split_words u v = ws \<and> 2 \<le> length ws
              \<and> canon_of (hd ws) = Some ''read'' \<and> \<not> joins_unknown ws
              \<and> list_all (\<lambda>w. canon_of w \<in> {None, Some ''read''}) ws))"
proof (cases "find (\<lambda>key. canon_of key \<noteq> None) (verb_key_variants u v)")
  case (Some k)
  then show ?thesis by (auto simp: find_Some_iff list_ex_iff)
next
  case None
  have nd: "verb_default_irreversible \<noteq> ''read''" "verb_default \<noteq> ''read''"
    by (simp_all add: verb_default_irreversible_def verb_default_def)
  with None assms obtain w where lr: "verb_last_resort_key u v rv = Some w"
    and c: "the (canon_of w) = ''read''"
    by (auto simp del: not_None_eq simp: canonicalize_it_verb_def split: option.splits if_splits)
  obtain r where r: "elect_word None (split_words u v) = Some (r, w)" "r = word_rank w"
    and "w \<in> set (split_words u v)" and kn: "canon_of w \<noteq> None"
    and h: "r = 0 \<longrightarrow> w = hd (split_words u v) \<and> rv \<noteq> ''irreversible''"
    using lr by (rule last_resort_elected)
  have w: "canon_of w = Some ''read''" using c kn by auto
  then have r0: "r = 0" using word_rank_zero [OF kn] r(2) by simp
  have all: "canon_of x \<in> {None, Some ''read''}" if "x \<in> set (split_words u v)" for x
  proof (cases "canon_of x = None")
    case False
    then have "word_rank x = 0" using elect_word_max [OF r(1) that False] r0 by simp
    then show ?thesis using word_rank_zero [OF False] by blast
  qed blast
  have "2 \<le> length (split_words u v) \<and> \<not> joins_unknown (split_words u v)"
    using lr r r0 by (auto simp: verb_last_resort_key_def Let_def split: if_splits)
  then show ?thesis using h r0 w all by (auto simp: list_all_iff)
qed

section \<open>References\<close>

lemma join_no_lead_slash:
  "\<forall>w \<in> set ws. w \<noteq> [] \<and> CHR ''/'' \<notin> set w \<Longrightarrow>
     join_with ''/'' ws = [] \<or> hd (join_with ''/'' ws) \<noteq> CHR ''/''"
proof (cases ws)
  case (Cons w vs)
  moreover assume "\<forall>w \<in> set ws. w \<noteq> [] \<and> CHR ''/'' \<notin> set w"
  ultimately obtain c w' where "w = c # w'" "c \<noteq> CHR ''/''" by (cases w) auto
  then show ?thesis using Cons by (cases vs) auto
qed simp

lemma drop_double_slash_lead:
  "j = [] \<or> hd j \<noteq> CHR ''/'' \<Longrightarrow> drop_double_slash (CHR ''/'' # j) = CHR ''/'' # j"
  by (cases j) auto

lemma walk_split_names:
  "\<forall>w \<in> set (rev (walk [] (split_on CHR ''/'' p))). w \<noteq> [] \<and> CHR ''/'' \<notin> set w"
  using walk_names [of "[]" "split_on CHR ''/'' p"] set_walk [of "[]" "split_on CHR ''/'' p"]
  by (auto simp: list_all_iff name_comp_def dest: split_on_parts)

lemma fold_ref_absolute:
  assumes "clean_text u s = CHR ''/'' # p" and "\<not> contains_text ''://'' (CHR ''/'' # p)"
  shows "fold_ref u s = CHR ''/'' # join_with ''/'' (rev (walk [] (split_on CHR ''/'' p)))"
proof -
  let ?j = "join_with ''/'' (rev (walk [] (split_on CHR ''/'' p)))"
  have n: "norm_comps True [] (split_on CHR ''/'' (CHR ''/'' # p)) = rev (walk [] (split_on CHR ''/'' p))"
    by (simp add: norm_comps_walk)
  have i: "initial_slashes (CHR ''/'' # p) = 1 \<or> initial_slashes (CHR ''/'' # p) = 2"
    by (simp add: initial_slashes_def)
  then have "normpath (CHR ''/'' # p) \<in> {CHR ''/'' # ?j, CHR ''/'' # CHR ''/'' # ?j}"
    using n by (auto simp: normpath_def Let_def numeral_2_eq_2 simp del: split_on.simps)
  moreover have "drop_double_slash (CHR ''/'' # ?j) = CHR ''/'' # ?j"
    by (rule drop_double_slash_lead) (rule join_no_lead_slash [OF walk_split_names])
  ultimately have "drop_double_slash (normpath (CHR ''/'' # p)) = CHR ''/'' # ?j" by auto
  then show ?thesis using assms by (simp add: fold_ref_def)
qed

section \<open>The nonce store\<close>

lemma check_nonce_store:
  "check_nonce seen n = (seen', r) \<Longrightarrow> nonce_seen seen m \<Longrightarrow> nonce_seen seen' m"
  by (auto simp: check_nonce_def nonce_seen_def split: if_splits json.splits)

lemma check_nonce_records:
  "check_nonce seen n = (seen', r) \<Longrightarrow> py_truth n \<Longrightarrow> \<not> is_arr n \<Longrightarrow> \<not> is_obj n \<Longrightarrow>
     nonce_seen seen' n"
  by (auto simp: check_nonce_def nonce_seen_def split: if_splits json.splits)

lemma check_nonce_refuses:
  "nonce_seen seen n \<Longrightarrow> py_truth n \<Longrightarrow> \<exists>e. snd (check_nonce seen n) = Inl e"
  by (auto simp: check_nonce_def split: json.splits)

lemma validate_store:
  "validate_and_fill_defaults u seen raw = (seen', r) \<Longrightarrow> nonce_seen seen m \<Longrightarrow> nonce_seen seen' m"
  by (auto simp: validate_and_fill_defaults_def Let_def check_nonce_store
      split: json.splits sum.splits prod.splits)

text \<open>The service's handling of a sequence of requests: one nonce store, one result each.\<close>

fun run_validations :: "ucd \<Rightarrow> json list \<Rightarrow> json list \<Rightarrow> (pyexc + dict) list" where
  "run_validations u seen [] = []"
| "run_validations u seen (r # rs) =
     (let (seen', res) = validate_and_fill_defaults u seen r
      in res # run_validations u seen' rs)"

lemma run_validations_seen:
  assumes "nonce_seen seen n" "py_truth n" "j < length reqs" "reqs ! j = JObj d" "meta_nonce d = Inr n"
  shows "\<exists>e. run_validations u seen reqs ! j = Inl e"
  using assms
proof (induction reqs arbitrary: seen j)
  case (Cons r rs)
  obtain seen' res where v: "validate_and_fill_defaults u seen r = (seen', res)" by fastforce
  show ?case
  proof (cases j)
    case 0
    have "\<exists>e. res = Inl e"
      using v 0 Cons.prems check_nonce_refuses [of seen n]
      by (auto simp: validate_and_fill_defaults_def Let_def py_simps split: sum.splits prod.splits)
    then show ?thesis using 0 v by auto
  next
    case (Suc k)
    then show ?thesis using v Cons validate_store [OF v] by auto
  qed
qed simp

section \<open>Money and fractions\<close>

text \<open>What the budgets read of an accepted envelope.\<close>

fun finite_number :: "json \<Rightarrow> bool" where
  "finite_number (JInt n) = (\<bar>n\<bar> < double_overflow)"
| "finite_number (JFloat (Fin r)) = True"
| "finite_number _ = False"

definition currency_code :: "string \<Rightarrow> bool" where
  "currency_code c \<longleftrightarrow> length c = 3 \<and> is_ascii c \<and> list_all (\<lambda>x. is_upper_char x \<or> is_lower_char x) c"

lemma is_money_amount_Inr: "is_money_amount j = Inr b \<Longrightarrow> b = finite_number j"
  by (cases j rule: finite_number.cases) (auto split: if_splits)

lemma is_money_amount_Inl:
  "is_money_amount j = Inl e \<longleftrightarrow> e = OverflowError \<and> (\<exists>n. j = JInt n \<and> double_overflow \<le> \<bar>n\<bar>)"
  by (cases j) (auto split: if_splits pyfloat.splits)

lemma canonicalize_currency_code: "currency_code (canonicalize_currency u raw)"
  by (auto simp: canonicalize_currency_def currency_code_def currency_undeclared_def Let_def
      is_ascii_def is_upper_char_def split: json.splits)

definition params_ok :: "json \<Rightarrow> bool" where
  "params_ok j =
     (case j of
        JObj p \<Rightarrow>
          dget p ''amount'' = JNull
          \<or> finite_number (dget p ''amount'')
            \<and> (case dget p ''currency'' of JStr c \<Rightarrow> currency_code c | _ \<Rightarrow> False)
      | JNull \<Rightarrow> True
      | _ \<Rightarrow> False)"

definition magnitude_ok :: "json \<Rightarrow> bool" where
  "magnitude_ok j =
     (case j of
        JObj m \<Rightarrow>
          (case dget m ''count'' of JInt n \<Rightarrow> 1 \<le> n | _ \<Rightarrow> False)
          \<and> (case map_of m ''physical'' of
               None \<Rightarrow> True
             | Some (JObj p) \<Rightarrow>
                 (case map_of p ''envelope_fraction'' of
                    None \<Rightarrow> True | Some f \<Rightarrow> finite_number f \<and> non_negative f)
             | Some _ \<Rightarrow> False)
      | _ \<Rightarrow> False)"

definition budget_inputs_ok :: "dict \<Rightarrow> bool" where
  "budget_inputs_ok env \<longleftrightarrow>
     magnitude_ok (dget env ''magnitude'') \<and> params_ok (dget env ''params'')"

lemma check_count_Inr:
  "check_count m0 = Inr m \<Longrightarrow> (case dget m ''count'' of JInt n \<Rightarrow> 1 \<le> n | _ \<Rightarrow> False)
     \<and> map_of m ''physical'' = map_of m0 ''physical''"
  by (auto simp: check_count_def split: json.splits if_splits)

lemma check_physical_Inr:
  assumes "check_physical m = Inr ()"
  shows "case map_of m ''physical'' of
           None \<Rightarrow> True
         | Some (JObj p) \<Rightarrow>
             (case map_of p ''envelope_fraction'' of
                None \<Rightarrow> True | Some f \<Rightarrow> finite_number f \<and> non_negative f)
         | Some _ \<Rightarrow> False"
proof (cases "map_of m ''physical''")
  case (Some j)
  then obtain p where j: "j = JObj p" using assms by (cases j) (auto simp: check_physical_def)
  show ?thesis
    using assms Some j
    by (auto simp: check_physical_def is_envelope_fraction_def py_simps
        split: option.splits if_splits dest: is_money_amount_Inr)
qed simp

lemma fill_params_Inr:
  assumes "fill_params u e = Inr e'"
  shows "params_ok (dget e' ''params'')"
proof -
  define e1 where "e1 = (if dget e ''params'' \<noteq> JNull \<and> \<not> is_obj (dget e ''params'')
                         then dput ''params'' (JObj []) e else e)"
  have n: "dget e1 ''params'' = JNull \<or> (\<exists>p. dget e1 ''params'' = JObj p)"
    by (cases "dget e ''params''") (simp_all add: e1_def)
  have eq: "fill_params u e = (case dget e1 ''params'' of
           JObj params \<Rightarrow>
             (let amount = dget params ''amount''
              in if amount = JNull then Inr e1
                 else bindE (is_money_amount amount) (\<lambda>money.
                   if \<not> money then Inl (ValidationError AmountNotNumber)
                   else Inr (dput ''params''
                     (JObj (dput ''currency''
                        (JStr (canonicalize_currency u (dget params ''currency''))) params))
                     e1)))
         | _ \<Rightarrow> Inr e1)"
    by (simp only: fill_params_def e1_def Let_def)
  from n show ?thesis
  proof
    assume "dget e1 ''params'' = JNull"
    then show ?thesis using eq assms by (simp add: params_ok_def)
  next
    assume "\<exists>p. dget e1 ''params'' = JObj p"
    then obtain p where p: "dget e1 ''params'' = JObj p" ..
    show ?thesis
    proof (cases "dget p ''amount'' = JNull")
      case True
      then show ?thesis using eq assms p by (simp add: params_ok_def)
    next
      case False
      then show ?thesis
        using assms [unfolded eq] p is_money_amount_Inr [of "dget p ''amount''" True]
        by (auto simp: params_ok_def py_simps canonicalize_currency_code split: if_splits)
    qed
  qed
qed

lemma budget_inputs:
  assumes "fill_defaults u raw = Inr env"
  shows "budget_inputs_ok env"
proof -
  obtain m where m: "dget env ''magnitude'' = JObj m"
    "check_count (as_obj (dget raw ''magnitude'')) = Inr m" "check_physical m = Inr ()"
    using fill_defaults_get(4) [OF assms] by blast
  have "magnitude_ok (JObj m)"
    using check_count_Inr [OF m(2)] check_physical_Inr [OF m(3)] by (simp add: magnitude_ok_def)
  moreover have "params_ok (dget env ''params'')"
    using fill_defaults_get(7) [OF assms] fill_params_Inr by auto
  ultimately show ?thesis using m(1) by (simp add: budget_inputs_ok_def)
qed

section \<open>Reading an accepted envelope\<close>

definition env_axis :: "dict \<Rightarrow> string \<Rightarrow> string" where
  "env_axis env axis = str_of (dget (as_obj (dget env ''axes'')) axis)"

definition env_verb :: "dict \<Rightarrow> string" where
  "env_verb env = str_of (dget (as_obj (dget env ''action'')) ''verb'')"

definition env_environment :: "dict \<Rightarrow> string" where
  "env_environment env = str_of (dget (as_obj (dget env ''target'')) ''environment'')"

definition env_undeclared :: "dict \<Rightarrow> json" where
  "env_undeclared env = dget (as_obj (dget env ''provenance'')) ''undeclared''"

definition canonical_envelope :: "dict \<Rightarrow> bool" where
  "canonical_envelope env \<longleftrightarrow>
     list_all (\<lambda>p. env_axis env (fst p) \<in> set (axis_members (fst p))) axis_defaults
     \<and> env_environment env \<in> {''production'', ''staging'', ''dev''}
     \<and> (env_verb env \<in> set spec_verbs
        \<or> env_axis env ''externality'' = ''physical'' \<and> env_verb env \<in> set physical_verbs)
     \<and> is_bool (dget (as_obj (dget env ''approval'')) ''present'')
     \<and> map_of (as_obj (dget env ''target'')) ''safety_function''
        \<in> {None, Some (JBool True), Some (JBool False)}"

lemma fill_defaults_read:
  assumes "fill_defaults u raw = Inr env"
  shows "env_axis env a = canonical_axis raw a" and "env_verb env = canonical_verb u raw"
    and "env_undeclared env = JArr (map JStr (undeclared_fields u raw))"
    and "env_environment env = canonicalize_environment u (raw_environment raw)"
proof -
  note get = fill_defaults_get [OF assms]
  show "env_axis env a = canonical_axis raw a"
    by (simp add: env_axis_def get(1) canonical_axis_def)
  show "env_verb env = canonical_verb u raw" by (simp add: env_verb_def get(2))
  show "env_undeclared env = JArr (map JStr (undeclared_fields u raw))"
    by (simp only: env_undeclared_def get(3)) (simp add: dget_def)
  obtain t where t: "dget env ''target'' = JObj t"
    and f: "fill_target u raw = Inr (dput ''target'' (JObj t) raw)"
    using get(5) by blast
  obtain t' where "dput ''target'' (JObj t) raw = dput ''target'' (JObj t') raw"
    and e: "map_of t' ''environment'' = Some (JStr (canonicalize_environment u (raw_environment raw)))"
    using f by (rule fill_target_shape)
  then have "t' = t" by (metis dget_dput json.inject(6))
  then show "env_environment env = canonicalize_environment u (raw_environment raw)"
    using t e by (simp add: env_environment_def dget_def)
qed

lemma fill_defaults_canonical:
  assumes "fill_defaults u raw = Inr env"
  shows "canonical_envelope env"
proof -
  note get = fill_defaults_get [OF assms] and read = fill_defaults_read [OF assms]
  obtain t where t: "dget env ''target'' = JObj t"
    and f: "fill_target u raw = Inr (dput ''target'' (JObj t) raw)"
    using get(5) by blast
  obtain t' where "dput ''target'' (JObj t) raw = dput ''target'' (JObj t') raw"
    and s: "map_of t' ''safety_function'' \<in> {None, Some (JBool True), Some (JBool False)}"
    using f by (rule fill_target_shape)
  then have "t' = t" by (metis dget_dput json.inject(6))
  then have s': "map_of (as_obj (dget env ''target'')) ''safety_function''
                   \<in> {None, Some (JBool True), Some (JBool False)}"
    using t s by simp
  have a: "list_all (\<lambda>p. env_axis env (fst p) \<in> set (axis_members (fst p))) axis_defaults"
    unfolding list_all_iff
  proof
    fix p :: "string \<times> string"
    assume "p \<in> set axis_defaults"
    from normalized_axes_member [OF this, of raw]
    show "env_axis env (fst p) \<in> set (axis_members (fst p))"
      by (auto simp: read(1) canonical_axis_def)
  qed
  have p: "is_bool (dget (as_obj (dget env ''approval'')) ''present'')"
    by (simp add: get(6) fill_approval_def Let_def)
  show ?thesis
    unfolding canonical_envelope_def
    using a p s' canonical_verb_closed [of u raw] canonicalize_environment_closed
    by (simp only: read)
qed

text \<open>An unrecognised verb is at least as guarded as every known word in it.\<close>

lemma elect_word_None: "elect_word None ws = None \<Longrightarrow> x \<in> set ws \<Longrightarrow> canon_of x = None"
proof (induction ws)
  case (Cons y ys)
  then show ?case
    using elect_word_defined [of "word_rank y" y ys]
    by (cases "canon_of y = None") (auto simp: elect_word_step)
qed simp

definition verb_rank :: "string \<Rightarrow> nat" where
  "verb_rank v = the (map_of verb_guard_rank v)"

lemma it_verb_rank:
  assumes "\<not> list_ex (\<lambda>key. canon_of key \<noteq> None) (verb_key_variants u v)"
    and x: "x \<in> set (split_words u v)" "canon_of x \<noteq> None"
  shows "word_rank x \<le> verb_rank (canonicalize_it_verb u v rv)"
proof -
  have f: "find (\<lambda>key. canon_of key \<noteq> None) (verb_key_variants u v) = None"
    using assms(1) by (simp only: find_None_iff list_ex_iff) blast
  show ?thesis
  proof (cases "verb_last_resort_key u v rv")
    case (Some w)
    then have "canonicalize_it_verb u v rv = the (canon_of w)"
      by (simp only: canonicalize_it_verb_def f option.case)
    then show ?thesis using last_resort_max [OF Some x] by (simp add: verb_rank_def word_rank_def)
  next
    case None
    have two: "2 \<le> length (split_words u v)"
    proof (rule ccontr)
      assume "\<not> 2 \<le> length (split_words u v)"
      with x(1) have "split_words u v = [x]"
        by (cases "split_words u v"; cases "tl (split_words u v)") auto
      then have "x \<in> set (verb_key_variants u v)" by (simp add: verb_key_variants_def)
      with assms(1) x(2) show False by (simp only: list_ex_iff) blast
    qed
    obtain r b where e: "elect_word None (split_words u v) = Some (r, b)"
      using elect_word_None x by (metis option.exhaust surj_pair)
    then have "r = 0" using None two
      by (simp add: verb_last_resort_key_def Let_def split: if_splits)
    then show ?thesis using elect_word_max [OF e x] by simp
  qed
qed

lemma mem_if_single: "x \<in> set (if b then [] else [y]) \<longleftrightarrow> \<not> b \<and> x = y"
  by simp

lemma undeclared_fields_verb:
  "''action.verb'' \<in> set (undeclared_fields u raw) \<longleftrightarrow>
     \<not> verb_is_declared u (JStr (raw_verb raw)) (Some (canonical_axis raw ''externality''))"
  unfolding undeclared_fields_def Let_def set_sort set_append Un_iff mem_if_single by simp

lemma undeclared_it_verb:
  assumes "\<not> verb_is_declared u (JStr (raw_verb raw)) (Some (canonical_axis raw ''externality''))"
  shows "canonical_verb u raw \<in>
           {''delete'', canonicalize_it_verb u (raw_verb raw) (canonical_axis raw ''reversibility'')}"
    and "\<not> list_ex (\<lambda>key. canon_of key \<noteq> None) (verb_key_variants u (raw_verb raw))"
proof -
  have p: "(if Some (canonical_axis raw ''externality'') = Some ''physical''
            then physical_verb u (JStr (raw_verb raw)) else None) = None"
    using assms by (auto simp: verb_is_declared_def)
  show "canonical_verb u raw \<in>
           {''delete'', canonicalize_it_verb u (raw_verb raw) (canonical_axis raw ''reversibility'')}"
    unfolding canonical_verb_def canonicalize_verb_def Let_def p by simp
  show "\<not> list_ex (\<lambda>key. canon_of key \<noteq> None) (verb_key_variants u (raw_verb raw))"
    using assms by (simp add: verb_is_declared_def del: not_None_eq)
qed

section \<open>Properties\<close>

text \<open>A request that declares everything, used by the examples.\<close>

definition sample_request :: dict where
  "sample_request =
    [(''action'', JObj [(''verb'', JStr ''Read''), (''ability'', JStr ''wordpress/get-post'')]),
     (''target'', JObj [(''environment'', JStr ''PROD''), (''ref'', JStr ''/srv//prod/../db'')]),
     (''axes'', JObj [(''reversibility'', JStr ''reversible''), (''blast_radius'', JStr ''single''),
                     (''externality'', JStr ''internal'')]),
     (''agent'', JObj [(''session_id'', JStr ''s1'')]),
     (''magnitude'', JObj [(''count'', JInt 2)]),
     (''params'', JObj [(''amount'', JInt 5), (''currency'', JStr ''eur'')])]"

text \<open>C30: every envelope that passes validation is canonical: each axis holds a member of its closed
  enum, the environment is one of three tiers, the verb is a member of the closed verb set (or a
  physical verb on a physical action), \<open>approval.present\<close> is a boolean, and every number a budget
  reads is finite and in range, with a currency code on every money amount.\<close>

theorem accepted_envelope_canonical:
  assumes "validate_and_fill_defaults u seen raw = (seen', Inr env)"
  shows "canonical_envelope env \<and> budget_inputs_ok env"
proof -
  obtain d where "fill_defaults u d = Inr env" using assms by (rule validate_Inr)
  then show ?thesis using fill_defaults_canonical budget_inputs by blast
qed

theorem accepted_envelope_canonical_witness:
  "\<exists>env. validate_and_fill_defaults plain_ucd [] (JObj sample_request) = ([], Inr env)
         \<and> canonical_envelope env \<and> budget_inputs_ok env"
proof -
  have "case validate_and_fill_defaults plain_ucd [] (JObj sample_request) of
          (s, r) \<Rightarrow> s = [] \<and> \<not> isl r"
    by code_simp
  then obtain env where "validate_and_fill_defaults plain_ucd [] (JObj sample_request) = ([], Inr env)"
    by (rule pair_InrE)
  then show ?thesis using accepted_envelope_canonical by blast
qed

text \<open>C31: a verb core had to guess is never the least guarded reading on an irreversible action: when
  the caller's verb was not recognised whole and the action is irreversible, the verb that reaches
  the rules is not \<open>read\<close>, and on any action its guard rank is at least that of every known word in
  the caller's verb.\<close>

theorem guessed_verb_guarded:
  assumes "validate_and_fill_defaults u seen (JObj d) = (seen', Inr env)"
    and "''action.verb'' \<in> set (undeclared_fields u d)"
  shows "(env_axis env ''reversibility'' = ''irreversible'' \<longrightarrow> env_verb env \<noteq> ''read'')
         \<and> (\<forall>w \<in> set (split_words u (raw_verb d)).
              canon_of w \<noteq> None \<longrightarrow> word_rank w \<le> verb_rank (env_verb env))"
proof -
  have f: "fill_defaults u d = Inr env" using assms(1) by (rule validate_Inr) simp
  note read = fill_defaults_read [OF f]
  let ?it = "canonicalize_it_verb u (raw_verb d) (canonical_axis d ''reversibility'')"
  have nd: "\<not> verb_is_declared u (JStr (raw_verb d)) (Some (canonical_axis d ''externality''))"
    using assms(2) undeclared_fields_verb by blast
  note v = undeclared_it_verb [OF nd]
  have m: "x \<le> verb_rank ''delete''" if "x \<le> verb_rank ?it" for x
    using that canonicalize_it_verb_spec [of u "raw_verb d" "canonical_axis d ''reversibility''"]
    by (auto simp: spec_verbs_def verb_rank_def verb_guard_rank_def)
  have "canonical_axis d ''reversibility'' = ''irreversible'' \<Longrightarrow> ?it \<noteq> ''read''"
    using it_verb_read v(2) by blast
  then have "canonical_axis d ''reversibility'' = ''irreversible'' \<Longrightarrow> canonical_verb u d \<noteq> ''read''"
    using v(1) by auto
  moreover have "word_rank w \<le> verb_rank (canonical_verb u d)"
    if "w \<in> set (split_words u (raw_verb d))" "canon_of w \<noteq> None" for w
    using it_verb_rank [OF v(2) that] v(1) m by auto
  ultimately show ?thesis by (simp only: read) blast
qed

definition sample_guess :: dict where
  "sample_guess =
    [(''action'', JObj [(''verb'', JStr ''get_x'')]),
     (''target'', JObj [(''environment'', JStr ''dev'')]),
     (''axes'', JObj [(''reversibility'', JStr ''irreversible''), (''blast_radius'', JStr ''single''),
                     (''externality'', JStr ''internal'')]),
     (''agent'', JObj [(''session_id'', JStr ''s1'')]),
     (''magnitude'', JObj [(''count'', JInt 2)])]"

theorem guessed_verb_guarded_witness:
  "\<exists>env. validate_and_fill_defaults plain_ucd [] (JObj sample_guess) = ([], Inr env)
         \<and> env_axis env ''reversibility'' = ''irreversible'' \<and> env_verb env \<noteq> ''read''"
proof -
  have "case validate_and_fill_defaults plain_ucd [] (JObj sample_guess) of
          (s, r) \<Rightarrow> s = [] \<and> \<not> isl r"
    by code_simp
  then obtain env where v: "validate_and_fill_defaults plain_ucd [] (JObj sample_guess) = ([], Inr env)"
    by (rule pair_InrE)
  have "\<not> verb_is_declared plain_ucd (JStr (raw_verb sample_guess)) None" by code_simp
  moreover have "canonical_axis sample_guess ''externality'' = ''internal''" by code_simp
  ultimately have "''action.verb'' \<in> set (undeclared_fields plain_ucd sample_guess)"
    unfolding undeclared_fields_verb by (simp add: verb_is_declared_def)
  note g = guessed_verb_guarded [OF v this]
  have "fill_defaults plain_ucd sample_guess = Inr env" using v by (rule validate_Inr) simp
  then have "env_axis env ''reversibility'' = canonical_axis sample_guess ''reversibility''"
    by (rule fill_defaults_read)
  also have "\<dots> = ''irreversible''" by code_simp
  finally show ?thesis using v g by blast
qed

text \<open>An ability that names a delete is charged as a delete: whatever verb the caller wrote, if the
  last segment of \<open>action.ability\<close> has a word the canon reads as \<open>delete\<close>, the accepted verb is
  \<open>delete\<close>; and without that signal a verb core recognises is kept as the canon reads it.\<close>

theorem ability_delete_signal:
  assumes "validate_and_fill_defaults u seen (JObj d) = (seen', Inr env)"
  shows "env_verb env =
    (if delete_signal_from_ability u (dget (as_obj (dget d ''action'')) ''ability'') then ''delete''
     else canonicalize_verb u (raw_verb d) (env_axis env ''reversibility'')
            (Some (env_axis env ''externality'')))"
proof -
  have f: "fill_defaults u d = Inr env" using assms by (rule validate_Inr) simp
  show ?thesis by (simp only: fill_defaults_read [OF f] canonical_verb_def Let_def) auto
qed

definition sample_mislabel :: dict where
  "sample_mislabel =
    [(''action'', JObj [(''verb'', JStr ''read''), (''ability'', JStr ''mongodb/findOneAndDelete'')]),
     (''target'', JObj [(''environment'', JStr ''production'')]),
     (''agent'', JObj [(''session_id'', JStr ''s1'')])]"

theorem ability_delete_signal_witness:
  "\<exists>env. validate_and_fill_defaults plain_ucd [] (JObj sample_mislabel) = ([], Inr env)
         \<and> env_verb env = ''delete''"
proof -
  have "case validate_and_fill_defaults plain_ucd [] (JObj sample_mislabel) of
          (s, r) \<Rightarrow> s = [] \<and> \<not> isl r"
    by code_simp
  then obtain env where v: "validate_and_fill_defaults plain_ucd [] (JObj sample_mislabel) = ([], Inr env)"
    by (rule pair_InrE)
  have "delete_signal_from_ability plain_ucd
          (dget (as_obj (dget sample_mislabel ''action'')) ''ability'')"
    by code_simp
  then show ?thesis using v ability_delete_signal [OF v] by simp
qed

text \<open>Two absolute path references are canonicalised to the same text exactly when they name the
  same file: the canonical text is the path obtained by walking the components from the root, so
  duplicate slashes, \<open>.\<close> and \<open>..\<close> segments, a leading double slash and control characters cannot hide
  a path from a prefix comparison, and no two different files are merged.\<close>

theorem absolute_ref_canonical:
  assumes "clean_text u s = CHR ''/'' # p" "\<not> contains_text ''://'' (CHR ''/'' # p)"
    and "clean_text u t = CHR ''/'' # q" "\<not> contains_text ''://'' (CHR ''/'' # q)"
  shows "(canonicalize_target_ref u (JStr s) = canonicalize_target_ref u (JStr t) \<longleftrightarrow>
            walk [] (split_on CHR ''/'' p) = walk [] (split_on CHR ''/'' q))
         \<and> canonicalize_target_ref u (JStr s) =
            Inr (JStr (CHR ''/'' # join_with ''/'' (rev (walk [] (split_on CHR ''/'' p)))))"
  using join_with_inject [OF walk_split_names walk_split_names]
  by (auto simp: fold_ref_absolute [OF assms(1,2)] fold_ref_absolute [OF assms(3,4)])

theorem absolute_ref_canonical_witness:
  "canonicalize_target_ref plain_ucd (JStr ''//srv/./prod/x/../db'') =
   canonicalize_target_ref plain_ucd (JStr '' /srv/prod//db/'')"
proof -
  have "clean_text plain_ucd ''//srv/./prod/x/../db'' = CHR ''/'' # ''/srv/./prod/x/../db''" by code_simp
  moreover have "\<not> contains_text ''://'' (CHR ''/'' # ''/srv/./prod/x/../db'')"
    by (simp add: contains_text_def sublist_Cons_right)
  moreover have "clean_text plain_ucd '' /srv/prod//db/'' = CHR ''/'' # ''srv/prod//db/''" by code_simp
  moreover have "\<not> contains_text ''://'' (CHR ''/'' # ''srv/prod//db/'')"
    by (simp add: contains_text_def sublist_Cons_right)
  moreover have "walk [] (split_on CHR ''/'' ''/srv/./prod/x/../db'') =
                 walk [] (split_on CHR ''/'' ''srv/prod//db/'')" by code_simp
  ultimately show ?thesis by (blast dest: absolute_ref_canonical)
qed

text \<open>A nonce is good for one request: once a request with a given nonce has passed the required-
  field checks, no later request of the same process that carries this nonce is accepted, whatever
  else it contains.\<close>

theorem nonce_replay_refused:
  assumes "i < j" "j < length reqs" "reqs ! i = JObj c" "reqs ! j = JObj d"
    and "required_fields u c = Inr ()" "meta_nonce c = Inr n" "meta_nonce d = Inr n"
    and "py_truth n" "\<not> is_arr n" "\<not> is_obj n"
  shows "isl (run_validations u seen reqs ! j)"
  using assms(1-4)
proof (induction reqs arbitrary: seen i j)
  case (Cons r rs)
  obtain seen' res where v: "validate_and_fill_defaults u seen r = (seen', res)" by fastforce
  obtain k where k: "j = Suc k" using Cons.prems by (cases j) auto
  show ?case
  proof (cases i)
    case 0
    then have r: "r = JObj c" using Cons.prems by simp
    obtain b where b: "check_nonce seen n = (seen', b)"
      using v r assms(5,6) by (auto simp: validate_and_fill_defaults_def Let_def split: prod.splits)
    have "nonce_seen seen' n"
      by (rule check_nonce_records [OF b assms(8)]) (use assms(9,10) in auto)
    then show ?thesis
      using run_validations_seen [of seen' n k rs d u] assms(7,8) Cons.prems k v by (auto simp: isl_def)
  next
    case (Suc m)
    then show ?thesis using Cons k v by simp
  qed
qed simp

definition sample_nonce :: "string \<Rightarrow> dict" where
  "sample_nonce verb =
    [(''action'', JObj [(''verb'', JStr verb)]), (''target'', JObj [(''environment'', JStr ''dev'')]),
     (''agent'', JObj [(''session_id'', JStr ''s1'')]), (''magnitude'', JStr ''bad''),
     (''meta'', JObj [(''nonce'', JStr ''n1'')])]"

theorem nonce_replay_refused_witness:
  "isl (run_validations plain_ucd [] [JObj (sample_nonce ''read''), JNull, JObj (sample_nonce ''emit'')] ! 2)"
proof -
  have r: "required_fields plain_ucd (sample_nonce ''read'') = Inr ()" by code_simp
  have "meta_nonce (sample_nonce v) = Inr (JStr ''n1'')" for v
    by (simp add: meta_nonce_def sample_nonce_def)
  then show ?thesis
    using nonce_replay_refused [of 0 2 "[JObj (sample_nonce ''read''), JNull, JObj (sample_nonce ''emit'')]"
        "sample_nonce ''read''" "sample_nonce ''emit''" plain_ucd "JStr ''n1''" "[]"] r
    by simp
qed

lemma required_fields_Inl: "required_fields u d = Inl e \<Longrightarrow> is_validation e"
  by (auto simp: required_fields_def Let_def split: if_splits json.splits)

lemma meta_nonce_Inl:
  "meta_nonce d = Inl e \<Longrightarrow> e = AttributeError \<and> py_truth (dget d ''meta'') \<and> \<not> is_obj (dget d ''meta'')"
  by (simp add: meta_nonce_def split: if_splits json.splits)

lemma check_nonce_Inl:
  "check_nonce seen n = (seen', Inl e) \<Longrightarrow>
     e = ValidationError NonceReplayed \<or> (e = TypeError \<and> py_truth n \<and> (is_arr n \<or> is_obj n))"
  by (auto simp: check_nonce_def split: if_splits json.splits)

lemma canonicalize_target_ref_Inl: "canonicalize_target_ref u j = Inl e \<Longrightarrow> is_validation e"
  by (cases j) auto

lemma fill_target_Inl: "fill_target u raw = Inl e \<Longrightarrow> is_validation e"
  unfolding fill_target_def Let_def bindE_Inl_iff
  by (elim disjE exE conjE)
     (auto simp: bindE_Inl_iff split: option.split_asm json.split_asm dest: canonicalize_target_ref_Inl)

lemma fill_params_Inl:
  assumes "fill_params u e1 = Inl e" "\<not> is_validation e"
  shows "e = OverflowError \<and>
         (\<exists>n. double_overflow \<le> \<bar>n\<bar> \<and> dget (as_obj (dget e1 ''params'')) ''amount'' = JInt n)"
proof (cases "is_obj (dget e1 ''params'')")
  case True
  then obtain p where "dget e1 ''params'' = JObj p" by (cases "dget e1 ''params''") auto
  then show ?thesis
    using assms by (auto simp: fill_params_def Let_def py_simps is_money_amount_Inl split: if_splits)
next
  case False
  then have "isl (fill_params u e1) = False"
    by (cases "dget e1 ''params''") (simp_all add: fill_params_def Let_def)
  then show ?thesis using assms by simp
qed

lemma check_count_Inl: "check_count m = Inl e \<Longrightarrow> is_validation e"
  by (auto simp: check_count_def split: json.splits if_splits)

lemma check_physical_Inl:
  assumes "check_physical m = Inl e" "\<not> is_validation e"
  shows "e = OverflowError \<and>
    (\<exists>n. double_overflow \<le> \<bar>n\<bar> \<and>
       dget (as_obj (dget m ''physical'')) ''envelope_fraction'' = JInt n)"
proof -
  obtain j where j: "map_of m ''physical'' = Some j"
    using assms by (cases "map_of m ''physical''") (auto simp: check_physical_def)
  obtain p where p: "j = JObj p" using assms j by (cases j) (auto simp: check_physical_def)
  obtain f where f: "map_of p ''envelope_fraction'' = Some f"
    using assms j p by (cases "map_of p ''envelope_fraction''") (auto simp: check_physical_def)
  have "is_money_amount f = Inl e"
    using assms j p f
    by (auto simp: check_physical_def is_envelope_fraction_def py_simps split: if_splits)
  then show ?thesis using j p f by (auto simp: is_money_amount_Inl dget_def)
qed

lemma fill_magnitude_Inl:
  assumes "fill_magnitude raw env = Inl e" "\<not> is_validation e"
  shows "e = OverflowError \<and>
    (\<exists>n. double_overflow \<le> \<bar>n\<bar> \<and>
       dget (as_obj (dget (as_obj (dget raw ''magnitude'')) ''physical'')) ''envelope_fraction'' = JInt n)"
proof -
  obtain m where m: "check_count (as_obj (dget raw ''magnitude'')) = Inr m" "check_physical m = Inl e"
    using assms check_count_Inl [of "as_obj (dget raw ''magnitude'')" e]
    by (auto simp: fill_magnitude_def Let_def py_simps split: if_splits)
  have "dget m ''physical'' = dget (as_obj (dget raw ''magnitude'')) ''physical''"
    using check_count_Inr [OF m(1)] by (simp add: dget_def)
  then show ?thesis using check_physical_Inl [OF m(2) assms(2)] by simp
qed

lemma fill_defaults_Inl:
  assumes "fill_defaults u raw = Inl e" "\<not> is_validation e"
  shows "e = OverflowError \<and>
    (\<exists>n. double_overflow \<le> \<bar>n\<bar> \<and>
       (dget (as_obj (dget raw ''params'')) ''amount'' = JInt n
        \<or> dget (as_obj (dget (as_obj (dget raw ''magnitude'')) ''physical'')) ''envelope_fraction''
          = JInt n))"
proof -
  obtain e1 where e1: "fill_target u raw = Inr e1"
    using assms fill_target_Inl [of u raw e] by (cases "fill_target u raw") (auto simp: fill_defaults_def)
  then obtain t where t: "e1 = dput ''target'' (JObj t) raw" by (rule fill_target_shape)
  show ?thesis
  proof (cases "fill_params u e1")
    case (Inl e')
    then have "e' = e" using assms(1) e1 by (simp add: fill_defaults_def)
    then show ?thesis using fill_params_Inl [of u e1 e] Inl assms(2) t by auto
  next
    case (Inr e2)
    then have "fill_magnitude raw (fill_provenance u raw (fill_verb u raw (fill_axes raw e2))) = Inl e"
      using assms(1) e1 by (auto simp: fill_defaults_def py_simps)
    from fill_magnitude_Inl [OF this assms(2)] show ?thesis by blast
  qed
qed

definition sample_overflow :: dict where
  "sample_overflow =
    [(''action'', JObj [(''verb'', JStr ''read'')]), (''target'', JObj [(''environment'', JStr ''dev'')]),
     (''agent'', JObj [(''session_id'', JStr ''s1'')]),
     (''params'', JObj [(''amount'', JInt double_overflow)])]"

text \<open>Validation answers with a normalised envelope or a \<open>ValidationError\<close>, except on exactly
  three kinds of input that pass the required-field checks: a truthy \<open>meta\<close> that is not an object
  (\<open>AttributeError\<close>), a non-empty list or object as nonce (\<open>TypeError\<close>), and an integer amount or
  envelope fraction too large for a double (\<open>OverflowError\<close>).\<close>

theorem validation_exceptions:
  assumes "validate_and_fill_defaults u seen raw = (seen', Inl e)" "\<not> is_validation e"
  shows "\<exists>d. raw = JObj d \<and> required_fields u d = Inr () \<and>
    (case e of
       AttributeError \<Rightarrow> py_truth (dget d ''meta'') \<and> \<not> is_obj (dget d ''meta'')
     | TypeError \<Rightarrow> (\<exists>n. meta_nonce d = Inr n \<and> py_truth n \<and> (is_arr n \<or> is_obj n))
     | OverflowError \<Rightarrow>
         (\<exists>n. double_overflow \<le> \<bar>n\<bar> \<and>
            (dget (as_obj (dget d ''params'')) ''amount'' = JInt n
             \<or> dget (as_obj (dget (as_obj (dget d ''magnitude'')) ''physical'')) ''envelope_fraction''
               = JInt n))
     | ValidationError v \<Rightarrow> False)"
proof -
  obtain d where raw: "raw = JObj d" using assms by (cases raw) (auto simp: validate_and_fill_defaults_def)
  have req: "required_fields u d = Inr ()"
    using assms raw required_fields_Inl [of u d e]
    by (cases "required_fields u d") (auto simp: validate_and_fill_defaults_def)
  show ?thesis
  proof (cases "meta_nonce d")
    case (Inl e')
    then have "e' = e" using assms(1) raw req by (simp add: validate_and_fill_defaults_def)
    then show ?thesis using meta_nonce_Inl [of d e] Inl raw req by simp
  next
    case (Inr n)
    obtain b where b: "check_nonce seen n = (seen', b)" and e: "bindE b (\<lambda>_. fill_defaults u d) = Inl e"
      using assms(1) raw req Inr
      by (auto simp: validate_and_fill_defaults_def Let_def split: prod.splits)
    show ?thesis
    proof (cases b)
      case (Inl e')
      then have "e' = e" using e by simp
      then show ?thesis using check_nonce_Inl [of seen n seen' e] assms(2) b Inl raw req Inr by auto
    next
      case (Inr x)
      then have "fill_defaults u d = Inl e" using e by simp
      then show ?thesis using fill_defaults_Inl [OF _ assms(2)] raw req by fastforce
    qed
  qed
qed

theorem validation_exceptions_witness:
  "\<exists>s. validate_and_fill_defaults plain_ucd [] (JObj sample_overflow) = (s, Inl OverflowError)
   \<and> (\<exists>d. JObj sample_overflow = JObj d \<and> required_fields plain_ucd d = Inr ()
        \<and> (\<exists>n. double_overflow \<le> \<bar>n\<bar> \<and>
            (dget (as_obj (dget d ''params'')) ''amount'' = JInt n
             \<or> dget (as_obj (dget (as_obj (dget d ''magnitude'')) ''physical'')) ''envelope_fraction''
               = JInt n)))"
proof -
  have r: "required_fields plain_ucd sample_overflow = Inr ()" by code_simp
  have "0 < double_overflow" by (simp add: double_overflow_def)
  then have "fill_defaults plain_ucd sample_overflow = Inl OverflowError"
    by (simp add: fill_defaults_def fill_target_def fill_params_def sample_overflow_def Let_def)
  moreover have "meta_nonce sample_overflow = Inr JNull" by code_simp
  ultimately have v: "validate_and_fill_defaults plain_ucd [] (JObj sample_overflow)
                       = ([], Inl OverflowError)"
    using r by (simp add: validate_and_fill_defaults_def check_nonce_def)
  show ?thesis using validation_exceptions [OF v] v by auto
qed

end
