(* ===== verification/Principal.thy ===== *)
theory Principal
  imports PyText
begin

text \<open>
  \<open>app/principal.py\<close>: who may say that a human approved an action. Identity folding, the two
  four-eyes questions (is the approver one of the raisers; is this the party the approval was
  granted to), the map from bearer tokens to principals, and the decision which approver is
  recorded for a resolution.

  The two environment variables are the fields of a configuration: \<open>cfg_tokens\<close> is the JSON value of
  \<open>REEFLEX_RESOLVER_TOKENS\<close> (the text of the variable, or of the file it names, decoded; \<open>None\<close> when
  it is unset, blank or not JSON), \<open>cfg_strict\<close> the text of \<open>REEFLEX_REQUIRE_VERIFIED_APPROVER\<close>.
\<close>

section \<open>Identities\<close>

definition normalize_identity :: "ucd \<Rightarrow> json \<Rightarrow> string" where
  "normalize_identity u raw = (case raw of JStr s \<Rightarrow> normalize_token u s | _ \<Rightarrow> [])"

text \<open>An identity and, when it has a \<open>type:\<close> prefix, the part after it; empty forms are dropped.\<close>

definition identity_forms :: "string \<Rightarrow> string list" where
  "identity_forms nrm =
     filter (\<lambda>v. v \<noteq> [])
       (nrm # (if CHR '':'' \<in> set nrm then [after_first CHR '':'' nrm] else []))"

text \<open>\<open>envelope.get("agent") or {}\<close>, read as the empty dict when it is not a dict.\<close>

definition agent_of :: "dict \<Rightarrow> dict" where
  "agent_of envelope = as_obj (dget envelope ''agent'')"

definition actor_fields :: "string list" where
  "actor_fields = [''id'', ''on_behalf_of'', ''session_id'']"

definition actor_identities :: "ucd \<Rightarrow> dict \<Rightarrow> string list" where
  "actor_identities u envelope =
     concat (map (\<lambda>field. identity_forms (normalize_identity u (dget (agent_of envelope) field)))
               actor_fields)"

definition approver_identities :: "ucd \<Rightarrow> string \<Rightarrow> string \<Rightarrow> string list" where
  "approver_identities u ptype pid =
     (let p = normalize_token u pid; t = normalize_token u ptype
      in if p = [] then []
         else identity_forms p @ (if t = [] then [] else [t @ CHR '':'' # p]))"

definition is_self_approval :: "ucd \<Rightarrow> dict \<Rightarrow> string \<Rightarrow> string \<Rightarrow> bool" where
  "is_self_approval u envelope ptype pid =
     list_ex (\<lambda>v. v \<in> set (approver_identities u ptype pid)) (actor_identities u envelope)"

definition actor_key_for :: "ucd \<Rightarrow> dict \<Rightarrow> string \<Rightarrow> string" where
  "actor_key_for u agent field =
     (let nrm = normalize_identity u (dget agent field)
      in if nrm \<noteq> [] then nrm
         else case dget agent field of JStr s \<Rightarrow> py_strip u s | _ \<Rightarrow> [])"

text \<open>The tuple is a list: two entries when an agent is named, three for the session fallback.\<close>

definition approval_actor_key :: "ucd \<Rightarrow> dict \<Rightarrow> string list" where
  "approval_actor_key u envelope =
     (let agent = agent_of envelope;
          named = [actor_key_for u agent ''id'', actor_key_for u agent ''on_behalf_of'']
      in if list_ex (\<lambda>k. k \<noteq> []) named then named
         else [[], [], actor_key_for u agent ''session_id''])"

section \<open>Credentials\<close>

record principal =
  p_type :: string
  p_id :: string

record config =
  cfg_tokens :: "json option"
  cfg_strict :: "string option"

text \<open>\<open>str(principal.get(key, "")).strip()\<close>\<close>

definition principal_field :: "ucd \<Rightarrow> dict \<Rightarrow> string \<Rightarrow> string" where
  "principal_field u d key = py_strip u (case map_of d key of None \<Rightarrow> [] | Some v \<Rightarrow> py_str u v)"

definition load_principal :: "ucd \<Rightarrow> string \<times> json \<Rightarrow> (string \<times> principal) option" where
  "load_principal u item =
     (case snd item of
        JObj d \<Rightarrow>
          (let ptype = principal_field u d ''type''; pid = principal_field u d ''id''
           in if fst item \<noteq> [] \<and> ptype \<noteq> [] \<and> pid \<noteq> []
              then Some (fst item, \<lparr>p_type = ptype, p_id = pid\<rparr>) else None)
      | _ \<Rightarrow> None)"

definition load_resolver_tokens :: "ucd \<Rightarrow> config \<Rightarrow> (string \<times> principal) list" where
  "load_resolver_tokens u cfg =
     (case cfg_tokens cfg of
        Some (JObj d) \<Rightarrow> List.map_filter (load_principal u) d
      | _ \<Rightarrow> [])"

definition strict_default :: bool where
  "strict_default = True"

definition truthy_words :: "string list" where
  "truthy_words = [''true'', ''1'', ''yes'', ''on'']"

definition falsey_words :: "string list" where
  "falsey_words = [''false'', ''0'', ''no'', ''off'']"

definition strict_mode :: "ucd \<Rightarrow> config \<Rightarrow> bool" where
  "strict_mode u cfg =
     (case cfg_strict cfg of
        None \<Rightarrow> strict_default
      | Some raw \<Rightarrow>
          (let token = casefold u (py_strip u raw)
           in if token \<in> set truthy_words then True
              else if token \<in> set falsey_words then False
              else strict_default))"

definition verification_configured :: "ucd \<Rightarrow> config \<Rightarrow> bool" where
  "verification_configured u cfg \<longleftrightarrow> load_resolver_tokens u cfg \<noteq> []"

datatype capability_reason =
  VerificationNotConfigured | CredentialsBound | UnverifiedApproversAccepted

record capability =
  resolvable :: bool
  cap_reason :: capability_reason
  require_verified_approver :: bool
  verified_approvers :: nat

definition approval_capability :: "ucd \<Rightarrow> config \<Rightarrow> capability" where
  "approval_capability u cfg =
     (let bound = length (load_resolver_tokens u cfg); strict = strict_mode u cfg;
          (res, reason) =
            (if bound \<noteq> 0 then (True, CredentialsBound)
             else if strict then (False, VerificationNotConfigured)
             else (True, UnverifiedApproversAccepted))
      in \<lparr>resolvable = res, cap_reason = reason, require_verified_approver = strict,
          verified_approvers = bound\<rparr>)"

section \<open>The decision\<close>

text \<open>\<open>hmac.compare_digest\<close> on two \<open>str\<close> raises a \<open>TypeError\<close> unless both are ASCII.\<close>

datatype refusal_why = UnboundCredential | NotConfigured

datatype principal_exc =
    PrincipalMismatch string string
  | PrincipalNotVerified string refusal_why
  | CompareTypeError

fun find_token :: "string \<Rightarrow> (string \<times> principal) list \<Rightarrow> principal_exc + principal option" where
  "find_token bearer [] = Inr None"
| "find_token bearer ((token, p) # ts) =
     (if \<not> is_ascii bearer \<or> \<not> is_ascii token then Inl CompareTypeError
      else if bearer = token then Inr (Some p)
      else find_token bearer ts)"

definition principal_for_token ::
  "ucd \<Rightarrow> config \<Rightarrow> string option \<Rightarrow> principal_exc + principal option" where
  "principal_for_token u cfg bearer =
     (case bearer of
        None \<Rightarrow> Inr None
      | Some b \<Rightarrow> if b = [] then Inr None else find_token b (load_resolver_tokens u cfg))"

text \<open>\<open>_display\<close>: the \<open>type:id\<close> text of the refusals.\<close>

definition display_part :: "ucd \<Rightarrow> string \<Rightarrow> string" where
  "display_part u s = (let t = py_strip u s in if t = [] then ''?'' else t)"

definition display :: "ucd \<Rightarrow> string \<Rightarrow> string \<Rightarrow> string" where
  "display u ptype pid = display_part u ptype @ CHR '':'' # display_part u pid"

datatype source = Credential | Asserted

record approver =
  a_type :: string
  a_id :: string
  a_verified :: bool
  a_source :: source

definition resolve_approver ::
  "ucd \<Rightarrow> config \<Rightarrow> string option \<Rightarrow> string \<Rightarrow> string \<Rightarrow> principal_exc + approver" where
  "resolve_approver u cfg bearer asserted_type asserted_id =
     bindE (principal_for_token u cfg bearer) (\<lambda>bound.
       case bound of
         Some b \<Rightarrow>
           (let a_ids = approver_identities u asserted_type asserted_id;
                b_ids = approver_identities u (p_type b) (p_id b)
            in if asserted_id \<noteq> [] \<and> \<not> list_ex (\<lambda>v. v \<in> set b_ids) a_ids
               then Inl (PrincipalMismatch (display u asserted_type asserted_id)
                           (display u (p_type b) (p_id b)))
               else Inr \<lparr>a_type = p_type b, a_id = p_id b, a_verified = True,
                         a_source = Credential\<rparr>)
       | None \<Rightarrow>
           if verification_configured u cfg
           then Inl (PrincipalNotVerified (display u asserted_type asserted_id) UnboundCredential)
           else if strict_mode u cfg
           then Inl (PrincipalNotVerified (display u asserted_type asserted_id) NotConfigured)
           else Inr \<lparr>a_type = asserted_type, a_id = asserted_id, a_verified = False,
                     a_source = Asserted\<rparr>)"

section \<open>Facts\<close>

lemma load_token_nonempty: "(tok, p) \<in> set (load_resolver_tokens u cfg) \<Longrightarrow> tok \<noteq> []"
  by (auto simp: load_resolver_tokens_def load_principal_def List.map_filter_def Let_def
      split: option.splits json.splits if_splits)

lemma find_token_Some:
  "find_token b ts = Inr (Some p) \<Longrightarrow> (b, p) \<in> set ts \<and> is_ascii b"
  by (induction ts) (auto split: if_splits)

lemma find_token_None: "find_token b ts = Inr None \<Longrightarrow> (b, p) \<notin> set ts"
  by (induction ts) (auto split: if_splits)

lemma find_token_ascii:
  "is_ascii b \<Longrightarrow> \<forall>t \<in> set ts. is_ascii (fst t) \<Longrightarrow> find_token b ts = Inr (map_of ts b)"
  by (induction ts) auto

lemma principal_for_token_Some:
  "principal_for_token u cfg bearer = Inr (Some p) \<Longrightarrow>
     \<exists>b. bearer = Some b \<and> (b, p) \<in> set (load_resolver_tokens u cfg)"
  by (auto simp: principal_for_token_def split: option.splits if_splits dest: find_token_Some)

lemma identity_forms_nonempty: "[] \<notin> set (identity_forms n)"
  by (simp add: identity_forms_def)

lemma identity_forms_self: "n \<noteq> [] \<Longrightarrow> n \<in> set (identity_forms n)"
  by (simp add: identity_forms_def)

lemma identity_forms_Nil [simp]: "identity_forms [] = []"
  by (simp add: identity_forms_def)

lemma identity_forms_json:
  "v \<in> set (identity_forms (normalize_identity u j)) \<longleftrightarrow>
     (\<exists>s. j = JStr s \<and> v \<in> set (identity_forms (normalize_token u s)))"
  by (cases j) (simp_all add: normalize_identity_def)

lemma actor_identities_iff:
  "v \<in> set (actor_identities u env) \<longleftrightarrow>
     (\<exists>f \<in> set actor_fields. \<exists>s. dget (agent_of env) f = JStr s \<and>
        v \<in> set (identity_forms (normalize_token u s)))"
  by (simp add: actor_identities_def identity_forms_json)

lemma approver_identities_form:
  "v \<in> set (identity_forms (normalize_token u pid)) \<Longrightarrow> v \<in> set (approver_identities u ptype pid)"
  by (auto simp: approver_identities_def identity_forms_def after_first_def Let_def split: if_splits)

section \<open>Properties\<close>

text \<open>Four-eyes: a resolution counts as self approval when any spelling of the approver (its
  identity or the part after its \<open>type:\<close> prefix) folds to any spelling of the agent, of the person
  it acts for or of its session, so neither letter case, blanks, control characters nor a type
  prefix on one side hides it; and when no form coincides, also with the approver's type in front,
  it does not count.\<close>

theorem self_approval_iff:
  "is_self_approval u env ptype pid \<longleftrightarrow>
     (\<exists>f \<in> set actor_fields. \<exists>s v. dget (agent_of env) f = JStr s
        \<and> v \<in> set (identity_forms (normalize_token u s))
        \<and> (v \<in> set (identity_forms (normalize_token u pid))
           \<or> normalize_token u pid \<noteq> [] \<and> normalize_token u ptype \<noteq> []
             \<and> v = normalize_token u ptype @ CHR '':'' # normalize_token u pid))"
proof -
  have a: "v \<in> set (approver_identities u ptype pid) \<longleftrightarrow>
      v \<in> set (identity_forms (normalize_token u pid))
      \<or> normalize_token u pid \<noteq> [] \<and> normalize_token u ptype \<noteq> []
        \<and> v = normalize_token u ptype @ CHR '':'' # normalize_token u pid" for v
    by (auto simp: approver_identities_def Let_def)
  show ?thesis
    unfolding is_self_approval_def list_ex_iff actor_identities_iff a
    unfolding Bex_def actor_identities_iff by blast
qed

text \<open>The recorded approver is verified exactly when the request's credential is bound to a
  principal, and then it is that principal; an asserted approver is recorded only in a deployment
  that binds no credential at all and has switched strictness off, and then marked unverified.\<close>

theorem recorded_approver:
  assumes "resolve_approver u cfg bearer asserted_type asserted_id = Inr a"
  shows "(a_verified a \<longleftrightarrow> a_source a = Credential)
         \<and> (a_verified a \<longrightarrow> (\<exists>b. bearer = Some b \<and>
              (b, \<lparr>p_type = a_type a, p_id = a_id a\<rparr>) \<in> set (load_resolver_tokens u cfg)))
         \<and> (\<not> a_verified a \<longrightarrow> a_type a = asserted_type \<and> a_id a = asserted_id
              \<and> load_resolver_tokens u cfg = [] \<and> \<not> strict_mode u cfg)"
proof -
  obtain bound where b: "principal_for_token u cfg bearer = Inr bound"
    using assms by (auto simp: resolve_approver_def py_simps)
  show ?thesis
  proof (cases bound)
    case None
    then show ?thesis
      using assms b by (auto simp: resolve_approver_def verification_configured_def split: if_splits)
  next
    case (Some p)
    then have "a = \<lparr>a_type = p_type p, a_id = p_id p, a_verified = True, a_source = Credential\<rparr>"
      using assms b by (auto simp: resolve_approver_def Let_def split: if_splits)
    moreover obtain t where "bearer = Some t" "(t, p) \<in> set (load_resolver_tokens u cfg)"
      using principal_for_token_Some b Some by blast
    ultimately show ?thesis by (cases p) auto
  qed
qed

definition sample_config :: config where
  "sample_config = \<lparr>cfg_tokens = Some (JObj [(''tok'', JObj [(''type'', JStr ''human''), (''id'', JStr ''alice'')])]),
     cfg_strict = None\<rparr>"

theorem recorded_approver_witness:
  "\<exists>a. resolve_approver plain_ucd sample_config (Some ''tok'') ''human'' ''Alice'' = Inr a
       \<and> a_verified a"
proof -
  have r: "resolve_approver plain_ucd sample_config (Some ''tok'') ''human'' ''Alice'' =
        Inr \<lparr>a_type = ''human'', a_id = ''alice'', a_verified = True, a_source = Credential\<rparr>"
    by code_simp
  show ?thesis using r recorded_approver [OF r] by auto
qed

text \<open>The health report tells the truth: where every bound token is ASCII text, \<open>resolvable\<close> is
  reported exactly when some credential and some asserted principal exist that
  \<open>resolve_approver\<close> accepts.\<close>

theorem capability_iff_resolvable:
  assumes "\<forall>t \<in> set (load_resolver_tokens u cfg). is_ascii (fst t)"
  shows "resolvable (approval_capability u cfg) \<longleftrightarrow>
           (\<exists>bearer t i. \<not> isl (resolve_approver u cfg bearer t i))"
proof (cases "load_resolver_tokens u cfg")
  case Nil
  then have "principal_for_token u cfg b = Inr None" for b
    by (simp add: principal_for_token_def split: option.splits)
  then show ?thesis
    using Nil by (simp add: approval_capability_def Let_def resolve_approver_def verification_configured_def)
next
  case (Cons x xs)
  obtain tok p where x: "x = (tok, p)" by (cases x)
  have "tok \<noteq> []" using load_token_nonempty [of tok p u cfg] Cons x by simp
  then have "principal_for_token u cfg (Some tok) = Inr (Some p)"
    using find_token_ascii [OF _ assms, of tok] assms Cons x by (simp add: principal_for_token_def)
  then have "\<not> isl (resolve_approver u cfg (Some tok) [] [])"
    by (simp add: resolve_approver_def)
  then show ?thesis using Cons by (auto simp: approval_capability_def Let_def)
qed

theorem capability_iff_resolvable_witness:
  "resolvable (approval_capability plain_ucd sample_config)
   \<and> (\<exists>bearer t i. \<not> isl (resolve_approver plain_ucd sample_config bearer t i))"
proof -
  have l: "load_resolver_tokens plain_ucd sample_config = [(''tok'', \<lparr>p_type = ''human'', p_id = ''alice''\<rparr>)]"
    by code_simp
  have "is_ascii ''tok''" by code_simp
  then have "\<forall>t \<in> set (load_resolver_tokens plain_ucd sample_config). is_ascii (fst t)"
    using l by simp
  from capability_iff_resolvable [OF this] show ?thesis
    using l by (simp add: approval_capability_def)
qed

text \<open>A bound token with a character outside ASCII makes every comparison that reaches it raise, so
  the report says \<open>resolvable\<close> while no resolution can succeed.\<close>

lemma capability_overstates:
  assumes "load_resolver_tokens u cfg = (tok, p) # ts" "\<not> is_ascii tok"
  shows "resolvable (approval_capability u cfg) \<and> isl (resolve_approver u cfg bearer t i)"
  using assms
  by (auto simp: approval_capability_def Let_def resolve_approver_def principal_for_token_def
      verification_configured_def split: option.splits)

end
