(* ===== verification/AppendLog.thy ===== *)
theory AppendLog
  imports PyText
begin

text \<open>
  \<open>app/appendlog.py\<close>: the byte-level discipline of the append-only files. A file is the list of its
  bytes. \<open>append_and_verify\<close> appends a line and proves its own bytes at its own offset;
  \<open>read_new_records\<close> follows the tail of a file other processes append to. What the operating system
  and the other processes do is the argument \<open>io\<close>. The last section relates the bytes to the list of
  records the hold store and the ledger are described with.
\<close>

section \<open>Appending\<close>

datatype append_cause = Tampered | Unavailable

text \<open>
  \<open>io_fail\<close>: the write, the flush or the fsync failed after this many bytes had landed; \<open>io_meddle\<close>:
  what happened to the file between our write and our read-back; \<open>io_read_fail\<close>: the read-back
  could not be done.
\<close>

record io =
  io_fail :: "nat option"
  io_meddle :: "string \<Rightarrow> string"
  io_read_fail :: bool

definition good_io :: io where
  "good_io = \<lparr>io_fail = None, io_meddle = id, io_read_fail = False\<rparr>"

text \<open>\<open>exclusive\<close>: the block runs only with the lock file open and the lock taken.\<close>

definition exclusive ::
  "bool \<Rightarrow> bool \<Rightarrow> ('s \<Rightarrow> 's \<times> (append_cause + 'a)) \<Rightarrow> 's \<Rightarrow> 's \<times> (append_cause + 'a)" where
  "exclusive open_ok lock_ok body s =
     (if \<not> open_ok then (s, Inl Unavailable)
      else if \<not> lock_ok then (s, Inl Unavailable)
      else body s)"

definition append_and_verify :: "io \<Rightarrow> string \<Rightarrow> string \<Rightarrow> string \<times> (append_cause + nat)" where
  "append_and_verify io file blob =
     (case io_fail io of
        Some landed \<Rightarrow> (file @ take landed blob, Inl Unavailable)
      | None \<Rightarrow>
          (let written = file @ blob;
               start = int (length written) - int (length blob);
               file' = io_meddle io written
           in if start < 0 then (file', Inl Tampered)
              else if io_read_fail io then (file', Inl Unavailable)
              else
                let got = take (length blob) (drop (nat start) file')
                in if got \<noteq> blob then (file', Inl Tampered) else (file', Inr (nat start))))"

section \<open>Reading\<close>

text \<open>Well-formed UTF-8 (no overlong form, no surrogate, nothing above U+10FFFF), as a machine whose
  state is the list of ranges the next continuation bytes must be in.\<close>

abbreviation tail_byte :: "nat \<times> nat" where
  "tail_byte \<equiv> (128, 191)"

definition utf8_start :: "nat \<Rightarrow> (nat \<times> nat) list option" where
  "utf8_start n =
     (if n < 128 then Some []
      else if n < 194 then None
      else if n < 224 then Some [tail_byte]
      else if n = 224 then Some [(160, 191), tail_byte]
      else if n = 237 then Some [(128, 159), tail_byte]
      else if n < 240 then Some [tail_byte, tail_byte]
      else if n = 240 then Some [(144, 191), tail_byte, tail_byte]
      else if n < 244 then Some [tail_byte, tail_byte, tail_byte]
      else if n = 244 then Some [(128, 143), tail_byte, tail_byte]
      else None)"

fun utf8_step :: "(nat \<times> nat) list option \<Rightarrow> char \<Rightarrow> (nat \<times> nat) list option" where
  "utf8_step None c = None"
| "utf8_step (Some []) c = utf8_start (code c)"
| "utf8_step (Some ((lo, hi) # rs)) c = (if lo \<le> code c \<and> code c \<le> hi then Some rs else None)"

definition utf8_valid :: "string \<Rightarrow> bool" where
  "utf8_valid s \<longleftrightarrow> foldl utf8_step (Some []) s = Some []"

abbreviation newline :: char where
  "newline \<equiv> CHR 0x0A"

text \<open>The bytes up to and including the last newline (\<open>chunk[: cut + 1]\<close>).\<close>

definition complete_part :: "string \<Rightarrow> string" where
  "complete_part chunk = rev (dropWhile (\<lambda>c. c \<noteq> newline) (rev chunk))"

definition lines_of :: "ucd \<Rightarrow> string \<Rightarrow> string list" where
  "lines_of u text = filter (\<lambda>ln. py_strip u ln \<noteq> []) (split_on newline text)"

text \<open>What opening and reading the file gives; \<open>IsDirectory\<close> is the one error the code re-raises.\<close>

datatype fsview = Missing | Unreadable | IsDirectory | Content string

datatype read_exc = IsDirectoryError

definition read_chunk :: "ucd \<Rightarrow> string \<Rightarrow> nat \<Rightarrow> string list \<times> nat" where
  "read_chunk u chunk offset =
     (if chunk = [] then ([], offset)
      else let complete = complete_part chunk
        in if complete = [] then ([], offset)
           else if \<not> utf8_valid complete then ([], offset + length complete)
           else (lines_of u complete, offset + length complete))"

fun read_new_records :: "ucd \<Rightarrow> fsview \<Rightarrow> nat \<Rightarrow> read_exc + string list \<times> nat" where
  "read_new_records u Missing offset = Inr ([], offset)"
| "read_new_records u Unreadable offset = Inr ([], offset)"
| "read_new_records u IsDirectory offset = Inl IsDirectoryError"
| "read_new_records u (Content file) offset = Inr (read_chunk u (drop offset file) offset)"

section \<open>Facts about appending\<close>

lemma append_and_verify_cases:
  "append_and_verify io file blob =
     (case io_fail io of
        Some landed \<Rightarrow> (file @ take landed blob, Inl Unavailable)
      | None \<Rightarrow>
          (let file' = io_meddle io (file @ blob)
           in (file', if io_read_fail io then Inl Unavailable
                      else if take (length blob) (drop (length file) file') \<noteq> blob then Inl Tampered
                      else Inr (length file))))"
  by (simp add: append_and_verify_def Let_def split: option.split)

section \<open>Facts about reading\<close>

lemma complete_part_Nil_iff: "complete_part s = [] \<longleftrightarrow> newline \<notin> set s"
  by (auto simp: complete_part_def)

lemma complete_part_Nil [simp]: "complete_part [] = []"
  by (simp add: complete_part_def)

lemma complete_part_snoc: "complete_part (s @ [newline]) = s @ [newline]"
  by (simp add: complete_part_def)

lemma complete_part_append_tail: "newline \<notin> set t \<Longrightarrow> complete_part (s @ t) = complete_part s"
proof -
  assume "newline \<notin> set t"
  then have "dropWhile (\<lambda>c. c \<noteq> newline) (rev t @ rev s) = dropWhile (\<lambda>c. c \<noteq> newline) (rev s)"
    by (intro dropWhile_append2) auto
  then show ?thesis by (simp add: complete_part_def)
qed

lemma complete_part_append: "newline \<in> set t \<Longrightarrow> complete_part (s @ t) = s @ complete_part t"
proof -
  assume "newline \<in> set t"
  then have "dropWhile (\<lambda>c. c \<noteq> newline) (rev t @ rev s) =
             dropWhile (\<lambda>c. c \<noteq> newline) (rev t) @ rev s"
    by (intro dropWhile_append1 [of newline]) auto
  then show ?thesis by (simp add: complete_part_def)
qed

lemma complete_part_ends: "complete_part s \<noteq> [] \<Longrightarrow> \<exists>p. complete_part s = p @ [newline]"
proof -
  assume "complete_part s \<noteq> []"
  then have n: "dropWhile (\<lambda>c. c \<noteq> newline) (rev s) \<noteq> []" by (simp add: complete_part_def)
  then have "hd (dropWhile (\<lambda>c. c \<noteq> newline) (rev s)) = newline" using hd_dropWhile [OF n] by simp
  with n have "dropWhile (\<lambda>c. c \<noteq> newline) (rev s) =
               newline # tl (dropWhile (\<lambda>c. c \<noteq> newline) (rev s))"
    by (metis list.collapse)
  then show ?thesis unfolding complete_part_def by (metis rev.simps(2))
qed

lemma complete_part_split: "\<exists>t. s = complete_part s @ t \<and> newline \<notin> set t"
proof -
  have "rev s = takeWhile (\<lambda>c. c \<noteq> newline) (rev s) @ dropWhile (\<lambda>c. c \<noteq> newline) (rev s)" by simp
  then have "s = complete_part s @ rev (takeWhile (\<lambda>c. c \<noteq> newline) (rev s))"
    unfolding complete_part_def by (metis rev_append rev_rev_ident)
  moreover have "newline \<notin> set (rev (takeWhile (\<lambda>c. c \<noteq> newline) (rev s)))"
    by (auto dest: set_takeWhileD)
  ultimately show ?thesis by blast
qed

lemma lines_of_append: "lines_of u (a @ newline # b) = lines_of u a @ lines_of u b"
  by (simp add: lines_of_def split_on_append_sep)

lemma lines_of_Nil [simp]: "lines_of u [] = []"
  by (simp add: lines_of_def py_strip_def strip_ascii_def)

lemma lines_of_snoc: "lines_of u (a @ [newline]) = lines_of u a"
  using lines_of_append [of u a "[]"] by simp

lemma lines_of_ended_append:
  "a = [] \<or> last a = newline \<Longrightarrow> lines_of u (a @ b) = lines_of u a @ lines_of u b"
  by (cases a rule: rev_exhaust) (auto simp: lines_of_append lines_of_snoc)

definition high_ranges :: "(nat \<times> nat) list option \<Rightarrow> bool" where
  "high_ranges st = (case st of None \<Rightarrow> True | Some rs \<Rightarrow> list_all (\<lambda>r. 128 \<le> fst r) rs)"

lemma high_ranges_step: "high_ranges st \<Longrightarrow> high_ranges (utf8_step st c)"
  by (cases "(st, c)" rule: utf8_step.cases) (auto simp: high_ranges_def utf8_start_def)

lemma high_ranges_run: "high_ranges st \<Longrightarrow> high_ranges (foldl utf8_step st s)"
  by (induction s arbitrary: st) (auto simp: high_ranges_step)

lemma utf8_step_newline:
  "high_ranges st \<Longrightarrow> utf8_step st newline = (if st = Some [] then Some [] else None)"
  by (cases "(st, newline)" rule: utf8_step.cases) (auto simp: high_ranges_def utf8_start_def)

lemma utf8_run_None: "foldl utf8_step None s = None"
  by (induction s) auto

lemma utf8_valid_cut: "utf8_valid (a @ newline # b) \<longleftrightarrow> utf8_valid a \<and> utf8_valid b"
proof -
  have "high_ranges (foldl utf8_step (Some []) a)"
    by (rule high_ranges_run) (simp add: high_ranges_def)
  then show ?thesis
    using utf8_step_newline utf8_run_None by (simp add: utf8_valid_def)
qed

lemma utf8_valid_ended:
  "a = [] \<or> last a = newline \<Longrightarrow> utf8_valid (a @ b) \<longleftrightarrow> utf8_valid a \<and> utf8_valid b"
proof (cases a rule: rev_exhaust)
  case (snoc p c)
  moreover assume "a = [] \<or> last a = newline"
  ultimately show ?thesis
    using utf8_valid_cut [of p b] utf8_valid_cut [of p "[]"] by (simp add: utf8_valid_def)
qed (simp add: utf8_valid_def)

text \<open>The records of a file: its complete, non-blank lines. A file is \<open>ended\<close> when it is empty or its
  last byte is a newline.\<close>

definition log_lines :: "ucd \<Rightarrow> string \<Rightarrow> string list" where
  "log_lines u file = lines_of u (complete_part file)"

definition ended :: "string \<Rightarrow> bool" where
  "ended file \<longleftrightarrow> file = [] \<or> last file = newline"

lemma ended_complete: "ended s \<Longrightarrow> complete_part s = s"
  by (cases s rule: rev_exhaust) (auto simp: ended_def complete_part_snoc complete_part_Nil_iff)

lemma complete_part_ended: "ended (complete_part s)"
proof (cases "complete_part s = []")
  case False
  then obtain p where "complete_part s = p @ [newline]" using complete_part_ends by blast
  then show ?thesis by (simp add: ended_def)
qed (simp add: ended_def)

lemma complete_part_ended_append: "ended a \<Longrightarrow> complete_part (a @ b) = a @ complete_part b"
proof (cases "newline \<in> set b")
  case False
  moreover assume "ended a"
  ultimately show ?thesis
    using complete_part_append_tail [of b a] complete_part_Nil_iff [of b] by (simp add: ended_complete)
qed (simp add: complete_part_append)

lemma log_lines_ended_append: "ended a \<Longrightarrow> log_lines u (a @ b) = log_lines u a @ log_lines u b"
  by (simp add: log_lines_def complete_part_ended_append ended_complete lines_of_ended_append ended_def)

lemma read_chunk_valid:
  "utf8_valid (complete_part chunk) \<Longrightarrow>
     read_chunk u chunk offset = (log_lines u chunk, offset + length (complete_part chunk))"
  using complete_part_Nil_iff [of chunk]
  by (cases "complete_part chunk = []") (simp_all add: read_chunk_def Let_def log_lines_def)

lemma log_lines_line:
  assumes "newline \<notin> set body" "py_strip u body \<noteq> []"
  shows "log_lines u (body @ [newline]) = [body]"
proof -
  have "lines_of u body = [body]" using assms by (simp add: lines_of_def split_on_no_sep)
  then show ?thesis by (simp add: log_lines_def complete_part_snoc lines_of_snoc)
qed

text \<open>At the level of records: what an append does to the file, and how it ends.\<close>

datatype fault = NoFault | LostWrite | TornWrite | LandedUnproven append_cause

section \<open>Properties\<close>

text \<open>C27: \<open>append_and_verify\<close> reports success only with its own bytes intact at the offset it
  returns, reports tampering only when they are not there, and never fails because another process
  appended in between.\<close>

theorem append_proof:
  assumes "append_and_verify io file blob = (file', r)"
  shows "(\<forall>off. r = Inr off \<longrightarrow> off = length file \<and> take (length blob) (drop off file') = blob)
         \<and> (r = Inl Tampered \<longrightarrow> take (length blob) (drop (length file) file') \<noteq> blob)
         \<and> (\<forall>ext. io_fail io = None \<and> \<not> io_read_fail io
                   \<and> io_meddle io (file @ blob) = file @ blob @ ext \<longrightarrow> r = Inr (length file))"
proof (cases "io_fail io")
  case None
  then have f: "io_meddle io (file @ blob) = file'"
    and r: "(if io_read_fail io then Inl Unavailable
             else if take (length blob) (drop (length file) file') \<noteq> blob then Inl Tampered
             else Inr (length file)) = r"
    using assms by (auto simp: append_and_verify_cases Let_def)
  show ?thesis unfolding r [symmetric] f by (simp split: if_split)
qed (use assms in \<open>auto simp: append_and_verify_cases\<close>)

theorem append_proof_witness:
  "let io = \<lparr>io_fail = None, io_meddle = (\<lambda>f. f @ ''other''), io_read_fail = False\<rparr> in
     append_and_verify io ''abc'' ''line'' = (''abclineother'', Inr 3)"
proof -
  define io where "io = \<lparr>io_fail = None, io_meddle = (\<lambda>f. f @ ''other''), io_read_fail = False\<rparr>"
  obtain f r where a: "append_and_verify io ''abc'' ''line'' = (f, r)" by fastforce
  have "io_meddle io (''abc'' @ ''line'') = ''abc'' @ ''line'' @ ''other''"
    and "io_fail io = None" and "\<not> io_read_fail io"
    by (simp_all add: io_def)
  then have "r = Inr (length ''abc'')" using append_proof [OF a] by blast
  then have "r = Inr 3" by simp
  moreover have "f = ''abclineother''"
    using a by (simp add: append_and_verify_cases io_def)
  ultimately show ?thesis using a unfolding io_def [symmetric] Let_def by blast
qed

text \<open>Following the tail sees every record once: from a cursor at the start of a line,
  \<open>read_new_records\<close> returns exactly the records after it and moves the cursor to the start of the
  first incomplete line, so the records read so far are always the records of the file.\<close>

theorem tail_follow:
  assumes "utf8_valid (complete_part file)" "offset \<le> length file" "ended (take offset file)"
  shows "\<exists>ls offset'. read_new_records u (Content file) offset = Inr (ls, offset')
           \<and> log_lines u file = log_lines u (take offset file) @ ls
           \<and> offset \<le> offset' \<and> offset' = length (complete_part file) \<and> ended (take offset' file)"
proof -
  let ?a = "take offset file" and ?b = "drop offset file"
  have f: "complete_part file = ?a @ complete_part ?b"
    using complete_part_ended_append [OF assms(3), of ?b] by simp
  then have v: "utf8_valid (complete_part ?b)"
    using assms(1,3) utf8_valid_ended [of ?a] by (simp add: ended_def)
  have l: "offset + length (complete_part ?b) = length (complete_part file)"
    using f assms(2) by simp
  obtain t where "file = complete_part file @ t" using complete_part_split by blast
  then have "take (length (complete_part file)) file = complete_part file"
    by (metis append_eq_conv_conj)
  then have "ended (take (length (complete_part file)) file)" by (simp add: complete_part_ended)
  then show ?thesis
    using read_chunk_valid [OF v, of u offset] l log_lines_ended_append [OF assms(3), of u ?b]
    by simp
qed

theorem tail_follow_witness:
  "read_new_records plain_ucd (Content (''a'' @ newline # ''b'' @ newline # ''c'')) 2 = Inr ([''b''], 4)"
proof -
  let ?f = "''a'' @ newline # ''b'' @ newline # ''c''"
  have "utf8_valid (complete_part ?f) \<and> ended (take 2 ?f) \<and> log_lines plain_ucd ?f = [''a'', ''b'']
        \<and> log_lines plain_ucd (take 2 ?f) = [''a''] \<and> length (complete_part ?f) = 4"
    by code_simp
  then show ?thesis using tail_follow [of ?f 2 plain_ucd] by auto
qed

text \<open>A record appended to a file whose last line is complete is read back as that record; but
  after a torn last line (a writer died in the middle) it is glued to the torn bytes, although the
  append is verified: no reader ever gets it as a record of its own.\<close>

theorem append_then_read:
  assumes "newline \<notin> set body" "py_strip u body \<noteq> []" "ended file"
    and "newline \<notin> set torn" "py_strip u (torn @ body) \<noteq> []"
  shows "append_and_verify good_io (file @ torn) (body @ [newline])
           = (file @ torn @ body @ [newline], Inr (length file + length torn))
         \<and> log_lines u (file @ torn @ body @ [newline]) = log_lines u file @ [torn @ body]"
  using assms log_lines_line [of "torn @ body" u]
  by (simp add: append_and_verify_cases good_io_def log_lines_ended_append)

theorem append_then_read_witness:
  "log_lines plain_ucd (''x'' @ [newline] @ ''{to'' @ ''rec'' @ [newline]) = [''x'', ''{torec'']"
proof -
  have "newline \<notin> set ''rec'' \<and> py_strip plain_ucd ''rec'' \<noteq> [] \<and> ended (''x'' @ [newline])
        \<and> newline \<notin> set ''{to'' \<and> py_strip plain_ucd (''{to'' @ ''rec'') \<noteq> []"
    by code_simp
  moreover have "log_lines plain_ucd (''x'' @ [newline]) = [''x'']" by code_simp
  ultimately show ?thesis
    using append_then_read [of "''rec''" plain_ucd "''x'' @ [newline]" "''{to''"] by simp
qed

text \<open>One undecodable byte discards the whole batch it is read with: every complete record of the
  chunk is skipped and the cursor moves past them.\<close>

lemma undecodable_batch_lost:
  assumes "\<not> utf8_valid (complete_part chunk)" "newline \<in> set chunk"
  shows "read_chunk u chunk offset = ([], offset + length (complete_part chunk))"
  using assms complete_part_Nil_iff [of chunk] by (auto simp: read_chunk_def Let_def)

end
