(* ===== verification/LogView.thy ===== *)
theory LogView
  imports Prelude
begin

text \<open>
  The contract between an append-only file and a process that keeps a view of it: the process holds
  a view and a cursor, and a refresh applies the records after the cursor. The hold index and the
  session ledger are two such views; their theories interpret the locale.
\<close>

locale log_view =
  fixes act :: "'v \<Rightarrow> 'e \<Rightarrow> 'v"
    and start :: 'v
    and ok :: "'v \<Rightarrow> bool"
    and good :: "'e \<Rightarrow> bool"
    and view :: "'s \<Rightarrow> 'v"
    and cursor :: "'s \<Rightarrow> nat"
    and refresh :: "'e list \<Rightarrow> 's \<Rightarrow> 's"
  assumes ok_start: "ok start"
    and ok_act: "ok v \<Longrightarrow> good e \<Longrightarrow> ok (act v e)"
    and view_refresh: "cursor s \<le> length f \<Longrightarrow> list_all good f \<Longrightarrow> ok (view s) \<Longrightarrow>
      view (refresh f s) = foldl act (view s) (drop (cursor s) f)"
    and cursor_refresh: "cursor s \<le> length f \<Longrightarrow> list_all good f \<Longrightarrow> ok (view s) \<Longrightarrow>
      cursor (refresh f s) = length f"
begin

lemma ok_fold: "list_all good f \<Longrightarrow> ok v \<Longrightarrow> ok (foldl act v f)"
  by (induction f arbitrary: v) (auto simp: ok_act)

text \<open>The view is that of the records before the cursor.\<close>

definition synced :: "'e list \<Rightarrow> 's \<Rightarrow> bool" where
  "synced f s \<longleftrightarrow> cursor s \<le> length f \<and> view s = foldl act start (take (cursor s) f)"

lemma synced_ok: "synced f s \<Longrightarrow> list_all good f \<Longrightarrow> ok (view s)"
proof -
  assume s: "synced f s" and g: "list_all good f"
  have "list_all good (take (cursor s) f)" using g by (auto simp: list_all_iff dest: in_set_takeD)
  then show "ok (view s)" using s ok_fold ok_start by (simp add: synced_def)
qed

lemma synced_append: "synced f s \<Longrightarrow> synced (f @ es) s"
  by (simp add: synced_def)

lemma view_fresh:
  assumes "synced f s" "list_all good f"
  shows "view (refresh f s) = foldl act start f"
proof -
  have "foldl act (foldl act start (take (cursor s) f)) (drop (cursor s) f) = foldl act start f"
    by (metis append_take_drop_id foldl_append)
  then show ?thesis using assms view_refresh synced_ok by (simp add: synced_def)
qed

lemma cursor_fresh: "synced f s \<Longrightarrow> list_all good f \<Longrightarrow> cursor (refresh f s) = length f"
  using cursor_refresh synced_ok by (simp add: synced_def)

lemma synced_refresh: "synced f s \<Longrightarrow> list_all good f \<Longrightarrow> synced f (refresh f s)"
  using view_fresh cursor_fresh by (simp add: synced_def)

lemma replicas_agree:
  "synced f s \<Longrightarrow> synced f t \<Longrightarrow> list_all good f \<Longrightarrow> view (refresh f s) = view (refresh f t)"
  by (simp add: view_fresh)

lemma refresh_idem:
  "synced f s \<Longrightarrow> list_all good f \<Longrightarrow> view (refresh f (refresh f s)) = view (refresh f s)"
  by (simp add: view_fresh synced_refresh)

end

end
