(* ===== verification/Holds.thy ===== *)
theory Holds
  imports Envelope AppendLog LogView "HOL-Library.Product_Lexorder"
begin

text \<open>
  \<open>app/holds.py\<close>: the event-sourced hold store. The file is the list of its records (\<open>None\<close> is a line
  that does not decode) and a flag for a torn last line; \<open>AppendLog\<close> relates it to the bytes. Each
  process keeps an index, folded from the records before its cursor. An operation is a computation
  on the file, the process's store and the notifications it sends, made of the sections the code
  runs under its locks; a section is atomic, an operation is not.
\<close>

section \<open>Time and hashing\<close>

text \<open>\<open>time.strftime\<close> and \<open>calendar.timegm(time.strptime())\<close> on the store's timestamp format, with 0
  for a text that does not parse.\<close>

record clock =
  ck_iso :: "rat \<Rightarrow> string"
  ck_epoch :: "string \<Rightarrow> rat"

definition default_ttl_seconds :: int where
  "default_ttl_seconds = 4 * 3600"

definition hash_allowlist :: "string list" where
  "hash_allowlist = [''action'', ''axes'', ''magnitude'', ''target'']"

text \<open>\<open>json.dumps(sort_keys=True)\<close> orders the keys at every level.\<close>

fun sort_keys :: "json \<Rightarrow> json" where
  "sort_keys (JObj d) = JObj (sort_key fst (map (\<lambda>p. (fst p, sort_keys (snd p))) d))"
| "sort_keys (JArr xs) = JArr (map sort_keys xs)"
| "sort_keys j = j"

definition projection :: "dict \<Rightarrow> dict" where
  "projection envelope =
     List.map_filter (\<lambda>k. map_option (Pair k) (map_of envelope k)) hash_allowlist"

text \<open>\<open>digest\<close>: SHA-256 (in hex) of the compact JSON text of a value with ordered keys.\<close>

definition canonical_hash :: "(json \<Rightarrow> string) \<Rightarrow> dict \<Rightarrow> string" where
  "canonical_hash digest envelope = digest (sort_keys (JObj (projection envelope)))"

section \<open>The file and the index\<close>

definition hold_statuses :: "string list" where
  "hold_statuses = [''pending'', ''approved'', ''rejected'', ''expired'', ''consumed'']"

definition resolve_decisions :: "string list" where
  "resolve_decisions = [''approve'', ''reject'']"

definition list_status_filters :: "string list" where
  "list_status_filters = hold_statuses @ [''all'']"

definition max_list_limit :: int where
  "max_list_limit = 1000"

record logfile =
  recs :: "json option list"
  torn :: bool

definition land :: "json \<Rightarrow> logfile \<Rightarrow> logfile" where
  "land rec f = \<lparr>recs = recs f @ [if torn f then None else Some rec], torn = False\<rparr>"

fun append_rec :: "fault \<Rightarrow> json \<Rightarrow> logfile \<Rightarrow> logfile \<times> (append_cause + unit)" where
  "append_rec NoFault rec f = (land rec f, Inr ())"
| "append_rec LostWrite rec f = (f, Inl Unavailable)"
| "append_rec TornWrite rec f = (f\<lparr>torn := True\<rparr>, Inl Unavailable)"
| "append_rec (LandedUnproven c) rec f = (land rec f, Inl c)"

type_synonym index = "(json \<times> dict) list"

record store =
  s_index :: index
  s_loaded :: bool
  s_cursor :: nat

definition empty_store :: store where
  "empty_store = \<lparr>s_index = [], s_loaded = False, s_cursor = 0\<rparr>"

datatype hold_exc =
    AppendError append_cause
  | AttributeErr
  | TypeErr
  | KeyErr
  | ValueErr
  | UnknownCursor bool

text \<open>A JSON value that can be a dictionary key.\<close>

definition hashable :: "json \<Rightarrow> bool" where
  "hashable j \<longleftrightarrow> \<not> is_arr j \<and> \<not> is_obj j"

definition fold_resolved :: "dict \<Rightarrow> dict \<Rightarrow> dict" where
  "fold_resolved rec existing =
     dput ''principal_source'' (dget_or rec ''principal_source'' (JStr ''asserted''))
     (dput ''decided_by_verified'' (JBool (py_truth (dget_or rec ''decided_by_verified'' (JBool False))))
     (dput ''reason'' (dget rec ''reason'')
     (dput ''decided_ts'' (dget rec ''decided_ts'')
     (dput ''decided_by'' (dget rec ''decided_by'')
     (dput ''status'' (dget_or rec ''status'' (dget existing ''status'')) existing)))))"

definition fold_event :: "json \<Rightarrow> dict \<Rightarrow> dict \<Rightarrow> hold_exc + dict" where
  "fold_event event_type rec existing =
     (if event_type = JStr ''resolved'' then
        (if map_of existing ''status'' = None then Inl KeyErr else Inr (fold_resolved rec existing))
      else if event_type = JStr ''expired'' then
        Inr (dput ''status'' (JStr ''expired'') existing)
      else if event_type = JStr ''consumed'' then
        Inr (dput ''consumed_ts'' (dget rec ''consumed_ts'')
              (dput ''status'' (JStr ''consumed'') existing))
      else Inr existing)"

definition fold_record :: "index \<Rightarrow> json \<Rightarrow> hold_exc + index" where
  "fold_record ix j =
     (case j of
        JObj rec \<Rightarrow>
          (let hold_id = dget rec ''id''; event_type = dget_or rec ''event_type'' (JStr ''created'')
           in if \<not> py_truth hold_id then Inr ix
              else if \<not> hashable hold_id then Inl TypeErr
              else if event_type = JStr ''created'' then Inr (dput hold_id rec ix)
              else case map_of ix hold_id of
                None \<Rightarrow> Inr ix
              | Some existing \<Rightarrow>
                  bindE (fold_event event_type rec existing) (\<lambda>h. Inr (dput hold_id h ix)))
      | _ \<Rightarrow> Inl AttributeErr)"

fun fold_lines :: "index \<Rightarrow> json option list \<Rightarrow> index \<times> (hold_exc + unit)" where
  "fold_lines ix [] = (ix, Inr ())"
| "fold_lines ix (None # ls) = fold_lines ix ls"
| "fold_lines ix (Some j # ls) =
     (case fold_record ix j of Inl e \<Rightarrow> (ix, Inl e) | Inr ix' \<Rightarrow> fold_lines ix' ls)"

section \<open>Computations\<close>

datatype effect =
    Webhook string dict
  | AuditResolution json string string json string bool string

text \<open>The file, this process's store and the notifications sent so far.\<close>

record hs =
  h_file :: logfile
  h_store :: store
  h_out :: "effect list"

text \<open>What the environment does to one section: whether its lock can be taken, how its append ends.\<close>

record hio =
  lock_ok :: bool
  io_fault :: fault

definition refresh_store :: "json option list \<Rightarrow> store \<Rightarrow> store \<times> (hold_exc + unit)" where
  "refresh_store lines s =
     (let (ix, r) = fold_lines (s_index s) (drop (s_cursor s) lines)
      in (s\<lparr>s_index := ix, s_cursor := max (s_cursor s) (length lines)\<rparr>, r))"

definition refresh_index :: "hs \<Rightarrow> hs \<times> (hold_exc + unit)" where
  "refresh_index h =
     (let (s, r) = refresh_store (recs (h_file h)) (h_store h) in (h\<lparr>h_store := s\<rparr>, r))"

definition boot_load :: "hs \<Rightarrow> hs \<times> (hold_exc + unit)" where
  "boot_load h = refresh_index (h\<lparr>h_store := \<lparr>s_index = [], s_loaded = True, s_cursor = 0\<rparr>\<rparr>)"

definition ensure_loaded :: "hs \<Rightarrow> hs \<times> (hold_exc + unit)" where
  "ensure_loaded h = (if \<not> s_loaded (h_store h) then boot_load h else refresh_index h)"

text \<open>\<open>with _lock, _exclusive():\<close>\<close>

definition exclusive_section ::
  "hio \<Rightarrow> (hs \<Rightarrow> hs \<times> (hold_exc + 'a)) \<Rightarrow> hs \<Rightarrow> hs \<times> (hold_exc + 'a)" where
  "exclusive_section io body h =
     (if \<not> lock_ok io then (h, Inl (AppendError Unavailable))
      else bindS ensure_loaded (\<lambda>_. body) h)"

definition append_and_readback :: "hio \<Rightarrow> dict \<Rightarrow> hs \<Rightarrow> hs \<times> (hold_exc + unit)" where
  "append_and_readback io rec h =
     (case append_rec (io_fault io) (JObj rec) (h_file h) of
        (f, Inl c) \<Rightarrow> (h\<lparr>h_file := f\<rparr>, Inl (AppendError c))
      | (f, Inr _) \<Rightarrow>
          (let s = (h_store h)\<lparr>s_cursor := max (s_cursor (h_store h)) (length (recs f))\<rparr>
           in case fold_record (s_index s) (JObj rec) of
                Inl e \<Rightarrow> (h\<lparr>h_file := f, h_store := s\<rparr>, Inl e)
              | Inr ix \<Rightarrow> (h\<lparr>h_file := f, h_store := s\<lparr>s_index := ix\<rparr>\<rparr>, Inr ())))"

definition emit :: "effect \<Rightarrow> hs \<Rightarrow> hs" where
  "emit e h = h\<lparr>h_out := h_out h @ [e]\<rparr>"

definition index_get :: "hs \<Rightarrow> json \<Rightarrow> dict option" where
  "index_get h hold_id = map_of (s_index (h_store h)) hold_id"

section \<open>Expiry\<close>

definition iso_now :: "clock \<Rightarrow> rat \<Rightarrow> json" where
  "iso_now clk now = JStr (ck_iso clk now)"

text \<open>A truthy deadline that is not a text makes \<open>strptime\<close> raise a \<open>TypeError\<close>.\<close>

definition past_deadline :: "clock \<Rightarrow> rat \<Rightarrow> dict \<Rightarrow> hold_exc + bool" where
  "past_deadline clk now hold =
     (if \<not> py_truth (dget_or hold ''expires_ts'' (JStr [])) then Inr False
      else case dget hold ''expires_ts'' of
        JStr ts \<Rightarrow> Inr (ck_epoch clk ts \<noteq> 0 \<and> ck_epoch clk ts \<le> now)
      | _ \<Rightarrow> Inl TypeErr)"

definition is_expired :: "clock \<Rightarrow> rat \<Rightarrow> dict \<Rightarrow> hold_exc + bool" where
  "is_expired clk now hold = past_deadline clk now hold"

text \<open>The section of \<open>_append_expired_event\<close>: \<open>None\<close> when there was nothing to expire.\<close>

definition expire_section :: "clock \<Rightarrow> hio \<Rightarrow> rat \<Rightarrow> json \<Rightarrow> hs \<Rightarrow> hs \<times> (hold_exc + json option)" where
  "expire_section clk io now hold_id =
     exclusive_section io (\<lambda>h.
       case index_get h hold_id of
         None \<Rightarrow> (h, Inr None)
       | Some hold \<Rightarrow>
           if dget hold ''status'' \<noteq> JStr ''pending'' then (h, Inr None)
           else
             let observed = iso_now clk now;
                 expired_ts = (if py_truth (dget hold ''expires_ts'') then dget hold ''expires_ts''
                               else observed);
                 rec = [(''id'', hold_id), (''event_type'', JStr ''expired''),
                        (''expired_ts'', expired_ts), (''observed_ts'', observed), (''ts'', observed)]
             in bindS (append_and_readback io rec) (\<lambda>_. retS (Some expired_ts)) h)"

definition append_expired_event :: "clock \<Rightarrow> hio \<Rightarrow> rat \<Rightarrow> json \<Rightarrow> hs \<Rightarrow> hs \<times> (hold_exc + unit)" where
  "append_expired_event clk io now hold_id =
     bindS (expire_section clk io now hold_id) (\<lambda>r h.
       case r of
         None \<Rightarrow> (h, Inr ())
       | Some expired_ts \<Rightarrow>
           (let hold = (case index_get h hold_id of None \<Rightarrow> [] | Some d \<Rightarrow> d);
                observed = iso_now clk now
            in (emit (AuditResolution hold_id ''expired'' ''system:reeflex-core'' expired_ts
                        (ck_iso clk now) True ''system'')
                 (emit (Webhook ''hold.expired''
                    [(''hold_id'', hold_id), (''rule_id'', dget_or hold ''rule_id'' (JStr [])),
                     (''status'', JStr ''expired''), (''ts'', observed),
                     (''expired_ts'', expired_ts), (''observed_ts'', observed)]) h), Inr ())))"

definition check_expiry :: "clock \<Rightarrow> hio \<Rightarrow> rat \<Rightarrow> dict \<Rightarrow> hs \<Rightarrow> hs \<times> (hold_exc + unit)" where
  "check_expiry clk io now hold h =
     (if dget hold ''status'' \<noteq> JStr ''pending'' then (h, Inr ())
      else case past_deadline clk now hold of
        Inl e \<Rightarrow> (h, Inl e)
      | Inr due \<Rightarrow>
          if due then append_expired_event clk io now (dget hold ''id'') h else (h, Inr ()))"

section \<open>The operations\<close>

definition new_hold ::
  "clock \<Rightarrow> (json \<Rightarrow> string) \<Rightarrow> rat \<Rightarrow> int \<Rightarrow> string \<Rightarrow> dict \<Rightarrow> json \<Rightarrow> string \<Rightarrow> dict" where
  "new_hold clk digest now ttl hold_id envelope rule_id decision_id =
     [(''id'', JStr hold_id), (''event_type'', JStr ''created''),
      (''created_ts'', iso_now clk now), (''expires_ts'', iso_now clk (now + of_int ttl)),
      (''envelope'', JObj envelope), (''envelope_hash'', JStr (canonical_hash digest envelope)),
      (''rule_id'', rule_id), (''status'', JStr ''pending''), (''decided_by'', JNull),
      (''decided_by_verified'', JBool False), (''principal_source'', JNull),
      (''decided_ts'', JNull), (''reason'', JNull), (''consumed_ts'', JNull),
      (''decision_id'', JStr decision_id), (''ts'', iso_now clk now)]"

text \<open>\<open>hold_id\<close> is the fresh \<open>uuid4\<close>.\<close>

definition create_hold ::
  "clock \<Rightarrow> (json \<Rightarrow> string) \<Rightarrow> hio \<Rightarrow> rat \<Rightarrow> int \<Rightarrow> string \<Rightarrow> dict \<Rightarrow> json \<Rightarrow> string \<Rightarrow>
   hs \<Rightarrow> hs \<times> (hold_exc + dict)" where
  "create_hold clk digest io now ttl hold_id envelope rule_id decision_id =
     (let rec = new_hold clk digest now ttl hold_id envelope rule_id decision_id
      in exclusive_section io (bindS (append_and_readback io rec) (\<lambda>_. retS rec)))"

definition get_hold :: "clock \<Rightarrow> hio \<Rightarrow> rat \<Rightarrow> string \<Rightarrow> hs \<Rightarrow> hs \<times> (hold_exc + dict option)" where
  "get_hold clk io now hold_id =
     bindS ensure_loaded (\<lambda>_ h.
       case index_get h (JStr hold_id) of
         None \<Rightarrow> (h, Inr None)
       | Some hold_copy \<Rightarrow>
           bindS (check_expiry clk io now hold_copy)
             (\<lambda>_ h'. (h', Inr (index_get h' (JStr hold_id)))) h)"

text \<open>The sweep of \<open>list_holds\<close>; \<open>ios\<close> gives the environment of each hold's expiry section.\<close>

fun sweep :: "clock \<Rightarrow> (json \<Rightarrow> hio) \<Rightarrow> rat \<Rightarrow> json list \<Rightarrow> hs \<Rightarrow> hs \<times> (hold_exc + unit)" where
  "sweep clk ios now [] h = (h, Inr ())"
| "sweep clk ios now (hid # hids) h =
     bindS (\<lambda>h. case index_get h hid of
                  None \<Rightarrow> (h, Inr ())
                | Some hold \<Rightarrow>
                    if hold \<noteq> [] \<and> dget hold ''status'' = JStr ''pending''
                    then check_expiry clk (ios hid) now hold h else (h, Inr ()))
       (\<lambda>_. sweep clk ios now hids) h"

definition hold_order :: "dict \<Rightarrow> string \<times> string" where
  "hold_order h = (str_of (dget_or h ''created_ts'' (JStr [])), str_of (dget_or h ''id'' (JStr [])))"

definition snapshot_of :: "string option \<Rightarrow> index \<Rightarrow> dict list" where
  "snapshot_of status ix =
     filter (\<lambda>h. case status of None \<Rightarrow> True | Some s \<Rightarrow> dget h ''status'' = JStr s)
       (sort_key hold_order (map snd ix))"

text \<open>The part of the snapshot after the cursor; \<open>None\<close> when the cursor is not in it.\<close>

fun after_cursor :: "string \<Rightarrow> dict list \<Rightarrow> dict list option" where
  "after_cursor cur [] = None"
| "after_cursor cur (h # hs) = (if dget h ''id'' = JStr cur then Some hs else after_cursor cur hs)"

definition take_page :: "nat \<Rightarrow> dict list \<Rightarrow> dict list \<times> json option" where
  "take_page limit snapshot =
     (let page = take limit snapshot
      in (page, if limit < length snapshot \<and> page \<noteq> [] then Some (dget (last page) ''id'') else None))"

definition list_holds ::
  "clock \<Rightarrow> (json \<Rightarrow> hio) \<Rightarrow> rat \<Rightarrow> string option \<Rightarrow> int \<Rightarrow> string option \<Rightarrow>
   hs \<Rightarrow> hs \<times> (hold_exc + dict list \<times> json option)" where
  "list_holds clk ios now status limit cur h0 =
     (if (case status of None \<Rightarrow> False | Some s \<Rightarrow> s \<notin> set list_status_filters) then (h0, Inl ValueErr)
      else if limit < 1 \<or> max_list_limit < limit then (h0, Inl ValueErr)
      else
        let status' = (if status = Some ''all'' then None else status)
        in bindS ensure_loaded (\<lambda>_ h.
             bindS (sweep clk ios now (map fst (s_index (h_store h)))) (\<lambda>_ h.
               let snapshot = snapshot_of status' (s_index (h_store h))
               in case cur of
                    None \<Rightarrow> (h, Inr (take_page (nat limit) snapshot))
                  | Some c \<Rightarrow>
                      if c = [] then (h, Inr (take_page (nat limit) snapshot))
                      else case after_cursor c snapshot of
                        Some rest \<Rightarrow> (h, Inr (take_page (nat limit) rest))
                      | None \<Rightarrow>
                          bindS ensure_loaded
                            (\<lambda>_ h. (h, Inl (UnknownCursor (index_get h (JStr c) \<noteq> None)))) h) h) h0)"

definition resolved_record ::
  "clock \<Rightarrow> rat \<Rightarrow> string \<Rightarrow> string \<Rightarrow> string \<Rightarrow> string \<Rightarrow> json \<Rightarrow> bool \<Rightarrow> string \<Rightarrow> dict" where
  "resolved_record clk now hold_id decision ptype pid reason verified src =
     [(''id'', JStr hold_id), (''event_type'', JStr ''resolved''),
      (''status'', JStr (if decision = ''approve'' then ''approved'' else ''rejected'')),
      (''decided_by'', JStr (ptype @ CHR '':'' # pid)), (''decided_by_verified'', JBool verified),
      (''principal_source'', JStr src), (''decided_ts'', iso_now clk now), (''reason'', reason),
      (''ts'', iso_now clk now)]"

definition resolve_section :: "hio \<Rightarrow> string \<Rightarrow> dict \<Rightarrow> hs \<Rightarrow> hs \<times> (hold_exc + dict option)" where
  "resolve_section io hold_id rec =
     exclusive_section io (\<lambda>h.
       case index_get h (JStr hold_id) of
         None \<Rightarrow> (h, Inr None)
       | Some _ \<Rightarrow>
           bindS (append_and_readback io rec) (\<lambda>_ h. (h, Inr (index_get h (JStr hold_id)))) h)"

definition resolve_hold ::
  "clock \<Rightarrow> hio \<Rightarrow> rat \<Rightarrow> string \<Rightarrow> string \<Rightarrow> string \<Rightarrow> string \<Rightarrow> json \<Rightarrow> bool \<Rightarrow> string \<Rightarrow>
   hs \<Rightarrow> hs \<times> (hold_exc + dict option)" where
  "resolve_hold clk io now hold_id decision ptype pid reason verified src h =
     (if decision \<notin> set resolve_decisions then (h, Inl ValueErr)
      else
        bindS (resolve_section io hold_id
                 (resolved_record clk now hold_id decision ptype pid reason verified src))
          (\<lambda>r h. case r of
             None \<Rightarrow> (h, Inr None)
           | Some hold \<Rightarrow>
               (emit (AuditResolution (JStr hold_id)
                        (if decision = ''approve'' then ''approved'' else ''rejected'')
                        (ptype @ CHR '':'' # pid) (iso_now clk now) [] verified src) h,
                Inr (Some hold))) h)"

definition mark_consumed :: "clock \<Rightarrow> hio \<Rightarrow> rat \<Rightarrow> string \<Rightarrow> hs \<Rightarrow> hs \<times> (hold_exc + dict option)" where
  "mark_consumed clk io now hold_id =
     exclusive_section io (\<lambda>h.
       case index_get h (JStr hold_id) of
         None \<Rightarrow> (h, Inr None)
       | Some hold \<Rightarrow>
           if dget hold ''status'' \<noteq> JStr ''approved'' then (h, Inr None)
           else
             bindS (append_and_readback io
                 [(''id'', JStr hold_id), (''event_type'', JStr ''consumed''),
                  (''status'', JStr ''consumed''), (''consumed_ts'', iso_now clk now),
                  (''ts'', iso_now clk now)])
               (\<lambda>_ h. (h, Inr (index_get h (JStr hold_id)))) h)"

section \<open>The index is a view of the file\<close>

text \<open>A record every reader can fold: an object whose id is hashable, and a \<open>created\<close> record has a
  status.\<close>

definition good_line :: "json option \<Rightarrow> bool" where
  "good_line l =
     (case l of
        None \<Rightarrow> True
      | Some (JObj rec) \<Rightarrow>
          hashable (dget rec ''id'')
          \<and> (dget_or rec ''event_type'' (JStr ''created'') = JStr ''created''
             \<longrightarrow> map_of rec ''status'' \<noteq> None)
      | Some _ \<Rightarrow> False)"

definition index_ok :: "index \<Rightarrow> bool" where
  "index_ok ix \<longleftrightarrow> (\<forall>k h. map_of ix k = Some h \<longrightarrow> map_of h ''status'' \<noteq> None)"

definition hold_act :: "index \<Rightarrow> json option \<Rightarrow> index" where
  "hold_act ix l =
     (case l of
        None \<Rightarrow> ix
      | Some j \<Rightarrow> (case fold_record ix j of Inl _ \<Rightarrow> ix | Inr ix' \<Rightarrow> ix'))"

lemma fold_event_status:
  "map_of h ''status'' \<noteq> None \<Longrightarrow> \<exists>h'. fold_event ty rec h = Inr h' \<and> map_of h' ''status'' \<noteq> None"
  by (auto simp: fold_event_def fold_resolved_def)

lemma fold_record_good:
  assumes "index_ok ix" "good_line (Some j)"
  shows "\<exists>ix'. fold_record ix j = Inr ix' \<and> index_ok ix'"
proof -
  obtain rec where j: "j = JObj rec" using assms(2) by (cases j) (auto simp: good_line_def)
  have g: "hashable (dget rec ''id'')"
    and c: "dget_or rec ''event_type'' (JStr ''created'') = JStr ''created'' \<Longrightarrow>
            map_of rec ''status'' \<noteq> None"
    using assms(2) j by (auto simp: good_line_def)
  show ?thesis
  proof (cases "py_truth (dget rec ''id'') \<and>
                dget_or rec ''event_type'' (JStr ''created'') \<noteq> JStr ''created''")
    case True
    show ?thesis
    proof (cases "map_of ix (dget rec ''id'')")
      case None
      then show ?thesis using assms(1) j g True by (simp add: fold_record_def Let_def)
    next
      case (Some h)
      then have "map_of h ''status'' \<noteq> None" using assms(1) unfolding index_ok_def by blast
      from fold_event_status [OF this] obtain h' where
        h': "fold_event (dget_or rec ''event_type'' (JStr ''created'')) rec h = Inr h'"
        "map_of h' ''status'' \<noteq> None" by blast
      then show ?thesis
        using assms(1) j g True Some by (auto simp: fold_record_def Let_def index_ok_def)
    qed
  next
    case False
    then show ?thesis using assms(1) j g c by (auto simp: fold_record_def Let_def index_ok_def)
  qed
qed

lemma hold_act_ok: "index_ok ix \<Longrightarrow> good_line l \<Longrightarrow> index_ok (hold_act ix l)"
  using fold_record_good by (cases l) (fastforce simp: hold_act_def)+

lemma fold_lines_good:
  "index_ok ix \<Longrightarrow> list_all good_line ls \<Longrightarrow> fold_lines ix ls = (foldl hold_act ix ls, Inr ())"
proof (induction ls arbitrary: ix)
  case (Cons l ls)
  show ?case
  proof (cases l)
    case None
    then show ?thesis using Cons by (simp add: hold_act_def)
  next
    case (Some j)
    then obtain ix' where "fold_record ix j = Inr ix'" "index_ok ix'"
      using fold_record_good Cons.prems by force
    then show ?thesis using Some Cons by (simp add: hold_act_def)
  qed
qed simp

text \<open>\<open>_ensure_loaded\<close> as an operation on the store alone.\<close>

definition sync_store :: "json option list \<Rightarrow> store \<Rightarrow> store" where
  "sync_store lines s =
     fst (refresh_store lines
            (if s_loaded s then s else \<lparr>s_index = [], s_loaded = True, s_cursor = 0\<rparr>))"

definition store_view :: "store \<Rightarrow> index" where
  "store_view s = (if s_loaded s then s_index s else [])"

definition store_cursor :: "store \<Rightarrow> nat" where
  "store_cursor s = (if s_loaded s then s_cursor s else 0)"

lemma sync_store_good:
  assumes "store_cursor s \<le> length f" "list_all good_line f" "index_ok (store_view s)"
  shows "sync_store f s =
    \<lparr>s_index = foldl hold_act (store_view s) (drop (store_cursor s) f), s_loaded = True,
     s_cursor = length f\<rparr>"
proof -
  have "list_all good_line (drop (store_cursor s) f)"
    using assms(2) by (auto simp: list_all_iff dest: in_set_dropD)
  from fold_lines_good [OF assms(3) this] show ?thesis
    using assms(1) by (cases s) (auto simp: sync_store_def refresh_store_def store_view_def store_cursor_def)
qed

interpretation hold_index: log_view hold_act "[]" index_ok good_line store_view store_cursor sync_store
proof
  show "index_ok []" by (simp add: index_ok_def)
  show "index_ok v \<Longrightarrow> good_line e \<Longrightarrow> index_ok (hold_act v e)" for v e by (rule hold_act_ok)
  show "store_cursor s \<le> length f \<Longrightarrow> list_all good_line f \<Longrightarrow> index_ok (store_view s) \<Longrightarrow>
      store_view (sync_store f s) = foldl hold_act (store_view s) (drop (store_cursor s) f)" for s f
    by (simp add: sync_store_good) (simp add: store_view_def)
  show "store_cursor s \<le> length f \<Longrightarrow> list_all good_line f \<Longrightarrow> index_ok (store_view s) \<Longrightarrow>
      store_cursor (sync_store f s) = length f" for s f
    by (simp add: sync_store_good) (simp add: store_cursor_def)
qed

section \<open>What one section does to the file\<close>

lemma ensure_loaded_sync:
  "fst (ensure_loaded h) = h\<lparr>h_store := sync_store (recs (h_file h)) (h_store h)\<rparr>"
  by (auto simp: ensure_loaded_def boot_load_def refresh_index_def sync_store_def split: prod.splits)

lemma ensure_loaded_good:
  assumes "hold_index.synced (recs (h_file h)) (h_store h)" "list_all good_line (recs (h_file h))"
  shows "ensure_loaded h = (h\<lparr>h_store := sync_store (recs (h_file h)) (h_store h)\<rparr>, Inr ())"
proof -
  let ?f = "recs (h_file h)" and ?s = "h_store h"
  have ok: "index_ok (store_view ?s)" using hold_index.synced_ok assms by blast
  have d: "list_all good_line (drop n ?f)" for n
    using assms(2) by (auto simp: list_all_iff dest: in_set_dropD)
  have "snd (ensure_loaded h) = Inr ()"
    using fold_lines_good [OF ok d] fold_lines_good [of "[]", OF _ d] fold_lines_good [of "[]", OF _ assms(2)] ok
    by (auto simp: ensure_loaded_def boot_load_def refresh_index_def refresh_store_def store_view_def
        store_cursor_def index_ok_def split: prod.splits if_splits)
  then show ?thesis using ensure_loaded_sync [of h] by (cases "ensure_loaded h") simp
qed

text \<open>A store that has just been refreshed under the locks.\<close>

definition fresh :: "hs \<Rightarrow> bool" where
  "fresh h \<longleftrightarrow> s_loaded (h_store h) \<and> s_cursor (h_store h) = length (recs (h_file h))
     \<and> s_index (h_store h) = foldl hold_act [] (recs (h_file h))"

lemma fresh_after_sync:
  assumes "hold_index.synced (recs (h_file h)) (h_store h)" "list_all good_line (recs (h_file h))"
  shows "fresh (h\<lparr>h_store := sync_store (recs (h_file h)) (h_store h)\<rparr>)"
proof -
  let ?f = "recs (h_file h)" and ?s = "h_store h"
  have "index_ok (store_view ?s)" using hold_index.synced_ok assms by blast
  moreover have "store_cursor ?s \<le> length ?f" using assms(1) by (simp add: hold_index.synced_def)
  ultimately have l: "s_loaded (sync_store ?f ?s)" using sync_store_good assms(2) by simp
  then show ?thesis
    using hold_index.view_fresh [OF assms] hold_index.cursor_fresh [OF assms]
    by (simp add: fresh_def store_view_def store_cursor_def)
qed

lemma fresh_synced: "fresh h \<Longrightarrow> hold_index.synced (recs (h_file h)) (h_store h)"
  by (simp add: fresh_def hold_index.synced_def store_view_def store_cursor_def)

text \<open>An append on a fresh store: the file keeps its records and gains the new one or nothing, and
  the store stays a view of it.\<close>

lemma append_and_readback_fresh:
  assumes "fresh h" "list_all good_line (recs (h_file h))" "\<not> torn (h_file h)"
    and "good_line (Some (JObj rec))" "io_fault io \<noteq> TornWrite"
    and "append_and_readback io rec h = (h', r)"
  shows "\<not> torn (h_file h') \<and> h_out h' = h_out h
         \<and> hold_index.synced (recs (h_file h')) (h_store h')
         \<and> (recs (h_file h') = recs (h_file h) \<or> recs (h_file h') = recs (h_file h) @ [Some (JObj rec)])
         \<and> (r = Inr () \<longrightarrow> fresh h' \<and> recs (h_file h') = recs (h_file h) @ [Some (JObj rec)])"
proof -
  have ok: "index_ok (s_index (h_store h))"
    using hold_index.synced_ok [OF fresh_synced [OF assms(1)] assms(2)] assms(1)
    by (simp add: fresh_def store_view_def)
  then obtain ix where ix: "fold_record (s_index (h_store h)) (JObj rec) = Inr ix"
    using fold_record_good assms(4) by blast
  note sy = fresh_synced [OF assms(1)]
  note sy1 = hold_index.synced_append [OF sy, of "[Some (JObj rec)]"]
  show ?thesis
  proof (cases "io_fault io")
    case NoFault
    then have h': "h_file h' = land (JObj rec) (h_file h)" "r = Inr ()" "h_out h' = h_out h"
      "h_store h' = (h_store h)\<lparr>s_cursor := Suc (length (recs (h_file h))), s_index := ix\<rparr>"
      using assms(1,6) ix by (auto simp: append_and_readback_def land_def fresh_def)
    then have "fresh h'" using assms(1,3) ix by (simp add: fresh_def land_def hold_act_def)
    then show ?thesis using h'(1-3) assms(3) fresh_synced [of h'] by (simp add: land_def)
  next
    case (LandedUnproven c)
    then show ?thesis using assms(3,6) sy1 by (auto simp: append_and_readback_def land_def)
  qed (use assms sy in \<open>auto simp: append_and_readback_def\<close>)
qed

lemma exclusive_section_cases:
  assumes "hold_index.synced (recs (h_file h)) (h_store h)" "list_all good_line (recs (h_file h))"
  obtains "exclusive_section io body h = (h, Inl (AppendError Unavailable))"
  | h1 where "exclusive_section io body h = body h1" "fresh h1" "h_file h1 = h_file h"
      "h_out h1 = h_out h"
proof (cases "lock_ok io")
  case False
  then show thesis using that(1) by (simp add: exclusive_section_def)
next
  case True
  let ?h1 = "h\<lparr>h_store := sync_store (recs (h_file h)) (h_store h)\<rparr>"
  have "exclusive_section io body h = body ?h1"
    using True bindS_eq [of ensure_loaded, OF ensure_loaded_good [OF assms]]
    by (simp add: exclusive_section_def)
  then show thesis using that(2) fresh_after_sync [OF assms] by simp
qed

section \<open>The file as a sequence of events\<close>

definition status_in :: "index \<Rightarrow> json \<Rightarrow> json option" where
  "status_in ix hid = map_option (\<lambda>h. dget h ''status'') (map_of ix hid)"

definition status_of :: "json \<Rightarrow> json option list \<Rightarrow> json option" where
  "status_of hid f = status_in (foldl hold_act [] f) hid"

definition is_event :: "string \<Rightarrow> json \<Rightarrow> json option \<Rightarrow> bool" where
  "is_event ty hid l =
     (case l of
        Some (JObj rec) \<Rightarrow>
          dget rec ''id'' = hid \<and> dget_or rec ''event_type'' (JStr ''created'') = JStr ty
      | _ \<Rightarrow> False)"

definition count_events :: "string \<Rightarrow> json \<Rightarrow> json option list \<Rightarrow> nat" where
  "count_events ty hid f = length (filter (is_event ty hid) f)"

definition is_approval :: "json \<Rightarrow> json option \<Rightarrow> bool" where
  "is_approval hid l \<longleftrightarrow> is_event ''resolved'' hid l \<and>
     (case l of Some (JObj rec) \<Rightarrow> dget rec ''status'' = JStr ''approved'' | _ \<Rightarrow> False)"

definition count_approvals :: "json \<Rightarrow> json option list \<Rightarrow> nat" where
  "count_approvals hid f = length (filter (is_approval hid) f)"

text \<open>The records the sections may append, given the file so far.\<close>

definition may_append :: "json option list \<Rightarrow> dict \<Rightarrow> bool" where
  "may_append f rec \<longleftrightarrow>
     (let hid = dget rec ''id''; ty = dget_or rec ''event_type'' (JStr ''created'') in
      py_truth hid \<and> hashable hid
      \<and> (ty = JStr ''created'' \<and> map_of rec ''status'' = Some (JStr ''pending'') \<and> status_of hid f = None
           \<and> count_events ''expired'' hid f = 0
         \<or> ty = JStr ''resolved'' \<and> status_of hid f \<noteq> None
           \<and> map_of rec ''status'' \<in> {Some (JStr ''approved''), Some (JStr ''rejected'')}
         \<or> ty = JStr ''expired'' \<and> status_of hid f = Some (JStr ''pending'')
         \<or> ty = JStr ''consumed'' \<and> status_of hid f = Some (JStr ''approved'')))"

fun legal_from :: "json option list \<Rightarrow> json option list \<Rightarrow> bool" where
  "legal_from past [] = True"
| "legal_from past (l # ls) =
     ((case l of Some (JObj rec) \<Rightarrow> may_append past rec | _ \<Rightarrow> False) \<and> legal_from (past @ [l]) ls)"

definition legal_log :: "json option list \<Rightarrow> bool" where
  "legal_log f = legal_from [] f"

lemma legal_from_append: "legal_from p (a @ b) \<longleftrightarrow> legal_from p a \<and> legal_from (p @ a) b"
  by (induction a arbitrary: p) auto

lemma legal_log_snoc:
  "legal_log (f @ [l]) \<longleftrightarrow>
     legal_log f \<and> (case l of Some (JObj rec) \<Rightarrow> may_append f rec | _ \<Rightarrow> False)"
  by (simp add: legal_log_def legal_from_append)

lemma may_append_good: "may_append f rec \<Longrightarrow> good_line (Some (JObj rec))"
  by (auto simp: may_append_def good_line_def Let_def)

lemma legal_log_good: "legal_log f \<Longrightarrow> list_all good_line f"
proof (induction f rule: rev_induct)
  case (snoc l f)
  then show ?case
    by (auto simp: legal_log_snoc may_append_good split: option.splits json.splits)
qed simp

lemma legal_index_ok: "legal_log f \<Longrightarrow> index_ok (foldl hold_act [] f)"
  by (rule hold_index.ok_fold [OF legal_log_good]) (simp_all add: index_ok_def)

section \<open>Every operation appends legal records\<close>

definition store_ok :: "hs \<Rightarrow> bool" where
  "store_ok h \<longleftrightarrow> legal_log (recs (h_file h)) \<and> \<not> torn (h_file h)
     \<and> hold_index.synced (recs (h_file h)) (h_store h)"

lemma store_ok_good: "store_ok h \<Longrightarrow> list_all good_line (recs (h_file h))"
  by (simp add: store_ok_def legal_log_good)

lemma append_legal:
  assumes "fresh h" "legal_log (recs (h_file h))" "\<not> torn (h_file h)"
    and "may_append (recs (h_file h)) rec" "io_fault io \<noteq> TornWrite"
    and "append_and_readback io rec h = (h', r)"
  shows "store_ok h' \<and> (recs (h_file h') = recs (h_file h) \<or> recs (h_file h') = recs (h_file h) @ [Some (JObj rec)])"
  using append_and_readback_fresh [OF assms(1) legal_log_good [OF assms(2)] assms(3)
      may_append_good [OF assms(4)] assms(5,6)] assms(2,4)
  by (auto simp: store_ok_def legal_log_snoc)

lemma fresh_store_ok: "fresh h \<Longrightarrow> legal_log (recs (h_file h)) \<Longrightarrow> \<not> torn (h_file h) \<Longrightarrow> store_ok h"
  by (simp add: store_ok_def fresh_synced)

text \<open>A section that runs its body on a fresh store with the same file.\<close>

lemma section_store_ok:
  assumes "store_ok h"
    and "exclusive_section io body h = (h', r)"
    and "\<And>h1. fresh h1 \<Longrightarrow> h_file h1 = h_file h \<Longrightarrow> body h1 = (h', r) \<Longrightarrow> P"
    and "h' = h \<Longrightarrow> P"
  shows P
  using exclusive_section_cases [of h io body thesis for thesis] store_ok_good [OF assms(1)] assms
  unfolding store_ok_def by (metis prod.inject)

definition mentions :: "json \<Rightarrow> json option \<Rightarrow> bool" where
  "mentions hid l = (case l of Some (JObj rec) \<Rightarrow> dget rec ''id'' = hid | _ \<Rightarrow> False)"

definition unused_id :: "json \<Rightarrow> json option list \<Rightarrow> bool" where
  "unused_id hid f \<longleftrightarrow> \<not> list_ex (mentions hid) f"

lemma hold_act_other: "\<not> mentions hid l \<Longrightarrow> map_of (hold_act ix l) hid = map_of ix hid"
  by (auto simp: hold_act_def mentions_def fold_record_def Let_def py_simps
      split: option.splits json.splits if_splits sum.splits)

lemma unused_id_status: "unused_id hid f \<Longrightarrow> status_of hid f = None"
proof -
  have "\<not> list_ex (mentions hid) f \<Longrightarrow> map_of (foldl hold_act ix f) hid = map_of ix hid" for ix
    by (induction f arbitrary: ix) (auto simp: hold_act_other)
  then show "unused_id hid f \<Longrightarrow> status_of hid f = None"
    by (simp add: unused_id_def status_of_def status_in_def)
qed

lemma unused_id_events: "unused_id hid f \<Longrightarrow> count_events ty hid f = 0"
  by (auto simp: unused_id_def count_events_def list_ex_iff filter_empty_conv is_event_def mentions_def
      split: option.splits json.splits)

lemma create_hold_ok:
  assumes "store_ok h" "io_fault io \<noteq> TornWrite" "hid \<noteq> []" "unused_id (JStr hid) (recs (h_file h))"
    and "create_hold clk digest io now ttl hid env rule did h = (h', r)"
  shows "store_ok h'"
proof -
  let ?rec = "new_hold clk digest now ttl hid env rule did"
  have m: "may_append (recs (h_file h)) ?rec"
    using assms(3) unused_id_status [OF assms(4)] unused_id_events [OF assms(4)]
    by (simp add: may_append_def new_hold_def dget_or_def hashable_def Let_def)
  have leg: "legal_log (recs (h_file h))" "\<not> torn (h_file h)" using assms(1) by (auto simp: store_ok_def)
  show ?thesis
    using assms(1) assms(5) [unfolded create_hold_def Let_def]
  proof (rule section_store_ok)
    fix h1
    assume h1: "fresh h1" "h_file h1 = h_file h"
      and b: "bindS (append_and_readback io ?rec) (\<lambda>_. retS ?rec) h1 = (h', r)"
    obtain h2 r2 where a: "append_and_readback io ?rec h1 = (h2, r2)" by fastforce
    then have "h' = h2" using b by (cases r2) (auto simp: bindS_def retS_def)
    then show "store_ok h'" using append_legal [OF h1(1) _ _ _ assms(2) a] h1 m leg by simp
  qed (use assms(1) in simp)
qed

lemma fresh_index_get: "fresh h \<Longrightarrow> index_get h hid = map_of (foldl hold_act [] (recs (h_file h))) hid"
  by (simp add: index_get_def fresh_def)

lemma expire_section_ok:
  assumes "store_ok h" "io_fault io \<noteq> TornWrite" "hid \<noteq> []"
    and "expire_section clk io now (JStr hid) h = (h', r)"
  shows "store_ok h'"
  using assms(1) assms(4) [unfolded expire_section_def]
proof (rule section_store_ok)
  fix h1
  let ?rec = "\<lambda>ts. [(''id'', JStr hid), (''event_type'', JStr ''expired''), (''expired_ts'', ts),
                   (''observed_ts'', iso_now clk now), (''ts'', iso_now clk now)]"
  assume h1: "fresh h1" "h_file h1 = h_file h"
    and b: "(case index_get h1 (JStr hid) of None \<Rightarrow> (h1, Inr None)
             | Some hold \<Rightarrow>
                 if dget hold ''status'' \<noteq> JStr ''pending'' then (h1, Inr None)
                 else let observed = iso_now clk now;
                          expired_ts = if py_truth (dget hold ''expires_ts'') then dget hold ''expires_ts''
                                       else observed;
                          rec = [(''id'', JStr hid), (''event_type'', JStr ''expired''),
                                 (''expired_ts'', expired_ts), (''observed_ts'', observed), (''ts'', observed)]
                      in bindS (append_and_readback io rec) (\<lambda>_. retS (Some expired_ts)) h1) = (h', r)"
  have leg: "legal_log (recs (h_file h))" "\<not> torn (h_file h)" using assms(1) by (auto simp: store_ok_def)
  show "store_ok h'"
  proof (cases "\<exists>hold. index_get h1 (JStr hid) = Some hold \<and> dget hold ''status'' = JStr ''pending''")
    case False
    then have "h' = h1" using b by (auto split: option.splits if_splits)
    then show ?thesis using fresh_store_ok h1 leg by simp
  next
    case True
    then obtain hold where hold: "index_get h1 (JStr hid) = Some hold" "dget hold ''status'' = JStr ''pending''"
      by blast
    then obtain ts h2 r2 where a: "append_and_readback io (?rec ts) h1 = (h2, r2)" and "h' = h2"
      using b by (auto simp: Let_def bindS_def retS_def split: prod.splits sum.splits)
    moreover have "may_append (recs (h_file h1)) (?rec ts)"
      using hold fresh_index_get [OF h1(1)] assms(3)
      by (simp add: may_append_def Let_def dget_or_def hashable_def status_of_def status_in_def)
    ultimately show ?thesis using append_legal [OF h1(1) _ _ _ assms(2) a] h1 leg by simp
  qed
qed (use assms(1) in simp)

lemma resolve_section_ok:
  assumes "store_ok h" "io_fault io \<noteq> TornWrite" "hid \<noteq> []"
    and "resolve_section io hid (resolved_record clk now hid decision ptype pid reason verified src) h
         = (h', r)"
  shows "store_ok h'"
  using assms(1) assms(4) [unfolded resolve_section_def]
proof (rule section_store_ok)
  fix h1
  let ?rec = "resolved_record clk now hid decision ptype pid reason verified src"
  assume h1: "fresh h1" "h_file h1 = h_file h"
    and b: "(case index_get h1 (JStr hid) of None \<Rightarrow> (h1, Inr None)
             | Some _ \<Rightarrow> bindS (append_and_readback io ?rec)
                           (\<lambda>_ h. (h, Inr (index_get h (JStr hid)))) h1) = (h', r)"
  have leg: "legal_log (recs (h_file h))" "\<not> torn (h_file h)" using assms(1) by (auto simp: store_ok_def)
  show "store_ok h'"
  proof (cases "index_get h1 (JStr hid)")
    case None
    then have "h' = h1" using b by simp
    then show ?thesis using fresh_store_ok h1 leg by simp
  next
    case (Some hold)
    obtain h2 r2 where a: "append_and_readback io ?rec h1 = (h2, r2)" by fastforce
    then have "h' = h2" using b Some by (cases r2) (auto simp: bindS_def)
    moreover have "may_append (recs (h_file h1)) ?rec"
      using Some fresh_index_get [OF h1(1)] assms(3)
      by (simp add: may_append_def Let_def dget_or_def hashable_def status_of_def status_in_def
          resolved_record_def)
    ultimately show ?thesis using append_legal [OF h1(1) _ _ _ assms(2) a] h1 leg by simp
  qed
qed (use assms(1) in simp)

lemma mark_consumed_ok:
  assumes "store_ok h" "io_fault io \<noteq> TornWrite" "hid \<noteq> []"
    and "mark_consumed clk io now hid h = (h', r)"
  shows "store_ok h'"
  using assms(1) assms(4) [unfolded mark_consumed_def]
proof (rule section_store_ok)
  fix h1
  let ?rec = "[(''id'', JStr hid), (''event_type'', JStr ''consumed''), (''status'', JStr ''consumed''),
               (''consumed_ts'', iso_now clk now), (''ts'', iso_now clk now)]"
  assume h1: "fresh h1" "h_file h1 = h_file h"
    and b: "(case index_get h1 (JStr hid) of None \<Rightarrow> (h1, Inr None)
             | Some hold \<Rightarrow>
                 if dget hold ''status'' \<noteq> JStr ''approved'' then (h1, Inr None)
                 else bindS (append_and_readback io ?rec)
                        (\<lambda>_ h. (h, Inr (index_get h (JStr hid)))) h1) = (h', r)"
  have leg: "legal_log (recs (h_file h))" "\<not> torn (h_file h)" using assms(1) by (auto simp: store_ok_def)
  show "store_ok h'"
  proof (cases "\<exists>hold. index_get h1 (JStr hid) = Some hold \<and> dget hold ''status'' = JStr ''approved''")
    case False
    then have "h' = h1" using b by (auto split: option.splits if_splits)
    then show ?thesis using fresh_store_ok h1 leg by simp
  next
    case True
    then obtain hold where hold: "index_get h1 (JStr hid) = Some hold" "dget hold ''status'' = JStr ''approved''"
      by blast
    obtain h2 r2 where a: "append_and_readback io ?rec h1 = (h2, r2)" by fastforce
    then have "h' = h2" using b hold by (cases r2) (auto simp: bindS_def)
    moreover have "may_append (recs (h_file h1)) ?rec"
      using hold fresh_index_get [OF h1(1)] assms(3)
      by (simp add: may_append_def Let_def dget_or_def hashable_def status_of_def status_in_def)
    ultimately show ?thesis using append_legal [OF h1(1) _ _ _ assms(2) a] h1 leg by simp
  qed
qed (use assms(1) in simp)

lemma ensure_loaded_ok: "store_ok h \<Longrightarrow> ensure_loaded h = (h', r) \<Longrightarrow> store_ok h'"
  using ensure_loaded_good [of h] store_ok_good [of h] hold_index.synced_refresh
  by (auto simp: store_ok_def)

section \<open>What a legal sequence of events guarantees\<close>

lemma status_act_created:
  assumes "dget rec ''id'' = hid" "py_truth hid" "hashable hid"
    and "dget_or rec ''event_type'' (JStr ''created'') = JStr ''created''"
  shows "status_in (hold_act ix (Some (JObj rec))) k =
           (if k = hid then Some (dget rec ''status'') else status_in ix k)"
  using assms by (auto simp: status_in_def hold_act_def fold_record_def Let_def)

lemma status_act_event:
  assumes "dget rec ''id'' = hid" "py_truth hid" "hashable hid" "index_ok ix"
    and "fold_event (dget_or rec ''event_type'' (JStr ''created'')) rec h = Inr h'"
    and "dget_or rec ''event_type'' (JStr ''created'') \<noteq> JStr ''created''" "map_of ix hid = Some h"
  shows "status_in (hold_act ix (Some (JObj rec))) k =
           (if k = hid then Some (dget h' ''status'') else status_in ix k)"
  using assms by (auto simp: status_in_def hold_act_def fold_record_def Let_def)

text \<open>The status a legal record leaves its hold in.\<close>

definition status_after :: "dict \<Rightarrow> json" where
  "status_after rec =
     (let ty = dget_or rec ''event_type'' (JStr ''created'') in
      if ty = JStr ''expired'' then JStr ''expired''
      else if ty = JStr ''consumed'' then JStr ''consumed''
      else dget rec ''status'')"

lemma legal_step_status:
  assumes "legal_log f" "may_append f rec"
  shows "status_of k (f @ [Some (JObj rec)]) =
           (if k = dget rec ''id'' then Some (status_after rec) else status_of k f)"
proof -
  let ?ix = "foldl hold_act [] f" and ?hid = "dget rec ''id''"
  let ?ty = "dget_or rec ''event_type'' (JStr ''created'')"
  have hid: "py_truth ?hid" "hashable ?hid" using assms(2) by (auto simp: may_append_def Let_def)
  have ok: "index_ok ?ix" by (rule legal_index_ok [OF assms(1)])
  show ?thesis
  proof (cases "?ty = JStr ''created''")
    case True
    then show ?thesis
      using status_act_created [OF refl hid True, of ?ix k]
      by (simp add: status_of_def status_after_def Let_def)
  next
    case False
    then have ty: "?ty = JStr ''resolved'' \<and> map_of rec ''status'' \<noteq> None \<or> ?ty = JStr ''expired''
                   \<or> ?ty = JStr ''consumed''"
      and some: "status_of ?hid f \<noteq> None"
      using assms(2) by (auto simp: may_append_def Let_def)
    then obtain h where h: "map_of ?ix ?hid = Some h" by (auto simp: status_of_def status_in_def)
    then have "map_of h ''status'' \<noteq> None" using ok unfolding index_ok_def by blast
    then obtain h' where h': "fold_event ?ty rec h = Inr h'" "dget h' ''status'' = status_after rec"
      using ty by (auto simp: fold_event_def fold_resolved_def status_after_def dget_or_def dget_def)
    show ?thesis
      using status_act_event [OF refl hid ok h'(1) False h, of k] h'(2) by (simp add: status_of_def)
  qed
qed

text \<open>Each consumption is paid for by an approval.\<close>

lemma legal_accounting:
  "legal_log f \<Longrightarrow>
     count_events ''consumed'' hid f + (if status_of hid f = Some (JStr ''approved'') then 1 else 0)
       \<le> count_approvals hid f"
proof (induction f rule: rev_induct)
  case Nil
  then show ?case by (simp add: count_events_def count_approvals_def status_of_def status_in_def)
next
  case (snoc l f)
  then obtain rec where l: "l = Some (JObj rec)" "may_append f rec" "legal_log f"
    by (auto simp: legal_log_snoc split: option.splits json.splits)
  note st = legal_step_status [OF l(3,2), of hid]
  show ?case
  proof (cases "dget rec ''id'' = hid")
    case False
    then have "\<not> is_event ty hid l" for ty using l by (simp add: is_event_def)
    then show ?thesis
      using snoc.IH l st False by (simp add: count_events_def count_approvals_def is_approval_def)
  next
    case True
    then show ?thesis
      using snoc.IH l st
      by (auto simp: count_events_def count_approvals_def is_approval_def is_event_def may_append_def
          status_after_def dget_def Let_def split: if_splits)
  qed
qed

lemma legal_expired_once:
  "legal_log f \<Longrightarrow>
     count_events ''expired'' hid f \<le> 1
     \<and> (status_of hid f = Some (JStr ''pending'') \<longrightarrow> count_events ''expired'' hid f = 0)"
proof (induction f rule: rev_induct)
  case Nil
  then show ?case by (simp add: count_events_def)
next
  case (snoc l f)
  then obtain rec where l: "l = Some (JObj rec)" "may_append f rec" "legal_log f"
    by (auto simp: legal_log_snoc split: option.splits json.splits)
  note st = legal_step_status [OF l(3,2), of hid]
  show ?case
  proof (cases "dget rec ''id'' = hid")
    case False
    then have "\<not> is_event ty hid l" for ty using l by (simp add: is_event_def)
    then show ?thesis using snoc.IH l st False by (simp add: count_events_def)
  next
    case True
    then show ?thesis
      using snoc.IH l st
      by (auto simp: count_events_def is_event_def may_append_def
          status_after_def dget_def Let_def split: if_splits)
  qed
qed

section \<open>Several processes on one volume\<close>

datatype hold_action =
    Create hio rat int string dict json string
  | Sync
  | Expire hio rat string
  | Resolve hio rat string string string string json bool string
  | Consume hio rat string

fun run_action :: "clock \<Rightarrow> (json \<Rightarrow> string) \<Rightarrow> hold_action \<Rightarrow> hs \<Rightarrow> hs" where
  "run_action clk digest (Create io now ttl hid env rule did) h =
     fst (create_hold clk digest io now ttl hid env rule did h)"
| "run_action clk digest Sync h = fst (ensure_loaded h)"
| "run_action clk digest (Expire io now hid) h = fst (expire_section clk io now (JStr hid) h)"
| "run_action clk digest (Resolve io now hid decision ptype pid reason verified src) h =
     fst (resolve_section io hid (resolved_record clk now hid decision ptype pid reason verified src) h)"
| "run_action clk digest (Consume io now hid) h = fst (mark_consumed clk io now hid h)"

text \<open>Any failure of a lock or an append is admitted, except a torn write; a new hold's id has not been
  used.\<close>

fun admitted :: "json option list \<Rightarrow> hold_action \<Rightarrow> bool" where
  "admitted f (Create io now ttl hid env rule did) =
     (io_fault io \<noteq> TornWrite \<and> hid \<noteq> [] \<and> unused_id (JStr hid) f)"
| "admitted f Sync = True"
| "admitted f (Expire io now hid) = (io_fault io \<noteq> TornWrite \<and> hid \<noteq> [])"
| "admitted f (Resolve io now hid decision ptype pid reason verified src) =
     (io_fault io \<noteq> TornWrite \<and> hid \<noteq> [])"
| "admitted f (Consume io now hid) = (io_fault io \<noteq> TornWrite \<and> hid \<noteq> [])"

lemma run_action_ok:
  assumes "store_ok h" "admitted (recs (h_file h)) a"
  shows "store_ok (run_action clk digest a h)"
  using assms
  by (cases a) (auto intro: create_hold_ok ensure_loaded_ok expire_section_ok resolve_section_ok
      mark_consumed_ok prod.collapse [symmetric])

text \<open>The volume and the store of each process. A process runs one section at a time; a restarted
  process has an empty store.\<close>

record world =
  w_file :: logfile
  w_stores :: "nat \<Rightarrow> store"

definition as_seen_by :: "world \<Rightarrow> nat \<Rightarrow> hs" where
  "as_seen_by w r = \<lparr>h_file = w_file w, h_store = w_stores w r, h_out = []\<rparr>"

definition world_act :: "clock \<Rightarrow> (json \<Rightarrow> string) \<Rightarrow> nat \<Rightarrow> hold_action \<Rightarrow> world \<Rightarrow> world" where
  "world_act clk digest r a w =
     (let h = run_action clk digest a (as_seen_by w r)
      in \<lparr>w_file = h_file h, w_stores = (w_stores w)(r := h_store h)\<rparr>)"

definition empty_world :: world where
  "empty_world = \<lparr>w_file = \<lparr>recs = [], torn = False\<rparr>, w_stores = (\<lambda>_. empty_store)\<rparr>"

inductive hold_reach :: "clock \<Rightarrow> (json \<Rightarrow> string) \<Rightarrow> world \<Rightarrow> bool" for clk digest where
  init: "hold_reach clk digest empty_world"
| act: "hold_reach clk digest w \<Longrightarrow> admitted (recs (w_file w)) a \<Longrightarrow>
        hold_reach clk digest (world_act clk digest r a w)"
| restart: "hold_reach clk digest w \<Longrightarrow>
        hold_reach clk digest (w\<lparr>w_stores := (w_stores w)(r := empty_store)\<rparr>)"

text \<open>The file only grows.\<close>

lemma sync_file [simp]: "h_file (fst (ensure_loaded h)) = h_file h"
  by (simp add: ensure_loaded_sync)

lemma append_rec_grows: "\<exists>ls. recs (fst (append_rec ft rec f)) = recs f @ ls"
  by (cases ft) (auto simp: land_def)

lemma append_and_readback_grows: "\<exists>ls. recs (h_file (fst (append_and_readback io rec h))) = recs (h_file h) @ ls"
  using append_rec_grows [of "io_fault io" "JObj rec" "h_file h"]
  by (auto simp: append_and_readback_def Let_def split: prod.splits sum.splits)

text \<open>A relation between the file before and after an operation: once it holds for an append, it holds for
  every section and operation built around one.\<close>

locale file_order =
  fixes R :: "logfile \<Rightarrow> logfile \<Rightarrow> bool"
  assumes same: "R f f" and trans: "R f g \<Longrightarrow> R g h \<Longrightarrow> R f h"
begin

definition keeps :: "(hs \<Rightarrow> hs \<times> 'a) \<Rightarrow> bool" where
  "keeps m \<longleftrightarrow> (\<forall>h. R (h_file h) (h_file (fst (m h))))"

lemma keepsD: "keeps m \<Longrightarrow> m h = (h', r) \<Longrightarrow> R (h_file h) (h_file h')"
  by (metis fst_conv keeps_def)

lemma keeps_bind: "keeps m \<Longrightarrow> (\<And>x. keeps (f x)) \<Longrightarrow> keeps (bindS m f)"
proof -
  assume m: "keeps m" and f: "\<And>x. keeps (f x)"
  have "R (h_file h) (h_file (fst (bindS m f h)))" for h
  proof -
    obtain h1 r where h1: "m h = (h1, r)" by fastforce
    then have "R (h_file h) (h_file h1)" using keepsD [OF m] by blast
    moreover have "R (h_file h1) (h_file (fst (f x h1)))" for x using f unfolding keeps_def by blast
    ultimately show ?thesis using h1 trans by (cases r) (auto simp: bindS_def)
  qed
  then show "keeps (bindS m f)" by (simp add: keeps_def)
qed

lemma keeps_same: "(\<And>h. h_file (fst (m h)) = h_file h) \<Longrightarrow> keeps m"
  by (simp add: keeps_def same)

lemma keeps_sync: "keeps ensure_loaded"
  by (rule keeps_same) (rule sync_file)

lemma keeps_section: "keeps body \<Longrightarrow> keeps (exclusive_section io body)"
proof -
  assume "keeps body"
  then have "keeps (bindS ensure_loaded (\<lambda>_. body))" by (intro keeps_bind keeps_sync)
  then show ?thesis by (simp add: keeps_def exclusive_section_def same)
qed

lemma keeps_guard:
  "(\<And>d. keeps (m d)) \<Longrightarrow> keeps (\<lambda>h. case g h of None \<Rightarrow> (h, x) | Some d \<Rightarrow> if P d then (h, y) else m d h)"
  by (auto simp: keeps_def same split: option.split)

lemma keeps_guard_any:
  "(\<And>d. keeps (m d)) \<Longrightarrow> keeps (\<lambda>h. case g h of None \<Rightarrow> (h, x) | Some d \<Rightarrow> m d h)"
  by (auto simp: keeps_def same split: option.split)

lemma keeps_ret [simp]: "keeps (retS x)" "keeps (\<lambda>h. (h, g h))"
  by (simp_all add: keeps_def retS_def same)

end

definition extends_file :: "logfile \<Rightarrow> logfile \<Rightarrow> bool" where
  "extends_file f g \<longleftrightarrow> (\<exists>ls. recs g = recs f @ ls)"

interpretation grows: file_order extends_file
  by unfold_locales (auto simp: extends_file_def)

lemma grows_append: "grows.keeps (append_and_readback io rec)"
  using append_and_readback_grows by (simp add: grows.keeps_def extends_file_def)

lemma run_action_grows: "\<exists>ls. recs (h_file (run_action clk digest a h)) = recs (h_file h) @ ls"
proof (cases a)
  case (Create io now ttl hid env rule did)
  have "grows.keeps (create_hold clk digest io now ttl hid env rule did)"
    unfolding create_hold_def Let_def by (intro grows.keeps_section grows.keeps_bind grows_append) simp
  then show ?thesis using Create by (simp add: grows.keeps_def extends_file_def)
next
  case (Expire io now hid)
  have "grows.keeps (expire_section clk io now (JStr hid))"
    unfolding expire_section_def Let_def
    by (intro grows.keeps_section grows.keeps_guard grows.keeps_bind grows_append) simp
  then show ?thesis using Expire by (simp add: grows.keeps_def extends_file_def)
next
  case (Resolve io now hid decision ptype pid reason verified src)
  have "grows.keeps (resolve_section io hid rec)" for rec
    unfolding resolve_section_def by (intro grows.keeps_section grows.keeps_guard_any grows.keeps_bind grows_append) simp
  then show ?thesis using Resolve by (simp add: grows.keeps_def extends_file_def)
next
  case (Consume io now hid)
  have "grows.keeps (mark_consumed clk io now hid)"
    unfolding mark_consumed_def by (intro grows.keeps_section grows.keeps_guard grows.keeps_bind grows_append) simp
  then show ?thesis using Consume by (simp add: grows.keeps_def extends_file_def)
qed simp

lemma synced_empty: "hold_index.synced f empty_store"
  unfolding hold_index.synced_def by (simp add: store_view_def store_cursor_def empty_store_def)

lemma hold_reach_ok:
  "hold_reach clk digest w \<Longrightarrow>
     legal_log (recs (w_file w)) \<and> \<not> torn (w_file w)
     \<and> (\<forall>r. hold_index.synced (recs (w_file w)) (w_stores w r))"
proof (induction rule: hold_reach.induct)
  case init
  then show ?case
    by (simp add: empty_world_def legal_log_def synced_empty)
next
  case (act w a r)
  let ?h = "run_action clk digest a (as_seen_by w r)"
  have "store_ok (as_seen_by w r)" using act.IH by (simp add: store_ok_def as_seen_by_def)
  then have ok: "store_ok ?h" using run_action_ok act.hyps by (simp add: as_seen_by_def)
  obtain ls where "recs (h_file ?h) = recs (w_file w) @ ls"
    using run_action_grows [of clk digest a "as_seen_by w r"] by (auto simp: as_seen_by_def)
  then have "hold_index.synced (recs (h_file ?h)) (w_stores w q)" for q
    using act.IH hold_index.synced_append by simp
  then show ?case using ok by (simp add: world_act_def Let_def store_ok_def)
next
  case (restart w r)
  then show ?case by (simp add: synced_empty)
qed

section \<open>The hash and the pages\<close>

lemma map_map_filter: "map f (List.map_filter g xs) = List.map_filter (\<lambda>x. map_option f (g x)) xs"
  by (induction xs) (auto simp: List.map_filter_simps split: option.splits)

lemma projection_sorted_keys:
  "sort_keys (JObj (projection env)) =
     JObj (sort_key fst (List.map_filter
       (\<lambda>k. map_option (\<lambda>v. (k, sort_keys v)) (map_of env k)) hash_allowlist))"
  by (simp add: projection_def map_map_filter option.map_comp comp_def)

lemma map_filter_keys_distinct:
  "distinct ks \<Longrightarrow> distinct (map fst (List.map_filter (\<lambda>k. map_option (\<lambda>v. (k, g v)) (m k)) ks))"
  by (induction ks) (auto simp: List.map_filter_simps List.map_filter_def split: option.splits)

lemma map_of_map_filter:
  "map_of (List.map_filter (\<lambda>k. map_option (\<lambda>v. (k, g v)) (m k)) ks) k =
     (if k \<in> set ks then map_option g (m k) else None)"
  by (induction ks) (auto simp: List.map_filter_simps split: option.splits)

lemma map_of_sort_key: "distinct (map fst xs) \<Longrightarrow> map_of (sort_key fst xs) = map_of xs"
  by (subst map_of_inject_set) (auto simp: distinct_map intro: inj_on_subset)

text \<open>A client that follows the cursors until there is none, with at most \<open>fuel\<close> further requests.\<close>

fun client_pages :: "nat \<Rightarrow> nat \<Rightarrow> dict list option \<Rightarrow> dict list \<Rightarrow> dict list list option" where
  "client_pages fuel limit None snapshot = None"
| "client_pages fuel limit (Some rest) snapshot =
     (case take_page limit rest of
        (page, Some (JStr c)) \<Rightarrow>
          (case fuel of
             0 \<Rightarrow> None
           | Suc n \<Rightarrow> map_option (Cons page) (client_pages n limit (after_cursor c snapshot) snapshot))
      | (page, None) \<Rightarrow> Some [page]
      | (page, Some _) \<Rightarrow> None)"

declare client_pages.simps(2) [simp del]

lemma after_cursor_prefix:
  "after_cursor c (pre @ h # post) = Some post" if "dget h ''id'' = JStr c"
    "\<forall>x \<in> set pre. dget x ''id'' \<noteq> JStr c"
  using that by (induction pre) auto

lemma client_pages_all:
  assumes "1 \<le> limit" "distinct (map (\<lambda>h. dget h ''id'') snapshot)"
    and "\<forall>h \<in> set snapshot. is_str (dget h ''id'')"
    and "snapshot = pre @ rest" "length rest \<le> fuel"
  shows "\<exists>ps. client_pages fuel limit (Some rest) snapshot = Some ps \<and> concat ps = rest
              \<and> (\<forall>p \<in> set ps. length p \<le> limit)"
  using assms(4,5)
proof (induction fuel arbitrary: pre rest)
  case 0
  then show ?case by (simp add: client_pages.simps take_page_def)
next
  case (Suc n)
  show ?case
  proof (cases "limit < length rest")
    case False
    then show ?thesis by (simp add: client_pages.simps take_page_def)
  next
    case True
    let ?page = "take limit rest" and ?tail = "drop limit rest"
    have ne: "?page \<noteq> []" using True assms(1) by (cases rest; cases limit) auto
    have "last ?page \<in> set snapshot" using last_in_set [OF ne] Suc.prems by (auto dest: in_set_takeD)
    then obtain c where c: "dget (last ?page) ''id'' = JStr c"
      using assms(3) by (cases "dget (last ?page) ''id''") auto
    have split: "snapshot = (pre @ butlast ?page) @ last ?page # ?tail"
      using Suc.prems(1) ne by (metis append_Cons append_Nil append_assoc append_butlast_last_id append_take_drop_id)
    then have "\<forall>x \<in> set (pre @ butlast ?page). dget x ''id'' \<noteq> JStr c"
      using assms(2) c by (metis (no_types, lifting) disjoint_iff distinct_append image_eqI list.simps(15)
          insertI1 list.set_map map_append list.simps(9))
    then have a: "after_cursor c snapshot = Some ?tail"
      using after_cursor_prefix c by (subst split) blast
    have s2: "snapshot = (pre @ ?page) @ ?tail" using Suc.prems(1) by simp
    have "length ?tail \<le> n" using Suc.prems(2) True assms(1) by simp
    from Suc.IH [OF s2 this] obtain ps where
      ps: "client_pages n limit (Some ?tail) snapshot = Some ps" "concat ps = ?tail"
        "\<forall>p \<in> set ps. length p \<le> limit" by blast
    have "client_pages (Suc n) limit (Some rest) snapshot = Some (?page # ps)"
      using True ne c a ps(1) by (simp add: client_pages.simps take_page_def Let_def)
    then show ?thesis using ps by fastforce
  qed
qed

section \<open>Properties\<close>


text \<open>A concrete clock and digest for the examples: a timestamp is as long as its number of seconds.\<close>

definition unary_clock :: clock where
  "unary_clock = \<lparr>ck_iso = (\<lambda>t. replicate (nat \<lfloor>t\<rfloor>) CHR ''t''), ck_epoch = (\<lambda>s. of_nat (length s))\<rparr>"

definition null_digest :: "json \<Rightarrow> string" where
  "null_digest j = ''h''"

definition good_hio :: hio where
  "good_hio = \<lparr>lock_ok = True, io_fault = NoFault\<rparr>"

definition sample_create :: hold_action where
  "sample_create = Create good_hio 1 4 ''H'' [] (JStr ''rule'') ''d''"

definition sample_approve :: hold_action where
  "sample_approve = Resolve good_hio 2 ''H'' ''approve'' ''human'' ''alice'' JNull True ''credential''"

definition sample_consume :: hold_action where
  "sample_consume = Consume good_hio 3 ''H''"

text \<open>A run: which process does what, in order.\<close>

definition run_world :: "(nat \<times> hold_action) list \<Rightarrow> world" where
  "run_world = foldl (\<lambda>w p. world_act unary_clock null_digest (fst p) (snd p) w) empty_world"

lemma run_world_reach:
  "list_all (\<lambda>p. case snd p of Create _ _ _ _ _ _ _ \<Rightarrow> False | a \<Rightarrow> admitted [] a) ps \<Longrightarrow>
     hold_reach unary_clock null_digest (run_world ((r, sample_create) # ps))"
proof (induction ps rule: rev_induct)
  case Nil
  have "admitted [] sample_create"
    by (simp add: sample_create_def good_hio_def unused_id_def)
  then show ?case
    using hold_reach.act [OF hold_reach.init] by (simp add: run_world_def empty_world_def)
next
  case (snoc p ps)
  have "admitted f (snd p)" for f using snoc.prems by (cases "snd p") auto
  then show ?case
    using hold_reach.act snoc by (simp add: run_world_def)
qed



text \<open>Consuming a hold succeeds exactly when the file says it is approved, and then one
  \<open>consumed\<close> record is appended; otherwise nothing is written and the caller is told to refuse.\<close>

theorem mark_consumed_cas:
  assumes "legal_log (recs (h_file h))" "\<not> torn (h_file h)"
    and "hold_index.synced (recs (h_file h)) (h_store h)"
    and "lock_ok io" "io_fault io = NoFault" "hid \<noteq> []"
  shows "\<exists>h' r. mark_consumed clk io now hid h = (h', Inr r) \<and>
    (if status_of (JStr hid) (recs (h_file h)) = Some (JStr ''approved'')
     then (\<exists>rec. recs (h_file h') = recs (h_file h) @ [Some (JObj rec)]
             \<and> is_event ''consumed'' (JStr hid) (Some (JObj rec)))
          \<and> (\<exists>hold. r = Some hold \<and> dget hold ''status'' = JStr ''consumed'')
     else recs (h_file h') = recs (h_file h) \<and> r = None)"
proof -
  let ?rec = "[(''id'', JStr hid), (''event_type'', JStr ''consumed''), (''status'', JStr ''consumed''),
               (''consumed_ts'', iso_now clk now), (''ts'', iso_now clk now)]"
  note good = legal_log_good [OF assms(1)]
  let ?h1 = "h\<lparr>h_store := sync_store (recs (h_file h)) (h_store h)\<rparr>"
  have fr: "fresh ?h1" by (rule fresh_after_sync [OF assms(3) good])
  have m: "mark_consumed clk io now hid h =
     (case index_get ?h1 (JStr hid) of None \<Rightarrow> (?h1, Inr None)
      | Some hold \<Rightarrow>
          if dget hold ''status'' \<noteq> JStr ''approved'' then (?h1, Inr None)
          else bindS (append_and_readback io ?rec) (\<lambda>_ h. (h, Inr (index_get h (JStr hid)))) ?h1)"
    using bindS_eq [of ensure_loaded, OF ensure_loaded_good [OF assms(3) good]] assms(4)
    by (simp add: mark_consumed_def exclusive_section_def)
  have st: "status_of (JStr hid) (recs (h_file h)) =
            map_option (\<lambda>d. dget d ''status'') (index_get ?h1 (JStr hid))"
    using fresh_index_get [OF fr] by (simp add: status_of_def status_in_def)
  show ?thesis
  proof (cases "status_of (JStr hid) (recs (h_file h)) = Some (JStr ''approved'')")
    case False
    then show ?thesis using m st by (auto split: option.split)
  next
    case True
    then obtain hold where hold: "index_get ?h1 (JStr hid) = Some hold"
      "dget hold ''status'' = JStr ''approved''" using st by auto
    have may: "may_append (recs (h_file ?h1)) ?rec"
      using True assms(6) by (simp add: may_append_def Let_def dget_or_def hashable_def)
    obtain h2 r2 where a: "append_and_readback io ?rec ?h1 = (h2, r2)" by fastforce
    have r2: "r2 = Inr ()"
      using a fold_record_good [OF _ may_append_good [OF may], of "s_index (h_store ?h1)"]
        legal_index_ok [OF assms(1)] fr assms(5)
      by (auto simp: append_and_readback_def fresh_def Let_def)
    note f2 = append_and_readback_fresh [OF fr _ _ may_append_good [OF may] _ a]
    have f2': "fresh h2" "recs (h_file h2) = recs (h_file h) @ [Some (JObj ?rec)]"
      using f2 good assms(2,5) r2 by auto
    have "status_of (JStr hid) (recs (h_file h2)) = Some (JStr ''consumed'')"
      using legal_step_status [OF assms(1), of ?rec "JStr hid"] may f2'(2)
      by (simp add: status_after_def dget_or_def Let_def)
    then obtain hold2 where "index_get h2 (JStr hid) = Some hold2" "dget hold2 ''status'' = JStr ''consumed''"
      using fresh_index_get [OF f2'(1)] by (auto simp: status_of_def status_in_def)
    then show ?thesis
      using m hold True a r2 f2'(2) by (auto simp: bindS_def is_event_def dget_or_def)
  qed
qed

theorem mark_consumed_cas_witness:
  "\<exists>h' r. mark_consumed unary_clock good_hio 3 ''H''
       (as_seen_by (run_world [(0, sample_create), (0, sample_approve)]) 1) = (h', Inr (Some r))
     \<and> dget r ''status'' = JStr ''consumed''"
proof -
  let ?w = "run_world [(0, sample_create), (0, sample_approve)]"
  have "hold_reach unary_clock null_digest ?w"
    by (rule run_world_reach) (simp add: sample_approve_def good_hio_def)
  note ok = hold_reach_ok [OF this]
  have "status_of (JStr ''H'') (recs (w_file ?w)) = Some (JStr ''approved'')" by code_simp
  then show ?thesis
    using mark_consumed_cas [of "as_seen_by ?w 1" good_hio "''H''" unary_clock 3] ok
    by (auto simp: as_seen_by_def good_hio_def)
qed

text \<open>Every process reads the same holds: in every reachable state, a process that refreshes its
  store holds exactly the index obtained by folding the whole file, so a consumption, a resolution
  or a timeout recorded by another process is never missed.\<close>

theorem replicas_share_index:
  assumes "hold_reach clk digest w"
  shows "s_index (w_stores (world_act clk digest r Sync w) r) = foldl hold_act [] (recs (w_file w))
         \<and> w_file (world_act clk digest r Sync w) = w_file w"
proof -
  note ok = hold_reach_ok [OF assms]
  have "fresh (fst (ensure_loaded (as_seen_by w r)))"
    using ok fresh_after_sync [of "as_seen_by w r"] legal_log_good
    by (simp add: ensure_loaded_sync as_seen_by_def)
  then show ?thesis
    by (simp add: world_act_def Let_def fresh_def) (simp add: as_seen_by_def)
qed

theorem replicas_share_index_witness:
  "let w = run_world [(0, sample_create), (1, sample_approve)] in
     status_in (s_index (w_stores (world_act unary_clock null_digest 2 Sync w) 2)) (JStr ''H'')
       = Some (JStr ''approved'')"
proof -
  let ?w = "run_world [(0, sample_create), (1, sample_approve)]"
  have "hold_reach unary_clock null_digest ?w"
    by (rule run_world_reach) (simp add: sample_approve_def good_hio_def)
  moreover have "status_of (JStr ''H'') (recs (w_file ?w)) = Some (JStr ''approved'')" by code_simp
  ultimately show ?thesis
    using replicas_share_index [of unary_clock null_digest ?w 2] by (simp add: Let_def status_of_def)
qed

text \<open>C32: the hash of a hold names the action and nothing else: unless the digest collides on the two
  projections, two envelopes have the same hash exactly when their action, axes, magnitude and
  target are equal up to the order of keys; approval, agent, meta and params play no part.\<close>

theorem canonical_hash_binds:
  assumes "digest (sort_keys (JObj (projection e))) = digest (sort_keys (JObj (projection e'))) \<Longrightarrow>
             sort_keys (JObj (projection e)) = sort_keys (JObj (projection e'))"
  shows "canonical_hash digest e = canonical_hash digest e' \<longleftrightarrow>
           (\<forall>k \<in> {''action'', ''axes'', ''magnitude'', ''target''}.
              map_option sort_keys (map_of e k) = map_option sort_keys (map_of e' k))"
proof -
  let ?p = "\<lambda>e. List.map_filter (\<lambda>k. map_option (\<lambda>v. (k, sort_keys v)) (map_of e k)) hash_allowlist"
  have al: "set hash_allowlist = {''action'', ''axes'', ''magnitude'', ''target''}" "distinct hash_allowlist"
    by (auto simp: hash_allowlist_def)
  have m: "map_of (sort_key fst (?p e)) k = (if k \<in> set hash_allowlist then map_option sort_keys (map_of e k) else None)"
    for e k
    by (simp only: map_of_sort_key [OF map_filter_keys_distinct [OF al(2)]] map_of_map_filter)
  have "sort_keys (JObj (projection e)) = sort_keys (JObj (projection e')) \<longleftrightarrow>
        (\<forall>k \<in> set hash_allowlist. map_option sort_keys (map_of e k) = map_option sort_keys (map_of e' k))"
  proof
    assume "sort_keys (JObj (projection e)) = sort_keys (JObj (projection e'))"
    then have "sort_key fst (?p e) = sort_key fst (?p e')" by (simp only: projection_sorted_keys json.inject)
    then have "map_of (sort_key fst (?p e)) k = map_of (sort_key fst (?p e')) k" for k by simp
    then show "\<forall>k \<in> set hash_allowlist. map_option sort_keys (map_of e k) = map_option sort_keys (map_of e' k)"
      unfolding m by (metis (full_types))
  next
    have c: "map_option (\<lambda>v. (k, sort_keys v)) x = map_option (Pair k) (map_option sort_keys x)" for k x
      by (cases x) auto
    assume "\<forall>k \<in> set hash_allowlist. map_option sort_keys (map_of e k) = map_option sort_keys (map_of e' k)"
    then have "?p e = ?p e'" unfolding List.map_filter_def c by (intro map_cong filter_cong) auto
    then show "sort_keys (JObj (projection e)) = sort_keys (JObj (projection e'))"
      by (simp only: projection_sorted_keys)
  qed
  then have "sort_keys (JObj (projection e)) = sort_keys (JObj (projection e')) \<longleftrightarrow>
        (\<forall>k \<in> {''action'', ''axes'', ''magnitude'', ''target''}.
           map_option sort_keys (map_of e k) = map_option sort_keys (map_of e' k))"
    by (simp only: al(1))
  moreover have "canonical_hash digest e = canonical_hash digest e' \<longleftrightarrow>
                 sort_keys (JObj (projection e)) = sort_keys (JObj (projection e'))"
    unfolding canonical_hash_def using assms by (auto simp del: sort_keys.simps)
  ultimately show ?thesis by blast
qed

theorem canonical_hash_binds_witness:
  "canonical_hash null_digest [(''action'', JNull), (''approval'', JInt 1)]
   = canonical_hash null_digest [(''approval'', JInt 2), (''action'', JNull)]"
proof -
  let ?e = "[(''action'', JNull), (''approval'', JInt 1)]"
    and ?e' = "[(''approval'', JInt 2), (''action'', JNull)]"
  have "sort_keys (JObj (projection ?e)) = sort_keys (JObj (projection ?e'))"
    by (simp add: projection_def hash_allowlist_def List.map_filter_simps)
  then show ?thesis using canonical_hash_binds [of null_digest ?e ?e'] by simp
qed

text \<open>Paging loses nothing and repeats nothing: over an unchanged result set, a client that follows
  \<open>next_cursor\<close> until there is none gets, page by page within the limit, exactly the holds of the
  set in order, and needs no more requests than there are holds.\<close>

theorem pages_enumerate:
  assumes "1 \<le> limit" "distinct (map (\<lambda>h. dget h ''id'') snapshot)"
    and "\<forall>h \<in> set snapshot. is_str (dget h ''id'')"
  shows "\<exists>ps. client_pages (length snapshot) limit (Some snapshot) snapshot = Some ps
           \<and> concat ps = snapshot \<and> (\<forall>p \<in> set ps. length p \<le> limit)"
  using client_pages_all [OF assms, of "[]" snapshot "length snapshot"] by simp

theorem pages_enumerate_witness:
  "\<exists>ps. client_pages 3 2 (Some (map (\<lambda>c. [(''id'', JStr [c])]) ''abc'')) (map (\<lambda>c. [(''id'', JStr [c])]) ''abc'')
      = Some ps \<and> concat ps = map (\<lambda>c. [(''id'', JStr [c])]) ''abc''"
  using pages_enumerate [of 2 "map (\<lambda>c. [(''id'', JStr [c])]) ''abc''"] by (auto simp: numeral_3_eq_3)

end
