(* ===== verification/Ledger.thy ===== *)
theory Ledger
  imports Envelope AppendLog LogView
begin

text \<open>
  \<open>app/ledger.py\<close>: the durable per-session ledger. The file is a list of records with their sizes in
  bytes, an identity (device and inode) and the size of a torn last line; the process keeps a folded
  copy of it, refreshed before every read. \<open>compute_cumulative\<close> sums the prior entries of a session
  inside the rolling window; \<open>append_entry\<close> records a decided action or raises.

  Records that this module does not write (a line that does not decode, is not an object or names no
  session) are \<open>LSkip\<close>. Floats are summed with the rounding function \<open>rnd\<close>.
\<close>

section \<open>Entries\<close>

datatype ledger_exc = LedgerWriteError | LTypeError | LOverflowError | LEnvelopeError pyexc

record entry =
  e_ts :: rat
  e_verb :: json
  e_ability :: json
  e_ext :: json
  e_count :: int
  e_amounts :: "(string \<times> pyfloat) list"
  e_physical :: pyfloat

datatype lrec = LEntry string entry | LClear string | LSkip

record lline =
  ln_size :: nat
  ln_rec :: lrec

record lfile =
  lf_key :: nat
  lf_lines :: "lline list"
  lf_torn :: nat

type_synonym sessions = "(string \<times> entry list) list"

record lstore =
  l_sessions :: sessions
  l_key :: "nat option"
  l_offset :: nat
  l_loaded :: bool
  l_truncated :: bool
  l_last_prune :: rat

definition empty_lstore :: lstore where
  "empty_lstore = \<lparr>l_sessions = [], l_key = None, l_offset = 0, l_loaded = False,
     l_truncated = False, l_last_prune = 0\<rparr>"

section \<open>Settings\<close>

definition persist_off_words :: "string list" where
  "persist_off_words = [''0'', ''false'', ''no'', ''off'']"

text \<open>\<open>REEFLEX_LEDGER_PERSIST\<close>, \<open>None\<close> when unset; the word is trimmed and lower-cased.\<close>

definition persist_enabled :: "ucd \<Rightarrow> string option \<Rightarrow> bool" where
  "persist_enabled u raw =
     (case raw of
        None \<Rightarrow> True
      | Some s \<Rightarrow> map lower_char (py_strip u s) \<notin> set persist_off_words)"

definition default_scan_bytes :: nat where
  "default_scan_bytes = 64 * 1024 * 1024"

text \<open>The parsed value of \<open>REEFLEX_LEDGER_SCAN_BYTES\<close>, \<open>None\<close> when unset or not an integer.\<close>

definition scan_bytes :: "int option \<Rightarrow> nat" where
  "scan_bytes parsed =
     (case parsed of None \<Rightarrow> default_scan_bytes | Some n \<Rightarrow> if 0 < n then nat n else default_scan_bytes)"

definition default_window_seconds :: "int option \<Rightarrow> int" where
  "default_window_seconds parsed = (case parsed of None \<Rightarrow> 3600 | Some n \<Rightarrow> n)"

definition prune_interval_seconds :: rat where
  "prune_interval_seconds = 60"

definition stripes :: nat where
  "stripes = 64"

text \<open>\<open>sha256 s\<close> is the first byte of the digest.\<close>

definition stripe_for :: "(string \<Rightarrow> nat) \<Rightarrow> string \<Rightarrow> nat" where
  "stripe_for sha256 session_id = sha256 session_id mod stripes"

section \<open>Mounts\<close>

definition ephemeral_fstypes :: "string list" where
  "ephemeral_fstypes = [''overlay'', ''overlayfs'', ''aufs'', ''tmpfs'', ''ramfs'']"

text \<open>\<open>line.split()\<close>: the non-blank fields; \<open>acc\<close> holds the current one, reversed.\<close>

fun fields_from :: "string \<Rightarrow> string \<Rightarrow> string list" where
  "fields_from acc [] = (if acc = [] then [] else [rev acc])"
| "fields_from acc (c # s) =
     (if is_space_char c then (if acc = [] then [] else [rev acc]) @ fields_from [] s
      else fields_from (c # acc) s)"

definition split_fields :: "string \<Rightarrow> string list" where
  "split_fields s = fields_from [] s"

definition rstrip_slash :: "string \<Rightarrow> string" where
  "rstrip_slash s = rev (dropWhile (\<lambda>c. c = CHR ''/'') (rev s))"

definition under_mount :: "string \<Rightarrow> string \<Rightarrow> bool" where
  "under_mount target point \<longleftrightarrow>
     target = point \<or> prefix (rstrip_slash point @ ''/'') target \<or> point = ''/''"

text \<open>The mount point and file system type of one line, when it has them.\<close>

definition mount_fields :: "string \<Rightarrow> (string \<times> string) option" where
  "mount_fields line =
     (let fields = split_fields line; sep = length (takeWhile (\<lambda>f. f \<noteq> ''-'') fields)
      in if sep = length fields then None
         else if length fields \<le> sep + 1 \<or> sep < 5 then None
         else Some (fields ! 4, fields ! (sep + 1)))"

definition better_mount :: "string \<Rightarrow> string \<times> string \<Rightarrow> string \<Rightarrow> string \<times> string" where
  "better_mount target best line =
     (case mount_fields line of
        None \<Rightarrow> best
      | Some (point, fstype) \<Rightarrow>
          if under_mount target point \<and> length (fst best) \<le> length point then (point, fstype) else best)"

definition parse_mount_for_path :: "string \<Rightarrow> string list \<Rightarrow> string \<times> string" where
  "parse_mount_for_path path lines = foldl (better_mount path) ([], []) lines"

record storage =
  st_mount_point :: string
  st_fstype :: string
  st_ephemeral :: "bool option"

definition path_storage :: "string \<Rightarrow> string list \<Rightarrow> storage" where
  "path_storage directory mountinfo =
     (let (point, fstype) = parse_mount_for_path directory mountinfo
      in \<lparr>st_mount_point = point, st_fstype = fstype,
          st_ephemeral = (if fstype = [] then None else Some (fstype \<in> set ephemeral_fstypes))\<rparr>)"

section \<open>Folding the file\<close>

definition session_entries :: "sessions \<Rightarrow> string \<Rightarrow> entry list" where
  "session_entries ss sid = (case map_of ss sid of None \<Rightarrow> [] | Some es \<Rightarrow> es)"

fun fold_lrec :: "sessions \<Rightarrow> lrec \<Rightarrow> sessions" where
  "fold_lrec ss (LEntry sid e) = (if sid = [] then ss else dput sid (session_entries ss sid @ [e]) ss)"
| "fold_lrec ss (LClear sid) = filter (\<lambda>p. fst p \<noteq> sid) ss"
| "fold_lrec ss LSkip = ss"

definition fold_line :: "sessions \<Rightarrow> lline \<Rightarrow> sessions" where
  "fold_line ss l = fold_lrec ss (ln_rec l)"

definition total_size :: "lline list \<Rightarrow> nat" where
  "total_size ls = sum_list (map ln_size ls)"

text \<open>How many lines the first fold skips: none up to \<open>cap\<close> bytes; beyond, the code seeks to
  \<open>size - cap\<close> and discards the line that position is in.\<close>

fun skip_lines :: "nat \<Rightarrow> nat \<Rightarrow> lline list \<Rightarrow> nat" where
  "skip_lines pos off [] = 0"
| "skip_lines pos off (l # ls) = (if off \<le> pos then Suc (skip_lines pos (off + ln_size l) ls) else 0)"

definition file_size :: "lfile \<Rightarrow> nat" where
  "file_size f = total_size (lf_lines f) + lf_torn f"

definition initial_offset :: "nat \<Rightarrow> lfile \<Rightarrow> nat \<times> bool" where
  "initial_offset cap f =
     (if file_size f \<le> cap then (0, False)
      else (skip_lines (file_size f - cap) 0 (lf_lines f), True))"

definition fold_from :: "nat \<Rightarrow> lline list \<Rightarrow> lstore \<Rightarrow> lstore" where
  "fold_from start ls s =
     (if drop start ls = [] then s\<lparr>l_loaded := True\<rparr>
      else s\<lparr>l_sessions := foldl fold_line (l_sessions s) (drop start ls), l_offset := length ls,
             l_loaded := True\<rparr>)"

text \<open>\<open>file\<close> is \<open>None\<close> when the file does not exist; \<open>readable\<close> says whether opening it succeeds.\<close>

definition sync_from_file :: "bool \<Rightarrow> nat \<Rightarrow> bool \<Rightarrow> lfile option \<Rightarrow> lstore \<Rightarrow> lstore" where
  "sync_from_file persist cap readable file s =
     (if \<not> persist then s\<lparr>l_loaded := True\<rparr>
      else case file of
        None \<Rightarrow> s\<lparr>l_loaded := True\<rparr>
      | Some f \<Rightarrow>
          (let fresh = (l_key s \<noteq> Some (lf_key f) \<or> length (lf_lines f) < l_offset s);
               s1 = (if fresh then s\<lparr>l_sessions := [], l_key := Some (lf_key f), l_offset := 0\<rparr> else s)
           in if \<not> fresh \<and> length (lf_lines f) = l_offset s then s1\<lparr>l_loaded := True\<rparr>
              else if \<not> readable then s1\<lparr>l_loaded := True\<rparr>
              else if fresh then
                (let (start, cut) = initial_offset cap f
                 in fold_from start (lf_lines f) (s1\<lparr>l_truncated := cut\<rparr>))
              else fold_from (l_offset s1) (lf_lines f) s1))"

definition pruned :: "rat \<Rightarrow> sessions \<Rightarrow> sessions" where
  "pruned cutoff ss =
     filter (\<lambda>p. snd p \<noteq> []) (map (\<lambda>p. (fst p, filter (\<lambda>e. cutoff \<le> e_ts e) (snd p))) ss)"

definition maybe_prune :: "int \<Rightarrow> rat \<Rightarrow> lstore \<Rightarrow> lstore" where
  "maybe_prune window now s =
     (if now - l_last_prune s < prune_interval_seconds then s
      else s\<lparr>l_last_prune := now, l_sessions := pruned (now - of_int window) (l_sessions s)\<rparr>)"

section \<open>The cumulative object\<close>

record cumulative =
  c_window :: int
  c_by_verb :: "(json \<times> int) list"
  c_by_ability :: "(json \<times> int) list"
  c_by_ext :: "(json \<times> int) list"
  c_amounts :: "(string \<times> pyfloat) list"
  c_total :: int
  c_physical :: pyfloat

text \<open>\<open>d[k] = d.get(k, 0) + n\<close> on a dict keyed by JSON values.\<close>

fun bump :: "json \<Rightarrow> int \<Rightarrow> (json \<times> int) list \<Rightarrow> (json \<times> int) list" where
  "bump k n [] = [(k, n)]"
| "bump k n ((k', m) # d) = (if k' = k \<or> py_eq k' k then (k', m + n) # d else (k', m) # bump k n d)"

definition add_amount ::
  "(rat \<Rightarrow> pyfloat) \<Rightarrow> (string \<times> pyfloat) list \<Rightarrow> string \<times> pyfloat \<Rightarrow> (string \<times> pyfloat) list" where
  "add_amount rnd d p =
     dput (fst p) (fadd rnd (case map_of d (fst p) of None \<Rightarrow> Fin 0 | Some a \<Rightarrow> a) (snd p)) d"

definition dict_key :: "json \<Rightarrow> bool" where
  "dict_key j \<longleftrightarrow> \<not> is_arr j \<and> \<not> is_obj j"

text \<open>The body of the loop, for one entry inside the window; an unhashable key raises.\<close>

definition tally_entry :: "(rat \<Rightarrow> pyfloat) \<Rightarrow> cumulative \<Rightarrow> entry \<Rightarrow> ledger_exc + cumulative" where
  "tally_entry rnd c e =
     (if \<not> dict_key (e_verb e) then Inl LTypeError
      else if py_truth (e_ability e) \<and> \<not> dict_key (e_ability e) then Inl LTypeError
      else if py_truth (e_ext e) \<and> \<not> dict_key (e_ext e) then Inl LTypeError
      else Inr (c\<lparr>
        c_by_verb := bump (e_verb e) (e_count e) (c_by_verb c),
        c_by_ability := (if py_truth (e_ability e) then bump (e_ability e) (e_count e) (c_by_ability c)
                         else c_by_ability c),
        c_by_ext := (if py_truth (e_ext e) then bump (e_ext e) (e_count e) (c_by_ext c)
                     else c_by_ext c),
        c_total := c_total c + e_count e,
        c_amounts := foldl (add_amount rnd) (c_amounts c) (e_amounts e)\<rparr>))"

fun tally :: "(rat \<Rightarrow> pyfloat) \<Rightarrow> rat \<Rightarrow> cumulative \<Rightarrow> entry list \<Rightarrow> ledger_exc + cumulative" where
  "tally rnd cutoff c [] = Inr c"
| "tally rnd cutoff c (e # es) =
     (if e_ts e < cutoff then tally rnd cutoff c es
      else bindE (tally_entry rnd c e) (\<lambda>c'. tally rnd cutoff c' es))"

text \<open>\<open>math.fsum\<close>: the exact sum, rounded once; an overflow raises.\<close>

fun finite_sum :: "pyfloat list \<Rightarrow> rat option" where
  "finite_sum [] = Some 0"
| "finite_sum (Fin x # xs) = map_option ((+) x) (finite_sum xs)"
| "finite_sum (_ # xs) = None"

definition fsum :: "(rat \<Rightarrow> pyfloat) \<Rightarrow> pyfloat list \<Rightarrow> ledger_exc + pyfloat" where
  "fsum rnd xs =
     (case finite_sum xs of
        Some q \<Rightarrow> (case rnd q of Fin r \<Rightarrow> Inr (Fin r) | _ \<Rightarrow> Inl LOverflowError)
      | None \<Rightarrow> Inr (foldl (fadd rnd) (Fin 0) xs))"

definition empty_cumulative :: "int \<Rightarrow> cumulative" where
  "empty_cumulative window = \<lparr>c_window = window, c_by_verb = [], c_by_ability = [], c_by_ext = [],
     c_amounts = [], c_total = 0, c_physical = Fin 0\<rparr>"

definition cumulative_of ::
  "(rat \<Rightarrow> pyfloat) \<Rightarrow> int \<Rightarrow> rat \<Rightarrow> entry list \<Rightarrow> ledger_exc + cumulative" where
  "cumulative_of rnd window cutoff entries =
     bindE (tally rnd cutoff (empty_cumulative window) entries) (\<lambda>c.
     bindE (fsum rnd (map e_physical (filter (\<lambda>e. \<not> e_ts e < cutoff) entries))) (\<lambda>p.
     Inr (c\<lparr>c_physical := p\<rparr>)))"

text \<open>What the environment does to one call: the settings, whether the file can be opened, how an
  append ends and how many bytes a torn one leaves.\<close>

record lenv =
  le_persist :: bool
  le_cap :: nat
  le_readable :: bool
  le_fault :: fault
  le_torn :: nat

definition ensure_loaded_ledger :: "lenv \<Rightarrow> lfile option \<Rightarrow> lstore \<Rightarrow> lstore" where
  "ensure_loaded_ledger env file s =
     (if l_loaded s then s
      else sync_from_file (le_persist env) (le_cap env) (le_readable env) file s)"

text \<open>\<open>prune_now\<close> is the second reading of the clock, inside the lock.\<close>

definition compute_cumulative ::
  "(rat \<Rightarrow> pyfloat) \<Rightarrow> lenv \<Rightarrow> rat \<Rightarrow> rat \<Rightarrow> string \<Rightarrow> int \<Rightarrow> lfile option \<Rightarrow> lstore \<Rightarrow>
   lstore \<times> (ledger_exc + cumulative)" where
  "compute_cumulative rnd env now prune_now sid window file s =
     (let s1 = ensure_loaded_ledger env file s;
          s2 = sync_from_file (le_persist env) (le_cap env) (le_readable env) file s1;
          s3 = maybe_prune window prune_now s2
      in (s3, cumulative_of rnd window (now - of_int window) (session_entries (l_sessions s3) sid)))"

section \<open>Recording an action\<close>

text \<open>\<open>int((envelope.get("magnitude") or {}).get("count") or 1)\<close> on a count that is an integer.\<close>

definition raw_count :: "dict \<Rightarrow> int" where
  "raw_count envelope =
     (case dget (as_obj (dget envelope ''magnitude'')) ''count'' of
        JInt n \<Rightarrow> if n = 0 then 1 else n | _ \<Rightarrow> 1)"

definition entry_amounts :: "ucd \<Rightarrow> (rat \<Rightarrow> pyfloat) \<Rightarrow> dict \<Rightarrow> pyexc + (string \<times> pyfloat) list" where
  "entry_amounts u rnd envelope =
     (let params = as_obj (dget envelope ''params''); amount = dget params ''amount''
      in bindE (is_money_amount amount) (\<lambda>ok.
           Inr (if ok then [(canonicalize_currency u (dget params ''currency''),
                             fabs (to_float rnd amount))] else [])))"

definition entry_physical :: "(rat \<Rightarrow> pyfloat) \<Rightarrow> dict \<Rightarrow> pyexc + pyfloat" where
  "entry_physical rnd envelope =
     (case dget (as_obj (dget envelope ''magnitude'')) ''physical'' of
        JObj p \<Rightarrow>
          bindE (is_envelope_fraction (dget p ''envelope_fraction'')) (\<lambda>ok.
            Inr (if ok then to_float rnd (dget p ''envelope_fraction'') else Fin 0))
      | _ \<Rightarrow> Inr (Fin 0))"

definition make_entry ::
  "ucd \<Rightarrow> (rat \<Rightarrow> pyfloat) \<Rightarrow> rat \<Rightarrow> dict \<Rightarrow> int option \<Rightarrow> pyexc + entry" where
  "make_entry u rnd now envelope charged_count =
     bindE (entry_amounts u rnd envelope) (\<lambda>amounts.
     bindE (entry_physical rnd envelope) (\<lambda>physical.
       (let action = as_obj (dget envelope ''action'')
        in Inr \<lparr>e_ts = now,
             e_verb = (case map_of action ''verb'' of None \<Rightarrow> JStr ''unknown'' | Some v \<Rightarrow> v),
             e_ability = (case map_of action ''ability'' of None \<Rightarrow> JStr [] | Some v \<Rightarrow> v),
             e_ext = (case map_of (as_obj (dget envelope ''axes'')) ''externality'' of
                        None \<Rightarrow> JStr [] | Some v \<Rightarrow> v),
             e_count = (case charged_count of None \<Rightarrow> raw_count envelope | Some n \<Rightarrow> n),
             e_amounts = amounts, e_physical = physical\<rparr>)))"

text \<open>\<open>_append_record\<close>: an absent file is created (\<open>new_key\<close> is its identity); \<open>sz\<close> is the length of
  the record's line. A record written behind a torn line is glued to it.\<close>

definition or_created :: "nat \<Rightarrow> lfile option \<Rightarrow> lfile" where
  "or_created new_key file =
     (case file of None \<Rightarrow> \<lparr>lf_key = new_key, lf_lines = [], lf_torn = 0\<rparr> | Some f \<Rightarrow> f)"

definition land_line :: "nat \<Rightarrow> nat \<Rightarrow> lrec \<Rightarrow> lfile option \<Rightarrow> lfile" where
  "land_line new_key sz rec file =
     (let f = or_created new_key file
      in f\<lparr>lf_lines := lf_lines f @ [\<lparr>ln_size = lf_torn f + sz, ln_rec = (if lf_torn f = 0 then rec else LSkip)\<rparr>],
           lf_torn := 0\<rparr>)"

definition append_record ::
  "lenv \<Rightarrow> nat \<Rightarrow> nat \<Rightarrow> lrec \<Rightarrow> lfile option \<Rightarrow> lfile option \<times> (ledger_exc + unit)" where
  "append_record env new_key sz rec file =
     (case le_fault env of
        NoFault \<Rightarrow> (Some (land_line new_key sz rec file), Inr ())
      | LostWrite \<Rightarrow> (file, Inl LedgerWriteError)
      | TornWrite \<Rightarrow>
          (let f = or_created new_key file
           in (Some (f\<lparr>lf_torn := lf_torn f + le_torn env\<rparr>), Inl LedgerWriteError))
      | LandedUnproven c \<Rightarrow> (Some (land_line new_key sz rec file), Inl LedgerWriteError))"

definition append_entry ::
  "ucd \<Rightarrow> (rat \<Rightarrow> pyfloat) \<Rightarrow> lenv \<Rightarrow> rat \<Rightarrow> nat \<Rightarrow> nat \<Rightarrow> string \<Rightarrow> dict \<Rightarrow> int option \<Rightarrow>
   lfile option \<Rightarrow> lstore \<Rightarrow> (lfile option \<times> lstore) \<times> (ledger_exc + unit)" where
  "append_entry u rnd env now new_key sz sid envelope charged_count file s =
     (case make_entry u rnd now envelope charged_count of
        Inl e \<Rightarrow> ((file, s), Inl (LEnvelopeError e))
      | Inr e \<Rightarrow>
          if \<not> le_persist env then
            (let s1 = ensure_loaded_ledger env file s
             in ((file, s1\<lparr>l_sessions := fold_lrec (l_sessions s1) (LEntry sid e)\<rparr>), Inr ()))
          else
            (case append_record env new_key sz (LEntry sid e) file of
               (file', Inl err) \<Rightarrow> ((file', s), Inl err)
             | (file', Inr _) \<Rightarrow>
                 ((file', sync_from_file True (le_cap env) (le_readable env) file' s), Inr ())))"

definition clear_session ::
  "lenv \<Rightarrow> nat \<Rightarrow> nat \<Rightarrow> string \<Rightarrow> lfile option \<Rightarrow> lstore \<Rightarrow> lfile option \<times> lstore" where
  "clear_session env new_key sz sid file s =
     ((if le_persist env then fst (append_record env new_key sz (LClear sid) file) else file),
      s\<lparr>l_sessions := filter (\<lambda>p. fst p \<noteq> sid) (l_sessions s)\<rparr>)"

section \<open>The epoch\<close>

record epoch =
  ep_durable :: bool
  ep_storage :: storage
  ep_window :: int
  ep_sessions :: nat
  ep_entries :: nat
  ep_truncated :: bool

definition mint_epoch :: "bool \<Rightarrow> string \<Rightarrow> string list \<Rightarrow> int \<Rightarrow> lstore \<Rightarrow> epoch" where
  "mint_epoch durable directory mountinfo window s =
     \<lparr>ep_durable = durable,
      ep_storage = (if durable then path_storage directory mountinfo
                    else \<lparr>st_mount_point = [], st_fstype = [], st_ephemeral = Some True\<rparr>),
      ep_window = window, ep_sessions = length (l_sessions s),
      ep_entries = sum_list (map (\<lambda>p. length (snd p)) (l_sessions s)),
      ep_truncated = l_truncated s\<rparr>"

section \<open>The view of the file inside the window\<close>

text \<open>What a process may know of the file: for every session, its entries no older than \<open>h\<close>. Pruning
  keeps it as long as the pruning cutoff is at most \<open>h\<close>.\<close>

definition window_view :: "rat \<Rightarrow> sessions \<Rightarrow> string \<Rightarrow> entry list" where
  "window_view h ss = (\<lambda>sid. filter (\<lambda>e. h \<le> e_ts e) (session_entries ss sid))"

definition window_act :: "rat \<Rightarrow> (string \<Rightarrow> entry list) \<Rightarrow> lline \<Rightarrow> string \<Rightarrow> entry list" where
  "window_act h v l =
     (case ln_rec l of
        LEntry sid e \<Rightarrow> if sid \<noteq> [] \<and> h \<le> e_ts e then v(sid := v sid @ [e]) else v
      | LClear sid \<Rightarrow> v(sid := [])
      | LSkip \<Rightarrow> v)"

lemma session_entries_dput [simp]:
  "session_entries (dput sid es ss) = (session_entries ss)(sid := es)"
  by (auto simp: session_entries_def)

lemma session_entries_drop [simp]:
  "session_entries (filter (\<lambda>p. fst p \<noteq> sid) ss) = (session_entries ss)(sid := [])"
  by (rule ext, induction ss) (auto simp: session_entries_def split: option.splits)

lemma window_view_fold: "window_view h (fold_line ss l) = window_act h (window_view h ss) l"
  by (cases "ln_rec l") (auto simp: fold_line_def window_view_def window_act_def)

lemma window_view_foldl:
  "window_view h (foldl fold_line ss ls) = foldl (window_act h) (window_view h ss) ls"
  by (induction ls arbitrary: ss) (auto simp: window_view_fold)

lemma window_view_Nil [simp]: "window_view h [] = (\<lambda>_. [])"
  by (simp add: window_view_def session_entries_def)

lemma distinct_fold_line: "distinct (map fst ss) \<Longrightarrow> distinct (map fst (fold_line ss l))"
  by (cases "ln_rec l") (auto simp: fold_line_def distinct_keys_dput distinct_map_filter)

lemma distinct_foldl_line: "distinct (map fst ss) \<Longrightarrow> distinct (map fst (foldl fold_line ss ls))"
  by (induction ls arbitrary: ss) (auto simp: distinct_fold_line)

lemma distinct_pruned: "distinct (map fst ss) \<Longrightarrow> distinct (map fst (pruned cutoff ss))"
  by (simp add: pruned_def distinct_map_filter o_def)

lemma session_entries_pruned:
  "distinct (map fst ss) \<Longrightarrow>
   session_entries (pruned cutoff ss) sid = filter (\<lambda>e. cutoff \<le> e_ts e) (session_entries ss sid)"
proof (induction ss)
  case (Cons p ss)
  have "sid \<notin> set (map fst ss) \<Longrightarrow> session_entries (pruned cutoff ss) sid = []"
    by (induction ss) (auto simp: pruned_def session_entries_def)
  with Cons show ?case by (auto simp: pruned_def session_entries_def split: option.splits)
qed (simp add: pruned_def session_entries_def)

lemma window_view_pruned:
  assumes "distinct (map fst ss)" "cutoff \<le> h"
  shows "window_view h (pruned cutoff ss) = window_view h ss"
proof -
  have "filter (\<lambda>e. h \<le> e_ts e) (filter (\<lambda>e. cutoff \<le> e_ts e) es) = filter (\<lambda>e. h \<le> e_ts e) es"
    for es :: "entry list"
    using assms(2) by (induction es) auto
  then show ?thesis using assms(1) by (simp add: window_view_def session_entries_pruned del: filter_filter)
qed

text \<open>Refreshing from a readable file whose size the scan limit covers.\<close>

definition whole_file :: "nat \<Rightarrow> lline list \<Rightarrow> lfile" where
  "whole_file k ls = \<lparr>lf_key = k, lf_lines = ls, lf_torn = 0\<rparr>"

definition sync_lines :: "nat \<Rightarrow> lline list \<Rightarrow> lstore \<Rightarrow> lstore" where
  "sync_lines k ls s = sync_from_file True (total_size ls) True (Some (whole_file k ls)) s"

definition lview :: "rat \<Rightarrow> nat \<Rightarrow> lstore \<Rightarrow> string \<Rightarrow> entry list" where
  "lview h k s = (if l_key s = Some k then window_view h (l_sessions s) else (\<lambda>_. []))"

definition lcursor :: "nat \<Rightarrow> lstore \<Rightarrow> nat" where
  "lcursor k s = (if l_key s = Some k then l_offset s else 0)"

lemma sync_covered:
  "file_size f \<le> cap \<Longrightarrow> sync_from_file True cap True (Some f) s = sync_lines (lf_key f) (lf_lines f) s"
  by (simp add: sync_lines_def sync_from_file_def whole_file_def initial_offset_def file_size_def Let_def)

lemma sync_lines_eq:
  assumes "lcursor k s \<le> length ls"
  shows "lview h k (sync_lines k ls s) = foldl (window_act h) (lview h k s) (drop (lcursor k s) ls)"
    and "lcursor k (sync_lines k ls s) = length ls"
    and "l_key (sync_lines k ls s) = Some k"
  using assms
  by (auto simp: sync_lines_def sync_from_file_def fold_from_def lview_def lcursor_def whole_file_def
      initial_offset_def file_size_def window_view_foldl Let_def)

interpretation ledger_view: log_view "window_act h" "\<lambda>_. []" "\<lambda>_. True" "\<lambda>_. True" "lview h k" "lcursor k"
    "sync_lines k"
  for h k
  by unfold_locales (auto simp: sync_lines_eq)

section \<open>The ledger in operation\<close>

text \<open>Any number of processes on one file: each may append, read the cumulative state, or restart with an
  empty memory. Clock readings are ordered as the operations are. All use window \<open>w\<close> and the scan
  limit \<open>cap\<close>.\<close>

record lworld =
  lw_file :: "lfile option"
  lw_procs :: "nat \<Rightarrow> lstore"
  lw_time :: rat

inductive ledger_step :: "ucd \<Rightarrow> (rat \<Rightarrow> pyfloat) \<Rightarrow> int \<Rightarrow> nat \<Rightarrow> lworld \<Rightarrow> lworld \<Rightarrow> bool"
  for u rnd w cap where
  step_append:
    "le_persist env \<Longrightarrow> le_cap env = cap \<Longrightarrow> lw_time x \<le> now \<Longrightarrow>
     append_entry u rnd env now new_key sz sid envelope charge (lw_file x) (lw_procs x p) = ((file', s'), r) \<Longrightarrow>
     ledger_step u rnd w cap x \<lparr>lw_file = file', lw_procs = (lw_procs x)(p := s'), lw_time = now\<rparr>"
| step_compute:
    "le_persist env \<Longrightarrow> le_cap env = cap \<Longrightarrow> lw_time x \<le> now \<Longrightarrow> now \<le> prune_now \<Longrightarrow>
     compute_cumulative rnd env now prune_now sid w (lw_file x) (lw_procs x p) = (s', r) \<Longrightarrow>
     ledger_step u rnd w cap x (x\<lparr>lw_procs := (lw_procs x)(p := s'), lw_time := prune_now\<rparr>)"
| step_restart:
    "ledger_step u rnd w cap x (x\<lparr>lw_procs := (lw_procs x)(p := empty_lstore)\<rparr>)"

definition ledger_boot :: "lfile option \<Rightarrow> rat \<Rightarrow> lworld" where
  "ledger_boot file now = \<lparr>lw_file = file, lw_procs = (\<lambda>_. empty_lstore), lw_time = now\<rparr>"

inductive ledger_reach :: "ucd \<Rightarrow> (rat \<Rightarrow> pyfloat) \<Rightarrow> int \<Rightarrow> nat \<Rightarrow> lworld \<Rightarrow> bool"
  for u rnd w cap where
  reach_boot: "ledger_reach u rnd w cap (ledger_boot file now)"
| reach_step: "ledger_reach u rnd w cap x \<Longrightarrow> ledger_step u rnd w cap x y \<Longrightarrow> ledger_reach u rnd w cap y"

text \<open>The invariant: every process's memory is, for every horizon inside the window, the view of the records
  before its cursor, as long as the scan limit covers the file.\<close>

definition lstore_ok :: "rat \<Rightarrow> lfile option \<Rightarrow> lstore \<Rightarrow> bool" where
  "lstore_ok h0 file s \<longleftrightarrow> distinct (map fst (l_sessions s)) \<and>
     (case file of
        None \<Rightarrow> l_key s = None \<and> l_sessions s = []
      | Some f \<Rightarrow> (l_key s = None \<and> l_sessions s = [] \<or> l_key s = Some (lf_key f)) \<and>
          (\<forall>h \<ge> h0. ledger_view.synced h (lf_key f) (lf_lines f) s))"

lemma lstore_ok_mono: "lstore_ok h0 file s \<Longrightarrow> h0 \<le> h1 \<Longrightarrow> lstore_ok h1 file s"
  by (fastforce simp: lstore_ok_def split: option.splits)

lemma lstore_ok_empty: "lstore_ok h0 file empty_lstore"
  by (auto simp: lstore_ok_def empty_lstore_def ledger_view.synced_def lview_def lcursor_def split: option.splits)

lemma synced_loaded [simp]:
  "ledger_view.synced h k f (s\<lparr>l_loaded := b\<rparr>) = ledger_view.synced h k f s"
  by (simp add: ledger_view.synced_def lview_def lcursor_def)

lemma synced_sync:
  assumes "ledger_view.synced h k ls s"
  shows "ledger_view.synced h k ls (sync_lines k ls s)" "l_key (sync_lines k ls s) = Some k"
proof -
  show "ledger_view.synced h k ls (sync_lines k ls s)"
    using ledger_view.synced_refresh [OF assms] by (simp add: list_all_iff)
  show "l_key (sync_lines k ls s) = Some k"
    using assms sync_lines_eq(3) by (simp add: ledger_view.synced_def)
qed

lemma distinct_sync_lines:
  "distinct (map fst (l_sessions s)) \<Longrightarrow> distinct (map fst (l_sessions (sync_lines k ls s)))"
  by (auto simp: sync_lines_def sync_from_file_def fold_from_def whole_file_def initial_offset_def
      file_size_def distinct_foldl_line Let_def)

lemma sync_unreadable:
  "sync_from_file True cap False (Some f) s =
     (if l_key s \<noteq> Some (lf_key f) \<or> length (lf_lines f) < l_offset s
      then s\<lparr>l_sessions := [], l_key := Some (lf_key f), l_offset := 0, l_loaded := True\<rparr>
      else s\<lparr>l_loaded := True\<rparr>)"
  by (simp add: sync_from_file_def Let_def)

lemma lstore_ok_sync:
  assumes ok: "lstore_ok h0 file s" and cap: "\<And>f. file = Some f \<Longrightarrow> file_size f \<le> cap"
  shows "lstore_ok h0 file (sync_from_file True cap readable file s)"
proof (cases "file")
  case None
  then show ?thesis using ok by (simp add: sync_from_file_def lstore_ok_def)
next
  case (Some f)
  show ?thesis
  proof (cases readable)
    case True
    have sy: "ledger_view.synced h (lf_key f) (lf_lines f) s" if "h0 \<le> h" for h
      using ok Some that by (simp add: lstore_ok_def)
    have "distinct (map fst (l_sessions s))" using ok by (simp add: lstore_ok_def)
    then show ?thesis
      using True cap [OF Some] synced_sync(2) [OF sy [OF order_refl]]
      by (simp add: Some sync_covered lstore_ok_def distinct_sync_lines synced_sync(1) [OF sy])
  next
    case False
    have "ledger_view.synced h (lf_key f) (lf_lines f)
        (s\<lparr>l_sessions := [], l_key := Some (lf_key f), l_offset := 0, l_loaded := True\<rparr>)" for h
      by (simp add: ledger_view.synced_def lview_def lcursor_def)
    with False ok show ?thesis by (simp add: Some sync_unreadable lstore_ok_def)
  qed
qed

lemma lstore_ok_prune:
  assumes "lstore_ok h0 file s" "h0 \<le> h1" "now - of_int w \<le> h1"
  shows "lstore_ok h1 file (maybe_prune w now s)"
proof (cases "now - l_last_prune s < prune_interval_seconds")
  case True
  then show ?thesis using lstore_ok_mono [OF assms(1,2)] by (simp add: maybe_prune_def)
next
  case False
  have d: "distinct (map fst (l_sessions s))" using assms(1) by (simp add: lstore_ok_def)
  have "ledger_view.synced h k ls (s\<lparr>l_last_prune := now, l_sessions := pruned (now - of_int w) (l_sessions s)\<rparr>)
      = ledger_view.synced h k ls s" if "h1 \<le> h" for h k ls
    using window_view_pruned [OF d, of "now - of_int w" h] that assms(3)
    by (simp add: ledger_view.synced_def lview_def lcursor_def)
  with False lstore_ok_mono [OF assms(1,2)] show ?thesis
    by (simp add: maybe_prune_def lstore_ok_def distinct_pruned split: option.splits) (auto simp: pruned_def)
qed

definition file_grows :: "lfile option \<Rightarrow> lfile option \<Rightarrow> bool" where
  "file_grows file file' \<longleftrightarrow>
     (case file of
        None \<Rightarrow> True
      | Some f \<Rightarrow> (case file' of
            None \<Rightarrow> False
          | Some f' \<Rightarrow> lf_key f' = lf_key f \<and> file_size f \<le> file_size f' \<and> (\<exists>ls. lf_lines f' = lf_lines f @ ls)))"

lemma file_grows_append: "append_record env new_key sz rec file = (file', r) \<Longrightarrow> file_grows file file'"
  by (cases "le_fault env"; cases "file")
    (auto simp: append_record_def land_line_def or_created_def file_grows_def file_size_def total_size_def Let_def)

lemma lstore_ok_grows:
  assumes "lstore_ok h0 file s" "file_grows file file'"
  shows "lstore_ok h0 file' s"
proof (cases "file")
  case None
  then show ?thesis using assms(1)
    by (auto simp: lstore_ok_def ledger_view.synced_def lview_def lcursor_def split: option.splits)
next
  case (Some f)
  then obtain f' ls where "file' = Some f'" "lf_key f' = lf_key f" "lf_lines f' = lf_lines f @ ls"
    using assms(2) by (auto simp: file_grows_def split: option.splits)
  then show ?thesis using assms(1) Some by (simp add: lstore_ok_def ledger_view.synced_append)
qed

abbreviation covered :: "nat \<Rightarrow> lfile option \<Rightarrow> bool" where
  "covered cap file \<equiv> \<forall>f. file = Some f \<longrightarrow> file_size f \<le> cap"

lemma file_grows_covered: "file_grows file file' \<Longrightarrow> covered cap file' \<Longrightarrow> covered cap file"
  by (auto simp: file_grows_def split: option.splits)

lemma file_grows_refl: "file_grows file file"
  by (simp add: file_grows_def split: option.split)

lemma lstore_ok_ensure:
  "lstore_ok h file s \<Longrightarrow> covered (le_cap env) file \<Longrightarrow> le_persist env \<Longrightarrow>
   lstore_ok h file (ensure_loaded_ledger env file s)"
  by (simp add: ensure_loaded_ledger_def lstore_ok_sync)

lemma append_entry_grows:
  assumes "le_persist env" "append_entry u rnd env now new_key sz sid envelope charge file s = ((file', s'), r)"
  shows "file_grows file file'"
    and "lstore_ok h file s \<Longrightarrow> covered (le_cap env) file' \<Longrightarrow> lstore_ok h file' s'"
proof -
  have "file_grows file file' \<and> (lstore_ok h file s \<longrightarrow> covered (le_cap env) file' \<longrightarrow> lstore_ok h file' s')"
  proof (cases "make_entry u rnd now envelope charge")
    case (Inl e)
    then show ?thesis using assms by (auto simp: append_entry_def file_grows_refl)
  next
    case (Inr e)
    obtain f2 q where a: "append_record env new_key sz (LEntry sid e) file = (f2, q)" by fastforce
    have g: "file_grows file f2" by (rule file_grows_append [OF a])
    show ?thesis
    proof (cases q)
      case (Inl err)
      then show ?thesis using assms Inr a g by (auto simp: append_entry_def intro: lstore_ok_grows)
    next
      case (Inr y)
      have "file' = f2" "s' = sync_from_file True (le_cap env) (le_readable env) f2 s"
        using assms \<open>make_entry u rnd now envelope charge = Inr e\<close> a Inr by (auto simp: append_entry_def)
      then show ?thesis using g lstore_ok_grows [OF _ g, of h s] lstore_ok_sync [of h f2 s "le_cap env"] by auto
    qed
  qed
  then show "file_grows file file'"
    and "lstore_ok h file s \<Longrightarrow> covered (le_cap env) file' \<Longrightarrow> lstore_ok h file' s'" by auto
qed

lemma lstore_ok_compute:
  assumes "lstore_ok h file s" "covered (le_cap env) file" "le_persist env" "h \<le> prune_now - of_int w"
    and "compute_cumulative rnd env now prune_now sid w file s = (s', r)"
  shows "lstore_ok (prune_now - of_int w) file s'"
proof -
  have s': "s' = maybe_prune w prune_now (sync_from_file True (le_cap env) (le_readable env) file
      (ensure_loaded_ledger env file s))"
    using assms(3,5) by (simp add: compute_cumulative_def Let_def)
  show ?thesis unfolding s'
    by (rule lstore_ok_prune [OF lstore_ok_sync [OF lstore_ok_ensure] assms(4) order_refl])
      (use assms in auto)
qed

lemma reach_store_ok:
  assumes "ledger_reach u rnd w cap x" "covered cap (lw_file x)"
  shows "lstore_ok (lw_time x - of_int w) (lw_file x) (lw_procs x p)"
  using assms
proof (induction arbitrary: p rule: ledger_reach.induct)
  case (reach_boot f0 now)
  then show ?case by (simp add: ledger_boot_def lstore_ok_empty)
next
  case (reach_step x y)
  from reach_step.hyps(2) reach_step.IH reach_step.prems show ?case
  proof cases
    case (step_append env now new_key sz sid envelope charge q f2 s2 r)
    note grow = append_entry_grows [OF step_append(2,5)]
    have cov2: "covered cap f2" using reach_step.prems step_append(1) by simp
    have cov: "covered cap (lw_file x)" by (rule file_grows_covered [OF grow(1) cov2])
    have old: "lstore_ok (now - of_int w) (lw_file x) (lw_procs x p)" for p
      by (rule lstore_ok_mono [OF reach_step.IH [OF cov]]) (use step_append(4) in simp)
    have "lstore_ok (now - of_int w) f2 s2" by (rule grow(2) [OF old]) (use cov2 step_append(3) in simp)
    moreover have "lstore_ok (now - of_int w) f2 (lw_procs x p)" by (rule lstore_ok_grows [OF old grow(1)])
    ultimately show ?thesis using step_append(1) by simp
  next
    case (step_compute env now prune_now sid q s2 r)
    have cov: "covered cap (lw_file x)" using reach_step.prems step_compute(1) by simp
    have le: "lw_time x - of_int w \<le> prune_now - of_int w" using step_compute(4,5) by simp
    have "lstore_ok (prune_now - of_int w) (lw_file x) (lw_procs x p)" for p
      by (rule lstore_ok_mono [OF reach_step.IH [OF cov] le])
    moreover have "lstore_ok (prune_now - of_int w) (lw_file x) s2"
      by (rule lstore_ok_compute [OF reach_step.IH [OF cov] _ step_compute(2) le step_compute(6)])
        (use cov step_compute(3) in simp)
    ultimately show ?thesis using step_compute(1) by simp
  next
    case (step_restart q)
    then show ?thesis using reach_step.IH [of p] reach_step.prems by (simp add: lstore_ok_empty)
  qed
qed

lemma tally_window:
  "c0 \<le> c1 \<Longrightarrow> tally rnd c0 acc (filter (\<lambda>e. c1 \<le> e_ts e) es) = tally rnd c1 acc es"
proof (induction es arbitrary: acc)
  case (Cons e es)
  have "tally rnd c0 acc (filter (\<lambda>e. c1 \<le> e_ts e) es) = tally rnd c1 acc es" for acc
    by (rule Cons.IH [OF Cons.prems])
  with Cons.prems show ?case by (simp add: not_less [symmetric])
qed simp

lemma cumulative_window:
  assumes "c0 \<le> c1"
  shows "cumulative_of rnd w c0 (filter (\<lambda>e. c1 \<le> e_ts e) es) = cumulative_of rnd w c1 es"
proof -
  have "filter (\<lambda>e. \<not> e_ts e < c0) (filter (\<lambda>e. c1 \<le> e_ts e) es) = filter (\<lambda>e. \<not> e_ts e < c1) es"
    for es :: "entry list"
    using assms by (induction es) (auto simp del: filter_filter)
  then show ?thesis by (simp add: cumulative_of_def tally_window [OF assms] del: filter_filter)
qed

text \<open>The entries of a session in the whole file.\<close>

definition file_entries :: "lfile \<Rightarrow> string \<Rightarrow> entry list" where
  "file_entries f sid = session_entries (foldl fold_line [] (lf_lines f)) sid"

lemma file_entries_view:
  "foldl (window_act h) (\<lambda>_. []) (lf_lines f) sid = filter (\<lambda>e. h \<le> e_ts e) (file_entries f sid)"
  using window_view_foldl [of h "[]" "lf_lines f"]
  by (simp add: file_entries_def window_view_def fun_eq_iff session_entries_def)

lemma synced_entries:
  assumes "lstore_ok h0 (Some f) s" "file_size f \<le> cap" "h0 \<le> h"
  shows "filter (\<lambda>e. h \<le> e_ts e) (session_entries (l_sessions (sync_from_file True cap True (Some f) s)) sid)
     = filter (\<lambda>e. h \<le> e_ts e) (file_entries f sid)"
proof -
  have sy: "ledger_view.synced h (lf_key f) (lf_lines f) s" using assms(1,3) by (simp add: lstore_ok_def)
  have "lview h (lf_key f) (sync_lines (lf_key f) (lf_lines f) s) sid =
      filter (\<lambda>e. h \<le> e_ts e) (file_entries f sid)"
    using ledger_view.view_fresh [OF sy] file_entries_view [of h f sid] by (simp add: list_all_iff)
  then show ?thesis
    using assms(2) synced_sync(2) [OF sy] by (simp add: sync_covered lview_def window_view_def)
qed


definition sample_lenv :: lenv where
  "sample_lenv = \<lparr>le_persist = True, le_cap = 1000, le_readable = True, le_fault = NoFault, le_torn = 0\<rparr>"

definition sample_purchase :: dict where
  "sample_purchase =
     [(''action'', JObj [(''verb'', JStr ''transact''), (''ability'', JStr ''pay'')]),
      (''axes'', JObj [(''externality'', JStr ''external'')]),
      (''magnitude'', JObj [(''count'', JInt 1)]),
      (''params'', JObj [(''amount'', JInt (- 40)), (''currency'', JStr ''EUR'')])]"

definition sample_append :: "(lfile option \<times> lstore) \<times> (ledger_exc + unit)" where
  "sample_append =
     append_entry plain_ucd Fin sample_lenv 5 1 100 ''s'' sample_purchase (Some 3) None empty_lstore"

definition sample_lworld :: lworld where
  "sample_lworld =
     \<lparr>lw_file = fst (fst sample_append), lw_procs = (\<lambda>_. empty_lstore)(0 := snd (fst sample_append)), lw_time = 5\<rparr>"

lemma sample_append_file:
  "fst (fst sample_append) = Some \<lparr>lf_key = 1, lf_lines =
     [\<lparr>ln_size = 100, ln_rec = LEntry ''s'' \<lparr>e_ts = 5, e_verb = JStr ''transact'', e_ability = JStr ''pay'',
        e_ext = JStr ''external'', e_count = 3, e_amounts = [(''EUR'', Fin 40)], e_physical = Fin 0\<rparr>\<rparr>], lf_torn = 0\<rparr>"
  by code_simp

lemma sample_lworld_reach: "ledger_reach plain_ucd Fin 3600 1000 sample_lworld"
proof -
  let ?x = "ledger_boot None 0"
  have "append_entry plain_ucd Fin sample_lenv 5 1 100 ''s'' sample_purchase (Some 3) (lw_file ?x) (lw_procs ?x 0)
      = ((fst (fst sample_append), snd (fst sample_append)), snd sample_append)"
    by (simp add: sample_append_def ledger_boot_def)
  then have "ledger_step plain_ucd Fin 3600 1000 ?x
      \<lparr>lw_file = fst (fst sample_append), lw_procs = (lw_procs ?x)(0 := snd (fst sample_append)), lw_time = 5\<rparr>"
    by (rule step_append [rotated 3]) (simp_all add: sample_lenv_def ledger_boot_def)
  then show ?thesis using reach_step [OF reach_boot] by (simp add: sample_lworld_def ledger_boot_def)
qed


section \<open>What the sums are\<close>

definition count_of :: "(json \<times> int) list \<Rightarrow> json \<Rightarrow> int" where
  "count_of d k = (case map_of d k of None \<Rightarrow> 0 | Some n \<Rightarrow> n)"

abbreviation total_count :: "entry list \<Rightarrow> int" where
  "total_count es \<equiv> sum_list (map e_count es)"

abbreviation in_window :: "rat \<Rightarrow> entry list \<Rightarrow> entry list" where
  "in_window cutoff es \<equiv> filter (\<lambda>e. \<not> e_ts e < cutoff) es"

lemma py_eq_text: "py_eq j (JStr s) \<longleftrightarrow> j = JStr s" "py_eq (JStr s) j \<longleftrightarrow> j = JStr s"
  by (cases j; auto simp: py_eq.simps)+

lemma bump_sum: "sum_list (map snd (bump k n d)) = sum_list (map snd d) + n"
  by (induction k n d rule: bump.induct) auto

lemma bump_count: "count_of (bump k n d) (JStr v) = count_of d (JStr v) + (if k = JStr v then n else 0)"
  by (induction k n d rule: bump.induct) (auto simp: count_of_def py_eq_text split: option.splits)

lemma tally_entry_counts:
  assumes "tally_entry rnd c e = Inr c'"
  shows "c_total c' = c_total c + e_count e"
    and "sum_list (map snd (c_by_verb c')) = sum_list (map snd (c_by_verb c)) + e_count e"
    and "count_of (c_by_verb c') (JStr v) = count_of (c_by_verb c) (JStr v) + (if e_verb e = JStr v then e_count e else 0)"
    and "v \<noteq> [] \<Longrightarrow> count_of (c_by_ability c') (JStr v) =
      count_of (c_by_ability c) (JStr v) + (if e_ability e = JStr v then e_count e else 0)"
    and "v \<noteq> [] \<Longrightarrow> count_of (c_by_ext c') (JStr v) =
      count_of (c_by_ext c) (JStr v) + (if e_ext e = JStr v then e_count e else 0)"
    and "c_amounts c' = foldl (add_amount rnd) (c_amounts c) (e_amounts e)"
  using assms by (auto simp: tally_entry_def bump_sum bump_count split: if_splits)

lemma tally_counts:
  assumes "tally rnd cutoff c es = Inr c'"
  shows "c_total c' = c_total c + total_count (in_window cutoff es) \<and>
    sum_list (map snd (c_by_verb c')) = sum_list (map snd (c_by_verb c)) + total_count (in_window cutoff es) \<and>
    count_of (c_by_verb c') (JStr v) =
      count_of (c_by_verb c) (JStr v) + total_count (filter (\<lambda>e. e_verb e = JStr v) (in_window cutoff es)) \<and>
    (v \<noteq> [] \<longrightarrow> count_of (c_by_ability c') (JStr v) =
      count_of (c_by_ability c) (JStr v) + total_count (filter (\<lambda>e. e_ability e = JStr v) (in_window cutoff es)) \<and>
      count_of (c_by_ext c') (JStr v) =
        count_of (c_by_ext c) (JStr v) + total_count (filter (\<lambda>e. e_ext e = JStr v) (in_window cutoff es)))"
  using assms
proof (induction es arbitrary: c)
  case (Cons e es)
  show ?case
  proof (cases "e_ts e < cutoff")
    case False
    then obtain c1 where c1: "tally_entry rnd c e = Inr c1" "tally rnd cutoff c1 es = Inr c'"
      using Cons.prems by (auto simp: bindE_Inr_iff)
    show ?thesis
      using Cons.IH [OF c1(2)] tally_entry_counts(1,2) [OF c1(1)]
        tally_entry_counts(3-5) [OF c1(1), of v] False by (simp del: filter_filter)
  qed (use Cons in simp)
qed simp

lemma cumulative_of_Inr:
  assumes "cumulative_of rnd w cutoff es = Inr c"
  obtains c0 p where "tally rnd cutoff (empty_cumulative w) es = Inr c0" "c = c0\<lparr>c_physical := p\<rparr>"
    "fsum rnd (map e_physical (in_window cutoff es)) = Inr p"
  using assms by (auto simp: cumulative_of_def bindE_Inr_iff)

text \<open>The counts of the cumulative object: the total and the sum over \<open>count_by_verb\<close> are both the sum of
  the counts of the entries in the window; each verb, non-empty ability and non-empty externality has
  the sum of the counts of its own entries.\<close>

theorem cumulative_counts:
  assumes "cumulative_of rnd w cutoff es = Inr c"
  shows "c_total c = total_count (in_window cutoff es) \<and>
    sum_list (map snd (c_by_verb c)) = total_count (in_window cutoff es) \<and>
    count_of (c_by_verb c) (JStr v) = total_count (filter (\<lambda>e. e_verb e = JStr v) (in_window cutoff es)) \<and>
    (v \<noteq> [] \<longrightarrow>
       count_of (c_by_ability c) (JStr v) = total_count (filter (\<lambda>e. e_ability e = JStr v) (in_window cutoff es)) \<and>
       count_of (c_by_ext c) (JStr v) = total_count (filter (\<lambda>e. e_ext e = JStr v) (in_window cutoff es)))"
proof -
  obtain c0 p where t: "tally rnd cutoff (empty_cumulative w) es = Inr c0" and c: "c = c0\<lparr>c_physical := p\<rparr>"
    using cumulative_of_Inr [OF assms] .
  show ?thesis
    using tally_counts [OF t, of v] by (simp add: c empty_cumulative_def count_of_def del: filter_filter)
qed

definition sample_entry :: "rat \<Rightarrow> string \<Rightarrow> string \<Rightarrow> int \<Rightarrow> rat \<Rightarrow> entry" where
  "sample_entry t v ab n a = \<lparr>e_ts = t, e_verb = JStr v, e_ability = JStr ab, e_ext = JStr [],
     e_count = n, e_amounts = [(''EUR'', Fin a)], e_physical = Fin (1 / 10)\<rparr>"

definition sample_entries :: "entry list" where
  "sample_entries = [sample_entry 1 ''delete'' ''x'' 9 1, sample_entry 5 ''delete'' ''y'' 2 10,
     sample_entry 6 ''send'' ''y'' 3 20, sample_entry 7 ''delete'' [] 4 30]"

theorem cumulative_counts_witness:
  "\<exists>c. cumulative_of Fin 3 4 sample_entries = Inr c \<and> c_total c = 9 \<and>
     count_of (c_by_verb c) (JStr ''delete'') = 6 \<and> count_of (c_by_ability c) (JStr ''y'') = 5"
proof -
  have "\<not> isl (cumulative_of Fin 3 4 sample_entries)" by code_simp
  then obtain c where c: "cumulative_of Fin 3 4 sample_entries = Inr c" by (metis sum.collapse(2))
  have "total_count (in_window 4 sample_entries) = 9"
    "total_count (filter (\<lambda>e. e_verb e = JStr ''delete'') (in_window 4 sample_entries)) = 6"
    "total_count (filter (\<lambda>e. e_ability e = JStr ''y'') (in_window 4 sample_entries)) = 5"
    by code_simp+
  then show ?thesis
    using c cumulative_counts [OF c, of "''delete''"] cumulative_counts [OF c, of "''y''"] by simp
qed

text \<open>How a correct rounding behaves: it is monotone and leaves doubles alone.\<close>

definition rounding :: "(rat \<Rightarrow> pyfloat) \<Rightarrow> bool" where
  "rounding rnd \<longleftrightarrow> (\<forall>x y. x \<le> y \<longrightarrow> fle (rnd x) (rnd y)) \<and> (\<forall>x y. rnd x = Fin y \<longrightarrow> rnd y = Fin y) \<and>
     (\<forall>x. rnd x \<noteq> NaN) \<and> rnd 0 = Fin 0"

text \<open>A non-negative double.\<close>

fun exposure :: "(rat \<Rightarrow> pyfloat) \<Rightarrow> pyfloat \<Rightarrow> bool" where
  "exposure rnd (Fin x) = (0 \<le> x \<and> rnd x = Fin x)"
| "exposure rnd a = (a = PosInf)"

definition amount_in :: "(string \<times> pyfloat) list \<Rightarrow> string \<Rightarrow> pyfloat" where
  "amount_in d cur = (case map_of d cur of None \<Rightarrow> Fin 0 | Some a \<Rightarrow> a)"

lemma fle_refl_exposure: "exposure rnd a \<Longrightarrow> fle a a"
  by (cases a) auto

lemma fle_trans: "fle a b \<Longrightarrow> fle b c \<Longrightarrow> fle a c"
  by (cases a; cases b; cases c) auto

lemma exposure_add:
  assumes "rounding rnd" "exposure rnd a" "exposure rnd b"
  shows "exposure rnd (fadd rnd a b)" "fle a (fadd rnd a b)"
proof -
  have "exposure rnd (fadd rnd a b) \<and> fle a (fadd rnd a b)"
  proof (cases "a = PosInf \<or> b = PosInf")
    case True
    then show ?thesis using assms(2,3) by (cases a; cases b) auto
  next
    case False
    then obtain x y where xy: "a = Fin x" "b = Fin y" using assms(2,3) by (cases a; cases b) auto
    then have le: "fle (Fin x) (rnd (x + y))" using assms unfolding rounding_def
      by (metis exposure.simps(1) le_add_same_cancel1)
    moreover have "exposure rnd (rnd (x + y))"
      using le xy assms by (cases "rnd (x + y)") (auto simp: rounding_def)
    ultimately show ?thesis using xy by simp
  qed
  then show "exposure rnd (fadd rnd a b)" "fle a (fadd rnd a b)" by auto
qed

definition exposures :: "(rat \<Rightarrow> pyfloat) \<Rightarrow> (string \<times> pyfloat) list \<Rightarrow> bool" where
  "exposures rnd d \<longleftrightarrow> list_all (\<lambda>p. exposure rnd (snd p)) d"

definition amounts_grow :: "(rat \<Rightarrow> pyfloat) \<Rightarrow> (string \<times> pyfloat) list \<Rightarrow> (string \<times> pyfloat) list \<Rightarrow> bool" where
  "amounts_grow rnd d d' \<longleftrightarrow> (\<forall>cur. exposure rnd (amount_in d' cur) \<and> fle (amount_in d cur) (amount_in d' cur))"

lemma amounts_grow_trans: "amounts_grow rnd d d' \<Longrightarrow> amounts_grow rnd d' d'' \<Longrightarrow> amounts_grow rnd d d''"
  by (meson fle_trans amounts_grow_def)

lemma amounts_grow_refl: "\<forall>cur. exposure rnd (amount_in d cur) \<Longrightarrow> amounts_grow rnd d d"
  by (auto simp: amounts_grow_def intro: fle_refl_exposure)

lemma amount_in_add:
  "amount_in (add_amount rnd d p) cur =
     (if cur = fst p then fadd rnd (amount_in d cur) (snd p) else amount_in d cur)"
  by (simp add: add_amount_def amount_in_def)

lemma add_amount_grows:
  assumes "rounding rnd" "exposure rnd (snd p)" "\<forall>cur. exposure rnd (amount_in d cur)"
  shows "amounts_grow rnd d (add_amount rnd d p)"
  using exposure_add [OF assms(1) _ assms(2), of "amount_in d (fst p)"] assms(3)
  by (auto simp: amounts_grow_def amount_in_add intro: fle_refl_exposure)

lemma add_amounts_grow:
  assumes "rounding rnd" "exposures rnd ps" "\<forall>cur. exposure rnd (amount_in d cur)"
  shows "amounts_grow rnd d (foldl (add_amount rnd) d ps)"
  using assms(2,3)
proof (induction ps arbitrary: d)
  case Nil
  then show ?case by (simp add: amounts_grow_refl)
next
  case (Cons p ps)
  have g: "amounts_grow rnd d (add_amount rnd d p)"
    using add_amount_grows [OF assms(1)] Cons.prems by (simp add: exposures_def)
  have "amounts_grow rnd (add_amount rnd d p) (foldl (add_amount rnd) (add_amount rnd d p) ps)"
    by (rule Cons.IH) (use Cons.prems g in \<open>simp_all add: exposures_def amounts_grow_def\<close>)
  with g show ?case using amounts_grow_trans by simp
qed

lemma tally_amounts_grow:
  assumes "rounding rnd" "list_all (\<lambda>e. exposures rnd (e_amounts e)) es"
    and "tally rnd cutoff c es = Inr c'" "\<forall>cur. exposure rnd (amount_in (c_amounts c) cur)"
  shows "amounts_grow rnd (c_amounts c) (c_amounts c')"
  using assms(2-4)
proof (induction es arbitrary: c)
  case Nil
  then show ?case by (simp add: amounts_grow_refl)
next
  case (Cons e es)
  show ?case
  proof (cases "e_ts e < cutoff")
    case False
    then obtain c1 where c1: "tally_entry rnd c e = Inr c1" "tally rnd cutoff c1 es = Inr c'"
      using Cons.prems(2) by (auto simp: bindE_Inr_iff)
    have g: "amounts_grow rnd (c_amounts c) (c_amounts c1)"
      using add_amounts_grow [OF assms(1)] tally_entry_counts(6) [OF c1(1)] Cons.prems(1,3) by simp
    have "amounts_grow rnd (c_amounts c1) (c_amounts c')"
      by (rule Cons.IH) (use Cons.prems(1) g c1 in \<open>simp_all add: amounts_grow_def\<close>)
    with g show ?thesis by (rule amounts_grow_trans)
  qed (use Cons in simp)
qed

lemma tally_append:
  "tally rnd cutoff c (es @ fs) = bindE (tally rnd cutoff c es) (\<lambda>c1. tally rnd cutoff c1 fs)"
  by (induction es arbitrary: c) (auto simp: bindE_assoc)

text \<open>Spending is never forgotten while it is inside the window: with non-negative recorded amounts and a
  monotone rounding, further entries leave every currency's sum at least as large as before (floating
  point included) and keep it non-negative.\<close>

theorem amounts_never_decrease:
  assumes "rounding rnd" "list_all (\<lambda>e. exposures rnd (e_amounts e)) (es @ later)"
    and "cumulative_of rnd w cutoff es = Inr c" "cumulative_of rnd w cutoff (es @ later) = Inr c'"
  shows "fle (amount_in (c_amounts c) cur) (amount_in (c_amounts c') cur) \<and>
    fle (Fin 0) (amount_in (c_amounts c') cur)"
proof -
  obtain c0 p where c0: "tally rnd cutoff (empty_cumulative w) es = Inr c0" and c: "c = c0\<lparr>c_physical := p\<rparr>"
    using cumulative_of_Inr [OF assms(3)] .
  obtain c1 q where c1: "tally rnd cutoff (empty_cumulative w) (es @ later) = Inr c1"
    and c': "c' = c1\<lparr>c_physical := q\<rparr>"
    using cumulative_of_Inr [OF assms(4)] .
  have z: "\<forall>cur. exposure rnd (amount_in (c_amounts (empty_cumulative w)) cur)"
    using assms(1) by (simp add: empty_cumulative_def amount_in_def rounding_def)
  have g0: "amounts_grow rnd (c_amounts (empty_cumulative w)) (c_amounts c0)"
    by (rule tally_amounts_grow [OF assms(1) _ c0 z]) (use assms(2) in simp)
  have "amounts_grow rnd (c_amounts c0) (c_amounts c1)"
    by (rule tally_amounts_grow [OF assms(1), of later cutoff])
      (use assms(2) c0 c1 g0 in \<open>simp_all add: tally_append amounts_grow_def\<close>)
  moreover have "fle (Fin 0) (amount_in (c_amounts c1) cur)" if "exposure rnd (amount_in (c_amounts c1) cur)"
    using that by (cases "amount_in (c_amounts c1) cur") auto
  ultimately show ?thesis by (simp add: c c' amounts_grow_def)
qed

theorem amounts_never_decrease_witness:
  "\<exists>c c'. cumulative_of Fin 3 4 (take 2 sample_entries) = Inr c \<and> cumulative_of Fin 3 4 sample_entries = Inr c' \<and>
     fle (amount_in (c_amounts c) ''EUR'') (amount_in (c_amounts c') ''EUR'')"
proof -
  have "\<not> isl (cumulative_of Fin 3 4 (take 2 sample_entries))" "\<not> isl (cumulative_of Fin 3 4 sample_entries)"
    by code_simp+
  then obtain c c' where c: "cumulative_of Fin 3 4 (take 2 sample_entries) = Inr c"
    "cumulative_of Fin 3 4 (take 2 sample_entries @ drop 2 sample_entries) = Inr c'"
    unfolding append_take_drop_id by (metis sum.collapse(2))
  have "list_all (\<lambda>e. exposures Fin (e_amounts e)) (take 2 sample_entries @ drop 2 sample_entries)" by code_simp
  moreover have "rounding Fin" by (simp add: rounding_def)
  ultimately show ?thesis
    using c amounts_never_decrease [of Fin "take 2 sample_entries" "drop 2 sample_entries" 3 4 c c' "''EUR''"]
    by auto
qed

section \<open>Recording\<close>

lemma file_entries_land:
  "file_entries (land_line new_key sz rec file) = 
     session_entries (fold_lrec (foldl fold_line [] (lf_lines (or_created new_key file)))
       (if lf_torn (or_created new_key file) = 0 then rec else LSkip))"
  by (simp add: file_entries_def fun_eq_iff land_line_def fold_line_def Let_def)

lemma append_entry_persist:
  assumes "le_persist env" "make_entry u rnd now envelope charge = Inr e"
  shows "snd (append_entry u rnd env now new_key sz sid envelope charge file s) =
      (if le_fault env = NoFault then Inr () else Inl LedgerWriteError)"
    and "fst (fst (append_entry u rnd env now new_key sz sid envelope charge file s)) =
      fst (append_record env new_key sz (LEntry sid e) file)"
  using assms by (auto simp: append_entry_def append_record_def Let_def split: fault.splits)

lemma make_entry_count:
  "make_entry u rnd now envelope (Some n) = Inr e \<Longrightarrow> e_count e = n \<and> e_ts e = now"
  by (auto simp: make_entry_def bindE_Inr_iff Let_def)

text \<open>C15: \<open>append_entry\<close> on a durable ledger: it returns exactly when the append was proven and raises
  \<open>LedgerWriteError\<close> otherwise; when it returns and the file ended in a complete line, every later fold
  of the file has the action at the end of its session, priced at the policy's charge, and no other
  session changes; when the file ended in a torn line the call still returns, and the charge is lost.\<close>

theorem append_entry_outcome:
  assumes "le_persist env" "sid \<noteq> []" "make_entry u rnd now envelope (Some n) = Inr e"
    and "append_entry u rnd env now new_key sz sid envelope (Some n) (Some f) s = ((Some f', s'), r)"
  shows "r = (if le_fault env = NoFault then Inr () else Inl LedgerWriteError) \<and>
    (r = Inr () \<longrightarrow>
      (if lf_torn f = 0
       then e_count e = n \<and> e_ts e = now \<and> file_entries f' = (file_entries f)(sid := file_entries f sid @ [e])
       else file_entries f' = file_entries f))"
proof -
  have f': "Some f' = fst (append_record env new_key sz (LEntry sid e) (Some f))"
    using append_entry_persist(2) [OF assms(1,3), of new_key sz sid "Some f" s] assms(4) by simp
  have r: "r = (if le_fault env = NoFault then Inr () else Inl LedgerWriteError)"
    using append_entry_persist(1) [OF assms(1,3), of new_key sz sid "Some f" s] assms(4) by simp
  have land: "f' = land_line new_key sz (LEntry sid e) (Some f)" if "r = Inr ()"
    using that r f' by (auto simp: append_record_def split: if_splits)
  have "file_entries (land_line new_key sz (LEntry sid e) (Some f)) =
      (if lf_torn f = 0 then (file_entries f)(sid := file_entries f sid @ [e]) else file_entries f)"
    using file_entries_land [of new_key sz "LEntry sid e" "Some f"] assms(2)
    by (simp add: or_created_def) (simp add: file_entries_def fun_eq_iff)
  then show ?thesis using r land make_entry_count [OF assms(3)] by simp
qed

definition sample_torn_file :: lfile where
  "sample_torn_file = \<lparr>lf_key = 1, lf_lines = [], lf_torn = 7\<rparr>"

theorem append_entry_outcome_witness:
  "\<exists>f' s'. append_entry plain_ucd Fin sample_lenv 5 1 100 ''s'' sample_purchase (Some 3)
     (Some sample_torn_file) empty_lstore = ((Some f', s'), Inr ()) \<and> file_entries f' ''s'' = []"
proof -
  have "case append_entry plain_ucd Fin sample_lenv 5 1 100 ''s'' sample_purchase (Some 3)
      (Some sample_torn_file) empty_lstore of ((f', s'), r) \<Rightarrow> f' \<noteq> None \<and> r = Inr ()"
    by code_simp
  then obtain f' s' where a: "append_entry plain_ucd Fin sample_lenv 5 1 100 ''s'' sample_purchase (Some 3)
      (Some sample_torn_file) empty_lstore = ((Some f', s'), Inr ())"
    by (auto split: prod.splits)
  have "\<not> isl (make_entry plain_ucd Fin 5 sample_purchase (Some 3))" by code_simp
  then obtain e where e: "make_entry plain_ucd Fin 5 sample_purchase (Some 3) = Inr e"
    by (metis sum.collapse(2))
  have "file_entries f' = file_entries sample_torn_file"
    using append_entry_outcome [OF _ _ e a] by (simp add: sample_lenv_def sample_torn_file_def)
  moreover have "file_entries sample_torn_file ''s'' = []"
    by (simp add: sample_torn_file_def file_entries_def session_entries_def)
  ultimately show ?thesis using a by auto
qed

text \<open>One entry inside the window whose ability is a list or an object, or physical fractions whose sum is
  no double, make every computation of the session's cumulative state raise.\<close>

theorem poisoned_session:
  assumes "(\<exists>e \<in> set es. \<not> e_ts e < cutoff \<and> py_truth (e_ability e) \<and> \<not> dict_key (e_ability e)) \<or>
    (\<exists>q. finite_sum (map e_physical (in_window cutoff es)) = Some q \<and> rnd q = PosInf)"
  shows "\<exists>err. cumulative_of rnd w cutoff es = Inl err"
proof (cases "\<exists>e \<in> set es. \<not> e_ts e < cutoff \<and> py_truth (e_ability e) \<and> \<not> dict_key (e_ability e)")
  case True
  then have "\<exists>err. tally rnd cutoff c es = Inl err" for c
  proof (induction es arbitrary: c)
    case (Cons e es)
    then show ?case
      by (cases "tally_entry rnd c e") (auto simp: tally_entry_def split: if_splits)
  qed simp
  then show ?thesis by (metis bindE.simps(1) cumulative_of_def)
next
  case False
  then obtain q where "finite_sum (map e_physical (in_window cutoff es)) = Some q" "rnd q = PosInf"
    using assms by blast
  then have "fsum rnd (map e_physical (in_window cutoff es)) = Inl LOverflowError" by (simp add: fsum_def)
  then show ?thesis by (cases "tally rnd cutoff (empty_cumulative w) es") (auto simp: cumulative_of_def)
qed

theorem poisoned_session_witness:
  "\<exists>err. cumulative_of Fin 3600 0 [\<lparr>e_ts = 5, e_verb = JStr ''read'', e_ability = JArr [JNull], e_ext = JStr [],
     e_count = 1, e_amounts = [], e_physical = Fin 0\<rparr>] = Inl err"
  by (rule poisoned_session) (simp add: dict_key_def)

section \<open>The mount of a path\<close>

definition candidates :: "string \<Rightarrow> string list \<Rightarrow> (string \<times> string) list" where
  "candidates target lines = filter (\<lambda>p. under_mount target (fst p)) (List.map_filter mount_fields lines)"

definition longest_mount :: "(string \<times> string) list \<Rightarrow> string \<times> string \<Rightarrow> bool" where
  "longest_mount ps best \<longleftrightarrow>
     (if ps = [] then best = ([], []) else best \<in> set ps \<and> (\<forall>p \<in> set ps. length (fst p) \<le> length (fst best)))"

lemma candidates_snoc:
  "candidates target (ls @ [l]) = candidates target ls @
     (case mount_fields l of Some p \<Rightarrow> if under_mount target (fst p) then [p] else [] | None \<Rightarrow> [])"
  by (auto simp: candidates_def List.map_filter_def split: option.splits)

text \<open>\<open>parse_mount_for_path\<close> returns a longest mount point containing the path, with its file system type,
  and a pair of empty strings exactly when no line names one.\<close>

theorem parse_mount_longest: "longest_mount (candidates path lines) (parse_mount_for_path path lines)"
proof (induction lines rule: rev_induct)
  case (snoc l ls)
  have step: "parse_mount_for_path path (ls @ [l]) = better_mount path (parse_mount_for_path path ls) l"
    by (simp add: parse_mount_for_path_def)
  show ?case
  proof (cases "mount_fields l")
    case None
    then show ?thesis using snoc by (simp add: step better_mount_def candidates_snoc)
  next
    case (Some p)
    then show ?thesis using snoc
      by (cases p; cases "candidates path ls = []")
        (auto simp: step better_mount_def candidates_snoc longest_mount_def)
  qed
qed (simp add: parse_mount_for_path_def candidates_def longest_mount_def List.map_filter_def)

end
