(* ===== verification/Guard.thy ===== *)
theory Guard
  imports Prelude
begin

text \<open>
  \<open>session_guard\<close> of \<open>app/ledger.py\<close>: a re-entrant thread lock per stripe and process, and a POSIX record
  lock on the stripe's byte of the lock file, which belongs to a process. A thread takes the thread
  lock, then, at its outermost entry only, the record lock; without a lock file it goes on with the
  thread lock alone. Then the cycle that the guard is for: threads of several processes that read the
  spending of a session, decide on it and record an action.
\<close>

section \<open>One stripe\<close>

text \<open>\<open>g_inside\<close>: the body of the \<open>with\<close> runs; \<open>g_locked\<close>: the record lock was obtained for it.\<close>

record gproc =
  g_owner :: "nat option"
  g_depth :: nat
  g_inside :: bool
  g_locked :: bool

definition idle :: gproc where
  "idle = \<lparr>g_owner = None, g_depth = 0, g_inside = False, g_locked = False\<rparr>"

record guard =
  gs_proc :: "nat \<Rightarrow> gproc"
  gs_byte :: "nat option"

definition put_proc :: "nat \<Rightarrow> gproc \<Rightarrow> guard \<Rightarrow> guard" where
  "put_proc p gp g = g\<lparr>gs_proc := (gs_proc g)(p := gp)\<rparr>"

text \<open>The operations return \<open>None\<close> where the caller blocks or the operation does not apply.\<close>

definition thread_lock :: "nat \<Rightarrow> nat \<Rightarrow> guard \<Rightarrow> guard option" where
  "thread_lock p t g =
     (let gp = gs_proc g p
      in if g_owner gp = None then Some (put_proc p (gp\<lparr>g_owner := Some t, g_depth := 1\<rparr>) g)
         else if g_owner gp = Some t \<and> g_inside gp then Some (put_proc p (gp\<lparr>g_depth := Suc (g_depth gp)\<rparr>) g)
         else None)"

text \<open>\<open>_byte_lock\<close> of the outermost entry; \<open>usable\<close>: the lock file is open and \<open>lockf\<close> succeeds.\<close>

definition byte_lock :: "bool \<Rightarrow> nat \<Rightarrow> nat \<Rightarrow> guard \<Rightarrow> guard option" where
  "byte_lock usable p t g =
     (let gp = gs_proc g p
      in if g_owner gp \<noteq> Some t \<or> g_inside gp then None
         else if \<not> usable then Some (put_proc p (gp\<lparr>g_inside := True\<rparr>) g)
         else if gs_byte g \<in> {None, Some p}
         then Some ((put_proc p (gp\<lparr>g_inside := True, g_locked := True\<rparr>) g)\<lparr>gs_byte := Some p\<rparr>)
         else None)"

definition byte_unlock :: "nat \<Rightarrow> guard \<Rightarrow> guard" where
  "byte_unlock p g = g\<lparr>gs_byte := (if gs_byte g = Some p then None else gs_byte g)\<rparr>"

text \<open>The \<open>finally\<close> block.\<close>

definition leave :: "nat \<Rightarrow> nat \<Rightarrow> guard \<Rightarrow> guard option" where
  "leave p t g =
     (let gp = gs_proc g p
      in if g_owner gp \<noteq> Some t \<or> \<not> g_inside gp then None
         else if g_depth gp = 1 then Some (put_proc p idle (byte_unlock p g))
         else Some (put_proc p (gp\<lparr>g_depth := g_depth gp - 1\<rparr>) g))"

text \<open>A process that dies loses its locks.\<close>

definition die :: "nat \<Rightarrow> guard \<Rightarrow> guard" where
  "die p g = put_proc p idle (byte_unlock p g)"

definition free_guard :: guard where
  "free_guard = \<lparr>gs_proc = (\<lambda>_. idle), gs_byte = None\<rparr>"

text \<open>With \<open>usable\<close> the lock file always works; without, any attempt may fail.\<close>

inductive guard_step :: "bool \<Rightarrow> guard \<Rightarrow> guard \<Rightarrow> bool" for usable where
  enter: "thread_lock p t g = Some g' \<Longrightarrow> guard_step usable g g'"
| lock: "byte_lock works p t g = Some g' \<Longrightarrow> (usable \<longrightarrow> works) \<Longrightarrow> guard_step usable g g'"
| leave: "leave p t g = Some g' \<Longrightarrow> guard_step usable g g'"
| die: "guard_step usable g (die p g)"

definition inside :: "guard \<Rightarrow> nat \<Rightarrow> nat \<Rightarrow> bool" where
  "inside g p t \<longleftrightarrow> g_owner (gs_proc g p) = Some t \<and> g_inside (gs_proc g p)"

text \<open>The record lock is held exactly by the process that is inside with it, and depths count the entries.\<close>

definition proc_ok :: "nat option \<Rightarrow> nat \<Rightarrow> gproc \<Rightarrow> bool" where
  "proc_ok byte p gp \<longleftrightarrow>
     (if g_owner gp = None then gp = idle else 0 < g_depth gp) \<and> (g_locked gp \<longrightarrow> g_inside gp) \<and>
     (byte = Some p \<longleftrightarrow> g_locked gp)"

definition guard_ok :: "guard \<Rightarrow> bool" where
  "guard_ok g \<longleftrightarrow> (\<forall>p. proc_ok (gs_byte g) p (gs_proc g p))"

lemma put_proc_same [simp]: "gs_byte (put_proc p gp g) = gs_byte g"
  "gs_proc (put_proc p gp g) = (gs_proc g)(p := gp)"
  by (simp_all add: put_proc_def)

lemma byte_unlock_same [simp]: "gs_proc (byte_unlock p g) = gs_proc g"
  "gs_byte (byte_unlock p g) = (if gs_byte g = Some p then None else gs_byte g)"
  by (simp_all add: byte_unlock_def)

lemma idle_fields [simp]: "g_owner idle = None" "g_locked idle = False" "g_inside idle = False"
  by (simp_all add: idle_def)

lemma guard_ok_free: "guard_ok free_guard"
  by (simp add: guard_ok_def proc_ok_def free_guard_def)

lemma guard_ok_update:
  assumes "guard_ok g" "proc_ok (gs_byte g') p (gs_proc g' p)"
    and "\<And>q. q \<noteq> p \<Longrightarrow> gs_proc g' q = gs_proc g q \<and> (gs_byte g' = Some q \<longleftrightarrow> gs_byte g = Some q)"
  shows "guard_ok g'"
  unfolding guard_ok_def
proof
  fix q
  show "proc_ok (gs_byte g') q (gs_proc g' q)"
  proof (cases "q = p")
    case False
    then show ?thesis using assms(1) assms(3) [OF False] by (simp add: guard_ok_def proc_ok_def)
  qed (use assms(2) in simp)
qed

lemma guard_okD: "guard_ok g \<Longrightarrow> proc_ok (gs_byte g) p (gs_proc g p)"
  by (simp add: guard_ok_def)

lemma guard_ok_die: "guard_ok g \<Longrightarrow> guard_ok (die p g)"
  by (erule guard_ok_update [where p = p]) (auto simp: die_def proc_ok_def)

lemma guard_ok_enter:
  assumes "guard_ok g" "thread_lock p t g = Some g'" shows "guard_ok g'"
  by (rule guard_ok_update [OF assms(1), of _ p])
    (use assms(2) guard_okD [OF assms(1), of p] in
      \<open>auto simp: thread_lock_def proc_ok_def Let_def split: if_splits\<close>)

lemma guard_ok_lock:
  assumes "guard_ok g" "byte_lock usable p t g = Some g'" shows "guard_ok g'"
  by (rule guard_ok_update [OF assms(1), of _ p])
    (use assms(2) guard_okD [OF assms(1), of p] in
      \<open>auto simp: byte_lock_def proc_ok_def Let_def split: if_splits\<close>)

lemma guard_ok_leave:
  assumes "guard_ok g" "leave p t g = Some g'" shows "guard_ok g'"
  by (rule guard_ok_update [OF assms(1), of _ p])
    (use assms(2) guard_okD [OF assms(1), of p] in
      \<open>auto simp: leave_def proc_ok_def Let_def split: if_splits\<close>)

lemma guard_ok_step: "guard_step usable g g' \<Longrightarrow> guard_ok g \<Longrightarrow> guard_ok g'"
  by (cases rule: guard_step.cases) (auto intro: guard_ok_enter guard_ok_lock guard_ok_leave guard_ok_die)

lemma guard_ok_reach: "(guard_step usable)\<^sup>*\<^sup>* free_guard g \<Longrightarrow> guard_ok g"
  by (induction rule: rtranclp_induct) (auto intro: guard_ok_step guard_ok_free)

text \<open>Two threads are never inside one stripe's guard together: not two of one process, and not two of
  different processes that both obtained the record lock.\<close>

theorem guard_excludes:
  assumes "(guard_step usable)\<^sup>*\<^sup>* free_guard g" "inside g p t" "inside g p' t'"
    and "p = p' \<or> g_locked (gs_proc g p) \<and> g_locked (gs_proc g p')"
  shows "p = p' \<and> t = t'"
proof -
  have ok: "proc_ok (gs_byte g) r (gs_proc g r)" for r using guard_ok_reach [OF assms(1)] by (rule guard_okD)
  have "p = p'" using assms(4) ok [of p] ok [of p'] by (auto simp: proc_ok_def)
  then show ?thesis using assms(2,3) by (simp add: inside_def)
qed

definition sample_guard :: guard where
  "sample_guard = the (byte_lock True 0 7 (the (thread_lock 0 7 free_guard)))"

lemma sample_guard_reach: "(guard_step True)\<^sup>*\<^sup>* free_guard sample_guard"
proof -
  have "guard_step True free_guard (the (thread_lock 0 7 free_guard))"
    by (rule enter [of 0 7]) (simp add: thread_lock_def free_guard_def)
  moreover have "guard_step True (the (thread_lock 0 7 free_guard)) sample_guard"
    by (rule lock [of True 0 7])
      (simp_all add: sample_guard_def byte_lock_def thread_lock_def free_guard_def idle_def)
  ultimately show ?thesis by (rule converse_rtranclp_into_rtranclp [OF _ r_into_rtranclp])
qed

lemma sample_guard_inside: "inside sample_guard 0 7" "g_locked (gs_proc sample_guard 0)"
  by (simp_all add: sample_guard_def byte_lock_def thread_lock_def free_guard_def idle_def inside_def)

theorem guard_excludes_witness:
  "{(p, t). inside sample_guard p t \<and> g_locked (gs_proc sample_guard p)} = {(0, 7)}"
  using guard_excludes [OF sample_guard_reach sample_guard_inside(1)] sample_guard_inside by blast

section \<open>The guard is always released\<close>

lemma leave_all:
  assumes "guard_ok g" "inside g q t"
  shows "\<exists>g'. (guard_step usable)\<^sup>*\<^sup>* g g' \<and> gs_proc g' = (gs_proc g)(q := idle) \<and>
    gs_byte g' = (if gs_byte g = Some q then None else gs_byte g)"
  using assms
proof (induction "g_depth (gs_proc g q)" arbitrary: g rule: less_induct)
  case less
  let ?gp = "gs_proc g q"
  have gp: "g_owner ?gp = Some t" "g_inside ?gp" using less.prems(2) by (simp_all add: inside_def)
  then have d: "0 < g_depth ?gp" using guard_okD [OF less.prems(1), of q] by (simp add: proc_ok_def)
  show ?case
  proof (cases "g_depth ?gp = 1")
    case True
    then have "leave q t g = Some (put_proc q idle (byte_unlock q g))" using gp by (simp add: leave_def)
    then have "guard_step usable g (put_proc q idle (byte_unlock q g))" by (rule guard_step.leave)
    then show ?thesis by (intro exI [of _ "put_proc q idle (byte_unlock q g)"]) auto
  next
    case False
    let ?g1 = "put_proc q (?gp\<lparr>g_depth := g_depth ?gp - 1\<rparr>) g"
    have l: "leave q t g = Some ?g1" using gp False by (simp add: leave_def Let_def)
    have "\<exists>g'. (guard_step usable)\<^sup>*\<^sup>* ?g1 g' \<and> gs_proc g' = (gs_proc ?g1)(q := idle) \<and>
        gs_byte g' = (if gs_byte ?g1 = Some q then None else gs_byte ?g1)"
      by (rule less.hyps) (use d gp guard_ok_leave [OF less.prems(1) l] in \<open>simp_all add: inside_def\<close>)
    then obtain g' where g': "(guard_step usable)\<^sup>*\<^sup>* ?g1 g'" "gs_proc g' = (gs_proc g)(q := idle)"
      "gs_byte g' = (if gs_byte g = Some q then None else gs_byte g)" by auto
    have "(guard_step usable)\<^sup>*\<^sup>* g g'"
      by (rule converse_rtranclp_into_rtranclp [OF guard_step.leave [OF l] g'(1)])
    with g' show ?thesis by blast
  qed
qed



section \<open>Budgets under the guard\<close>

text \<open>Many stripes, one file of charges, and what each process has read inside each stripe. A read is void once
  the process is outside. \<open>stripe\<close> is the stripe of a session, \<open>limit\<close> the most the policy lets a
  session spend.\<close>

record bstate =
  b_guard :: "nat \<Rightarrow> guard"
  b_file :: "(string \<times> int) list"
  b_read :: "nat \<Rightarrow> nat \<Rightarrow> (string \<times> int) option"

definition spent :: "string \<Rightarrow> (string \<times> int) list \<Rightarrow> int" where
  "spent sid f = sum_list (map snd (filter (\<lambda>p. fst p = sid) f))"

inductive budget_step :: "(string \<Rightarrow> nat) \<Rightarrow> (string \<Rightarrow> int) \<Rightarrow> bstate \<Rightarrow> bstate \<Rightarrow> bool" for stripe limit where
  b_locks: "guard_step True (b_guard s k) g' \<Longrightarrow> budget_step stripe limit s
     (s\<lparr>b_guard := (b_guard s)(k := g'),
        b_read := (\<lambda>p k'. if k' = k \<and> \<not> g_inside (gs_proc g' p) then None else b_read s p k')\<rparr>)"
| b_look: "inside (b_guard s (stripe sid)) p t \<Longrightarrow> budget_step stripe limit s
     (s\<lparr>b_read := (b_read s)(p := (b_read s p)(stripe sid := Some (sid, spent sid (b_file s))))\<rparr>)"
| b_write: "b_read s p k = Some (sid, tot) \<Longrightarrow> 1 \<le> charge \<Longrightarrow> tot + charge \<le> limit sid \<Longrightarrow>
     budget_step stripe limit s
       (s\<lparr>b_file := b_file s @ [(sid, charge)], b_read := (b_read s)(p := (b_read s p)(k := None))\<rparr>)"

definition b_start :: bstate where
  "b_start = \<lparr>b_guard = (\<lambda>_. free_guard), b_file = [], b_read = (\<lambda>_ _. None)\<rparr>"

definition b_ok :: "(string \<Rightarrow> nat) \<Rightarrow> (string \<Rightarrow> int) \<Rightarrow> bstate \<Rightarrow> bool" where
  "b_ok stripe limit s \<longleftrightarrow>
     (\<forall>k. guard_ok (b_guard s k) \<and> (\<forall>p. g_inside (gs_proc (b_guard s k) p) \<longrightarrow> g_locked (gs_proc (b_guard s k) p))) \<and>
     (\<forall>p k sid tot. b_read s p k = Some (sid, tot) \<longrightarrow>
        stripe sid = k \<and> tot = spent sid (b_file s) \<and> g_inside (gs_proc (b_guard s k) p)) \<and>
     (\<forall>sid. spent sid (b_file s) \<le> max 0 (limit sid))"

lemma spent_snoc: "spent sid (f @ [(sid', n)]) = spent sid f + (if sid = sid' then n else 0)"
  by (simp add: spent_def)

lemma locked_alone:
  assumes "guard_ok g" "g_locked (gs_proc g p)" "g_locked (gs_proc g p')" shows "p = p'"
  using guard_okD [OF assms(1), of p] guard_okD [OF assms(1), of p'] assms(2,3) by (auto simp: proc_ok_def)

lemma locked_step:
  assumes "guard_step True g g'" "\<forall>p. g_inside (gs_proc g p) \<longrightarrow> g_locked (gs_proc g p)"
  shows "\<forall>p. g_inside (gs_proc g' p) \<longrightarrow> g_locked (gs_proc g' p)"
  using assms
  by (cases rule: guard_step.cases)
    (auto simp: thread_lock_def byte_lock_def leave_def die_def Let_def split: if_splits)

lemma b_ok_step:
  assumes "budget_step stripe limit s s'" "b_ok stripe limit s"
  shows "b_ok stripe limit s'"
  using assms(1)
proof cases
  case (b_locks k g')
  then show ?thesis using assms(2) guard_ok_step [OF b_locks(2)] locked_step [OF b_locks(2)]
    by (auto simp: b_ok_def)
next
  case (b_look sid p t)
  then show ?thesis using assms(2) by (auto simp: b_ok_def inside_def)
next
  case (b_write p k sid tot charge)
  have r: "stripe sid = k" "tot = spent sid (b_file s)" "g_inside (gs_proc (b_guard s k) p)"
    using assms(2) b_write(2) by (auto simp: b_ok_def)
  have alone: "p' = p" if "b_read s p' k' = Some (sid, tot')" for p' k' tot'
  proof -
    have "k' = k" "g_inside (gs_proc (b_guard s k) p')" using assms(2) that r(1) by (auto simp: b_ok_def)
    then show ?thesis using assms(2) r(3) locked_alone [of "b_guard s k"] by (auto simp: b_ok_def)
  qed
  have reads: "stripe sid' = k' \<and> tot' = spent sid' (b_file s @ [(sid, charge)]) \<and> g_inside (gs_proc (b_guard s k') p')"
    if "((b_read s)(p := (b_read s p)(k := None))) p' k' = Some (sid', tot')" for p' k' sid' tot'
  proof -
    have old: "b_read s p' k' = Some (sid', tot')" "\<not> (p' = p \<and> k' = k)"
      using that by (auto split: if_splits)
    have was: "stripe sid' = k'" "tot' = spent sid' (b_file s)" "g_inside (gs_proc (b_guard s k') p')"
      using assms(2) old(1) by (auto simp: b_ok_def)
    have "sid' \<noteq> sid" using alone old was(1) r(1) by blast
    then show ?thesis using was by (simp add: spent_snoc)
  qed
  have "spent sid' (b_file s @ [(sid, charge)]) \<le> max 0 (limit sid')" for sid'
  proof (cases "sid' = sid")
    case True
    then show ?thesis using r(2) b_write(4) by (simp add: spent_snoc)
  next
    case False
    then show ?thesis using assms(2) by (simp add: b_ok_def spent_snoc)
  qed
  then show ?thesis using assms(2) b_write(1) reads by (simp add: b_ok_def)
qed



end
