(* ===== verification/FieldTreatments.thy ===== *)
theory FieldTreatments
  imports Envelope Principal Holds Ledger
begin

text \<open>
  \<open>app/field_treatments.py\<close>: the declared treatment of every caller-supplied field the decision path
  reads, the paths an approval binds, and the lists of paths the ledger and the decision handler
  declare. The prose fields of an entry are left out; a closed set is the list of its members.
\<close>

section \<open>The table\<close>

datatype treatment_kind = Canonicalise | Validate | Verify | CoreComputed

text \<open>\<open>Unbound\<close> is the default empty binding of an entry that declares none.\<close>

datatype binding = BindHash | BindValue | BindActor | BindNone | Unbound

record treatment =
  t_kind :: treatment_kind
  t_closed :: "string list"
  t_default :: string
  t_unverifiable :: bool
  t_binding :: binding

definition env_tiers :: "string list" where
  "env_tiers = remdups (map snd env_canon)"

definition enum_field :: "string list \<Rightarrow> string \<Rightarrow> binding \<Rightarrow> treatment" where
  "enum_field members dflt b = \<lparr>t_kind = Canonicalise, t_closed = members, t_default = dflt,
     t_unverifiable = True, t_binding = b\<rparr>"

definition checked_field :: "treatment_kind \<Rightarrow> bool \<Rightarrow> binding \<Rightarrow> treatment" where
  "checked_field k unverifiable b =
     \<lparr>t_kind = k, t_closed = [], t_default = [], t_unverifiable = unverifiable, t_binding = b\<rparr>"

definition axis_default :: "string \<Rightarrow> string" where
  "axis_default axis = (case map_of axis_defaults axis of None \<Rightarrow> [] | Some d \<Rightarrow> d)"

definition axis_field :: "string \<Rightarrow> treatment" where
  "axis_field axis = enum_field (axis_members axis) (axis_default axis) BindHash"

definition treatments_axes :: "(string \<times> treatment) list" where
  "treatments_axes =
     [(''axes.reversibility'', axis_field ''reversibility''),
      (''axes.blast_radius'', axis_field ''blast_radius''),
      (''axes.externality'', axis_field ''externality'')]"

definition treatments_target :: "(string \<times> treatment) list" where
  "treatments_target =
     [(''target.environment'', enum_field env_tiers env_default BindHash),
      (''target.ref'', enum_field [] [] BindHash)]"

definition treatments_verb_approval :: "(string \<times> treatment) list" where
  "treatments_verb_approval =
     [(''action.verb'', enum_field spec_verbs [] BindHash),
      (''approval.present'', checked_field Verify False BindNone),
      (''approval.hold_id'', checked_field Verify False BindNone)]"

definition treatments_magnitude :: "(string \<times> treatment) list" where
  "treatments_magnitude =
     [(''magnitude.count'', checked_field Validate True BindHash),
      (''target.safety_function'', checked_field Validate True BindHash),
      (''magnitude.physical'', checked_field Validate True BindHash)]"

definition treatments_params :: "(string \<times> treatment) list" where
  "treatments_params =
     [(''params.amount'', checked_field Validate True BindValue),
      (''params.currency'', enum_field [] currency_undeclared BindValue)]"

definition treatments_agent :: "(string \<times> treatment) list" where
  "treatments_agent =
     [(''agent.id'', enum_field [] [] BindActor),
      (''agent.on_behalf_of'', enum_field [] [] BindActor),
      (''agent.session_id'', checked_field Validate True BindActor),
      (''action.ability'', enum_field [] [] BindHash)]"

definition treatments_core :: "(string \<times> treatment) list" where
  "treatments_core =
     map (\<lambda>path. (path, checked_field CoreComputed False Unbound))
       [''cumulative'', ''cumulative.total_count'', ''cumulative.count_by_verb'',
        ''cumulative.count_by_externality'', ''cumulative.sum_physical_envelope'',
        ''cumulative.amount_by_currency'', ''provenance.undeclared'']"

definition treatments :: "(string \<times> treatment) list" where
  "treatments = treatments_axes @ treatments_target @ treatments_verb_approval @ treatments_magnitude
     @ treatments_params @ treatments_agent @ treatments_core"

section \<open>What is derived from it\<close>

definition hash_covered_blocks :: "string list" where
  "hash_covered_blocks = [''action'', ''axes'', ''magnitude'', ''target'']"

definition paths_bound_by :: "binding \<Rightarrow> string list" where
  "paths_bound_by b = sort (map fst (filter (\<lambda>p. t_binding (snd p) = b) treatments))"

definition approval_bound_paths :: "string list" where
  "approval_bound_paths = paths_bound_by BindValue"

definition approval_actor_paths :: "string list" where
  "approval_actor_paths = paths_bound_by BindActor"

definition undeclared :: "string list \<Rightarrow> string list" where
  "undeclared paths = filter (\<lambda>p. p \<notin> fst ` set treatments) paths"

definition unverifiable_assertions :: "string list" where
  "unverifiable_assertions = map fst (filter (\<lambda>p. t_unverifiable (snd p)) treatments)"

definition truncate_path :: "string list \<Rightarrow> string" where
  "truncate_path parts = join_with ''.'' (take 2 parts)"

section \<open>The declared readers\<close>

definition ledger_envelope_paths :: "string list" where
  "ledger_envelope_paths =
     [''action.verb'', ''action.ability'', ''axes.externality'', ''magnitude.count'',
      ''magnitude.physical'', ''params.amount'', ''params.currency'']"

definition decide_envelope_paths :: "string list" where
  "decide_envelope_paths =
     [''agent.session_id'', ''agent.id'', ''agent.on_behalf_of'', ''action.verb'', ''approval.present'',
      ''approval.hold_id'', ''params.amount'', ''params.currency'']"

text \<open>\<open>path.partition(".")\<close>: the block and the leaf of a path.\<close>

definition path_block :: "string \<Rightarrow> string" where
  "path_block path = before_first CHR ''.'' path"

definition path_leaf :: "string \<Rightarrow> string" where
  "path_leaf path = after_first CHR ''.'' path"

definition path_value :: "dict \<Rightarrow> string \<Rightarrow> json" where
  "path_value envelope path = dget (as_obj (dget envelope (path_block path))) (path_leaf path)"

text \<open>The table leaves no decision input unbound: every path that the ledger or the decision handler
  declares is in it, every entry that core does not compute is bound to an approval except the two
  fields that name the approval, the paths bound by hash are those of the blocks that the hash of an
  envelope projects, the paths bound by value are \<open>params.amount\<close> and \<open>params.currency\<close>, and those
  bound by actor are the fields of the approval's actor key.\<close>

theorem treatments_bind_inputs:
  "undeclared (ledger_envelope_paths @ decide_envelope_paths) = [] \<and>
   list_all (\<lambda>p. t_kind (snd p) = CoreComputed \<or>
      t_binding (snd p) \<in> {BindHash, BindValue, BindActor} \<or> path_block (fst p) = ''approval'') treatments \<and>
   filter (\<lambda>p. t_binding (snd p) = BindHash) treatments =
      filter (\<lambda>p. path_block (fst p) \<in> set hash_allowlist) treatments \<and>
   approval_bound_paths = [''params.amount'', ''params.currency''] \<and>
   set approval_actor_paths = (\<lambda>field. ''agent.'' @ field) ` set actor_fields \<and>
   distinct (map fst treatments)"
proof (intro conjI)
  show "undeclared (ledger_envelope_paths @ decide_envelope_paths) = []" by code_simp
  show "list_all (\<lambda>p. t_kind (snd p) = CoreComputed \<or>
      t_binding (snd p) \<in> {BindHash, BindValue, BindActor} \<or> path_block (fst p) = ''approval'') treatments" by code_simp
  show "filter (\<lambda>p. t_binding (snd p) = BindHash) treatments =
      filter (\<lambda>p. path_block (fst p) \<in> set hash_allowlist) treatments"
    by code_simp
  show "approval_bound_paths = [''params.amount'', ''params.currency'']" by code_simp
  show "set approval_actor_paths = (\<lambda>field. ''agent.'' @ field) ` set actor_fields" by code_simp
  show "distinct (map fst treatments)" by code_simp
qed

end
