(* ===== verification/Opa.thy ===== *)
theory Opa
  imports Prelude
begin

text \<open>
  \<open>app/opa.py\<close>: one \<open>opa eval\<close> per query. The policy engine is a program outside the repository: it is a
  parameter, a function from the query and the input to how the run of the program ended. What this
  module does with that outcome is modelled: every failure is an \<open>OpaEvalError\<close>, apart from the float
  conversions that Python itself raises on.
\<close>

text \<open>How a run ends. \<open>OpaExit\<close> is an exit code other than 0; \<open>OpaOutput\<close> is exit code 0, with the decoded
  standard output (\<open>None\<close> when it is not JSON).\<close>

datatype opa_run =
    OpaMissing
  | OpaTimedOut
  | OpaOsError
  | OpaExit int
  | OpaOutput "json option"

type_synonym engine = "string \<Rightarrow> json \<Rightarrow> opa_run"

datatype opa_exc = OpaEvalError | OpaFloatError

definition decision_query :: string where
  "decision_query =
     ''{\"decision\": data.reeflex.policy.decision, '' @
     ''\"ledger_charge\": data.reeflex.policy.ledger_charge}''"

definition charge_query :: string where
  "charge_query = ''data.reeflex.policy.ledger_charge''"

text \<open>\<open>j["k"]\<close> and \<open>j[0]\<close>, \<open>None\<close> where Python raises. A character of a text is no container, so the key access
  that follows \<open>[0]\<close> raises on it as well.\<close>

fun item_key :: "string \<Rightarrow> json \<Rightarrow> json option" where
  "item_key k (JObj d) = map_of d k"
| "item_key k _ = None"

fun item_first :: "json \<Rightarrow> json option" where
  "item_first (JArr (x # xs)) = Some x"
| "item_first _ = None"

definition result_value :: "json \<Rightarrow> json option" where
  "result_value parsed =
     Option.bind (item_key ''result'' parsed) (\<lambda>r.
     Option.bind (item_first r) (\<lambda>r0.
     Option.bind (item_key ''expressions'' r0) (\<lambda>e.
     Option.bind (item_first e) (item_key ''value''))))"

definition eval_query :: "engine \<Rightarrow> string \<Rightarrow> json \<Rightarrow> opa_exc + json" where
  "eval_query opa query policy_input =
     (case opa query policy_input of
        OpaOutput (Some parsed) \<Rightarrow>
          (case result_value parsed of Some v \<Rightarrow> Inr v | None \<Rightarrow> Inl OpaEvalError)
      | OpaOutput None \<Rightarrow> Inl OpaEvalError
      | OpaExit code \<Rightarrow> Inl OpaEvalError
      | OpaMissing \<Rightarrow> Inl OpaEvalError
      | OpaTimedOut \<Rightarrow> Inl OpaEvalError
      | OpaOsError \<Rightarrow> Inl OpaEvalError)"

text \<open>\<open>int(x)\<close> truncates towards zero.\<close>

definition trunc :: "rat \<Rightarrow> int" where
  "trunc x = (if 0 \<le> x then \<lfloor>x\<rfloor> else - \<lfloor>- x\<rfloor>)"

fun coerce_charge :: "json \<Rightarrow> opa_exc + int" where
  "coerce_charge (JInt n) = (if n < 1 then Inl OpaEvalError else Inr n)"
| "coerce_charge (JFloat (Fin x)) = (if trunc x < 1 then Inl OpaEvalError else Inr (trunc x))"
| "coerce_charge (JFloat _) = Inl OpaFloatError"
| "coerce_charge _ = Inl OpaEvalError"

record opa_result =
  o_decision :: json
  o_reason :: json
  o_rule :: json
  o_obligations :: "json list"
  o_charge :: int

definition truthy_obj :: "json \<Rightarrow> dict option" where
  "truthy_obj j = (case j of JObj d \<Rightarrow> if d = [] then None else Some d | _ \<Rightarrow> None)"

definition evaluate :: "engine \<Rightarrow> json \<Rightarrow> opa_exc + opa_result" where
  "evaluate opa policy_input =
     bindE (eval_query opa decision_query policy_input) (\<lambda>value.
       case truthy_obj value of
         None \<Rightarrow> Inl OpaEvalError
       | Some v \<Rightarrow>
           (case truthy_obj (dget v ''decision'') of
              None \<Rightarrow> Inl OpaEvalError
            | Some doc \<Rightarrow>
                if \<not> py_truth (dget doc ''decision'') then Inl OpaEvalError
                else
                  bindE (coerce_charge (dget v ''ledger_charge'')) (\<lambda>charge.
                    Inr \<lparr>o_decision = dget doc ''decision'',
                         o_reason = dget_or doc ''reason'' (JStr []),
                         o_rule = dget_or doc ''rule'' (JStr []),
                         o_obligations = (case dget_or doc ''obligations'' (JArr []) of JArr xs \<Rightarrow> xs | _ \<Rightarrow> []),
                         o_charge = charge\<rparr>)))"

definition evaluate_ledger_charge :: "engine \<Rightarrow> json \<Rightarrow> opa_exc + int" where
  "evaluate_ledger_charge opa policy_input = bindE (eval_query opa charge_query policy_input) coerce_charge"

section \<open>What it accepts\<close>

lemma coerce_charge_positive: "coerce_charge j = Inr n \<Longrightarrow> 1 \<le> n"
  by (cases j rule: coerce_charge.cases) (auto split: if_splits)

text \<open>A document that counts as an evaluation: an object with a decision object and a charge.\<close>

definition verdict_document :: "json \<Rightarrow> bool" where
  "verdict_document value \<longleftrightarrow>
     (\<exists>v doc n. value = JObj v \<and> map_of v ''decision'' = Some (JObj doc) \<and>
        py_truth (dget doc ''decision'') \<and> coerce_charge (dget v ''ledger_charge'') = Inr n)"

lemma truthy_obj_Some: "truthy_obj j = Some d \<longleftrightarrow> j = JObj d \<and> d \<noteq> []"
  by (cases j) (auto simp: truthy_obj_def)

lemma truthy_obj_None: "truthy_obj j = None \<longleftrightarrow> \<not> (\<exists>d. j = JObj d \<and> d \<noteq> [])"
  by (cases j) (auto simp: truthy_obj_def)

lemma evaluate_Inr:
  assumes "evaluate opa inp = Inr r"
  obtains v doc where "eval_query opa decision_query inp = Inr (JObj v)" "dget v ''decision'' = JObj doc"
    "py_truth (o_decision r)" "o_decision r = dget doc ''decision''" "1 \<le> o_charge r"
    "coerce_charge (dget v ''ledger_charge'') = Inr (o_charge r)"
proof -
  obtain j where j: "eval_query opa decision_query inp = Inr j"
    using assms by (cases "eval_query opa decision_query inp") (auto simp: evaluate_def)
  obtain v where v: "truthy_obj j = Some v"
    using assms j by (cases "truthy_obj j") (auto simp: evaluate_def)
  obtain doc where doc: "truthy_obj (dget v ''decision'') = Some doc"
    using assms j v by (cases "truthy_obj (dget v ''decision'')") (auto simp: evaluate_def)
  have t: "py_truth (dget doc ''decision'')"
    using assms j v doc by (auto simp: evaluate_def split: if_splits)
  obtain n where n: "coerce_charge (dget v ''ledger_charge'') = Inr n"
    using assms j v doc t by (cases "coerce_charge (dget v ''ledger_charge'')") (auto simp: evaluate_def)
  have "o_decision r = dget doc ''decision''" "o_charge r = n"
    using assms j v doc t n by (auto simp: evaluate_def)
  then show thesis using that j v doc t n coerce_charge_positive by (auto simp: truthy_obj_Some)
qed

text \<open>C16: an evaluation succeeds only on a run with exit code 0 whose output is JSON with a value at
  \<open>result[0].expressions[0]\<close> that carries a decision and a number that is at least 1; then the verdict is
  the document's own and the charge is that number, truncated. Every other outcome raises.\<close>

theorem evaluate_fails_closed:
  "(case evaluate opa inp of
      Inr r \<Rightarrow> (\<exists>parsed v. opa decision_query inp = OpaOutput (Some parsed) \<and> result_value parsed = Some (JObj v) \<and>
          verdict_document (JObj v) \<and> o_decision r = dget (as_obj (dget v ''decision'')) ''decision'' \<and>
          coerce_charge (dget v ''ledger_charge'') = Inr (o_charge r) \<and> 1 \<le> o_charge r)
    | Inl e \<Rightarrow> \<not> (\<exists>parsed value. opa decision_query inp = OpaOutput (Some parsed) \<and>
          result_value parsed = Some value \<and> verdict_document value))"
proof (cases "evaluate opa inp")
  case (Inr r)
  then obtain v doc where v: "eval_query opa decision_query inp = Inr (JObj v)" "dget v ''decision'' = JObj doc"
    "py_truth (o_decision r)" "o_decision r = dget doc ''decision''" "1 \<le> o_charge r"
    "coerce_charge (dget v ''ledger_charge'') = Inr (o_charge r)"
    by (rule evaluate_Inr)
  have "\<exists>parsed. opa decision_query inp = OpaOutput (Some parsed) \<and> result_value parsed = Some (JObj v)"
    using v(1) by (auto simp: eval_query_def split: opa_run.splits option.splits)
  moreover have "verdict_document (JObj v)"
    using v by (auto simp: verdict_document_def dget_def split: option.splits)
  ultimately show ?thesis using Inr v by auto
next
  case (Inl e)
  have "\<not> verdict_document val"
    if "opa decision_query inp = OpaOutput (Some parsed)" "result_value parsed = Some val" for parsed val
  proof
    assume "verdict_document val"
    then obtain v doc n where v: "val = JObj v" "map_of v ''decision'' = Some (JObj doc)"
      "py_truth (dget doc ''decision'')" "coerce_charge (dget v ''ledger_charge'') = Inr n"
      unfolding verdict_document_def by blast
    have "v \<noteq> []" "doc \<noteq> []" "dget v ''decision'' = JObj doc" using v(2,3) by (auto simp: dget_def)
    with v show False using Inl that by (simp add: evaluate_def eval_query_def truthy_obj_def)
  qed
  then show ?thesis using Inl by auto
qed

end
