(* ===== verification/Decide.thy ===== *)
theory Decide
  imports Envelope Principal Holds Ledger FieldTreatments Opa
begin

text \<open>
  \<open>app/decide.py\<close>: the handler of \<open>POST /v1/decide\<close>. A request is one computation on the state of the
  process and its volume: validation, freeze, the approval chain of a resubmission, or the
  read-decide-write cycle around the policy engine. The Unicode database, the rounding of doubles, the
  clock texts, the digest and the engine are in a record \<open>deps\<close>; what the environment does to one
  request (settings, clock readings, fresh identifiers, I/O outcomes) is in a record \<open>call_env\<close>.

  The record-lock guard around the cycle is not a step of its own here: the cycle is one computation.
  Audit and telemetry are best-effort: the model lists what is sent, not whether it arrives.
\<close>

section \<open>State\<close>

record deps =
  dp_ucd :: ucd
  dp_rnd :: "rat \<Rightarrow> pyfloat"
  dp_clk :: clock
  dp_digest :: "json \<Rightarrow> string"
  dp_opa :: engine

record call_env =
  q_freeze :: "string option"
  q_window :: int
  q_ttl :: int
  q_decision_id :: string
  q_hold_id :: string
  q_get_now :: rat
  q_get_io :: hio
  q_expired_now :: rat
  q_consume_now :: rat
  q_consume_io :: hio
  q_create_now :: rat
  q_create_io :: hio
  q_lenv :: lenv
  q_compute_now :: rat
  q_prune_now :: rat
  q_append_now :: rat
  q_new_key :: nat
  q_line_size :: nat

record audit_call =
  au_session :: string
  au_envelope :: dict
  au_cumulative :: json
  au_response :: dict
  au_decision_id :: string
  au_hold_id :: json
  au_expires_ts :: json
  au_hash :: string
  au_parent :: json
  au_traceparent :: string

datatype notice =
    FreezeFlipped bool
  | HoldCreated dict
  | Audit audit_call
  | Telemetry audit_call

record core =
  k_seen :: "json list"
  k_holds :: hs
  k_file :: "lfile option"
  k_ledger :: lstore
  k_freeze :: "bool option"
  k_out :: "notice list"

definition notify :: "notice \<Rightarrow> core \<Rightarrow> core" where
  "notify n k = k\<lparr>k_out := k_out k @ [n]\<rparr>"

section \<open>Responses\<close>

definition deny_response :: "string \<Rightarrow> string \<Rightarrow> dict" where
  "deny_response reason rule =
     [(''decision'', JStr ''deny''), (''reason'', JStr reason), (''rule'', JStr rule),
      (''obligations'', JArr []), (''modulation'', JNull)]"

definition fail_closed_decision :: dict where
  "fail_closed_decision =
     deny_response ''policy evaluation unavailable - failing closed'' ''reeflex.core/fail_closed''"

definition internal_error_decision :: dict where
  "internal_error_decision = deny_response ''internal error - failing closed'' ''reeflex.core/internal_error''"

definition with_id :: "call_env \<Rightarrow> dict \<Rightarrow> dict" where
  "with_id q resp = dput ''decision_id'' (JStr (q_decision_id q)) resp"

section \<open>Freeze\<close>

definition read_freeze :: "ucd \<Rightarrow> string option \<Rightarrow> bool" where
  "read_freeze u raw =
     (case raw of None \<Rightarrow> False
      | Some s \<Rightarrow> map lower_char (py_strip u s) \<in> {''true'', ''1'', ''yes''})"

definition check_freeze_flip :: "bool \<Rightarrow> core \<Rightarrow> core" where
  "check_freeze_flip current k =
     (case k_freeze k of
        None \<Rightarrow> k\<lparr>k_freeze := Some current\<rparr>
      | Some seen \<Rightarrow>
          if current = seen then k
          else notify (FreezeFlipped current) (k\<lparr>k_freeze := Some current\<rparr>))"

definition read_verbs :: "string list" where
  "read_verbs = [''read'', ''list'', ''get'', ''query'', ''search'', ''describe'', ''inspect'']"

definition is_read_verb :: "ucd \<Rightarrow> string \<Rightarrow> bool" where
  "is_read_verb u verb \<longleftrightarrow> map lower_char (py_strip u verb) \<in> set read_verbs"

section \<open>The approval chain\<close>

definition session_identity :: "dict \<Rightarrow> string" where
  "session_identity envelope = str_of (dget (as_obj (dget envelope ''agent'')) ''session_id'')"

definition status_refusal :: "dict \<Rightarrow> string option" where
  "status_refusal hold =
     (if dget hold ''status'' = JStr ''approved'' then None
      else if dget hold ''status'' = JStr ''consumed'' then Some ''reeflex_hold_consumed''
      else if dget hold ''status'' = JStr ''rejected'' then Some ''reeflex_hold_rejected''
      else if dget hold ''status'' = JStr ''expired'' then Some ''reeflex_hold_expired''
      else Some ''reeflex_hold_not_approved'')"

text \<open>The type and the identity in \<open>decided_by\<close>; \<open>None\<close> where reading it raises. An identity that is not a
  text normalises to the empty one.\<close>

definition decided_by_parts :: "json \<Rightarrow> (string \<times> string) option" where
  "decided_by_parts decided_by =
     (case decided_by of
        JStr s \<Rightarrow>
          Some (if CHR '':'' \<in> set s then (before_first CHR '':'' s, after_first CHR '':'' s) else ([], s))
      | JArr xs \<Rightarrow> if JStr '':'' \<in> set xs then None else Some ([], [])
      | JObj d \<Rightarrow> if '':'' \<in> fst ` set d then None else Some ([], [])
      | _ \<Rightarrow> if py_truth decided_by then None else Some ([], []))"

definition actor_is_approver :: "ucd \<Rightarrow> dict \<Rightarrow> string \<times> string \<Rightarrow> bool" where
  "actor_is_approver u envelope who \<longleftrightarrow>
     normalize_identity u (JStr (snd who)) \<noteq> [] \<and> is_self_approval u envelope (fst who) (snd who)"

definition held_envelope :: "dict \<Rightarrow> dict option" where
  "held_envelope hold =
     (if \<not> py_truth (dget hold ''envelope'') then Some []
      else case dget hold ''envelope'' of JObj d \<Rightarrow> Some d | _ \<Rightarrow> None)"

definition values_match :: "dict \<Rightarrow> dict \<Rightarrow> bool" where
  "values_match envelope held \<longleftrightarrow>
     list_all (\<lambda>path. py_eq (path_value envelope path) (path_value held path)) approval_bound_paths"

text \<open>Checks 5 to 8 on an approved, unexpired hold: the first reason to refuse, \<open>None\<close> inside \<open>Inr\<close> when there
  is none; \<open>Inl\<close> is an exception.\<close>

definition binding_refusal :: "deps \<Rightarrow> dict \<Rightarrow> dict \<Rightarrow> unit + string option" where
  "binding_refusal dp envelope hold =
     (if dget_or hold ''envelope_hash'' (JStr []) \<noteq> JStr (canonical_hash (dp_digest dp) envelope)
      then Inr (Some ''reeflex_hold_envelope_mismatch'')
      else case decided_by_parts (dget hold ''decided_by'') of
        None \<Rightarrow> Inl ()
      | Some who \<Rightarrow>
          if actor_is_approver (dp_ucd dp) envelope who then Inr (Some ''reeflex_hold_actor_is_approver'')
          else case held_envelope hold of
            None \<Rightarrow> Inl ()
          | Some held \<Rightarrow>
              if \<not> values_match envelope held then Inr (Some ''reeflex_hold_envelope_mismatch'')
              else if approval_actor_key (dp_ucd dp) envelope \<noteq> approval_actor_key (dp_ucd dp) held
              then Inr (Some ''reeflex_hold_actor_mismatch'')
              else Inr None)"

text \<open>Checks 2 to 8. Check 4 repeats part of check 2.\<close>

definition approval_refusal :: "deps \<Rightarrow> rat \<Rightarrow> dict \<Rightarrow> dict \<Rightarrow> unit + string option" where
  "approval_refusal dp now envelope hold =
     (case status_refusal hold of
        Some reason \<Rightarrow> Inr (Some reason)
      | None \<Rightarrow>
          (case is_expired (dp_clk dp) now hold of
             Inl _ \<Rightarrow> Inl ()
           | Inr due \<Rightarrow>
               if due then Inr (Some ''reeflex_hold_expired'')
               else if dget hold ''status'' = JStr ''consumed'' then Inr (Some ''reeflex_hold_consumed'')
               else binding_refusal dp envelope hold))"

text \<open>Looking the hold up; the store's identifiers are texts, and an unhashable one raises.\<close>

definition find_hold :: "deps \<Rightarrow> call_env \<Rightarrow> json \<Rightarrow> core \<Rightarrow> core \<times> (unit + dict option)" where
  "find_hold dp q hold_id k =
     (case hold_id of
        JStr hid \<Rightarrow>
          (let (h, r) = get_hold (dp_clk dp) (q_get_io q) (q_get_now q) hid (k_holds k)
           in (k\<lparr>k_holds := h\<rparr>, case r of Inl _ \<Rightarrow> Inl () | Inr hold \<Rightarrow> Inr hold))
      | _ \<Rightarrow>
          (let (h, r) = ensure_loaded (k_holds k)
           in (k\<lparr>k_holds := h\<rparr>, if isl r \<or> \<not> hashable hold_id then Inl () else Inr None)))"

text \<open>\<open>_validate_approval\<close>: the reason of the refusal, if any, and the hold.\<close>

definition validate_approval ::
  "deps \<Rightarrow> call_env \<Rightarrow> dict \<Rightarrow> core \<Rightarrow> core \<times> (unit + string option \<times> dict option)" where
  "validate_approval dp q envelope k =
     (let hold_id = dget_or (as_obj (dget envelope ''approval'')) ''hold_id'' (JStr [])
      in if \<not> py_truth hold_id then (k, Inr (Some ''reeflex_hold_not_found'', None))
         else case find_hold dp q hold_id k of
           (k', Inl _) \<Rightarrow> (k', Inl ())
         | (k', Inr None) \<Rightarrow> (k', Inr (Some ''reeflex_hold_not_found'', None))
         | (k', Inr (Some hold)) \<Rightarrow>
             (case approval_refusal dp (q_expired_now q) envelope hold of
                Inl _ \<Rightarrow> (k', Inl ())
              | Inr refusal \<Rightarrow> (k', Inr (refusal, Some hold))))"

section \<open>Auditing\<close>

definition audit_base :: "call_env \<Rightarrow> dict \<Rightarrow> string \<Rightarrow> string \<Rightarrow> dict \<Rightarrow> audit_call" where
  "audit_base q envelope hsh tr resp =
     \<lparr>au_session = session_identity envelope, au_envelope = envelope, au_cumulative = JObj [],
      au_response = resp, au_decision_id = q_decision_id q, au_hold_id = JStr [], au_expires_ts = JStr [],
      au_hash = hsh, au_parent = JStr [], au_traceparent = tr\<rparr>"

definition traceparent_of :: "dict \<Rightarrow> string" where
  "traceparent_of envelope =
     (case dget envelope ''context'' of JObj c \<Rightarrow> str_of (dget c ''traceparent'') | _ \<Rightarrow> [])"

text \<open>\<open>x or ""\<close>.\<close>

definition or_empty :: "json \<Rightarrow> json" where
  "or_empty j = (if py_truth j then j else JStr [])"

section \<open>The approved resubmission\<close>

definition parent_of :: "dict \<Rightarrow> dict \<Rightarrow> json" where
  "parent_of approval hold =
     (let p = or_empty (dget approval ''parent_decision_id'');
          p1 = (if is_str p then p else JStr [])
      in if p1 = JStr [] \<and> hold \<noteq> [] then or_empty (dget hold ''decision_id'') else p1)"

definition append_for ::
  "deps \<Rightarrow> call_env \<Rightarrow> dict \<Rightarrow> int \<Rightarrow> lfile option \<Rightarrow> lstore \<Rightarrow> (lfile option \<times> lstore) \<times> (ledger_exc + unit)" where
  "append_for dp q envelope charge =
     append_entry (dp_ucd dp) (dp_rnd dp) (q_lenv q) (q_append_now q) (q_new_key q) (q_line_size q)
       (session_identity envelope) envelope (Some charge)"

definition record_action :: "deps \<Rightarrow> call_env \<Rightarrow> dict \<Rightarrow> int \<Rightarrow> core \<Rightarrow> core \<times> (ledger_exc + unit)" where
  "record_action dp q envelope charge k =
     (let ((f, s), r) = append_for dp q envelope charge (k_file k) (k_ledger k)
      in (k\<lparr>k_file := f, k_ledger := s\<rparr>, r))"

definition sums_for :: "deps \<Rightarrow> call_env \<Rightarrow> dict \<Rightarrow> lfile option \<Rightarrow> lstore \<Rightarrow> lstore \<times> (ledger_exc + cumulative)" where
  "sums_for dp q envelope =
     compute_cumulative (dp_rnd dp) (q_lenv q) (q_compute_now q) (q_prune_now q)
       (session_identity envelope) (q_window q)"

definition consume :: "deps \<Rightarrow> call_env \<Rightarrow> string \<Rightarrow> core \<Rightarrow> core \<times> (hold_exc + dict option)" where
  "consume dp q hid k =
     (let (h, r) = mark_consumed (dp_clk dp) (q_consume_io q) (q_consume_now q) hid (k_holds k)
      in (k\<lparr>k_holds := h\<rparr>, r))"

definition approved_response :: "call_env \<Rightarrow> json \<Rightarrow> dict" where
  "approved_response q parent =
     with_id q
       [(''decision'', JStr ''allow''), (''reason'', JStr ''approved hold resubmission''),
        (''rule'', JStr ''reeflex.policy/approved_resubmission''), (''obligations'', JArr []),
        (''modulation'', JNull)]
     @ (if py_truth parent then [(''parent_decision_id'', parent)] else [])"

definition resubmit ::
  "deps \<Rightarrow> call_env \<Rightarrow> dict \<Rightarrow> string \<Rightarrow> string \<Rightarrow> dict \<Rightarrow> core \<Rightarrow> core \<times> (unit + int \<times> dict)" where
  "resubmit dp q envelope hsh tr hold k =
     (let approval = as_obj (dget envelope ''approval'');
          hold_id = dget approval ''hold_id'';
          parent = parent_of approval hold;
          bare = audit_base q envelope hsh tr;
          named = (\<lambda>resp. (bare resp)\<lparr>au_hold_id := hold_id, au_parent := parent\<rparr>)
      in case evaluate_ledger_charge (dp_opa dp) (JObj envelope) of
           Inl OpaEvalError \<Rightarrow>
             (let resp = with_id q fail_closed_decision
              in (notify (Audit (named resp)) k, Inr (500, resp)))
         | Inl OpaFloatError \<Rightarrow> (k, Inl ())
         | Inr charge \<Rightarrow>
             (case consume dp q (str_of hold_id) k of
                (k1, Inl _) \<Rightarrow>
                  (let resp = with_id q (deny_response ''reeflex_hold_consume_failed'' ''reeflex.core/hold_validation'')
                   in (notify (Audit (bare resp)) k1, Inr (200, resp)))
              | (k1, Inr None) \<Rightarrow>
                  (let resp = with_id q (deny_response ''reeflex_hold_already_consumed'' ''reeflex.core/hold_validation'')
                   in (notify (Audit (named resp)) k1, Inr (200, resp)))
              | (k1, Inr (Some _)) \<Rightarrow>
                  (case record_action dp q envelope charge k1 of
                     (k2, Inl LedgerWriteError) \<Rightarrow>
                       (let resp = with_id q (deny_response
                              (''session ledger write failed - failing closed rather than '' @
                               ''executing an approved action the ledger cannot record'')
                              ''reeflex.core/ledger_write_failed'')
                        in (notify (Audit (named resp)) k2, Inr (200, resp)))
                   | (k2, Inl _) \<Rightarrow> (k2, Inl ())
                   | (k2, Inr _) \<Rightarrow>
                       (let resp = approved_response q parent
                        in (notify (Telemetry (named resp)) (notify (Audit (named resp)) k2), Inr (200, resp))))))"

section \<open>The read-decide-write cycle\<close>

text \<open>\<open>json.dumps\<close> turns the keys of the counters into texts.\<close>

definition key_text :: "ucd \<Rightarrow> json \<Rightarrow> string" where
  "key_text u k =
     (case k of JStr s \<Rightarrow> s | JBool b \<Rightarrow> (if b then ''true'' else ''false'') | JNull \<Rightarrow> ''null''
      | _ \<Rightarrow> py_str u k)"

definition counts_json :: "ucd \<Rightarrow> (json \<times> int) list \<Rightarrow> json" where
  "counts_json u d = JObj (map (\<lambda>p. (key_text u (fst p), JInt (snd p))) d)"

definition cumulative_json :: "ucd \<Rightarrow> cumulative \<Rightarrow> json" where
  "cumulative_json u c =
     JObj [(''window_seconds'', JInt (c_window c)), (''count_by_verb'', counts_json u (c_by_verb c)),
           (''count_by_ability'', counts_json u (c_by_ability c)),
           (''count_by_externality'', counts_json u (c_by_ext c)),
           (''amount_by_currency'', JObj (map (\<lambda>p. (fst p, JFloat (snd p))) (c_amounts c))),
           (''total_count'', JInt (c_total c)), (''sum_physical_envelope'', JFloat (c_physical c))]"

text \<open>The caller's \<open>cumulative\<close> is overwritten and its approval is never asserted to the policy.\<close>

definition opa_input :: "dict \<Rightarrow> json \<Rightarrow> dict" where
  "opa_input envelope cumulative =
     dput ''approval'' (JObj (dput ''present'' (JBool False) (as_obj (dget envelope ''approval''))))
       (dput ''cumulative'' cumulative envelope)"

definition decision_of :: "call_env \<Rightarrow> opa_result \<Rightarrow> dict" where
  "decision_of q r =
     [(''decision'', o_decision r), (''reason'', o_reason r), (''rule'', o_rule r),
      (''obligations'', JArr (o_obligations r)), (''modulation'', JNull),
      (''decision_id'', JStr (q_decision_id q))]"

definition creation_denial :: "hold_exc \<Rightarrow> dict" where
  "creation_denial e =
     (case e of
        AppendError Tampered \<Rightarrow>
          deny_response ''hold record could not be proven to have landed intact - failing closed''
            ''reeflex.core/hold_store_integrity''
      | AppendError Unavailable \<Rightarrow>
          deny_response ''hold store could not be written - failing closed''
            ''reeflex.core/hold_store_unavailable''
      | _ \<Rightarrow> deny_response ''hold creation failed - failing closed'' ''reeflex.core/hold_creation_failed'')"

definition open_hold :: "deps \<Rightarrow> call_env \<Rightarrow> dict \<Rightarrow> json \<Rightarrow> core \<Rightarrow> core \<times> (hold_exc + dict)" where
  "open_hold dp q envelope rule k =
     (let (h, r) = create_hold (dp_clk dp) (dp_digest dp) (q_create_io q) (q_create_now q) (q_ttl q)
            (q_hold_id q) envelope rule (q_decision_id q) (k_holds k);
          k' = k\<lparr>k_holds := h\<rparr>
      in case r of
           Inl e \<Rightarrow> (k', Inl e)
         | Inr hold \<Rightarrow>
             (notify (HoldCreated
                [(''hold_id'', dget hold ''id''), (''rule_id'', rule), (''status'', JStr ''pending''),
                 (''expires_ts'', dget hold ''expires_ts'')]) k', Inr hold))"

definition ledger_denial :: "ucd \<Rightarrow> call_env \<Rightarrow> dict \<Rightarrow> dict" where
  "ledger_denial u q resp =
     with_id q (deny_response
       (''session ledger write failed - failing closed so the next call in this session cannot be decided '' @
        ''against an under-counted budget (would have been: '' @ py_str u (dget_or resp ''rule'' (JStr [])) @ '')'')
       ''reeflex.core/ledger_write_failed'')"

text \<open>Steps 10 to 12: record the action, audit, telemetry.\<close>

definition settle ::
  "deps \<Rightarrow> call_env \<Rightarrow> dict \<Rightarrow> string \<Rightarrow> string \<Rightarrow> json \<Rightarrow> int \<Rightarrow> dict \<Rightarrow> core \<Rightarrow> core \<times> (unit + int \<times> dict)" where
  "settle dp q envelope hsh tr cum charge resp k =
     (let finish = (\<lambda>final k'.
            let a = (audit_base q envelope hsh tr final)\<lparr>au_cumulative := cum,
                   au_hold_id := or_empty (dget final ''hold_id''), au_expires_ts := or_empty (dget final ''expires_ts'')\<rparr>
            in (notify (Telemetry a) (notify (Audit a) k'), Inr (200, final)))
      in case record_action dp q envelope charge k of
           (k', Inl LedgerWriteError) \<Rightarrow>
             finish (if dget resp ''decision'' \<noteq> JStr ''deny'' then ledger_denial (dp_ucd dp) q resp else resp) k'
         | (k', Inl _) \<Rightarrow> (k', Inl ())
         | (k', Inr _) \<Rightarrow> finish resp k')"

text \<open>Steps 5 to 12, for a request that asserts no approval.\<close>

definition cycle ::
  "deps \<Rightarrow> call_env \<Rightarrow> dict \<Rightarrow> string \<Rightarrow> string \<Rightarrow> core \<Rightarrow> core \<times> (unit + int \<times> dict)" where
  "cycle dp q envelope hsh tr k =
     (case sums_for dp q envelope (k_file k) (k_ledger k) of
        (s, Inl _) \<Rightarrow> (k\<lparr>k_ledger := s\<rparr>, Inl ())
      | (s, Inr c) \<Rightarrow>
          (let k1 = k\<lparr>k_ledger := s\<rparr>; cum = cumulative_json (dp_ucd dp) c;
               note_denial = (\<lambda>resp k'. notify (Audit ((audit_base q envelope hsh tr resp)\<lparr>au_cumulative := cum\<rparr>)) k')
           in case evaluate (dp_opa dp) (JObj (opa_input envelope cum)) of
                Inl OpaFloatError \<Rightarrow> (k1, Inl ())
              | Inl OpaEvalError \<Rightarrow>
                  (let resp = with_id q fail_closed_decision in (note_denial resp k1, Inr (500, resp)))
              | Inr r \<Rightarrow>
                  (let resp = decision_of q r
                   in if o_decision r = JStr ''require_approval'' then
                        (case open_hold dp q envelope (o_rule r) k1 of
                           (k2, Inl e) \<Rightarrow>
                             (let denial = with_id q (creation_denial e)
                              in (note_denial denial k2, Inr (500, denial)))
                         | (k2, Inr hold) \<Rightarrow>
                             settle dp q envelope hsh tr cum (o_charge r)
                               (resp @ [(''hold_id'', dget hold ''id''), (''expires_ts'', dget hold ''expires_ts'')]) k2)
                      else settle dp q envelope hsh tr cum (o_charge r) resp k1)))"

section \<open>The handler\<close>

text \<open>Step 4 on: a validated envelope that the freeze lets through.\<close>

definition decide_envelope ::
  "deps \<Rightarrow> call_env \<Rightarrow> dict \<Rightarrow> string \<Rightarrow> string \<Rightarrow> core \<Rightarrow> core \<times> (unit + int \<times> dict)" where
  "decide_envelope dp q envelope hsh tr k =
     (if py_truth (dget (as_obj (dget envelope ''approval'')) ''present'') then
        (let refuse = (\<lambda>status resp a k'.
               (notify (Audit ((audit_base q envelope hsh tr resp)\<lparr>au_hold_id := fst a, au_parent := snd a\<rparr>)) k',
                Inr (status, resp)))
         in case validate_approval dp q envelope k of
              (k', Inl _) \<Rightarrow> refuse 500 (with_id q internal_error_decision) (JStr [], JStr []) k'
            | (k', Inr (Some reason, hold)) \<Rightarrow>
                refuse 200 (with_id q (deny_response reason ''reeflex.core/hold_validation''))
                  (case hold of
                     None \<Rightarrow> (JStr [], JStr [])
                   | Some h \<Rightarrow> (or_empty (dget h ''id''), or_empty (dget h ''decision_id''))) k'
            | (k', Inr (None, hold)) \<Rightarrow>
                resubmit dp q envelope hsh tr (case hold of None \<Rightarrow> [] | Some h \<Rightarrow> h) k')
      else cycle dp q envelope hsh tr k)"

definition frozen_decision :: "call_env \<Rightarrow> dict" where
  "frozen_decision q = with_id q (deny_response ''frozen by operator'' ''reeflex.policy/frozen'')"

text \<open>Step 2 on.\<close>

definition handle_envelope ::
  "deps \<Rightarrow> call_env \<Rightarrow> dict \<Rightarrow> core \<Rightarrow> core \<times> (unit + int \<times> dict)" where
  "handle_envelope dp q envelope k =
     (let hsh = canonical_hash (dp_digest dp) envelope; tr = traceparent_of envelope;
          frozen = read_freeze (dp_ucd dp) (q_freeze q); k1 = check_freeze_flip frozen k
      in if frozen \<and> \<not> is_read_verb (dp_ucd dp) (str_of (dget (as_obj (dget envelope ''action'')) ''verb''))
         then (notify (Audit (audit_base q envelope hsh tr (frozen_decision q))) k1, Inr (200, frozen_decision q))
         else decide_envelope dp q envelope hsh tr k1)"

text \<open>The whole of \<open>process\<close>; the detail text of a validation error is left out. Every other exception ends in
  the internal error.\<close>

definition process :: "deps \<Rightarrow> call_env \<Rightarrow> json \<Rightarrow> core \<Rightarrow> core \<times> int \<times> dict" where
  "process dp q raw k =
     (let (seen, r) = validate_and_fill_defaults (dp_ucd dp) (k_seen k) raw; k0 = k\<lparr>k_seen := seen\<rparr>
      in case r of
           Inl (ValidationError _) \<Rightarrow> (k0, 400, [(''error'', JStr ''invalid_envelope'')])
         | Inl _ \<Rightarrow> (k0, 500, with_id q internal_error_decision)
         | Inr envelope \<Rightarrow>
             (case handle_envelope dp q envelope k0 of
                (k1, Inl _) \<Rightarrow> (k1, 500, with_id q internal_error_decision)
              | (k1, Inr answer) \<Rightarrow> (k1, answer)))"

section \<open>What each step can answer\<close>

lemma notify_same [simp]:
  "k_seen (notify n k) = k_seen k" "k_holds (notify n k) = k_holds k" "k_file (notify n k) = k_file k"
  "k_ledger (notify n k) = k_ledger k" "k_freeze (notify n k) = k_freeze k"
  by (simp_all add: notify_def)

lemma flip_same [simp]:
  "k_holds (check_freeze_flip b k) = k_holds k" "k_file (check_freeze_flip b k) = k_file k"
  "k_ledger (check_freeze_flip b k) = k_ledger k" "k_freeze (check_freeze_flip b k) = Some b"
  by (auto simp: check_freeze_flip_def split: option.split)

lemma record_action_holds: "record_action dp q envelope charge k = (k', r) \<Longrightarrow> k_holds k' = k_holds k"
  by (auto simp: record_action_def split: prod.splits)

lemma deny_lookup [simp]:
  "dget (deny_response reason rule) ''decision'' = JStr ''deny''"
  "dget (deny_response reason rule) ''rule'' = JStr rule"
  "dget (deny_response reason rule) ''reason'' = JStr reason"
  "dget (deny_response reason rule) ''hold_id'' = JNull"
  by (simp_all add: deny_response_def)

lemma with_id_lookup [simp]:
  "dget (with_id q resp) f = (if f = ''decision_id'' then JStr (q_decision_id q) else dget resp f)"
  by (simp add: with_id_def)

lemma dget_append: "dget (a @ b) f = (if map_of a f = None then dget b f else dget a f)"
  by (auto simp: dget_def map_add_def split: option.split)

lemma approved_lookup [simp]:
  "dget (approved_response q parent) ''decision'' = JStr ''allow''"
  "dget (approved_response q parent) ''decision_id'' = JStr (q_decision_id q)"
  by (simp_all add: approved_response_def dget_append) (simp_all add: with_id_def)

lemma decision_lookup [simp]:
  "dget (decision_of q r @ extra) ''decision'' = o_decision r"
  "dget (decision_of q r @ extra) ''decision_id'' = JStr (q_decision_id q)"
  "dget (decision_of q r) ''decision'' = o_decision r"
  "dget (decision_of q r) ''decision_id'' = JStr (q_decision_id q)"
  by (simp_all add: decision_of_def)

lemma ledger_denial_lookup [simp]:
  "dget (ledger_denial u q resp) ''decision'' = JStr ''deny''"
  "dget (ledger_denial u q resp) ''decision_id'' = JStr (q_decision_id q)"
  "dget (ledger_denial u q resp) ''hold_id'' = JNull"
  by (simp_all add: ledger_denial_def)

lemma creation_denial_lookup [simp]: "dget (creation_denial e) ''decision'' = JStr ''deny''"
  by (auto simp: creation_denial_def split: hold_exc.split append_cause.split)

lemma fixed_denials [simp]:
  "dget fail_closed_decision ''decision'' = JStr ''deny''"
  "dget internal_error_decision ''decision'' = JStr ''deny''"
  by (simp_all add: fail_closed_decision_def internal_error_decision_def)

lemma settle_cases:
  assumes "settle dp q envelope hsh tr cum charge resp k = (k', ans)"
  obtains k2 x where "record_action dp q envelope charge k = (k2, x)"
    "k_file k' = k_file k2" "k_holds k' = k_holds k2" "k_ledger k' = k_ledger k2"
    "x = Inr () \<longrightarrow> ans = Inr (200, resp)"
    "x = Inl LedgerWriteError \<longrightarrow> ans = Inr (200,
       if dget resp ''decision'' \<noteq> JStr ''deny'' then ledger_denial (dp_ucd dp) q resp else resp)"
    "x \<noteq> Inr () \<and> x \<noteq> Inl LedgerWriteError \<longrightarrow> ans = Inl ()"
proof -
  obtain k2 x where r: "record_action dp q envelope charge k = (k2, x)" by fastforce
  show thesis
  proof (rule that [OF r])
    show "k_file k' = k_file k2" "k_holds k' = k_holds k2" "k_ledger k' = k_ledger k2"
      "x = Inr () \<longrightarrow> ans = Inr (200, resp)"
      "x = Inl LedgerWriteError \<longrightarrow> ans = Inr (200,
         if dget resp ''decision'' \<noteq> JStr ''deny'' then ledger_denial (dp_ucd dp) q resp else resp)"
      "x \<noteq> Inr () \<and> x \<noteq> Inl LedgerWriteError \<longrightarrow> ans = Inl ()"
      using assms r by (auto simp: settle_def Let_def split: sum.splits ledger_exc.splits)
  qed
qed

section \<open>What an allow rests on\<close>

text \<open>The policy allowed the action on an input that carries the computed sums and no approval, and the
  ledger recorded it at the policy's charge.\<close>

definition policy_allowed :: "deps \<Rightarrow> call_env \<Rightarrow> dict \<Rightarrow> core \<Rightarrow> core \<Rightarrow> bool" where
  "policy_allowed dp q envelope k k' \<longleftrightarrow> (\<exists>s c r s'.
     sums_for dp q envelope (k_file k) (k_ledger k) = (s, Inr c) \<and>
     evaluate (dp_opa dp) (JObj (opa_input envelope (cumulative_json (dp_ucd dp) c))) = Inr r \<and>
     o_decision r = JStr ''allow'' \<and>
     append_for dp q envelope (o_charge r) (k_file k) s = ((k_file k', s'), Inr ()) \<and>
     k_holds k' = k_holds k)"

text \<open>A stored hold passed every check, this call consumed it, and the ledger recorded the action at the
  policy's charge.\<close>

definition human_allowed :: "deps \<Rightarrow> call_env \<Rightarrow> dict \<Rightarrow> core \<Rightarrow> core \<Rightarrow> bool" where
  "human_allowed dp q envelope k k' \<longleftrightarrow> (\<exists>hid hold h1 hold' charge s'.
     dget (as_obj (dget envelope ''approval'')) ''hold_id'' = JStr hid \<and>
     get_hold (dp_clk dp) (q_get_io q) (q_get_now q) hid (k_holds k) = (h1, Inr (Some hold)) \<and>
     approval_refusal dp (q_expired_now q) envelope hold = Inr None \<and>
     evaluate_ledger_charge (dp_opa dp) (JObj envelope) = Inr charge \<and>
     mark_consumed (dp_clk dp) (q_consume_io q) (q_consume_now q) hid h1 = (k_holds k', Inr (Some hold')) \<and>
     append_for dp q envelope charge (k_file k) (k_ledger k) = ((k_file k', s'), Inr ()))"

abbreviation asserts_approval :: "dict \<Rightarrow> bool" where
  "asserts_approval envelope \<equiv> py_truth (dget (as_obj (dget envelope ''approval'')) ''present'')"

lemma settle_allow:
  assumes "settle dp q envelope hsh tr cum charge resp k = (k', Inr (st, ans))"
    and "dget ans ''decision'' = JStr ''allow''"
  shows "\<exists>s'. append_for dp q envelope charge (k_file k) (k_ledger k) = ((k_file k', s'), Inr ()) \<and>
    k_holds k' = k_holds k \<and> ans = resp \<and> st = 200"
  using assms(1)
proof (rule settle_cases)
  fix k2 x
  assume r: "record_action dp q envelope charge k = (k2, x)"
    and k: "k_file k' = k_file k2" "k_holds k' = k_holds k2" "k_ledger k' = k_ledger k2"
    and ok: "x = Inr () \<longrightarrow> Inr (st, ans) = Inr (200, resp)"
    and failed: "x = Inl LedgerWriteError \<longrightarrow> Inr (st, ans) = Inr (200,
       if dget resp ''decision'' \<noteq> JStr ''deny'' then ledger_denial (dp_ucd dp) q resp else resp)"
    and other: "x \<noteq> Inr () \<and> x \<noteq> Inl LedgerWriteError \<longrightarrow> Inr (st, ans) = Inl ()"
  have "x = Inr ()"
  proof (rule ccontr)
    assume "x \<noteq> Inr ()"
    then have "x = Inl LedgerWriteError" using other by auto
    then show False using failed assms(2) by (auto split: if_splits)
  qed
  then show ?thesis using r k ok record_action_holds [OF r] by (auto simp: record_action_def split: prod.splits)
qed

lemma evaluate_other_exc:
  "evaluate opa inp = Inl e \<Longrightarrow> e = OpaEvalError \<or> e = OpaFloatError"
  by (cases e) auto

lemma cycle_allow:
  assumes "cycle dp q envelope hsh tr k = (k', Inr (st, ans))" "dget ans ''decision'' = JStr ''allow''"
  shows "policy_allowed dp q envelope k k' \<and> st = 200"
proof -
  obtain s c where c: "sums_for dp q envelope (k_file k) (k_ledger k) = (s, Inr c)"
    using assms(1) by (auto simp: cycle_def split: prod.splits sum.splits)
  let ?inp = "JObj (opa_input envelope (cumulative_json (dp_ucd dp) c))"
  obtain r where r: "evaluate (dp_opa dp) ?inp = Inr r"
  proof (cases "evaluate (dp_opa dp) ?inp")
    case (Inl e)
    then show ?thesis using assms c by (cases e) (auto simp: cycle_def Let_def)
  qed
  show ?thesis
  proof (cases "o_decision r = JStr ''require_approval''")
    case True
    obtain k2 y where y: "open_hold dp q envelope (o_rule r) (k\<lparr>k_ledger := s\<rparr>) = (k2, y)" by fastforce
    show ?thesis
    proof (cases y)
      case (Inl e)
      then show ?thesis using assms c r True y by (auto simp: cycle_def Let_def)
    next
      case (Inr hold)
      then have "settle dp q envelope hsh tr (cumulative_json (dp_ucd dp) c) (o_charge r)
          (decision_of q r @ [(''hold_id'', dget hold ''id''), (''expires_ts'', dget hold ''expires_ts'')]) k2
          = (k', Inr (st, ans))"
        using assms(1) c r True y by (simp add: cycle_def Let_def)
      from settle_allow [OF this assms(2)] assms(2) True show ?thesis by auto
    qed
  next
    case False
    then have "settle dp q envelope hsh tr (cumulative_json (dp_ucd dp) c) (o_charge r) (decision_of q r)
        (k\<lparr>k_ledger := s\<rparr>) = (k', Inr (st, ans))"
      using assms(1) c r by (simp add: cycle_def Let_def)
    from settle_allow [OF this assms(2)] assms(2) c r show ?thesis
      unfolding policy_allowed_def by auto
  qed
qed

lemma evaluate_charge_exc: "e = OpaEvalError \<or> e = OpaFloatError"
  by (cases e) auto

lemma resubmit_allow:
  assumes "resubmit dp q envelope hsh tr hold k = (k', Inr (st, ans))" "dget ans ''decision'' = JStr ''allow''"
  shows "\<exists>h hold' charge s'. evaluate_ledger_charge (dp_opa dp) (JObj envelope) = Inr charge \<and>
    mark_consumed (dp_clk dp) (q_consume_io q) (q_consume_now q)
      (str_of (dget (as_obj (dget envelope ''approval'')) ''hold_id'')) (k_holds k) = (k_holds k', Inr (Some hold')) \<and>
    append_for dp q envelope charge (k_file k) (k_ledger k) = ((k_file k', s'), Inr ()) \<and> st = 200"
proof -
  let ?hid = "str_of (dget (as_obj (dget envelope ''approval'')) ''hold_id'')"
  obtain charge where charge: "evaluate_ledger_charge (dp_opa dp) (JObj envelope) = Inr charge"
  proof (cases "evaluate_ledger_charge (dp_opa dp) (JObj envelope)")
    case (Inl e)
    then show ?thesis using assms by (cases e) (auto simp: resubmit_def Let_def)
  qed
  obtain k1 y where y: "consume dp q ?hid k = (k1, y)" by fastforce
  obtain hold' where hold': "y = Inr (Some hold')"
  proof (cases y)
    case (Inl e)
    then show ?thesis using assms charge y by (auto simp: resubmit_def Let_def)
  next
    case (Inr o')
    then show ?thesis using that assms charge y by (cases o') (auto simp: resubmit_def Let_def)
  qed
  obtain k2 z where z: "record_action dp q envelope charge k1 = (k2, z)" by fastforce
  have "z = Inr ()"
  proof (cases z)
    case (Inl e)
    then show ?thesis using assms charge y hold' z by (cases e) (auto simp: resubmit_def Let_def)
  qed simp
  then show ?thesis using assms charge y hold' z record_action_holds [OF z]
    by (auto simp: resubmit_def Let_def consume_def record_action_def split: prod.splits)
qed

lemma validate_approval_passes:
  assumes "validate_approval dp q envelope k = (k', Inr (None, hold))"
  shows "\<exists>hid h1 hd. dget (as_obj (dget envelope ''approval'')) ''hold_id'' = JStr hid \<and>
    get_hold (dp_clk dp) (q_get_io q) (q_get_now q) hid (k_holds k) = (h1, Inr (Some hd)) \<and> hold = Some hd \<and>
    approval_refusal dp (q_expired_now q) envelope hd = Inr None \<and> k' = k\<lparr>k_holds := h1\<rparr>"
proof -
  let ?id = "dget_or (as_obj (dget envelope ''approval'')) ''hold_id'' (JStr [])"
  have t: "py_truth ?id" using assms by (auto simp: validate_approval_def Let_def split: if_splits)
  obtain k1 y where y: "find_hold dp q ?id k = (k1, y)" by fastforce
  obtain hd where hd: "y = Inr (Some hd)"
  proof (cases y)
    case (Inl e)
    then show ?thesis using assms y t by (simp add: validate_approval_def Let_def)
  next
    case (Inr o')
    then show ?thesis using that assms y t by (cases o') (auto simp: validate_approval_def Let_def)
  qed
  obtain hid where hid: "?id = JStr hid"
    using y hd by (cases ?id) (auto simp: find_hold_def split: prod.splits if_splits)
  have "dget (as_obj (dget envelope ''approval'')) ''hold_id'' = JStr hid"
    using hid t by (auto simp: dget_or_def dget_def split: option.splits)
  moreover have "\<exists>h1. get_hold (dp_clk dp) (q_get_io q) (q_get_now q) hid (k_holds k) = (h1, Inr (Some hd)) \<and>
      k1 = k\<lparr>k_holds := h1\<rparr>"
    using y hd by (auto simp: find_hold_def hid split: prod.splits sum.splits)
  moreover have "approval_refusal dp (q_expired_now q) envelope hd = Inr None \<and> hold = Some hd \<and> k' = k1"
    using assms y hd t by (auto simp: validate_approval_def Let_def split: sum.splits)
  ultimately show ?thesis by blast
qed

lemma decide_envelope_allow:
  assumes "decide_envelope dp q envelope hsh tr k = (k', Inr (st, ans))" "dget ans ''decision'' = JStr ''allow''"
  shows "st = 200 \<and>
    (if asserts_approval envelope then human_allowed dp q envelope k k' else policy_allowed dp q envelope k k')"
proof (cases "asserts_approval envelope")
  case False
  then show ?thesis using assms cycle_allow by (simp add: decide_envelope_def)
next
  case True
  obtain k1 y where y: "validate_approval dp q envelope k = (k1, y)" by fastforce
  obtain hold where hold: "y = Inr (None, hold)"
  proof (cases y)
    case (Inl e)
    then show ?thesis using assms y True by (auto simp: decide_envelope_def Let_def)
  next
    case (Inr p)
    then show ?thesis using that assms y True
      by (cases p; cases "fst p") (auto simp: decide_envelope_def Let_def split: option.splits)
  qed
  obtain hid h1 hd where v: "dget (as_obj (dget envelope ''approval'')) ''hold_id'' = JStr hid"
    "get_hold (dp_clk dp) (q_get_io q) (q_get_now q) hid (k_holds k) = (h1, Inr (Some hd))"
    "hold = Some hd" "approval_refusal dp (q_expired_now q) envelope hd = Inr None" "k1 = k\<lparr>k_holds := h1\<rparr>"
    using validate_approval_passes [OF y [unfolded hold]] by blast
  have "resubmit dp q envelope hsh tr hd k1 = (k', Inr (st, ans))"
    using assms(1) True y hold v(3) by (simp add: decide_envelope_def Let_def)
  from resubmit_allow [OF this assms(2)] v True show ?thesis
    unfolding human_allowed_def by auto
qed

section \<open>Every answer is a decision\<close>

definition answer_ok :: "call_env \<Rightarrow> int \<times> dict \<Rightarrow> bool" where
  "answer_ok q a \<longleftrightarrow> dget (snd a) ''decision_id'' = JStr (q_decision_id q) \<and>
     (fst a = 200 \<and> py_truth (dget (snd a) ''decision'') \<or> fst a = 500 \<and> dget (snd a) ''decision'' = JStr ''deny'')"

lemma answer_ok_deny [simp]:
  "answer_ok q (200, with_id q (deny_response reason rule))"
  "answer_ok q (500, with_id q fail_closed_decision)"
  "answer_ok q (500, with_id q internal_error_decision)"
  "answer_ok q (500, with_id q (creation_denial e))"
  "answer_ok q (200, approved_response q parent)"
  "answer_ok q (200, ledger_denial u q resp)"
  by (simp_all add: answer_ok_def)

lemma settle_answer:
  assumes "settle dp q envelope hsh tr cum charge resp k = (k', Inr a)"
    and "dget resp ''decision_id'' = JStr (q_decision_id q)" "py_truth (dget resp ''decision'')"
  shows "answer_ok q a"
  using assms(1)
proof (rule settle_cases)
  fix k2 x
  assume ok: "x = Inr () \<longrightarrow> Inr a = Inr (200, resp)"
    and failed: "x = Inl LedgerWriteError \<longrightarrow> Inr a = Inr (200,
       if dget resp ''decision'' \<noteq> JStr ''deny'' then ledger_denial (dp_ucd dp) q resp else resp)"
    and other: "x \<noteq> Inr () \<and> x \<noteq> Inl LedgerWriteError \<longrightarrow> Inr a = Inl ()"
  have "answer_ok q (200, resp)" using assms(2,3) by (simp add: answer_ok_def)
  then show ?thesis using ok failed other by (auto split: if_splits)
qed

lemma cycle_answer: "cycle dp q envelope hsh tr k = (k', Inr a) \<Longrightarrow> answer_ok q a"
proof -
  assume c: "cycle dp q envelope hsh tr k = (k', Inr a)"
  obtain s c0 where sums: "sums_for dp q envelope (k_file k) (k_ledger k) = (s, Inr c0)"
    using c by (auto simp: cycle_def split: prod.splits sum.splits)
  let ?k1 = "k\<lparr>k_ledger := s\<rparr>" and ?cum = "cumulative_json (dp_ucd dp) c0"
  show ?thesis
  proof (cases "evaluate (dp_opa dp) (JObj (opa_input envelope ?cum))")
    case (Inl e)
    then show ?thesis using c sums by (cases e) (auto simp: cycle_def Let_def)
  next
    case (Inr r)
    have t: "py_truth (o_decision r)" using Inr by (rule evaluate_Inr)
    show ?thesis
    proof (cases "o_decision r = JStr ''require_approval''")
      case False
      then have "settle dp q envelope hsh tr ?cum (o_charge r) (decision_of q r) ?k1 = (k', Inr a)"
        using c sums Inr by (simp add: cycle_def Let_def)
      then show ?thesis by (rule settle_answer) (simp_all add: t)
    next
      case True
      obtain k2 y where y: "open_hold dp q envelope (o_rule r) ?k1 = (k2, y)" by fastforce
      show ?thesis
      proof (cases y)
        case (Inl e)
        then show ?thesis using c sums Inr \<open>evaluate _ _ = Inr r\<close> True y by (auto simp: cycle_def Let_def)
      next
        case (Inr hold)
        then have "settle dp q envelope hsh tr ?cum (o_charge r)
            (decision_of q r @ [(''hold_id'', dget hold ''id''), (''expires_ts'', dget hold ''expires_ts'')]) k2
            = (k', Inr a)"
          using c sums \<open>evaluate _ _ = Inr r\<close> True y by (simp add: cycle_def Let_def)
        then show ?thesis by (rule settle_answer) (simp_all add: t)
      qed
    qed
  qed
qed

lemma resubmit_answer: "resubmit dp q envelope hsh tr hold k = (k', Inr a) \<Longrightarrow> answer_ok q a"
  by (auto simp: resubmit_def Let_def split: sum.splits opa_exc.splits prod.splits option.splits ledger_exc.splits)

lemma decide_envelope_answer: "decide_envelope dp q envelope hsh tr k = (k', Inr a) \<Longrightarrow> answer_ok q a"
proof (cases "asserts_approval envelope")
  case False
  assume "decide_envelope dp q envelope hsh tr k = (k', Inr a)"
  then show ?thesis using False cycle_answer by (simp add: decide_envelope_def)
next
  case True
  assume d: "decide_envelope dp q envelope hsh tr k = (k', Inr a)"
  obtain k1 y where y: "validate_approval dp q envelope k = (k1, y)" by fastforce
  show ?thesis
  proof (cases y)
    case (Inl e)
    then show ?thesis using d y True by (auto simp: decide_envelope_def Let_def)
  next
    case (Inr p)
    then show ?thesis using d y True
      by (cases p; cases "fst p") (auto simp: decide_envelope_def Let_def dest: resubmit_answer)
  qed
qed

lemma handle_envelope_answer: "handle_envelope dp q envelope k = (k', Inr a) \<Longrightarrow> answer_ok q a"
  using decide_envelope_answer
  by (auto simp: handle_envelope_def frozen_decision_def Let_def split: if_splits)

lemma process_valid:
  assumes "validate_and_fill_defaults (dp_ucd dp) (k_seen k) raw = (seen, Inr envelope)"
  shows "process dp q raw k =
    (case handle_envelope dp q envelope (k\<lparr>k_seen := seen\<rparr>) of
       (k1, Inl _) \<Rightarrow> (k1, 500, with_id q internal_error_decision) | (k1, Inr answer) \<Rightarrow> (k1, answer))"
  using assms by (simp add: process_def)

text \<open>C13: whatever the request body, the state and the environment do, \<open>process\<close> answers: HTTP 400 exactly for a
  validation error, otherwise 200 or 500 with the call's own decision id; an answer with status 500
  is a denial and one with status 200 carries a non-empty decision.\<close>

theorem process_answers:
  "case process dp q raw k of (k', status, ans) \<Rightarrow>
     (status = 400 \<and> (\<exists>e. snd (validate_and_fill_defaults (dp_ucd dp) (k_seen k) raw) = Inl (ValidationError e)))
     \<or> (\<not> (\<exists>e. snd (validate_and_fill_defaults (dp_ucd dp) (k_seen k) raw) = Inl (ValidationError e)) \<and>
        dget ans ''decision_id'' = JStr (q_decision_id q) \<and>
        (status = 200 \<and> py_truth (dget ans ''decision'') \<or> status = 500 \<and> dget ans ''decision'' = JStr ''deny''))"
proof -
  obtain seen r where v: "validate_and_fill_defaults (dp_ucd dp) (k_seen k) raw = (seen, r)" by fastforce
  show ?thesis
  proof (cases r)
    case (Inl e)
    then show ?thesis using v by (cases e) (auto simp: process_def)
  next
    case (Inr envelope)
    note p = process_valid [OF v [unfolded Inr], of q]
    obtain k1 y where h: "handle_envelope dp q envelope (k\<lparr>k_seen := seen\<rparr>) = (k1, y)" by fastforce
    show ?thesis
    proof (cases y)
      case (Inl e)
      then show ?thesis using p h v Inr \<open>r = Inr envelope\<close> by simp
    next
      case (Inr a)
      then have "answer_ok q a" using handle_envelope_answer h by auto
      then show ?thesis using p h v Inr \<open>r = Inr envelope\<close> by (cases a) (auto simp: answer_ok_def)
    qed
  qed
qed

text \<open>C1: an allow is always justified. The request validated, the freeze let it through, and either it asserted
  no approval, the policy allowed the input that carries the computed sums, and the ledger recorded
  the action at the policy's charge; or it named a stored hold that passed all eight checks, this call
  consumed that hold, and the ledger recorded the action.\<close>

theorem allow_is_justified:
  assumes "process dp q raw k = (k', status, ans)" "dget ans ''decision'' = JStr ''allow''"
  shows "\<exists>seen envelope. validate_and_fill_defaults (dp_ucd dp) (k_seen k) raw = (seen, Inr envelope) \<and> status = 200 \<and>
    (read_freeze (dp_ucd dp) (q_freeze q) \<longrightarrow>
       is_read_verb (dp_ucd dp) (str_of (dget (as_obj (dget envelope ''action'')) ''verb''))) \<and>
    (if asserts_approval envelope then human_allowed dp q envelope k k' else policy_allowed dp q envelope k k')"
proof -
  obtain seen r where v: "validate_and_fill_defaults (dp_ucd dp) (k_seen k) raw = (seen, r)" by fastforce
  obtain envelope where r: "r = Inr envelope"
  proof (cases r)
    case (Inl e)
    then show ?thesis using assms v by (cases e) (auto simp: process_def)
  qed
  note p = process_valid [OF v [unfolded r], of q]
  let ?k0 = "k\<lparr>k_seen := seen\<rparr>"
  obtain k1 y where h: "handle_envelope dp q envelope ?k0 = (k1, y)" by fastforce
  obtain a where a: "y = Inr a"
  proof (cases y)
    case (Inl e)
    then show ?thesis using assms p h by auto
  qed
  have eq: "k1 = k'" "a = (status, ans)" using assms(1) p h a by auto
  let ?frozen = "read_freeze (dp_ucd dp) (q_freeze q)"
  let ?verb = "str_of (dget (as_obj (dget envelope ''action'')) ''verb'')"
  have go: "\<not> (?frozen \<and> \<not> is_read_verb (dp_ucd dp) ?verb)"
    using h a eq assms(2) by (auto simp: handle_envelope_def Let_def frozen_decision_def split: if_splits)
  then have "decide_envelope dp q envelope (canonical_hash (dp_digest dp) envelope) (traceparent_of envelope)
      (check_freeze_flip ?frozen ?k0) = (k', Inr (status, ans))"
    using h a eq by (auto simp: handle_envelope_def Let_def)
  from decide_envelope_allow [OF this assms(2)] go v r show ?thesis
    by (auto simp: human_allowed_def policy_allowed_def split: if_splits)
qed

section \<open>What consumes a hold\<close>

definition same_consumed :: "logfile \<Rightarrow> logfile \<Rightarrow> bool" where
  "same_consumed f g \<longleftrightarrow> (\<forall>hid. count_events ''consumed'' hid (recs g) = count_events ''consumed'' hid (recs f))"

interpretation unspent: file_order same_consumed
  by unfold_locales (auto simp: same_consumed_def)

lemma unspent_append:
  assumes "dget_or rec ''event_type'' (JStr ''created'') \<noteq> JStr ''consumed''"
  shows "unspent.keeps (append_and_readback io rec)"
proof -
  have "same_consumed f (fst (append_rec ft (JObj rec) f))" for f ft
    using assms by (cases ft) (auto simp: same_consumed_def count_events_def land_def is_event_def)
  then have "append_rec ft (JObj rec) f = (g, x) \<Longrightarrow> same_consumed f g" for f ft g x
    by (metis fst_conv)
  then show ?thesis
    by (auto simp: unspent.keeps_def append_and_readback_def Let_def split: prod.splits sum.splits)
qed

lemma unspent_expire: "unspent.keeps (append_expired_event clk io now hid)"
  unfolding append_expired_event_def
proof (rule unspent.keeps_bind)
  show "unspent.keeps (expire_section clk io now hid)"
    unfolding expire_section_def Let_def
    by (intro unspent.keeps_section unspent.keeps_guard unspent.keeps_bind unspent_append) (simp_all add: dget_or_def)
  show "unspent.keeps (\<lambda>h. case x of None \<Rightarrow> (h, Inr ()) | Some expired_ts \<Rightarrow>
      (let hold = (case index_get h hid of None \<Rightarrow> [] | Some d \<Rightarrow> d); observed = iso_now clk now
       in (emit (AuditResolution hid ''expired'' ''system:reeflex-core'' expired_ts (ck_iso clk now) True ''system'')
            (emit (Webhook ''hold.expired''
               [(''hold_id'', hid), (''rule_id'', dget_or hold ''rule_id'' (JStr [])), (''status'', JStr ''expired''),
                (''ts'', observed), (''expired_ts'', expired_ts), (''observed_ts'', observed)]) h), Inr ())))" for x
    by (rule unspent.keeps_same) (simp add: emit_def Let_def split: option.split)
qed

lemma unspent_check_expiry: "unspent.keeps (check_expiry clk io now hold)"
  using unspent_expire
  by (auto simp: check_expiry_def unspent.keeps_def unspent.same split: sum.split)

lemma unspent_get_hold: "unspent.keeps (get_hold clk io now hid)"
proof -
  have "unspent.keeps (\<lambda>h. case index_get h (JStr hid) of None \<Rightarrow> (h, Inr None)
      | Some hc \<Rightarrow> bindS (check_expiry clk io now hc) (\<lambda>_ h'. (h', Inr (index_get h' (JStr hid)))) h)"
    by (intro unspent.keeps_guard_any unspent.keeps_bind unspent_check_expiry) simp
  then show ?thesis unfolding get_hold_def by (intro unspent.keeps_bind unspent.keeps_sync)
qed

lemma unspent_create: "unspent.keeps (create_hold clk digest io now ttl hid env rule did)"
  unfolding create_hold_def Let_def
  by (intro unspent.keeps_section unspent.keeps_bind unspent_append) (simp_all add: new_hold_def dget_or_def)

abbreviation unspent_core :: "core \<Rightarrow> core \<Rightarrow> bool" where
  "unspent_core k k' \<equiv> same_consumed (h_file (k_holds k)) (h_file (k_holds k'))"

lemma unspent_find: "find_hold dp q hid k = (k', r) \<Longrightarrow> unspent_core k k'"
  using unspent.keepsD [OF unspent_get_hold] unspent.keepsD [OF unspent.keeps_sync]
  by (auto simp: find_hold_def split: json.splits prod.splits)

lemma unspent_validate: "validate_approval dp q envelope k = (k', r) \<Longrightarrow> unspent_core k k'"
  using unspent.same unspent_find
  by (auto simp: validate_approval_def Let_def split: if_splits prod.splits sum.splits option.splits)

lemma unspent_record: "record_action dp q envelope charge k = (k', r) \<Longrightarrow> unspent_core k k'"
  using unspent.same by (simp add: record_action_holds)

lemma unspent_settle: "settle dp q envelope hsh tr cum charge resp k = (k', r) \<Longrightarrow> unspent_core k k'"
  by (erule settle_cases) (use unspent_record in auto)

lemma unspent_open: "open_hold dp q envelope rule k = (k', r) \<Longrightarrow> unspent_core k k'"
  using unspent.keepsD [OF unspent_create]
  by (auto simp: open_hold_def Let_def split: prod.splits sum.splits)

lemma unspent_core_trans: "unspent_core k k1 \<Longrightarrow> unspent_core k1 k2 \<Longrightarrow> unspent_core k k2"
  by (rule unspent.trans)

lemma unspent_cycle: "cycle dp q envelope hsh tr k = (k', r) \<Longrightarrow> unspent_core k k'"
proof -
  assume c: "cycle dp q envelope hsh tr k = (k', r)"
  obtain s y where sums: "sums_for dp q envelope (k_file k) (k_ledger k) = (s, y)" by fastforce
  show ?thesis
  proof (cases y)
    case (Inl e)
    then show ?thesis using c sums unspent.same by (auto simp: cycle_def)
  next
    case (Inr c0)
    let ?k1 = "k\<lparr>k_ledger := s\<rparr>" and ?cum = "cumulative_json (dp_ucd dp) c0"
    show ?thesis
    proof (cases "evaluate (dp_opa dp) (JObj (opa_input envelope ?cum))")
      case (Inl e)
      then show ?thesis using c sums Inr unspent.same by (cases e) (auto simp: cycle_def Let_def)
    next
      case (Inr o')
      note ev = this \<open>y = Inr c0\<close>
      show ?thesis
      proof (cases "o_decision o' = JStr ''require_approval''")
        case False
        then have "settle dp q envelope hsh tr ?cum (o_charge o') (decision_of q o') ?k1 = (k', r)"
          using c sums ev by (simp add: cycle_def Let_def)
        from unspent_settle [OF this] show ?thesis by simp
      next
        case True
        obtain k2 z where z: "open_hold dp q envelope (o_rule o') ?k1 = (k2, z)" by fastforce
        have u: "unspent_core k k2" using unspent_open [OF z] by simp
        show ?thesis
        proof (cases z)
          case (Inl e)
          then show ?thesis using c sums ev True z u by (auto simp: cycle_def Let_def)
        next
          case (Inr hold)
          then have "settle dp q envelope hsh tr ?cum (o_charge o')
              (decision_of q o' @ [(''hold_id'', dget hold ''id''), (''expires_ts'', dget hold ''expires_ts'')]) k2
              = (k', r)"
            using c sums ev True z by (simp add: cycle_def Let_def)
          from unspent_core_trans [OF u unspent_settle [OF this]] show ?thesis .
        qed
      qed
    qed
  qed
qed

lemma resubmit_unpriced:
  assumes "resubmit dp q envelope hsh tr hold k = (k', r)" "evaluate_ledger_charge (dp_opa dp) (JObj envelope) = Inl e"
  shows "k_holds k' = k_holds k"
  using assms by (cases e) (auto simp: resubmit_def Let_def)

definition checks_passed :: "deps \<Rightarrow> call_env \<Rightarrow> dict \<Rightarrow> hs \<Rightarrow> bool" where
  "checks_passed dp q envelope holds \<longleftrightarrow> (\<exists>hid h1 hold charge.
     dget (as_obj (dget envelope ''approval'')) ''hold_id'' = JStr hid \<and>
     get_hold (dp_clk dp) (q_get_io q) (q_get_now q) hid holds = (h1, Inr (Some hold)) \<and>
     approval_refusal dp (q_expired_now q) envelope hold = Inr None \<and>
     evaluate_ledger_charge (dp_opa dp) (JObj envelope) = Inr charge)"

lemma decide_envelope_consumes:
  assumes "decide_envelope dp q envelope hsh tr k = (k', r)" "\<not> unspent_core k k'"
  shows "asserts_approval envelope \<and> checks_passed dp q envelope (k_holds k)"
proof (cases "asserts_approval envelope")
  case False
  then show ?thesis using assms unspent_cycle by (simp add: decide_envelope_def)
next
  case True
  obtain k1 y where y: "validate_approval dp q envelope k = (k1, y)" by fastforce
  have u: "unspent_core k k1" by (rule unspent_validate [OF y])
  obtain hold where hold: "y = Inr (None, hold)"
  proof (cases y)
    case (Inl e)
    then show ?thesis using assms y True u by (auto simp: decide_envelope_def Let_def)
  next
    case (Inr p)
    then show ?thesis using that assms y True u
      by (cases p; cases "fst p") (auto simp: decide_envelope_def Let_def)
  qed
  obtain hid h1 hd where v: "dget (as_obj (dget envelope ''approval'')) ''hold_id'' = JStr hid"
    "get_hold (dp_clk dp) (q_get_io q) (q_get_now q) hid (k_holds k) = (h1, Inr (Some hd))"
    "hold = Some hd" "approval_refusal dp (q_expired_now q) envelope hd = Inr None" "k1 = k\<lparr>k_holds := h1\<rparr>"
    using validate_approval_passes [OF y [unfolded hold]] by blast
  have re: "resubmit dp q envelope hsh tr hd k1 = (k', r)"
    using assms(1) True y hold v(3) by (simp add: decide_envelope_def Let_def)
  show ?thesis
  proof (cases "evaluate_ledger_charge (dp_opa dp) (JObj envelope)")
    case (Inl e)
    then show ?thesis using resubmit_unpriced [OF re Inl] u assms(2) by simp
  next
    case (Inr charge)
    then show ?thesis using v True unfolding checks_passed_def by blast
  qed
qed

text \<open>C3: a human's approval is spent only by the request it was given for: if a call to \<open>process\<close> changes the
  number of \<open>consumed\<close> records of any hold, then its envelope asserted an approval, the hold it names
  passed the eight checks, and the policy priced the action. Every refusal leaves the approval usable.\<close>

theorem consumption_requires_checks:
  assumes "process dp q raw k = (k', status, ans)"
    and "count_events ''consumed'' hid (recs (h_file (k_holds k'))) \<noteq>
         count_events ''consumed'' hid (recs (h_file (k_holds k)))"
  shows "\<exists>seen envelope. validate_and_fill_defaults (dp_ucd dp) (k_seen k) raw = (seen, Inr envelope) \<and>
    asserts_approval envelope \<and> checks_passed dp q envelope (k_holds k)"
proof -
  have changed: "\<not> unspent_core k k'" using assms(2) by (auto simp: same_consumed_def)
  obtain seen r where v: "validate_and_fill_defaults (dp_ucd dp) (k_seen k) raw = (seen, r)" by fastforce
  obtain envelope where r: "r = Inr envelope"
  proof (cases r)
    case (Inl e)
    then show ?thesis using assms(1) v changed unspent.same by (cases e) (auto simp: process_def)
  qed
  note p = process_valid [OF v [unfolded r], of q]
  obtain k1 y where h: "handle_envelope dp q envelope (k\<lparr>k_seen := seen\<rparr>) = (k1, y)" by fastforce
  have k1: "k1 = k'" using assms(1) p h by (auto split: sum.splits)
  let ?k2 = "check_freeze_flip (read_freeze (dp_ucd dp) (q_freeze q)) (k\<lparr>k_seen := seen\<rparr>)"
  have "decide_envelope dp q envelope (canonical_hash (dp_digest dp) envelope) (traceparent_of envelope) ?k2 = (k', y)"
    using h k1 changed unspent.same by (auto simp: handle_envelope_def Let_def split: if_splits)
  from decide_envelope_consumes [OF this] changed v r show ?thesis by simp
qed

section \<open>Freeze, budget and failures\<close>

text \<open>C28: while the freeze is on, a valid request whose verb is not a read verb is denied before anything else is
  consulted: the hold store and the ledger are untouched and the refusal is audited.\<close>

theorem frozen_denies:
  assumes "validate_and_fill_defaults (dp_ucd dp) (k_seen k) raw = (seen, Inr envelope)"
    and "read_freeze (dp_ucd dp) (q_freeze q)"
    and "\<not> is_read_verb (dp_ucd dp) (str_of (dget (as_obj (dget envelope ''action'')) ''verb''))"
  shows "\<exists>k' a. process dp q raw k = (k', 200, frozen_decision q) \<and> dget (frozen_decision q) ''decision'' = JStr ''deny'' \<and>
    k_holds k' = k_holds k \<and> k_file k' = k_file k \<and> k_ledger k' = k_ledger k \<and>
    last (k_out k') = Audit a \<and> au_response a = frozen_decision q"
  using assms process_valid [OF assms(1), of q]
  by (simp add: handle_envelope_def Let_def frozen_decision_def audit_base_def) (simp add: notify_def)

lemma accepted_agent:
  assumes "validate_and_fill_defaults u seen raw = (seen', Inr env)"
  shows "\<exists>agent sid. dget env ''agent'' = JObj agent \<and> dget agent ''session_id'' = JStr sid \<and> py_strip u sid \<noteq> []"
proof -
  obtain d where req: "required_fields u d = Inr ()" and fill: "fill_defaults u d = Inr env"
    using assms by (rule validate_Inr)
  obtain e1 e2 m where e1: "fill_target u d = Inr e1" and e2: "fill_params u e1 = Inr e2"
    and env: "env = fill_approval d (dput ''magnitude'' (JObj m)
             (fill_provenance u d (fill_verb u d (fill_axes d e2))))"
    using fill by (rule fill_defaults_shape)
  obtain t where "e1 = dput ''target'' (JObj t) d" using e1 by (rule fill_target_shape)
  then have "map_of e2 ''agent'' = map_of d ''agent''"
    using fill_params_other [OF e2, of "''agent''"] by simp
  then have "dget env ''agent'' = dget d ''agent''"
    by (simp add: env fill_approval_def fill_provenance_def fill_verb_def fill_axes_def Let_def dget_def)
  moreover have "\<exists>sid. dget (as_obj (dget d ''agent'')) ''session_id'' = JStr sid \<and> py_strip u sid \<noteq> []"
    using req by (auto simp: required_fields_def Let_def split: if_splits json.splits)
  ultimately have "\<exists>sid. dget (as_obj (dget env ''agent'')) ''session_id'' = JStr sid \<and> py_strip u sid \<noteq> []" by simp
  then show ?thesis by (cases "dget env ''agent''"; simp)
qed

lemma validated_session:
  assumes "validate_and_fill_defaults u seen raw = (seen', Inr env)"
  shows "session_identity env \<noteq> []"
proof -
  have "py_strip u [] = []" by (simp add: py_strip_def strip_ascii_def)
  then show ?thesis using accepted_agent [OF assms] by (auto simp: session_identity_def)
qed

lemma append_for_recorded:
  assumes "append_for dp q envelope n (Some f) s = ((file', s'), Inr ())" "le_persist (q_lenv q)" "lf_torn f = 0"
    and "session_identity envelope \<noteq> []"
  shows "\<exists>e f'. file' = Some f' \<and> e_count e = n \<and> e_ts e = q_append_now q \<and>
    file_entries f' = (file_entries f)(session_identity envelope := file_entries f (session_identity envelope) @ [e])"
proof -
  obtain e where e: "make_entry (dp_ucd dp) (dp_rnd dp) (q_append_now q) envelope (Some n) = Inr e"
    using assms(1) by (auto simp: append_for_def append_entry_def split: sum.splits)
  have "le_fault (q_lenv q) = NoFault"
    using append_entry_persist(1) [OF assms(2) e, of "q_new_key q" "q_line_size q" "session_identity envelope" "Some f" s]
      assms(1) by (auto simp: append_for_def split: if_splits)
  then have land: "file' = Some (land_line (q_new_key q) (q_line_size q) (LEntry (session_identity envelope) e) (Some f))"
    using append_entry_persist(2) [OF assms(2) e, of "q_new_key q" "q_line_size q" "session_identity envelope" "Some f" s]
      assms(1) by (simp add: append_for_def append_record_def)
  have "file_entries (land_line (q_new_key q) (q_line_size q) (LEntry (session_identity envelope) e) (Some f)) =
      (file_entries f)(session_identity envelope := file_entries f (session_identity envelope) @ [e])"
    using file_entries_land [of "q_new_key q" "q_line_size q" "LEntry (session_identity envelope) e" "Some f"]
      assms(3,4) by (simp add: or_created_def) (simp add: file_entries_def fun_eq_iff)
  then show ?thesis using land make_entry_count [OF e] by blast
qed

lemma charge_positive:
  "evaluate opa inp = Inr r \<Longrightarrow> 1 \<le> o_charge r" "evaluate_ledger_charge opa inp = Inr n \<Longrightarrow> 1 \<le> n"
  by (rule evaluate_Inr) (auto simp: evaluate_ledger_charge_def bindE_Inr_iff dest: coerce_charge_positive)


section \<open>Examples\<close>

text \<open>An engine that answers every query with one verdict and one charge.\<close>

definition constant_engine :: "string \<Rightarrow> int \<Rightarrow> engine" where
  "constant_engine verdict charge query inp =
     (let val = (if query = charge_query then JInt charge
                 else JObj [(''decision'', JObj [(''decision'', JStr verdict), (''rule'', JStr ''R'')]),
                            (''ledger_charge'', JInt charge)])
      in OpaOutput (Some (JObj [(''result'', JArr [JObj [(''expressions'', JArr [JObj [(''value'', val)]])]])])))"

definition sample_deps :: "string \<Rightarrow> deps" where
  "sample_deps verdict = \<lparr>dp_ucd = plain_ucd, dp_rnd = Fin, dp_clk = unary_clock, dp_digest = null_digest,
     dp_opa = constant_engine verdict 3\<rparr>"

lemma sample_deps_ucd: "dp_ucd (sample_deps verdict) = plain_ucd"
  by (simp add: sample_deps_def)

definition sample_call :: "rat \<Rightarrow> fault \<Rightarrow> call_env" where
  "sample_call now ft = \<lparr>q_freeze = None, q_window = 3600, q_ttl = 4, q_decision_id = ''D'', q_hold_id = ''H'',
     q_get_now = now, q_get_io = good_hio, q_expired_now = now, q_consume_now = now, q_consume_io = good_hio,
     q_create_now = now, q_create_io = good_hio, q_lenv = sample_lenv\<lparr>le_fault := ft\<rparr>, q_compute_now = now,
     q_prune_now = now, q_append_now = now, q_new_key = 1, q_line_size = 100\<rparr>"

definition empty_core :: core where
  "empty_core = \<lparr>k_seen = [], k_holds = \<lparr>h_file = \<lparr>recs = [], torn = False\<rparr>, h_store = empty_store, h_out = []\<rparr>,
     k_file = Some \<lparr>lf_key = 1, lf_lines = [], lf_torn = 0\<rparr>, k_ledger = empty_lstore, k_freeze = None, k_out = []\<rparr>"

text \<open>When the policy asks for approval and the ledger then cannot record the action, the caller is denied and
  told no hold id, while the hold that was created stays pending in the store.\<close>

theorem orphan_hold:
  "case process (sample_deps ''require_approval'') (sample_call 1 LostWrite) (JObj sample_request) empty_core of
     (k', status, ans) \<Rightarrow>
       status = 200 \<and> dget ans ''decision'' = JStr ''deny'' \<and> dget ans ''hold_id'' = JNull \<and>
       status_of (JStr ''H'') (recs (h_file (k_holds k'))) = Some (JStr ''pending'')"
  by code_simp

text \<open>A request is held, a human approves, the request is resubmitted with the hold it was given.\<close>

definition held_core :: core where
  "held_core = fst (process (sample_deps ''require_approval'') (sample_call 1 NoFault) (JObj sample_request) empty_core)"

definition approved_core :: core where
  "approved_core = held_core\<lparr>k_holds := fst (resolve_hold unary_clock good_hio 2 ''H'' ''approve'' ''human'' ''alice''
     JNull True ''credential'' (k_holds held_core))\<rparr>"

definition sample_resubmission :: json where
  "sample_resubmission =
     JObj (dput ''approval'' (JObj [(''present'', JBool True), (''hold_id'', JStr ''H'')]) sample_request)"

definition sample_outcome :: "core \<times> int \<times> dict" where
  "sample_outcome = process (sample_deps ''deny'') (sample_call 3 NoFault) sample_resubmission approved_core"

lemma sample_outcome_allows:
  "fst (snd sample_outcome) = 200" "dget (snd (snd sample_outcome)) ''decision'' = JStr ''allow''"
  "count_events ''consumed'' (JStr ''H'') (recs (h_file (k_holds (fst sample_outcome)))) = 1"
proof -
  have "case sample_outcome of (k, status, ans) \<Rightarrow> status = 200 \<and> dget ans ''decision'' = JStr ''allow'' \<and>
      count_events ''consumed'' (JStr ''H'') (recs (h_file (k_holds k))) = 1"
    by code_simp
  then show "fst (snd sample_outcome) = 200" "dget (snd (snd sample_outcome)) ''decision'' = JStr ''allow''"
    "count_events ''consumed'' (JStr ''H'') (recs (h_file (k_holds (fst sample_outcome)))) = 1"
    by (simp_all add: case_prod_beta)
qed

lemma approved_core_unspent: "count_events ''consumed'' (JStr ''H'') (recs (h_file (k_holds approved_core))) = 0"
  by code_simp

lemma sample_outcome_eq:
  "process (sample_deps ''deny'') (sample_call 3 NoFault) sample_resubmission approved_core =
     (fst sample_outcome, fst (snd sample_outcome), snd (snd sample_outcome))"
  by (simp add: sample_outcome_def)

theorem allow_is_justified_witness:
  "\<exists>seen envelope. validate_and_fill_defaults plain_ucd (k_seen approved_core) sample_resubmission = (seen, Inr envelope) \<and>
     (if asserts_approval envelope
      then human_allowed (sample_deps ''deny'') (sample_call 3 NoFault) envelope approved_core (fst sample_outcome)
      else policy_allowed (sample_deps ''deny'') (sample_call 3 NoFault) envelope approved_core (fst sample_outcome))"
  using allow_is_justified [OF sample_outcome_eq sample_outcome_allows(2), unfolded sample_deps_ucd] by blast

theorem consumption_requires_checks_witness:
  "\<exists>seen envelope. validate_and_fill_defaults plain_ucd (k_seen approved_core) sample_resubmission = (seen, Inr envelope) \<and>
     asserts_approval envelope \<and>
     checks_passed (sample_deps ''deny'') (sample_call 3 NoFault) envelope (k_holds approved_core)"
  using consumption_requires_checks [OF sample_outcome_eq, of "JStr ''H''"] sample_outcome_allows(3) approved_core_unspent
  by (simp add: sample_deps_def)

definition sample_file :: lfile where
  "sample_file = \<lparr>lf_key = 1, lf_lines = [], lf_torn = 0\<rparr>"


definition frozen_call :: call_env where
  "frozen_call = (sample_call 1 NoFault)\<lparr>q_freeze := Some '' TRUE''\<rparr>"

theorem frozen_denies_witness:
  "\<exists>k' ans. process (sample_deps ''allow'') frozen_call (JObj sample_guess) empty_core = (k', 200, ans) \<and>
     dget ans ''decision'' = JStr ''deny'' \<and> k_file k' = k_file empty_core"
proof -
  have "case validate_and_fill_defaults plain_ucd [] (JObj sample_guess) of
      (s, Inr env) \<Rightarrow> \<not> is_read_verb plain_ucd (str_of (dget (as_obj (dget env ''action'')) ''verb''))
    | (s, Inl _) \<Rightarrow> False" by code_simp
  then obtain seen env where v: "validate_and_fill_defaults plain_ucd [] (JObj sample_guess) = (seen, Inr env)"
    "\<not> is_read_verb plain_ucd (str_of (dget (as_obj (dget env ''action'')) ''verb''))"
    by (auto split: prod.splits sum.splits)
  have "read_freeze plain_ucd (q_freeze frozen_call)" by code_simp
  then show ?thesis
    using frozen_denies [of "sample_deps ''allow''" empty_core "JObj sample_guess" seen env frozen_call] v
    by (auto simp: sample_deps_def empty_core_def)
qed

end
