(* ===== verification/GateCredential.thy ===== *)
theory GateCredential
  imports PyText
begin

text \<open>
  \<open>app/gate_credential.py\<close>: a portal-issued, gate-scoped credential. The portal is a service outside the
  repository: what one introspection call brings back is an argument. Accepted answers are cached for a
  bounded time under the digest of the credential.
\<close>

section \<open>Settings\<close>

definition gate_credential_prefix :: string where
  "gate_credential_prefix = ''rfx_ac_''"

definition max_credential_chars :: nat where
  "max_credential_chars = 200"

definition max_cache_entries :: nat where
  "max_cache_entries = 512"

text \<open>The URL text; the two durations are the parsed environment values, \<open>None\<close> when unset or no number.\<close>

record gate_settings =
  gt_url :: string
  gt_cache :: "rat option"
  gt_timeout :: "rat option"

definition introspection_url :: "ucd \<Rightarrow> gate_settings \<Rightarrow> string" where
  "introspection_url u st = py_strip u (gt_url st)"

definition gate_enabled :: "ucd \<Rightarrow> gate_settings \<Rightarrow> bool" where
  "gate_enabled u st \<longleftrightarrow> introspection_url u st \<noteq> []"

definition float_env :: "rat option \<Rightarrow> rat \<Rightarrow> rat" where
  "float_env parsed dflt = (case parsed of None \<Rightarrow> dflt | Some v \<Rightarrow> if 0 \<le> v then v else dflt)"

definition cache_seconds :: "gate_settings \<Rightarrow> rat" where
  "cache_seconds st = float_env (gt_cache st) 30"

definition timeout_seconds :: "gate_settings \<Rightarrow> rat" where
  "timeout_seconds st = (let v = float_env (gt_timeout st) 5 in if 0 < v then v else 5)"

section \<open>The cache\<close>

type_synonym gate_cache = "(string \<times> string \<times> rat) list"

definition cache_get ::
  "(string \<Rightarrow> string) \<Rightarrow> gate_settings \<Rightarrow> rat \<Rightarrow> string \<Rightarrow> gate_cache \<Rightarrow> gate_cache \<times> string option" where
  "cache_get digest st now credential cache =
     (if cache_seconds st \<le> 0 then (cache, None)
      else case map_of cache (digest credential) of
        None \<Rightarrow> (cache, None)
      | Some (gate_id, expires_at) \<Rightarrow>
          if expires_at \<le> now then (filter (\<lambda>p. fst p \<noteq> digest credential) cache, None)
          else (cache, Some gate_id))"

definition entry_ttl :: "gate_settings \<Rightarrow> rat option \<Rightarrow> rat" where
  "entry_ttl st expires_in =
     (case expires_in of None \<Rightarrow> cache_seconds st | Some x \<Rightarrow> min (cache_seconds st) (max x 0))"

definition cache_put ::
  "(string \<Rightarrow> string) \<Rightarrow> gate_settings \<Rightarrow> rat \<Rightarrow> string \<Rightarrow> string \<Rightarrow> rat option \<Rightarrow> gate_cache \<Rightarrow> gate_cache" where
  "cache_put digest st now credential gate_id expires_in cache =
     (if cache_seconds st \<le> 0 \<or> entry_ttl st expires_in \<le> 0 then cache
      else dput (digest credential) (gate_id, now + entry_ttl st expires_in)
             (if max_cache_entries \<le> length cache then [] else cache))"

section \<open>Introspection\<close>

text \<open>What a call brings back: an HTTP error, no connection, a body that is no JSON, or a JSON value.\<close>

datatype portal_answer = PortalHttpError int | PortalUnreachable | PortalNoJson | PortalJson json

text \<open>\<open>until\<close>: seconds from now to an RFC 3339 text, \<open>None\<close> when it does not parse.\<close>

definition seconds_until :: "(string \<Rightarrow> rat option) \<Rightarrow> json \<Rightarrow> rat option" where
  "seconds_until until rfc3339 =
     (case rfc3339 of JStr s \<Rightarrow> if s = [] then None else until s | _ \<Rightarrow> None)"

definition introspect :: "(string \<Rightarrow> rat option) \<Rightarrow> portal_answer \<Rightarrow> (string \<times> rat option) option" where
  "introspect until answer =
     (case answer of
        PortalJson (JObj d) \<Rightarrow>
          if dget d ''active'' \<noteq> JBool True then None
          else (case dget d ''gate_id'' of
            JStr gate_id \<Rightarrow>
              if gate_id = [] then None else Some (gate_id, seconds_until until (dget d ''expires_at''))
          | _ \<Rightarrow> None)
      | _ \<Rightarrow> None)"

section \<open>The entry point\<close>

datatype gate_status = Accept | Unauthenticated | GateMismatch | GateNotDeclared

text \<open>\<open>len\<close> of a text counts characters: the bytes that do not continue one.\<close>

definition char_count :: "string \<Rightarrow> nat" where
  "char_count s = length (filter (\<lambda>c. (of_char c :: nat) div 64 \<noteq> 2) s)"

record gate_call =
  gc_bearer :: string
  gc_declared :: "string option"
  gc_now :: rat
  gc_put_now :: rat
  gc_answer :: portal_answer

definition local_refusal :: "ucd \<Rightarrow> gate_settings \<Rightarrow> gate_call \<Rightarrow> gate_status option" where
  "local_refusal u st c =
     (if \<not> gate_enabled u st then Some Unauthenticated
      else if \<not> prefix gate_credential_prefix (gc_bearer c) then Some Unauthenticated
      else if max_credential_chars < char_count (gc_bearer c) then Some Unauthenticated
      else if py_strip u (case gc_declared c of None \<Rightarrow> [] | Some s \<Rightarrow> s) = [] then Some GateNotDeclared
      else None)"

definition declared_gate :: "ucd \<Rightarrow> gate_call \<Rightarrow> string" where
  "declared_gate u c = py_strip u (case gc_declared c of None \<Rightarrow> [] | Some s \<Rightarrow> s)"

definition gate_verdict :: "ucd \<Rightarrow> gate_call \<Rightarrow> string \<Rightarrow> gate_status" where
  "gate_verdict u c gate_id = (if declared_gate u c \<noteq> gate_id then GateMismatch else Accept)"

definition authorize ::
  "ucd \<Rightarrow> (string \<Rightarrow> string) \<Rightarrow> (string \<Rightarrow> rat option) \<Rightarrow> gate_settings \<Rightarrow> gate_call \<Rightarrow> gate_cache \<Rightarrow>
   gate_cache \<times> gate_status" where
  "authorize u digest until st c cache =
     (case local_refusal u st c of
        Some refusal \<Rightarrow> (cache, refusal)
      | None \<Rightarrow>
          (case cache_get digest st (gc_now c) (gc_bearer c) cache of
             (cache1, Some gate_id) \<Rightarrow> (cache1, gate_verdict u c gate_id)
           | (cache1, None) \<Rightarrow>
               (case introspect until (gc_answer c) of
                  None \<Rightarrow> (cache1, Unauthenticated)
                | Some (gate_id, expires_in) \<Rightarrow>
                    (cache_put digest st (gc_put_now c) (gc_bearer c) gate_id expires_in cache1,
                     gate_verdict u c gate_id))))"

section \<open>Calls in sequence\<close>

text \<open>A process handles calls one after another on one clock; \<open>confirmed\<close> is the history: which credential
  the portal confirmed for which gate, and when.\<close>

record gate_state =
  gs_cache :: gate_cache
  gs_time :: rat
  gs_confirmed :: "(string \<times> string \<times> rat) list"

definition confirmation :: "(string \<Rightarrow> rat option) \<Rightarrow> gate_call \<Rightarrow> (string \<times> string \<times> rat) list" where
  "confirmation until c =
     (case introspect until (gc_answer c) of None \<Rightarrow> []
      | Some (gate_id, _) \<Rightarrow> [(gc_bearer c, gate_id, gc_put_now c)])"

text \<open>Only a call that misses the cache reaches the portal.\<close>

definition gate_call_step ::
  "ucd \<Rightarrow> (string \<Rightarrow> string) \<Rightarrow> (string \<Rightarrow> rat option) \<Rightarrow> gate_settings \<Rightarrow> gate_call \<Rightarrow> gate_state \<Rightarrow> gate_state" where
  "gate_call_step u digest until st c s =
     (let asked = (local_refusal u st c = None \<and>
                   snd (cache_get digest st (gc_now c) (gc_bearer c) (gs_cache s)) = None)
      in \<lparr>gs_cache = fst (authorize u digest until st c (gs_cache s)), gs_time = gc_put_now c,
          gs_confirmed = gs_confirmed s @ (if asked then confirmation until c else [])\<rparr>)"

inductive gate_reach ::
  "ucd \<Rightarrow> (string \<Rightarrow> string) \<Rightarrow> (string \<Rightarrow> rat option) \<Rightarrow> gate_settings \<Rightarrow> gate_state \<Rightarrow> bool"
  for u digest until st where
  gate_start: "gate_reach u digest until st \<lparr>gs_cache = [], gs_time = t, gs_confirmed = []\<rparr>"
| gate_next: "gate_reach u digest until st s \<Longrightarrow> gs_time s \<le> gc_now c \<Longrightarrow> gc_now c \<le> gc_put_now c \<Longrightarrow>
    gate_reach u digest until st (gate_call_step u digest until st c s)"
| gate_clear: "gate_reach u digest until st s \<Longrightarrow> gate_reach u digest until st (s\<lparr>gs_cache := []\<rparr>)"

text \<open>Every cached answer is one the portal gave, no older than the cache duration at its deadline.\<close>

definition cache_ok :: "(string \<Rightarrow> string) \<Rightarrow> gate_settings \<Rightarrow> gate_state \<Rightarrow> bool" where
  "cache_ok digest st s \<longleftrightarrow> length (gs_cache s) \<le> max_cache_entries \<and>
     (\<forall>key gate_id deadline. (key, gate_id, deadline) \<in> set (gs_cache s) \<longrightarrow>
        (\<exists>cred t. (cred, gate_id, t) \<in> set (gs_confirmed s) \<and> digest cred = key \<and> deadline \<le> t + cache_seconds st))"

lemma in_dput: "p \<in> set (dput k v d) \<Longrightarrow> p = (k, v) \<or> p \<in> set d"
  by (induction k v d rule: dput.induct) (auto split: if_splits)

lemma length_dput: "length (dput k v d) \<le> Suc (length d)"
  by (induction k v d rule: dput.induct) auto

lemma entry_ttl_le: "entry_ttl st x \<le> cache_seconds st"
  by (simp add: entry_ttl_def split: option.split)

lemma cache_get_sub: "set (fst (cache_get digest st now cred cache)) \<subseteq> set cache \<and>
    length (fst (cache_get digest st now cred cache)) \<le> length cache"
  by (auto simp: cache_get_def split: option.split)

lemma cache_put_length: "length cache \<le> max_cache_entries \<Longrightarrow>
    length (cache_put digest st now cred g x cache) \<le> max_cache_entries"
proof -
  assume a: "length cache \<le> max_cache_entries"
  let ?base = "if max_cache_entries \<le> length cache then [] else cache"
  have "length ?base < max_cache_entries" by (simp add: max_cache_entries_def)
  then have "length (dput k v ?base) \<le> max_cache_entries" for k v
    using length_dput [of k v ?base] by linarith
  then show ?thesis using a by (simp add: cache_put_def)
qed

lemma in_cache_put:
  "p \<in> set (cache_put digest st now cred g x cache) \<Longrightarrow>
     p = (digest cred, g, now + entry_ttl st x) \<or> p \<in> set cache"
  by (auto simp: cache_put_def split: if_splits dest: in_dput)

lemma cache_seconds_nonneg: "0 \<le> cache_seconds st"
  by (simp add: cache_seconds_def float_env_def split: option.split)

lemma authorize_cache:
  assumes "p \<in> set (fst (authorize u digest until st c cache))" "p \<notin> set cache"
  shows "\<exists>g x. introspect until (gc_answer c) = Some (g, x) \<and> local_refusal u st c = None \<and>
    snd (cache_get digest st (gc_now c) (gc_bearer c) cache) = None \<and>
    p = (digest (gc_bearer c), g, gc_put_now c + entry_ttl st x)"
proof -
  obtain cache1 y where g: "cache_get digest st (gc_now c) (gc_bearer c) cache = (cache1, y)" by fastforce
  have sub: "set cache1 \<subseteq> set cache" using cache_get_sub [of digest st "gc_now c" "gc_bearer c" cache] g by simp
  have l: "local_refusal u st c = None" using assms by (auto simp: authorize_def split: option.splits)
  have y: "y = None" using assms g l sub by (cases y) (auto simp: authorize_def)
  obtain gate x where i: "introspect until (gc_answer c) = Some (gate, x)"
    using assms g l y sub by (cases "introspect until (gc_answer c)") (auto simp: authorize_def)
  have "p \<in> set (cache_put digest st (gc_put_now c) (gc_bearer c) gate x cache1)"
    using assms(1) g l y i by (simp add: authorize_def)
  then show ?thesis using in_cache_put assms(2) sub g l y i by fastforce
qed

lemma authorize_length:
  assumes "length cache \<le> max_cache_entries"
  shows "length (fst (authorize u digest until st c cache)) \<le> max_cache_entries"
proof -
  obtain cache1 y where g: "cache_get digest st (gc_now c) (gc_bearer c) cache = (cache1, y)" by fastforce
  have "length cache1 \<le> max_cache_entries"
    using assms cache_get_sub [of digest st "gc_now c" "gc_bearer c" cache] g by auto
  then show ?thesis using assms g cache_put_length by (auto simp: authorize_def split: option.split)
qed

lemma cache_ok_step:
  assumes "cache_ok digest st s"
  shows "cache_ok digest st (gate_call_step u digest until st c s)"
  unfolding cache_ok_def
proof (intro conjI allI impI)
  show "length (gs_cache (gate_call_step u digest until st c s)) \<le> max_cache_entries"
    using assms authorize_length by (simp add: cache_ok_def gate_call_step_def)
  fix key g deadline
  assume e: "(key, g, deadline) \<in> set (gs_cache (gate_call_step u digest until st c s))"
  show "\<exists>cred t. (cred, g, t) \<in> set (gs_confirmed (gate_call_step u digest until st c s)) \<and>
      digest cred = key \<and> deadline \<le> t + cache_seconds st"
  proof (cases "(key, g, deadline) \<in> set (gs_cache s)")
    case True
    then show ?thesis using assms by (fastforce simp: cache_ok_def gate_call_step_def Let_def)
  next
    case False
    then obtain x where "introspect until (gc_answer c) = Some (g, x)" "local_refusal u st c = None"
      "snd (cache_get digest st (gc_now c) (gc_bearer c) (gs_cache s)) = None"
      "key = digest (gc_bearer c)" "deadline = gc_put_now c + entry_ttl st x"
      using e authorize_cache [of "(key, g, deadline)" u digest until st c "gs_cache s"]
      by (auto simp: gate_call_step_def)
    then show ?thesis
      using entry_ttl_le [of st x] by (auto simp: gate_call_step_def confirmation_def intro!: exI [of _ "gc_put_now c"])
  qed
qed

lemma gate_reach_ok: "gate_reach u digest until st s \<Longrightarrow> cache_ok digest st s"
proof (induction rule: gate_reach.induct)
  case (gate_next s c)
  show ?case by (rule cache_ok_step [OF gate_next.IH])
qed (auto simp: cache_ok_def)

text \<open>A gate credential is accepted only while fresh: every accepting call declares exactly the gate that the
  portal confirmed for that credential (up to a collision of the digest) at most the cache duration
  before the call. A revocation therefore takes effect within that duration.\<close>

theorem accepted_credential_fresh:
  assumes "gate_reach u digest until st s" "gs_time s \<le> gc_now c" "gc_now c \<le> gc_put_now c"
    and "snd (authorize u digest until st c (gs_cache s)) = Accept"
  shows "\<exists>cred t. (cred, declared_gate u c, t) \<in> set (gs_confirmed (gate_call_step u digest until st c s)) \<and>
    digest cred = digest (gc_bearer c) \<and> gc_now c \<le> t + cache_seconds st"
proof -
  obtain cache1 y where g: "cache_get digest st (gc_now c) (gc_bearer c) (gs_cache s) = (cache1, y)" by fastforce
  have l: "local_refusal u st c = None"
    using assms(4) by (auto simp: authorize_def local_refusal_def split: option.splits if_splits)
  show ?thesis
  proof (cases y)
    case (Some gate)
    then have "gate = declared_gate u c"
      using assms(4) g l by (simp add: authorize_def gate_verdict_def split: if_splits)
    moreover obtain deadline where "map_of (gs_cache s) (digest (gc_bearer c)) = Some (gate, deadline)"
      "gc_now c < deadline"
      using g Some by (auto simp: cache_get_def split: if_splits option.splits prod.splits)
    moreover have "(digest (gc_bearer c), gate, deadline) \<in> set (gs_cache s)"
      using calculation(2) by (rule map_of_SomeD)
    ultimately show ?thesis using gate_reach_ok [OF assms(1)]
      by (fastforce simp: cache_ok_def gate_call_step_def Let_def)
  next
    case None
    then obtain gate x where i: "introspect until (gc_answer c) = Some (gate, x)" "gate = declared_gate u c"
      using assms(4) g l
      by (cases "introspect until (gc_answer c)") (auto simp: authorize_def gate_verdict_def split: if_splits)
    then show ?thesis using assms(3) g l None cache_seconds_nonneg [of st]
      by (auto simp: gate_call_step_def confirmation_def intro!: exI [of _ "gc_bearer c"] exI [of _ "gc_put_now c"])
  qed
qed

definition sample_gate_settings :: gate_settings where
  "sample_gate_settings = \<lparr>gt_url = ''https://portal'', gt_cache = None, gt_timeout = None\<rparr>"

definition sample_gate_call :: gate_call where
  "sample_gate_call = \<lparr>gc_bearer = ''rfx_ac_1'', gc_declared = Some '' G '', gc_now = 5, gc_put_now = 6,
     gc_answer = PortalJson (JObj [(''active'', JBool True), (''gate_id'', JStr ''G'')])\<rparr>"

theorem accepted_credential_fresh_witness:
  "\<exists>cred t. (cred, ''G'', t) \<in> set (gs_confirmed (gate_call_step plain_ucd id (\<lambda>_. None) sample_gate_settings
     sample_gate_call \<lparr>gs_cache = [], gs_time = 0, gs_confirmed = []\<rparr>)) \<and> cred = ''rfx_ac_1'' \<and> 5 \<le> t + 30"
proof -
  have a: "snd (authorize plain_ucd id (\<lambda>_. None) sample_gate_settings sample_gate_call []) = Accept"
    "declared_gate plain_ucd sample_gate_call = ''G''" "cache_seconds sample_gate_settings = 30"
    "gc_bearer sample_gate_call = ''rfx_ac_1''" "gc_now sample_gate_call = 5" "gc_put_now sample_gate_call = 6"
    by code_simp+
  show ?thesis
    using accepted_credential_fresh [OF gate_start [of plain_ucd id "\<lambda>_. None" sample_gate_settings 0],
        of sample_gate_call] a by simp
qed

text \<open>The cache never holds more than its limit of entries, whatever sequence of calls fills it.\<close>

theorem gate_cache_bounded:
  assumes "gate_reach u digest until st s"
  shows "length (gs_cache (gate_call_step u digest until st c s)) \<le> max_cache_entries"
  using cache_ok_step [OF gate_reach_ok [OF assms]] by (simp add: cache_ok_def)

theorem gate_cache_bounded_witness:
  "length (gs_cache (gate_call_step plain_ucd id (\<lambda>_. None) sample_gate_settings sample_gate_call
     \<lparr>gs_cache = [], gs_time = 0, gs_confirmed = []\<rparr>)) \<le> max_cache_entries"
  by (rule gate_cache_bounded [OF gate_start])

end
