(* ===== verification/Server.thy ===== *)
theory Server
  imports Decide GateCredential
begin

text \<open>
  \<open>app/server.py\<close>: the HTTP surface of the engine. A request comes in, is authorised, routed and answered;
  the holds are listed, read and resolved; an action envelope is handed to the decision handler. The worker
  pool around it is the theory \<open>ServerPool\<close>.

  A handler returns a new state and either its value or the reason it stopped: an answer already given
  (\<open>self._respond(...); return\<close>), or an exception for the catch-all of \<open>do_GET\<close> and \<open>do_POST\<close>. Answers
  keep their status, error code, headers and data; the explanatory sentences in them, and the \<open>remedy\<close>
  block made of such sentences, are left out.
\<close>

section \<open>Requests and answers\<close>

datatype http_method = Get | Post | Put | Delete | Patch

text \<open>\<open>rq_length\<close> is the \<open>Content-Length\<close> header, \<open>rq_sent\<close> what the client sends until it closes its side.\<close>

record request =
  rq_method :: http_method
  rq_target :: string
  rq_auth :: "string option"
  rq_gate :: "string option"
  rq_length :: "string option"
  rq_sent :: string

record response =
  rs_status :: int
  rs_body :: dict
  rs_headers :: "(string \<times> string) list"

datatype stop = Raised | Answer response

definition respond :: "int \<Rightarrow> dict \<Rightarrow> response" where
  "respond status body = \<lparr>rs_status = status, rs_body = body, rs_headers = []\<rparr>"

definition refuse :: "int \<Rightarrow> string \<Rightarrow> stop + 'a" where
  "refuse status err = Inl (Answer (respond status [(''error'', JStr err)]))"

definition unauthorized :: response where
  "unauthorized = \<lparr>rs_status = 401, rs_body = [(''error'', JStr ''unauthorized'')],
     rs_headers = [(''WWW-Authenticate'', ''Bearer'')]\<rparr>"

text \<open>What a JSON text decodes to: no JSON (\<open>JSONDecodeError\<close>, \<open>UnicodeDecodeError\<close>), another exception
  (nesting too deep, an integer of more digits than \<open>int\<close> converts), or a value.\<close>

datatype decoded = NotJson | DecodeRaised | Decoded json

text \<open>The environment of the process.\<close>

record server_config =
  sc_auth_token :: "string option"
  sc_principals :: config
  sc_policy :: "string option"
  sc_gate :: gate_settings
  sc_max_body :: int

text \<open>What lies outside: the engine and the database of \<open>deps\<close>, the JSON decoder, the JSON files, the digest of
  a credential, the parser of RFC 3339 texts, and the standard library on texts that are not ASCII.\<close>

record outside =
  ou_deps :: deps
  ou_loads :: "string \<Rightarrow> decoded"
  ou_json_file :: "string \<Rightarrow> json option"
  ou_sha256 :: "string \<Rightarrow> string"
  ou_until :: "string \<Rightarrow> rat option"
  ou_urlparse :: "string \<Rightarrow> (string \<times> string) option"
  ou_unquote :: "string \<Rightarrow> string"
  ou_int :: "string \<Rightarrow> int option"

abbreviation ou_ucd :: "outside \<Rightarrow> ucd" where
  "ou_ucd ou \<equiv> dp_ucd (ou_deps ou)"

text \<open>The clock readings, lock and append outcomes of one request.\<close>

record timing =
  tm_call :: call_env
  tm_gate_now :: rat
  tm_gate_put :: rat
  tm_portal :: portal_answer
  tm_get_now :: rat
  tm_get_io :: hio
  tm_sweep_io :: "json \<Rightarrow> hio"
  tm_expired_now :: rat
  tm_resolve_now :: rat
  tm_resolve_io :: hio

record server =
  sv_core :: core
  sv_cache :: gate_cache

section \<open>URLs\<close>

text \<open>\<open>urlparse\<close>: path and query of an origin-form target. The fragment, and the parameters of the last
  segment, are cut off. Any other target is the library's, \<open>None\<close> a \<open>ValueError\<close>.\<close>

definition drop_params :: "string \<Rightarrow> string" where
  "drop_params p =
     (let seg = after_last CHR ''/'' p
      in take (length p - length seg) p @ before_first CHR '';'' seg)"

definition url_split :: "outside \<Rightarrow> string \<Rightarrow> stop + string \<times> string" where
  "url_split ou target =
     (if prefix ''/'' target \<and> \<not> prefix ''//'' target then
        let t = before_first CHR ''#'' target
        in Inr (drop_params (before_first CHR ''?'' t), after_first CHR ''?'' t)
      else case ou_urlparse ou target of None \<Rightarrow> Inl Raised | Some p \<Rightarrow> Inr p)"

definition hex_value :: "char \<Rightarrow> nat option" where
  "hex_value c =
     (if is_digit_char c then Some (code c - 48)
      else let l = code (lower_char c) in if 97 \<le> l \<and> l \<le> 102 then Some (l - 87) else None)"

fun percent_decode :: "string \<Rightarrow> string" where
  "percent_decode [] = []"
| "percent_decode [a] = [a]"
| "percent_decode [a, b] = [a, b]"
| "percent_decode (a # b # c # s) =
     (if a = CHR ''%'' then
        case hex_value b of
          None \<Rightarrow> a # percent_decode (b # c # s)
        | Some x \<Rightarrow> (case hex_value c of
            None \<Rightarrow> a # percent_decode (b # c # s)
          | Some y \<Rightarrow> char_of (16 * x + y) # percent_decode s)
      else a # percent_decode (b # c # s))"

text \<open>\<open>unquote\<close> with \<open>+\<close> for a space; bytes that are not ASCII are the library's.\<close>

definition unquote_plus :: "outside \<Rightarrow> string \<Rightarrow> string" where
  "unquote_plus ou s =
     (let t = map (\<lambda>c. if c = CHR ''+'' then CHR '' '' else c) s; d = percent_decode t
      in if is_ascii t \<and> is_ascii d then d else ou_unquote ou t)"

text \<open>\<open>parse_qs(query, keep_blank_values=False)\<close>, as the pairs in order: \<open>qs.get(k, [None])[0]\<close> is the first.\<close>

definition query_pair :: "outside \<Rightarrow> string \<Rightarrow> (string \<times> string) option" where
  "query_pair ou piece =
     (let v = after_first CHR ''='' piece
      in if CHR ''='' \<notin> set piece \<or> v = [] then None
         else Some (unquote_plus ou (before_first CHR ''='' piece), unquote_plus ou v))"

definition parse_qs :: "outside \<Rightarrow> string \<Rightarrow> (string \<times> string) list" where
  "parse_qs ou query = List.map_filter (query_pair ou) (split_on CHR ''&'' query)"

text \<open>\<open>int(text)\<close>: spaces around, a sign, digits with single underscores between them, 4300 at most.\<close>

fun digit_groups :: "bool \<Rightarrow> string \<Rightarrow> bool" where
  "digit_groups after_digit [] = after_digit"
| "digit_groups after_digit (c # s) =
     (if is_digit_char c then digit_groups True s
      else c = CHR ''_'' \<and> after_digit \<and> digit_groups False s)"

definition digits_value :: "string \<Rightarrow> int" where
  "digits_value s = foldl (\<lambda>n c. 10 * n + int (code c - 48)) 0 s"

definition py_int :: "outside \<Rightarrow> string \<Rightarrow> int option" where
  "py_int ou text =
     (if \<not> is_ascii text then ou_int ou text
      else
        let s = strip_ascii text;
            body = (if prefix ''-'' s \<or> prefix ''+'' s then tl s else s);
            digits = filter is_digit_char body
        in if \<not> digit_groups False body \<or> 4300 < length digits then None
           else Some (if prefix ''-'' s then - digits_value digits else digits_value digits))"

section \<open>Resolution policy\<close>

definition non_resolvable_rules :: "string list" where
  "non_resolvable_rules =
     [''irreversible_systemic_prod'', ''safety_function_override_prod'', ''outside_operating_envelope_prod'']"

definition human_only :: json where
  "human_only = JArr [JStr ''human'']"

definition with_default :: "dict \<Rightarrow> dict" where
  "with_default d = (if map_of d ''default'' = None then dput ''default'' human_only d else d)"

definition load_resolution_policy :: "outside \<Rightarrow> string option \<Rightarrow> stop + dict" where
  "load_resolution_policy ou env =
     (let raw = py_strip (ou_ucd ou) (case env of None \<Rightarrow> [] | Some s \<Rightarrow> s);
          from_file = (case ou_json_file ou raw of
                         Some (JObj d) \<Rightarrow> with_default d
                       | _ \<Rightarrow> [(''default'', human_only)])
      in if raw = [] then Inr [(''default'', human_only)]
         else case ou_loads ou raw of
                DecodeRaised \<Rightarrow> Inl Raised
              | Decoded (JObj d) \<Rightarrow> Inr (with_default d)
              | _ \<Rightarrow> Inr from_file)"

definition rule_short :: "string \<Rightarrow> string" where
  "rule_short rule = (if CHR ''/'' \<in> set rule then after_last CHR ''/'' rule else rule)"

definition allowed_principal_types :: "ucd \<Rightarrow> string \<Rightarrow> dict \<Rightarrow> string list" where
  "allowed_principal_types u rule policy =
     (case dget_or policy (rule_short rule) (dget_or policy ''default'' human_only) of
        JArr xs \<Rightarrow> map (py_str u) xs
      | _ \<Rightarrow> [''human''])"

section \<open>Authorisation\<close>

definition header_bearer :: "ucd \<Rightarrow> string option \<Rightarrow> string option" where
  "header_bearer u header =
     (case header of
        None \<Rightarrow> None
      | Some h \<Rightarrow> if prefix ''Bearer '' h then Some (py_strip u (drop 7 h)) else None)"

definition presented_bearer :: "ucd \<Rightarrow> request \<Rightarrow> string" where
  "presented_bearer u rq = (case header_bearer u (rq_auth rq) of None \<Rightarrow> [] | Some b \<Rightarrow> b)"

text \<open>\<open>hmac.compare_digest\<close> raises \<open>TypeError\<close> on texts that are not ASCII.\<close>

definition authorized :: "outside \<Rightarrow> server_config \<Rightarrow> bool \<Rightarrow> request \<Rightarrow> stop + bool" where
  "authorized ou cfg allow_resolver_tokens rq =
     (case sc_auth_token cfg of
        None \<Rightarrow> Inr True
      | Some expected \<Rightarrow>
          if expected = [] then Inr True
          else case header_bearer (ou_ucd ou) (rq_auth rq) of
            None \<Rightarrow> Inr False
          | Some provided \<Rightarrow>
              if \<not> is_ascii provided \<or> \<not> is_ascii expected then Inl Raised
              else if provided = expected then Inr True
              else if allow_resolver_tokens then
                (case principal_for_token (ou_ucd ou) (sc_principals cfg) (Some provided) of
                   Inl _ \<Rightarrow> Inl Raised
                 | Inr bound \<Rightarrow> Inr (bound \<noteq> None))
              else Inr False)"

definition require_auth :: "outside \<Rightarrow> server_config \<Rightarrow> bool \<Rightarrow> request \<Rightarrow> stop + unit" where
  "require_auth ou cfg allow_resolver_tokens rq =
     bindE (authorized ou cfg allow_resolver_tokens rq)
       (\<lambda>ok. if ok then Inr () else Inl (Answer unauthorized))"

text \<open>\<open>POST /v1/decide\<close> has a second way in: a gate credential of the portal.\<close>

definition credential_call :: "ucd \<Rightarrow> timing \<Rightarrow> request \<Rightarrow> gate_call" where
  "credential_call u tm rq =
     \<lparr>gc_bearer = presented_bearer u rq, gc_declared = rq_gate rq, gc_now = tm_gate_now tm,
      gc_put_now = tm_gate_put tm, gc_answer = tm_portal tm\<rparr>"

definition gate_refusal :: "gate_status \<Rightarrow> stop + unit" where
  "gate_refusal status =
     (case status of
        Accept \<Rightarrow> Inr ()
      | Unauthenticated \<Rightarrow> Inl (Answer unauthorized)
      | GateMismatch \<Rightarrow>
          Inl (Answer (respond 403 [(''error'', JStr ''forbidden''), (''reason'', JStr ''gate_mismatch'')]))
      | GateNotDeclared \<Rightarrow>
          Inl (Answer (respond 403 [(''error'', JStr ''forbidden''), (''reason'', JStr ''gate_not_declared'')])))"

definition authorize_decide ::
  "outside \<Rightarrow> server_config \<Rightarrow> timing \<Rightarrow> request \<Rightarrow> server \<Rightarrow> server \<times> (stop + unit)" where
  "authorize_decide ou cfg tm rq s =
     (case authorized ou cfg False rq of
        Inl e \<Rightarrow> (s, Inl e)
      | Inr ok \<Rightarrow>
          if ok then (s, Inr ())
          else case authorize (ou_ucd ou) (ou_sha256 ou) (ou_until ou) (sc_gate cfg)
                      (credential_call (ou_ucd ou) tm rq) (sv_cache s) of
            (cache, status) \<Rightarrow> (s\<lparr>sv_cache := cache\<rparr>, gate_refusal status))"

section \<open>Bodies\<close>

text \<open>\<open>rfile.read(n)\<close>: a negative \<open>n\<close> reads to the end.\<close>

definition read_bytes :: "int \<Rightarrow> string \<Rightarrow> string" where
  "read_bytes n sent = (if n < 0 then sent else take (nat n) sent)"

definition read_body :: "outside \<Rightarrow> server_config \<Rightarrow> request \<Rightarrow> stop + string" where
  "read_body ou cfg rq =
     (case py_int ou (case rq_length rq of None \<Rightarrow> [] | Some s \<Rightarrow> s) of
        None \<Rightarrow> refuse 411 ''content_length_required''
      | Some n \<Rightarrow>
          if sc_max_body cfg < n then refuse 413 ''payload_too_large''
          else Inr (read_bytes n (rq_sent rq)))"

definition read_json :: "outside \<Rightarrow> server_config \<Rightarrow> request \<Rightarrow> stop + json" where
  "read_json ou cfg rq =
     bindE (read_body ou cfg rq) (\<lambda>body.
       case ou_loads ou body of
         NotJson \<Rightarrow> refuse 400 ''invalid_json''
       | DecodeRaised \<Rightarrow> Inl Raised
       | Decoded j \<Rightarrow> Inr j)"

section \<open>\<open>POST /v1/decide\<close>\<close>

text \<open>A computation that reads no state, and one on the hold store.\<close>

definition pureS :: "'e + 'a \<Rightarrow> 's \<Rightarrow> 's \<times> ('e + 'a)" where
  "pureS m s = (s, m)"

definition handle_decide ::
  "outside \<Rightarrow> server_config \<Rightarrow> timing \<Rightarrow> request \<Rightarrow> server \<Rightarrow> server \<times> (stop + response)" where
  "handle_decide ou cfg tm rq =
     bindS (authorize_decide ou cfg tm rq) (\<lambda>_.
     bindS (pureS (read_json ou cfg rq)) (\<lambda>raw s.
       case process (ou_deps ou) (tm_call tm) raw (sv_core s) of
         (k, status, body) \<Rightarrow> (s\<lparr>sv_core := k\<rparr>, Inr (respond status body))))"

section \<open>\<open>GET /v1/holds\<close>\<close>

definition on_holds :: "(hs \<Rightarrow> hs \<times> (hold_exc + 'a)) \<Rightarrow> server \<Rightarrow> server \<times> (hold_exc + 'a)" where
  "on_holds m s =
     (case m (k_holds (sv_core s)) of
        (h, r) \<Rightarrow> (s\<lparr>sv_core := (sv_core s)\<lparr>k_holds := h\<rparr>\<rparr>, r))"

definition bad_parameter :: "string \<Rightarrow> stop + 'a" where
  "bad_parameter reason =
     Inl (Answer (respond 400 [(''error'', JStr ''invalid_request''), (''reason'', JStr reason)]))"

definition list_limit :: "outside \<Rightarrow> string option \<Rightarrow> stop + int" where
  "list_limit ou raw =
     (case raw of
        None \<Rightarrow> Inr 100
      | Some text \<Rightarrow>
          (case py_int ou text of
             None \<Rightarrow> bad_parameter ''limit: not an integer''
           | Some n \<Rightarrow> if 1 \<le> n \<and> n \<le> max_list_limit then Inr n else bad_parameter ''limit: out of range''))"

definition list_status :: "string option \<Rightarrow> stop + string option" where
  "list_status status =
     (case status of
        None \<Rightarrow> Inr None
      | Some s \<Rightarrow> if s \<in> set list_status_filters then Inr (Some s) else bad_parameter ''status: unrecognised'')"

definition list_answer :: "hold_exc + dict list \<times> json option \<Rightarrow> stop + response" where
  "list_answer r =
     (case r of
        Inl (UnknownCursor _) \<Rightarrow> bad_parameter ''cursor: unknown''
      | Inl _ \<Rightarrow> refuse 500 ''internal_error''
      | Inr (items, next_cursor) \<Rightarrow>
          Inr (respond 200
            ([(''items'', JArr (map JObj items)), (''count'', JInt (int (length items)))] @
             (case next_cursor of
                None \<Rightarrow> []
              | Some c \<Rightarrow> if py_truth c then [(''next_cursor'', c)] else []))))"

definition handle_list_holds ::
  "outside \<Rightarrow> timing \<Rightarrow> (string \<times> string) list \<Rightarrow> server \<Rightarrow> server \<times> (stop + response)" where
  "handle_list_holds ou tm qs =
     bindS (pureS (list_status (map_of qs ''status''))) (\<lambda>status.
     bindS (pureS (list_limit ou (map_of qs ''limit''))) (\<lambda>limit s.
       case on_holds (list_holds (dp_clk (ou_deps ou)) (tm_sweep_io tm) (tm_get_now tm) status limit
                        (map_of qs ''cursor'')) s of
         (s', r) \<Rightarrow> (s', list_answer r)))"

section \<open>\<open>GET /v1/holds/{id}\<close>\<close>

definition fetch_hold :: "outside \<Rightarrow> timing \<Rightarrow> string \<Rightarrow> server \<Rightarrow> server \<times> (stop + dict option)" where
  "fetch_hold ou tm hold_id s =
     (case on_holds (get_hold (dp_clk (ou_deps ou)) (tm_get_io tm) (tm_get_now tm) hold_id) s of
        (s', Inl _) \<Rightarrow> (s', refuse 500 ''internal_error'')
      | (s', Inr r) \<Rightarrow> (s', Inr r))"

definition not_found_hold :: "string \<Rightarrow> string \<Rightarrow> stop + 'a" where
  "not_found_hold err hold_id =
     Inl (Answer (respond 404 [(''error'', JStr err), (''hold_id'', JStr hold_id)]))"

definition handle_get_hold ::
  "outside \<Rightarrow> timing \<Rightarrow> string \<Rightarrow> server \<Rightarrow> server \<times> (stop + response)" where
  "handle_get_hold ou tm hold_id =
     bindS (fetch_hold ou tm hold_id) (\<lambda>hold.
       pureS (case hold of
                None \<Rightarrow> not_found_hold ''not_found'' hold_id
              | Some h \<Rightarrow> Inr (respond 200 h)))"

section \<open>\<open>POST /v1/holds/{id}/resolve\<close>\<close>

record resolution =
  rz_decision :: string
  rz_type :: string
  rz_id :: string
  rz_reason :: json

definition parse_resolution :: "ucd \<Rightarrow> json \<Rightarrow> stop + resolution" where
  "parse_resolution u raw =
     (case raw of
        JObj body \<Rightarrow>
          (case dget_or body ''decision'' (JStr []) of
             JStr decision \<Rightarrow>
               if decision \<notin> {''approve'', ''reject''} then refuse 400 ''invalid_request''
               else (case dget body ''principal'' of
                 JObj who \<Rightarrow>
                   (let ptype = principal_field u who ''type''; pid = principal_field u who ''id''
                    in if ptype = [] \<or> pid = [] then refuse 400 ''invalid_request''
                       else Inr \<lparr>rz_decision = decision, rz_type = ptype, rz_id = pid,
                                 rz_reason = dget body ''reason''\<rparr>)
               | _ \<Rightarrow> refuse 400 ''invalid_request'')
           | _ \<Rightarrow> refuse 400 ''invalid_request'')
      | _ \<Rightarrow> refuse 400 ''invalid_json'')"

definition hold_refusal :: "int \<Rightarrow> string \<Rightarrow> string \<Rightarrow> stop + 'a" where
  "hold_refusal status err hold_id =
     Inl (Answer (respond status [(''error'', JStr err), (''hold_id'', JStr hold_id)]))"

text \<open>Checks 1 and 2: the hold is pending, not past its deadline, and its rule may be resolved at all. A rule id
  that is no text makes \<open>"/" in rule_id\<close>, \<open>rsplit\<close> or the set lookup raise.\<close>

definition check_resolvable :: "outside \<Rightarrow> timing \<Rightarrow> string \<Rightarrow> dict \<Rightarrow> stop + string" where
  "check_resolvable ou tm hold_id hold =
     (if dget hold ''status'' \<noteq> JStr ''pending'' then hold_refusal 409 ''not_resolvable'' hold_id
      else case is_expired (dp_clk (ou_deps ou)) (tm_expired_now tm) hold of
        Inl _ \<Rightarrow> Inl Raised
      | Inr due \<Rightarrow>
          if due then hold_refusal 409 ''not_resolvable'' hold_id
          else (case dget_or hold ''rule_id'' (JStr []) of
            JStr rule \<Rightarrow>
              if rule_short rule \<in> set non_resolvable_rules
              then hold_refusal 403 ''rule_not_resolvable'' hold_id
              else Inr rule
          | _ \<Rightarrow> Inl Raised))"

definition refusal_code :: "principal_exc \<Rightarrow> string \<Rightarrow> stop + 'a" where
  "refusal_code e hold_id =
     (case e of
        PrincipalMismatch _ _ \<Rightarrow> hold_refusal 403 ''principal_mismatch'' hold_id
      | PrincipalNotVerified _ _ \<Rightarrow> hold_refusal 403 ''principal_not_verified'' hold_id
      | CompareTypeError \<Rightarrow> Inl Raised)"

text \<open>Checks 3 to 5: the asserted type is allowed, the approver is established, its type is allowed, and it is
  not the party that raised the action.\<close>

definition check_approver ::
  "outside \<Rightarrow> server_config \<Rightarrow> request \<Rightarrow> string \<Rightarrow> dict \<Rightarrow> string \<Rightarrow> resolution \<Rightarrow> stop + approver" where
  "check_approver ou cfg rq hold_id hold rule rz =
     bindE (load_resolution_policy ou (sc_policy cfg)) (\<lambda>policy.
       let allowed = allowed_principal_types (ou_ucd ou) rule policy
       in if rz_type rz \<notin> set allowed then hold_refusal 403 ''principal_type_not_allowed'' hold_id
          else case resolve_approver (ou_ucd ou) (sc_principals cfg) (Some (presented_bearer (ou_ucd ou) rq))
                      (rz_type rz) (rz_id rz) of
            Inl e \<Rightarrow> refusal_code e hold_id
          | Inr a \<Rightarrow>
              if a_type a \<notin> set allowed then hold_refusal 403 ''principal_type_not_allowed'' hold_id
              else (case held_envelope hold of
                None \<Rightarrow> Inl Raised
              | Some envelope \<Rightarrow>
                  if is_self_approval (ou_ucd ou) envelope (a_type a) (a_id a)
                  then hold_refusal 403 ''actor_is_approver'' hold_id
                  else Inr a))"

definition source_text :: "source \<Rightarrow> string" where
  "source_text src = (case src of Credential \<Rightarrow> ''credential'' | Asserted \<Rightarrow> ''asserted'')"

definition resolved_webhook :: "string \<Rightarrow> string \<Rightarrow> dict \<Rightarrow> effect" where
  "resolved_webhook hold_id rule updated =
     Webhook ''hold.resolved''
       [(''hold_id'', JStr hold_id), (''rule_id'', JStr rule),
        (''status'', dget_or updated ''status'' (JStr [])), (''decided_by'', dget_or updated ''decided_by'' (JStr [])),
        (''decided_by_verified'', dget_or updated ''decided_by_verified'' (JBool False)),
        (''principal_source'', dget_or updated ''principal_source'' (JStr ''asserted''))]"

definition approver_resolution ::
  "outside \<Rightarrow> timing \<Rightarrow> string \<Rightarrow> resolution \<Rightarrow> approver \<Rightarrow> hs \<Rightarrow> hs \<times> (hold_exc + dict option)" where
  "approver_resolution ou tm hold_id rz a =
     resolve_hold (dp_clk (ou_deps ou)) (tm_resolve_io tm) (tm_resolve_now tm) hold_id (rz_decision rz)
       (a_type a) (a_id a) (if is_str (rz_reason rz) then rz_reason rz else JNull)
       (a_verified a) (source_text (a_source a))"

definition perform_resolution ::
  "outside \<Rightarrow> timing \<Rightarrow> string \<Rightarrow> string \<Rightarrow> resolution \<Rightarrow> approver \<Rightarrow> server \<Rightarrow> server \<times> (stop + response)" where
  "perform_resolution ou tm hold_id rule rz a s =
     (case on_holds (approver_resolution ou tm hold_id rz a) s of
        (s', Inl _) \<Rightarrow> (s', refuse 500 ''internal_error'')
      | (s', Inr None) \<Rightarrow> (s', not_found_hold ''not_resolvable'' hold_id)
      | (s', Inr (Some updated)) \<Rightarrow>
          (fst (on_holds (\<lambda>h. (emit (resolved_webhook hold_id rule updated) h, Inr ())) s'),
           Inr (respond 200 updated)))"

definition handle_resolve_hold ::
  "outside \<Rightarrow> server_config \<Rightarrow> timing \<Rightarrow> request \<Rightarrow> string \<Rightarrow> server \<Rightarrow> server \<times> (stop + response)" where
  "handle_resolve_hold ou cfg tm rq hold_id =
     bindS (pureS (require_auth ou cfg True rq)) (\<lambda>_.
     bindS (pureS (bindE (read_json ou cfg rq) (parse_resolution (ou_ucd ou)))) (\<lambda>rz.
     bindS (fetch_hold ou tm hold_id) (\<lambda>found.
       case found of
         None \<Rightarrow> pureS (not_found_hold ''not_resolvable'' hold_id)
       | Some hold \<Rightarrow>
           bindS (pureS (check_resolvable ou tm hold_id hold)) (\<lambda>rule.
           bindS (pureS (check_approver ou cfg rq hold_id hold rule rz)) (\<lambda>a.
             perform_resolution ou tm hold_id rule rz a)))))"

section \<open>\<open>GET /healthz\<close>\<close>

text \<open>The blocks of the report; a block whose source raised is \<open>None\<close> and its key is left out.\<close>

record health_sources =
  hl_epoch :: "dict option"
  hl_ttl :: "int option"
  hl_pool :: "dict option"
  hl_revision :: "string option"

definition build_revision :: "ucd \<Rightarrow> string option \<Rightarrow> string" where
  "build_revision u env =
     (let raw = map lower_char (py_strip u (case env of None \<Rightarrow> [] | Some s \<Rightarrow> s))
      in if 7 \<le> length raw \<and> length raw \<le> 40 \<and> list_all (\<lambda>c. c \<in> set ''0123456789abcdef'') raw
         then raw else [])"

definition ledger_health :: "dict \<Rightarrow> dict" where
  "ledger_health ep =
     [(''durable'', JBool (py_truth (dget ep ''durable''))),
      (''path'', dget_or ep ''path'' (JStr [])),
      (''path_mount_point'', dget_or ep ''path_mount_point'' (JStr [])),
      (''path_fstype'', dget_or ep ''path_fstype'' (JStr [])),
      (''path_ephemeral'', dget ep ''path_ephemeral''),
      (''epoch_id'', dget_or ep ''epoch_id'' (JStr [])),
      (''window_seconds'', dget_or ep ''window_seconds'' (JInt 0)),
      (''restored_sessions'', dget_or ep ''restored_sessions'' (JInt 0)),
      (''restored_entries'', dget_or ep ''restored_entries'' (JInt 0)),
      (''scan_truncated'', JBool (py_truth (dget ep ''scan_truncated'')))]"

definition reason_text :: "capability_reason \<Rightarrow> string" where
  "reason_text r =
     (case r of VerificationNotConfigured \<Rightarrow> ''verification_not_configured''
      | CredentialsBound \<Rightarrow> ''credentials_bound''
      | UnverifiedApproversAccepted \<Rightarrow> ''unverified_approvers_accepted'')"

definition holds_health :: "capability \<Rightarrow> int \<Rightarrow> dict" where
  "holds_health c ttl =
     [(''resolvable'', JBool (resolvable c)), (''reason'', JStr (reason_text (cap_reason c))),
      (''require_verified_approver'', JBool (require_verified_approver c)),
      (''verified_approvers'', JInt (int (verified_approvers c))), (''ttl_seconds'', JInt ttl)]"

definition block :: "string \<Rightarrow> dict option \<Rightarrow> dict" where
  "block key d = (case d of None \<Rightarrow> [] | Some x \<Rightarrow> if x = [] then [] else [(key, JObj x)])"

definition healthz :: "outside \<Rightarrow> server_config \<Rightarrow> health_sources \<Rightarrow> response" where
  "healthz ou cfg hl =
     (let revision = build_revision (ou_ucd ou) (hl_revision hl)
      in respond 200
           ([(''status'', JStr ''ok'')] @ (if revision = [] then [] else [(''revision'', JStr revision)]) @
            block ''ledger'' (map_option ledger_health (hl_epoch hl)) @
            block ''holds'' (map_option (holds_health (approval_capability (ou_ucd ou) (sc_principals cfg))) (hl_ttl hl)) @
            block ''server'' (hl_pool hl)))"

section \<open>Routing\<close>

definition strip_slashes :: "string \<Rightarrow> string" where
  "strip_slashes s = rev (dropWhile (\<lambda>c. c = CHR ''/'') (rev (dropWhile (\<lambda>c. c = CHR ''/'') s)))"

datatype get_route = ListHolds | OneHold string | NoGetRoute

definition get_route :: "string \<Rightarrow> get_route" where
  "get_route path =
     (if path = ''/v1/holds'' then ListHolds
      else if prefix ''/v1/holds/'' path \<and> path \<noteq> ''/v1/holds/'' then
        (let hold_id = strip_slashes (drop 10 path)
         in if CHR ''/'' \<in> set hold_id then NoGetRoute else OneHold hold_id)
      else NoGetRoute)"

definition get_inner ::
  "outside \<Rightarrow> server_config \<Rightarrow> timing \<Rightarrow> health_sources \<Rightarrow> request \<Rightarrow> server \<Rightarrow> server \<times> (stop + response)" where
  "get_inner ou cfg tm hl rq =
     (if rq_target rq = ''/healthz'' then retS (healthz ou cfg hl)
      else
        bindS (pureS (require_auth ou cfg False rq)) (\<lambda>_.
        bindS (pureS (url_split ou (rq_target rq))) (\<lambda>(path, query).
          case get_route path of
            ListHolds \<Rightarrow> handle_list_holds ou tm (parse_qs ou query)
          | OneHold hold_id \<Rightarrow> handle_get_hold ou tm hold_id
          | NoGetRoute \<Rightarrow> pureS (refuse 404 ''not_found''))))"

datatype post_route = DecideRoute | ResolveRoute string | NoPostRoute

definition post_route :: "string \<Rightarrow> post_route" where
  "post_route path =
     (if path = ''/v1/decide'' then DecideRoute
      else if prefix ''/v1/holds/'' path \<and> suffix ''/resolve'' path then
        (let inner = drop 10 (take (length path - 8) path)
         in if inner \<noteq> [] \<and> CHR ''/'' \<notin> set inner then ResolveRoute inner else NoPostRoute)
      else NoPostRoute)"

definition post_inner ::
  "outside \<Rightarrow> server_config \<Rightarrow> timing \<Rightarrow> request \<Rightarrow> server \<Rightarrow> server \<times> (stop + response)" where
  "post_inner ou cfg tm rq =
     bindS (pureS (url_split ou (rq_target rq))) (\<lambda>(path, query).
       case post_route path of
         DecideRoute \<Rightarrow> handle_decide ou cfg tm rq
       | ResolveRoute hold_id \<Rightarrow> handle_resolve_hold ou cfg tm rq hold_id
       | NoPostRoute \<Rightarrow> pureS (refuse 404 ''not_found''))"

text \<open>The catch-alls of \<open>do_GET\<close> and \<open>do_POST\<close>, and the other methods.\<close>

definition caught :: "response \<Rightarrow> server \<times> (stop + response) \<Rightarrow> server \<times> response" where
  "caught fallback x =
     (fst x, case snd x of Inr r \<Rightarrow> r | Inl (Answer r) \<Rightarrow> r | Inl Raised \<Rightarrow> fallback)"

definition method_not_allowed :: response where
  "method_not_allowed = \<lparr>rs_status = 405, rs_body = [(''error'', JStr ''method_not_allowed'')],
     rs_headers = [(''Allow'', ''GET, POST'')]\<rparr>"

definition serve ::
  "outside \<Rightarrow> server_config \<Rightarrow> timing \<Rightarrow> health_sources \<Rightarrow> request \<Rightarrow> server \<Rightarrow> server \<times> response" where
  "serve ou cfg tm hl rq s =
     (case rq_method rq of
        Get \<Rightarrow> caught (respond 500 [(''error'', JStr ''internal_error'')]) (get_inner ou cfg tm hl rq s)
      | Post \<Rightarrow> caught (respond 500 internal_error_decision) (post_inner ou cfg tm rq s)
      | _ \<Rightarrow> (s, method_not_allowed))"

section \<open>Lemmas on handlers\<close>

lemma pureS_Inr [py_simps]: "pureS m s = (s', Inr x) \<longleftrightarrow> s' = s \<and> m = Inr x"
  by (auto simp: pureS_def)

lemma hold_refusal_ne [simp]:
  "refuse n err \<noteq> Inr x" "hold_refusal n err hold_id \<noteq> Inr x" "not_found_hold err hold_id \<noteq> Inr x"
  "bad_parameter why \<noteq> Inr x"
  by (simp_all add: refuse_def hold_refusal_def not_found_hold_def bad_parameter_def)

lemma refusal_code_ne [simp]: "refusal_code e hold_id \<noteq> Inr x"
  by (cases e) (simp_all add: refusal_code_def)

lemma fetch_hold_Inr:
  "fetch_hold ou tm hold_id s = (s', Inr r) \<longleftrightarrow> (\<exists>h.
     get_hold (dp_clk (ou_deps ou)) (tm_get_io tm) (tm_get_now tm) hold_id (k_holds (sv_core s)) = (h, Inr r) \<and>
     s' = s\<lparr>sv_core := (sv_core s)\<lparr>k_holds := h\<rparr>\<rparr>)"
  by (auto simp: fetch_hold_def on_holds_def split: prod.splits sum.splits)

lemma check_resolvable_Inr:
  "check_resolvable ou tm hold_id hold = Inr rule \<longleftrightarrow>
     dget hold ''status'' = JStr ''pending'' \<and>
     is_expired (dp_clk (ou_deps ou)) (tm_expired_now tm) hold = Inr False \<and>
     dget_or hold ''rule_id'' (JStr []) = JStr rule \<and> rule_short rule \<notin> set non_resolvable_rules"
  by (auto simp: check_resolvable_def split: sum.split json.split)

lemma check_approver_Inr:
  "check_approver ou cfg rq hold_id hold rule rz = Inr a \<longleftrightarrow> (\<exists>policy envelope.
     load_resolution_policy ou (sc_policy cfg) = Inr policy \<and>
     rz_type rz \<in> set (allowed_principal_types (ou_ucd ou) rule policy) \<and>
     resolve_approver (ou_ucd ou) (sc_principals cfg) (Some (presented_bearer (ou_ucd ou) rq))
       (rz_type rz) (rz_id rz) = Inr a \<and>
     a_type a \<in> set (allowed_principal_types (ou_ucd ou) rule policy) \<and>
     held_envelope hold = Some envelope \<and>
     \<not> is_self_approval (ou_ucd ou) envelope (a_type a) (a_id a))"
  by (cases "resolve_approver (ou_ucd ou) (sc_principals cfg) (Some (presented_bearer (ou_ucd ou) rq))
      (rz_type rz) (rz_id rz)"; cases "held_envelope hold")
    (auto simp: check_approver_def Let_def bindE_Inr_iff)

lemma perform_resolution_Inr:
  "perform_resolution ou tm hold_id rule rz a s = (s', Inr resp) \<Longrightarrow> (\<exists>h updated.
     approver_resolution ou tm hold_id rz a (k_holds (sv_core s)) = (h, Inr (Some updated)) \<and>
     resp = respond 200 updated)"
  by (auto simp: perform_resolution_def on_holds_def split: prod.splits sum.splits option.splits)

text \<open>The hold that \<open>resolve_hold\<close> returns carries the resolution it was given.\<close>

lemma resolve_hold_records:
  assumes "resolve_hold clk io now hid decision ptype pid reason verified src h = (h', Inr (Some u))" "hid \<noteq> []"
  shows "dget u ''decided_by'' = JStr (ptype @ CHR '':'' # pid) \<and> dget u ''decided_by_verified'' = JBool verified \<and>
    dget u ''principal_source'' = JStr src \<and>
    dget u ''status'' = JStr (if decision = ''approve'' then ''approved'' else ''rejected'')"
proof -
  define rec where "rec = resolved_record clk now hid decision ptype pid reason verified src"
  obtain h1 where "resolve_section io hid rec h = (h1, Inr (Some u))"
    using assms(1) by (auto simp: resolve_hold_def rec_def bindS_Inr split: if_splits option.splits)
  then obtain h2 existing h3 where e: "index_get h2 (JStr hid) = Some existing"
    and a: "append_and_readback io rec h2 = (h3, Inr ())" and u: "index_get h3 (JStr hid) = Some u"
    by (auto simp: resolve_section_def exclusive_section_def bindS_Inr split: if_splits option.splits)
  obtain ix where ix: "fold_record (s_index (h_store h2)) (JObj rec) = Inr ix" "s_index (h_store h3) = ix"
    using a by (auto simp: append_and_readback_def Let_def split: prod.splits sum.splits)
  have r: "dget rec ''id'' = JStr hid" "dget_or rec ''event_type'' (JStr ''created'') = JStr ''resolved''"
    by (simp_all add: rec_def resolved_record_def dget_or_def)
  then obtain x where "fold_event (JStr ''resolved'') rec existing = Inr x" "ix = dput (JStr hid) x (s_index (h_store h2))"
    using ix(1) e assms(2) by (auto simp: fold_record_def index_get_def hashable_def bindE_Inr_iff)
  then have "fold_event (JStr ''resolved'') rec existing = Inr u"
    using ix(2) u by (simp add: index_get_def)
  then have "u = fold_resolved rec existing" by (simp add: fold_event_def split: if_splits)
  then show ?thesis by (simp add: fold_resolved_def rec_def resolved_record_def dget_or_def)
qed

lemma strict_approver:
  assumes "resolve_approver u cfg (Some bearer) asserted_type asserted_id = Inr a" "strict_mode u cfg"
  shows "principal_for_token u cfg (Some bearer) = Inr (Some \<lparr>p_type = a_type a, p_id = a_id a\<rparr>) \<and> a_verified a"
  using assms
  by (auto simp: resolve_approver_def bindE_Inr_iff Let_def split: option.splits if_splits)

section \<open>A resolution passes every check\<close>

definition resolution_passed ::
  "outside \<Rightarrow> server_config \<Rightarrow> timing \<Rightarrow> request \<Rightarrow> string \<Rightarrow> hs \<Rightarrow> dict \<Rightarrow> approver \<Rightarrow> bool" where
  "resolution_passed ou cfg tm rq hold_id holds hold a \<longleftrightarrow> (\<exists>h1 rule policy envelope.
     authorized ou cfg True rq = Inr True \<and>
     get_hold (dp_clk (ou_deps ou)) (tm_get_io tm) (tm_get_now tm) hold_id holds = (h1, Inr (Some hold)) \<and>
     dget hold ''status'' = JStr ''pending'' \<and>
     is_expired (dp_clk (ou_deps ou)) (tm_expired_now tm) hold = Inr False \<and>
     dget_or hold ''rule_id'' (JStr []) = JStr rule \<and> rule_short rule \<notin> set non_resolvable_rules \<and>
     load_resolution_policy ou (sc_policy cfg) = Inr policy \<and>
     a_type a \<in> set (allowed_principal_types (ou_ucd ou) rule policy) \<and>
     held_envelope hold = Some envelope \<and> \<not> is_self_approval (ou_ucd ou) envelope (a_type a) (a_id a))"

definition bound_approver :: "outside \<Rightarrow> server_config \<Rightarrow> request \<Rightarrow> approver \<Rightarrow> bool" where
  "bound_approver ou cfg rq a \<longleftrightarrow> a_verified a \<and>
     principal_for_token (ou_ucd ou) (sc_principals cfg) (Some (presented_bearer (ou_ucd ou) rq)) =
       Inr (Some \<lparr>p_type = a_type a, p_id = a_id a\<rparr>)"

lemma answered_200:
  assumes "caught fallback x = (s', r)" "rs_status r = 200" "rs_status fallback \<noteq> 200"
    and "\<And>r. snd x = Inl (Answer r) \<Longrightarrow> rs_status r \<noteq> 200"
  shows "x = (s', Inr r)"
  using assms by (cases x) (auto simp: caught_def split: sum.splits stop.splits)

text \<open>An early stop never answers 200.\<close>

definition refuses :: "stop + 'a \<Rightarrow> bool" where
  "refuses m \<longleftrightarrow> (\<forall>r. m = Inl (Answer r) \<longrightarrow> rs_status r \<noteq> 200)"

named_theorems refusing \<open>early stops that never answer 200\<close>

lemma refuses_simps [refusing]:
  "refuses (Inr x)" "refuses (Inl Raised)" "refuses (Inl (Answer unauthorized))"
  "n \<noteq> 200 \<Longrightarrow> refuses (refuse n err)" "n \<noteq> 200 \<Longrightarrow> refuses (hold_refusal n err hold_id)"
  "refuses (not_found_hold err hold_id)" "refuses (bad_parameter why)"
  by (auto simp: refuses_def refuse_def hold_refusal_def not_found_hold_def bad_parameter_def respond_def
      unauthorized_def)

lemma refuses_bindE [refusing]: "refuses m \<Longrightarrow> (\<And>x. refuses (f x)) \<Longrightarrow> refuses (bindE m f)"
  by (cases m) (auto simp: refuses_def)

lemma refuses_bindS [refusing]:
  "refuses (snd (m s)) \<Longrightarrow> (\<And>x s'. refuses (snd (f x s'))) \<Longrightarrow> refuses (snd (bindS m f s))"
  by (auto simp: refuses_def bindS_def split: prod.split sum.split)

lemma refuses_pureS [refusing]: "refuses m \<Longrightarrow> refuses (snd (pureS m s))"
  by (simp add: pureS_def)

lemma refuses_auth [refusing]: "refuses (require_auth ou cfg allow rq)"
proof -
  have "refuses (authorized ou cfg allow rq)" by (auto simp: refuses_def authorized_def split: option.split sum.split)
  then show ?thesis unfolding require_auth_def by (intro refusing) (simp_all add: refusing)
qed

lemma refuses_read_json [refusing]: "refuses (read_json ou cfg rq)"
proof -
  have "refuses (read_body ou cfg rq)" by (simp add: read_body_def refusing split: option.split)
  then show ?thesis unfolding read_json_def by (intro refusing) (simp_all add: refusing split: decoded.split)
qed

lemma refuses_parse [refusing]: "refuses (parse_resolution u raw)"
  by (simp add: parse_resolution_def Let_def refusing split: json.split)

lemma refuses_fetch [refusing]: "refuses (snd (fetch_hold ou tm hold_id s))"
  by (simp add: fetch_hold_def refusing split: prod.split sum.split)

lemma refuses_check_resolvable [refusing]: "refuses (check_resolvable ou tm hold_id hold)"
  by (simp add: check_resolvable_def refusing split: json.split sum.split)

lemma refuses_code [refusing]: "refuses (refusal_code e hold_id)"
  by (simp add: refusal_code_def refusing split: principal_exc.split)

lemma refuses_check_approver [refusing]: "refuses (check_approver ou cfg rq hold_id hold rule rz)"
proof -
  have "refuses (load_resolution_policy ou (sc_policy cfg))"
    by (auto simp: refuses_def load_resolution_policy_def Let_def split: decoded.split json.split)
  then show ?thesis unfolding check_approver_def
    by (intro refusing) (simp_all add: refusing Let_def split: sum.split option.split)
qed

lemma refuses_perform [refusing]: "refuses (snd (perform_resolution ou tm hold_id rule rz a s))"
  by (simp add: perform_resolution_def refusing split: prod.split sum.split option.split)

lemma refuses_resolve: "refuses (snd (handle_resolve_hold ou cfg tm rq hold_id s))"
  unfolding handle_resolve_hold_def
  by (intro refusing allI) (auto split: option.split intro!: refusing)

lemma require_auth_Inr: "require_auth ou cfg allow rq = Inr x \<longleftrightarrow> authorized ou cfg allow rq = Inr True"
  by (auto simp: require_auth_def bindE_Inr_iff)

lemma handle_resolve_hold_Inr:
  assumes "handle_resolve_hold ou cfg tm rq hold_id s = (s', Inr resp)" "hold_id \<noteq> []"
  shows "\<exists>hold a. resolution_passed ou cfg tm rq hold_id (k_holds (sv_core s)) hold a \<and>
    (strict_mode (ou_ucd ou) (sc_principals cfg) \<longrightarrow> bound_approver ou cfg rq a) \<and>
    dget (rs_body resp) ''decided_by'' = JStr (a_type a @ CHR '':'' # a_id a) \<and>
    dget (rs_body resp) ''decided_by_verified'' = JBool (a_verified a)"
proof -
  obtain rz s1 hold rule a where p: "authorized ou cfg True rq = Inr True"
    "fetch_hold ou tm hold_id s = (s1, Inr (Some hold))" "check_resolvable ou tm hold_id hold = Inr rule"
    "check_approver ou cfg rq hold_id hold rule rz = Inr a"
    "perform_resolution ou tm hold_id rule rz a s1 = (s', Inr resp)"
    using assms(1) by (auto simp: handle_resolve_hold_def py_simps require_auth_Inr split: option.splits)
  obtain h updated where "approver_resolution ou tm hold_id rz a (k_holds (sv_core s1)) = (h, Inr (Some updated))"
    and resp: "resp = respond 200 updated" using perform_resolution_Inr [OF p(5)] by blast
  then have "dget updated ''decided_by'' = JStr (a_type a @ CHR '':'' # a_id a)"
    "dget updated ''decided_by_verified'' = JBool (a_verified a)"
    using resolve_hold_records assms(2) unfolding approver_resolution_def by blast+
  moreover have "resolution_passed ou cfg tm rq hold_id (k_holds (sv_core s)) hold a"
    using p(1-4) unfolding resolution_passed_def fetch_hold_Inr check_resolvable_Inr check_approver_Inr by blast
  moreover have "strict_mode (ou_ucd ou) (sc_principals cfg) \<longrightarrow> bound_approver ou cfg rq a"
    using p(4) strict_approver unfolding check_approver_Inr bound_approver_def by blast
  ultimately show ?thesis using resp by (auto simp: respond_def)
qed

text \<open>C12: a hold is resolved only through the whole chain: when \<open>POST /v1/holds/{id}/resolve\<close> answers 200,
  the caller was authorised, the stored hold was pending and before its deadline, its rule may be resolved,
  the approver's authoritative type is allowed for that rule, and the approver is not the party that raised
  the action; the answered hold names exactly that approver, and unless the operator switched verification
  off the approver is the principal that the request's own credential is bound to.\<close>

theorem resolution_is_checked:
  assumes "serve ou cfg tm hl rq s = (s', r)" "rq_method rq = Post" "rs_status r = 200"
    and "url_split ou (rq_target rq) = Inr (path, query)" "post_route path = ResolveRoute hold_id"
  shows "\<exists>hold a. resolution_passed ou cfg tm rq hold_id (k_holds (sv_core s)) hold a \<and>
    (strict_mode (ou_ucd ou) (sc_principals cfg) \<longrightarrow> bound_approver ou cfg rq a) \<and>
    dget (rs_body r) ''decided_by'' = JStr (a_type a @ CHR '':'' # a_id a) \<and>
    dget (rs_body r) ''decided_by_verified'' = JBool (a_verified a)"
proof -
  have "hold_id \<noteq> []" using assms(5) by (auto simp: post_route_def Let_def split: if_splits)
  moreover have inner: "post_inner ou cfg tm rq s = handle_resolve_hold ou cfg tm rq hold_id s"
    using assms(4,5) by (simp add: post_inner_def bindS_def pureS_def)
  have "handle_resolve_hold ou cfg tm rq hold_id s = (s', Inr r)"
  proof (rule answered_200)
    show "caught (respond 500 internal_error_decision) (handle_resolve_hold ou cfg tm rq hold_id s) = (s', r)"
      using assms(1,2) inner by (simp add: serve_def)
  qed (use assms(3) refuses_resolve in \<open>auto simp: refuses_def respond_def\<close>)
  ultimately show ?thesis using handle_resolve_hold_Inr by blast
qed

section \<open>Who may read and change the engine\<close>

definition holds_gate_token :: "outside \<Rightarrow> server_config \<Rightarrow> request \<Rightarrow> bool" where
  "holds_gate_token ou cfg rq \<longleftrightarrow> sc_auth_token cfg = None \<or> sc_auth_token cfg = Some [] \<or>
     header_bearer (ou_ucd ou) (rq_auth rq) = sc_auth_token cfg"

definition holds_resolver_token :: "outside \<Rightarrow> server_config \<Rightarrow> request \<Rightarrow> bool" where
  "holds_resolver_token ou cfg rq \<longleftrightarrow> (\<exists>b p. header_bearer (ou_ucd ou) (rq_auth rq) = Some b \<and>
     principal_for_token (ou_ucd ou) (sc_principals cfg) (Some b) = Inr (Some p))"

definition holds_gate_credential ::
  "outside \<Rightarrow> server_config \<Rightarrow> timing \<Rightarrow> request \<Rightarrow> gate_cache \<Rightarrow> bool" where
  "holds_gate_credential ou cfg tm rq cache \<longleftrightarrow>
     snd (authorize (ou_ucd ou) (ou_sha256 ou) (ou_until ou) (sc_gate cfg)
            (credential_call (ou_ucd ou) tm rq) cache) = Accept"

definition posted_to :: "outside \<Rightarrow> request \<Rightarrow> post_route" where
  "posted_to ou rq =
     (if rq_method rq \<noteq> Post then NoPostRoute
      else case url_split ou (rq_target rq) of Inl _ \<Rightarrow> NoPostRoute | Inr p \<Rightarrow> post_route (fst p))"

definition entitled :: "outside \<Rightarrow> server_config \<Rightarrow> timing \<Rightarrow> request \<Rightarrow> gate_cache \<Rightarrow> bool" where
  "entitled ou cfg tm rq cache \<longleftrightarrow> holds_gate_token ou cfg rq \<or>
     (case posted_to ou rq of
        DecideRoute \<Rightarrow> holds_gate_credential ou cfg tm rq cache
      | ResolveRoute _ \<Rightarrow> holds_resolver_token ou cfg rq
      | NoPostRoute \<Rightarrow> False)"

lemma authorized_True:
  "authorized ou cfg allow rq = Inr True \<Longrightarrow>
     holds_gate_token ou cfg rq \<or> allow \<and> holds_resolver_token ou cfg rq"
  by (auto simp: authorized_def holds_gate_token_def holds_resolver_token_def
      split: option.splits if_splits sum.splits)

text \<open>A run that neither read nor changed anything.\<close>

definition turned_away :: "server \<Rightarrow> server \<times> (stop + 'a) \<Rightarrow> bool" where
  "turned_away s x \<longleftrightarrow> sv_core (fst x) = sv_core s \<and> isl (snd x) \<and> refuses (snd x)"

lemma turned_away_bindS: "turned_away s (m s) \<Longrightarrow> turned_away s (bindS m f s)"
  by (auto simp: turned_away_def bindS_def refuses_def split: prod.split sum.split)

lemma turned_away_auth:
  assumes "authorized ou cfg allow rq \<noteq> Inr True"
  shows "turned_away s (pureS (require_auth ou cfg allow rq) s)"
  using assms refuses_auth [of ou cfg allow rq] require_auth_Inr [of ou cfg allow rq]
  by (cases "require_auth ou cfg allow rq") (auto simp: turned_away_def pureS_def)

lemma turned_away_decide:
  assumes "authorized ou cfg False rq \<noteq> Inr True" "\<not> holds_gate_credential ou cfg tm rq (sv_cache s)"
  shows "turned_away s (authorize_decide ou cfg tm rq s)"
proof (cases "authorized ou cfg False rq")
  case (Inl e)
  then have "refuses (Inl e :: stop + unit)"
    using refuses_auth [of ou cfg False rq] by (simp add: require_auth_def)
  then show ?thesis using Inl by (simp add: authorize_decide_def turned_away_def)
next
  case (Inr ok)
  have "refuses (gate_refusal st) \<and> (st \<noteq> Accept \<longrightarrow> isl (gate_refusal st))" for st
    by (cases st) (auto simp: gate_refusal_def refuses_def respond_def unauthorized_def)
  then show ?thesis using Inr assms
    by (auto simp: authorize_decide_def turned_away_def holds_gate_credential_def split: prod.split)
qed

lemma turned_away_caught:
  assumes "turned_away s x" "rs_status fallback \<noteq> 200" "caught fallback x = (s', r)"
  shows "sv_core s' = sv_core s \<and> rs_status r \<noteq> 200"
  using assms by (cases x) (auto simp: turned_away_def caught_def refuses_def split: sum.splits stop.splits)

lemma turned_away_get:
  assumes "\<not> entitled ou cfg tm rq (sv_cache s)" "rq_target rq \<noteq> ''/healthz''"
  shows "turned_away s (get_inner ou cfg tm hl rq s)"
proof -
  have "authorized ou cfg False rq \<noteq> Inr True"
    using assms(1) authorized_True [of ou cfg False rq] by (auto simp: entitled_def)
  then have "turned_away s (pureS (require_auth ou cfg False rq) s)" by (rule turned_away_auth)
  then show ?thesis using assms(2) by (simp add: get_inner_def turned_away_bindS)
qed

lemma turned_away_post:
  assumes "\<not> entitled ou cfg tm rq (sv_cache s)" "rq_method rq = Post"
  shows "turned_away s (post_inner ou cfg tm rq s)"
proof (cases "url_split ou (rq_target rq)")
  case (Inl e)
  then have "e = Raised" by (auto simp: url_split_def Let_def split: if_splits option.splits)
  then show ?thesis using Inl by (simp add: post_inner_def bindS_def pureS_def turned_away_def refuses_def)
next
  case (Inr p)
  have free: "authorized ou cfg False rq \<noteq> Inr True"
    using assms(1) authorized_True [of ou cfg False rq] by (auto simp: entitled_def)
  have run: "post_inner ou cfg tm rq s = (case post_route (fst p) of
      DecideRoute \<Rightarrow> handle_decide ou cfg tm rq s
    | ResolveRoute hold_id \<Rightarrow> handle_resolve_hold ou cfg tm rq hold_id s
    | NoPostRoute \<Rightarrow> pureS (refuse 404 ''not_found'') s)"
    using Inr by (simp add: post_inner_def bindS_def pureS_def split: prod.split post_route.split)
  have to: "posted_to ou rq = post_route (fst p)" using assms(2) Inr by (simp add: posted_to_def)
  show ?thesis
  proof (cases "post_route (fst p)")
    case DecideRoute
    then have "turned_away s (authorize_decide ou cfg tm rq s)"
      using assms(1) to free by (auto simp: entitled_def intro: turned_away_decide)
    then show ?thesis unfolding run DecideRoute by (simp add: handle_decide_def turned_away_bindS)
  next
    case (ResolveRoute hold_id)
    then have "authorized ou cfg True rq \<noteq> Inr True"
      using assms(1) to authorized_True [of ou cfg True rq] by (auto simp: entitled_def)
    then show ?thesis unfolding run ResolveRoute
      by (simp add: handle_resolve_hold_def turned_away_bindS turned_away_auth)
  next
    case NoPostRoute
    then show ?thesis unfolding run
      by (simp add: pureS_def turned_away_def refuse_def refuses_def respond_def)
  qed
qed

text \<open>C15: apart from \<open>GET /healthz\<close>, a request that is answered 200 or that changes holds, ledger, nonces or
  freeze state comes from a caller with the gate token (or authentication is off), with one exception per
  route: \<open>POST /v1/decide\<close> also takes an accepted gate credential, and a hold is also resolved with a
  credential bound to an approver. An approver's credential never submits an action, and a gate credential
  never reads or resolves a hold.\<close>

theorem only_entitled_callers:
  assumes "serve ou cfg tm hl rq s = (s', r)" "rs_status r = 200 \<or> sv_core s' \<noteq> sv_core s"
    and "(rq_method rq, rq_target rq) \<noteq> (Get, ''/healthz'')"
  shows "entitled ou cfg tm rq (sv_cache s)"
proof (rule ccontr)
  assume no: "\<not> entitled ou cfg tm rq (sv_cache s)"
  have "sv_core s' = sv_core s \<and> rs_status r \<noteq> 200"
  proof (cases "rq_method rq")
    case Get
    then have "turned_away s (get_inner ou cfg tm hl rq s)" using assms(3) by (intro turned_away_get [OF no]) simp
    then show ?thesis
      by (rule turned_away_caught) (use assms(1) Get in \<open>simp_all add: serve_def respond_def\<close>)
  next
    case Post
    have "turned_away s (post_inner ou cfg tm rq s)" by (rule turned_away_post [OF no Post])
    then show ?thesis
      by (rule turned_away_caught) (use assms(1) Post in \<open>simp_all add: serve_def respond_def\<close>)
  qed (use assms(1) in \<open>auto simp: serve_def method_not_allowed_def\<close>)
  then show False using assms(2) by blast
qed

section \<open>A run\<close>

definition sample_outside :: outside where
  "sample_outside = \<lparr>ou_deps = sample_deps ''require_approval'',
     ou_loads = (\<lambda>s. if s = ''R'' then Decoded (JObj [(''decision'', JStr ''approve''),
       (''principal'', JObj [(''type'', JStr ''human''), (''id'', JStr ''alice'')])]) else NotJson),
     ou_json_file = (\<lambda>_. None), ou_sha256 = id, ou_until = (\<lambda>_. None), ou_urlparse = (\<lambda>_. None),
     ou_unquote = id, ou_int = (\<lambda>_. None)\<rparr>"

definition sample_server_config :: server_config where
  "sample_server_config = \<lparr>sc_auth_token = Some ''gate'', sc_principals = sample_config, sc_policy = None,
     sc_gate = sample_gate_settings, sc_max_body = 262144\<rparr>"

definition sample_timing :: timing where
  "sample_timing = \<lparr>tm_call = sample_call 2 NoFault, tm_gate_now = 2, tm_gate_put = 2, tm_portal = PortalUnreachable,
     tm_get_now = 2, tm_get_io = good_hio, tm_sweep_io = (\<lambda>_. good_hio), tm_expired_now = 2, tm_resolve_now = 2,
     tm_resolve_io = good_hio\<rparr>"

definition sample_resolve_request :: request where
  "sample_resolve_request = \<lparr>rq_method = Post, rq_target = ''/v1/holds/H/resolve?x'',
     rq_auth = Some ''Bearer tok'', rq_gate = None, rq_length = Some ''1'', rq_sent = ''R''\<rparr>"

definition sample_health :: health_sources where
  "sample_health = \<lparr>hl_epoch = None, hl_ttl = None, hl_pool = None, hl_revision = None\<rparr>"

definition sample_answer :: "server \<times> response" where
  "sample_answer = serve sample_outside sample_server_config sample_timing sample_health sample_resolve_request
     \<lparr>sv_core = held_core, sv_cache = []\<rparr>"

lemma sample_answer_status: "rs_status (snd sample_answer) = 200"
  by code_simp

lemma sample_route: "url_split sample_outside (rq_target sample_resolve_request) = Inr (''/v1/holds/H/resolve'', ''x'')"
  "post_route ''/v1/holds/H/resolve'' = ResolveRoute ''H''"
  "strict_mode (ou_ucd sample_outside) (sc_principals sample_server_config)"
  by code_simp+

theorem resolution_is_checked_witness:
  "\<exists>hold a. resolution_passed sample_outside sample_server_config sample_timing sample_resolve_request ''H''
     (k_holds held_core) hold a \<and> bound_approver sample_outside sample_server_config sample_resolve_request a"
proof -
  have "serve sample_outside sample_server_config sample_timing sample_health sample_resolve_request
     \<lparr>sv_core = held_core, sv_cache = []\<rparr> = (fst sample_answer, snd sample_answer)"
    by (simp add: sample_answer_def)
  from resolution_is_checked [OF this _ sample_answer_status sample_route(1,2)] show ?thesis
    using sample_route(3) by (auto simp: sample_resolve_request_def)
qed

theorem only_entitled_callers_witness:
  "entitled sample_outside sample_server_config sample_timing sample_resolve_request []"
proof -
  have "serve sample_outside sample_server_config sample_timing sample_health sample_resolve_request
     \<lparr>sv_core = held_core, sv_cache = []\<rparr> = (fst sample_answer, snd sample_answer)"
    by (simp add: sample_answer_def)
  from only_entitled_callers [OF this] show ?thesis
    using sample_answer_status by (simp add: sample_resolve_request_def)
qed

end
