(* ===== verification/ServerPool.thy ===== *)
theory ServerPool
  imports Server "HOL-Library.Multiset"
begin

text \<open>
  The worker pool of \<open>app/server.py\<close> (\<open>PooledHTTPServer\<close>): an accept thread admits connections up to a bound
  or sheds them to a second, small pool that answers 503. One step of the relation is what one thread does
  under the lock together with the pool operation next to it.
\<close>

section \<open>Sizes\<close>

definition env_positive :: "outside \<Rightarrow> string option \<Rightarrow> int option" where
  "env_positive ou env =
     (let raw = py_strip (ou_ucd ou) (case env of None \<Rightarrow> [] | Some s \<Rightarrow> s)
      in case (if raw = [] then None else py_int ou raw) of
           None \<Rightarrow> None
         | Some n \<Rightarrow> if 0 < n then Some n else None)"

definition max_workers :: "outside \<Rightarrow> string option \<Rightarrow> int option \<Rightarrow> int" where
  "max_workers ou env cpus =
     (case env_positive ou env of
        Some n \<Rightarrow> n
      | None \<Rightarrow> max 4 (min 32 ((case cpus of None \<Rightarrow> 1 | Some c \<Rightarrow> if c = 0 then 1 else c) * 2)))"

definition max_pending :: "outside \<Rightarrow> string option \<Rightarrow> int \<Rightarrow> int" where
  "max_pending ou env workers = (case env_positive ou env of Some n \<Rightarrow> n | None \<Rightarrow> workers * 8)"

section \<open>The pool\<close>

text \<open>Connections are numbered. The accept thread is between connections, or holds one it has admitted or
  shed. \<open>po_seen\<close>, \<open>po_closed\<close> and \<open>po_told\<close> are the history: connections accepted, closed, answered 503.\<close>

datatype accept_point = Accepting | Admitted nat | ToShed nat | ShedAdmitted nat

record pool =
  po_workers :: int
  po_backlog :: int
  po_max_pending :: int
  po_shed_capacity :: int
  po_pending :: int
  po_shed_total :: int
  po_undelivered :: int
  po_shed_pending :: int
  po_open :: bool
  po_accept :: accept_point
  po_queue :: "nat list"
  po_running :: "nat list"
  po_shedding :: "nat list"
  po_seen :: "nat list"
  po_closed :: "nat list"
  po_told :: "nat list"

definition new_pool :: "int \<Rightarrow> int \<Rightarrow> int \<Rightarrow> int \<Rightarrow> pool" where
  "new_pool workers backlog pending_limit shed_workers =
     \<lparr>po_workers = workers, po_backlog = backlog, po_max_pending = pending_limit,
      po_shed_capacity = shed_workers * 16, po_pending = 0, po_shed_total = 0, po_undelivered = 0,
      po_shed_pending = 0, po_open = True, po_accept = Accepting, po_queue = [], po_running = [],
      po_shedding = [], po_seen = [], po_closed = [], po_told = []\<rparr>"

text \<open>\<open>run()\<close>: the sizes from the environment; at least one shed worker.\<close>

definition started_pool ::
  "outside \<Rightarrow> string option \<Rightarrow> int option \<Rightarrow> string option \<Rightarrow> int \<Rightarrow> int \<Rightarrow> pool" where
  "started_pool ou workers_env cpus pending_env backlog shed_env =
     (let workers = max_workers ou workers_env cpus
      in new_pool workers backlog (max_pending ou pending_env workers) (max 1 shed_env))"

definition closing :: "nat \<Rightarrow> pool \<Rightarrow> pool" where
  "closing c p = p\<lparr>po_closed := c # po_closed p\<rparr>"

text \<open>\<open>process_request\<close>: the lock section, then \<open>submit\<close>, which fails once the pool is shut down.\<close>

definition process_request :: "nat \<Rightarrow> pool \<Rightarrow> pool" where
  "process_request c p =
     (let q = p\<lparr>po_seen := c # po_seen p\<rparr>
      in if po_max_pending p \<le> po_pending p
         then q\<lparr>po_shed_total := po_shed_total p + 1, po_accept := ToShed c\<rparr>
         else q\<lparr>po_pending := po_pending p + 1, po_accept := Admitted c\<rparr>)"

definition submit :: "nat \<Rightarrow> pool \<Rightarrow> pool" where
  "submit c p =
     (let q = p\<lparr>po_accept := Accepting\<rparr>
      in if po_open p then q\<lparr>po_queue := po_queue p @ [c]\<rparr>
         else closing c (q\<lparr>po_pending := po_pending p - 1\<rparr>))"

text \<open>\<open>_run_request\<close>: a worker takes the oldest connection, and at the end closes it and gives the slot back,
  whatever the handler did.\<close>

definition take_up :: "pool \<Rightarrow> pool" where
  "take_up p = p\<lparr>po_queue := tl (po_queue p), po_running := hd (po_queue p) # po_running p\<rparr>"

definition run_request :: "nat \<Rightarrow> pool \<Rightarrow> pool" where
  "run_request c p = closing c (p\<lparr>po_running := remove1 c (po_running p), po_pending := po_pending p - 1\<rparr>)"

text \<open>\<open>_shed\<close>.\<close>

definition shed :: "nat \<Rightarrow> pool \<Rightarrow> pool" where
  "shed c p =
     (if po_shed_capacity p \<le> po_shed_pending p
      then closing c (p\<lparr>po_undelivered := po_undelivered p + 1, po_accept := Accepting\<rparr>)
      else p\<lparr>po_shed_pending := po_shed_pending p + 1, po_accept := ShedAdmitted c\<rparr>)"

definition submit_shed :: "nat \<Rightarrow> pool \<Rightarrow> pool" where
  "submit_shed c p =
     (let q = p\<lparr>po_accept := Accepting\<rparr>
      in if po_open p then q\<lparr>po_shedding := c # po_shedding p\<rparr>
         else closing c (q\<lparr>po_shed_pending := po_shed_pending p - 1, po_undelivered := po_undelivered p + 1\<rparr>))"

section \<open>Answering a shed connection\<close>

text \<open>What one \<open>recv\<close> brings: some bytes (none at the end of the stream), or an exception.\<close>

datatype recv = Bytes nat | RecvFails

text \<open>The rest of the request is drained without blocking, up to the body limit.\<close>

fun drain :: "int \<Rightarrow> int \<Rightarrow> recv list \<Rightarrow> int" where
  "drain limit drained (Bytes n # rs) =
     (if drained < limit \<and> n \<noteq> 0 then drain limit (drained + int n) rs else drained)"
| "drain limit drained _ = drained"

text \<open>\<open>_shed_conn\<close> up to its \<open>finally\<close>: was the answer delivered? The first \<open>recv\<close> waits for the request; an
  exception there or in \<open>sendall\<close> leaves the client untold.\<close>

definition shed_delivered :: "recv \<Rightarrow> bool \<Rightarrow> bool" where
  "shed_delivered arrival sent = (case arrival of RecvFails \<Rightarrow> False | Bytes _ \<Rightarrow> sent)"

definition shed_conn :: "nat \<Rightarrow> recv \<Rightarrow> bool \<Rightarrow> pool \<Rightarrow> pool" where
  "shed_conn c arrival sent p =
     (let delivered = shed_delivered arrival sent;
          q = p\<lparr>po_shedding := remove1 c (po_shedding p), po_shed_pending := po_shed_pending p - 1,
                po_undelivered := (if delivered then po_undelivered p else po_undelivered p + 1),
                po_told := (if delivered then c # po_told p else po_told p)\<rparr>
      in closing c q)"

definition crlf :: string where
  "crlf = [CHR 0x0D, CHR 0x0A]"

definition quoted :: "string \<Rightarrow> string" where
  "quoted s = CHR 0x22 # s @ [CHR 0x22]"

definition overloaded_body :: string where
  "overloaded_body = ''{'' @ quoted ''error'' @ '':'' @ quoted ''overloaded'' @ '','' @ quoted ''reason'' @ '':'' @
     quoted ''core is at its concurrent-decision limit; retry'' @ ''}''"

definition overloaded_wire :: string where
  "overloaded_wire =
     concat (map (\<lambda>line. line @ crlf)
       [''HTTP/1.0 503 Service Unavailable'', ''Server: reeflex-core'',
        ''Content-Type: application/json; charset=utf-8'',
        ''Content-Length: '' @ str_nat (length overloaded_body), ''X-Content-Type-Options: nosniff'',
        ''Cache-Control: no-store'', ''Retry-After: 1'', ''Connection: close'', ''''])
     @ overloaded_body"

section \<open>Health and shutdown\<close>

definition pool_health :: "pool \<Rightarrow> dict" where
  "pool_health p =
     [(''concurrency'', JStr ''pool''), (''workers'', JInt (po_workers p)),
      (''listen_backlog'', JInt (po_backlog p)), (''max_pending'', JInt (po_max_pending p)),
      (''pending'', JInt (po_pending p)), (''shed_total'', JInt (po_shed_total p)),
      (''shed_undelivered'', JInt (po_undelivered p))]"

definition server_close :: "pool \<Rightarrow> pool" where
  "server_close p = p\<lparr>po_open := False\<rparr>"

section \<open>Steps\<close>

inductive pool_step :: "pool \<Rightarrow> pool \<Rightarrow> bool" where
  accepted: "po_accept p = Accepting \<Longrightarrow> pool_step p (process_request c p)"
| submitted: "po_accept p = Admitted c \<Longrightarrow> pool_step p (submit c p)"
| took_up: "po_queue p \<noteq> [] \<Longrightarrow> int (length (po_running p)) < po_workers p \<Longrightarrow> pool_step p (take_up p)"
| finished: "c \<in> set (po_running p) \<Longrightarrow> pool_step p (run_request c p)"
| shedding: "po_accept p = ToShed c \<Longrightarrow> pool_step p (shed c p)"
| shed_submitted: "po_accept p = ShedAdmitted c \<Longrightarrow> pool_step p (submit_shed c p)"
| shed_finished: "c \<in> set (po_shedding p) \<Longrightarrow> pool_step p (shed_conn c arrival sent p)"
| closed_down: "pool_step p (server_close p)"

inductive_cases pool_stepE: "pool_step p q"

fun in_hand :: "accept_point \<Rightarrow> nat list" where
  "in_hand Accepting = []"
| "in_hand (Admitted c) = [c]"
| "in_hand (ToShed c) = [c]"
| "in_hand (ShedAdmitted c) = [c]"

text \<open>The accounts: the counters against the connections they count.\<close>

definition decisions_bounded :: "pool \<Rightarrow> bool" where
  "decisions_bounded p \<longleftrightarrow>
     po_pending p = int (length (po_queue p)) + int (length (po_running p)) + (case po_accept p of Admitted _ \<Rightarrow> 1 | _ \<Rightarrow> 0) \<and>
     po_pending p \<le> po_max_pending p \<and> int (length (po_running p)) \<le> po_workers p"

definition sheds_counted :: "pool \<Rightarrow> bool" where
  "sheds_counted p \<longleftrightarrow>
     po_shed_pending p = int (length (po_shedding p)) + (case po_accept p of ShedAdmitted _ \<Rightarrow> 1 | _ \<Rightarrow> 0) \<and>
     po_shed_pending p \<le> po_shed_capacity p \<and>
     po_shed_total p = int (length (po_told p)) + po_undelivered p + po_shed_pending p
       + (case po_accept p of ToShed _ \<Rightarrow> 1 | _ \<Rightarrow> 0)"

definition none_lost :: "pool \<Rightarrow> bool" where
  "none_lost p \<longleftrightarrow> mset (po_seen p) =
     mset (in_hand (po_accept p) @ po_queue p @ po_running p @ po_shedding p @ po_closed p)"

lemmas pool_defs = process_request_def submit_def take_up_def run_request_def shed_def submit_shed_def
  shed_conn_def server_close_def closing_def Let_def

lemma length_without: "c \<in> set xs \<Longrightarrow> int (length (remove1 c xs)) = int (length xs) - 1"
  by (cases xs) (auto simp: length_remove1 dest: length_pos_if_in_set)

lemma decisions_bounded_step: "pool_step p q \<Longrightarrow> decisions_bounded p \<Longrightarrow> decisions_bounded q"
  by (erule pool_stepE) (auto simp: decisions_bounded_def pool_defs length_without neq_Nil_conv split: accept_point.splits)

lemma sheds_counted_step: "pool_step p q \<Longrightarrow> sheds_counted p \<Longrightarrow> sheds_counted q"
  by (erule pool_stepE) (auto simp: sheds_counted_def pool_defs length_without split: accept_point.splits)

lemma none_lost_step: "pool_step p q \<Longrightarrow> none_lost p \<Longrightarrow> none_lost q"
  by (erule pool_stepE) (auto simp: none_lost_def pool_defs neq_Nil_conv)

lemma env_positive_pos: "env_positive ou env = Some n \<Longrightarrow> 0 < n"
  by (auto simp: env_positive_def Let_def split: option.splits if_splits)

lemma max_workers_pos: "0 < max_workers ou env cpus"
  using env_positive_pos by (auto simp: max_workers_def split: option.split)

lemma max_pending_pos: "0 < workers \<Longrightarrow> 0 < max_pending ou env workers"
  using env_positive_pos by (auto simp: max_pending_def split: option.split)

definition pool_ok :: "pool \<Rightarrow> bool" where
  "pool_ok p \<longleftrightarrow> decisions_bounded p \<and> sheds_counted p \<and> none_lost p"

lemma started_pool_ok: "pool_ok (started_pool ou workers_env cpus pending_env backlog shed_env)"
  using max_workers_pos [of ou workers_env cpus] max_pending_pos [of "max_workers ou workers_env cpus" ou pending_env]
  by (simp add: pool_ok_def started_pool_def new_pool_def decisions_bounded_def sheds_counted_def none_lost_def Let_def)

lemma pool_ok_reach: "pool_step\<^sup>*\<^sup>* p q \<Longrightarrow> pool_ok p \<Longrightarrow> pool_ok q"
  by (induction rule: rtranclp_induct)
    (auto simp: pool_ok_def intro: decisions_bounded_step sheds_counted_step none_lost_step)

lemma drain_bounded:
  assumes "\<forall>n. Bytes n \<in> set rs \<longrightarrow> int n \<le> chunk" "0 \<le> chunk"
  shows "drain limit drained rs \<le> max drained (limit + chunk)"
  using assms(1)
proof (induction limit drained rs rule: drain.induct)
  case (1 limit drained n rs)
  have "drain limit (drained + int n) rs \<le> max (drained + int n) (limit + chunk)" if "drained < limit \<and> n \<noteq> 0"
    using 1 that by simp
  moreover have "int n \<le> chunk" using 1 by simp
  ultimately show ?case by (auto simp: max_def split: if_splits)
qed (use assms(2) in auto)

text \<open>C29: whatever the interleaving of accept thread, workers and shed workers: no more than the configured
  number of decisions run at once and no more than the pending limit are admitted, the counters that
  \<open>/healthz\<close> reports are exactly the connections they count (a shed connection was told 503, or is counted
  as undelivered, or is still being answered), and every accepted connection is in exactly one place until
  it is closed.\<close>

theorem pool_accounts:
  assumes "pool_step\<^sup>*\<^sup>* (started_pool ou workers_env cpus pending_env backlog shed_env) p"
  shows "decisions_bounded p \<and> sheds_counted p \<and> none_lost p"
  using pool_ok_reach [OF assms started_pool_ok] by (simp add: pool_ok_def)

text \<open>Four connections on a pool of one worker and two slots: the third is shed and told, the fourth is shed and
  its client is gone.\<close>

definition sample_pool :: pool where
  "sample_pool = started_pool sample_outside (Some ''1'') (Some 8) (Some '' 2 '') 128 4"

definition shed_one :: "nat \<Rightarrow> recv \<Rightarrow> pool \<Rightarrow> pool" where
  "shed_one c arrival p = shed_conn c arrival True (submit_shed c (shed c (process_request c p)))"

definition busy_pool :: pool where
  "busy_pool = take_up (submit 2 (process_request 2 (submit 1 (process_request 1 sample_pool))))"

definition shed_pool :: pool where
  "shed_pool = shed_one 4 RecvFails (shed_one 3 (Bytes 10) busy_pool)"

lemma busy_pool_reach: "pool_step\<^sup>*\<^sup>* sample_pool busy_pool"
proof -
  let ?p1 = "process_request 1 sample_pool" and ?p2 = "submit 1 (process_request 1 sample_pool)"
  have s1: "pool_step sample_pool ?p1" by (rule accepted) code_simp
  have s2: "pool_step ?p1 ?p2" by (rule submitted) code_simp
  have s3: "pool_step ?p2 (process_request 2 ?p2)" by (rule accepted) code_simp
  have s4: "pool_step (process_request 2 ?p2) (submit 2 (process_request 2 ?p2))"
    by (rule submitted) code_simp
  have s5: "pool_step (submit 2 (process_request 2 ?p2)) busy_pool"
    unfolding busy_pool_def by (rule took_up) code_simp+
  show ?thesis
    by (rule rtranclp.rtrancl_into_rtrancl [OF rtranclp.rtrancl_into_rtrancl [OF rtranclp.rtrancl_into_rtrancl [OF rtranclp.rtrancl_into_rtrancl [OF r_into_rtranclp [of pool_step, OF s1] s2] s3] s4] s5])
qed

lemma shed_one_reach:
  assumes "po_accept p = Accepting" "po_max_pending p \<le> po_pending p" "po_shed_pending p < po_shed_capacity p" "po_open p"
  shows "pool_step\<^sup>*\<^sup>* p (shed_one c arrival p)"
proof -
  have s1: "pool_step p (process_request c p)" using assms by (intro accepted)
  have s2: "pool_step (process_request c p) (shed c (process_request c p))"
    using assms by (intro shedding) (simp add: process_request_def)
  have s3: "pool_step (shed c (process_request c p)) (submit_shed c (shed c (process_request c p)))"
    using assms by (intro shed_submitted) (simp add: process_request_def shed_def)
  have s4: "pool_step (submit_shed c (shed c (process_request c p))) (shed_one c arrival p)"
    unfolding shed_one_def using assms by (intro shed_finished) (simp add: process_request_def shed_def submit_shed_def)
  show ?thesis
    by (rule rtranclp.rtrancl_into_rtrancl [OF rtranclp.rtrancl_into_rtrancl [OF rtranclp.rtrancl_into_rtrancl [OF r_into_rtranclp [of pool_step, OF s1] s2] s3] s4])
qed

theorem pool_accounts_witness:
  "decisions_bounded shed_pool \<and> sheds_counted shed_pool \<and> none_lost shed_pool \<and>
   po_shed_total shed_pool = 2 \<and> po_undelivered shed_pool = 1 \<and> po_told shed_pool = [3] \<and> po_pending shed_pool = 2"
proof -
  have "pool_step\<^sup>*\<^sup>* busy_pool (shed_one 3 (Bytes 10) busy_pool)"
    by (rule shed_one_reach) code_simp+
  moreover have "pool_step\<^sup>*\<^sup>* (shed_one 3 (Bytes 10) busy_pool) shed_pool"
    unfolding shed_pool_def by (rule shed_one_reach) code_simp+
  ultimately have "pool_step\<^sup>*\<^sup>* sample_pool shed_pool" using busy_pool_reach rtranclp_trans by metis
  moreover have "po_shed_total shed_pool = 2 \<and> po_undelivered shed_pool = 1 \<and> po_told shed_pool = [3] \<and>
      po_pending shed_pool = 2" by code_simp
  ultimately show ?thesis unfolding sample_pool_def using pool_accounts by blast
qed

end
