(* ===== verification/AuditLog.thy ===== *)
theory AuditLog
  imports Server
begin

text \<open>
  \<open>app/audit.py\<close>: the append-only audit log. A record is a JSON object on a line of its own, appended under
  the file lock and read back at its own offset. Three shapes share the file: decisions, resolutions of holds,
  and the ledger epochs of the processes; a fourth, the freeze flip, is written by \<open>decide.py\<close> itself.
\<close>

section \<open>Records\<close>

text \<open>\<open>envelope.get(key) or {}\<close>, \<open>None\<close> when the value has no \<open>get\<close>.\<close>

definition block_of :: "dict \<Rightarrow> string \<Rightarrow> dict option" where
  "block_of envelope key =
     (if \<not> py_truth (dget envelope key) then Some []
      else case dget envelope key of JObj d \<Rightarrow> Some d | _ \<Rightarrow> None)"

text \<open>\<open>int(x)\<close> of a JSON value, \<open>None\<close> when it raises.\<close>

definition int_of_json :: "outside \<Rightarrow> json \<Rightarrow> int option" where
  "int_of_json ou j =
     (case j of
        JInt n \<Rightarrow> Some n
      | JBool b \<Rightarrow> Some (if b then 1 else 0)
      | JFloat (Fin x) \<Rightarrow> Some (trunc x)
      | JStr s \<Rightarrow> py_int ou s
      | _ \<Rightarrow> None)"

definition text_or_empty :: "dict \<Rightarrow> string \<Rightarrow> json" where
  "text_or_empty d key = dget_or d key (JStr [])"

definition audit_provenance :: "dict \<Rightarrow> dict" where
  "audit_provenance envelope =
     (case dget envelope ''provenance'' of
        JObj p \<Rightarrow>
          (case dget p ''undeclared'' of
             JArr xs \<Rightarrow> [(''provenance'', JObj [(''undeclared'', JArr xs)])]
           | _ \<Rightarrow> [])
      | _ \<Rightarrow> [])"

definition if_set :: "string \<Rightarrow> json \<Rightarrow> dict" where
  "if_set key v = (if py_truth v then [(key, v)] else [])"

text \<open>\<open>record\<close>, up to the write; \<open>now\<close> is the time stamp, \<open>epoch\<close> the ledger epoch of the process.\<close>

definition decision_record :: "outside \<Rightarrow> string \<Rightarrow> json \<Rightarrow> audit_call \<Rightarrow> dict option" where
  "decision_record ou now epoch a =
     (let e = au_envelope a; resp = au_response a in
      case (block_of e ''agent'', block_of e ''action'', block_of e ''target'', block_of e ''magnitude'') of
        (Some agent, Some action, Some target, Some magnitude) \<Rightarrow>
          map_option (\<lambda>count.
             [(''ts'', JStr now), (''session_id'', JStr (au_session a)), (''agent_id'', text_or_empty agent ''id''),
              (''action'', JObj [(''namespace'', text_or_empty action ''namespace''),
                 (''verb'', text_or_empty action ''verb''), (''ability'', text_or_empty action ''ability''),
                 (''environment'', text_or_empty target ''environment''),
                 (''target_system'', text_or_empty target ''system'')]),
              (''magnitude_count'', JInt count), (''cumulative_injected'', au_cumulative a),
              (''decision'', text_or_empty resp ''decision''), (''rule'', text_or_empty resp ''rule''),
              (''reason'', text_or_empty resp ''reason''), (''decision_id'', JStr (au_decision_id a)),
              (''envelope_hash'', JStr (au_hash a))]
             @ audit_provenance e @ if_set ''hold_id'' (au_hold_id a) @ if_set ''expires_ts'' (au_expires_ts a)
             @ if_set ''parent_decision_id'' (au_parent a) @ if_set ''traceparent'' (JStr (au_traceparent a))
             @ if_set ''ledger_epoch'' epoch)
           (int_of_json ou (dget_or magnitude ''count'' (JInt 1)))
      | _ \<Rightarrow> None)"

text \<open>\<open>record_hold_resolution\<close>, called with what the hold store reports.\<close>

definition resolution_record :: "string \<Rightarrow> json \<Rightarrow> string \<Rightarrow> string \<Rightarrow> json \<Rightarrow> string \<Rightarrow> bool \<Rightarrow> string \<Rightarrow> dict" where
  "resolution_record now hold_id how decided_by resolved_ts observed_ts verified src =
     (let resolved = (if py_truth resolved_ts then resolved_ts else JStr now)
      in [(''ts'', JStr now), (''event'', JStr ''hold_resolution''), (''hold_id'', hold_id),
          (''resolution'', JStr how), (''decided_by'', JStr decided_by), (''decided_by_verified'', JBool verified),
          (''principal_source'', JStr src), (''decision_id'', JStr []), (''resolved_ts'', resolved)]
         @ (if observed_ts \<noteq> [] \<and> JStr observed_ts \<noteq> resolved
            then [(''observed_ts'', JStr observed_ts)] else []))"

text \<open>\<open>record_ledger_epoch\<close>; \<open>None\<close> when a count is no number.\<close>

definition epoch_record :: "outside \<Rightarrow> string \<Rightarrow> dict \<Rightarrow> dict option" where
  "epoch_record ou now ep =
     (let number = (\<lambda>key. int_of_json ou (if py_truth (dget ep key) then dget ep key else JInt 0)) in
      case (number ''window_seconds'', number ''restored_sessions'', number ''restored_entries'') of
        (Some window, Some restored_sessions, Some restored_entries) \<Rightarrow> Some
          [(''ts'', if py_truth (dget ep ''ts'') then dget ep ''ts'' else JStr now),
           (''event'', JStr ''ledger_epoch''), (''epoch_id'', text_or_empty ep ''epoch_id''),
           (''durable'', JBool (py_truth (dget ep ''durable''))), (''path'', text_or_empty ep ''path''),
           (''window_seconds'', JInt window), (''restored_sessions'', JInt restored_sessions),
           (''restored_entries'', JInt restored_entries),
           (''scan_truncated'', JBool (py_truth (dget ep ''scan_truncated'')))]
      | _ \<Rightarrow> None)"

definition freeze_record :: "string \<Rightarrow> bool \<Rightarrow> dict" where
  "freeze_record now freeze_on =
     [(''ts'', JStr now), (''event_type'', JStr ''freeze.flipped''), (''freeze_on'', JBool freeze_on)]"

section \<open>Writing\<close>

text \<open>How one write goes: opening and locking the file, and the append with its read-back.\<close>

record audit_io =
  ai_open :: bool
  ai_lock :: bool
  ai_io :: io

datatype audit_exc = AuditAppend append_cause | AuditJson

text \<open>\<open>_append_and_readback\<close>; \<open>dumps\<close> is \<open>json.dumps(rec, separators=(",", ":"))\<close>. The line that was written is
  decoded again and must hold the values of \<open>keys\<close>.\<close>

definition audit_append ::
  "outside \<Rightarrow> (dict \<Rightarrow> string) \<Rightarrow> audit_io \<Rightarrow> dict \<Rightarrow> string list \<Rightarrow> string \<Rightarrow> string \<times> (audit_exc + unit)" where
  "audit_append ou dumps aio rec keys file =
     (let line = dumps rec @ [newline] in
      case exclusive (ai_open aio) (ai_lock aio) (\<lambda>f. append_and_verify (ai_io aio) f line) file of
        (file', Inl c) \<Rightarrow> (file', Inl (AuditAppend c))
      | (file', Inr _) \<Rightarrow>
          (file', case ou_loads ou line of
             Decoded (JObj w) \<Rightarrow>
               if list_all (\<lambda>key. py_eq (dget w key) (dget rec key)) keys then Inr ()
               else Inl (AuditAppend Tampered)
           | _ \<Rightarrow> Inl AuditJson))"

definition decision_keys :: "string list" where
  "decision_keys = [''session_id'', ''decision'', ''rule'', ''decision_id'']"

definition resolution_keys :: "string list" where
  "resolution_keys = [''event'', ''hold_id'', ''resolution'']"

definition epoch_keys :: "string list" where
  "epoch_keys = [''event'', ''epoch_id'']"

text \<open>\<open>_try_audit\<close>: whatever goes wrong, the decision stands.\<close>

definition try_audit ::
  "outside \<Rightarrow> (dict \<Rightarrow> string) \<Rightarrow> audit_io \<Rightarrow> string \<Rightarrow> json \<Rightarrow> audit_call \<Rightarrow> string \<Rightarrow> string" where
  "try_audit ou dumps aio now epoch a file =
     (case decision_record ou now epoch a of
        None \<Rightarrow> file
      | Some rec \<Rightarrow> fst (audit_append ou dumps aio rec decision_keys file))"

text \<open>\<open>_audit_freeze_flip\<close> appends without the file lock and without reading back.\<close>

definition audit_freeze_flip :: "(dict \<Rightarrow> string) \<Rightarrow> nat option \<Rightarrow> string \<Rightarrow> bool \<Rightarrow> string \<Rightarrow> string" where
  "audit_freeze_flip dumps failed now freeze_on file =
     (let line = dumps (freeze_record now freeze_on) @ [newline]
      in file @ (case failed of None \<Rightarrow> line | Some landed \<Rightarrow> take landed line))"

section \<open>Every decision is audited\<close>

definition audits :: "core \<Rightarrow> audit_call list" where
  "audits k = List.map_filter (\<lambda>n. case n of Audit a \<Rightarrow> Some a | _ \<Rightarrow> None) (k_out k)"

lemma audits_notify [simp]:
  "audits (notify n k) = audits k @ (case n of Audit a \<Rightarrow> [a] | _ \<Rightarrow> [])"
  by (simp add: audits_def notify_def List.map_filter_def split: notice.split)

lemma audits_updates [simp]:
  "audits (k\<lparr>k_holds := h\<rparr>) = audits k" "audits (k\<lparr>k_ledger := s\<rparr>) = audits k"
  "audits (k\<lparr>k_file := f\<rparr>) = audits k" "audits (k\<lparr>k_seen := ns\<rparr>) = audits k"
  "audits (k\<lparr>k_freeze := fr\<rparr>) = audits k"
  by (simp_all add: audits_def)

text \<open>The steps before an answer write no audit record.\<close>

lemma audits_record_action: "record_action dp q envelope charge k = (k', r) \<Longrightarrow> audits k' = audits k"
  by (auto simp: record_action_def split: prod.splits)

lemma audits_consume: "consume dp q hid k = (k', r) \<Longrightarrow> audits k' = audits k"
  by (auto simp: consume_def split: prod.splits)

lemma audits_open_hold: "open_hold dp q envelope rule k = (k', r) \<Longrightarrow> audits k' = audits k"
  by (auto simp: open_hold_def Let_def split: prod.splits sum.splits)

lemma audits_find_hold: "find_hold dp q hid k = (k', r) \<Longrightarrow> audits k' = audits k"
  by (auto simp: find_hold_def Let_def split: json.splits prod.splits)

lemma audits_validate: "validate_approval dp q envelope k = (k', r) \<Longrightarrow> audits k' = audits k"
  by (auto simp: validate_approval_def Let_def dest!: audits_find_hold
      split: if_splits prod.splits sum.splits option.splits)

lemma audits_flip [simp]: "audits (check_freeze_flip b k) = audits k"
  by (simp add: check_freeze_flip_def split: option.split)

definition audited :: "call_env \<Rightarrow> dict \<Rightarrow> string \<Rightarrow> dict \<Rightarrow> core \<Rightarrow> core \<Rightarrow> bool" where
  "audited q envelope hsh resp k k' \<longleftrightarrow> (\<exists>a. audits k' = audits k @ [a] \<and> au_response a = resp \<and>
     au_envelope a = envelope \<and> au_decision_id a = q_decision_id q \<and> au_hash a = hsh)"

lemma audit_base_fields [simp]:
  "au_response (audit_base q envelope hsh tr resp) = resp" "au_envelope (audit_base q envelope hsh tr resp) = envelope"
  "au_decision_id (audit_base q envelope hsh tr resp) = q_decision_id q"
  "au_hash (audit_base q envelope hsh tr resp) = hsh"
  by (simp_all add: audit_base_def)

lemma settle_audited:
  "settle dp q envelope hsh tr cum charge resp k = (k', Inr a) \<Longrightarrow> audited q envelope hsh (snd a) k k'"
  by (auto simp: settle_def Let_def audited_def dest!: audits_record_action
      split: prod.splits sum.splits ledger_exc.splits)

lemma cycle_audited: "cycle dp q envelope hsh tr k = (k', Inr a) \<Longrightarrow> audited q envelope hsh (snd a) k k'"
  by (auto simp: cycle_def Let_def dest!: settle_audited audits_open_hold
      split: prod.splits sum.splits opa_exc.splits if_splits) (auto simp: audited_def)

lemma resubmit_audited:
  "resubmit dp q envelope hsh tr hold k = (k', Inr a) \<Longrightarrow> audited q envelope hsh (snd a) k k'"
  by (auto simp: resubmit_def Let_def audited_def dest!: audits_consume audits_record_action
      split: prod.splits sum.splits opa_exc.splits option.splits ledger_exc.splits)

lemma decide_envelope_audited:
  "decide_envelope dp q envelope hsh tr k = (k', Inr a) \<Longrightarrow> audited q envelope hsh (snd a) k k'"
  by (auto simp: decide_envelope_def Let_def dest!: cycle_audited resubmit_audited audits_validate
      split: prod.splits sum.splits option.splits if_splits) (auto simp: audited_def)

lemma handle_envelope_audited:
  "handle_envelope dp q envelope k = (k', Inr a) \<Longrightarrow>
     audited q envelope (canonical_hash (dp_digest dp) envelope) (snd a) k k'"
  by (auto simp: handle_envelope_def Let_def dest!: decide_envelope_audited split: if_splits)
    (auto simp: audited_def)

text \<open>The record of an accepted envelope can always be built.\<close>

lemma decision_record_built:
  assumes "validate_and_fill_defaults u seen raw = (seen', Inr env)" "au_envelope a = env"
  shows "\<exists>rec. decision_record ou now epoch a = Some rec"
proof -
  obtain d where fill: "fill_defaults u d = Inr env" using assms(1) by (rule validate_Inr)
  note get = fill_defaults_get [OF fill]
  obtain m m0 where m: "dget env ''magnitude'' = JObj m" "check_count m0 = Inr m" using get(4) by blast
  then obtain n where n: "dget m ''count'' = JInt n" using check_count_Inr [OF m(2)] by (auto split: json.splits)
  then have c: "dget_or m ''count'' (JInt 1) = JInt n" by (auto simp: dget_or_def dget_def split: option.splits)
  obtain agent where "dget env ''agent'' = JObj agent" using accepted_agent [OF assms(1)] by blast
  moreover obtain t where "dget env ''target'' = JObj t" using get(5) by blast
  ultimately have "\<exists>x y z. block_of env ''agent'' = Some x \<and> block_of env ''action'' = Some y \<and>
      block_of env ''target'' = Some z"
    using get(2) by (simp add: block_of_def)
  moreover have "block_of env ''magnitude'' = Some m"
    using m(1) n by (cases m) (auto simp: block_of_def)
  ultimately show ?thesis
    using assms(2) c by (auto simp: decision_record_def Let_def int_of_json_def)
qed

lemma decision_record_fields:
  assumes "decision_record ou now epoch a = Some rec"
  shows "dget rec ''decision'' = text_or_empty (au_response a) ''decision''"
    "dget rec ''rule'' = text_or_empty (au_response a) ''rule''"
    "dget rec ''reason'' = text_or_empty (au_response a) ''reason''"
    "dget rec ''decision_id'' = JStr (au_decision_id a)" "dget rec ''envelope_hash'' = JStr (au_hash a)"
  using assms by (auto simp: decision_record_def Let_def split: option.splits)

text \<open>C14: every decision is audited, once: whenever \<open>process\<close> answers with anything but the refusal of an invalid
  envelope or the fixed internal-error denial, it has handed the audit log exactly one decision; a record can
  be built from it, and the record carries the answered decision, rule, reason and decision id, and the hash
  of the envelope that was decided.\<close>

theorem decision_is_audited:
  assumes "process (ou_deps ou) q raw k = (k', status, resp)" "status \<noteq> 400"
    and "resp \<noteq> with_id q internal_error_decision"
  shows "\<exists>envelope a rec. snd (validate_and_fill_defaults (ou_ucd ou) (k_seen k) raw) = Inr envelope \<and>
    audits k' = audits k @ [a] \<and> decision_record ou now epoch a = Some rec \<and>
    dget rec ''decision'' = text_or_empty resp ''decision'' \<and> dget rec ''rule'' = text_or_empty resp ''rule'' \<and>
    dget rec ''reason'' = text_or_empty resp ''reason'' \<and> dget rec ''decision_id'' = JStr (q_decision_id q) \<and>
    dget rec ''envelope_hash'' = JStr (canonical_hash (dp_digest (ou_deps ou)) envelope)"
proof -
  obtain seen r where v: "validate_and_fill_defaults (ou_ucd ou) (k_seen k) raw = (seen, r)" by fastforce
  obtain envelope where r: "r = Inr envelope"
  proof (cases r)
    case (Inl e)
    then show ?thesis using assms v by (cases e) (auto simp: process_def)
  qed
  note p = process_valid [OF v [unfolded r], of q]
  obtain k1 y where h: "handle_envelope (ou_deps ou) q envelope (k\<lparr>k_seen := seen\<rparr>) = (k1, y)" by fastforce
  obtain ans where y: "y = Inr ans"
  proof (cases y)
    case (Inl e)
    then show ?thesis using assms p h by auto
  qed
  have eq: "k1 = k'" "ans = (status, resp)" using assms(1) p h y by auto
  obtain a where a: "audits k' = audits k @ [a]" "au_response a = resp" "au_envelope a = envelope"
    "au_decision_id a = q_decision_id q" "au_hash a = canonical_hash (dp_digest (ou_deps ou)) envelope"
    using handle_envelope_audited [OF h [unfolded y]] eq by (auto simp: audited_def)
  obtain rec where rec: "decision_record ou now epoch a = Some rec"
    using decision_record_built [OF v [unfolded r] a(3)] by blast
  show ?thesis using v r a rec decision_record_fields [OF rec] by auto
qed

definition audited_outside :: outside where
  "audited_outside = sample_outside\<lparr>ou_deps := sample_deps ''deny''\<rparr>"

lemma audited_outside_deps: "ou_deps audited_outside = sample_deps ''deny''"
  by (simp add: audited_outside_def)

theorem decision_is_audited_witness:
  "\<exists>a rec. audits (fst sample_outcome) = audits approved_core @ [a] \<and>
     decision_record audited_outside ''t'' JNull a = Some rec \<and> dget rec ''decision'' = JStr ''allow''"
proof -
  have "text_or_empty (snd (snd sample_outcome)) ''decision'' = JStr ''allow''" "fst (snd sample_outcome) \<noteq> 400"
    "snd (snd sample_outcome) \<noteq> with_id (sample_call 3 NoFault) internal_error_decision"
    by code_simp+
  then show ?thesis
    using decision_is_audited [OF sample_outcome_eq [folded audited_outside_deps], of "''t''" JNull] by auto
qed

section \<open>What landed can be read\<close>

lemma audit_append_Inr:
  assumes "audit_append ou dumps aio rec keys file = (file', Inr ())"
  shows "io_fail (ai_io aio) = None" "file' = io_meddle (ai_io aio) (file @ dumps rec @ [newline])"
    "\<exists>w. ou_loads ou (dumps rec @ [newline]) = Decoded (JObj w) \<and>
       list_all (\<lambda>key. py_eq (dget w key) (dget rec key)) keys"
  using assms
  by (auto simp: audit_append_def exclusive_def append_and_verify_cases Let_def
      split: if_splits option.splits decoded.splits json.splits)

text \<open>A record whose append succeeds is one line of the log: behind the records that were there (the file
  ended in a newline), before whatever other processes append meanwhile, all of which stay readable as they
  are; and the line decodes to a record that agrees with the one to be written on its identifying keys.\<close>

theorem audit_line_lands:
  assumes "audit_append ou dumps aio rec keys file = (file', Inr ())" "ended file"
    and "newline \<notin> set (dumps rec)" "py_strip u (dumps rec) \<noteq> []"
    and "io_meddle (ai_io aio) (file @ dumps rec @ [newline]) = file @ dumps rec @ [newline] @ later"
  shows "log_lines u file' = log_lines u file @ [dumps rec] @ log_lines u later \<and>
    (\<exists>w. ou_loads ou (dumps rec @ [newline]) = Decoded (JObj w) \<and>
       list_all (\<lambda>key. py_eq (dget w key) (dget rec key)) keys)"
proof -
  note ok = audit_append_Inr [OF assms(1)]
  have "ended (dumps rec @ [newline])" by (simp add: ended_def)
  then have "log_lines u ((dumps rec @ [newline]) @ later) = [dumps rec] @ log_lines u later"
    using log_lines_line [OF assms(3,4)] by (simp only: log_lines_ended_append)
  then have "log_lines u file' = log_lines u file @ [dumps rec] @ log_lines u later"
    using ok(2) assms(2,5) by (simp add: log_lines_ended_append)
  then show ?thesis using ok(3) by blast
qed

definition sample_audit_io :: audit_io where
  "sample_audit_io = \<lparr>ai_open = True, ai_lock = True, ai_io = good_io\<lparr>io_meddle := (\<lambda>f. f @ ''R'' @ [newline])\<rparr>\<rparr>"

definition sample_resolution_record :: dict where
  "sample_resolution_record = [(''decision'', JStr ''approve'')]"

theorem audit_line_lands_witness:
  "log_lines plain_ucd (fst (audit_append
     (sample_outside\<lparr>ou_loads := (\<lambda>_. Decoded (JObj sample_resolution_record))\<rparr>)
     (\<lambda>_. ''A'') sample_audit_io sample_resolution_record [''decision''] (''B'' @ [newline]))) = [''B'', ''A'', ''R'']"
proof -
  let ?ou = "sample_outside\<lparr>ou_loads := (\<lambda>_. Decoded (JObj sample_resolution_record))\<rparr>"
  have "audit_append ?ou (\<lambda>_. ''A'') sample_audit_io sample_resolution_record [''decision''] (''B'' @ [newline]) =
      (''B'' @ [newline] @ ''A'' @ [newline] @ ''R'' @ [newline], Inr ())"
    by code_simp
  moreover have "ended (''B'' @ [newline])" "newline \<notin> set ''A''" "py_strip plain_ucd ''A'' \<noteq> []"
    "io_meddle (ai_io sample_audit_io) ((''B'' @ [newline]) @ ''A'' @ [newline]) =
       (''B'' @ [newline]) @ ''A'' @ [newline] @ ''R'' @ [newline]"
    "log_lines plain_ucd (''B'' @ [newline]) = [''B'']" "log_lines plain_ucd (''R'' @ [newline]) = [''R'']"
    by code_simp+
  ultimately show ?thesis
    using audit_line_lands [of ?ou "\<lambda>_. ''A''" sample_audit_io sample_resolution_record "[''decision'']"
        "''B'' @ [newline]" _ plain_ucd "''R'' @ [newline]"] by simp
qed

end
