(* ===== verification/Emitters.thy ===== *)
theory Emitters
  imports AuditLog "HOL-Library.Sublist"
begin

text \<open>
  \<open>app/webhook.py\<close> and \<open>app/telemetry.py\<close>: two emitters of the same design. The caller puts a message on a bounded
  queue and never waits; one worker thread takes messages in order and tries to deliver each once. What both
  promise is the locale \<open>delivery_queue\<close>.
\<close>

section \<open>The contract of an emitter\<close>

text \<open>A run puts messages and lets other things happen: the worker works, the emitter is stopped.\<close>

datatype ('m, 'k) emitter_event = Put 'm | Other 'k

fun puts :: "('m, 'k) emitter_event list \<Rightarrow> 'm list" where
  "puts [] = []"
| "puts (Put m # es) = m # puts es"
| "puts (Other k # es) = puts es"

fun emitter_run :: "('m \<Rightarrow> 's \<Rightarrow> 's) \<Rightarrow> ('k \<Rightarrow> 's \<Rightarrow> 's) \<Rightarrow> ('m, 'k) emitter_event list \<Rightarrow> 's \<Rightarrow> 's" where
  "emitter_run put other [] s = s"
| "emitter_run put other (Put m # es) s = emitter_run put other es (put m s)"
| "emitter_run put other (Other k # es) s = emitter_run put other es (other k s)"

locale delivery_queue =
  fixes put :: "'m \<Rightarrow> 's \<Rightarrow> 's" and other :: "'k \<Rightarrow> 's \<Rightarrow> 's"
    and queued :: "'s \<Rightarrow> 'm list" and tried :: "'s \<Rightarrow> 'm list" and dropped :: "'s \<Rightarrow> int"
  assumes put_queue: "queued (put m s) = queued s @ [m] \<and> dropped (put m s) = dropped s \<or>
      queued (put m s) = queued s \<and> dropped (put m s) = dropped s + 1"
    and put_tried: "tried (put m s) = tried s"
    and other_order: "tried (other k s) @ queued (other k s) = tried s @ queued s"
    and other_dropped: "dropped (other k s) = dropped s"
begin

abbreviation run :: "('m, 'k) emitter_event list \<Rightarrow> 's \<Rightarrow> 's" where
  "run \<equiv> emitter_run put other"

lemma run_order: "\<exists>kept. subseq kept (puts es) \<and> tried (run es s) @ queued (run es s) = tried s @ queued s @ kept
    \<and> int (length kept) + dropped (run es s) = int (length (puts es)) + dropped s"
proof (induction es arbitrary: s)
  case (Cons e es)
  show ?case
  proof (cases e)
    case (Put m)
    obtain kept where k: "subseq kept (puts es)"
      "tried (run es (put m s)) @ queued (run es (put m s)) = tried (put m s) @ queued (put m s) @ kept"
      "int (length kept) + dropped (run es (put m s)) = int (length (puts es)) + dropped (put m s)"
      using Cons.IH [of "put m s"] by blast
    from put_queue [of m s] show ?thesis
    proof
      assume "queued (put m s) = queued s @ [m] \<and> dropped (put m s) = dropped s"
      then show ?thesis using k Put put_tried [of m s] by (intro exI [of _ "m # kept"]) simp
    next
      assume "queued (put m s) = queued s \<and> dropped (put m s) = dropped s + 1"
      then show ?thesis using k Put put_tried [of m s] by (intro exI [of _ kept]) auto
    qed
  next
    case (Other k)
    then show ?thesis using Cons.IH [of "other k s"] other_order [of k s] other_dropped [of k s] by auto
  qed
qed simp

end

section \<open>The webhook emitter\<close>

datatype worker = NotStarted | Serving | Draining | Exited

record webhook_emitter =
  wh_enabled :: bool
  wh_limit :: int
  wh_queue :: "dict option list"
  wh_worker :: worker
  wh_error :: string
  wh_log :: "string list"
  wh_tried :: "dict list"
  wh_dropped :: int

definition new_webhook :: "ucd \<Rightarrow> string option \<Rightarrow> int \<Rightarrow> webhook_emitter" where
  "new_webhook u url limit =
     \<lparr>wh_enabled = (py_strip u (case url of None \<Rightarrow> [] | Some s \<Rightarrow> s) \<noteq> []), wh_limit = limit, wh_queue = [],
      wh_worker = NotStarted, wh_error = [], wh_log = [], wh_tried = [], wh_dropped = 0\<rparr>"

text \<open>\<open>queue.Queue(maxsize)\<close>: no bound when \<open>maxsize\<close> is not positive.\<close>

definition queue_full :: "int \<Rightarrow> 'a list \<Rightarrow> bool" where
  "queue_full limit q \<longleftrightarrow> 0 < limit \<and> limit \<le> int (length q)"

definition webhook_start :: "webhook_emitter \<Rightarrow> webhook_emitter" where
  "webhook_start w = (if \<not> wh_enabled w then w else w\<lparr>wh_worker := Serving\<rparr>)"

definition webhook_stop :: "webhook_emitter \<Rightarrow> webhook_emitter" where
  "webhook_stop w =
     (if \<not> wh_enabled w \<or> wh_worker w = NotStarted \<or> queue_full (wh_limit w) (wh_queue w) then w
      else w\<lparr>wh_queue := wh_queue w @ [None]\<rparr>)"

definition webhook_enqueue :: "dict \<Rightarrow> webhook_emitter \<Rightarrow> webhook_emitter" where
  "webhook_enqueue msg w =
     (if queue_full (wh_limit w) (wh_queue w) then w\<lparr>wh_dropped := wh_dropped w + 1\<rparr>
      else w\<lparr>wh_queue := wh_queue w @ [Some msg]\<rparr>)"

definition webhook_message :: "string \<Rightarrow> string \<Rightarrow> dict \<Rightarrow> dict" where
  "webhook_message now event payload =
     (let msg = dput ''event'' (JStr event) payload
      in if map_of msg ''ts'' = None then dput ''ts'' (JStr now) msg else msg)"

definition webhook_fire :: "string \<Rightarrow> string \<Rightarrow> dict \<Rightarrow> webhook_emitter \<Rightarrow> webhook_emitter" where
  "webhook_fire now event payload w =
     (if \<not> wh_enabled w then w else webhook_enqueue (webhook_message now event payload) w)"

text \<open>\<open>_send\<close>: one POST, which succeeds or raises an error of the given text; repeated errors are logged once.\<close>

definition note_error :: "string option \<Rightarrow> string \<Rightarrow> string list \<times> string" where
  "note_error failure last_error =
     (case failure of
        None \<Rightarrow> ([], [])
      | Some err \<Rightarrow> if err \<noteq> last_error then ([err], err) else ([], last_error))"

definition webhook_send :: "string option \<Rightarrow> dict \<Rightarrow> webhook_emitter \<Rightarrow> webhook_emitter" where
  "webhook_send failure msg w =
     (let (lines, err) = note_error failure (wh_error w)
      in w\<lparr>wh_tried := wh_tried w @ [msg], wh_log := wh_log w @ lines, wh_error := err\<rparr>)"

text \<open>One round of \<open>_worker\<close>: the stop mark makes it drain what is left, up to the next mark, and exit.\<close>

definition webhook_work :: "string option \<Rightarrow> webhook_emitter \<Rightarrow> webhook_emitter" where
  "webhook_work failure w =
     (case wh_worker w of
        Serving \<Rightarrow>
          (case wh_queue w of
             [] \<Rightarrow> w
           | None # q \<Rightarrow> w\<lparr>wh_queue := q, wh_worker := Draining\<rparr>
           | Some msg # q \<Rightarrow> webhook_send failure msg (w\<lparr>wh_queue := q\<rparr>))
      | Draining \<Rightarrow>
          (case wh_queue w of
             [] \<Rightarrow> w\<lparr>wh_worker := Exited\<rparr>
           | None # q \<Rightarrow> w\<lparr>wh_queue := q, wh_worker := Exited\<rparr>
           | Some msg # q \<Rightarrow> webhook_send failure msg (w\<lparr>wh_queue := q\<rparr>))
      | _ \<Rightarrow> w)"

datatype webhook_other = WebhookStart | WebhookStop | WebhookWork "string option"

fun webhook_do :: "webhook_other \<Rightarrow> webhook_emitter \<Rightarrow> webhook_emitter" where
  "webhook_do WebhookStart w = webhook_start w"
| "webhook_do WebhookStop w = webhook_stop w"
| "webhook_do (WebhookWork failure) w = webhook_work failure w"

definition queued_messages :: "'m option list \<Rightarrow> 'm list" where
  "queued_messages q = List.map_filter id q"

lemma queued_messages_simps [simp]:
  "queued_messages [] = []" "queued_messages (None # q) = queued_messages q"
  "queued_messages (Some m # q) = m # queued_messages q"
  "queued_messages (q @ [Some m]) = queued_messages q @ [m]" "queued_messages (q @ [None]) = queued_messages q"
  by (simp_all add: queued_messages_def List.map_filter_def)

interpretation webhook: delivery_queue webhook_enqueue webhook_do "\<lambda>w. queued_messages (wh_queue w)" wh_tried wh_dropped
proof (unfold_locales, goal_cases)
  case (3 k s)
  show ?case by (cases k)
    (auto simp: webhook_start_def webhook_stop_def webhook_work_def webhook_send_def split: worker.split list.split option.split prod.split)
next
  case (4 k s)
  show ?case by (cases k)
    (auto simp: webhook_start_def webhook_stop_def webhook_work_def webhook_send_def split: worker.split list.split option.split prod.split)
qed (auto simp: webhook_enqueue_def)

lemma webhook_limit: "wh_limit (webhook_do k w) = wh_limit w" "wh_limit (webhook_enqueue m w) = wh_limit w"
  by (cases k; auto simp: webhook_start_def webhook_stop_def webhook_work_def webhook_send_def webhook_enqueue_def
      split: worker.split list.split option.split prod.split)+

lemma webhook_bounded_step:
  assumes "0 < wh_limit w" "int (length (wh_queue w)) \<le> wh_limit w"
  shows "int (length (wh_queue (webhook_do k w))) \<le> wh_limit w" "int (length (wh_queue (webhook_enqueue m w))) \<le> wh_limit w"
  using assms
  by (cases k; auto simp: webhook_start_def webhook_stop_def webhook_work_def webhook_send_def webhook_enqueue_def
      queue_full_def split: worker.split list.split option.split prod.split)+

lemma webhook_bounded:
  "0 < wh_limit w \<Longrightarrow> int (length (wh_queue w)) \<le> wh_limit w \<Longrightarrow>
     int (length (wh_queue (emitter_run webhook_enqueue webhook_do es w))) \<le> wh_limit w"
proof (induction es arbitrary: w)
  case (Cons e es)
  show ?case
  proof (cases e)
    case (Put m)
    then show ?thesis using Cons.IH [of "webhook_enqueue m w"] Cons.prems webhook_bounded_step(2) [of w m]
      by (simp add: webhook_limit)
  next
    case (Other k)
    then show ?thesis using Cons.IH [of "webhook_do k w"] Cons.prems webhook_bounded_step(1) [of w k]
      by (simp add: webhook_limit)
  qed
qed simp

text \<open>Webhooks are delivered at most once, in the order they were fired: over any run of firings, worker rounds,
  starts and stops of a new emitter, the messages tried so far followed by those still queued are a
  subsequence of the messages fired, every other one is counted as dropped, and the queue never exceeds its
  limit.\<close>

theorem webhooks_in_order:
  assumes "w = emitter_run webhook_enqueue webhook_do es (new_webhook u url limit)" "0 < limit"
  shows "subseq (wh_tried w @ queued_messages (wh_queue w)) (puts es) \<and>
    int (length (wh_tried w)) + int (length (queued_messages (wh_queue w))) + wh_dropped w = int (length (puts es)) \<and>
    int (length (wh_queue w)) \<le> limit"
proof -
  obtain kept where "subseq kept (puts es)" "wh_tried w @ queued_messages (wh_queue w) = kept"
    "int (length kept) + wh_dropped w = int (length (puts es))"
    using webhook.run_order [of es "new_webhook u url limit"] assms(1) by (auto simp: new_webhook_def)
  moreover have "int (length (wh_queue w)) \<le> limit"
    using webhook_bounded [of "new_webhook u url limit" es] assms by (simp add: new_webhook_def)
  ultimately show ?thesis by auto
qed

definition sample_webhook_run :: "(dict, webhook_other) emitter_event list" where
  "sample_webhook_run = [Put [(''event'', JStr ''a'')], Put [(''event'', JStr ''b'')], Other WebhookStart,
     Other (WebhookWork (Some ''refused'')), Put [(''event'', JStr ''c'')]]"

theorem webhooks_in_order_witness:
  "subseq [[(''event'', JStr ''a'')], [(''event'', JStr ''c'')]] (puts sample_webhook_run) \<and> (2::int) + 1 = 3"
proof -
  let ?w = "emitter_run webhook_enqueue webhook_do sample_webhook_run (new_webhook plain_ucd (Some ''http://h'') 1)"
  have "wh_tried ?w @ queued_messages (wh_queue ?w) = [[(''event'', JStr ''a'')], [(''event'', JStr ''c'')]]"
    by code_simp
  then show ?thesis using webhooks_in_order [OF refl, of 1 sample_webhook_run plain_ucd "Some ''http://h''"] by simp
qed

section \<open>Telemetry: the texts\<close>

definition facility_codes :: "(string \<times> int) list" where
  "facility_codes =
     [(''kern'', 0), (''user'', 1), (''mail'', 2), (''daemon'', 3), (''auth'', 4), (''syslog'', 5), (''lpr'', 6),
      (''news'', 7), (''uucp'', 8), (''cron'', 9), (''authpriv'', 10), (''ftp'', 11), (''local0'', 16),
      (''local1'', 17), (''local2'', 18), (''local3'', 19), (''local4'', 20), (''local5'', 21), (''local6'', 22),
      (''local7'', 23)]"

definition severities :: "(string \<times> int) list" where
  "severities = [(''allow'', 6), (''require_approval'', 4), (''deny'', 3), (''lifecycle'', 5), (''kill_switch'', 2)]"

text \<open>\<open>_SEVERITY.get(verdict, 5)\<close>, which raises on a verdict that cannot be a key.\<close>

definition severity_of :: "json \<Rightarrow> int option" where
  "severity_of verdict =
     (case verdict of
        JStr s \<Rightarrow> Some (case map_of severities s of None \<Rightarrow> 5 | Some n \<Rightarrow> n)
      | _ \<Rightarrow> if hashable verdict then Some 5 else None)"

definition pri :: "int \<Rightarrow> int \<Rightarrow> int" where
  "pri facility_code severity_code = facility_code * 8 + severity_code"

definition replace_char :: "char \<Rightarrow> string \<Rightarrow> string \<Rightarrow> string" where
  "replace_char c r s = concat (map (\<lambda>x. if x = c then r else [x]) s)"

definition backslash :: char where
  "backslash = CHR 0x5C"

definition cef_escape :: "string \<Rightarrow> string" where
  "cef_escape value =
     replace_char (CHR 0x0D) [backslash, CHR ''r'']
       (replace_char (CHR 0x0A) [backslash, CHR ''n'']
         (replace_char CHR ''='' [backslash, CHR ''='']
           (replace_char CHR ''|'' [backslash, CHR ''|'']
             (replace_char backslash [backslash, backslash] value))))"

definition event_text :: "ucd \<Rightarrow> dict \<Rightarrow> string \<Rightarrow> string" where
  "event_text u event key = cef_escape (py_str u (dget_or event key (JStr [])))"

definition cef_field :: "string \<Rightarrow> string \<Rightarrow> string" where
  "cef_field key v = key @ CHR ''='' # v"

definition cef_trace :: "ucd \<Rightarrow> dict \<Rightarrow> string \<times> string \<Rightarrow> string list" where
  "cef_trace u event names =
     (if py_truth (dget_or event (fst names) (JStr []))
      then [cef_field (snd names) (event_text u event (fst names))] else [])"

text \<open>The extensions, given the two counts.\<close>

definition cef_extensions :: "ucd \<Rightarrow> string \<Rightarrow> dict \<Rightarrow> dict \<Rightarrow> int \<Rightarrow> int \<Rightarrow> string list" where
  "cef_extensions u epoch_ms event axes count latency =
     [cef_field ''rt'' epoch_ms, cef_field ''act'' (event_text u event ''verb''),
      cef_field ''suser'' (event_text u event ''on_behalf_of''),
      cef_field ''cs1'' (event_text u event ''session_id''), ''cs1Label=session_id'',
      cef_field ''cs2'' (event_text u event ''agent_id''), ''cs2Label=agent_id'',
      cef_field ''cs3'' (event_text u axes ''reversibility''), ''cs3Label=reversibility'',
      cef_field ''cs4'' (event_text u axes ''blast_radius''), ''cs4Label=blast_radius'',
      cef_field ''cs5'' (event_text u axes ''externality''), ''cs5Label=externality'',
      cef_field ''cs6'' (event_text u event ''environment''), ''cs6Label=environment'',
      cef_field ''cn1'' (str_int count), ''cn1Label=magnitude_count'',
      cef_field ''cn2'' (str_int latency), ''cn2Label=decision_latency_ms'',
      cef_field ''msg'' (event_text u event ''reason''),
      cef_field ''flexString1'' (cef_escape (py_str u (dget_or event ''mode'' (JStr ''enforce'')))),
      ''flexString1Label=mode'']
     @ concat (map (cef_trace u event)
         [(''decision_id'', ''externalId''), (''envelope_hash'', ''envelopeHash''), (''hold_id'', ''holdId''),
          (''parent_decision_id'', ''parentDecisionId''), (''traceparent'', ''traceparent'')])"

definition core_version :: string where
  "core_version = ''0.2.3''"

text \<open>\<open>format_decision_cef\<close>, \<open>None\<close> when it raises.\<close>

definition format_decision_cef :: "outside \<Rightarrow> int \<Rightarrow> string \<Rightarrow> dict \<Rightarrow> string option" where
  "format_decision_cef ou now_ms version event =
     (let u = ou_ucd ou; verdict = py_str u (dget_or event ''verdict'' (JStr [])) in
      case (dget_or event ''axes'' (JObj []), int_of_json ou (dget_or event ''magnitude_count'' (JInt 1)),
            int_of_json ou (dget_or event ''decision_latency_ms'' (JInt 0))) of
        (JObj axes, Some count, Some latency) \<Rightarrow>
          Some (''CEF:0|Reeflex|reeflex-core|'' @
                cef_escape (if version = [] then core_version else version) @ ''|'' @ event_text u event ''rule_id'' @ ''|'' @
                cef_escape verdict @ ''|'' @ str_int (case map_of severities verdict of None \<Rightarrow> 5 | Some n \<Rightarrow> n) @ ''|'' @
                join_with '' '' (cef_extensions u (py_str u (dget_or event ''epoch_ms'' (JInt now_ms))) event axes count latency))
      | _ \<Rightarrow> None)"

definition build_syslog_msg :: "string \<Rightarrow> int \<Rightarrow> string \<Rightarrow> string \<Rightarrow> string \<Rightarrow> string \<Rightarrow> string" where
  "build_syslog_msg ts n msgid hostname procid body =
     ''<'' @ str_int n @ ''>1 '' @ ts @ '' '' @ hostname @ '' reeflex '' @ procid @ '' '' @ msgid @ '' - '' @ body"

section \<open>A CEF line cannot be forged\<close>

text \<open>How many unescaped bars a text has.\<close>

fun bare_bars :: "string \<Rightarrow> nat" where
  "bare_bars [] = 0"
| "bare_bars [c] = (if c = CHR ''|'' then 1 else 0)"
| "bare_bars (c # d # s) =
     (if c = backslash then bare_bars s else (if c = CHR ''|'' then 1 else 0) + bare_bars (d # s))"

definition no_bars :: "string \<Rightarrow> bool" where
  "no_bars s \<longleftrightarrow> (\<forall>t. bare_bars (s @ t) = bare_bars t)"

definition one_line :: "string \<Rightarrow> bool" where
  "one_line s \<longleftrightarrow> CHR 0x0A \<notin> set s \<and> CHR 0x0D \<notin> set s"

definition inert :: "string \<Rightarrow> bool" where
  "inert s \<longleftrightarrow> no_bars s \<and> one_line s"

lemma bare_bars_Cons: "c \<noteq> backslash \<Longrightarrow> bare_bars (c # s) = (if c = CHR ''|'' then 1 else 0) + bare_bars s"
  by (cases s) auto

lemma inert_Nil [simp]: "inert []"
  by (simp add: inert_def no_bars_def one_line_def)

lemma inert_append: "inert a \<Longrightarrow> inert b \<Longrightarrow> inert (a @ b)"
  by (auto simp: inert_def no_bars_def one_line_def)

lemma inert_Cons: "c \<notin> {backslash, CHR ''|'', CHR 0x0A, CHR 0x0D} \<Longrightarrow> inert s \<Longrightarrow> inert (c # s)"
  by (auto simp: inert_def no_bars_def one_line_def bare_bars_Cons)

lemma inert_plain: "set s \<inter> {backslash, CHR ''|'', CHR 0x0A, CHR 0x0D} = {} \<Longrightarrow> inert s"
  by (induction s) (auto intro!: inert_Cons)

definition escaped_char :: "char \<Rightarrow> string" where
  "escaped_char c =
     (if c = CHR 0x0D then [backslash, CHR ''r''] else if c = CHR 0x0A then [backslash, CHR ''n'']
      else if c \<in> {backslash, CHR ''|'', CHR ''=''} then [backslash, c] else [c])"

lemma replace_char_simps [simp]:
  "replace_char c r [] = []" "replace_char c r (x # s) = (if x = c then r else [x]) @ replace_char c r s"
  "replace_char c r (a @ b) = replace_char c r a @ replace_char c r b"
  by (simp_all add: replace_char_def)

lemma cef_escape_Cons: "cef_escape (c # s) = escaped_char c @ cef_escape s"
  by (simp add: cef_escape_def escaped_char_def backslash_def)

lemma cef_escape_Nil: "cef_escape [] = []"
  by (simp add: cef_escape_def)

lemma inert_escaped_char: "inert (escaped_char c)"
  by (auto simp: escaped_char_def inert_def no_bars_def one_line_def bare_bars_Cons backslash_def)

lemma inert_escape: "inert (cef_escape s)"
  by (induction s) (simp_all add: cef_escape_Nil cef_escape_Cons inert_append inert_escaped_char)

lemma digit_chars: "n < 10 \<Longrightarrow> is_digit_char (char_of (48 + n))" for n :: nat
  by (simp add: is_digit_char_def)

lemma str_nat_digits: "c \<in> set (str_nat n) \<Longrightarrow> is_digit_char c"
proof (induction n rule: str_nat.induct)
  case (1 n)
  show ?case
  proof (cases "n < 10")
    case True
    then show ?thesis using 1 digit_chars by (simp add: str_nat.simps [of n])
  next
    case False
    then have "c \<in> set (str_nat (n div 10)) \<or> c = char_of (48 + n mod 10)"
      using 1 by (auto simp: str_nat.simps [of n])
    then show ?thesis using 1 False digit_chars [of "n mod 10"] by auto
  qed
qed

lemma inert_digits: "\<forall>c \<in> set s. is_digit_char c \<Longrightarrow> inert s"
  by (rule inert_plain) (auto simp: is_digit_char_def backslash_def)

lemma inert_str_int: "inert (str_int i)"
proof -
  have "inert (str_nat n)" for n using str_nat_digits by (intro inert_digits) blast
  then show ?thesis by (simp add: str_int_def backslash_def inert_Cons)
qed

lemma inert_join: "inert sep \<Longrightarrow> list_all inert ws \<Longrightarrow> inert (join_with sep ws)"
  by (induction sep ws rule: join_with.induct) (auto intro!: inert_append)

lemma inert_field: "inert key \<Longrightarrow> inert v \<Longrightarrow> inert (cef_field key v)"
  by (auto simp: cef_field_def backslash_def intro!: inert_append inert_Cons)

lemma inert_event_text: "inert (event_text u event key)"
  by (simp add: event_text_def inert_escape)

lemma inert_trace: "inert (snd names) \<Longrightarrow> list_all inert (cef_trace u event names)"
  by (simp add: cef_trace_def inert_field inert_event_text)

lemma inert_extensions: "inert epoch_ms \<Longrightarrow> list_all inert (cef_extensions u epoch_ms event axes count latency)"
  unfolding cef_extensions_def
  by (simp add: inert_trace inert_field inert_event_text inert_escape inert_str_int inert_plain backslash_def)

lemma inert_bars: "inert s \<Longrightarrow> bare_bars (s @ t) = bare_bars t" "inert s \<Longrightarrow> bare_bars s = 0"
proof -
  show "inert s \<Longrightarrow> bare_bars (s @ t) = bare_bars t" by (simp add: inert_def no_bars_def)
  show "bare_bars s = 0" if "inert s"
  proof -
    have "bare_bars (s @ []) = bare_bars []" using that unfolding inert_def no_bars_def by blast
    then show ?thesis by simp
  qed
qed

text \<open>No decision can forge a CEF record: whatever texts an event carries (a rule id, an agent's id, a reason), the
  formatted line has exactly the seven unescaped bars that separate the eight header fields, and no line
  break, so it is one record with the header core wrote.\<close>

theorem cef_is_one_record:
  assumes "format_decision_cef ou now_ms version event = Some line" "dget event ''epoch_ms'' = JInt ms"
  shows "bare_bars line = 7 \<and> one_line line"
proof -
  let ?u = "ou_ucd ou"
  have ms: "dget_or event ''epoch_ms'' (JInt now_ms) = JInt ms"
    using assms(2) by (auto simp: dget_or_def dget_def split: option.splits)
  obtain v rule verdict severity axes count latency where line:
    "line = ''CEF:0|Reeflex|reeflex-core|'' @ cef_escape v @ ''|'' @ event_text ?u event rule @ ''|'' @
       cef_escape verdict @ ''|'' @ str_int severity @ ''|'' @
       join_with '' '' (cef_extensions ?u (str_int ms) event axes count latency)"
    using assms(1) ms by (auto simp: format_decision_cef_def Let_def split: json.splits option.splits)
  have ext: "inert (join_with '' '' (cef_extensions ?u (str_int ms) event axes count latency))"
    by (intro inert_join inert_extensions inert_str_int inert_plain) (simp add: backslash_def)
  note parts = inert_escape [of v] inert_event_text [of ?u event rule] inert_escape [of verdict] inert_str_int [of severity]
  have "bare_bars line = 7"
    unfolding line by (simp add: bare_bars_Cons backslash_def inert_bars parts ext)
  moreover have "one_line line"
    using parts ext unfolding line inert_def one_line_def by simp
  ultimately show ?thesis ..
qed

definition sample_event :: dict where
  "sample_event = [(''verdict'', JStr ''deny''), (''rule_id'', JStr ''r|x=1''), (''axes'', JObj []),
     (''reason'', JStr [CHR ''a'', CHR 0x0A, CHR ''|'']), (''epoch_ms'', JInt 7)]"

theorem cef_is_one_record_witness:
  "case format_decision_cef sample_outside 0 [] sample_event of
     None \<Rightarrow> False | Some line \<Rightarrow> bare_bars line = 7 \<and> one_line line"
proof -
  have "format_decision_cef sample_outside 0 [] sample_event \<noteq> None" by code_simp
  then obtain line where line: "format_decision_cef sample_outside 0 [] sample_event = Some line" by blast
  moreover have "dget sample_event ''epoch_ms'' = JInt 7" by code_simp
  ultimately show ?thesis using cef_is_one_record by simp
qed

section \<open>Telemetry: configuration\<close>

definition parse_bool :: "ucd \<Rightarrow> string \<Rightarrow> bool" where
  "parse_bool u raw \<longleftrightarrow> map lower_char (py_strip u raw) = ''true''"

text \<open>\<open>_parse_address\<close>: \<open>host:port\<close> or \<open>[host]:port\<close>.\<close>

definition parse_address :: "outside \<Rightarrow> string \<Rightarrow> (string \<times> int) option" where
  "parse_address ou text =
     (let raw = py_strip (ou_ucd ou) text in
      if raw = [] then None
      else if prefix ''['' raw then
        (let rest = after_first CHR '']'' raw
         in if CHR '']'' \<notin> set raw \<or> \<not> prefix '':'' rest then None
            else map_option (Pair (tl (before_first CHR '']'' raw))) (py_int ou (tl rest)))
      else if CHR '':'' \<in> set raw then
        (let port = after_last CHR '':'' raw
         in map_option (Pair (take (length raw - length port - 1) raw)) (py_int ou port))
      else None)"

record tele_env =
  te_enabled :: string
  te_address :: string
  te_protocol :: string
  te_format :: string
  te_facility :: string

record tele_settings =
  ts_enabled :: bool
  ts_address :: "(string \<times> int) option"
  ts_udp :: bool
  ts_cef :: bool
  ts_facility :: int
  ts_hostname :: string
  ts_procid :: string

definition tele_settings_of :: "outside \<Rightarrow> tele_env \<Rightarrow> string \<Rightarrow> nat \<Rightarrow> tele_settings" where
  "tele_settings_of ou env hostname pid =
     \<lparr>ts_enabled = parse_bool (ou_ucd ou) (te_enabled env),
      ts_address = (if te_address env = [] then None else parse_address ou (te_address env)),
      ts_udp = (map lower_char (te_protocol env) = ''udp''), ts_cef = (map lower_char (te_format env) = ''cef''),
      ts_facility = (case map_of facility_codes (map lower_char (te_facility env)) of None \<Rightarrow> 16 | Some n \<Rightarrow> n),
      ts_hostname = (if hostname = [] then ''unknown'' else hostname), ts_procid = str_nat pid\<rparr>"

definition tele_active :: "tele_settings \<Rightarrow> bool" where
  "tele_active ts \<longleftrightarrow> ts_enabled ts \<and> ts_address ts \<noteq> None"

section \<open>Telemetry: events\<close>

text \<open>The clock readings of one call, its latency and the caller's address.\<close>

record tele_call =
  tc_ts :: string
  tc_epoch_ms :: int
  tc_latency :: int
  tc_src_ip :: string

text \<open>\<open>_try_emit_decision\<close> and the event of \<open>emit_decision\<close>; \<open>None\<close> when building it raises.\<close>

definition decision_event :: "outside \<Rightarrow> tele_call \<Rightarrow> audit_call \<Rightarrow> dict option" where
  "decision_event ou tc a =
     (let e = au_envelope a; resp = au_response a in
      case (block_of e ''agent'', block_of e ''action'', block_of e ''target'', block_of e ''axes'',
            block_of e ''magnitude'') of
        (Some agent, Some action, Some target, Some axes, Some magnitude) \<Rightarrow>
          map_option (\<lambda>count.
             [(''ts'', JStr (tc_ts tc)), (''event'', JStr ''decision''), (''verdict'', text_or_empty resp ''decision''),
              (''rule_id'', text_or_empty resp ''rule''), (''verb'', text_or_empty action ''verb''),
              (''ability'', text_or_empty action ''ability''),
              (''axes'', JObj [(''reversibility'', text_or_empty axes ''reversibility''),
                 (''blast_radius'', text_or_empty axes ''blast_radius''),
                 (''externality'', text_or_empty axes ''externality'')]),
              (''magnitude_count'', JInt count), (''session_id'', text_or_empty agent ''session_id''),
              (''agent_id'', text_or_empty agent ''id''), (''on_behalf_of'', text_or_empty agent ''on_behalf_of''),
              (''environment'', text_or_empty target ''environment''),
              (''mode'', case dget e ''context'' of JObj c \<Rightarrow> dget_or c ''mode'' (JStr ''enforce'') | _ \<Rightarrow> JStr ''enforce''),
              (''decision_latency_ms'', JInt (tc_latency tc)), (''reason'', text_or_empty resp ''reason''),
              (''namespace'', text_or_empty action ''namespace''), (''srcip'', JStr (tc_src_ip tc)),
              (''target_ref'', JStr (if py_truth (dget target ''ref'') then py_str (ou_ucd ou) (dget target ''ref'') else [])),
              (''params'', if py_truth (dget e ''params'') then dget e ''params'' else JObj []),
              (''reeflex_version'', JStr core_version), (''epoch_ms'', JInt (tc_epoch_ms tc)),
              (''decision_id'', JStr (au_decision_id a)), (''envelope_hash'', JStr (au_hash a))]
             @ if_set ''hold_id'' (au_hold_id a) @ if_set ''parent_decision_id'' (au_parent a)
             @ if_set ''traceparent'' (JStr (au_traceparent a)))
           (int_of_json ou (dget_or magnitude ''count'' (JInt 1)))
      | _ \<Rightarrow> None)"

text \<open>The message of a decision; \<open>dumps\<close> is \<open>format_decision_json\<close>.\<close>

definition decision_message ::
  "outside \<Rightarrow> (dict \<Rightarrow> string) \<Rightarrow> tele_settings \<Rightarrow> tele_call \<Rightarrow> audit_call \<Rightarrow> string option" where
  "decision_message ou dumps ts tc a =
     (case decision_event ou tc a of
        None \<Rightarrow> None
      | Some event \<Rightarrow>
          (case (severity_of (dget event ''verdict''),
                 if ts_cef ts then format_decision_cef ou (tc_epoch_ms tc) core_version event else Some (dumps event)) of
             (Some severity, Some body) \<Rightarrow>
               Some (build_syslog_msg (tc_ts tc) (pri (ts_facility ts) severity) ''decision'' (ts_hostname ts)
                       (ts_procid ts) body)
           | _ \<Rightarrow> None))"

definition plain_event_cef :: "string \<Rightarrow> string \<Rightarrow> int \<Rightarrow> int \<Rightarrow> string \<Rightarrow> string" where
  "plain_event_cef kind name severity epoch_ms msg =
     ''CEF:0|Reeflex|reeflex-core|'' @ cef_escape core_version @ ''|'' @ kind @ ''|'' @ name @ ''|'' @ str_int severity @
     ''|rt='' @ str_int epoch_ms @ '' msg='' @ cef_escape msg"

definition lifecycle_message :: "(dict \<Rightarrow> string) \<Rightarrow> tele_settings \<Rightarrow> tele_call \<Rightarrow> string \<Rightarrow> string" where
  "lifecycle_message dumps ts tc phase =
     build_syslog_msg (tc_ts tc) (pri (ts_facility ts) 5) ''lifecycle'' (ts_hostname ts) (ts_procid ts)
       (if ts_cef ts then plain_event_cef ''lifecycle'' phase 5 (tc_epoch_ms tc) phase
        else dumps [(''ts'', JStr (tc_ts tc)), (''event'', JStr ''lifecycle''), (''phase'', JStr phase),
                    (''reeflex_version'', JStr core_version)])"

definition kill_switch_message ::
  "(dict \<Rightarrow> string) \<Rightarrow> tele_settings \<Rightarrow> tele_call \<Rightarrow> string \<Rightarrow> string \<Rightarrow> string" where
  "kill_switch_message dumps ts tc action reason =
     build_syslog_msg (tc_ts tc) (pri (ts_facility ts) 2) ''kill_switch'' (ts_hostname ts) (ts_procid ts)
       (if ts_cef ts then plain_event_cef ''kill_switch'' action 2 (tc_epoch_ms tc) reason
        else dumps [(''ts'', JStr (tc_ts tc)), (''event'', JStr ''kill_switch''), (''action'', JStr action),
                    (''reason'', JStr reason), (''reeflex_version'', JStr core_version)])"

section \<open>Telemetry: the emitter\<close>

record tele_emitter =
  tl_settings :: tele_settings
  tl_queue :: "string option list"
  tl_worker :: worker
  tl_connected :: bool
  tl_error :: string
  tl_log :: "string list"
  tl_tried :: "string list"
  tl_delivered :: "string list"
  tl_dropped :: int

definition tele_limit :: int where
  "tele_limit = 1000"

definition new_telemetry :: "tele_settings \<Rightarrow> tele_emitter" where
  "new_telemetry ts =
     \<lparr>tl_settings = ts, tl_queue = [], tl_worker = NotStarted, tl_connected = False, tl_error = [], tl_log = [],
      tl_tried = [], tl_delivered = [], tl_dropped = 0\<rparr>"

definition tele_start :: "tele_emitter \<Rightarrow> tele_emitter" where
  "tele_start w = (if \<not> tele_active (tl_settings w) then w else w\<lparr>tl_worker := Serving\<rparr>)"

text \<open>\<open>stop\<close>: the mark, and at the end the socket is closed.\<close>

definition tele_stop :: "tele_emitter \<Rightarrow> tele_emitter" where
  "tele_stop w =
     (if \<not> ts_enabled (tl_settings w) \<or> tl_worker w = NotStarted then w
      else (if queue_full tele_limit (tl_queue w) then w else w\<lparr>tl_queue := tl_queue w @ [None]\<rparr>)
             \<lparr>tl_connected := False\<rparr>)"

definition tele_enqueue :: "string \<Rightarrow> tele_emitter \<Rightarrow> tele_emitter" where
  "tele_enqueue msg w =
     (if queue_full tele_limit (tl_queue w) then w\<lparr>tl_dropped := tl_dropped w + 1\<rparr>
      else w\<lparr>tl_queue := tl_queue w @ [Some msg]\<rparr>)"

text \<open>\<open>emit_decision\<close> of an active emitter, for a message that could be built.\<close>

definition emit_decision ::
  "outside \<Rightarrow> (dict \<Rightarrow> string) \<Rightarrow> tele_call \<Rightarrow> audit_call \<Rightarrow> tele_emitter \<Rightarrow> tele_emitter" where
  "emit_decision ou dumps tc a w =
     (if \<not> tele_active (tl_settings w) then w
      else case decision_message ou dumps (tl_settings w) tc a of None \<Rightarrow> w | Some msg \<Rightarrow> tele_enqueue msg w)"

text \<open>Sending over TCP or TLS. What the network does: the error of the datagram, of connecting, of sending (with
  whether it is an \<open>OSError\<close>), and of the second attempt at each; \<open>None\<close> is success.\<close>

record network =
  nw_datagram :: "string option"
  nw_connect :: "string option"
  nw_send :: "(bool \<times> string) option"
  nw_reconnect :: "string option"
  nw_resend :: "string option"

definition tcp_frame :: "string \<Rightarrow> string" where
  "tcp_frame msg = str_nat (length msg) @ '' '' @ msg @ [newline]"

definition send_tcp :: "network \<Rightarrow> bool \<Rightarrow> bool \<times> string option" where
  "send_tcp net link =
     (case (if link then None else nw_connect net) of
        Some err \<Rightarrow> (False, Some err)
      | None \<Rightarrow>
          (case nw_send net of
             None \<Rightarrow> (True, None)
           | Some (os_error, err) \<Rightarrow>
               if \<not> os_error then (True, Some err)
               else case nw_reconnect net of
                 Some err \<Rightarrow> (False, Some err)
               | None \<Rightarrow> (True, nw_resend net)))"

text \<open>\<open>_send\<close>: after a failure the socket is closed, so the next message reconnects. While draining, the error
  that was last logged is not carried from message to message (\<open>keep\<close> is \<open>False\<close>).\<close>

definition tele_send :: "network \<Rightarrow> bool \<Rightarrow> string \<Rightarrow> tele_emitter \<Rightarrow> tele_emitter" where
  "tele_send net keep msg w =
     (let udp = ts_udp (tl_settings w);
          (link, failure) = (if udp then (tl_connected w, nw_datagram net) else send_tcp net (tl_connected w));
          (lines, err) = note_error failure (tl_error w)
      in w\<lparr>tl_tried := tl_tried w @ [msg], tl_log := tl_log w @ lines,
           tl_error := (if keep then err else tl_error w), tl_connected := (link \<and> failure = None),
           tl_delivered := (if failure = None then tl_delivered w @ [if udp then msg else tcp_frame msg]
                            else tl_delivered w)\<rparr>)"

definition tele_work :: "network \<Rightarrow> tele_emitter \<Rightarrow> tele_emitter" where
  "tele_work net w =
     (case tl_worker w of
        Serving \<Rightarrow>
          (case tl_queue w of
             [] \<Rightarrow> w
           | None # q \<Rightarrow> w\<lparr>tl_queue := q, tl_worker := Draining\<rparr>
           | Some msg # q \<Rightarrow> tele_send net True msg (w\<lparr>tl_queue := q\<rparr>))
      | Draining \<Rightarrow>
          (case tl_queue w of
             [] \<Rightarrow> w\<lparr>tl_worker := Exited\<rparr>
           | None # q \<Rightarrow> w\<lparr>tl_queue := q, tl_worker := Exited\<rparr>
           | Some msg # q \<Rightarrow> tele_send net False msg (w\<lparr>tl_queue := q\<rparr>))
      | _ \<Rightarrow> w)"

datatype tele_other = TeleStart | TeleStop | TeleWork network

fun tele_do :: "tele_other \<Rightarrow> tele_emitter \<Rightarrow> tele_emitter" where
  "tele_do TeleStart w = tele_start w"
| "tele_do TeleStop w = tele_stop w"
| "tele_do (TeleWork net) w = tele_work net w"

lemmas tele_defs = tele_start_def tele_stop_def tele_work_def tele_send_def tele_enqueue_def Let_def

interpretation telemetry: delivery_queue tele_enqueue tele_do "\<lambda>w. queued_messages (tl_queue w)" tl_tried tl_dropped
proof (unfold_locales, goal_cases)
  case (3 k s)
  show ?case by (cases k) (auto simp: tele_defs split: worker.split list.split option.split prod.split)
next
  case (4 k s)
  show ?case by (cases k) (auto simp: tele_defs split: worker.split list.split option.split prod.split)
qed (auto simp: tele_enqueue_def)

text \<open>What reached the collector is, in order, part of what was tried.\<close>

definition on_wire :: "tele_settings \<Rightarrow> string \<Rightarrow> string" where
  "on_wire ts msg = (if ts_udp ts then msg else tcp_frame msg)"

lemma tele_settings_fixed [simp]: "tl_settings (tele_do k w) = tl_settings w" "tl_settings (tele_enqueue m w) = tl_settings w"
  by (cases k; auto simp: tele_defs split: worker.split list.split option.split prod.split)+

definition delivered_ok :: "tele_emitter \<Rightarrow> bool" where
  "delivered_ok w \<longleftrightarrow> subseq (tl_delivered w) (map (on_wire (tl_settings w)) (tl_tried w))"

lemma delivered_ok_send: "delivered_ok w \<Longrightarrow> delivered_ok (tele_send net keep msg (w\<lparr>tl_queue := q\<rparr>))"
  by (auto simp: delivered_ok_def tele_send_def on_wire_def Let_def split: prod.split intro: list_emb_append_mono)

lemma delivered_ok_step: "delivered_ok w \<Longrightarrow> delivered_ok (tele_do k w)" "delivered_ok w \<Longrightarrow> delivered_ok (tele_enqueue m w)"
proof -
  show "delivered_ok (tele_do k w)" if "delivered_ok w"
    using that delivered_ok_send [OF that]
    by (cases k) (auto simp: tele_start_def tele_stop_def tele_work_def delivered_ok_def split: worker.split list.split option.split)
qed (simp add: delivered_ok_def tele_enqueue_def)

lemma delivered_ok_run: "delivered_ok w \<Longrightarrow> delivered_ok (emitter_run tele_enqueue tele_do es w)"
proof (induction es arbitrary: w)
  case (Cons e es)
  then show ?case by (cases e) (auto intro: delivered_ok_step)
qed simp

text \<open>Telemetry keeps order too, and what reached the collector is part of what was tried, each message once.\<close>

theorem telemetry_in_order:
  assumes "w = emitter_run tele_enqueue tele_do es (new_telemetry ts)"
  shows "subseq (tl_tried w @ queued_messages (tl_queue w)) (puts es) \<and>
    int (length (tl_tried w)) + int (length (queued_messages (tl_queue w))) + tl_dropped w = int (length (puts es)) \<and>
    subseq (tl_delivered w) (map (on_wire (tl_settings w)) (tl_tried w))"
proof -
  obtain kept where "subseq kept (puts es)" "tl_tried w @ queued_messages (tl_queue w) = kept"
    "int (length kept) + tl_dropped w = int (length (puts es))"
    using telemetry.run_order [of es "new_telemetry ts"] assms(1) by (auto simp: new_telemetry_def)
  moreover have "delivered_ok w" unfolding assms(1) by (rule delivered_ok_run) (simp add: delivered_ok_def new_telemetry_def)
  ultimately show ?thesis by (auto simp: delivered_ok_def)
qed

lemma map_of_all: "list_all (\<lambda>p. P (snd p)) d \<Longrightarrow> map_of d x = Some n \<Longrightarrow> P n"
  by (induction d) (auto split: if_splits)

lemma facility_range: "0 \<le> ts_facility (tele_settings_of ou env hostname pid) \<and>
    ts_facility (tele_settings_of ou env hostname pid) \<le> 23"
proof -
  have "list_all (\<lambda>p. 0 \<le> snd p \<and> snd p \<le> 23) facility_codes" by code_simp
  then have "map_of facility_codes x = Some n \<Longrightarrow> 0 \<le> n \<and> n \<le> 23" for x n
    by (rule map_of_all)
  then show ?thesis by (auto simp: tele_settings_of_def split: option.split)
qed

lemma severity_range: "severity_of v = Some n \<Longrightarrow> 2 \<le> n \<and> n \<le> 6"
proof -
  assume s: "severity_of v = Some n"
  have "list_all (\<lambda>p. 2 \<le> snd p \<and> snd p \<le> 6) severities" by code_simp
  then have "map_of severities x = Some m \<Longrightarrow> 2 \<le> m \<and> m \<le> 6" for x m
    by (rule map_of_all)
  then show ?thesis using s by (auto simp: severity_of_def split: json.splits option.splits if_splits)
qed

text \<open>The priority of a syslog message is within the range of RFC 5424.\<close>

lemma pri_range:
  assumes "severity_of v = Some n"
  shows "0 \<le> pri (ts_facility (tele_settings_of ou env hostname pid)) n \<and>
    pri (ts_facility (tele_settings_of ou env hostname pid)) n \<le> 191"
  using severity_range [OF assms] facility_range [of ou env hostname pid] by (simp add: pri_def)

end
