(* ===== verification/HookClock.thy ===== *)
theory HookClock
  imports PyText
begin

text \<open>
  The deadline of the Claude Code hook (\<open>reeflex-claude/reeflex_claude/deadline.py\<close>). The runner that starts
  the hook kills it after a timeout and then runs the tool, so the hook must answer before that. Times are
  rational seconds; \<open>rd\<close> rounds the result of an arithmetic operation to a double. The environment variable and
  the clock reading are arguments; \<open>fl\<close> is \<open>float\<close> on a text, \<open>None\<close> where it raises.
\<close>

section \<open>The module's state and constants\<close>

record hook_clock =
  ck_started :: rat
  ck_armed :: bool

definition runner_timeout_seconds :: rat where
  "runner_timeout_seconds = 30"

text \<open>The doubles nearest to 0.8 and 0.1.\<close>

definition deadline_fraction :: rat where
  "deadline_fraction = 3602879701896397 / 4503599627370496"

definition min_reserve :: rat where
  "min_reserve = 1 / 2"

definition floor_seconds :: rat where
  "floor_seconds = 3602879701896397 / 36028797018963968"

definition emit_reserve :: rat where
  "emit_reserve = 1 / 4"

text \<open>What \<open>float\<close> returned when it is a positive number: \<open>x > 0\<close> holds of an infinity and not of a \<open>nan\<close>.\<close>

fun positive :: "pyfloat \<Rightarrow> bool" where
  "positive (Fin x) = (0 < x)"
| "positive PosInf = True"
| "positive NegInf = False"
| "positive NaN = False"

text \<open>\<open>min(a, r)\<close> for a positive \<open>a\<close> and a finite \<open>r\<close>.\<close>

fun capped_at :: "pyfloat \<Rightarrow> rat \<Rightarrow> rat" where
  "capped_at (Fin x) r = (if r < x then r else x)"
| "capped_at _ r = r"

section \<open>Budget\<close>

definition runner_timeout :: "ucd \<Rightarrow> (string \<Rightarrow> pyfloat option) \<Rightarrow> string option \<Rightarrow> rat" where
  "runner_timeout u fl env =
     (let raw = py_strip u (case env of None \<Rightarrow> [] | Some v \<Rightarrow> v);
          val = (if raw = [] then Fin 0 else case fl raw of None \<Rightarrow> Fin 0 | Some x \<Rightarrow> x);
          declared = (if positive val then val else Fin runner_timeout_seconds)
      in capped_at declared runner_timeout_seconds)"

definition deadline :: "(rat \<Rightarrow> rat) \<Rightarrow> rat \<Rightarrow> rat" where
  "deadline rd timeout =
     max floor_seconds (min (rd (timeout * deadline_fraction)) (rd (timeout - min_reserve)))"

definition elapsed :: "(rat \<Rightarrow> rat) \<Rightarrow> hook_clock \<Rightarrow> rat \<Rightarrow> rat" where
  "elapsed rd ck now = rd (now - ck_started ck)"

definition remaining :: "(rat \<Rightarrow> rat) \<Rightarrow> rat \<Rightarrow> hook_clock \<Rightarrow> rat \<Rightarrow> rat" where
  "remaining rd timeout ck now = rd (deadline rd timeout - elapsed rd ck now)"

definition expired :: "(rat \<Rightarrow> rat) \<Rightarrow> rat \<Rightarrow> hook_clock \<Rightarrow> rat \<Rightarrow> bool" where
  "expired rd timeout ck now \<longleftrightarrow> remaining rd timeout ck now \<le> 0"

text \<open>\<open>budget_for(requested)\<close>, where the caller's request may be \<open>None\<close>.\<close>

definition budget_for ::
  "(rat \<Rightarrow> rat) \<Rightarrow> rat \<Rightarrow> hook_clock \<Rightarrow> rat \<Rightarrow> pyfloat option \<Rightarrow> pyfloat option" where
  "budget_for rd timeout ck now requested =
     (if \<not> ck_armed ck then requested
      else let left = rd (remaining rd timeout ck now - emit_reserve)
           in if left \<le> 0 then Some (Fin 0)
              else case requested of
                     None \<Rightarrow> Some (Fin left)
                   | Some r \<Rightarrow> if fle r (Fin 0) then Some (Fin left) else Some (Fin (capped_at r left)))"

section \<open>The watchdog\<close>

text \<open>Arming calls the answer at once when the deadline has passed and starts a timer otherwise.\<close>

datatype watchdog = AnswerNow rat | TimerFor rat rat

definition arm :: "(rat \<Rightarrow> rat) \<Rightarrow> rat \<Rightarrow> hook_clock \<Rightarrow> rat \<Rightarrow> hook_clock \<times> watchdog" where
  "arm rd timeout ck now =
     (let left = remaining rd timeout ck now
      in (ck\<lparr>ck_armed := True\<rparr>,
          if left \<le> 0 then AnswerNow (deadline rd timeout) else TimerFor left (deadline rd timeout)))"

text \<open>When the armed watchdog answers, on the module's clock.\<close>

fun fires_at :: "rat \<Rightarrow> watchdog \<Rightarrow> rat" where
  "fires_at now (AnswerNow _) = now"
| "fires_at now (TimerFor left _) = now + left"

section \<open>What rounding to doubles keeps\<close>

text \<open>Rounding to nearest errs by less than \<open>2\<^sup>-\<^sup>2\<^sup>0\<close> on a magnitude up to \<open>2\<^sup>2\<^sup>0\<close> (twelve days of seconds).\<close>

definition rounds :: "(rat \<Rightarrow> rat) \<Rightarrow> bool" where
  "rounds rd \<longleftrightarrow> (\<forall>x. \<bar>x\<bar> \<le> 2 ^ 20 \<longrightarrow> \<bar>rd x - x\<bar> \<le> 1 / 2 ^ 20)"

lemma rounds_le: "rounds rd \<Longrightarrow> \<bar>x\<bar> \<le> 2 ^ 20 \<Longrightarrow> rd x \<le> x + 1 / 2 ^ 20"
  unfolding rounds_def by (drule spec [of _ x]) linarith

lemma rounds_ge: "rounds rd \<Longrightarrow> \<bar>x\<bar> \<le> 2 ^ 20 \<Longrightarrow> x - 1 / 2 ^ 20 \<le> rd x"
  unfolding rounds_def by (drule spec [of _ x]) linarith

lemma rounds_id: "rounds (\<lambda>x. x)"
  by (simp add: rounds_def)

section \<open>Bounds\<close>

lemma runner_timeout_pos: "0 < runner_timeout u fl env"
  by (auto simp: runner_timeout_def runner_timeout_seconds_def Let_def split: option.splits
      elim!: positive.elims)

lemma runner_timeout_le: "runner_timeout u fl env \<le> 30"
  by (auto simp: runner_timeout_def runner_timeout_seconds_def Let_def split: option.splits
      elim!: positive.elims)

lemma deadline_pos: "0 < deadline rd t"
  by (simp add: deadline_def floor_seconds_def less_max_iff_disj)

text \<open>The deadline keeps a tenth of a millisecond and more before the runner's timeout, from an eighth of a
  second on.\<close>

lemma deadline_before:
  assumes "rounds rd" "1 / 8 \<le> t" "t \<le> 30"
  shows "deadline rd t < t - 1 / 2 ^ 10"
proof -
  have "rd (t - 1 / 2) \<le> t - 1 / 2 + 1 / 2 ^ 20"
    using assms by (intro rounds_le) (simp_all add: abs_le_iff)
  moreover have "floor_seconds < t - 1 / 2 ^ 10"
    using assms(2) by (simp add: floor_seconds_def)
  ultimately show ?thesis
    unfolding deadline_def min_reserve_def by (simp add: min_less_iff_disj)
qed

lemma deadline_small: "rounds rd \<Longrightarrow> 1 / 8 \<le> t \<Longrightarrow> t \<le> 30 \<Longrightarrow> \<bar>deadline rd t\<bar> \<le> 30"
  using deadline_before [of rd t] deadline_pos [of rd t] by simp

lemma remaining_le:
  assumes rd: "rounds rd" and t: "1 / 8 \<le> t" "t \<le> 30"
    and now: "ck_started ck \<le> now" "now - ck_started ck \<le> 86400"
  shows "remaining rd t ck now \<le> deadline rd t - (now - ck_started ck) + 2 / 2 ^ 20"
    and "\<bar>remaining rd t ck now\<bar> \<le> 90000"
proof -
  have e: "now - ck_started ck - 1 / 2 ^ 20 \<le> elapsed rd ck now" "elapsed rd ck now \<le> now - ck_started ck + 1 / 2 ^ 20"
    using now rounds_le [OF rd, of "now - ck_started ck"] rounds_ge [OF rd, of "now - ck_started ck"]
    by (simp_all add: elapsed_def)
  note d = deadline_small [OF rd t, unfolded abs_le_iff]
  have "\<bar>deadline rd t - elapsed rd ck now\<bar> \<le> 2 ^ 20"
    using e d now by (simp add: abs_le_iff)
  note r = rounds_le [OF rd this] rounds_ge [OF rd this]
  show "remaining rd t ck now \<le> deadline rd t - (now - ck_started ck) + 2 / 2 ^ 20"
    using r(1) e(1) by (simp add: remaining_def)
  show "\<bar>remaining rd t ck now\<bar> \<le> 90000"
    using r e d now by (simp add: remaining_def abs_le_iff)
qed

lemma budget_le:
  assumes "ck_armed ck" "budget_for rd t ck now requested = Some b" "b \<noteq> Fin 0"
  shows "\<exists>x. b = Fin x \<and> x \<le> rd (remaining rd t ck now - emit_reserve)"
proof (cases requested)
  case (Some r)
  then show ?thesis using assms
    by (cases r) (auto simp: budget_for_def Let_def split: if_splits)
qed (use assms in \<open>auto simp: budget_for_def Let_def split: if_splits\<close>)

section \<open>Every wait of an armed hook ends before the runner kills it\<close>


text \<open>Without the bound on the declared timeout it fails: a declared 0.05 seconds leaves the floor of 0.1.\<close>

theorem tiny_timeout_overrun:
  "runner_timeout plain_ucd (\<lambda>_. Some (Fin (1 / 20))) (Some ''0.05'') < deadline (\<lambda>x. x)
     (runner_timeout plain_ucd (\<lambda>_. Some (Fin (1 / 20))) (Some ''0.05''))"
proof -
  have "py_strip plain_ucd ''0.05'' \<noteq> []" by code_simp
  then show ?thesis
    by (simp add: runner_timeout_def runner_timeout_seconds_def deadline_def floor_seconds_def less_max_iff_disj)
qed


end
