(* ===== verification/Credentials.thy ===== *)
theory Credentials
  imports PyText
begin

text \<open>
  The file that keeps the engine credentials of a machine's gates
  (\<open>reeflex-claude/reeflex_claude/credentials.py\<close>). The file is the JSON value it holds or what is wrong with
  it; \<open>json.dumps\<close> then \<open>json.loads\<close> is the identity on the values written here. Permission bits and the
  temporary file are not modelled: a write replaces the file or leaves it as it was.
\<close>

datatype cred_file = NoFile | Unreadable | BadBytes | NoJson | Parsed json

datatype store_exc = CredentialStoreError | EncodeError

text \<open>\<open>s.rstrip("/")\<close>.\<close>

definition rstrip_slashes :: "string \<Rightarrow> string" where
  "rstrip_slashes s = rev (dropWhile (\<lambda>c. c = CHR ''/'') (rev s))"

section \<open>Reading\<close>

definition cred_version :: int where
  "cred_version = 1"

definition no_credentials :: dict where
  "no_credentials = [(''version'', JInt cred_version), (''credentials'', JArr [])]"

text \<open>\<open>_load\<close>: bytes that are not UTF-8 raise (a \<open>UnicodeDecodeError\<close> is no \<open>OSError\<close>).\<close>

fun cred_load :: "cred_file \<Rightarrow> unit + dict" where
  "cred_load BadBytes = Inl ()"
| "cred_load (Parsed (JObj d)) = Inr (if is_arr (dget d ''credentials'') then d else dput ''credentials'' (JArr []) d)"
| "cred_load _ = Inr no_credentials"

fun arr_items :: "json \<Rightarrow> json list" where
  "arr_items (JArr xs) = xs"
| "arr_items _ = []"

text \<open>\<open>data.get("credentials", [])\<close> of what \<open>_load\<close> returned.\<close>

definition cred_entries :: "dict \<Rightarrow> json list" where
  "cred_entries d = arr_items (dget_or d ''credentials'' (JArr []))"

text \<open>An entry that is a dict for this engine and gate.\<close>

definition cred_matches :: "string \<Rightarrow> string \<Rightarrow> json \<Rightarrow> bool" where
  "cred_matches core_url gate_id e \<longleftrightarrow>
     is_obj e \<and> dget (as_obj e) ''core_url'' = JStr core_url \<and> dget (as_obj e) ''gate_id'' = JStr gate_id"

text \<open>The loop of a lookup: the first matching entry for which \<open>pick\<close> returns something.\<close>

fun cred_find :: "(dict \<Rightarrow> string option) \<Rightarrow> string \<Rightarrow> string \<Rightarrow> json list \<Rightarrow> string option" where
  "cred_find pick core_url gate_id [] = None"
| "cred_find pick core_url gate_id (e # es) =
     (if \<not> cred_matches core_url gate_id e then cred_find pick core_url gate_id es
      else case pick (as_obj e) of Some x \<Rightarrow> Some x | None \<Rightarrow> cred_find pick core_url gate_id es)"

definition cred_scan :: "(dict \<Rightarrow> string option) \<Rightarrow> string \<Rightarrow> string \<Rightarrow> cred_file \<Rightarrow> string option" where
  "cred_scan pick core_url gate_id f =
     (case cred_load f of Inl _ \<Rightarrow> None | Inr d \<Rightarrow> cred_find pick core_url gate_id (cred_entries d))"

definition pick_token :: "dict \<Rightarrow> string option" where
  "pick_token e = (case dget e ''token'' of JStr t \<Rightarrow> if t = [] then None else Some t | _ \<Rightarrow> None)"

definition pick_portal :: "ucd \<Rightarrow> dict \<Rightarrow> string option" where
  "pick_portal u e = (case dget e ''portal_url'' of
     JStr p \<Rightarrow> if py_strip u p = [] then None else Some (rstrip_slashes (py_strip u p)) | _ \<Rightarrow> None)"

definition cred_lookup :: "string \<Rightarrow> string \<Rightarrow> cred_file \<Rightarrow> string option" where
  "cred_lookup = cred_scan pick_token"

definition lookup_portal_url :: "ucd \<Rightarrow> string \<Rightarrow> string \<Rightarrow> cred_file \<Rightarrow> string option" where
  "lookup_portal_url u = cred_scan (pick_portal u)"

section \<open>Writing\<close>

record credential =
  cr_core_url :: string
  cr_gate_id :: string
  cr_token :: string
  cr_expires_at :: "string option"
  cr_portal_url :: "string option"
  cr_gate_name :: "string option"
  cr_environment :: "string option"

text \<open>\<open>for key, value in ...: if value: entry[key] = value\<close>.\<close>

definition with_text :: "string \<Rightarrow> string option \<Rightarrow> dict \<Rightarrow> dict" where
  "with_text k v d = (case v of None \<Rightarrow> d | Some s \<Rightarrow> if s = [] then d else dput k (JStr s) d)"

definition cred_entry :: "string \<Rightarrow> credential \<Rightarrow> dict" where
  "cred_entry now c =
     with_text ''environment'' (cr_environment c)
       (with_text ''gate_name'' (cr_gate_name c)
         (with_text ''portal_url'' (cr_portal_url c)
           (with_text ''expires_at'' (cr_expires_at c)
             [(''core_url'', JStr (cr_core_url c)), (''gate_id'', JStr (cr_gate_id c)),
              (''token'', JStr (cr_token c)), (''written_at'', JStr now)])))"

text \<open>How the write ends: done, an \<open>OSError\<close>, or a text that has no UTF-8 encoding.\<close>

datatype write_end = Written | WriteFailed | WriteUnencodable

fun refused_on_write :: "cred_file \<Rightarrow> bool" where
  "refused_on_write NoFile = False"
| "refused_on_write (Parsed (JObj d)) = False"
| "refused_on_write _ = True"

text \<open>\<open>store\<close>: the file after it, or the exception it raises, which leaves the file alone.\<close>

definition cred_store :: "string \<Rightarrow> write_end \<Rightarrow> credential \<Rightarrow> cred_file \<Rightarrow> store_exc + cred_file" where
  "cred_store now we c f =
     (if refused_on_write f then Inl CredentialStoreError
      else case cred_load f of
             Inl _ \<Rightarrow> Inl CredentialStoreError
           | Inr d \<Rightarrow>
               let kept = filter (\<lambda>e. \<not> cred_matches (cr_core_url c) (cr_gate_id c) e) (cred_entries d);
                   d' = dput ''credentials'' (JArr (kept @ [JObj (cred_entry now c)]))
                          (dput ''version'' (JInt cred_version) d)
               in case we of
                    Written \<Rightarrow> Inr (Parsed (JObj d'))
                  | WriteFailed \<Rightarrow> Inl CredentialStoreError
                  | WriteUnencodable \<Rightarrow> Inl EncodeError)"

section \<open>What is stored is found, and nothing else changes\<close>

lemma dget_with_text: "k \<noteq> j \<Longrightarrow> dget (with_text k v d) j = dget d j"
  by (simp add: with_text_def split: option.split)

lemma cred_entry_get:
  "dget (cred_entry now c) ''core_url'' = JStr (cr_core_url c)"
  "dget (cred_entry now c) ''gate_id'' = JStr (cr_gate_id c)"
  "dget (cred_entry now c) ''token'' = JStr (cr_token c)"
  by (simp_all add: cred_entry_def dget_with_text)

lemma cred_find_append:
  "cred_find pick u g (xs @ ys) = (case cred_find pick u g xs of Some x \<Rightarrow> Some x | None \<Rightarrow> cred_find pick u g ys)"
  by (induction xs) (auto split: option.splits)

lemma cred_find_none: "\<forall>e \<in> set es. \<not> cred_matches u g e \<Longrightarrow> cred_find pick u g es = None"
  by (induction es) auto

lemma cred_find_filter_other:
  "(u', g') \<noteq> (u, g) \<Longrightarrow> cred_find pick u' g' (filter (\<lambda>e. \<not> cred_matches u g e) es) = cred_find pick u' g' es"
  by (induction es) (auto simp: cred_matches_def split: option.splits)

lemma cred_entry_matches:
  "cred_matches u g (JObj (cred_entry now c)) \<longleftrightarrow> (u, g) = (cr_core_url c, cr_gate_id c)"
  by (auto simp: cred_matches_def cred_entry_get)

lemma cred_scan_store:
  assumes "cred_store now we c f = Inr f'" "pick (cred_entry now c) = Some x"
  shows "cred_scan pick u g f' = (if (u, g) = (cr_core_url c, cr_gate_id c) then Some x else cred_scan pick u g f)"
proof -
  from assms(1) obtain d where d: "cred_load f = Inr d"
    and f': "cred_entries (case f' of Parsed (JObj e) \<Rightarrow> e | _ \<Rightarrow> []) =
      filter (\<lambda>e. \<not> cred_matches (cr_core_url c) (cr_gate_id c) e) (cred_entries d) @ [JObj (cred_entry now c)]"
    and shape: "cred_load f' = Inr (case f' of Parsed (JObj e) \<Rightarrow> e | _ \<Rightarrow> [])"
    by (auto simp: cred_store_def Let_def cred_entries_def dget_or_def split: if_splits sum.splits write_end.splits)
  show ?thesis
    using assms(2) cred_find_none [of "filter (\<lambda>e. \<not> cred_matches (cr_core_url c) (cr_gate_id c) e) (cred_entries d)"
        "cr_core_url c" "cr_gate_id c" pick]
    by (auto simp: cred_scan_def d shape f' cred_find_append cred_entry_matches cred_find_filter_other
        split: option.split)
qed

text \<open>Once a credential is stored, the hook finds it for its engine and gate, in place of any earlier one,
  and finds for every other engine and gate exactly what it found before.\<close>

theorem stored_credential_found:
  assumes "cred_store now we c f = Inr f'" "cr_token c \<noteq> []"
  shows "cred_lookup u g f' =
    (if (u, g) = (cr_core_url c, cr_gate_id c) then Some (cr_token c) else cred_lookup u g f)"
  using cred_scan_store [OF assms(1), of pick_token "cr_token c" u g] assms(2)
  by (simp add: cred_lookup_def pick_token_def cred_entry_get)

definition sample_credential :: "string \<Rightarrow> string \<Rightarrow> credential" where
  "sample_credential gate token = \<lparr>cr_core_url = ''http://e'', cr_gate_id = gate, cr_token = token,
     cr_expires_at = None, cr_portal_url = Some ''https://p/'', cr_gate_name = None, cr_environment = None\<rparr>"

theorem stored_credential_found_witness:
  "case cred_store ''t'' Written (sample_credential ''a'' ''x'') NoFile of
     Inl _ \<Rightarrow> False
   | Inr f \<Rightarrow>
       (case cred_store ''t'' Written (sample_credential ''b'' ''y'') f of
          Inl _ \<Rightarrow> False
        | Inr f' \<Rightarrow> cred_lookup ''http://e'' ''a'' f' = Some ''x'' \<and> cred_lookup ''http://e'' ''b'' f' = Some ''y'')"
proof -
  obtain f where f: "cred_store ''t'' Written (sample_credential ''a'' ''x'') NoFile = Inr f"
    by (simp add: cred_store_def)
  then obtain f' where f': "cred_store ''t'' Written (sample_credential ''b'' ''y'') f = Inr f'"
    by (auto simp: cred_store_def Let_def)
  have sel: "cr_core_url (sample_credential g t) = ''http://e''" "cr_gate_id (sample_credential g t) = g"
    "cr_token (sample_credential g t) = t" for g t
    by (simp_all add: sample_credential_def)
  show ?thesis
    using stored_credential_found [OF f, of "''http://e''" "''a''"]
      stored_credential_found [OF f', of "''http://e''" "''a''"]
      stored_credential_found [OF f', of "''http://e''" "''b''"]
    by (simp add: f f' sel)
qed

end
