(* ===== verification/HookBase.thy ===== *)
theory HookBase
  imports PyText HookClock Credentials
begin

text \<open>
  What the modules of the Claude Code hook (\<open>reeflex-claude/reeflex_claude\<close>) share: the parts of the standard
  library that the repository does not hold, texts measured in characters, the environment variables, and
  the answer of the classifier.
\<close>

section \<open>The standard library\<close>

text \<open>Exceptions that reach an \<open>except Exception\<close>; their texts are the library's.\<close>

datatype hook_exc = HValueError | HTypeError | HAttributeError | HEncodeError | HOverflowError | HOther string

record library =
  lb_ucd :: ucd
  lb_lower :: "string \<Rightarrow> string"
  lb_float :: "string \<Rightarrow> pyfloat option"
  lb_int :: "string \<Rightarrow> int option"
  lb_round :: "rat \<Rightarrow> pyfloat"
  lb_exc_text :: "hook_exc \<Rightarrow> string"
  lb_repr :: "json \<Rightarrow> string"
  lb_fixed1 :: "pyfloat \<Rightarrow> string"
  lb_fixed0 :: "pyfloat \<Rightarrow> string"
  lb_sha256 :: "string \<Rightarrow> string"
  lb_loads :: "string \<Rightarrow> hook_exc + json"
  lb_word :: "nat \<Rightarrow> bool"
  lb_digit :: "nat \<Rightarrow> bool"
  lb_digits :: "string \<Rightarrow> bool"
  lb_url_error :: "string \<Rightarrow> hook_exc option"

text \<open>What reading a text file gives.\<close>

datatype text_file = FText string | FAbsent | FUnreadable

text \<open>Python's \<open>a < b\<close> on floats: a \<open>nan\<close> is below nothing and above nothing.\<close>

definition flt :: "pyfloat \<Rightarrow> pyfloat \<Rightarrow> bool" where
  "flt a b \<longleftrightarrow> fle a b \<and> \<not> fle b a"

definition lower :: "library \<Rightarrow> string \<Rightarrow> string" where
  "lower lb s = (if is_ascii s then map lower_char s else lb_lower lb s)"

abbreviation strip :: "library \<Rightarrow> string \<Rightarrow> string" where
  "strip lb \<equiv> py_strip (lb_ucd lb)"

section \<open>Characters\<close>

text \<open>A text is its UTF-8 bytes; \<open>len\<close> and slices count characters, the bytes that continue none.\<close>

definition continues :: "char \<Rightarrow> bool" where
  "continues c \<longleftrightarrow> 128 \<le> code c \<and> code c < 192"

definition high_byte :: "char \<Rightarrow> bool" where
  "high_byte c \<longleftrightarrow> 128 \<le> code c"

lemma continues_code [code]: "continues (Char b0 b1 b2 b3 b4 b5 b6 b7) = (b7 \<and> \<not> b6)"
  by (cases b0; cases b1; cases b2; cases b3; cases b4; cases b5; cases b6; cases b7) (simp_all add: continues_def)

lemma high_byte_code [code]: "high_byte (Char b0 b1 b2 b3 b4 b5 b6 b7) = b7"
  by (cases b0; cases b1; cases b2; cases b3; cases b4; cases b5; cases b6; cases b7) (simp_all add: high_byte_def)

definition num_chars :: "string \<Rightarrow> nat" where
  "num_chars s = length (filter (\<lambda>c. \<not> continues c) s)"

text \<open>\<open>s[:n]\<close>.\<close>

fun take_chars :: "nat \<Rightarrow> string \<Rightarrow> string" where
  "take_chars n [] = []"
| "take_chars n (c # cs) =
     (if continues c then c # take_chars n cs
      else case n of 0 \<Rightarrow> [] | Suc m \<Rightarrow> c # take_chars m cs)"

text \<open>\<open>list(s)\<close>: a text cut before every byte that starts a character. An ASCII byte is a character of its own.\<close>

fun chars_of :: "string \<Rightarrow> string list" where
  "chars_of [] = []"
| "chars_of (c # cs) =
     (case chars_of cs of
        [] \<Rightarrow> [[c]]
      | w # ws \<Rightarrow> if continues (hd w) \<and> high_byte c then (c # w) # ws else [c] # w # ws)"

text \<open>A lone surrogate (which a JSON escape can put into a text) has no UTF-8 encoding; here it is the three
  bytes that would encode it.\<close>

fun encodable :: "string \<Rightarrow> bool" where
  "encodable (a # b # cs) \<longleftrightarrow> \<not> (code a = 237 \<and> 160 \<le> code b) \<and> encodable (b # cs)"
| "encodable _ \<longleftrightarrow> True"

text \<open>\<open>s[:n] + "...[truncated]" if len(s) > n else s\<close>.\<close>

definition truncated :: "nat \<Rightarrow> string \<Rightarrow> string" where
  "truncated n s = (if n < num_chars s then take_chars n s @ ''...[truncated]'' else s)"

lemma num_chars_take: "num_chars (take_chars n s) \<le> n"
  by (induction n s rule: take_chars.induct) (auto simp: num_chars_def split: nat.splits)

lemma num_chars_append: "num_chars (a @ b) = num_chars a + num_chars b"
  by (simp add: num_chars_def)

lemma num_chars_truncated: "num_chars (truncated n s) \<le> n + 14"
  using num_chars_take [of n s] by (auto simp: truncated_def num_chars_append num_chars_def continues_def)

lemma take_chars_ascii: "is_ascii s \<Longrightarrow> take_chars n s = take n s"
  by (induction n s rule: take_chars.induct)
    (auto simp: is_ascii_def continues_def split: nat.splits)

section \<open>The answer of the classifier\<close>

record classification =
  c_verb :: string
  c_reversibility :: string
  c_blast_radius :: string
  c_externality :: string
  c_magnitude_count :: int
  c_target_kind :: string
  c_target_ref :: "string option"
  c_danger_signature :: string
  c_tier :: string
  c_command_preview :: "string option"
  c_file_path :: "string option"
  c_params_extra :: "dict option"

text \<open>\<open>None\<close> or a text as JSON.\<close>

fun jopt :: "string option \<Rightarrow> json" where
  "jopt None = JNull"
| "jopt (Some s) = JStr s"

text \<open>\<open>x or ""\<close>, \<open>x or y\<close> on optional texts.\<close>

definition or_text :: "string option \<Rightarrow> string \<Rightarrow> string" where
  "or_text x d = (case x of None \<Rightarrow> d | Some s \<Rightarrow> if s = [] then d else s)"

text \<open>\<open>d.get(k) or dflt\<close>.\<close>

definition get_or :: "dict \<Rightarrow> string \<Rightarrow> json \<Rightarrow> json" where
  "get_or d k dflt = (if py_truth (dget d k) then dget d k else dflt)"

section \<open>The environment\<close>

record hook_env =
  he_mode :: "string option"
  he_hook_timeout :: "string option"
  he_timeout :: "string option"
  he_core_url :: "string option"
  he_core_token :: "string option"
  he_gate_id :: "string option"
  he_portal_url :: "string option"
  he_verify_ssl :: "string option"
  he_principal :: "string option"
  he_environment :: "string option"
  he_strict :: "string option"
  he_max_command :: "string option"
  he_audit_log :: "string option"

text \<open>\<open>os.environ.get(k, dflt)\<close>.\<close>

definition env_or :: "string option \<Rightarrow> string \<Rightarrow> string" where
  "env_or v dflt = (case v of None \<Rightarrow> dflt | Some s \<Rightarrow> s)"

section \<open>Samples\<close>

definition sample_library :: library where
  "sample_library = \<lparr>lb_ucd = plain_ucd, lb_lower = id, lb_float = (\<lambda>_. None), lb_int = (\<lambda>_. None),
     lb_round = Fin, lb_exc_text = (\<lambda>_. ''error''), lb_repr = (\<lambda>_. ''[]''), lb_fixed1 = (\<lambda>_. ''0.0''), lb_fixed0 = (\<lambda>_. ''0''),
     lb_sha256 = (\<lambda>_. replicate 64 CHR ''a''),
     lb_loads = (\<lambda>s. if s = ''allow'' then Inr (JObj [(''decision'', JStr ''allow'')])
       else if s = ''5'' then Inr (JInt 5) else Inl HValueError), lb_word = (\<lambda>_. False),
     lb_digit = (\<lambda>_. False), lb_digits = (\<lambda>_. False), lb_url_error = (\<lambda>_. None)\<rparr>"

definition sample_hook_env :: hook_env where
  "sample_hook_env = \<lparr>he_mode = None, he_hook_timeout = None, he_timeout = None, he_core_url = None,
     he_core_token = None, he_gate_id = None, he_portal_url = None, he_verify_ssl = None, he_principal = None,
     he_environment = Some '' Staging '', he_strict = None, he_max_command = None, he_audit_log = None\<rparr>"

definition sample_classification :: classification where
  "sample_classification = \<lparr>c_verb = ''delete'', c_reversibility = ''irreversible'', c_blast_radius = ''broad'',
     c_externality = ''internal'', c_magnitude_count = 3, c_target_kind = ''command'', c_target_ref = Some ''/srv'',
     c_danger_signature = ''rm_recursive'', c_tier = ''destructive_broad'',
     c_command_preview = Some ''rm -r /srv'', c_file_path = None, c_params_extra = None\<rparr>"

definition sample_payload :: dict where
  "sample_payload = [(''session_id'', JStr ''s1''), (''tool_name'', JStr ''Bash''),
     (''tool_input'', JObj [(''command'', JStr ''rm -r /srv'')])]"

end
