(* ===== verification/HookEnvelope.thy ===== *)
theory HookEnvelope
  imports HookBase Envelope
begin

text \<open>
  The action envelope the Claude Code hook sends (\<open>reeflex-claude/reeflex_claude/envelope.py\<close>), built from the
  payload of the hook and the classification of the call, and what the engine's own validation makes of it.
  The clock readings are arguments.
\<close>

section \<open>Building an envelope\<close>

definition hook_environment :: "library \<Rightarrow> hook_env \<Rightarrow> string" where
  "hook_environment lb env =
     (let v = lower lb (strip lb (env_or (he_environment env) ''production''))
      in if v \<in> set [''production'', ''staging'', ''dev''] then v else ''production'')"

definition verb_source :: "library \<Rightarrow> json \<Rightarrow> json \<Rightarrow> hook_exc + string" where
  "verb_source lb tool_name tool_input =
     (case tool_name of
        JStr t \<Rightarrow>
          if lower lb t = ''bash''
          then (case tool_input of
                  JObj d \<Rightarrow>
                    let cmd = dget_or d ''command'' (JStr [])
                    in Inr (''bash_intent_parse:''
                            @ (if py_truth cmd then take_chars 40 (py_str (lb_ucd lb) cmd) else []))
                | _ \<Rightarrow> Inl HAttributeError)
          else Inr (''tool_name_map:'' @ t)
      | _ \<Rightarrow> Inl HAttributeError)"

record stamps =
  st_now :: string
  st_monotonic_ns :: int

definition nonce_text :: "string \<Rightarrow> stamps \<Rightarrow> string \<Rightarrow> string \<Rightarrow> string" where
  "nonce_text session_id st tool_name preview =
     join_with '':'' [session_id, st_now st, tool_name, preview, str_int (st_monotonic_ns st)]"

definition make_nonce :: "library \<Rightarrow> string \<Rightarrow> hook_exc + string" where
  "make_nonce lb raw = (if encodable raw then Inr (take 32 (lb_sha256 lb raw)) else Inl HEncodeError)"

text \<open>\<open>params.setdefault(key, value)\<close> over the classifier's additions.\<close>

definition set_defaults :: "dict \<Rightarrow> dict \<Rightarrow> dict" where
  "set_defaults params extra =
     fold (\<lambda>(k, v) d. if map_of d k = None then dput k v d else d) extra params"

definition build_envelope ::
  "library \<Rightarrow> hook_env \<Rightarrow> stamps \<Rightarrow> dict \<Rightarrow> classification \<Rightarrow> hook_exc + dict" where
  "build_envelope lb env st payload cls =
     (let session = get_or payload ''session_id'' (JStr []);
          tool_name = get_or payload ''tool_name'' (JStr ''unknown'');
          tool_input = get_or payload ''tool_input'' (JObj [])
      in if \<not> py_truth session then Inl HValueError
         else case session of
           JStr session_id \<Rightarrow>
             (let agent = [(''id'', JStr (''agent:claude-code'' @ ''/'' @ session_id)),
                 (''on_behalf_of'', if he_principal env = Some [] then JNull else jopt (he_principal env)),
                 (''session_id'', JStr (''claude:'' @ session_id))];
               action = [(''namespace'', JStr ''claude-code''), (''verb'', JStr (c_verb cls)),
                 (''ability'', JStr (''claude-code/'' @ py_str (lb_ucd lb) tool_name))];
               target = [(''kind'', JStr (c_target_kind cls)), (''ref'', jopt (c_target_ref cls)),
                 (''environment'', JStr (hook_environment lb env))];
               preview = or_text (c_command_preview cls) (or_text (c_file_path cls) [])
             in bindE (verb_source lb tool_name tool_input) (\<lambda>vs.
                let params0 = [(''tool_name'', tool_name), (''verb_source'', JStr vs)];
                    params = (case c_params_extra cls of None \<Rightarrow> params0 | Some x \<Rightarrow> set_defaults params0 x)
                in bindE (make_nonce lb
                     (nonce_text session_id st (py_str (lb_ucd lb) tool_name) preview)) (\<lambda>nonce.
                   Inr [(''reeflex_version'', JStr ''0.1''),
                        (''agent'', JObj agent),
                        (''action'', JObj action),
                        (''target'', JObj target),
                        (''params'', JObj params),
                        (''magnitude'', JObj [(''count'', JInt (max (c_magnitude_count cls) 1))]),
                        (''axes'', JObj [(''reversibility'', JStr (c_reversibility cls)),
                           (''blast_radius'', JStr (c_blast_radius cls)),
                           (''externality'', JStr (c_externality cls))]),
                        (''approval'', JObj [(''present'', JBool False), (''by'', JNull), (''role'', JNull)]),
                        (''trajectory_ref'', JNull),
                        (''context'', JObj [(''tool_name'', tool_name),
                           (''command_preview'', jopt (c_command_preview cls)),
                           (''file_path'', jopt (c_file_path cls)),
                           (''danger_signature'', JStr (c_danger_signature cls)),
                           (''classification_tier'', JStr (c_tier cls))]),
                        (''meta'', JObj [(''timestamp'', JStr (st_now st)), (''nonce'', JStr nonce),
                           (''signature'', JStr (''ed25519:stub:'' @ take 16 nonce))])])))
         | _ \<Rightarrow> Inl HTypeError)"

section \<open>The engine accepts it\<close>

text \<open>What the classifier always gives: a verb, axes of the closed vocabularies, and additions that carry an
  amount only as a finite number.\<close>

definition proper_extra :: "dict \<Rightarrow> bool" where
  "proper_extra x \<longleftrightarrow> (case dget x ''amount'' of
     JNull \<Rightarrow> True | JFloat (Fin _) \<Rightarrow> True | _ \<Rightarrow> False)"

definition proper_classification :: "classification \<Rightarrow> bool" where
  "proper_classification c \<longleftrightarrow> c_verb c \<noteq> []
     \<and> c_reversibility c \<in> set (axis_members ''reversibility'')
     \<and> c_blast_radius c \<in> set (axis_members ''blast_radius'')
     \<and> c_externality c \<in> set (axis_members ''externality'')
     \<and> (case c_params_extra c of None \<Rightarrow> True | Some x \<Rightarrow> proper_extra x)"

lemma set_defaults_Cons:
  "set_defaults p ((a, b) # x) = set_defaults (if map_of p a = None then dput a b p else p) x"
  by (simp add: set_defaults_def)

lemma map_of_set_defaults:
  "map_of (set_defaults p x) k = (case map_of p k of Some v \<Rightarrow> Some v | None \<Rightarrow> map_of x k)"
proof (induction x arbitrary: p)
  case (Cons y x)
  obtain a b where y: "y = (a, b)" by force
  show ?case
    by (cases "map_of p a") (auto simp: y set_defaults_Cons Cons split: option.split)
qed (simp add: set_defaults_def split: option.split)

lemma set_defaults_get: "dget (set_defaults p x) k = (case map_of p k of Some v \<Rightarrow> v | None \<Rightarrow> dget x k)"
  by (simp add: dget_def map_of_set_defaults split: option.split)

lemma proper_amount:
  assumes "case extra of None \<Rightarrow> True | Some x \<Rightarrow> proper_extra x"
    "params0 = [(''tool_name'', a), (''verb_source'', b)]"
    "params = (case extra of None \<Rightarrow> params0 | Some x \<Rightarrow> set_defaults params0 x)"
  shows "dget params ''amount'' = JNull \<or> (\<exists>r. dget params ''amount'' = JFloat (Fin r))"
  using assms
  by (auto simp: proper_extra_def set_defaults_get split: option.splits json.splits pyfloat.splits)

text \<open>The fields of an envelope that was built.\<close>

lemma build_envelope_fields:
  assumes "build_envelope lb env st payload cls = Inr e"
  obtains sid tn vs nonce params where
    "get_or payload ''session_id'' (JStr []) = JStr sid" "sid \<noteq> []"
    "dget e ''agent'' = JObj [(''id'', JStr (''agent:claude-code'' @ ''/'' @ sid)),
       (''on_behalf_of'', if he_principal env = Some [] then JNull else jopt (he_principal env)),
       (''session_id'', JStr (''claude:'' @ sid))]"
    "dget e ''action'' = JObj [(''namespace'', JStr ''claude-code''), (''verb'', JStr (c_verb cls)),
       (''ability'', JStr (''claude-code/'' @ tn))]"
    "dget e ''target'' = JObj [(''kind'', JStr (c_target_kind cls)), (''ref'', jopt (c_target_ref cls)),
       (''environment'', JStr (hook_environment lb env))]"
    "dget e ''magnitude'' = JObj [(''count'', JInt (max (c_magnitude_count cls) 1))]"
    "dget e ''axes'' = JObj [(''reversibility'', JStr (c_reversibility cls)),
       (''blast_radius'', JStr (c_blast_radius cls)), (''externality'', JStr (c_externality cls))]"
    "dget e ''approval'' = JObj [(''present'', JBool False), (''by'', JNull), (''role'', JNull)]"
    "dget e ''meta'' = JObj [(''timestamp'', JStr (st_now st)), (''nonce'', JStr nonce),
       (''signature'', JStr (''ed25519:stub:'' @ take 16 nonce))]"
    "make_nonce lb (nonce_text sid st tn (or_text (c_command_preview cls) (or_text (c_file_path cls) []))) = Inr nonce"
    "dget e ''params'' = JObj params"
    "params = (case c_params_extra cls of None \<Rightarrow> [(''tool_name'', JStr tn), (''verb_source'', JStr vs)]
       | Some x \<Rightarrow> set_defaults [(''tool_name'', JStr tn), (''verb_source'', JStr vs)] x)"
    "dget e ''context'' = JObj [(''tool_name'', JStr tn), (''command_preview'', jopt (c_command_preview cls)),
       (''file_path'', jopt (c_file_path cls)), (''danger_signature'', JStr (c_danger_signature cls)),
       (''classification_tier'', JStr (c_tier cls))]"
proof -
  obtain sid where sid: "get_or payload ''session_id'' (JStr []) = JStr sid" "sid \<noteq> []"
    using assms by (auto simp: build_envelope_def Let_def split: if_splits json.splits)
  obtain tn where tn: "get_or payload ''tool_name'' (JStr ''unknown'') = JStr tn"
    using assms by (auto simp: build_envelope_def Let_def sid py_simps verb_source_def split: json.splits)
  obtain vs nonce where
    "make_nonce lb (nonce_text sid st tn (or_text (c_command_preview cls) (or_text (c_file_path cls) []))) = Inr nonce"
    "e = [(''reeflex_version'', JStr ''0.1''),
          (''agent'', JObj [(''id'', JStr (''agent:claude-code'' @ ''/'' @ sid)),
             (''on_behalf_of'', if he_principal env = Some [] then JNull else jopt (he_principal env)),
             (''session_id'', JStr (''claude:'' @ sid))]),
          (''action'', JObj [(''namespace'', JStr ''claude-code''), (''verb'', JStr (c_verb cls)),
             (''ability'', JStr (''claude-code/'' @ tn))]),
          (''target'', JObj [(''kind'', JStr (c_target_kind cls)), (''ref'', jopt (c_target_ref cls)),
             (''environment'', JStr (hook_environment lb env))]),
          (''params'', JObj (case c_params_extra cls of
             None \<Rightarrow> [(''tool_name'', JStr tn), (''verb_source'', JStr vs)]
           | Some x \<Rightarrow> set_defaults [(''tool_name'', JStr tn), (''verb_source'', JStr vs)] x)),
          (''magnitude'', JObj [(''count'', JInt (max (c_magnitude_count cls) 1))]),
          (''axes'', JObj [(''reversibility'', JStr (c_reversibility cls)),
             (''blast_radius'', JStr (c_blast_radius cls)), (''externality'', JStr (c_externality cls))]),
          (''approval'', JObj [(''present'', JBool False), (''by'', JNull), (''role'', JNull)]),
          (''trajectory_ref'', JNull),
          (''context'', JObj [(''tool_name'', JStr tn), (''command_preview'', jopt (c_command_preview cls)),
             (''file_path'', jopt (c_file_path cls)), (''danger_signature'', JStr (c_danger_signature cls)),
             (''classification_tier'', JStr (c_tier cls))]),
          (''meta'', JObj [(''timestamp'', JStr (st_now st)), (''nonce'', JStr nonce),
             (''signature'', JStr (''ed25519:stub:'' @ take 16 nonce))])]"
    using assms unfolding build_envelope_def Let_def sid tn
    by (simp only: py_truth.simps sid not_True_eq_False if_False json.case bindE_Inr_iff sum.inject py_str.simps
        not_False_eq_True) blast
  with sid show thesis by (intro that [of sid tn nonce _ vs]) (simp_all only: dget_Cons fst_conv snd_conv if_True
      list.inject char.inject simp_thms if_False list.distinct)
qed

text \<open>Canonical texts are fixed by the engine's normalisation.\<close>

definition normal_text :: "string \<Rightarrow> bool" where
  "normal_text w \<longleftrightarrow> is_ascii w \<and> filter (\<lambda>c. \<not> is_control_char c) w = w \<and> strip_ascii w = w \<and> map lower_char w = w"

lemma normal_text_fixed: "normal_text w \<Longrightarrow> normalize_token u w = w"
  by (simp add: normal_text_def normalize_token_def clean_text_def nfkc_def drop_ccf_def py_strip_def casefold_def)

lemma spec_words: "list_all normal_text (spec_verbs @ axis_members ''reversibility'' @ axis_members ''blast_radius''
    @ axis_members ''externality'' @ [''production'', ''staging'', ''dev''])"
  by code_simp

lemma spec_words_normal:
  "w \<in> set (spec_verbs @ axis_members ''reversibility'' @ axis_members ''blast_radius'' @ axis_members ''externality''
     @ [''production'', ''staging'', ''dev'']) \<Longrightarrow> normalize_token u w = w"
  using spec_words normal_text_fixed unfolding list_all_iff by blast

lemma declared_axes:
  assumes "dget raw ''axes'' = JObj [(''reversibility'', JStr r), (''blast_radius'', JStr b), (''externality'', JStr x)]"
    "r \<in> set (axis_members ''reversibility'')" "b \<in> set (axis_members ''blast_radius'')"
    "x \<in> set (axis_members ''externality'')"
  shows "canonical_axis raw ''reversibility'' = r" "canonical_axis raw ''blast_radius'' = b"
    "canonical_axis raw ''externality'' = x"
  using assms by (simp_all add: canonical_axis_def normalized_axes_def axis_defaults_def coerce_axis_def)

lemma declared_verb: "v \<in> set spec_verbs \<Longrightarrow> canonicalize_it_verb u v rv = v"
  using spec_words_normal [of v u] spec_verbs_canonical [of v]
  by (simp add: canonicalize_it_verb_def verb_key_variants_def Let_def)

lemma spec_verbs_one_word:
  "list_all (\<lambda>v. mark_camel plain_ucd v = v \<and> is_ascii v \<and> filter (\<lambda>p. p \<noteq> []) (split_on CHR ''_''
      (map (\<lambda>c. if c \<in> set verb_separators then CHR ''_'' else c) v)) = [v]) spec_verbs"
  by code_simp

lemma verb_words:
  assumes "v \<in> set spec_verbs"
  shows "split_words u v = [v]"
proof -
  have n: "normalize_token u v = v" by (rule spec_words_normal) (simp add: assms)
  have "mark_camel plain_ucd v = v \<and> is_ascii v \<and> filter (\<lambda>p. p \<noteq> []) (split_on CHR ''_''
      (map (\<lambda>c. if c \<in> set verb_separators then CHR ''_'' else c) v)) = [v]"
    using spec_verbs_one_word assms unfolding list_all_iff by blast
  then have "mark_camel u v = v" "filter (\<lambda>p. p \<noteq> []) (split_on CHR ''_''
      (map (\<lambda>c. if c \<in> set verb_separators then CHR ''_'' else c) v)) = [v]"
    by (auto simp: mark_camel_def)
  then show ?thesis using n by (simp add: split_words_def Let_def)
qed

lemma not_physical: "v \<in> set spec_verbs \<Longrightarrow> physical_verb u (JStr v) = None"
proof -
  assume v: "v \<in> set spec_verbs"
  have "normalize_token u v = v" by (rule spec_words_normal) (simp add: v)
  then have "verb_key_variants u v = [v, v, v]" using verb_words [OF v, of u] by (simp add: verb_key_variants_def Let_def)
  moreover have "v \<notin> set physical_verbs" using v by (auto simp: spec_verbs_def physical_verbs_def)
  ultimately show "physical_verb u (JStr v) = None" by (simp add: physical_verb_def)
qed

lemma spec_verb_normal: "v \<in> set spec_verbs \<Longrightarrow> normalize_token u v = v"
  by (rule spec_words_normal) simp

lemma members_declared:
  "v \<in> set (axis_members ''reversibility'') \<Longrightarrow> axis_is_declared u (JStr v) ''reversibility''"
  "v \<in> set (axis_members ''blast_radius'') \<Longrightarrow> axis_is_declared u (JStr v) ''blast_radius''"
  "v \<in> set (axis_members ''externality'') \<Longrightarrow> axis_is_declared u (JStr v) ''externality''"
proof -
  have m: "v \<in> set (axis_members a) \<Longrightarrow> normalize_token u v = v \<Longrightarrow> axis_is_declared u (JStr v) a" for v a
    by (simp add: axis_is_declared_def)
  show "v \<in> set (axis_members ''reversibility'') \<Longrightarrow> axis_is_declared u (JStr v) ''reversibility''"
    "v \<in> set (axis_members ''blast_radius'') \<Longrightarrow> axis_is_declared u (JStr v) ''blast_radius''"
    "v \<in> set (axis_members ''externality'') \<Longrightarrow> axis_is_declared u (JStr v) ''externality''"
    by (rule m, assumption, rule spec_words_normal, simp)+
qed

lemma verb_declared: "v \<in> set spec_verbs \<Longrightarrow> verb_is_declared u (JStr v) x"
  by (simp add: verb_is_declared_def verb_key_variants_def Let_def spec_verb_normal spec_verbs_canonical)

lemma environments_canonical:
  "list_all (\<lambda>e. map_of env_canon e = Some e) [''production'', ''staging'', ''dev'']"
  by code_simp

lemma declared_environment: "e \<in> {''production'', ''staging'', ''dev''} \<Longrightarrow>
    canonicalize_environment u e = e \<and> map_of env_canon (normalize_token u e) \<noteq> None"
proof -
  assume "e \<in> {''production'', ''staging'', ''dev''}"
  then have e: "e \<in> set [''production'', ''staging'', ''dev'']" by simp
  have "normalize_token u e = e" by (rule spec_words_normal) (unfold set_append, use e in blast)
  moreover have "map_of env_canon e = Some e" using environments_canonical e unfolding list_all_iff by blast
  ultimately show ?thesis by (simp add: canonicalize_environment_def)
qed

lemma hook_environment_closed: "hook_environment lb env \<in> {''production'', ''staging'', ''dev''}"
  by (simp add: hook_environment_def Let_def)

lemma hook_target_filled:
  assumes "dget e ''target'' = JObj [(''kind'', k), (''ref'', jopt r), (''environment'', JStr v)]"
  shows "\<exists>t. fill_target u e = Inr (dput ''target'' (JObj t) e)"
  using assms by (cases r) (auto simp: fill_target_def Let_def)

lemma hook_params_filled:
  assumes "dget e ''params'' = JObj p" "dget p ''amount'' = JNull \<or> (\<exists>r. dget p ''amount'' = JFloat (Fin r))"
  shows "\<exists>p'. fill_params u e = Inr (if dget p ''amount'' = JNull then e else dput ''params'' p' e)"
  using assms by (auto simp: fill_params_def Let_def)

lemma hook_magnitude_filled:
  assumes "dget e ''magnitude'' = JObj [(''count'', JInt n)]" "1 \<le> n"
  shows "fill_magnitude e d = Inr (dput ''magnitude'' (JObj [(''count'', JInt n)]) d)"
  using assms by (simp add: fill_magnitude_def Let_def check_count_def check_physical_def)

lemma hook_required:
  assumes "dget e ''agent'' = JObj [(''id'', i), (''on_behalf_of'', b), (''session_id'', JStr (''claude:'' @ sid))]"
    "dget e ''action'' = JObj [(''namespace'', n), (''verb'', JStr v), (''ability'', a)]" "v \<noteq> []"
    "dget e ''target'' = JObj [(''kind'', k), (''ref'', r), (''environment'', JStr en)]" "en \<noteq> []"
    "dget e ''axes'' = JObj x" "py_strip u (''claude:'' @ sid) \<noteq> []"
  shows "required_fields u e = Inr ()"
  using assms by (simp add: required_fields_def Let_def nonempty_str_def)

text \<open>C33: Whatever the call, an envelope the hook builds from a classification passes the engine's validation
  with a fresh nonce: the engine reads the session, the axes, the environment and the count that the
  hook declared, with nothing filled in, and the verb unless the tool's name asks for a guarded \<open>delete\<close>.\<close>

theorem hook_envelope_accepted:
  assumes "build_envelope lb env st payload cls = Inr e"
    and "proper_classification cls" "c_verb cls \<in> set spec_verbs"
    and "\<And>s. length (lb_sha256 lb s) = 64" "\<And>s. py_strip u (''claude:'' @ s) \<noteq> []"
    and "\<not> nonce_seen seen (dget (as_obj (dget e ''meta'')) ''nonce'')"
  shows "case snd (validate_and_fill_defaults u seen (JObj e)) of
      Inl _ \<Rightarrow> False
    | Inr d \<Rightarrow> env_axis d ''reversibility'' = c_reversibility cls
         \<and> env_axis d ''blast_radius'' = c_blast_radius cls
         \<and> env_axis d ''externality'' = c_externality cls
         \<and> env_environment d = hook_environment lb env
         \<and> env_verb d \<in> {c_verb cls, ''delete''}
         \<and> env_undeclared d = JArr []"
proof -
  obtain sid tn vs nonce params where f:
    "get_or payload ''session_id'' (JStr []) = JStr sid" "sid \<noteq> []"
    "dget e ''agent'' = JObj [(''id'', JStr (''agent:claude-code'' @ ''/'' @ sid)),
       (''on_behalf_of'', if he_principal env = Some [] then JNull else jopt (he_principal env)),
       (''session_id'', JStr (''claude:'' @ sid))]"
    "dget e ''action'' = JObj [(''namespace'', JStr ''claude-code''), (''verb'', JStr (c_verb cls)),
       (''ability'', JStr (''claude-code/'' @ tn))]"
    "dget e ''target'' = JObj [(''kind'', JStr (c_target_kind cls)), (''ref'', jopt (c_target_ref cls)),
       (''environment'', JStr (hook_environment lb env))]"
    "dget e ''magnitude'' = JObj [(''count'', JInt (max (c_magnitude_count cls) 1))]"
    "dget e ''axes'' = JObj [(''reversibility'', JStr (c_reversibility cls)),
       (''blast_radius'', JStr (c_blast_radius cls)), (''externality'', JStr (c_externality cls))]"
    "dget e ''approval'' = JObj [(''present'', JBool False), (''by'', JNull), (''role'', JNull)]"
    "dget e ''meta'' = JObj [(''timestamp'', JStr (st_now st)), (''nonce'', JStr nonce),
       (''signature'', JStr (''ed25519:stub:'' @ take 16 nonce))]"
    "make_nonce lb (nonce_text sid st tn (or_text (c_command_preview cls) (or_text (c_file_path cls) []))) = Inr nonce"
    "dget e ''params'' = JObj params"
    "params = (case c_params_extra cls of None \<Rightarrow> [(''tool_name'', JStr tn), (''verb_source'', JStr vs)]
       | Some x \<Rightarrow> set_defaults [(''tool_name'', JStr tn), (''verb_source'', JStr vs)] x)"
    "dget e ''context'' = JObj [(''tool_name'', JStr tn), (''command_preview'', jopt (c_command_preview cls)),
       (''file_path'', jopt (c_file_path cls)), (''danger_signature'', JStr (c_danger_signature cls)),
       (''classification_tier'', JStr (c_tier cls))]"
    by (rule build_envelope_fields [OF assms(1)])
  note proper = assms(2) [unfolded proper_classification_def]
  have env: "hook_environment lb env \<in> {''production'', ''staging'', ''dev''}"
    by (rule hook_environment_closed)
  have "nonce \<noteq> []"
    using f(10) assms(4) [of "nonce_text sid st tn (or_text (c_command_preview cls) (or_text (c_file_path cls) []))"]
    by (auto simp: make_nonce_def split: if_splits)
  then have nonce: "check_nonce seen (JStr nonce) = (JStr nonce # seen, Inr ())"
    using assms(6) f(9) by (simp add: check_nonce_def)
  have meta: "meta_nonce e = Inr (JStr nonce)" by (simp add: meta_nonce_def f(9))
  have req: "required_fields u e = Inr ()"
    by (rule hook_required [OF f(3) f(4) _ f(5) _ f(7) assms(5)]) (use proper env in auto)
  obtain t where t: "fill_target u e = Inr (dput ''target'' (JObj t) e)"
    using hook_target_filled [OF f(5)] by blast
  have am: "dget params ''amount'' = JNull \<or> (\<exists>r. dget params ''amount'' = JFloat (Fin r))"
    by (rule proper_amount [OF _ refl f(12)]) (use proper in simp)
  have "dget (dput ''target'' (JObj t) e) ''params'' = JObj params" by (simp add: f(11))
  from hook_params_filled [OF this am]
  obtain e2 where e2: "fill_params u (dput ''target'' (JObj t) e) = Inr e2" by blast
  have "\<exists>d. fill_defaults u e = Inr d"
    using hook_magnitude_filled [OF f(6)] by (simp add: fill_defaults_def t e2)
  then obtain d where d: "fill_defaults u e = Inr d" by blast
  have v: "snd (validate_and_fill_defaults u seen (JObj e)) = Inr d"
    by (simp add: validate_and_fill_defaults_def req meta nonce d)
  have axes: "canonical_axis e ''reversibility'' = c_reversibility cls"
    "canonical_axis e ''blast_radius'' = c_blast_radius cls" "canonical_axis e ''externality'' = c_externality cls"
    using declared_axes [OF f(7)] proper by simp_all
  have rv: "raw_verb e = c_verb cls" and re: "raw_environment e = hook_environment lb env"
    by (simp_all add: raw_verb_def raw_environment_def f(4,5))
  have nophys: "physical_verb u (JStr (c_verb cls)) = None"
    by (rule not_physical [OF assms(3)])
  have verb: "canonical_verb u e \<in> {c_verb cls, ''delete''}"
    using declared_verb [OF assms(3)] by (simp add: canonical_verb_def Let_def rv axes canonicalize_verb_def nophys)
  have und: "undeclared_fields u e = []"
    using proper verb_declared [OF assms(3), of u] declared_environment [OF env, of u]
    by (simp add: undeclared_fields_def Let_def f(6,7) rv re members_declared environment_is_declared_def
        count_is_declared_def)
  show ?thesis
    using fill_defaults_read [OF d] verb und declared_environment [OF env]
    by (simp add: v axes re)
qed

theorem hook_envelope_accepted_witness:
  "case build_envelope sample_library sample_hook_env \<lparr>st_now = ''t'', st_monotonic_ns = 7\<rparr> sample_payload sample_classification of
     Inl _ \<Rightarrow> False
   | Inr e \<Rightarrow>
       (case snd (validate_and_fill_defaults plain_ucd [] (JObj e)) of
          Inl _ \<Rightarrow> False
        | Inr d \<Rightarrow> env_axis d ''blast_radius'' = ''broad'' \<and> env_environment d = ''staging'' \<and> env_verb d = ''delete'')"
proof -
  let ?st = "\<lparr>st_now = ''t'', st_monotonic_ns = 7\<rparr>"
  have c: "case build_envelope sample_library sample_hook_env ?st sample_payload sample_classification of
     Inl _ \<Rightarrow> False | Inr e \<Rightarrow> True" "hook_environment sample_library sample_hook_env = ''staging''"
    by code_simp+
  obtain e where e: "build_envelope sample_library sample_hook_env ?st sample_payload sample_classification = Inr e"
    using c(1) by (auto split: sum.splits)
  have p: "proper_classification sample_classification" "c_verb sample_classification \<in> set spec_verbs"
    by code_simp+
  have s: "length (lb_sha256 sample_library s) = 64" for s by (simp add: sample_library_def)
  have u: "py_strip plain_ucd (''claude:'' @ s) \<noteq> []" for s
    by (simp add: py_strip_def strip_ascii_def is_space_char_def plain_ucd_def dropWhile_append)
  have f: "c_blast_radius sample_classification = ''broad''" "c_verb sample_classification = ''delete''"
    by (simp_all add: sample_classification_def)
  show ?thesis
    using hook_envelope_accepted [OF e p s u, of "[]"]
    unfolding e sum.case c(2) f by (simp add: nonce_seen_def split: sum.splits)
qed

end
