(* ===== verification/HookEnforce.thy ===== *)
theory HookEnforce
  imports HookBase
begin

text \<open>
  Asking the engine and reading its answer (\<open>reeflex-claude/reeflex_claude/enforce.py\<close>): the request with its
  clamped timeout and its credential, the mapping of a decision to a permission, and the sentence that
  names an open hold. The network is a function from the request to its outcome; the credentials file is an
  argument; \<open>lb_loads\<close> decodes bytes and then JSON.
\<close>

section \<open>Results\<close>

text \<open>The result tuple. The rule and the obligations are whatever JSON the engine answered.\<close>

record verdict =
  v_permission :: string
  v_reason :: string
  v_rule :: json
  v_reachable :: bool
  v_obligations :: "json list"

definition max_error_len :: nat where
  "max_error_len = 300"

definition max_hold_field_len :: nat where
  "max_hold_field_len = 120"

definition fail_rule :: string where
  "fail_rule = ''reeflex.core/fail_closed''"

definition fail_closed :: "string \<Rightarrow> verdict" where
  "fail_closed reason =
     \<lparr>v_permission = ''deny'',
      v_reason = ''Reeflex: core unreachable or error -- failing closed: '' @ reason @ '' [rule='' @ fail_rule @ '']'',
      v_rule = JStr fail_rule, v_reachable = False, v_obligations = []\<rparr>"

section \<open>The sentence that names a hold\<close>

definition hold_field :: "library \<Rightarrow> json \<Rightarrow> string" where
  "hold_field lb v = truncated max_hold_field_len (strip lb (py_str (lb_ucd lb) v))"

definition local_dialog_consequence :: string where
  "local_dialog_consequence =
     ''Answering this dialog decides only whether this terminal runs the action; it does not resolve that hold.''"

text \<open>Where a hold is decided: the configured portal, the one stored with the credential, else the engine.\<close>

definition hold_place :: "library \<Rightarrow> hook_env \<Rightarrow> cred_file \<Rightarrow> string \<Rightarrow> string \<Rightarrow> string" where
  "hold_place lb env cf core_url gate_id =
     (let configured = rstrip_slashes (strip lb (env_or (he_portal_url env) []));
          portal = (if configured = [] \<and> gate_id \<noteq> []
                    then or_text (lookup_portal_url (lb_ucd lb) core_url gate_id cf) [] else configured)
      in if portal \<noteq> [] then '' and is awaiting a decision in the Reeflex portal ('' @ portal @ '')''
         else if core_url \<noteq> [] then '' and is awaiting a decision on the engine at '' @ core_url
         else [])"

definition hold_clause ::
  "library \<Rightarrow> hook_env \<Rightarrow> cred_file \<Rightarrow> dict \<Rightarrow> string \<Rightarrow> string \<Rightarrow> string \<Rightarrow> string" where
  "hold_clause lb env cf resp core_url gate_id consequence =
     (let hold_id = dget resp ''hold_id''; expires = dget resp ''expires_ts''; decision_id = dget resp ''decision_id''
      in if \<not> py_truth hold_id then []
         else '' -- Reeflex hold '' @ hold_field lb hold_id @ '' is open''
              @ (if py_truth expires then '' until '' @ hold_field lb expires else [])
              @ hold_place lb env cf core_url gate_id @ ''.''
              @ (if consequence \<noteq> [] \<and> dget resp ''decision'' = JStr ''require_approval''
                 then '' '' @ consequence else [])
              @ (if py_truth decision_id then '' [decision_id='' @ hold_field lb decision_id @ '']'' else []))"

section \<open>Mapping a decision\<close>

text \<open>\<open>"decision" in parsed\<close>: a key of a dict, an element of a list, a substring of a text; a \<open>TypeError\<close> of
  anything else.\<close>

fun names_decision :: "json \<Rightarrow> hook_exc + bool" where
  "names_decision (JObj d) = Inr (map_of d ''decision'' \<noteq> None)"
| "names_decision (JArr xs) = Inr (list_ex (\<lambda>x. x = JStr ''decision'') xs)"
| "names_decision (JStr s) = Inr (contains_text ''decision'' s)"
| "names_decision _ = Inl HTypeError"

text \<open>\<open>obligations if isinstance(obligations, list) else (list(obligations) if obligations else [])\<close>.\<close>

fun obligation_list :: "json \<Rightarrow> hook_exc + json list" where
  "obligation_list (JArr xs) = Inr xs"
| "obligation_list (JStr s) = Inr (map JStr (chars_of s))"
| "obligation_list (JObj d) = Inr (map (JStr \<circ> fst) d)"
| "obligation_list v = (if py_truth v then Inl HTypeError else Inr [])"

text \<open>\<open>_trunc\<close> of a decision value that may not be a text: \<open>len\<close> fails on numbers, a slice of a dict fails, and
  a cut list cannot take the mark.\<close>

fun trunc_decision :: "library \<Rightarrow> json \<Rightarrow> hook_exc + string" where
  "trunc_decision lb (JStr s) = Inr (truncated max_error_len s)"
| "trunc_decision lb (JArr xs) =
     (if max_error_len < length xs then Inl HTypeError else Inr (py_str (lb_ucd lb) (JArr xs)))"
| "trunc_decision lb (JObj d) =
     (if max_error_len < length d then Inl HTypeError else Inr (py_str (lb_ucd lb) (JObj d)))"
| "trunc_decision lb _ = Inl HTypeError"

definition default_core_url :: string where
  "default_core_url = ''http://127.0.0.1:8080''"

definition core_url_of :: "hook_env \<Rightarrow> string" where
  "core_url_of env = rstrip_slashes (env_or (he_core_url env) default_core_url)"

definition gate_id_of :: "library \<Rightarrow> hook_env \<Rightarrow> string" where
  "gate_id_of lb env = strip lb (env_or (he_gate_id env) [])"

fun permission_for :: "json \<Rightarrow> string option" where
  "permission_for (JStr s) =
     (if s = ''allow'' then Some ''allow'' else if s = ''deny'' then Some ''deny''
      else if s = ''require_approval'' then Some ''ask'' else None)"
| "permission_for _ = None"

definition map_decision ::
  "library \<Rightarrow> hook_env \<Rightarrow> cred_file \<Rightarrow> string \<Rightarrow> string \<Rightarrow> json \<Rightarrow> hook_exc + verdict" where
  "map_decision lb env cf core_url0 gate_id0 parsed =
     (case parsed of
        JObj resp \<Rightarrow>
          (let decision = dget_or resp ''decision'' (JStr []); reason = dget_or resp ''reason'' (JStr []);
               rule = dget_or resp ''rule'' (JStr ''unknown'');
               core_url = (if core_url0 = [] then core_url_of env else core_url0);
               gate_id = (if gate_id0 = [] then gate_id_of lb env else gate_id0)
           in bindE (obligation_list (dget_or resp ''obligations'' (JArr []))) (\<lambda>obligations.
              let text = ''Reeflex: '' @ py_str (lb_ucd lb) reason @ '' [rule='' @ py_str (lb_ucd lb) rule @ '']''
                         @ hold_clause lb env cf resp core_url gate_id local_dialog_consequence
              in case permission_for decision of
                   Some p \<Rightarrow> Inr \<lparr>v_permission = p, v_reason = text, v_rule = rule, v_reachable = True,
                                   v_obligations = obligations\<rparr>
                 | None \<Rightarrow> bindE (trunc_decision lb decision) (\<lambda>shown.
                     Inr \<lparr>v_permission = ''deny'',
                       v_reason = ''Reeflex: unknown decision value '' @ [CHR 0x27] @ shown @ [CHR 0x27]
                         @ '' -- failing closed [rule=adapter/unknown_decision]'',
                       v_rule = JStr ''adapter/unknown_decision_fail_closed'', v_reachable = True,
                       v_obligations = []\<rparr>)))
      | _ \<Rightarrow> Inl HAttributeError)"

section \<open>The request\<close>

definition parse_timeout :: "library \<Rightarrow> hook_env \<Rightarrow> pyfloat" where
  "parse_timeout lb env =
     (case lb_float lb (env_or (he_timeout env) []) of
        None \<Rightarrow> Fin 5 | Some v \<Rightarrow> if positive v then v else Fin 5)"

definition verify_ssl :: "library \<Rightarrow> hook_env \<Rightarrow> bool" where
  "verify_ssl lb env =
     (lower lb (strip lb (env_or (he_verify_ssl env) [])) \<notin> set [''0'', ''false'', ''no'', ''off''])"

text \<open>Whether certificate checks are switched off for this URL.\<close>

definition insecure_context :: "library \<Rightarrow> hook_env \<Rightarrow> string \<Rightarrow> bool" where
  "insecure_context lb env url = (prefix ''https://'' (lower lb url) \<and> \<not> verify_ssl lb env)"

record hook_request =
  rq_url :: string
  rq_body :: dict
  rq_headers :: "(string \<times> string) list"
  rq_timeout :: pyfloat
  rq_insecure :: bool

text \<open>The bearer: the operator's own token, else the stored one of this engine and gate.\<close>

definition bearer_token :: "library \<Rightarrow> hook_env \<Rightarrow> cred_file \<Rightarrow> string \<Rightarrow> string \<Rightarrow> string" where
  "bearer_token lb env cf core_url gate_id =
     (let token = strip lb (env_or (he_core_token env) [])
      in if token = [] \<and> gate_id \<noteq> [] then or_text (cred_lookup core_url gate_id cf) [] else token)"

definition request_headers :: "string \<Rightarrow> string \<Rightarrow> (string \<times> string) list" where
  "request_headers gate_id token =
     [(''Content-Type'', ''application/json'')]
     @ (if gate_id \<noteq> [] then [(''X-Reeflex-Gate'', gate_id)] else [])
     @ (if token \<noteq> [] then [(''Authorization'', ''Bearer '' @ token)] else [])"

definition core_request ::
  "library \<Rightarrow> hook_env \<Rightarrow> cred_file \<Rightarrow> pyfloat \<Rightarrow> dict \<Rightarrow> hook_request" where
  "core_request lb env cf timeout envelope =
     (let core_url = core_url_of env; gate_id = gate_id_of lb env; url = core_url @ ''/v1/decide''
      in \<lparr>rq_url = url, rq_body = envelope,
          rq_headers = request_headers gate_id (bearer_token lb env cf core_url gate_id),
          rq_timeout = timeout, rq_insecure = insecure_context lb env url\<rparr>)"

lemma core_request_sel [simp]:
  "rq_body (core_request lb env cf timeout e) = e" "rq_timeout (core_request lb env cf timeout e) = timeout"
  by (simp_all add: core_request_def Let_def)

datatype core_reply =
    Replied int string
  | HttpError int string "string option"
  | NetError string

section \<open>\<open>call_core_and_map\<close>\<close>

text \<open>Reading the reply. Inside the handler of an HTTP error everything that raises is swallowed.\<close>

definition read_reply ::
  "library \<Rightarrow> hook_env \<Rightarrow> cred_file \<Rightarrow> string \<Rightarrow> string \<Rightarrow> string \<Rightarrow> core_reply \<Rightarrow> hook_exc + verdict" where
  "read_reply lb env cf core_url gate_id unreachable reply =
     (case reply of
        HttpError status reason body \<Rightarrow>
          (let mapped = (case body of
                 None \<Rightarrow> Inl HValueError
               | Some raw \<Rightarrow> bindE (lb_loads lb raw) (\<lambda>parsed. bindE (names_decision parsed) (\<lambda>named.
                   if named then map_decision lb env cf core_url gate_id parsed else Inl HValueError)))
           in case mapped of
                Inr v \<Rightarrow> Inr v
              | Inl _ \<Rightarrow> Inr (fail_closed (''core HTTP '' @ str_int status @ '': '' @ truncated max_error_len reason)))
      | NetError text \<Rightarrow> Inr (fail_closed (unreachable @ truncated max_error_len text))
      | Replied status raw \<Rightarrow>
          (case lb_loads lb raw of
             Inl e \<Rightarrow> Inr (fail_closed (''core response not JSON: '' @ truncated max_error_len (lb_exc_text lb e)))
           | Inr parsed \<Rightarrow> bindE (names_decision parsed) (\<lambda>named.
               if named then map_decision lb env cf core_url gate_id parsed
               else if status \<noteq> 200
               then Inr (fail_closed (''core returned HTTP '' @ str_int status @ '' without decision''))
               else Inr (fail_closed (''core response missing '' @ [CHR 0x27] @ ''decision'' @ [CHR 0x27] @ '' field'')))))"

definition unreachable_text :: "library \<Rightarrow> pyfloat \<Rightarrow> pyfloat \<Rightarrow> string" where
  "unreachable_text lb timeout requested =
     ''core unreachable after '' @ lb_fixed1 lb timeout @ ''s''
     @ (if fle requested timeout then [] else '' (clamped from '' @ lb_fixed1 lb requested @ ''s)'') @ '': ''"

definition call_core_and_map ::
  "library \<Rightarrow> hook_env \<Rightarrow> cred_file \<Rightarrow> (rat \<Rightarrow> rat) \<Rightarrow> hook_clock \<Rightarrow> rat \<Rightarrow> (hook_request \<Rightarrow> core_reply) \<Rightarrow> dict
     \<Rightarrow> hook_exc + verdict" where
  "call_core_and_map lb env cf rd ck now net envelope =
     (let core_url = core_url_of env;
          requested = parse_timeout lb env;
          runner = runner_timeout (lb_ucd lb) (lb_float lb) (he_hook_timeout env);
          timeout = (case budget_for rd runner ck now (Some requested) of Some t \<Rightarrow> t | None \<Rightarrow> requested)
      in if fle timeout (Fin 0)
         then Inr (fail_closed (''no time left inside the hook deadline to ask the engine (deadline ''
                @ lb_fixed1 lb (Fin (deadline rd runner)) @ ''s, elapsed ''
                @ lb_fixed1 lb (Fin (elapsed rd ck now)) @ ''s)''))
         else
           let rq = core_request lb env cf timeout envelope
           in case lb_url_error lb (rq_url rq) of
                Some e \<Rightarrow> Inl e
              | None \<Rightarrow> read_reply lb env cf core_url (gate_id_of lb env)
                  (unreachable_text lb timeout requested) (net rq))"

section \<open>What a permission rests on\<close>

text \<open>The decision object in a reply, if there is one.\<close>

fun reply_body :: "core_reply \<Rightarrow> string option" where
  "reply_body (Replied _ raw) = Some raw"
| "reply_body (HttpError _ _ body) = body"
| "reply_body (NetError _) = None"

definition answered :: "library \<Rightarrow> core_reply \<Rightarrow> dict option" where
  "answered lb reply =
     (case reply_body reply of None \<Rightarrow> None
      | Some raw \<Rightarrow> (case lb_loads lb raw of
           Inr (JObj d) \<Rightarrow> if map_of d ''decision'' = None then None else Some d
         | _ \<Rightarrow> None))"

lemma map_decision_Inr:
  assumes "map_decision lb env cf cu g parsed = Inr v"
  obtains d obl where "parsed = JObj d" "obligation_list (dget_or d ''obligations'' (JArr [])) = Inr obl"
    "case permission_for (dget_or d ''decision'' (JStr [])) of
       Some p \<Rightarrow> v_permission v = p \<and> v_obligations v = obl \<and> v_rule v = dget_or d ''rule'' (JStr ''unknown'')
     | None \<Rightarrow> v_permission v = ''deny'' \<and> v_obligations v = []"
  using assms
  by (auto simp: map_decision_def Let_def py_simps split: json.splits option.splits)

lemma map_decision_obj: "map_decision lb env cf cu g x = Inr v \<Longrightarrow> is_obj x"
  by (auto elim: map_decision_Inr)

lemma answeredI:
  "reply_body reply = Some raw \<Longrightarrow> lb_loads lb raw = Inr (JObj d) \<Longrightarrow> names_decision (JObj d) = Inr True \<Longrightarrow>
     answered lb reply = Some d"
  by (auto simp: answered_def)

lemma fail_closed_deny [simp]: "v_permission (fail_closed r) = ''deny''"
  by (simp add: fail_closed_def)

lemma read_reply_Inr:
  assumes "read_reply lb env cf cu g un reply = Inr v" "v_permission v \<noteq> ''deny''"
  obtains d raw where "reply_body reply = Some raw" "lb_loads lb raw = Inr (JObj d)"
    "names_decision (JObj d) = Inr True" "map_decision lb env cf cu g (JObj d) = Inr v"
proof (cases reply)
  case (Replied status raw)
  then obtain x where "lb_loads lb raw = Inr x" "names_decision x = Inr True" "map_decision lb env cf cu g x = Inr v"
    using assms by (auto simp: read_reply_def py_simps split: sum.splits if_splits)
  with map_decision_obj [of lb env cf cu g x] show thesis
    using that [of raw "as_obj x"] Replied by (cases x) auto
next
  case (HttpError status reason body)
  show thesis
  proof (cases body)
    case None
    then show ?thesis using assms HttpError by (auto simp: read_reply_def)
  next
    case (Some raw)
    show ?thesis
    proof (cases "bindE (lb_loads lb raw) (\<lambda>parsed. bindE (names_decision parsed) (\<lambda>named.
              if named then map_decision lb env cf cu g parsed else Inl HValueError))")
      case (Inl e)
      then show ?thesis using assms HttpError Some by (auto simp: read_reply_def Let_def)
    next
      case (Inr w)
      then have "w = v" using assms HttpError Some by (auto simp: read_reply_def Let_def)
      with Inr obtain x where "lb_loads lb raw = Inr x" "names_decision x = Inr True"
        "map_decision lb env cf cu g x = Inr v"
        by (auto simp: py_simps split: if_splits)
      with map_decision_obj [of lb env cf cu g x] show ?thesis using that [of raw "as_obj x"] HttpError Some by (cases x) auto
    qed
  qed
qed (use assms in \<open>auto simp: read_reply_def\<close>)

text \<open>The seat says allow, or asks the human, only when the engine was asked within the time left and
  answered exactly that; every other outcome that does not raise is a deny.\<close>

lemma permission_rests_on_the_engine:
  assumes "call_core_and_map lb env cf rd ck now net envelope = Inr v"
  shows "v_permission v = ''deny''
    \<or> (\<exists>rq d. rq_body rq = envelope \<and> \<not> fle (rq_timeout rq) (Fin 0)
          \<and> answered lb (net rq) = Some d
          \<and> (v_permission v, dget d ''decision'') \<in> {(''allow'', JStr ''allow''), (''ask'', JStr ''require_approval'')}
          \<and> obligation_list (dget_or d ''obligations'' (JArr [])) = Inr (v_obligations v))"
proof (cases "v_permission v = ''deny''")
  case False
  obtain rq un cu g where rq: "rq_body rq = envelope" "\<not> fle (rq_timeout rq) (Fin 0)"
    and r: "read_reply lb env cf cu g un (net rq) = Inr v"
    using assms False
    by (auto simp: call_core_and_map_def Let_def split: if_splits option.splits intro: that [rotated 2])
  from read_reply_Inr [OF r False] obtain d raw where d: "reply_body (net rq) = Some raw"
    "lb_loads lb raw = Inr (JObj d)" "names_decision (JObj d) = Inr True"
    "map_decision lb env cf cu g (JObj d) = Inr v" .
  from d(4) obtain e obl where "JObj d = JObj e" "obligation_list (dget_or e ''obligations'' (JArr [])) = Inr obl"
    "case permission_for (dget_or e ''decision'' (JStr [])) of
       Some p \<Rightarrow> v_permission v = p \<and> v_obligations v = obl \<and> v_rule v = dget_or e ''rule'' (JStr ''unknown'')
     | None \<Rightarrow> v_permission v = ''deny'' \<and> v_obligations v = []"
    by (rule map_decision_Inr)
  moreover have "dget_or d ''decision'' (JStr []) = dget d ''decision''"
    using d(3) by (auto simp: dget_or_def dget_def)
  ultimately have "(v_permission v, dget d ''decision'') \<in> {(''allow'', JStr ''allow''), (''ask'', JStr ''require_approval'')}
     \<and> obligation_list (dget_or d ''obligations'' (JArr [])) = Inr (v_obligations v)"
    using False by (cases "dget d ''decision''") (auto split: if_splits option.splits)
  with rq answeredI [OF d(1-3)] show ?thesis by blast
qed simp

end
