(* ===== verification/HookRun.thy ===== *)
theory HookRun
  imports HookEnvelope HookEnforce
begin

text \<open>
  One run of the Claude Code hook (\<open>reeflex-claude/reeflex_claude/hook.py\<close>) and its audit record
  (\<open>audit.py\<close>): read the payload, classify, build the envelope, ask the engine, check obligations, refuse
  what was too large to classify, record, answer. The classifier and the network are functions of their
  inputs; printing and appending the audit line are outcomes. \<open>hook_step\<close> runs the pipeline and the watchdog
  as two threads.
\<close>

section \<open>Modes and answers\<close>

definition hook_mode :: "library \<Rightarrow> hook_env \<Rightarrow> string" where
  "hook_mode lb env =
     (if lower lb (strip lb (env_or (he_mode env) ''enforce'')) = ''observe'' then ''observe'' else ''enforce'')"

record answer =
  an_permission :: string
  an_reason :: string

text \<open>The JSON line of an answer.\<close>

definition hook_output :: "answer \<Rightarrow> dict" where
  "hook_output a = [(''hookSpecificOutput'', JObj [(''hookEventName'', JStr ''PreToolUse''),
     (''permissionDecision'', JStr (an_permission a)), (''permissionDecisionReason'', JStr (an_reason a))])]"

definition deny_output :: "string \<Rightarrow> answer" where
  "deny_output reason = \<lparr>an_permission = ''deny'', an_reason = reason\<rparr>"

definition fail_output :: "library \<Rightarrow> hook_env \<Rightarrow> string \<Rightarrow> answer" where
  "fail_output lb env reason =
     (if hook_mode lb env = ''observe''
      then \<lparr>an_permission = ''allow'', an_reason = ''Reeflex observe (fail-open): '' @ reason\<rparr>
      else deny_output reason)"

definition trunc_err :: "library \<Rightarrow> hook_exc \<Rightarrow> string" where
  "trunc_err lb e = truncated 300 (lb_exc_text lb e)"

definition failing_closed :: "string \<Rightarrow> string" where
  "failing_closed what = ''Reeflex: '' @ what @ '' [rule=reeflex.core/fail_closed]''"

section \<open>The audit record\<close>

definition raw_decision :: "string \<Rightarrow> string" where
  "raw_decision p = (if p = ''allow'' then ''allow'' else if p = ''ask'' then ''require_approval'' else ''deny'')"

text \<open>\<open>_build_record\<close>; \<open>None\<close> where it raises (an ability that is no text, looked at when the context names no
  tool).\<close>

definition hook_audit_record ::
  "string \<Rightarrow> dict \<Rightarrow> string \<Rightarrow> json \<Rightarrow> string \<Rightarrow> bool \<Rightarrow> json list \<Rightarrow> string \<Rightarrow> dict option" where
  "hook_audit_record ts envelope permission rule reason reachable obligations mode =
     (let part = (\<lambda>k. as_obj (get_or envelope k (JObj [])));
          agent = part ''agent''; action = part ''action''; target = part ''target'';
          context = part ''context''; meta = part ''meta'';
          tool = (if py_truth (dget context ''tool_name'') then Some (dget context ''tool_name'')
                  else case dget_or action ''ability'' (JStr []) of
                         JStr a \<Rightarrow> Some (JStr (if CHR ''/'' \<in> set a then after_first CHR ''/'' a else a))
                       | _ \<Rightarrow> None)
      in map_option (\<lambda>t.
          [(''ts'', JStr ts), (''session_id'', dget agent ''session_id''), (''tool_name'', t),
           (''verb'', dget action ''verb''), (''ability'', dget action ''ability''),
           (''environment'', dget target ''environment''), (''target_ref'', dget target ''ref''),
           (''magnitude_count'', dget (part ''magnitude'') ''count''), (''axes'', get_or envelope ''axes'' (JObj [])),
           (''classification_tier'', dget context ''classification_tier''),
           (''danger_signature'', dget context ''danger_signature''), (''decision'', JStr (raw_decision permission)),
           (''rule'', rule), (''reason'', JStr reason), (''obligations'', JArr obligations),
           (''permission_decision'', JStr permission), (''core_reachable'', JBool reachable), (''mode'', JStr mode),
           (''nonce'', dget meta ''nonce'')]) tool)"

section \<open>The two refusals of the seat itself\<close>

definition supported_obligations :: "string list" where
  "supported_obligations = [''audit:full'']"

text \<open>\<open>[o for o in obligations if o not in SUPPORTED_OBLIGATIONS]\<close>: looking up a list or a dict in a set raises.\<close>

fun unsupported :: "json list \<Rightarrow> hook_exc + json list" where
  "unsupported [] = Inr []"
| "unsupported (JArr _ # _) = Inl HTypeError"
| "unsupported (JObj _ # _) = Inl HTypeError"
| "unsupported (x # xs) = bindE (unsupported xs) (\<lambda>ys.
     Inr (if x \<in> set (map JStr supported_obligations) then ys else x # ys))"

definition obligation_rule :: string where "obligation_rule = ''adapter/unsupported_obligation''"
definition oversize_rule :: string where "oversize_rule = ''adapter/command_too_large''"
definition oversize_path_rule :: string where "oversize_path_rule = ''adapter/path_too_long''"
definition deadline_rule :: string where "deadline_rule = ''reeflex.core/deadline_exceeded''"

definition refuse_with :: "string \<Rightarrow> string \<Rightarrow> verdict \<Rightarrow> verdict" where
  "refuse_with rule text v = v\<lparr>v_permission := ''deny'', v_rule := JStr rule,
     v_reason := ''Reeflex: '' @ text @ '' [rule='' @ rule @ '']''\<rparr>"

definition check_obligations :: "library \<Rightarrow> verdict \<Rightarrow> hook_exc + verdict" where
  "check_obligations lb v =
     (if v_permission v = ''allow'' \<and> v_obligations v \<noteq> []
      then bindE (unsupported (v_obligations v)) (\<lambda>bad.
        Inr (if bad = [] then v
             else refuse_with obligation_rule
               (''cannot honor obligation(s) '' @ lb_repr lb (JArr bad) @ '' -- failing closed'') v))
      else Inr v)"

definition max_bash_command :: int where "max_bash_command = 65536"
definition max_file_path_chars :: nat where "max_file_path_chars = 4096"

definition max_bash_command_chars :: "library \<Rightarrow> hook_env \<Rightarrow> int" where
  "max_bash_command_chars lb env =
     (let raw = strip lb (env_or (he_max_command env) []);
          n = (if raw = [] then 0 else case lb_int lb raw of None \<Rightarrow> 0 | Some v \<Rightarrow> v)
      in if 0 < n then min n max_bash_command else max_bash_command)"

definition danger_of :: "dict \<Rightarrow> json" where
  "danger_of envelope = dget (as_obj (get_or envelope ''context'' (JObj []))) ''danger_signature''"

definition refuse_oversize :: "library \<Rightarrow> hook_env \<Rightarrow> dict \<Rightarrow> verdict \<Rightarrow> verdict" where
  "refuse_oversize lb env envelope v =
     (let v1 = (if danger_of envelope = JStr ''oversize_command'' \<and> v_permission v \<noteq> ''deny''
                then refuse_with oversize_rule
                  (''Bash command is longer than the '' @ str_int (max_bash_command_chars lb env)
                   @ '' character limit this gate will classify -- refusing rather than deciding on a command it has not read'') v
                else v)
      in if danger_of envelope = JStr ''oversize_path'' \<and> v_permission v1 \<noteq> ''deny''
         then refuse_with oversize_path_rule
           (''file path is longer than the '' @ str_nat max_file_path_chars
            @ '' character limit this gate will classify -- refusing rather than deciding on a path it has not read'') v1
         else v1)"

section \<open>The pipeline\<close>

text \<open>What one run meets: the decoded payload, the classifier, the clock readings, the network.\<close>

record hook_input =
  hi_stdin :: "hook_exc + json"
  hi_classify :: "json \<Rightarrow> json \<Rightarrow> hook_exc + classification"
  hi_stamps :: stamps
  hi_rd :: "rat \<Rightarrow> rat"
  hi_clock :: hook_clock
  hi_now :: rat
  hi_net :: "hook_request \<Rightarrow> core_reply"
  hi_credentials :: cred_file
  hi_audit_ts :: string

text \<open>Steps 3 to 5: the verdict on a payload with a session, and the envelope it is about.\<close>

definition judge_call ::
  "library \<Rightarrow> hook_env \<Rightarrow> hook_input \<Rightarrow> dict \<Rightarrow> hook_exc + verdict" where
  "judge_call lb env inp envelope =
     bindE (call_core_and_map lb env (hi_credentials inp) (hi_rd inp) (hi_clock inp) (hi_now inp) (hi_net inp) envelope)
       (\<lambda>v. bindE (check_obligations lb v) (\<lambda>v1. Inr (refuse_oversize lb env envelope v1)))"

definition normalized_call :: "library \<Rightarrow> hook_env \<Rightarrow> hook_input \<Rightarrow> dict \<Rightarrow> hook_exc + dict" where
  "normalized_call lb env inp payload =
     bindE (hi_classify inp (get_or payload ''tool_name'' (JStr ''unknown'')) (get_or payload ''tool_input'' (JObj [])))
       (\<lambda>cls. build_envelope lb env (hi_stamps inp) payload cls)"

text \<open>Step 7: what is printed for a verdict.\<close>

definition shown :: "string \<Rightarrow> verdict \<Rightarrow> answer" where
  "shown mode v =
     (if mode = ''observe''
      then \<lparr>an_permission = ''allow'',
            an_reason = ''Reeflex observe -- would be '' @ [CHR 0x27] @ v_permission v @ [CHR 0x27] @ '' ''
              @ v_reason v @ ''; not enforced (observe mode)''\<rparr>
      else \<lparr>an_permission = v_permission v, an_reason = v_reason v\<rparr>)"

text \<open>\<open>_run_pipeline\<close>: the audit records it hands over, and the answer it prints or the exception it raises.\<close>

definition run_pipeline :: "library \<Rightarrow> hook_env \<Rightarrow> hook_input \<Rightarrow> dict list \<times> (hook_exc + answer)" where
  "run_pipeline lb env inp =
     (case hi_stdin inp of
        Inl e \<Rightarrow> ([], Inr (fail_output lb env (failing_closed
          (''could not parse hook stdin -- failing closed: '' @ trunc_err lb e))))
      | Inr (JObj payload) \<Rightarrow>
          if \<not> py_truth (dget payload ''session_id'')
          then ([], Inr (fail_output lb env (failing_closed ''session_id missing in hook payload -- failing closed'')))
          else (case normalized_call lb env inp payload of
             Inl e \<Rightarrow> ([], Inr (fail_output lb env (failing_closed
               (''envelope build failed -- failing closed: '' @ trunc_err lb e))))
           | Inr envelope \<Rightarrow>
               (case judge_call lb env inp envelope of
                  Inl e \<Rightarrow> ([], Inl e)
                | Inr v \<Rightarrow>
                    let mode = hook_mode lb env
                    in (case hook_audit_record (hi_audit_ts inp) envelope (v_permission v) (v_rule v) (v_reason v)
                               (v_reachable v) (v_obligations v) mode of None \<Rightarrow> [] | Some r \<Rightarrow> [r],
                        Inr (shown mode v))))
      | Inr _ \<Rightarrow> ([], Inl HAttributeError))"

text \<open>\<open>main\<close>: what the pipeline thread prints.\<close>

definition unexpected :: "library \<Rightarrow> hook_env \<Rightarrow> hook_exc \<Rightarrow> answer" where
  "unexpected lb env e =
     (let text = trunc_err lb e @ '' [rule=reeflex.core/fail_closed]''
      in if hook_mode lb env = ''observe''
         then \<lparr>an_permission = ''allow'', an_reason = ''Reeflex observe (fail-open): unexpected hook error: '' @ text\<rparr>
         else deny_output (''Reeflex: unexpected hook error -- failing closed: '' @ text))"

definition main_answer :: "library \<Rightarrow> hook_env \<Rightarrow> hook_input \<Rightarrow> answer" where
  "main_answer lb env inp =
     (case snd (run_pipeline lb env inp) of Inr a \<Rightarrow> a | Inl e \<Rightarrow> unexpected lb env e)"

text \<open>What the watchdog prints and records.\<close>

definition deadline_reason :: "library \<Rightarrow> hook_env \<Rightarrow> rat \<Rightarrow> string" where
  "deadline_reason lb env d =
     ''Reeflex: no decision within '' @ lb_fixed1 lb (Fin d)
     @ ''s -- failing closed at the hook deadline, before Claude Code'' @ [CHR 0x27] @ ''s PreToolUse runner (''
     @ lb_fixed0 lb (Fin (runner_timeout (lb_ucd lb) (lb_float lb) (he_hook_timeout env)))
     @ ''s) kills this hook and runs the tool anyway [rule='' @ deadline_rule @ '']''"

definition deadline_answer :: "library \<Rightarrow> hook_env \<Rightarrow> rat \<Rightarrow> answer" where
  "deadline_answer lb env d = fail_output lb env (deadline_reason lb env d)"

definition deadline_record :: "library \<Rightarrow> hook_env \<Rightarrow> string \<Rightarrow> rat \<Rightarrow> dict option \<Rightarrow> dict option" where
  "deadline_record lb env ts d seen =
     hook_audit_record ts (case seen of None \<Rightarrow> [] | Some e \<Rightarrow> e) ''deny'' (JStr deadline_rule)
       (deadline_reason lb env d) False [] (hook_mode lb env)"

section \<open>In enforce mode only the engine's allow is an allow\<close>

lemma unsupported_Nil: "unsupported xs = Inr [] \<Longrightarrow> list_all (\<lambda>o'. o' = JStr ''audit:full'') xs"
  by (induction xs rule: unsupported.induct) (auto simp: py_simps supported_obligations_def split: if_splits)

lemma refuse_with_deny [simp]: "v_permission (refuse_with r t v) = ''deny''"
  by (simp add: refuse_with_def)

lemma check_obligations_Inr:
  "check_obligations lb v = Inr v' \<Longrightarrow> v_permission v' \<noteq> ''deny'' \<Longrightarrow>
     v' = v \<and> (v_permission v = ''allow'' \<longrightarrow> list_all (\<lambda>o'. o' = JStr ''audit:full'') (v_obligations v))"
  by (auto simp: check_obligations_def py_simps unsupported_Nil split: if_splits)

lemma refuse_oversize_pass:
  "v_permission (refuse_oversize lb env e v) \<noteq> ''deny'' \<Longrightarrow>
     refuse_oversize lb env e v = v \<and> danger_of e \<notin> {JStr ''oversize_command'', JStr ''oversize_path''}"
  by (auto simp: refuse_oversize_def Let_def split: if_splits)

lemma danger_built: "build_envelope lb env st payload cls = Inr e \<Longrightarrow> danger_of e = JStr (c_danger_signature cls)"
  by (erule build_envelope_fields) (simp add: danger_of_def get_or_def)

lemma shown_enforce: "mode \<noteq> ''observe'' \<Longrightarrow> an_permission (shown mode v) = v_permission v"
  by (simp add: shown_def)

lemma enforce_mode: "hook_mode lb env = ''enforce'' \<Longrightarrow> hook_mode lb env \<noteq> ''observe''"
  by simp

text \<open>A permission other than deny goes through every step of the pipeline.\<close>

lemma permission_path:
  assumes "hook_mode lb env = ''enforce''" "an_permission (main_answer lb env inp) \<noteq> ''deny''"
  obtains payload cls e v0 where "hi_stdin inp = Inr (JObj payload)" "py_truth (dget payload ''session_id'')"
    "hi_classify inp (get_or payload ''tool_name'' (JStr ''unknown'')) (get_or payload ''tool_input'' (JObj [])) = Inr cls"
    "build_envelope lb env (hi_stamps inp) payload cls = Inr e"
    "call_core_and_map lb env (hi_credentials inp) (hi_rd inp) (hi_clock inp) (hi_now inp) (hi_net inp) e = Inr v0"
    "check_obligations lb v0 = Inr v0" "refuse_oversize lb env e v0 = v0"
    "an_permission (main_answer lb env inp) = v_permission v0"
proof -
  note m = enforce_mode [OF assms(1)]
  obtain payload where p: "hi_stdin inp = Inr (JObj payload)"
    using assms m
    by (auto simp: main_answer_def run_pipeline_def fail_output_def deny_output_def unexpected_def Let_def
        split: sum.splits json.splits)
  have s: "py_truth (dget payload ''session_id'')"
    using assms(2) m by (rule_tac ccontr) (simp add: main_answer_def run_pipeline_def p fail_output_def deny_output_def)
  obtain e where n: "normalized_call lb env inp payload = Inr e"
    using assms(2) m s
    by (cases "normalized_call lb env inp payload") (auto simp: main_answer_def run_pipeline_def p fail_output_def deny_output_def)
  obtain v where j: "judge_call lb env inp e = Inr v"
    using assms(2) m s n
    by (cases "judge_call lb env inp e") (auto simp: main_answer_def run_pipeline_def p unexpected_def deny_output_def Let_def)
  have a: "an_permission (main_answer lb env inp) = v_permission v"
    using m s n j by (simp add: main_answer_def run_pipeline_def p Let_def shown_enforce)
  obtain cls where cls:
    "hi_classify inp (get_or payload ''tool_name'' (JStr ''unknown'')) (get_or payload ''tool_input'' (JObj [])) = Inr cls"
    "build_envelope lb env (hi_stamps inp) payload cls = Inr e"
    using n by (auto simp: normalized_call_def py_simps)
  obtain v0 v1 where v: "call_core_and_map lb env (hi_credentials inp) (hi_rd inp) (hi_clock inp) (hi_now inp) (hi_net inp) e = Inr v0"
    "check_obligations lb v0 = Inr v1" "v = refuse_oversize lb env e v1"
    using j by (auto simp: judge_call_def py_simps)
  have "v = v1" "v1 = v0"
    using refuse_oversize_pass [of lb env e v1] check_obligations_Inr [OF v(2)] assms(2) a v(3) by auto
  with v a show thesis by (intro that [OF p s cls]) simp_all
qed

text \<open>C6: In enforce mode the hook lets a call run, or hands it to the human, only if the payload was read and
  classified, the classifier did read the whole command, the engine was asked about exactly the envelope
  built for this call and answered just that, and an allow carries no obligation the seat cannot honour.
  Everything else, every exception included, is a deny.\<close>

theorem only_the_engine_allows:
  assumes "hook_mode lb env = ''enforce''" "an_permission (main_answer lb env inp) \<noteq> ''deny''"
  shows "\<exists>payload cls e rq d.
      hi_stdin inp = Inr (JObj payload)
    \<and> hi_classify inp (get_or payload ''tool_name'' (JStr ''unknown'')) (get_or payload ''tool_input'' (JObj [])) = Inr cls
    \<and> c_danger_signature cls \<notin> {''oversize_command'', ''oversize_path''}
    \<and> build_envelope lb env (hi_stamps inp) payload cls = Inr e
    \<and> rq_body rq = e \<and> answered lb (hi_net inp rq) = Some d
    \<and> (an_permission (main_answer lb env inp), dget d ''decision'')
        \<in> {(''allow'', JStr ''allow''), (''ask'', JStr ''require_approval'')}
    \<and> (an_permission (main_answer lb env inp) = ''allow'' \<longrightarrow>
        (\<exists>obl. obligation_list (dget_or d ''obligations'' (JArr [])) = Inr obl
             \<and> list_all (\<lambda>o'. o' = JStr ''audit:full'') obl))"
proof -
  obtain payload cls e v0 where f: "hi_stdin inp = Inr (JObj payload)"
    "hi_classify inp (get_or payload ''tool_name'' (JStr ''unknown'')) (get_or payload ''tool_input'' (JObj [])) = Inr cls"
    "build_envelope lb env (hi_stamps inp) payload cls = Inr e"
    and v: "call_core_and_map lb env (hi_credentials inp) (hi_rd inp) (hi_clock inp) (hi_now inp) (hi_net inp) e = Inr v0"
    "check_obligations lb v0 = Inr v0" "refuse_oversize lb env e v0 = v0"
    "an_permission (main_answer lb env inp) = v_permission v0"
    using permission_path [OF assms] by metis
  have nd: "v_permission v0 \<noteq> ''deny''" using assms(2) v(4) by simp
  have "danger_of e \<notin> {JStr ''oversize_command'', JStr ''oversize_path''}"
    using refuse_oversize_pass [of lb env e v0] v(3) nd by simp
  moreover obtain rq d where rq: "rq_body rq = e" "answered lb (hi_net inp rq) = Some d"
    "(v_permission v0, dget d ''decision'') \<in> {(''allow'', JStr ''allow''), (''ask'', JStr ''require_approval'')}"
    "obligation_list (dget_or d ''obligations'' (JArr [])) = Inr (v_obligations v0)"
    using permission_rests_on_the_engine [OF v(1)] nd by blast
  moreover note check_obligations_Inr [OF v(2) nd]
  ultimately show ?thesis using f v(4) danger_built [OF f(3)] by auto
qed

definition sample_hook_input :: "classification \<Rightarrow> string \<Rightarrow> hook_input" where
  "sample_hook_input cls reply = \<lparr>hi_stdin = Inr (JObj sample_payload), hi_classify = (\<lambda>_ _. Inr cls),
     hi_stamps = \<lparr>st_now = ''t'', st_monotonic_ns = 7\<rparr>, hi_rd = (\<lambda>x. x), hi_clock = \<lparr>ck_started = 0, ck_armed = True\<rparr>,
     hi_now = 1, hi_net = (\<lambda>_. Replied 200 reply), hi_credentials = NoFile, hi_audit_ts = ''t''\<rparr>"

theorem only_the_engine_allows_witness:
  "hook_mode sample_library sample_hook_env = ''enforce''
   \<and> an_permission (main_answer sample_library sample_hook_env (sample_hook_input sample_classification ''allow'')) = ''allow''
   \<and> an_permission (main_answer sample_library sample_hook_env (sample_hook_input sample_classification ''5'')) = ''deny''
   \<and> (\<exists>rq. \<exists>d. answered sample_library (hi_net (sample_hook_input sample_classification ''allow'') rq) = Some d
        \<and> dget d ''decision'' = JStr ''allow'')"
proof -
  have a: "hook_mode sample_library sample_hook_env = ''enforce''"
    "an_permission (main_answer sample_library sample_hook_env (sample_hook_input sample_classification ''allow'')) = ''allow''"
    "an_permission (main_answer sample_library sample_hook_env (sample_hook_input sample_classification ''5'')) = ''deny''"
    by code_simp+
  have "an_permission (main_answer sample_library sample_hook_env (sample_hook_input sample_classification ''allow'')) \<noteq> ''deny''"
    using a(2) by simp
  from only_the_engine_allows [OF a(1) this] a show ?thesis by auto
qed

section \<open>Observe mode never blocks\<close>

theorem observe_never_blocks:
  "hook_mode lb env = ''observe'' \<Longrightarrow>
     an_permission (main_answer lb env inp) = ''allow'' \<and> an_permission (deadline_answer lb env d) = ''allow''"
  by (auto simp: main_answer_def run_pipeline_def fail_output_def unexpected_def shown_def deadline_answer_def Let_def
      split: sum.splits json.splits)

section \<open>Every verdict is recorded as it would be enforced\<close>

lemma built_context_tool:
  assumes "build_envelope lb env st payload cls = Inr e"
  shows "\<exists>t. get_or payload ''tool_name'' (JStr ''unknown'') = JStr t
           \<and> dget (as_obj (get_or e ''context'' (JObj []))) ''tool_name'' = JStr t \<and> t \<noteq> []"
proof -
  have t: "py_truth (get_or payload ''tool_name'' (JStr ''unknown''))" by (simp add: get_or_def)
  obtain tn where tn: "get_or payload ''tool_name'' (JStr ''unknown'') = JStr tn"
    using assms by (auto simp: build_envelope_def Let_def py_simps verb_source_def split: if_splits json.splits)
  have "dget e ''context'' = JObj [(''tool_name'', JStr tn), (''command_preview'', jopt (c_command_preview cls)),
       (''file_path'', jopt (c_file_path cls)), (''danger_signature'', JStr (c_danger_signature cls)),
       (''classification_tier'', JStr (c_tier cls))]"
    using assms by (auto simp: build_envelope_def Let_def py_simps tn split: if_splits json.splits)
  with t tn show ?thesis by (auto simp: get_or_def)
qed

theorem verdict_recorded:
  assumes "normalized_call lb env inp payload = Inr e" "hi_stdin inp = Inr (JObj payload)"
    "py_truth (dget payload ''session_id'')" "judge_call lb env inp e = Inr v"
  shows "case fst (run_pipeline lb env inp) of
      [r] \<Rightarrow> dget r ''permission_decision'' = JStr (v_permission v)
           \<and> dget r ''decision'' = JStr (raw_decision (v_permission v))
           \<and> dget r ''rule'' = v_rule v \<and> dget r ''mode'' = JStr (hook_mode lb env)
           \<and> dget r ''nonce'' = dget (as_obj (dget e ''meta'')) ''nonce''
    | _ \<Rightarrow> False"
proof -
  obtain cls where cls: "build_envelope lb env (hi_stamps inp) payload cls = Inr e"
    using assms(1) by (auto simp: normalized_call_def py_simps)
  obtain tn where tn: "dget (as_obj (get_or e ''context'' (JObj []))) ''tool_name'' = JStr tn" "tn \<noteq> []"
    using built_context_tool [OF cls] by auto
  have "get_or e ''meta'' (JObj []) = dget e ''meta''"
    by (rule build_envelope_fields [OF cls]) (simp add: get_or_def)
  then show ?thesis
    using assms(3) by (simp add: run_pipeline_def assms(1,2,4) Let_def hook_audit_record_def tn)
qed

end
