(* ===== verification/HookThreads.thy ===== *)
theory HookThreads
  imports HookRun
begin

text \<open>
  The pipeline and the deadline watchdog of \<open>hook.py\<close> as two threads that both end in \<open>_emit_once\<close>: a lock, a
  flag, one write, one release; either thread may end the process. A step is one statement, so every
  schedule of the interpreter is a path of \<open>hook_step\<close>.
\<close>

section \<open>The step relation\<close>

datatype who = Pipeline | Watchdog

datatype phase = Idle | Wanting | Inside | Printing | Leaving bool | Finished bool

record emission =
  em_lock :: "who option"
  em_emitted :: bool
  em_printed :: "answer list"
  em_phase :: "who \<Rightarrow> phase"
  em_failed :: bool
  em_gave_up :: bool
  em_exited :: bool

definition emission_start :: emission where
  "emission_start = \<lparr>em_lock = None, em_emitted = False, em_printed = [], em_phase = (\<lambda>_. Idle),
     em_failed = False, em_gave_up = False, em_exited = False\<rparr>"

definition at_phase :: "who \<Rightarrow> phase \<Rightarrow> emission \<Rightarrow> emission" where
  "at_phase w p s = s\<lparr>em_phase := (em_phase s)(w := p)\<rparr>"

text \<open>\<open>ans w\<close> is the answer that thread \<open>w\<close> wants to print. The pipeline waits for the lock without limit, the
  watchdog for half a second.\<close>

inductive hook_step :: "(who \<Rightarrow> answer) \<Rightarrow> emission \<Rightarrow> emission \<Rightarrow> bool" for ans where
  arrive: "\<not> em_exited s \<Longrightarrow> em_phase s w = Idle \<Longrightarrow> hook_step ans s (at_phase w Wanting s)"
| acquire: "\<not> em_exited s \<Longrightarrow> em_phase s w = Wanting \<Longrightarrow> em_lock s = None \<Longrightarrow>
    hook_step ans s (at_phase w Inside (s\<lparr>em_lock := Some w\<rparr>))"
| give_up: "\<not> em_exited s \<Longrightarrow> em_phase s Watchdog = Wanting \<Longrightarrow> em_lock s = Some Pipeline \<Longrightarrow>
    hook_step ans s (at_phase Watchdog (Finished False) (s\<lparr>em_gave_up := True\<rparr>))"
| lost: "\<not> em_exited s \<Longrightarrow> em_phase s w = Inside \<Longrightarrow> em_emitted s \<Longrightarrow> hook_step ans s (at_phase w (Leaving False) s)"
| claim: "\<not> em_exited s \<Longrightarrow> em_phase s w = Inside \<Longrightarrow> \<not> em_emitted s \<Longrightarrow>
    hook_step ans s (at_phase w Printing (s\<lparr>em_emitted := True\<rparr>))"
| print_done: "\<not> em_exited s \<Longrightarrow> em_phase s w = Printing \<Longrightarrow>
    hook_step ans s (at_phase w (Leaving True) (s\<lparr>em_printed := em_printed s @ [ans w]\<rparr>))"
| print_failed: "\<not> em_exited s \<Longrightarrow> em_phase s w = Printing \<Longrightarrow>
    hook_step ans s (at_phase w (Leaving True) (s\<lparr>em_failed := True\<rparr>))"
| release: "\<not> em_exited s \<Longrightarrow> em_phase s w = Leaving b \<Longrightarrow>
    hook_step ans s (at_phase w (Finished b) (s\<lparr>em_lock := None\<rparr>))"
| exit_process: "\<not> em_exited s \<Longrightarrow> em_phase s w = Finished b \<Longrightarrow> hook_step ans s (s\<lparr>em_exited := True\<rparr>)"

inductive hook_reach :: "(who \<Rightarrow> answer) \<Rightarrow> emission \<Rightarrow> bool" for ans where
  start: "hook_reach ans emission_start"
| step: "hook_reach ans s \<Longrightarrow> hook_step ans s s' \<Longrightarrow> hook_reach ans s'"

definition hook_answers :: "library \<Rightarrow> hook_env \<Rightarrow> hook_input \<Rightarrow> rat \<Rightarrow> who \<Rightarrow> answer" where
  "hook_answers lb env inp d w =
     (case w of Pipeline \<Rightarrow> main_answer lb env inp | Watchdog \<Rightarrow> deadline_answer lb env d)"

section \<open>The invariant\<close>

definition in_section :: "phase \<Rightarrow> bool" where
  "in_section p \<longleftrightarrow> p = Inside \<or> p = Printing \<or> (\<exists>b. p = Leaving b)"

fun through :: "phase \<Rightarrow> bool" where
  "through (Leaving b) = True"
| "through (Finished b) = True"
| "through _ = False"

text \<open>The lock is held by exactly the thread inside; the flag is up from the claim on; one answer is out, a print
  failed or is going on once the flag is up, and none before; a thread that is through saw an answer out
  or a print fail, or gave up.\<close>

definition em_inv :: "(who \<Rightarrow> answer) \<Rightarrow> emission \<Rightarrow> bool" where
  "em_inv ans s \<longleftrightarrow>
     (\<forall>w. em_lock s = Some w \<longleftrightarrow> in_section (em_phase s w))
     \<and> (\<not> em_emitted s \<longrightarrow> em_printed s = [] \<and> \<not> em_failed s \<and> (\<forall>w. em_phase s w \<noteq> Printing))
     \<and> ((\<exists>w. em_phase s w = Printing) \<longrightarrow> em_printed s = [] \<and> \<not> em_failed s)
     \<and> (em_emitted s \<and> (\<forall>w. em_phase s w \<noteq> Printing) \<longrightarrow> em_printed s \<noteq> [] \<or> em_failed s)
     \<and> (em_printed s = [] \<or> (\<exists>w. em_printed s = [ans w]))
     \<and> (\<forall>w. through (em_phase s w) \<longrightarrow>
          em_printed s \<noteq> [] \<or> em_failed s \<or> em_gave_up s \<and> w = Watchdog)
     \<and> (em_gave_up s \<longrightarrow> em_phase s Watchdog = Finished False)
     \<and> (em_exited s \<longrightarrow> (\<exists>w. through (em_phase s w)))"

lemma in_section_simps [simp]:
  "in_section Inside" "in_section Printing" "in_section (Leaving b)"
  "\<not> in_section Idle" "\<not> in_section Wanting" "\<not> in_section (Finished b)"
  by (auto simp: in_section_def)

lemma who_all: "(\<forall>w. P w) \<longleftrightarrow> P Pipeline \<and> P Watchdog"
  by (metis who.exhaust)

lemma who_ex: "(\<exists>w. P w) \<longleftrightarrow> P Pipeline \<or> P Watchdog"
  by (metis who.exhaust)

lemma em_inv_start: "em_inv ans emission_start"
  by (simp add: em_inv_def emission_start_def)

text \<open>With both phases known the invariant is propositional.\<close>

lemmas em_inv_cases = em_inv_def at_phase_def who_all who_ex

lemma em_inv_step: "hook_step ans s s' \<Longrightarrow> em_inv ans s \<Longrightarrow> em_inv ans s'"
proof (induction rule: hook_step.induct)
  case (arrive s w) then show ?case
    by (cases w, (cases "em_phase s Watchdog"; simp add: em_inv_cases), (cases "em_phase s Pipeline"; simp add: em_inv_cases))
next
  case (acquire s w) then show ?case
    by (cases w, (cases "em_phase s Watchdog"; simp add: em_inv_cases), (cases "em_phase s Pipeline"; simp add: em_inv_cases))
next
  case (give_up s) then show ?case
    by (cases "em_phase s Pipeline"; simp add: em_inv_cases)
next
  case (lost s w) then show ?case
    by (cases w, (cases "em_phase s Watchdog"; simp add: em_inv_cases), (cases "em_phase s Pipeline"; simp add: em_inv_cases))
next
  case (claim s w) then show ?case
    by (cases w, (cases "em_phase s Watchdog"; simp add: em_inv_cases), (cases "em_phase s Pipeline"; simp add: em_inv_cases))
next
  case (print_done s w) then show ?case
    by (cases w, (cases "em_phase s Watchdog"; simp add: em_inv_cases), (cases "em_phase s Pipeline"; simp add: em_inv_cases))
next
  case (print_failed s w) then show ?case
    by (cases w, (cases "em_phase s Watchdog"; simp add: em_inv_cases), (cases "em_phase s Pipeline"; simp add: em_inv_cases))
next
  case (release s w b) then show ?case
    by (cases w, (cases "em_phase s Watchdog"; simp add: em_inv_cases), (cases "em_phase s Pipeline"; simp add: em_inv_cases))
next
  case (exit_process s w b) then show ?case
    by (cases w, (cases "em_phase s Watchdog"; simp add: em_inv_cases), (cases "em_phase s Pipeline"; simp add: em_inv_cases))
qed

lemma em_inv_reach: "hook_reach ans s \<Longrightarrow> em_inv ans s"
  by (induction rule: hook_reach.induct) (auto intro: em_inv_start em_inv_step)

text \<open>While the process lives, some thread can take a step.\<close>

lemma hook_progress:
  assumes "em_inv ans s" "\<not> em_exited s"
  shows "\<exists>s'. hook_step ans s s'"
proof (cases "em_phase s Pipeline")
  case Wanting
  show ?thesis
  proof (cases "em_lock s")
    case None
    with Wanting assms(2) show ?thesis by (blast intro: acquire)
  next
    case (Some w)
    then have "in_section (em_phase s w)" using assms(1) unfolding em_inv_def by blast
    then show ?thesis using assms(2) unfolding in_section_def
      by (cases "em_emitted s") (blast intro: lost claim print_done release)+
  qed
next
  case Inside
  with assms(2) show ?thesis by (cases "em_emitted s") (blast intro: lost claim)+
qed (use assms(2) in \<open>blast intro: arrive print_done release exit_process\<close>)+

text \<open>C24: However the pipeline and the watchdog interleave, the hook prints at most one answer, the pipeline's or
  the watchdog's, and in enforce mode anything but a deny is the pipeline's. It always has a next step until it
  exits, and it exits without an answer only if a print failed or the watchdog gave up on a pipeline that was
  itself printing.\<close>

theorem one_answer:
  assumes "hook_reach (hook_answers lb env inp d) s"
  shows "(em_printed s = [] \<or> (\<exists>a. em_printed s = [a]
             \<and> (a = main_answer lb env inp \<or> a = deadline_answer lb env d)
             \<and> (hook_mode lb env = ''enforce'' \<and> an_permission a \<noteq> ''deny'' \<longrightarrow> a = main_answer lb env inp)))
    \<and> (em_exited s \<longrightarrow> em_printed s \<noteq> [] \<or> em_failed s \<or> em_gave_up s)
    \<and> (\<not> em_exited s \<longrightarrow> (\<exists>s'. hook_step (hook_answers lb env inp d) s s'))"
proof -
  note inv = em_inv_reach [OF assms]
  have dog: "hook_mode lb env = ''enforce'' \<Longrightarrow> an_permission (deadline_answer lb env d) = ''deny''"
    by (simp add: deadline_answer_def fail_output_def deny_output_def)
  have out: "em_printed s = [] \<or> (\<exists>w. em_printed s = [hook_answers lb env inp d w])"
    using inv by (simp add: em_inv_def)
  have "em_printed s \<noteq> [] \<or> em_failed s \<or> em_gave_up s" if x: "em_exited s"
    using inv x unfolding em_inv_def by blast
  then show ?thesis using out dog hook_progress [OF inv] by (auto simp: hook_answers_def who_ex)
qed

text \<open>A run in which the pipeline prints and the watchdog, arriving while the lock is held, gives up and exits.\<close>

theorem one_answer_witness:
  "\<exists>s. hook_reach (hook_answers sample_library sample_hook_env (sample_hook_input sample_classification ''allow'') 24) s
     \<and> em_exited s
     \<and> em_printed s = [main_answer sample_library sample_hook_env (sample_hook_input sample_classification ''allow'')]
     \<and> (em_printed s = [] \<or> (\<exists>a. em_printed s = [a]))"
proof -
  let ?inp = "sample_hook_input sample_classification ''allow''"
  let ?ans = "hook_answers sample_library sample_hook_env ?inp 24"
  let ?s1 = "at_phase Pipeline Wanting emission_start"
  let ?s2 = "at_phase Pipeline Inside (?s1\<lparr>em_lock := Some Pipeline\<rparr>)"
  let ?s3 = "at_phase Watchdog Wanting ?s2"
  let ?s4 = "at_phase Pipeline Printing (?s3\<lparr>em_emitted := True\<rparr>)"
  let ?s5 = "at_phase Pipeline (Leaving True) (?s4\<lparr>em_printed := em_printed ?s4 @ [?ans Pipeline]\<rparr>)"
  let ?s6 = "at_phase Watchdog (Finished False) (?s5\<lparr>em_gave_up := True\<rparr>)"
  let ?s7 = "?s6\<lparr>em_exited := True\<rparr>"
  note d = at_phase_def emission_start_def
  have "hook_reach ?ans ?s1"
    by (rule hook_reach.step [OF hook_reach.start hook_step.arrive]) (simp_all add: d)
  then have "hook_reach ?ans ?s2" by (rule hook_reach.step [OF _ hook_step.acquire]) (simp_all add: d)
  then have "hook_reach ?ans ?s3" by (rule hook_reach.step [OF _ hook_step.arrive]) (simp_all add: d)
  then have "hook_reach ?ans ?s4" by (rule hook_reach.step [OF _ hook_step.claim]) (simp_all add: d)
  then have "hook_reach ?ans ?s5" by (rule hook_reach.step [OF _ hook_step.print_done]) (simp_all add: d)
  then have "hook_reach ?ans ?s6" by (rule hook_reach.step [OF _ hook_step.give_up]) (simp_all add: d)
  then have r: "hook_reach ?ans ?s7" by (rule hook_reach.step [OF _ hook_step.exit_process [of _ Watchdog False]]) (simp_all add: d)
  have "em_exited ?s7" "em_printed ?s7 = [main_answer sample_library sample_hook_env ?inp]"
    by (simp_all add: d hook_answers_def)
  with r one_answer [OF r] show ?thesis by blast
qed

end
