(* ===== verification/PyRegex.thy ===== *)
theory PyRegex
  imports HookBase
begin

text \<open>
  The regular expressions the command classifier uses, as Python's \<open>re\<close> runs them: a backtracking matcher that
  lists the positions where a match may end, the preferred one first. A subject is its list of code points; a
  position is the character before it and the characters after it, which is what anchors, word boundaries
  and lookahead look at.
\<close>

section \<open>Code points\<close>

fun cp_of :: "string \<Rightarrow> nat" where
  "cp_of [a, b] = (code a - 192) * 64 + (code b - 128)"
| "cp_of [a, b, c] = (code a - 224) * 4096 + (code b - 128) * 64 + (code c - 128)"
| "cp_of [a, b, c, d] = (code a - 240) * 262144 + (code b - 128) * 4096 + (code c - 128) * 64 + (code d - 128)"
| "cp_of s = (case s of [] \<Rightarrow> 0 | a # _ \<Rightarrow> code a)"

definition cps :: "string \<Rightarrow> nat list" where
  "cps s = map cp_of (chars_of s)"

text \<open>White space: \<open>str.isspace\<close> and \<open>\s\<close> agree on these characters.\<close>

definition space_cp :: "nat \<Rightarrow> bool" where
  "space_cp n \<longleftrightarrow> 9 \<le> n \<and> n \<le> 13 \<or> 28 \<le> n \<and> n \<le> 32
     \<or> n \<in> {133, 160, 5760, 8232, 8233, 8239, 8287, 12288} \<or> 8192 \<le> n \<and> n \<le> 8202"

definition upper_cp :: "nat \<Rightarrow> bool" where "upper_cp n \<longleftrightarrow> 65 \<le> n \<and> n \<le> 90"
definition lower_cp :: "nat \<Rightarrow> bool" where "lower_cp n \<longleftrightarrow> 97 \<le> n \<and> n \<le> 122"
definition digit_cp :: "nat \<Rightarrow> bool" where "digit_cp n \<longleftrightarrow> 48 \<le> n \<and> n \<le> 57"

text \<open>\<open>\w\<close>; outside ASCII it is the library's.\<close>

definition word_cp :: "library \<Rightarrow> nat \<Rightarrow> bool" where
  "word_cp lb n \<longleftrightarrow> (if n < 128 then upper_cp n \<or> lower_cp n \<or> digit_cp n \<or> n = 95 else lb_word lb n)"

text \<open>The characters that a letter of a pattern matches under \<open>IGNORECASE\<close>: both cases, and the few characters
  outside ASCII whose lower case it is.\<close>

definition ignore_case :: "nat \<Rightarrow> nat \<Rightarrow> bool" where
  "ignore_case p n \<longleftrightarrow> n = p \<or> lower_cp p \<and> n + 32 = p \<or> upper_cp p \<and> n = p + 32
     \<or> p \<in> {73, 105} \<and> n \<in> {304, 305} \<or> p \<in> {75, 107} \<and> n = 8490 \<or> p \<in> {83, 115} \<and> n = 383"

section \<open>Patterns\<close>

datatype re =
    Eps
  | Cls "nat \<Rightarrow> bool"
  | Seq re re
  | Alt re re
  | Star re
  | Bol
  | Eol
  | Bnd "nat \<Rightarrow> bool"
  | NoAhead re

fun seqs :: "re list \<Rightarrow> re" where
  "seqs [] = Eps"
| "seqs [r] = r"
| "seqs (r # rs) = Seq r (seqs rs)"

fun alts :: "re list \<Rightarrow> re" where
  "alts [] = NoAhead Eps"
| "alts [r] = r"
| "alts (r # rs) = Alt r (alts rs)"

definition lit :: "string \<Rightarrow> re" where
  "lit s = seqs (map (\<lambda>c. Cls (\<lambda>n. n = code c)) s)"

definition ilit :: "string \<Rightarrow> re" where
  "ilit s = seqs (map (\<lambda>c. Cls (ignore_case (code c))) s)"

definition one_of :: "string \<Rightarrow> re" where
  "one_of s = Cls (\<lambda>n. n \<in> set (map code s))"

abbreviation opt :: "re \<Rightarrow> re" where "opt r \<equiv> Alt r Eps"
abbreviation plus_re :: "re \<Rightarrow> re" where "plus_re r \<equiv> Seq r (Star r)"

definition any_but_newline :: re where "any_but_newline = Cls (\<lambda>n. n \<noteq> 10)"
definition space_re :: re where "space_re = Cls space_cp"
definition nonspace_re :: re where "nonspace_re = Cls (\<lambda>n. \<not> space_cp n)"

section \<open>Matching\<close>

type_synonym place = "nat option \<times> nat list"

definition at_word :: "(nat \<Rightarrow> bool) \<Rightarrow> nat option \<Rightarrow> bool" where
  "at_word w c \<longleftrightarrow> (case c of None \<Rightarrow> False | Some n \<Rightarrow> w n)"

definition next_cp :: "nat list \<Rightarrow> nat option" where
  "next_cp s = (case s of [] \<Rightarrow> None | n # _ \<Rightarrow> Some n)"

text \<open>Where a match that starts at a place may end, in the order backtracking tries them. A repetition stops
  when an iteration consumes nothing, as \<open>re\<close> does.\<close>

function ends :: "re \<Rightarrow> place \<Rightarrow> place list" where
  "ends Eps p = [p]"
| "ends (Cls f) p = (case snd p of [] \<Rightarrow> [] | n # ns \<Rightarrow> if f n then [(Some n, ns)] else [])"
| "ends (Seq r s) p = concat (map (ends s) (ends r p))"
| "ends (Alt r s) p = ends r p @ ends s p"
| "ends (Star r) p =
     concat (map (\<lambda>q. if length (snd q) < length (snd p) then ends (Star r) q else []) (ends r p)) @ [p]"
| "ends Bol p = (if fst p = None then [p] else [])"
| "ends Eol p = (if snd p = [] \<or> snd p = [10] then [p] else [])"
| "ends (Bnd w) p = (if at_word w (fst p) \<noteq> at_word w (next_cp (snd p)) then [p] else [])"
| "ends (NoAhead r) p = (if ends r p = [] then [p] else [])"
  by pat_completeness auto
termination
  by (relation "measures [\<lambda>(r, p). size r, \<lambda>(r, p). length (snd p)]") auto

fun places :: "nat option \<Rightarrow> nat list \<Rightarrow> place list" where
  "places c [] = [(c, [])]"
| "places c (n # ns) = (c, n # ns) # places (Some n) ns"

text \<open>\<open>re.search\<close> as a test, \<open>re.match\<close> as a test, and where the preferred match of \<open>re.match\<close> ends.\<close>

definition re_search :: "re \<Rightarrow> string \<Rightarrow> bool" where
  "re_search r s = list_ex (\<lambda>p. ends r p \<noteq> []) (places None (cps s))"

definition re_match :: "re \<Rightarrow> string \<Rightarrow> bool" where
  "re_match r s \<longleftrightarrow> ends r (None, cps s) \<noteq> []"

definition match_len :: "re \<Rightarrow> string \<Rightarrow> nat option" where
  "match_len r s = (case ends r (None, cps s) of [] \<Rightarrow> None | q # _ \<Rightarrow> Some (length (cps s) - length (snd q)))"

section \<open>The matcher finds exactly the matches\<close>

text \<open>The relation a pattern denotes between the place where it starts and the place where it ends.\<close>

primrec denotes :: "re \<Rightarrow> (place \<times> place) set" where
  "denotes Eps = Id"
| "denotes (Cls f) = {(p, q). \<exists>n. snd p = n # snd q \<and> fst q = Some n \<and> f n}"
| "denotes (Seq r s) = denotes r O denotes s"
| "denotes (Alt r s) = denotes r \<union> denotes s"
| "denotes (Star r) = (denotes r)\<^sup>*"
| "denotes Bol = {(p, q). q = p \<and> fst p = None}"
| "denotes Eol = {(p, q). q = p \<and> (snd p = [] \<or> snd p = [10])}"
| "denotes (Bnd w) = {(p, q). q = p \<and> at_word w (fst p) \<noteq> at_word w (next_cp (snd p))}"
| "denotes (NoAhead r) = {(p, q). q = p \<and> p \<notin> Domain (denotes r)}"

definition onward :: "(place \<times> place) set" where
  "onward = {(p, q). q = p \<or> length (snd q) < length (snd p)}"

lemma onward_trans: "(p, q) \<in> onward \<Longrightarrow> (q, r) \<in> onward \<Longrightarrow> (p, r) \<in> onward"
  by (auto simp: onward_def)

lemma onward_rtrancl: "(p, q) \<in> R\<^sup>* \<Longrightarrow> R \<subseteq> onward \<Longrightarrow> (p, q) \<in> onward"
  by (induction rule: rtrancl_induct) (auto simp: onward_def)

lemma denotes_onward: "denotes r \<subseteq> onward"
proof (induction r)
  case (Star r)
  then show ?case using onward_rtrancl [of _ _ "denotes r"] by (simp add: subrelI)
next
  case (Seq r s)
  then show ?case by (auto intro: onward_trans)
qed (auto simp: onward_def)

lemma star_progress:
  assumes "R \<subseteq> onward" "(p, q) \<in> R\<^sup>*" "p \<noteq> q"
  shows "\<exists>p'. (p, p') \<in> R \<and> length (snd p') < length (snd p) \<and> (p', q) \<in> R\<^sup>*"
  using assms(2,3)
proof (induction rule: converse_rtrancl_induct)
  case (step x y)
  show ?case
  proof (cases "y = x")
    case False
    then have "length (snd y) < length (snd x)" using step.hyps(1) assms(1) by (auto simp: onward_def)
    with step.hyps show ?thesis by blast
  qed (use step in simp)
qed simp

declare ends.simps(5) [simp del]

lemma ends_star_iff:
  "q \<in> set (ends (Star r) p) \<longleftrightarrow>
     q = p \<or> (\<exists>p'. p' \<in> set (ends r p) \<and> length (snd p') < length (snd p) \<and> q \<in> set (ends (Star r) p'))"
  by (subst ends.simps(5)) (auto split: if_splits)

lemma ends_star_set:
  assumes "\<And>p. set (ends r p) = denotes r `` {p}"
  shows "set (ends (Star r) p) = (denotes r)\<^sup>* `` {p}"
proof (induction "length (snd p)" arbitrary: p rule: less_induct)
  case less
  show ?case
  proof (intro equalityI subsetI)
    fix q assume "q \<in> set (ends (Star r) p)"
    then consider "q = p" | p' where "p' \<in> set (ends r p)" "length (snd p') < length (snd p)" "q \<in> set (ends (Star r) p')"
      using ends_star_iff [of q r p] by blast
    then show "q \<in> (denotes r)\<^sup>* `` {p}"
    proof cases
      case 2
      then have "(p, p') \<in> denotes r" "(p', q) \<in> (denotes r)\<^sup>*"
        using assms [of p] less [of p'] by auto
      then show ?thesis by (auto intro: converse_rtrancl_into_rtrancl)
    qed simp
  next
    fix q assume "q \<in> (denotes r)\<^sup>* `` {p}"
    then have q: "(p, q) \<in> (denotes r)\<^sup>*" by simp
    show "q \<in> set (ends (Star r) p)"
    proof (cases "p = q")
      case True
      then show ?thesis using ends_star_iff [of q r p] by simp
    next
      case False
      obtain p' where p': "(p, p') \<in> denotes r" "length (snd p') < length (snd p)" "(p', q) \<in> (denotes r)\<^sup>*"
        using star_progress [OF denotes_onward q False] by blast
      then have "q \<in> set (ends (Star r) p')" "p' \<in> set (ends r p)"
        using less [of p'] assms [of p] by auto
      with p'(2) ends_star_iff [of q r p] show ?thesis by blast
    qed
  qed
qed

lemma ends_denotes: "set (ends r p) = denotes r `` {p}"
proof (induction r arbitrary: p)
  case (Cls f)
  then show ?case by (cases p) (auto split: list.splits)
next
  case (Star r)
  then show ?case using ends_star_set [of r p] by simp
next
  case (NoAhead r)
  then have "ends r p = [] \<longleftrightarrow> p \<notin> Domain (denotes r)" by (auto simp flip: set_empty)
  then show ?case by auto
qed auto

lemma places_split: "p \<in> set (places c ns) \<longleftrightarrow> (\<exists>a b. ns = a @ b \<and> p = (if a = [] then c else Some (last a), b))"
proof (induction ns arbitrary: c)
  case (Cons n ns)
  show ?case (is "?l = ?r")
  proof
    assume ?l
    then consider "p = (c, n # ns)" | "p \<in> set (places (Some n) ns)" by auto
    then show ?r
    proof cases
      case 2
      then obtain a b where "ns = a @ b" "p = (if a = [] then Some n else Some (last a), b)" using Cons by blast
      then show ?thesis by (intro exI [of _ "n # a"] exI [of _ b]) simp
    qed auto
  next
    assume ?r
    then obtain a b where ab: "n # ns = a @ b" "p = (if a = [] then c else Some (last a), b)" by blast
    show ?l
    proof (cases a)
      case (Cons x a')
      then have "\<exists>a b. ns = a @ b \<and> p = (if a = [] then Some n else Some (last a), b)"
        using ab by (intro exI [of _ a'] exI [of _ b]) simp
      then show ?thesis using Cons.IH [of "Some n"] by simp
    next
      case Nil
      then have "p = (c, n # ns)" using ab by simp
      then show ?thesis by simp
    qed
  qed
qed auto

text \<open>A search succeeds exactly if the pattern relates some place of the subject to another.\<close>

theorem re_search_iff:
  "re_search r s \<longleftrightarrow> (\<exists>a b. cps s = a @ b \<and> (if a = [] then None else Some (last a), b) \<in> Domain (denotes r))"
proof -
  have e: "ends r p \<noteq> [] \<longleftrightarrow> p \<in> Domain (denotes r)" for p
    using ends_denotes [of r p] by (auto simp flip: set_empty)
  show ?thesis unfolding re_search_def list_ex_iff Bex_def places_split e by blast
qed

end
