(* ===== verification/ShellText.thy ===== *)
theory ShellText
  imports PyRegex
begin

text \<open>
  Reading a shell command line as text (\<open>reeflex-claude/reeflex_claude/classify.py\<close>, the helpers at its end): cutting it
  at the operators, tokenising it as \<open>shlex\<close> does, peeling subshell parentheses, and finding the bodies of
  command substitutions. Every scanner consumes its text from the left, with the quoting state as an argument;
  the characters they look at are ASCII, so they may walk bytes.
\<close>

section \<open>Blanks\<close>

definition blank_char :: "string \<Rightarrow> bool" where
  "blank_char w \<longleftrightarrow> space_cp (cp_of w)"

lemma blank_char_code [code]:
  "blank_char w = (case w of [c] \<Rightarrow> if high_byte c then space_cp (code c) else is_space_char c | _ \<Rightarrow> space_cp (cp_of w))"
  by (auto simp: blank_char_def high_byte_def space_cp_def is_space_char_def split: list.split)

definition lstrip :: "string \<Rightarrow> string" where
  "lstrip s = concat (dropWhile blank_char (chars_of s))"

definition rstrip :: "string \<Rightarrow> string" where
  "rstrip s = concat (rev (dropWhile blank_char (rev (chars_of s))))"

definition ustrip :: "string \<Rightarrow> string" where
  "ustrip s = rstrip (lstrip s)"

text \<open>\<open>s.split()\<close>.\<close>

fun group_words :: "string \<Rightarrow> string list \<Rightarrow> string list" where
  "group_words acc [] = (if acc = [] then [] else [acc])"
| "group_words acc (w # ws) =
     (if blank_char w then (if acc = [] then group_words [] ws else acc # group_words [] ws)
      else group_words (acc @ w) ws)"

definition usplit :: "string \<Rightarrow> string list" where
  "usplit s = group_words [] (chars_of s)"

text \<open>\<open>s[n:]\<close>.\<close>

definition drop_chars :: "nat \<Rightarrow> string \<Rightarrow> string" where
  "drop_chars n s = concat (drop n (chars_of s))"

section \<open>\<open>shlex.split\<close>\<close>

abbreviation sq :: char where "sq \<equiv> CHR 0x27"
abbreviation dq :: char where "dq \<equiv> CHR 0x22"
abbreviation bslash :: char where "bslash \<equiv> CHR 0x5C"
abbreviation newline_char :: char where "newline_char \<equiv> CHR 0x0A"

definition shlex_blank :: "char \<Rightarrow> bool" where
  "shlex_blank c \<longleftrightarrow> c \<in> set [CHR '' '', CHR 0x09, CHR 0x0D, CHR 0x0A]"

datatype lexer = Between | InWord | InQuote char | Escaped | EscapedInQuote

text \<open>The token so far, and whether a part of it was quoted. \<open>None\<close> is the \<open>ValueError\<close> of an open quote or a
  trailing backslash.\<close>

fun shlex_run :: "lexer \<Rightarrow> string \<Rightarrow> bool \<Rightarrow> string \<Rightarrow> string list option" where
  "shlex_run Between tok q [] = Some []"
| "shlex_run InWord tok q [] = Some (if tok \<noteq> [] \<or> q then [tok] else [])"
| "shlex_run (InQuote k) tok q [] = None"
| "shlex_run Escaped tok q [] = None"
| "shlex_run EscapedInQuote tok q [] = None"
| "shlex_run Between tok q (c # cs) =
     (if shlex_blank c then shlex_run Between [] False cs
      else if c = bslash then shlex_run Escaped [] False cs
      else if c = sq \<or> c = dq then shlex_run (InQuote c) [] False cs
      else shlex_run InWord [c] False cs)"
| "shlex_run InWord tok q (c # cs) =
     (if shlex_blank c
      then (if tok \<noteq> [] \<or> q then map_option (\<lambda>ts. tok # ts) (shlex_run Between [] False cs)
            else shlex_run Between [] False cs)
      else if c = sq \<or> c = dq then shlex_run (InQuote c) tok q cs
      else if c = bslash then shlex_run Escaped tok q cs
      else shlex_run InWord (tok @ [c]) q cs)"
| "shlex_run (InQuote k) tok q (c # cs) =
     (if c = k then shlex_run InWord tok True cs
      else if c = bslash \<and> k = dq then shlex_run EscapedInQuote tok True cs
      else shlex_run (InQuote k) (tok @ [c]) True cs)"
| "shlex_run Escaped tok q (c # cs) = shlex_run InWord (tok @ [c]) q cs"
| "shlex_run EscapedInQuote tok q (c # cs) =
     shlex_run (InQuote dq) (tok @ (if c \<noteq> bslash \<and> c \<noteq> dq then [bslash, c] else [c])) True cs"

definition safe_split :: "string \<Rightarrow> string list" where
  "safe_split s = (case shlex_run Between [] False s of Some ts \<Rightarrow> ts | None \<Rightarrow> usplit s)"

section \<open>Cutting at operators\<close>

text \<open>\<open>"".join(buf).rstrip()[-1:] == ">"\<close>.\<close>

definition after_gt :: "string \<Rightarrow> bool" where
  "after_gt buf \<longleftrightarrow> rstrip buf \<noteq> [] \<and> last (rstrip buf) = CHR ''>''"

text \<open>The loop: the open quote, the text of the part so far, the text ahead.\<close>

fun split_ops :: "char option \<Rightarrow> string \<Rightarrow> string \<Rightarrow> string list" where
  "split_ops q buf [] = [buf]"
| "split_ops (Some k) buf (c # cs) =
     (if c = bslash \<and> k = dq \<and> cs \<noteq> [] then split_ops (Some k) (buf @ [c, hd cs]) (tl cs)
      else split_ops (if c = k then None else Some k) (buf @ [c]) cs)"
| "split_ops None buf (c # cs) =
     (if c = sq \<or> c = dq then split_ops (Some c) (buf @ [c]) cs
      else if c = bslash \<and> cs \<noteq> [] then split_ops None (buf @ [c, hd cs]) (tl cs)
      else if (c = CHR ''&'' \<or> c = CHR ''|'') \<and> cs \<noteq> [] \<and> hd cs = c then buf # split_ops None [] (tl cs)
      else if c = CHR ''&''
      then (if after_gt buf \<or> (cs \<noteq> [] \<and> hd cs = CHR ''>'') then split_ops None (buf @ [c]) cs
            else buf # split_ops None [] cs)
      else if c = CHR '';'' \<or> c = CHR ''|'' \<or> c = newline_char
      then (if c = CHR ''|'' \<and> after_gt buf then split_ops None (buf @ [c]) cs
            else buf # split_ops None [] cs)
      else split_ops None (buf @ [c]) cs)"

definition split_on_operators :: "string \<Rightarrow> string list" where
  "split_on_operators command = filter (\<lambda>p. p \<noteq> []) (map ustrip (split_ops None [] command))"

section \<open>Parentheses\<close>

text \<open>The depth after each further byte.\<close>

fun paren_scan :: "char option \<Rightarrow> int \<Rightarrow> string \<Rightarrow> int list" where
  "paren_scan q d [] = []"
| "paren_scan (Some k) d (c # cs) =
     (if c = bslash \<and> k = dq \<and> cs \<noteq> [] then d # d # paren_scan (Some k) d (tl cs)
      else d # paren_scan (if c = k then None else Some k) d cs)"
| "paren_scan None d (c # cs) =
     (if c = sq \<or> c = dq then d # paren_scan (Some c) d cs
      else if c = bslash \<and> cs \<noteq> [] then d # d # paren_scan None d (tl cs)
      else if c = CHR ''('' then (d + 1) # paren_scan None (d + 1) cs
      else if c = CHR '')'' then (d - 1) # paren_scan None (d - 1) cs
      else d # paren_scan None d cs)"

definition paren_prefix_balance :: "string \<Rightarrow> int list" where
  "paren_prefix_balance s = 0 # paren_scan None 0 s"

definition paren_balance :: "string \<Rightarrow> int" where
  "paren_balance s = last (paren_prefix_balance s)"

definition window :: "string \<Rightarrow> nat \<Rightarrow> nat \<Rightarrow> string" where
  "window s lo hi = drop lo (take hi s)"

text \<open>One turn of the loop of \<open>_peel_group\<close>, left end then right end, over the one prefix scan.\<close>

definition peel_left :: "string \<Rightarrow> nat \<Rightarrow> nat \<Rightarrow> nat" where
  "peel_left s lo hi =
     (if lo < hi \<and> s ! lo = CHR ''('' \<and> \<not> (lo + 1 < hi \<and> s ! (lo + 1) = CHR ''('')
      then hi - length (lstrip (window s (lo + 1) hi)) else lo)"

lemma length_concat_chars: "concat (chars_of s) = s"
  by (induction s) (auto split: list.splits)

lemma chars_of_nonempty: "[] \<notin> set (chars_of s)"
  by (induction s) (auto split: list.splits)

lemma length_drop_concat: "length (concat (drop n ws)) \<le> length (concat ws)"
  by (metis append_take_drop_id concat_append le_add2 length_append)

lemma length_lstrip: "length (lstrip s) \<le> length s"
  by (metis lstrip_def dropWhile_eq_drop length_concat_chars length_drop_concat)

lemma rstrip_prefix: "\<exists>t. s = rstrip s @ t"
proof -
  have "s = concat (rev (dropWhile blank_char (rev (chars_of s)))) @ concat (rev (takeWhile blank_char (rev (chars_of s))))"
    by (metis concat_append length_concat_chars rev_append rev_rev_ident takeWhile_dropWhile_id)
  then show ?thesis unfolding rstrip_def by blast
qed

lemma length_rstrip: "length (rstrip s) \<le> length s"
  by (metis le_add1 length_append rstrip_prefix)

lemma length_window [simp]: "hi \<le> length s \<Longrightarrow> length (window s lo hi) = hi - lo"
  by (simp add: window_def)

function peel_right :: "int list \<Rightarrow> string \<Rightarrow> nat \<Rightarrow> nat \<Rightarrow> nat" where
  "peel_right p s lo hi =
     (if lo < hi \<and> hi \<le> length s \<and> s ! (hi - 1) = CHR '')'' \<and> p ! hi - p ! lo < 0
      then peel_right p s lo (lo + length (rstrip (window s lo (hi - 1)))) else hi)"
  by pat_completeness auto
termination
proof (relation "measure (\<lambda>(p, s, lo, hi). hi)", simp, goal_cases)
  case (1 p s lo hi)
  then have "length (rstrip (window s lo (hi - 1))) \<le> hi - 1 - lo"
    using length_rstrip [of "window s lo (hi - 1)"] length_window [of "hi - 1" s lo] by linarith
  with 1 show ?case by auto
qed

declare peel_right.simps [simp del]

lemma peel_right_le: "peel_right p s lo hi \<le> hi"
proof (induction p s lo hi rule: peel_right.induct)
  case (1 p s lo hi)
  show ?case
  proof (cases "lo < hi \<and> hi \<le> length s \<and> s ! (hi - 1) = CHR '')'' \<and> p ! hi - p ! lo < 0")
    case True
    then have "length (rstrip (window s lo (hi - 1))) \<le> hi - 1 - lo"
      using length_rstrip [of "window s lo (hi - 1)"] length_window [of "hi - 1" s lo] by linarith
    then have "lo + length (rstrip (window s lo (hi - 1))) \<le> hi" using True by linarith
    with 1 [OF True] True show ?thesis by (subst peel_right.simps) simp
  next
    case False
    then have "peel_right p s lo hi = hi" by (subst peel_right.simps) (simp only: if_False)
    then show ?thesis by simp
  qed
qed

lemma peel_right_ge: "lo \<le> hi \<Longrightarrow> lo \<le> peel_right p s lo hi"
proof (induction p s lo hi rule: peel_right.induct)
  case (1 p s lo hi)
  then show ?case by (subst peel_right.simps) simp
qed

lemma peel_left_ge: "hi \<le> length s \<Longrightarrow> lo \<le> hi \<Longrightarrow> lo \<le> peel_left s lo hi \<and> peel_left s lo hi \<le> hi
    \<and> (peel_left s lo hi = lo \<longleftrightarrow> \<not> (lo < hi \<and> s ! lo = CHR ''('' \<and> \<not> (lo + 1 < hi \<and> s ! (lo + 1) = CHR ''('')))"
  using length_lstrip [of "window s (lo + 1) hi"] by (auto simp: peel_left_def)

function peel_window :: "int list \<Rightarrow> string \<Rightarrow> nat \<Rightarrow> nat \<Rightarrow> string" where
  "peel_window p s lo hi =
     (if \<not> (lo \<le> hi \<and> hi \<le> length s) then window s lo hi
      else let lo' = peel_left s lo hi; hi' = peel_right p s lo' hi
           in if lo' = lo \<and> hi' = hi then window s lo hi else peel_window p s lo' hi')"
  by pat_completeness auto
termination
proof (relation "measure (\<lambda>(p, s, lo, hi). hi - lo)", simp, goal_cases)
  case (1 p s lo hi x xa)
  then show ?case
    using peel_left_ge [of hi s lo] peel_right_le [of p s x hi] peel_right_ge [of x hi p s] by auto
qed

declare peel_window.simps [simp del]

definition peel_group :: "string \<Rightarrow> string" where
  "peel_group segment =
     (let s = ustrip segment
      in if CHR ''('' \<notin> set s \<and> CHR '')'' \<notin> set s then s
         else peel_window (paren_prefix_balance s) s 0 (length s))"

section \<open>A group behind prefix words\<close>

definition shell_keywords :: "string list" where
  "shell_keywords = [''do'', ''then'', ''else'', ''elif'', ''done'', ''fi'', ''!'', ''{'', ''}'',
     ''if'', ''while'', ''until'', ''for'', ''select'', ''case'', ''esac'', ''in'']"

definition wrapper_commands :: "string list" where
  "wrapper_commands = [''sudo'', ''doas'', ''env'', ''nohup'', ''nice'', ''ionice'', ''time'', ''timeout'',
     ''stdbuf'', ''setsid'', ''command'', ''exec'', ''unbuffer'']"

text \<open>\<open>_PREFIX_WORDS\<close>.\<close>

definition prefix_words :: "string list" where
  "prefix_words = shell_keywords @ wrapper_commands"

text \<open>\<open>os.path.basename(token).lower()\<close>.\<close>

definition command_word :: "library \<Rightarrow> string \<Rightarrow> string" where
  "command_word lb token = lower lb (after_last CHR ''/'' token)"

definition starts_group :: "string \<Rightarrow> bool" where
  "starts_group s \<longleftrightarrow> prefix [CHR ''(''] s"

lemma length_ustrip: "length (ustrip s) \<le> length s"
  by (metis ustrip_def length_lstrip length_rstrip order_trans)

lemma length_after_first: "c \<in> set s \<Longrightarrow> length (after_first c s) < length s"
proof -
  assume "c \<in> set s"
  then have "s \<noteq> []" by auto
  have "length (after_first c s) \<le> length s - 1"
    using length_dropWhile_le [of "\<lambda>x. x \<noteq> c" s] by (simp add: after_first_def)
  also have "\<dots> < length s" using \<open>s \<noteq> []\<close> by simp
  finally show ?thesis .
qed

text \<open>The inner loop: the text from the group on, if there is one behind prefix words.\<close>

function reach_group :: "library \<Rightarrow> string \<Rightarrow> string option" where
  "reach_group lb rest =
     (if CHR '' '' \<in> set rest \<and> command_word lb (before_first CHR '' '' rest) \<in> set prefix_words
      then let rest' = lstrip (after_first CHR '' '' rest)
           in if starts_group rest' then Some rest' else reach_group lb rest'
      else None)"
  by pat_completeness auto
termination
  by (relation "measure (\<lambda>(lb, rest). length rest)")
    (auto intro: le_less_trans [OF length_lstrip length_after_first])

declare reach_group.simps [simp del]

lemma reach_group_shorter: "reach_group lb rest = Some r \<Longrightarrow> length r < length rest"
proof (induction lb rest rule: reach_group.induct)
  case (1 lb rest)
  let ?r = "lstrip (after_first CHR '' '' rest)"
  from 1(2) have c: "CHR '' '' \<in> set rest \<and> command_word lb (before_first CHR '' '' rest) \<in> set prefix_words"
    by (subst (asm) reach_group.simps) (simp split: if_splits)
  then have l: "length ?r < length rest" by (metis le_less_trans length_lstrip length_after_first)
  show ?case
  proof (cases "starts_group ?r")
    case True
    then show ?thesis using 1(2) c l by (subst (asm) reach_group.simps) (simp add: Let_def)
  next
    case False
    then have "reach_group lb ?r = Some r" using 1(2) c by (subst (asm) reach_group.simps) (simp add: Let_def)
    then show ?thesis using 1(1) [OF c refl False] l by simp
  qed
qed

lemma length_peel_window: "hi \<le> length s \<Longrightarrow> length (peel_window p s lo hi) \<le> length s"
proof (induction p s lo hi rule: peel_window.induct)
  case (1 p s lo hi)
  show ?case
  proof (cases "lo \<le> hi \<and> \<not> (peel_left s lo hi = lo \<and> peel_right p s (peel_left s lo hi) hi = hi)")
    case False
    then have "peel_window p s lo hi = window s lo hi"
      using 1(2) by (subst peel_window.simps) (auto simp: Let_def)
    then show ?thesis using 1(2) by (simp add: window_def)
  next
    case True
    then have "peel_window p s lo hi = peel_window p s (peel_left s lo hi) (peel_right p s (peel_left s lo hi) hi)"
      using 1(2) by (subst peel_window.simps) (auto simp: Let_def)
    moreover have "peel_right p s (peel_left s lo hi) hi \<le> length s"
      using peel_right_le 1(2) le_trans by blast
    ultimately show ?thesis using 1(1) [OF _ refl refl] 1(2) True by simp
  qed
qed

lemma length_peel_group: "length (peel_group s) \<le> length s"
proof -
  have "length (peel_group s) \<le> length (ustrip s)"
    using length_peel_window [of "length (ustrip s)" "ustrip s"] by (simp add: peel_group_def Let_def)
  then show ?thesis using length_ustrip order_trans by blast
qed

function peel_turns :: "library \<Rightarrow> string \<Rightarrow> string" where
  "peel_turns lb s =
     (case reach_group lb s of
        None \<Rightarrow> s
      | Some rest \<Rightarrow> if peel_group rest = rest then s else peel_turns lb (peel_group rest))"
  by pat_completeness auto
termination
  by (relation "measure (\<lambda>(lb, s). length s)")
    (auto intro: le_less_trans [OF length_peel_group reach_group_shorter])

declare peel_turns.simps [simp del]

definition peel_prefixed_group :: "library \<Rightarrow> string \<Rightarrow> string" where
  "peel_prefixed_group lb segment = peel_turns lb (peel_group segment)"

section \<open>Substitution bodies\<close>

fun unescape :: "string \<Rightarrow> string \<Rightarrow> string" where
  "unescape specials (a # b # cs) =
     (if a = bslash \<and> b \<in> set specials then b # unescape specials cs else a # unescape specials (b # cs))"
| "unescape specials cs = cs"

text \<open>Up to the parenthesis that closes the one already open; the body and what follows it. The arguments are the
  open quote and the depth.\<close>

fun balanced_paren :: "char option \<Rightarrow> nat \<Rightarrow> string \<Rightarrow> string \<times> string" where
  "balanced_paren q d [] = ([], [])"
| "balanced_paren (Some k) d (c # cs) =
     (if c = bslash \<and> k = dq \<and> cs \<noteq> []
      then apfst (\<lambda>b. c # hd cs # b) (balanced_paren (Some k) d (tl cs))
      else apfst (\<lambda>b. c # b) (balanced_paren (if c = k then None else Some k) d cs))"
| "balanced_paren None d (c # cs) =
     (if c = sq \<or> c = dq then apfst (\<lambda>b. c # b) (balanced_paren (Some c) d cs)
      else if c = bslash \<and> cs \<noteq> [] then apfst (\<lambda>b. c # hd cs # b) (balanced_paren None d (tl cs))
      else if c = CHR ''('' then apfst (\<lambda>b. c # b) (balanced_paren None (d + 1) cs)
      else if c = CHR '')'' \<and> d = 1 then ([], cs)
      else apfst (\<lambda>b. c # b) (balanced_paren None (if c = CHR '')'' then d - 1 else d) cs))"

fun to_backtick :: "string \<Rightarrow> string \<times> string" where
  "to_backtick [] = ([], [])"
| "to_backtick (c # cs) =
     (if c = bslash \<and> cs \<noteq> [] then apfst (\<lambda>b. c # hd cs # b) (to_backtick (tl cs))
      else if c = CHR 0x60 then ([], cs)
      else apfst (\<lambda>b. c # b) (to_backtick cs))"

text \<open>What follows the first \<open>))\<close>.\<close>

fun after_close2 :: "string \<Rightarrow> string option" where
  "after_close2 (a # b # cs) = (if a = CHR '')'' \<and> b = CHR '')'' then Some cs else after_close2 (b # cs))"
| "after_close2 _ = None"

lemma balanced_paren_shorter: "length (snd (balanced_paren q d s)) \<le> length s"
  by (induction q d s rule: balanced_paren.induct) (auto intro: le_SucI)

lemma to_backtick_shorter: "length (snd (to_backtick s)) \<le> length s"
  by (induction s rule: to_backtick.induct) (auto intro: le_SucI)

lemma after_close2_shorter: "after_close2 s = Some r \<Longrightarrow> length r < length s"
  by (induction s rule: after_close2.induct) (auto split: if_splits)

lemma balanced_paren_snd: "(b, r) = balanced_paren q d (tl cs) \<Longrightarrow> length r < Suc (length cs)"
  using balanced_paren_shorter [of q d "tl cs"] by (cases cs) (auto dest: sym simp: less_Suc_eq_le)

lemma to_backtick_snd: "(b, r) = to_backtick cs \<Longrightarrow> length r < Suc (length cs)"
  using to_backtick_shorter [of cs] by (auto dest: sym simp: less_Suc_eq_le)

lemma after_close2_next:
  "length (case after_close2 (drop 2 cs) of None \<Rightarrow> drop 2 cs | Some r \<Rightarrow> r) < Suc (length cs)"
  using after_close2_shorter [of "drop 2 cs"] by (auto split: option.splits)

text \<open>The scan of \<open>_substitution_bodies\<close>, before the bodies are stripped.\<close>

function body_texts :: "char option \<Rightarrow> string \<Rightarrow> string list" where
  "body_texts q [] = []"
| "body_texts q (c # cs) =
     (if q = Some sq then body_texts (if c = sq then None else q) cs
      else if c = bslash \<and> cs \<noteq> [] then body_texts q (tl cs)
      else if c = sq \<and> q = None then body_texts (Some sq) cs
      else if c = dq then body_texts (if q = Some dq then None else Some dq) cs
      else if prefix ''$(('' (c # cs)
      then body_texts q (case after_close2 (drop 2 cs) of Some r \<Rightarrow> r | None \<Rightarrow> drop 2 cs)
      else if prefix ''$('' (c # cs)
      then (case balanced_paren None 1 (tl cs) of (b, r) \<Rightarrow> b # body_texts q r)
      else if c = CHR 0x60
      then (case to_backtick cs of (b, r) \<Rightarrow> unescape [CHR ''$'', CHR 0x60, bslash] b # body_texts q r)
      else if q = None \<and> (prefix ''<('' (c # cs) \<or> prefix ''>('' (c # cs))
      then (case balanced_paren None 1 (tl cs) of (b, r) \<Rightarrow> b # body_texts q r)
      else body_texts q cs)"
  by pat_completeness auto
termination
proof (relation "measure (\<lambda>(q, s). length s)",
    simp_all add: after_close2_next balanced_paren_snd to_backtick_snd)
qed

definition substitution_bodies :: "string \<Rightarrow> string list" where
  "substitution_bodies segment = filter (\<lambda>b. b \<noteq> []) (map ustrip (body_texts None segment))"

section \<open>\<open>sh -c\<close>\<close>

definition ascii_alpha :: "string \<Rightarrow> bool" where
  "ascii_alpha w \<longleftrightarrow> list_all (\<lambda>c. is_lower_char c \<or> is_upper_char c) w"

text \<open>How the payload of \<open>-c\<close> was quoted. The arguments are the open quote, whether the character before was
  white space (or there was none), and the characters ahead.\<close>

function payload_quote :: "char option \<Rightarrow> bool \<Rightarrow> string list \<Rightarrow> char option" where
  "payload_quote q sp [] = None"
| "payload_quote (Some k) sp (w # ws) =
     (if w = [bslash] \<and> k = dq \<and> ws \<noteq> [] then payload_quote (Some k) (blank_char (hd ws)) (tl ws)
      else payload_quote (if w = [k] then None else Some k) (blank_char w) ws)"
| "payload_quote None sp (w # ws) =
     (if w = [sq] \<or> w = [dq] then payload_quote (Some (hd w)) False ws
      else if w = [CHR ''-''] \<and> sp
      then let run = takeWhile ascii_alpha ws; after = dropWhile ascii_alpha ws
           in if concat run \<in> {''c'', ''lc'', ''ic''} \<and> after \<noteq> [] \<and> blank_char (hd after)
              then (case dropWhile blank_char after of
                      [] \<Rightarrow> None
                    | v # _ \<Rightarrow> if v = [sq] \<or> v = [dq] then Some (hd v) else None)
              else payload_quote None False after
      else payload_quote None (blank_char w) ws)"
  by pat_completeness auto
termination
  by (relation "measure (\<lambda>(q, sp, ws). length ws)") (auto simp: le_imp_less_Suc length_dropWhile_le)

definition c_payload_quote :: "string \<Rightarrow> char option" where
  "c_payload_quote segment = payload_quote None True (chars_of segment)"

definition shell_commands :: "string list" where
  "shell_commands = [''sh'', ''bash'', ''zsh'', ''dash'', ''ksh'', ''ash'', ''busybox'']"

fun after_dash_c :: "string list \<Rightarrow> string option" where
  "after_dash_c (t # ts) =
     (if t \<in> {''-c'', ''-lc'', ''-ic''} \<and> ts \<noteq> [] then Some (join_with '' '' ts) else after_dash_c ts)"
| "after_dash_c [] = None"

text \<open>The program text, if it is visible.\<close>

definition shell_c_payload :: "library \<Rightarrow> string list \<Rightarrow> string option" where
  "shell_c_payload lb tokens =
     (case tokens of
        [] \<Rightarrow> None
      | t # ts \<Rightarrow>
          if command_word lb t = ''eval''
          then (case filter (\<lambda>a. \<not> prefix ''-'' a) ts of [] \<Rightarrow> None | p # _ \<Rightarrow> Some p)
          else if command_word lb t \<notin> set shell_commands then None
          else after_dash_c ts)"

end
