(* ===== verification/ShellWalk.thy ===== *)
theory ShellWalk
  imports ShellText
begin

text \<open>
  What a command line runs (\<open>classify._peel_wrappers\<close>, \<open>_WalkBudget\<close>, \<open>_shell_segments\<close>): the prefixes a shell takes
  off a command, and the walk that expands \<open>sh -c\<close> and command substitutions into the commands inside them,
  within a budget of segments, characters and depth that says whether the line was read to its end.
\<close>

section \<open>Prefixes\<close>

definition re_digit :: "library \<Rightarrow> re" where
  "re_digit lb = Cls (\<lambda>n. if n < 128 then digit_cp n else lb_digit lb n)"

definition letter_cp :: "nat \<Rightarrow> bool" where "letter_cp n \<longleftrightarrow> upper_cp n \<or> lower_cp n"

definition env_assign_re :: re where
  "env_assign_re = seqs [Bol, Cls (\<lambda>n. letter_cp n \<or> n = 95),
     Star (Cls (\<lambda>n. letter_cp n \<or> digit_cp n \<or> n = 95)), lit ''='']"

definition redirection_re :: "library \<Rightarrow> re" where
  "redirection_re lb = seqs [Bol, opt (Alt (plus_re (re_digit lb)) (lit ''&'')),
     alts [lit ''>>'', lit ''>|'', lit ''>&'', lit ''<<<'', lit ''<<'', lit ''<&'', lit ''>'', lit ''<'']]"

definition unbounded_wrappers :: "string list" where
  "unbounded_wrappers = [''xargs'', ''parallel'']"

definition discard_sinks :: "string list" where
  "discard_sinks = [''/dev/null'', ''/dev/zero'', ''/dev/stdout'', ''/dev/stderr'', ''/dev/tty'', ''/dev/console'']"

text \<open>The operator is the first \<open>n\<close> characters of the token.\<close>

definition truncates :: "string \<Rightarrow> nat \<Rightarrow> bool" where
  "truncates token n \<longleftrightarrow>
     dropWhile (\<lambda>c. is_digit_char c \<or> c = CHR ''&'') (take_chars n token) \<in> {''>'', ''>|''}"

definition is_discard_sink :: "string \<Rightarrow> bool" where
  "is_discard_sink target \<longleftrightarrow> target \<in> set discard_sinks \<or> prefix ''/dev/fd/'' target"

text \<open>\<open>s.isdigit()\<close>, and \<open>s.replace(".", "", 1)\<close>.\<close>

definition is_digits :: "library \<Rightarrow> string \<Rightarrow> bool" where
  "is_digits lb s \<longleftrightarrow> s \<noteq> [] \<and> (if is_ascii s then list_all is_digit_char s else lb_digits lb s)"

definition drop_first :: "char \<Rightarrow> string \<Rightarrow> string" where
  "drop_first c s = before_first c s @ after_first c s"

definition xargs_value_flags :: "string list" where
  "xargs_value_flags = [''-n'', ''-P'', ''-I'', ''-d'', ''-L'', ''-s'', ''-a'', ''-E'']"

definition wrapper_value_flags :: "string list" where
  "wrapper_value_flags = [''-u'', ''-g'', ''-U'', ''--user'', ''--group'', ''-n'', ''-i'']"

text \<open>The wrapper's own flags: words that look like one, and the value of the flags that take one.\<close>

fun skip_flags :: "(string \<Rightarrow> bool) \<Rightarrow> string list \<Rightarrow> string list \<Rightarrow> string list" where
  "skip_flags P vals [] = []"
| "skip_flags P vals (t # ts) =
     (if P t then (if t \<in> set vals then skip_flags P vals (tl ts) else skip_flags P vals ts) else t # ts)"

definition wrapper_word :: "library \<Rightarrow> string \<Rightarrow> bool" where
  "wrapper_word lb t \<longleftrightarrow> prefix ''-'' t \<or> CHR ''='' \<in> set t \<or> is_digits lb (drop_first CHR ''.'' t)"

lemma length_skip_flags: "length (skip_flags P vals ts) \<le> length ts"
  by (induction P vals ts rule: skip_flags.induct) auto

text \<open>The words left, whether a wrapper feeds them arguments from its input, and the files a peeled redirection
  emptied.\<close>

function peel_words :: "library \<Rightarrow> bool \<Rightarrow> string list \<Rightarrow> string list \<Rightarrow> string list \<times> bool \<times> string list" where
  "peel_words lb unb trunc [] = ([], unb, trunc)"
| "peel_words lb unb trunc (t # ts) =
     (if command_word lb t \<in> set shell_keywords then peel_words lb unb trunc ts
      else if re_match env_assign_re t then peel_words lb unb trunc ts
      else case match_len (redirection_re lb) t of
        Some n \<Rightarrow>
          (let bare = (drop_chars n t = [] \<and> ts \<noteq> []);
               target = (if bare then hd ts else drop_chars n t);
               rest = (if bare then tl ts else ts)
           in if rest = [] then (t # ts, unb, trunc)
              else peel_words lb unb
                (if truncates t n \<and> \<not> is_discard_sink target then trunc @ [target] else trunc) rest)
      | None \<Rightarrow>
          if command_word lb t \<in> set unbounded_wrappers
          then peel_words lb True trunc (skip_flags (prefix ''-'') xargs_value_flags ts)
          else if command_word lb t \<in> set wrapper_commands
          then peel_words lb unb trunc (skip_flags (wrapper_word lb) wrapper_value_flags ts)
          else (t # ts, unb, trunc))"
  by pat_completeness auto
termination
  by (relation "measure (\<lambda>(lb, unb, trunc, ts). length ts)")
    (auto simp: le_imp_less_Suc length_skip_flags)

definition peel_wrappers :: "library \<Rightarrow> string list \<Rightarrow> string list \<times> bool \<times> string list" where
  "peel_wrappers lb tokens = peel_words lb False [] tokens"

section \<open>The budget\<close>

record walk_budget =
  wb_segments :: int
  wb_chars :: int
  wb_exhausted :: bool

definition walk_max_segments :: int where "walk_max_segments = 16384"
definition walk_max_chars :: int where "walk_max_chars = 262144"
definition walk_max_depth :: nat where "walk_max_depth = 64"

definition fresh_budget :: walk_budget where
  "fresh_budget = \<lparr>wb_segments = walk_max_segments, wb_chars = walk_max_chars, wb_exhausted = False\<rparr>"

definition charge :: "walk_budget \<Rightarrow> string \<Rightarrow> bool \<times> walk_budget" where
  "charge b segment =
     (let b' = b\<lparr>wb_segments := wb_segments b - 1, wb_chars := wb_chars b - int (num_chars segment)\<rparr>
      in if wb_segments b' < 0 \<or> wb_chars b' < 0 then (False, b'\<lparr>wb_exhausted := True\<rparr>) else (True, b'))"

section \<open>The walk\<close>

text \<open>The program text of a \<open>sh -c\<close>, as the inner shell will read it.\<close>

definition inner_program :: "library \<Rightarrow> string \<Rightarrow> string option" where
  "inner_program lb segment =
     (case shell_c_payload lb (fst (peel_wrappers lb (safe_split segment))) of
        None \<Rightarrow> None
      | Some inner \<Rightarrow>
          if inner = [] then None
          else if c_payload_quote segment = Some sq then Some inner
          else Some (unescape [CHR ''$'', CHR 0x60, dq, bslash] inner))"

type_synonym walker = "string \<Rightarrow> walk_budget \<Rightarrow> string list \<times> walk_budget"

fun walk_each :: "walker \<Rightarrow> string list \<Rightarrow> walk_budget \<Rightarrow> string list \<times> walk_budget" where
  "walk_each w [] b = ([], b)"
| "walk_each w (c # cs) b = (let (out, b1) = w c b; (more, b2) = walk_each w cs b1 in (out @ more, b2))"

text \<open>What the segment itself contributes: its program's commands in its place.\<close>

definition own_commands :: "library \<Rightarrow> walker \<Rightarrow> string \<Rightarrow> walk_budget \<Rightarrow> string list \<times> walk_budget" where
  "own_commands lb w segment b =
     (case inner_program lb segment of
        None \<Rightarrow> ([segment], b)
      | Some p \<Rightarrow> (let (ex, b') = w p b in (if ex = [] then [segment] else ex, b')))"

text \<open>The loop over the segments of a line. The walker for the texts one level down is missing at the deepest
  level: what is nested there is not read, and the budget says so.\<close>

fun walk_segments :: "library \<Rightarrow> walker option \<Rightarrow> string list \<Rightarrow> walk_budget \<Rightarrow> string list \<times> walk_budget" where
  "walk_segments lb deeper [] b = ([], b)"
| "walk_segments lb deeper (s # ss) b =
     (let segment = peel_prefixed_group lb s in
      if segment = [] then walk_segments lb deeper ss b
      else case charge b segment of
        (False, b1) \<Rightarrow> ([], b1)
      | (True, b1) \<Rightarrow>
          (let inner = inner_program lb segment; bodies = substitution_bodies segment in
           case deeper of
             None \<Rightarrow>
               (let b2 = (if inner \<noteq> None \<or> bodies \<noteq> [] then b1\<lparr>wb_exhausted := True\<rparr> else b1);
                    (out, b3) = walk_segments lb deeper ss b2
                in (segment # out, b3))
           | Some w \<Rightarrow>
               (let (own, b2) = own_commands lb w segment b1;
                    (more, b3) = walk_each w bodies b2;
                    (out, b4) = walk_segments lb deeper ss b3
                in (own @ more @ out, b4))))"

definition walk_line :: "library \<Rightarrow> walker option \<Rightarrow> walker" where
  "walk_line lb deeper command b =
     (if ustrip command = [] then ([], b) else walk_segments lb deeper (split_on_operators command) b)"

text \<open>The number counts the levels left below this one.\<close>

primrec walk_down :: "library \<Rightarrow> nat \<Rightarrow> walker" where
  "walk_down lb 0 = walk_line lb None"
| "walk_down lb (Suc n) = walk_line lb (Some (walk_down lb n))"

definition shell_segments :: "library \<Rightarrow> string \<Rightarrow> string list \<times> walk_budget" where
  "shell_segments lb command = walk_down lb walk_max_depth command fresh_budget"

end
