(* ===== verification/ShellFlags.thy ===== *)
theory ShellFlags
  imports ShellWalk
begin

text \<open>
  The flags of a command as its own argument parser reads them (\<open>classify.py\<close>): abbreviated long options resolved
  against the command's own option table, short flags inside bundles, the flags of \<open>git\<close> and of \<open>rm\<close>.
\<close>

section \<open>Long options\<close>

definition long_options :: "(string \<times> string list) list" where
  "long_options = [
     (''sort'', [''--batch-size'', ''--buffer-size'', ''--check'', ''--compress-program'', ''--debug'',
         ''--dictionary-order'', ''--field-separator'', ''--files0-from'', ''--general-numeric-sort'',
         ''--help'', ''--human-numeric-sort'', ''--ignore-case'', ''--ignore-leading-blanks'',
         ''--ignore-nonprinting'', ''--key'', ''--merge'', ''--month-sort'', ''--numeric-sort'', ''--output'',
         ''--parallel'', ''--random-sort'', ''--random-source'', ''--reverse'', ''--sort'', ''--stable'',
         ''--temporary-directory'', ''--unique'', ''--version'', ''--version-sort'', ''--zero-terminated'']),
     (''tee'', [''--append'', ''--help'', ''--ignore-interrupts'', ''--output-error'', ''--version'']),
     (''cp'', [''--archive'', ''--attributes-only'', ''--backup'', ''--context'', ''--copy-contents'',
         ''--dereference'', ''--force'', ''--help'', ''--interactive'', ''--link'', ''--no-clobber'',
         ''--no-dereference'', ''--no-preserve'', ''--no-target-directory'', ''--one-file-system'',
         ''--parents'', ''--preserve'', ''--reflink'', ''--remove-destination'', ''--sparse'',
         ''--strip-trailing-slashes'', ''--suffix'', ''--symbolic-link'', ''--target-directory'', ''--update'',
         ''--verbose'', ''--version'']),
     (''mv'', [''--backup'', ''--context'', ''--force'', ''--help'', ''--interactive'', ''--no-clobber'',
         ''--no-target-directory'', ''--strip-trailing-slashes'', ''--suffix'', ''--target-directory'',
         ''--update'', ''--verbose'', ''--version'']),
     (''install'', [''--backup'', ''--compare'', ''--context'', ''--directory'', ''--group'', ''--help'', ''--mode'',
         ''--no-target-directory'', ''--owner'', ''--preserve-context'', ''--preserve-timestamps'',
         ''--strip'', ''--strip-program'', ''--suffix'', ''--target-directory'', ''--verbose'', ''--version'']),
     (''truncate'', [''--help'', ''--io-blocks'', ''--no-create'', ''--reference'', ''--size'', ''--version'']),
     (''git push'', [''--all'', ''--atomic'', ''--branches'', ''--delete'', ''--dry-run'', ''--exec'', ''--follow-tags'',
         ''--force'', ''--force-if-includes'', ''--force-with-lease'', ''--ipv4'', ''--ipv6'', ''--mirror'',
         ''--no-verify'', ''--porcelain'', ''--progress'', ''--prune'', ''--push-option'', ''--quiet'',
         ''--receive-pack'', ''--recurse-submodules'', ''--repo'', ''--set-upstream'', ''--signed'',
         ''--tags'', ''--thin'', ''--verbose'', ''--verify'']),
     (''git clean'', [''--dry-run'', ''--exclude'', ''--force'', ''--interactive'', ''--quiet'']),
     (''git branch'', [''--abbrev'', ''--all'', ''--color'', ''--column'', ''--contains'', ''--copy'', ''--create-reflog'',
         ''--delete'', ''--edit-description'', ''--force'', ''--format'', ''--ignore-case'', ''--list'',
         ''--merged'', ''--move'', ''--no-contains'', ''--no-merged'', ''--omit-empty'', ''--points-at'',
         ''--quiet'', ''--recurse-submodules'', ''--remotes'', ''--set-upstream-to'', ''--show-current'',
         ''--sort'', ''--track'', ''--unset-upstream'', ''--verbose''])]"

text \<open>\<open>token.split("=", 1)[0]\<close>.\<close>

definition flag_name :: "string \<Rightarrow> string" where
  "flag_name token = before_first CHR ''='' token"

definition resolve_long_flag :: "string \<Rightarrow> string \<Rightarrow> string option" where
  "resolve_long_flag key token =
     (case map_of long_options key of
        None \<Rightarrow> None
      | Some options \<Rightarrow>
          if \<not> prefix ''--'' token \<or> token = ''--'' then None
          else if flag_name token \<in> set options then Some (flag_name token)
          else (case filter (prefix (flag_name token)) options of [opt1] \<Rightarrow> Some opt1 | _ \<Rightarrow> None))"

fun canonical_args :: "string \<Rightarrow> bool \<Rightarrow> string list \<Rightarrow> string list" where
  "canonical_args key ended [] = []"
| "canonical_args key ended (a # as) =
     (if ended \<or> \<not> prefix ''--'' a then a # canonical_args key ended as
      else if a = ''--'' then a # canonical_args key True as
      else (case resolve_long_flag key (flag_name a) of
              Some full \<Rightarrow> full @ drop (length (flag_name a)) a
            | None \<Rightarrow> a) # canonical_args key ended as)"

definition canonical_long_flags :: "string \<Rightarrow> string list \<Rightarrow> string list" where
  "canonical_long_flags key args =
     (if map_of long_options key = None then args else canonical_args key False args)"

section \<open>Short flags\<close>

definition short_bundle_has :: "string \<Rightarrow> char \<Rightarrow> bool" where
  "short_bundle_has arg letter \<longleftrightarrow> prefix ''-'' arg \<and> \<not> prefix ''--'' arg \<and> letter \<in> set (drop 1 arg)"

text \<open>Positional arguments: flags and the values they consume are dropped.\<close>

definition takes_next :: "string list \<Rightarrow> string \<Rightarrow> string \<Rightarrow> bool" where
  "takes_next value_flags value_letters a \<longleftrightarrow>
     a \<in> set value_flags
     \<or> (value_letters \<noteq> [] \<and> \<not> prefix ''--'' a \<and> 1 < length a
        \<and> length (dropWhile (\<lambda>c. c \<notin> set value_letters) (drop 1 a)) = 1)"

fun positional_args :: "string list \<Rightarrow> string \<Rightarrow> string list \<Rightarrow> string list" where
  "positional_args value_flags value_letters [] = []"
| "positional_args value_flags value_letters (a # as) =
     (if prefix ''-'' a
      then positional_args value_flags value_letters (if takes_next value_flags value_letters a then tl as else as)
      else a # positional_args value_flags value_letters as)"

text \<open>\<open>_first_positional\<close> is the last one.\<close>

definition first_positional :: "string list \<Rightarrow> string option" where
  "first_positional args =
     (let ps = filter (\<lambda>a. \<not> prefix ''-'' a) args in if ps = [] then None else Some (last ps))"

text \<open>\<open>args[i + 1] if i + 1 < len(args) else None\<close>.\<close>

definition next_arg :: "string list \<Rightarrow> string option" where
  "next_arg rest = (case rest of [] \<Rightarrow> None | a # _ \<Rightarrow> Some a)"

text \<open>The value of a one-letter flag or of its long spelling.\<close>

fun flag_value :: "char \<Rightarrow> string \<Rightarrow> string list \<Rightarrow> string option" where
  "flag_value letter long [] = None"
| "flag_value letter long (a # as) =
     (if a = [CHR ''-'', letter] \<or> a = long then next_arg as
      else if prefix (long @ ''='') a then Some (after_first CHR ''='' a)
      else if prefix ''--'' a \<or> \<not> prefix ''-'' a then flag_value letter long as
      else if letter \<notin> set (drop 1 a) then flag_value letter long as
      else let rest = after_first letter (drop 1 a)
           in if rest \<noteq> [] then Some rest else next_arg as)"

section \<open>\<open>git\<close>\<close>

definition git_branch_mutate_flags :: "string list" where
  "git_branch_mutate_flags = [''-d'', ''--delete'', ''-D'', ''-m'', ''--move'', ''-M'', ''-c'', ''--copy'', ''-C'',
     ''--set-upstream-to'', ''-u'', ''--unset-upstream'', ''--edit-description'']"

definition git_branch_force_flags :: "string list" where
  "git_branch_force_flags = [''-D'', ''-M'', ''-C'', ''-f'', ''--force'']"

definition git_push_force_long :: "string list" where
  "git_push_force_long = [''--force'', ''--force-with-lease'', ''--mirror'', ''--delete'', ''--prune'']"

definition git_global_value_opts :: "string list" where
  "git_global_value_opts = [''-C'', ''-c'', ''--git-dir'', ''--work-tree'', ''--namespace'', ''--exec-path'', ''--super-prefix'',
     ''--config-env'']"

definition git_false_values :: "string list" where
  "git_false_values = [''false'', ''0'', ''no'', ''off'', '''']"

fun git_output_target :: "string list \<Rightarrow> string option" where
  "git_output_target [] = None"
| "git_output_target (a # as) =
     (if a = ''--output'' then next_arg as
      else if prefix ''--output='' a then Some (after_first CHR ''='' a)
      else git_output_target as)"

definition git_branch_flags :: "string list \<Rightarrow> bool \<times> bool" where
  "git_branch_flags branch_args =
     (let names = map flag_name (canonical_long_flags ''git branch'' branch_args);
          mutates = list_ex (\<lambda>n. n \<in> set git_branch_mutate_flags) names
      in (mutates,
          list_ex (\<lambda>n. n \<in> set git_branch_force_flags) names
          \<or> (mutates \<and> list_ex (\<lambda>n. n = ''-f'' \<or> n = ''--force'') names)))"

definition shell_words :: "library \<Rightarrow> string \<Rightarrow> string list" where
  "shell_words lb command = fst (peel_wrappers lb (safe_split command))"

fun git_words :: "library \<Rightarrow> string \<Rightarrow> string list \<Rightarrow> string list option" where
  "git_words lb sub [] = None"
| "git_words lb sub (t # ts) =
     (if \<not> prefix ''-'' t then (if lower lb t = sub then Some ts else None)
      else git_words lb sub (if t \<in> set git_global_value_opts then tl ts else ts))"

definition git_subcommand_args :: "library \<Rightarrow> string \<Rightarrow> string \<Rightarrow> string list option" where
  "git_subcommand_args lb command sub =
     (case shell_words lb command of
        [] \<Rightarrow> None
      | t # ts \<Rightarrow> if command_word lb t \<noteq> ''git'' then None else git_words lb sub ts)"

fun config_words :: "library \<Rightarrow> string list \<Rightarrow> string list" where
  "config_words lb [] = []"
| "config_words lb (t # ts) =
     (if \<not> prefix ''-'' t then []
      else if t = ''-c'' \<and> ts \<noteq> [] then lower lb (hd ts) # config_words lb (tl ts)
      else if t \<in> set git_global_value_opts then config_words lb (tl ts)
      else if prefix ''-c'' t \<and> 2 < length t \<and> \<not> prefix ''--'' t then lower lb (drop 2 t) # config_words lb ts
      else config_words lb ts)"

definition git_config_overrides :: "library \<Rightarrow> string \<Rightarrow> string list" where
  "git_config_overrides lb command =
     (case shell_words lb command of
        [] \<Rightarrow> []
      | t # ts \<Rightarrow> if command_word lb t \<noteq> ''git'' then [] else config_words lb ts)"

definition git_clean_force_not_required :: "library \<Rightarrow> string \<Rightarrow> bool" where
  "git_clean_force_not_required lb command =
     (case filter (\<lambda>kv. ustrip (flag_name kv) = ''clean.requireforce'') (git_config_overrides lb command) of
        [] \<Rightarrow> False
      | kv # _ \<Rightarrow> (if CHR ''='' \<in> set kv then ustrip (after_first CHR ''='' kv) else []) \<in> set git_false_values)"

text \<open>\<open>_GIT_CLEAN_DRY_LONG\<close> and \<open>_GIT_CLEAN_FORCE_LONG\<close> each have one member.\<close>

definition clean_dry :: "string \<Rightarrow> bool" where
  "clean_dry t \<longleftrightarrow> t = ''--dry-run'' \<or> short_bundle_has t CHR ''n''"

definition clean_force :: "string \<Rightarrow> bool" where
  "clean_force t \<longleftrightarrow> t = ''--force'' \<or> short_bundle_has t CHR ''f'' \<or> short_bundle_has t CHR ''F''"

fun clean_scan :: "bool \<Rightarrow> string list \<Rightarrow> bool" where
  "clean_scan force [] = force"
| "clean_scan force (t # ts) =
     (if t = ''--'' then force
      else if clean_dry t then False
      else clean_scan (force \<or> clean_force t) ts)"

definition git_clean_destroys :: "library \<Rightarrow> string \<Rightarrow> bool" where
  "git_clean_destroys lb command =
     (case git_subcommand_args lb command ''clean'' of
        None \<Rightarrow> False
      | Some args \<Rightarrow>
          clean_scan (git_clean_force_not_required lb command) (canonical_long_flags ''git clean'' args))"

fun push_scan :: "bool \<Rightarrow> string list \<Rightarrow> bool" where
  "push_scan forces [] = forces"
| "push_scan forces (t # ts) =
     (if t = ''--'' then push_scan forces ts
      else if prefix ''--'' t
      then (if flag_name t = ''--dry-run'' then False
            else push_scan (forces \<or> flag_name t \<in> set git_push_force_long) ts)
      else if prefix ''-'' t \<and> t \<noteq> ''-''
      then (if short_bundle_has t CHR ''n'' then False
            else push_scan (forces \<or> short_bundle_has t CHR ''f'' \<or> short_bundle_has t CHR ''d'') ts)
      else push_scan (forces \<or> prefix ''+'' t \<or> prefix '':'' t) ts)"

definition git_push_forces :: "library \<Rightarrow> string \<Rightarrow> bool" where
  "git_push_forces lb command =
     (case git_subcommand_args lb command ''push'' of
        None \<Rightarrow> False
      | Some args \<Rightarrow> push_scan False (canonical_long_flags ''git push'' args))"

section \<open>\<open>rm\<close>\<close>

definition rm_commands :: "string list" where
  "rm_commands = [''rm'', ''rmdir'', ''unlink'', ''shred'']"

definition rm_flag_tokens :: "library \<Rightarrow> string \<Rightarrow> string list" where
  "rm_flag_tokens lb command =
     (let rest = drop 1 (dropWhile (\<lambda>t. command_word lb t \<noteq> ''rm'') (safe_split command))
      in filter (\<lambda>t. prefix ''-'' t \<and> t \<noteq> ''-'') (takeWhile (\<lambda>t. t \<noteq> ''--'') rest))"

definition rm_is_recursive :: "library \<Rightarrow> string \<Rightarrow> bool" where
  "rm_is_recursive lb command =
     list_ex (\<lambda>t. t = ''--recursive'' \<or> short_bundle_has t CHR ''r'' \<or> short_bundle_has t CHR ''R'')
       (rm_flag_tokens lb command)"

fun rm_operands :: "string list \<Rightarrow> string list" where
  "rm_operands [] = []"
| "rm_operands (t # ts) =
     (if t = ''--'' then ts else if prefix ''-'' t then rm_operands ts else t # rm_operands ts)"

definition extract_rm_paths :: "library \<Rightarrow> string \<Rightarrow> string list" where
  "extract_rm_paths lb command =
     (let tokens = safe_split command
      in rm_operands (case dropWhile (\<lambda>t. command_word lb t \<notin> set rm_commands) tokens of
           [] \<Rightarrow> tokens | _ # ts \<Rightarrow> ts))"


section \<open>How far a flag is spelled\<close>

text \<open>What the tables hold: flags of two dashes and at least one more character, none with an \<open>=\<close>.\<close>

definition long_flag :: "string \<Rightarrow> bool" where
  "long_flag w \<longleftrightarrow>
     (case w of a # b # c # r \<Rightarrow> a = CHR ''-'' \<and> b = CHR ''-'' \<and> list_all (\<lambda>x. x \<noteq> CHR ''='') w | _ \<Rightarrow> False)"

lemma long_flag_name: "list_all (\<lambda>x. x \<noteq> CHR ''='') w \<Longrightarrow> flag_name w = w"
  by (auto simp: flag_name_def before_first_def takeWhile_eq_all_conv list_all_iff)

lemma long_options_wellformed:
  assumes "map_of long_options key = Some options" "opt1 \<in> set options"
  shows "prefix ''--'' opt1 \<and> opt1 \<noteq> ''--'' \<and> flag_name opt1 = opt1 \<and> CHR ''='' \<notin> set opt1"
proof -
  have "list_all (\<lambda>(k, os). list_all long_flag os) long_options" by code_simp
  moreover have "(key, options) \<in> set long_options" by (rule map_of_SomeD [OF assms(1)])
  ultimately have f: "long_flag opt1" using assms(2) by (auto simp: list_all_iff)
  then have n: "list_all (\<lambda>x. x \<noteq> CHR ''='') opt1" by (auto simp: long_flag_def split: list.splits)
  from f have "prefix ''--'' opt1 \<and> opt1 \<noteq> ''--''" by (auto simp: long_flag_def split: list.splits)
  then show ?thesis using n long_flag_name [OF n] by (auto simp: list_all_iff)
qed

lemma resolved_option:
  assumes "resolve_long_flag key token = Some full"
  obtains options where "map_of long_options key = Some options" "full \<in> set options" "prefix ''--'' token" "token \<noteq> ''--''"
proof -
  obtain options where o: "map_of long_options key = Some options" "prefix ''--'' token" "token \<noteq> ''--''"
    using assms by (auto simp: resolve_long_flag_def split: option.splits if_splits)
  have "full \<in> set options"
  proof (cases "flag_name token \<in> set options")
    case True
    then show ?thesis using assms o by (auto simp: resolve_long_flag_def)
  next
    case False
    then have "filter (prefix (flag_name token)) options = [full]"
      using assms o by (auto simp: resolve_long_flag_def split: list.splits)
    then have "full \<in> set (filter (prefix (flag_name token)) options)" by simp
    then show ?thesis by simp
  qed
  with o show thesis by (rule_tac that)
qed

lemma flag_name_attached: "CHR ''='' \<notin> set f \<Longrightarrow> v = [] \<or> hd v = CHR ''='' \<Longrightarrow> flag_name (f @ v) = f"
  by (cases v) (auto simp: flag_name_def before_first_def takeWhile_append)

lemma flag_rest: "drop (length (flag_name a)) a = dropWhile (\<lambda>x. x \<noteq> CHR ''='') a"
  by (simp add: flag_name_def before_first_def dropWhile_eq_drop)

lemma flag_parts: "flag_name a @ drop (length (flag_name a)) a = a"
  by (simp add: flag_rest) (simp add: flag_name_def before_first_def)

lemma flag_value_attached: "drop (length (flag_name a)) a = [] \<or> hd (drop (length (flag_name a)) a) = CHR ''=''"
  unfolding flag_rest using hd_dropWhile [of "\<lambda>x. x \<noteq> CHR ''=''" a] by blast

lemma canonical_args_append:
  "canonical_args key e (xs @ ys) = canonical_args key e xs @ canonical_args key (e \<or> ''--'' \<in> set xs) ys"
  by (induction key e xs rule: canonical_args.induct) auto

text \<open>A long option may be abbreviated as its command's own parser allows, with or without a value attached: up
  to the word that ends the options, the classifier reads the same arguments as for the full spelling.\<close>

theorem abbreviation_is_the_flag:
  assumes "resolve_long_flag key (flag_name a) = Some full" "''--'' \<notin> set xs"
  shows "canonical_long_flags key (xs @ a # ys)
    = canonical_long_flags key (xs @ (full @ drop (length (flag_name a)) a) # ys)"
proof -
  from assms(1) obtain options where o: "map_of long_options key = Some options" "full \<in> set options"
      "prefix ''--'' (flag_name a)" "flag_name a \<noteq> ''--''"
    by (rule resolved_option)
  note w = long_options_wellformed [OF o(1,2)]
  let ?v = "drop (length (flag_name a)) a"
  have pa: "prefix ''--'' a" using o(3) flag_parts [of a] by (metis prefix_prefix)
  have na: "a \<noteq> ''--''" using o(4) by (auto simp: flag_name_def before_first_def)
  have fb: "flag_name (full @ ?v) = full" by (rule flag_name_attached [OF _ flag_value_attached]) (use w in simp)
  obtain r where r: "full = ''--'' @ r" "r \<noteq> []" using w by (auto simp: prefix_def)
  have rb: "resolve_long_flag key full = Some full" using o w by (simp add: resolve_long_flag_def)
  have "canonical_args key False (a # ys) = canonical_args key False ((full @ ?v) # ys)"
    using pa na fb rb assms(1) r by (simp only: canonical_args.simps) simp
  then show ?thesis using assms(2) o(1) by (simp add: canonical_long_flags_def canonical_args_append del: canonical_args.simps(2))
qed

lemma abbreviation_is_the_flag_witness:
  "canonical_long_flags ''git push'' ([''origin''] @ ''--del'' # [''main''])
     = canonical_long_flags ''git push'' ([''origin''] @ (''--delete'' @ drop (length (flag_name ''--del'')) ''--del'') # [''main''])"
  by (rule abbreviation_is_the_flag) (code_simp, simp)

end
