(* ===== verification/ShellPaths.thy ===== *)
theory ShellPaths
  imports ShellFlags
begin

text \<open>
  Paths and what destroys them (\<open>classify.py\<close>): the path patterns, the radius of a destruction that names
  paths, and the commands and redirections that destroy a file's content without deleting it.
\<close>

section \<open>Path patterns\<close>

text \<open>A pattern of a class of characters between bounds.\<close>

abbreviation any_re :: re where "any_re \<equiv> Star any_but_newline"

definition sensitive_path_re :: re where
  "sensitive_path_re = alts [
     Seq (ilit ''.env'') (Alt Eol (lit ''.'')), ilit ''secrets'', ilit ''credentials'', Seq (ilit ''.pem'') Eol,
     ilit ''id_rsa'', ilit ''/etc/'',
     seqs [ilit ''docker-compose'', any_re, ilit ''.y'', opt (ilit ''a''), ilit ''ml'', Eol],
     Seq (ilit ''Dockerfile'') Eol, Seq (ilit ''.tf'') Eol, Seq (ilit ''.tfvars'') Eol,
     ilit ''.github/workflows/'', ilit ''/deploy/'', ilit ''/k8s/'', ilit ''/manifests/'',
     Seq (ilit ''nginx.conf'') Eol, Seq (ilit ''.service'') Eol]"

definition system_dir_re :: re where
  "system_dir_re = seqs [Bol,
     alts (map lit [''/'', ''/*'', ''~'', ''$HOME'', ''/etc'', ''/usr'', ''/var'', ''/bin'', ''/lib'', ''/boot'',
       ''/dev'', ''/sys'', ''/proc'', ''/run'']),
     Alt (lit ''/'') Eol]"

definition glob_re :: re where
  "glob_re = Alt (one_of ''*['')
     (seqs [lit ''{'', Star (Cls (\<lambda>n. n \<noteq> 125)), lit '','', Star (Cls (\<lambda>n. n \<noteq> 125)), lit ''}''])"

definition data_container_path_re :: re where
  "data_container_path_re = alts (
     [seqs [ilit ''.sqlite'', opt (lit ''3''), Eol]]
     @ map (\<lambda>e. Seq (ilit e) Eol) [''.db'', ''.mdb'', ''.sql'', ''.dump'', ''.bak'']
     @ [seqs [ilit ''.tar'', opt (Seq (lit ''.'') (alts (map ilit [''gz'', ''bz2'', ''xz'', ''zst'']))), Eol]]
     @ map (\<lambda>e. Seq (ilit e) Eol) [''.zip'', ''.rdb'', ''.aof'', ''.frm'', ''.ibd'']
     @ map (\<lambda>d. Seq (ilit d) (Alt (lit ''/'') Eol)) [''/pgdata'', ''/mysql''])"

definition block_device_re :: re where
  "block_device_re = seqs [Bol, lit ''/dev/'', NoAhead (alts (
     map (\<lambda>d. Seq (lit d) Eol) [''null'', ''zero'', ''urandom'', ''random'', ''stdin'', ''stdout'', ''stderr'']
     @ [lit ''tty'', lit ''fd/'']))]"

definition is_glob :: "string \<Rightarrow> bool" where
  "is_glob path = re_search glob_re path"

definition is_systemic_path :: "string \<Rightarrow> bool" where
  "is_systemic_path path \<longleftrightarrow>
     (let p = ustrip path
      in p \<in> {''/'', ''/*'', ''~'', ''$HOME'', ''~/'', ''$HOME/''} \<or> re_match system_dir_re p)"

section \<open>Radius\<close>

definition blast_rank :: "string \<Rightarrow> nat" where
  "blast_rank r = (if r = ''single'' then 0 else if r = ''scoped'' then 1 else if r = ''broad'' then 2
     else if r = ''systemic'' then 3 else 1)"

definition max_radius :: "string \<Rightarrow> string \<Rightarrow> string" where
  "max_radius a b = (if blast_rank b \<le> blast_rank a then a else b)"

definition tier_for_radius :: "string \<Rightarrow> string" where
  "tier_for_radius radius =
     (if radius = ''systemic'' then ''destructive_systemic''
      else if radius = ''broad'' then ''destructive_broad'' else ''moderate'')"

text \<open>The radius, the signature, the tier.\<close>

definition radius_for_paths :: "string list \<Rightarrow> bool \<Rightarrow> string \<times> string \<times> string" where
  "radius_for_paths paths recursive =
     (if list_ex is_systemic_path paths then (''systemic'', ''rm_recursive_root'', ''destructive_systemic'')
      else if list_ex (re_match block_device_re) paths then (''systemic'', ''overwrite_container'', ''destructive_systemic'')
      else if list_ex (re_search data_container_path_re) paths then (''broad'', ''overwrite_container'', ''destructive_broad'')
      else if recursive then (''broad'', ''rm_recursive'', ''destructive_broad'')
      else if paths = [] \<or> list_ex is_glob paths then (''broad'', ''rm_glob'', ''destructive_broad'')
      else if 20 \<le> length paths then (''broad'', ''rm_recursive'', ''destructive_broad'')
      else if 2 \<le> length paths then (''scoped'', ''none'', ''moderate'')
      else (''single'', ''none'', ''moderate''))"

section \<open>Weighty files\<close>

definition null_sinks :: "string list" where
  "null_sinks = [''/dev/null'', ''/dev/zero'', ''/dev/stdout'', ''/dev/stderr'', ''/dev/tty'']"

definition is_null_sink :: "string \<Rightarrow> bool" where
  "is_null_sink path \<longleftrightarrow> path \<in> set null_sinks \<or> prefix ''/dev/fd/'' path"

definition redirect_target_is_weighty :: "string \<Rightarrow> bool" where
  "redirect_target_is_weighty path \<longleftrightarrow>
     re_search data_container_path_re path \<or> re_match block_device_re path
     \<or> is_systemic_path path \<or> re_search sensitive_path_re path"

text \<open>The gate the writer and the in-place families share: \<open>weighty or None\<close>.\<close>

definition none_if_empty :: "string list \<Rightarrow> string list option" where
  "none_if_empty ts = (if ts = [] then None else Some ts)"

definition weighty_targets :: "string list \<Rightarrow> string list option" where
  "weighty_targets targets =
     none_if_empty (filter (\<lambda>t. t \<noteq> [] \<and> \<not> is_null_sink t \<and> redirect_target_is_weighty t) targets)"

section \<open>Writers\<close>

definition output_writing_git_subcommands :: "string list" where
  "output_writing_git_subcommands = [''diff'', ''log'', ''show'']"

definition writer_commands :: "string list" where
  "writer_commands = [''tee'', ''cp'', ''install'', ''mv'', ''sort'', ''git'']"

text \<open>\<open>_WRITER_DIR_DEST_FLAGS\<close> and \<open>_WRITER_VALUE_LETTERS\<close>, as functions of the command.\<close>

definition writer_dir_dest_flags :: "string \<Rightarrow> string list \<times> string" where
  "writer_dir_dest_flags cmd =
     (if cmd = ''cp'' \<or> cmd = ''mv'' then ([''-t'', ''--target-directory''], ''t'')
      else if cmd = ''install'' then ([''-t'', ''--target-directory'', ''-d'', ''--directory''], ''td'')
      else ([], []))"

definition writer_value_letters :: "string \<Rightarrow> string" where
  "writer_value_letters cmd =
     (if cmd = ''cp'' \<or> cmd = ''mv'' then ''tS'' else if cmd = ''install'' then ''tSmog'' else [])"

fun bundle_sets :: "string \<Rightarrow> string \<Rightarrow> string \<Rightarrow> bool" where
  "bundle_sets letters value_letters [] = False"
| "bundle_sets letters value_letters (c # cs) =
     (if c \<in> set letters then True else if c \<in> set value_letters then False
      else bundle_sets letters value_letters cs)"

definition short_bundle_flag_set :: "string \<Rightarrow> string \<Rightarrow> string \<Rightarrow> bool" where
  "short_bundle_flag_set arg letters value_letters \<longleftrightarrow>
     prefix ''-'' arg \<and> \<not> prefix ''--'' arg \<and> arg \<noteq> ''-'' \<and> bundle_sets letters value_letters (drop 1 arg)"

definition writer_dest_is_a_directory :: "string \<Rightarrow> string list \<Rightarrow> bool" where
  "writer_dest_is_a_directory cmd args =
     (let (exact, letters) = writer_dir_dest_flags cmd
      in if exact = [] \<and> letters = [] then False
         else list_ex (\<lambda>a. a \<in> set exact \<or> flag_name a \<in> set exact
                \<or> short_bundle_flag_set a letters (writer_value_letters cmd)) args)"

definition copy_value_flags :: "string list" where
  "copy_value_flags = [''-S'', ''--suffix'', ''--backup'', ''-Z'', ''--context'', ''-m'', ''--mode'', ''-o'', ''--owner'',
     ''-g'', ''--group'']"

text \<open>What the writer destroys; \<open>None\<close> is an early return.\<close>

definition writer_targets :: "library \<Rightarrow> string \<Rightarrow> string list \<Rightarrow> string list option" where
  "writer_targets lb cmd args =
     (let cargs = canonical_long_flags cmd args in
      if cmd = ''tee'' then
        (if ''--append'' \<in> set (map (lower lb) cargs) \<or> list_ex (\<lambda>a. short_bundle_has a CHR ''a'') args then None
         else Some (positional_args [] [] cargs))
      else if cmd = ''cp'' \<or> cmd = ''install'' \<or> cmd = ''mv'' then
        (let ps = positional_args copy_value_flags (writer_value_letters cmd) cargs
         in if length ps \<noteq> 2 then None else Some [last ps])
      else if cmd = ''sort'' then
        Some (case flag_value CHR ''o'' ''--output'' cargs of None \<Rightarrow> [] | Some v \<Rightarrow> if v = [] then [] else [v])
      else if args = [] \<or> lower lb (hd args) \<notin> set output_writing_git_subcommands then None
      else Some (case git_output_target args of None \<Rightarrow> [] | Some v \<Rightarrow> if v = [] then [] else [v]))"

definition writer_overwrite_targets :: "library \<Rightarrow> string \<Rightarrow> string list \<Rightarrow> string list option" where
  "writer_overwrite_targets lb cmd args =
     (if cmd \<notin> set writer_commands \<or> writer_dest_is_a_directory cmd (canonical_long_flags cmd args) then None
      else case writer_targets lb cmd args of None \<Rightarrow> None | Some ts \<Rightarrow> weighty_targets ts)"

section \<open>In-place edits\<close>

definition sed_value_letters :: string where "sed_value_letters = ''efl''"
definition perl_value_letters :: string where "perl_value_letters = ''eEFIMmDlSx0''"
definition sed_script_flags :: "string list" where
  "sed_script_flags = [''-e'', ''--expression'', ''-f'', ''--file'']"
definition sed_long_value_flags :: "string list" where
  "sed_long_value_flags = [''--expression'', ''--file'', ''--line-length'']"

text \<open>The letter is set, and what was attached after it.\<close>

fun scan_bundle :: "string \<Rightarrow> char \<Rightarrow> string \<Rightarrow> string option" where
  "scan_bundle [] letter value_letters = None"
| "scan_bundle (c # cs) letter value_letters =
     (if c = letter then Some cs else if c \<in> set value_letters then None
      else scan_bundle cs letter value_letters)"

definition short_flag :: "string \<Rightarrow> bool" where
  "short_flag a \<longleftrightarrow> prefix ''-'' a \<and> \<not> prefix ''--'' a"

fun inplace_flags :: "string \<Rightarrow> string \<Rightarrow> bool \<times> bool \<Rightarrow> string list \<Rightarrow> bool \<times> bool" where
  "inplace_flags vl long st [] = st"
| "inplace_flags vl long (inp, bak) (a # as) =
     (if a = long then inplace_flags vl long (True, bak) as
      else if prefix (long @ ''='') a then inplace_flags vl long (True, after_first CHR ''='' a \<noteq> []) as
      else if short_flag a \<and> 1 < length a
      then (case scan_bundle (drop 1 a) CHR ''i'' vl of
              Some rest \<Rightarrow> inplace_flags vl long (True, bak \<or> rest \<noteq> []) as
            | None \<Rightarrow> inplace_flags vl long (inp, bak) as)
      else inplace_flags vl long (inp, bak) as)"

definition inplace_edit_flag :: "string list \<Rightarrow> string \<Rightarrow> string \<Rightarrow> bool \<times> bool" where
  "inplace_edit_flag args value_letters the_long = inplace_flags value_letters the_long (False, False) args"

fun inplace_operands :: "string \<Rightarrow> string list \<Rightarrow> string list \<Rightarrow> string list" where
  "inplace_operands vl longs [] = []"
| "inplace_operands vl longs (a # as) =
     (if prefix ''--'' a then inplace_operands vl longs (if a \<in> set longs then tl as else as)
      else if prefix ''-'' a \<and> 1 < length a
      then inplace_operands vl longs
             (if length (dropWhile (\<lambda>c. c \<notin> set vl) (drop 1 a)) = 1 then tl as else as)
      else a # inplace_operands vl longs as)"

definition inplace_edit_targets :: "string \<Rightarrow> string list \<Rightarrow> string list option" where
  "inplace_edit_targets cmd args =
     (if cmd = ''sed'' then
        (if inplace_edit_flag args sed_value_letters ''--in-place'' \<noteq> (True, False) then None
         else
           (let operands = inplace_operands sed_value_letters sed_long_value_flags args;
                scripted = list_ex (\<lambda>a. a \<in> set sed_script_flags \<or> flag_name a \<in> set sed_script_flags) args;
                has_e = list_ex (\<lambda>a. short_flag a \<and> scan_bundle (drop 1 a) CHR ''e'' ''fl'' \<noteq> None) args
            in weighty_targets (if scripted \<or> has_e then operands else tl operands)))
      else if cmd = ''perl'' then
        (if inplace_edit_flag args perl_value_letters ''--in-place'' \<noteq> (True, False) then None
         else if \<not> list_ex (\<lambda>a. short_flag a
                    \<and> (scan_bundle (drop 1 a) CHR ''e'' ''FIMmDlSx0'' \<noteq> None
                       \<or> scan_bundle (drop 1 a) CHR ''E'' ''FIMmDlSx0'' \<noteq> None)) args
         then None
         else weighty_targets (inplace_operands perl_value_letters [] args))
      else None)"

section \<open>Overwrites\<close>

definition overwrite_targets :: "library \<Rightarrow> string \<Rightarrow> string list \<Rightarrow> string list option" where
  "overwrite_targets lb cmd args =
     (if cmd = ''dd''
      then none_if_empty (map (after_first CHR ''='') (filter (\<lambda>a. prefix ''of='' (lower lb a)) args))
      else if cmd = ''truncate''
      then none_if_empty (positional_args [''-s'', ''--size'', ''-r'', ''--reference''] []
             (canonical_long_flags ''truncate'' args))
      else case writer_overwrite_targets lb cmd args of
        Some ts \<Rightarrow> Some ts
      | None \<Rightarrow> inplace_edit_targets cmd args)"

section \<open>Redirections\<close>

text \<open>\<open>_TRUNCATING_REDIRECT_RE\<close>: the descriptor, the operator, what is attached.\<close>

definition redirect_fd_re :: re where
  "redirect_fd_re = Alt
     (seqs [lit ''{'', Cls (\<lambda>n. letter_cp n \<or> n = 95), Star (Cls (\<lambda>n. letter_cp n \<or> digit_cp n \<or> n = 95)), lit ''}''])
     (Star (Cls digit_cp))"

definition redirect_ops :: "string list" where
  "redirect_ops = [''>|'', ''&>|'', ''&>'', ''>&'', ''>'']"

definition redirect_re :: "string \<Rightarrow> re" where
  "redirect_re op = seqs [Bol, redirect_fd_re, lit op, NoAhead (lit ''>''), any_re, Eol]"

text \<open>The two groups of a match.\<close>

definition redirect_match :: "string \<Rightarrow> (string \<times> string) option" where
  "redirect_match token =
     (case filter (\<lambda>op. re_match (redirect_re op) token) redirect_ops of
        [] \<Rightarrow> None
      | op # _ \<Rightarrow>
          (case (match_len (seqs [Bol, redirect_fd_re, lit op]) token, match_len (redirect_re op) token) of
             (Some i, Some j) \<Rightarrow> Some (op, concat (take (j - i) (drop i (chars_of token))))
           | _ \<Rightarrow> None))"

definition opened_file :: "library \<Rightarrow> string \<Rightarrow> string \<Rightarrow> bool" where
  "opened_file lb op target \<longleftrightarrow>
     \<not> (op = ''>&'' \<and> (is_digits lb target \<or> target = ''-''))
     \<and> target \<noteq> [] \<and> \<not> is_null_sink target \<and> redirect_target_is_weighty target"

fun redirect_scan :: "library \<Rightarrow> string list \<Rightarrow> string list \<Rightarrow> string list" where
  "redirect_scan lb found [] = found"
| "redirect_scan lb found (t # ts) =
     (case redirect_match t of
        None \<Rightarrow> redirect_scan lb found ts
      | Some (op, attached) \<Rightarrow>
          if attached = [] \<and> ts = [] then found
          else let target = (if attached \<noteq> [] then attached else hd ts);
                   rest = (if attached \<noteq> [] then ts else tl ts)
               in redirect_scan lb
                    (if opened_file lb op target \<and> target \<notin> set found then found @ [target] else found) rest)"

definition redirect_overwrite_targets :: "library \<Rightarrow> string list \<Rightarrow> string list option" where
  "redirect_overwrite_targets lb tokens = none_if_empty (redirect_scan lb [] tokens)"

end
