(* ===== verification/ClassifyCommand.thy ===== *)
theory ClassifyCommand
  imports ShellPaths HookRun
begin

text \<open>
  Pricing one command of a line (\<open>classify._classify_segment\<close> and the families it asks): SQL handed to a database
  client, \<open>git clean\<close>, \<open>rm\<close>, the destructive command families, overwritten files, database scripts, what leaves
  the machine, command words that another command produces, reads, and everything else.
\<close>

section \<open>Results\<close>

text \<open>\<open>_make\<close>, for a result that names no file and adds no parameters.\<close>

definition priced :: "string \<Rightarrow> string \<Rightarrow> string \<Rightarrow> string \<Rightarrow> string \<Rightarrow> string \<Rightarrow> string \<Rightarrow> string option \<Rightarrow> classification" where
  "priced verb rv radius ext kind sig tier preview =
     \<lparr>c_verb = verb, c_reversibility = rv, c_blast_radius = radius, c_externality = ext, c_magnitude_count = 1,
      c_target_kind = kind, c_target_ref = None, c_danger_signature = sig, c_tier = tier,
      c_command_preview = preview, c_file_path = None, c_params_extra = None\<rparr>"

definition read_result :: "string option \<Rightarrow> classification" where
  "read_result preview =
     priced ''read'' ''reversible'' ''single'' ''internal'' ''command'' ''none'' ''benign'' preview"

text \<open>The file, if the destruction names exactly one.\<close>

definition only_path :: "string list \<Rightarrow> string option" where
  "only_path paths = (case paths of [p] \<Rightarrow> Some p | _ \<Rightarrow> None)"

definition path_result :: "string \<Rightarrow> string \<Rightarrow> string \<Rightarrow> string \<Rightarrow> string list \<Rightarrow> string option \<Rightarrow> classification" where
  "path_result kind radius sig tier paths preview =
     (priced ''delete'' ''irreversible'' radius ''internal'' kind sig tier preview)
       \<lparr>c_magnitude_count := int (max (length paths) 1), c_target_ref := only_path paths, c_file_path := only_path paths\<rparr>"

section \<open>Patterns\<close>

abbreviation bnd :: "library \<Rightarrow> re" where "bnd lb \<equiv> Bnd (word_cp lb)"
abbreviation spaces :: re where "spaces \<equiv> Star space_re"
abbreviation spaces1 :: re where "spaces1 \<equiv> plus_re space_re"

definition fork_bomb_re :: re where
  "fork_bomb_re = seqs [lit '':'', spaces, lit ''('', spaces, lit '')'', spaces, lit ''{'', any_re, lit '':|:'', any_re,
     lit ''}'']"

definition sql_drop_database_re :: "library \<Rightarrow> re" where
  "sql_drop_database_re lb = seqs [bnd lb, ilit ''DROP'', spaces1, Alt (ilit ''DATABASE'') (ilit ''SCHEMA''), bnd lb]"

definition sql_drop_table_re :: "library \<Rightarrow> re" where
  "sql_drop_table_re lb = seqs [bnd lb, ilit ''DROP'', spaces1, ilit ''TABLE'', bnd lb]"

definition sql_truncate_re :: "library \<Rightarrow> re" where
  "sql_truncate_re lb = seqs [bnd lb, ilit ''TRUNCATE'', bnd lb]"

definition sql_delete_any_re :: "library \<Rightarrow> re" where
  "sql_delete_any_re lb = seqs [bnd lb, ilit ''DELETE'', spaces1, ilit ''FROM'', bnd lb]"

text \<open>With \<open>DOTALL\<close> the dot is any character.\<close>

definition sql_delete_no_where_re :: "library \<Rightarrow> re" where
  "sql_delete_no_where_re lb = seqs [bnd lb, ilit ''DELETE'', spaces1, ilit ''FROM'', bnd lb,
     NoAhead (seqs [Star (Cls (\<lambda>_. True)), bnd lb, ilit ''WHERE'', bnd lb])]"

definition find_dangerous_re :: "library \<Rightarrow> re" where
  "find_dangerous_re lb = seqs [bnd lb, lit ''find'', bnd lb, any_re,
     Alt (lit ''-delete'')
       (seqs [lit ''-exec'', spaces1, alts (map lit [''rm'', ''shred'', ''truncate'']), bnd lb])]"

definition inline_destructive_re :: "library \<Rightarrow> re" where
  "inline_destructive_re lb = alts [
     lit ''shutil.rmtree'', lit ''os.removedirs'', Seq (lit ''os.remove'') (bnd lb), Seq (lit ''os.unlink'') (bnd lb),
     Seq (lit ''os.rmdir'') (bnd lb), lit ''.unlink('', lit ''.rmdir('', lit ''rimraf'',
     Seq (lit ''.rmSync'') (bnd lb), Seq (lit ''.rmdirSync'') (bnd lb), Seq (lit ''.unlinkSync'') (bnd lb),
     Seq (lit ''.rmtree'') (bnd lb), lit ''FileUtils.rm_rf'', lit ''File.delete'',
     Seq (bnd lb) (lit ''unlink(''), Seq (bnd lb) (lit ''rmdir('')]"

definition emit_re :: "library \<Rightarrow> re" where
  "emit_re lb = alts [
     seqs [bnd lb, ilit ''git'', spaces1, ilit ''push'', bnd lb],
     seqs [bnd lb, ilit ''npm'', spaces1, Alt (ilit ''publish'') (ilit ''pack''), bnd lb],
     seqs [bnd lb, ilit ''yarn'', spaces1, ilit ''publish'', bnd lb],
     seqs [bnd lb, ilit ''curl'', bnd lb, any_re,
       alts [seqs [ilit ''-X'', spaces, alts (map ilit [''POST'', ''PUT'', ''DELETE''])],
         Seq (ilit ''--data'') (bnd lb), ilit ''--upload-file'', Seq (ilit ''-d'') (bnd lb)]],
     seqs [bnd lb, ilit ''wget'', bnd lb, any_re,
       Alt (ilit ''--post-data'') (Seq (ilit ''--method='') (alts (map ilit [''POST'', ''PUT'', ''DELETE''])))],
     seqs [bnd lb, ilit ''scp'', bnd lb],
     seqs [bnd lb, ilit ''rsync'', bnd lb, any_re, lit '':''],
     seqs [bnd lb, ilit ''ssh'', bnd lb, any_re, space_re, plus_re nonspace_re, spaces1, nonspace_re],
     seqs [bnd lb, ilit ''mail'', bnd lb],
     seqs [bnd lb, ilit ''sendmail'', bnd lb]]"

definition publish_re :: "library \<Rightarrow> re" where
  "publish_re lb = seqs [bnd lb, Alt (lit ''npm'') (lit ''yarn''), spaces1, lit ''publish'', bnd lb]"

definition unresolvable_command_word_re :: re where
  "unresolvable_command_word_re = Alt (lit ''$('') (lit [CHR 0x60])"

definition db_inline_source_re :: re where
  "db_inline_source_re = seqs [Alt Bol (one_of [CHR '';'', sq, dq]), spaces,
     alts [ilit ''.read'', ilit ''source'', lit [bslash, CHR ''.'']], spaces1, nonspace_re]"

section \<open>The destructive families\<close>

definition account_delete_commands :: "string list" where
  "account_delete_commands = [''userdel'', ''deluser'', ''groupdel'', ''delgroup'']"

definition inline_interpreters :: "string list" where
  "inline_interpreters = [''python'', ''python2'', ''python3'', ''perl'', ''ruby'', ''node'', ''nodejs'', ''php'', ''deno'', ''bun'']"

definition db_clients :: "string list" where
  "db_clients = [''psql'', ''mysql'', ''mariadb'', ''mongosh'', ''mongo'', ''sqlite3'', ''cqlsh'', ''clickhouse-client'',
     ''redis-cli'', ''sqlcmd'']"

definition disk_commands :: "string list" where
  "disk_commands = [''fdisk'', ''parted'', ''wipefs'', ''blkdiscard'', ''sgdisk'', ''mkswap'']"

definition first_uri :: "string list \<Rightarrow> string option" where
  "first_uri args = (case filter (contains_text ''://'') args of [] \<Rightarrow> None | a # _ \<Rightarrow> Some a)"

text \<open>One of the words is there; a word starts with one of the prefixes.\<close>

definition has_word :: "string list \<Rightarrow> string list \<Rightarrow> bool" where
  "has_word ws low \<longleftrightarrow> list_ex (\<lambda>w. w \<in> set low) ws"

definition has_prefix :: "string list \<Rightarrow> string list \<Rightarrow> bool" where
  "has_prefix ps low \<longleftrightarrow> list_ex (\<lambda>a. list_ex (\<lambda>p. prefix p a) ps) low"

text \<open>Signature, radius and target; the lower-cased arguments are \<open>low\<close>.\<close>

type_synonym destruction = "(string \<times> string \<times> string option) option"

definition aws_destruction :: "string list \<Rightarrow> string list \<Rightarrow> destruction" where
  "aws_destruction args low =
     (if take 1 low = [''s3''] \<or> take 1 low = [''s3api''] then
        (if has_word [''rb''] low then Some (''cloud_bucket_delete'', ''broad'', first_uri args)
         else if has_word [''rm''] low then
           Some (''cloud_object_delete'', if has_word [''--recursive''] low then ''broad'' else ''scoped'', first_uri args)
         else if has_prefix [''delete-''] low then Some (''cloud_delete'', ''broad'', None)
         else None)
      else if has_prefix [''delete-'', ''terminate-'', ''remove-'', ''destroy-''] low
      then Some (''cloud_delete'', ''broad'', None)
      else None)"

definition container_destruction :: "string list \<Rightarrow> string list \<Rightarrow> destruction" where
  "container_destruction args low =
     (if has_word [''prune''] low then Some (''container_prune'', ''broad'', None)
      else if has_word [''volume''] low \<and> has_word [''rm'', ''remove''] low
      then Some (''volume_delete'', ''broad'', first_positional args)
      else if has_word [''down''] low \<and> has_word [''-v'', ''--volumes''] low then Some (''volume_delete'', ''broad'', None)
      else if has_word [''rmi''] low \<or> has_word [''image''] low \<and> has_word [''rm'', ''remove''] low
      then Some (''image_delete'', ''broad'', None)
      else if has_word [''rm''] low then Some (''container_delete'', ''scoped'', first_positional args)
      else None)"

definition infra_destructive :: "library \<Rightarrow> string \<Rightarrow> string list \<Rightarrow> string list \<Rightarrow> string \<Rightarrow> destruction" where
  "infra_destructive lb cmd0 args low segment =
     (if cmd0 \<in> set [''kubectl'', ''kubectl.exe'', ''oc'', ''k3s'', ''microk8s''] then
        (if has_word [''delete'', ''drain''] low then Some (''k8s_delete'', ''broad'', first_positional args) else None)
      else if cmd0 = ''helm'' then
        (if has_word [''uninstall'', ''delete''] low then Some (''helm_uninstall'', ''broad'', first_positional args)
         else None)
      else if cmd0 \<in> set [''terraform'', ''tofu'', ''opentofu''] then
        (if has_word [''destroy'', ''-destroy'', ''--destroy''] low then Some (''iac_destroy'', ''broad'', None) else None)
      else if cmd0 = ''pulumi'' \<and> has_word [''destroy''] low then Some (''iac_destroy'', ''broad'', None)
      else if cmd0 = ''aws'' then aws_destruction args low
      else if cmd0 \<in> set [''gsutil'', ''s3cmd'', ''rclone'', ''mc''] then
        (if has_word [''rm'', ''rb'', ''delete'', ''purge''] low then
           Some (''cloud_object_delete'', if has_word [''-r'', ''-rf'', ''--recursive''] low then ''broad'' else ''scoped'',
             first_uri args)
         else None)
      else if cmd0 \<in> set [''gcloud'', ''az'', ''doctl'', ''ibmcloud'', ''oci''] then
        (if has_word [''delete'', ''destroy'', ''purge''] low then Some (''cloud_delete'', ''broad'', first_positional args)
         else None)
      else if cmd0 \<in> set [''docker'', ''podman'', ''nerdctl''] then container_destruction args low
      else if cmd0 = ''git'' \<and> take 1 low = [''branch''] then
        (if git_branch_flags (drop 1 args) = (True, True)
         then Some (''git_ref_delete'', ''scoped'', first_positional (drop 1 args)) else None)
      else if cmd0 \<in> set account_delete_commands then
        (if cmd0 \<in> set [''deluser'', ''delgroup''] \<and> 2 \<le> length (positional_args [] [] args) then None
         else Some (''account_delete'', ''scoped'', first_positional args))
      else if cmd0 \<in> set disk_commands \<or> prefix ''mkfs'' cmd0
      then Some (''disk_format'', ''systemic'', first_positional args)
      else if cmd0 = ''find'' \<and> re_search (find_dangerous_re lb) segment
      then Some (''tree_delete'', ''broad'', first_positional args)
      else if cmd0 \<in> set inline_interpreters \<and> re_search (inline_destructive_re lb) segment
           \<and> has_word [''-c'', ''-e'', ''--eval'', ''--exec'', ''-p''] low
      then Some (''inline_delete'', ''broad'', None)
      else None)"

section \<open>Deletions\<close>

definition classify_path_delete :: "string list \<Rightarrow> bool \<Rightarrow> bool \<Rightarrow> string \<Rightarrow> string option \<Rightarrow> classification" where
  "classify_path_delete paths recursive unbounded signature preview =
     (let (radius, sig, tier) = radius_for_paths paths recursive;
          sig' = (if sig = ''none'' then signature else sig);
          radius' = (if unbounded then max_radius radius ''broad'' else radius)
      in path_result ''file'' radius' sig' (if unbounded then tier_for_radius radius' else tier) paths preview)"

definition sql_destruction :: "library \<Rightarrow> string \<Rightarrow> (string \<times> string \<times> string) option" where
  "sql_destruction lb command =
     (if re_search (sql_drop_database_re lb) command then Some (''systemic'', ''sql_drop_database'', ''destructive_systemic'')
      else if re_search (sql_drop_table_re lb) command then Some (''broad'', ''sql_drop_table'', ''destructive_broad'')
      else if re_search (sql_truncate_re lb) command \<or> re_search (sql_delete_any_re lb) command then
        Some (''broad'',
          if re_search (sql_delete_any_re lb) command \<and> \<not> re_search (sql_delete_no_where_re lb) command
          then ''sql_delete_predicate'' else ''sql_drop_table'', ''destructive_broad'')
      else None)"

definition classify_bash_delete :: "library \<Rightarrow> string \<Rightarrow> string option \<Rightarrow> bool \<Rightarrow> bool \<Rightarrow> classification" where
  "classify_bash_delete lb command preview unbounded sql =
     (if re_search fork_bomb_re command
      then priced ''delete'' ''irreversible'' ''systemic'' ''internal'' ''command'' ''fork_bomb'' ''destructive_systemic'' preview
      else case (if sql then sql_destruction lb command else None) of
        Some (radius, sig, tier) \<Rightarrow>
          priced ''delete'' ''irreversible'' radius ''internal'' ''resource'' sig tier preview
      | None \<Rightarrow>
          if git_clean_destroys lb command
          then priced ''delete'' ''irreversible'' ''broad'' ''internal'' ''command'' ''rm_recursive'' ''destructive_broad'' preview
          else
            (let paths = extract_rm_paths lb command;
                 (radius, sig, tier) = radius_for_paths paths (rm_is_recursive lb command);
                 radius' = (if unbounded then max_radius radius ''broad'' else radius)
             in path_result ''command'' radius' (if unbounded \<and> sig = ''none'' then ''rm_unbounded'' else sig)
                  (if unbounded then tier_for_radius radius' else tier) paths preview))"

section \<open>Database scripts\<close>

definition db_script_flags :: "(string \<times> string list) list" where
  "db_script_flags = [(''psql'', [''-f'', ''--file'']), (''cqlsh'', [''-f'', ''--file'']), (''mongosh'', [''-f'', ''--file'']),
     (''sqlite3'', [''-init'', ''--init'']), (''sqlcmd'', [''-i'', ''--input-file'']),
     (''clickhouse-client'', [''--queries-file'']), (''redis-cli'', [''--eval''])]"

definition client_flags :: "string \<Rightarrow> string list" where
  "client_flags client = (case map_of db_script_flags client of None \<Rightarrow> [] | Some fs \<Rightarrow> fs)"

text \<open>\<open>_DB_SCRIPT_PREFIXES_BY_CLIENT\<close>: the long spellings with the value attached.\<close>

definition client_prefixes :: "string \<Rightarrow> string list" where
  "client_prefixes client = map (\<lambda>f. f @ ''='') (filter (prefix ''--'') (client_flags client))"

fun has_script_file :: "string \<Rightarrow> string list \<Rightarrow> bool" where
  "has_script_file client [] = False"
| "has_script_file client (a # as) =
     (if a \<in> set (client_flags client) \<and> as \<noteq> [] then True
      else if list_ex (\<lambda>p. prefix p a) (client_prefixes client) then True
      else if a = ''<'' \<and> as \<noteq> [] then True
      else if client \<in> set [''mongosh'', ''mongo''] \<and> (suffix ''.js'' a \<or> suffix ''.mongodb'' a) then True
      else if re_search db_inline_source_re a then True
      else has_script_file client as)"

section \<open>What leaves the machine, and the rest\<close>

definition classify_bash_emit :: "library \<Rightarrow> string \<Rightarrow> string option \<Rightarrow> classification" where
  "classify_bash_emit lb command preview =
     (let (radius, sig) = (if git_push_forces lb command then (''broad'', ''git_force_push'')
        else if re_search (publish_re lb) command then (''broad'', ''publish'') else (''scoped'', ''none''))
      in priced ''emit'' ''irreversible'' radius ''outbound'' ''command'' sig ''destructive_broad'' preview)"

definition is_strict_mode :: "library \<Rightarrow> hook_env \<Rightarrow> bool" where
  "is_strict_mode lb env \<longleftrightarrow> lower lb (ustrip (env_or (he_strict env) [])) \<in> set [''1'', ''true'', ''yes'', ''on'']"

definition classify_bash_execute :: "library \<Rightarrow> hook_env \<Rightarrow> string option \<Rightarrow> classification" where
  "classify_bash_execute lb env preview =
     (if is_strict_mode lb env
      then priced ''execute'' ''irreversible'' ''broad'' ''internal'' ''command'' ''unknown_execute_strict''
             ''destructive_broad'' preview
      else priced ''execute'' ''recoverable'' ''scoped'' ''internal'' ''command'' ''none'' ''moderate'' preview)"

definition unresolvable_command_word :: "string list \<Rightarrow> bool" where
  "unresolvable_command_word tokens \<longleftrightarrow> tokens \<noteq> [] \<and> re_search unresolvable_command_word_re (hd tokens)"

definition unresolvable_command :: "string option \<Rightarrow> classification" where
  "unresolvable_command preview =
     priced ''execute'' ''irreversible'' ''systemic'' ''outbound'' ''command'' ''unresolvable_command_word''
       ''destructive_systemic'' preview"

section \<open>One command\<close>

definition read_commands :: "string list" where
  "read_commands = [''ls'', ''pwd'', ''cat'', ''head'', ''tail'', ''wc'', ''grep'', ''rg'', ''echo'', ''stat'', ''df'',
     ''du'', ''tree'', ''which'', ''type'']"

definition read_git_subcommands :: "string list" where
  "read_git_subcommands = [''status'', ''log'', ''diff'', ''show'', ''branch'']"

text \<open>The SQL patterns that send a command of a line with a database client to \<open>_classify_bash_delete\<close>.\<close>

definition sql_text :: "library \<Rightarrow> string \<Rightarrow> string \<Rightarrow> bool" where
  "sql_text lb cmd0 segment \<longleftrightarrow>
     re_search (sql_drop_database_re lb) segment \<or> re_search (sql_drop_table_re lb) segment
     \<or> re_search (sql_delete_any_re lb) segment
     \<or> re_search (sql_truncate_re lb) segment \<and> cmd0 \<noteq> ''truncate''"

definition overwritten_files :: "library \<Rightarrow> string \<Rightarrow> string list \<Rightarrow> string list \<Rightarrow> string list option" where
  "overwritten_files lb cmd0 args raw =
     (case redirect_overwrite_targets lb raw of
        None \<Rightarrow> overwrite_targets lb cmd0 args
      | Some rs \<Rightarrow>
          let ws = (case overwrite_targets lb cmd0 args of None \<Rightarrow> [] | Some ts \<Rightarrow> ts)
          in Some (ws @ filter (\<lambda>p. p \<notin> set ws) rs))"

definition is_read :: "string \<Rightarrow> string list \<Rightarrow> string list \<Rightarrow> bool" where
  "is_read cmd0 args low \<longleftrightarrow>
     cmd0 \<in> set read_commands \<or> cmd0 = ''find''
     \<or> cmd0 = ''git'' \<and> low \<noteq> [] \<and> hd low \<in> set read_git_subcommands
       \<and> \<not> (hd low = ''branch'' \<and> fst (git_branch_flags (drop 1 args)))"

definition classify_segment :: "library \<Rightarrow> hook_env \<Rightarrow> string option \<Rightarrow> bool \<Rightarrow> string \<Rightarrow> classification" where
  "classify_segment lb env preview sql_reachable segment =
     (let raw = safe_split segment;
          (tokens, unbounded, _) = peel_wrappers lb raw;
          cmd0 = (case tokens of [] \<Rightarrow> [] | t # _ \<Rightarrow> command_word lb t);
          args = drop 1 tokens;
          low = map (lower lb) args
      in if sql_reachable \<and> sql_text lb cmd0 segment then classify_bash_delete lb segment preview False True
         else if git_clean_destroys lb segment then classify_bash_delete lb segment preview False False
         else if cmd0 \<in> set rm_commands then classify_bash_delete lb segment preview unbounded False
         else case infra_destructive lb cmd0 args low segment of
           Some (sig, radius, target) \<Rightarrow>
             (let radius' = (if unbounded then max_radius radius ''broad'' else radius)
              in (priced ''delete'' ''irreversible'' radius' ''internal'' ''resource'' sig (tier_for_radius radius') preview)
                   \<lparr>c_target_ref := target\<rparr>)
         | None \<Rightarrow>
         case overwritten_files lb cmd0 args raw of
           Some paths \<Rightarrow> classify_path_delete paths False unbounded ''content_overwrite'' preview
         | None \<Rightarrow>
           if cmd0 \<in> set db_clients \<and> has_script_file cmd0 low
           then priced ''execute'' ''irreversible'' ''broad'' ''internal'' ''resource'' ''sql_script_unbounded''
                  ''destructive_broad'' preview
           else if re_search (emit_re lb) segment \<or> git_subcommand_args lb segment ''push'' \<noteq> None
           then classify_bash_emit lb segment preview
           else if unresolvable_command_word tokens then unresolvable_command preview
           else if is_read cmd0 args low then read_result preview
           else classify_bash_execute lb env preview)"

text \<open>What a redirection prefix emptied.\<close>

definition peeled_truncations :: "library \<Rightarrow> string option \<Rightarrow> string \<Rightarrow> classification option" where
  "peeled_truncations lb preview segment =
     (case peel_wrappers lb (safe_split segment) of (_, _, emptied) \<Rightarrow>
        if emptied = [] then None
        else Some (classify_path_delete emptied False False ''content_overwrite'' preview))"

end
