(* ===== verification/ClassifyLine.thy ===== *)
theory ClassifyLine
  imports ClassifyCommand
begin

text \<open>
  Pricing a whole command line (\<open>classify._classify_bash\<close>): it is cut into the commands it runs, each is priced, and
  the most severe one is reported; a line that was not read to its end is priced at the worst.
\<close>

section \<open>Severity\<close>

definition tier_rank :: "string \<Rightarrow> nat" where
  "tier_rank t = (if t = ''benign'' then 0 else if t = ''moderate'' then 1 else if t = ''destructive_broad'' then 2
     else if t = ''destructive_systemic'' then 3 else 1)"

definition rev_rank :: "string \<Rightarrow> nat" where
  "rev_rank r = (if r = ''reversible'' then 0 else if r = ''recoverable'' then 1 else 2)"

definition verb_order :: "string \<Rightarrow> nat" where
  "verb_order v = (if v = ''read'' then 0 else if v = ''emit'' then 2 else if v = ''delete'' then 3 else 1)"

text \<open>A tuple, compared from the left.\<close>

definition severity :: "classification \<Rightarrow> nat list" where
  "severity c = [tier_rank (c_tier c), rev_rank (c_reversibility c), blast_rank (c_blast_radius c), verb_order (c_verb c)]"

definition fhs_temporary_prefixes :: "string list" where
  "fhs_temporary_prefixes = [''/tmp/'', ''/var/tmp/'', ''/var/cache/'', ''/dev/shm/'', ''/run/'']"

definition is_fhs_temporary :: "library \<Rightarrow> string option \<Rightarrow> bool" where
  "is_fhs_temporary lb ref =
     (case ref of
        None \<Rightarrow> False
      | Some r \<Rightarrow> r \<noteq> []
          \<and> list_ex (\<lambda>p. prefix p (lower lb r) \<or> lower lb r = rstrip_slashes p) fhs_temporary_prefixes)"

definition worst :: "classification list \<Rightarrow> nat list" where
  "worst results = foldr max (map severity results) []"

definition tied :: "classification list \<Rightarrow> classification list" where
  "tied results = filter (\<lambda>c. severity c = worst results) results"

definition most_severe :: "library \<Rightarrow> classification list \<Rightarrow> classification" where
  "most_severe lb results =
     (if length (tied results) = 1 then hd (tied results)
      else case filter (\<lambda>c. \<not> is_fhs_temporary lb (c_target_ref c)) (tied results) of
        [] \<Rightarrow> hd (tied results)
      | c # _ \<Rightarrow> c)"

section \<open>The line\<close>

definition sql_reachable :: "library \<Rightarrow> string list \<Rightarrow> bool" where
  "sql_reachable lb segments =
     list_ex (\<lambda>s. case shell_words lb s of [] \<Rightarrow> False | t # _ \<Rightarrow> command_word lb t \<in> set db_clients) segments"

text \<open>One candidate per command, and one per emptied file.\<close>

definition line_candidates :: "library \<Rightarrow> hook_env \<Rightarrow> string option \<Rightarrow> string list \<Rightarrow> classification list" where
  "line_candidates lb env preview segments =
     map (classify_segment lb env preview (sql_reachable lb segments)) segments
     @ concat (map (\<lambda>s. case peeled_truncations lb preview s of None \<Rightarrow> [] | Some c \<Rightarrow> [c]) segments)"

text \<open>A line that was not read.\<close>

definition unread :: "string \<Rightarrow> string option \<Rightarrow> classification" where
  "unread sig preview =
     priced ''execute'' ''irreversible'' ''systemic'' ''internal'' ''command'' sig ''destructive_systemic'' preview"

definition line_preview :: "string \<Rightarrow> string option" where
  "line_preview command = (if command = [] then None else Some (take_chars 200 command))"

definition classify_line :: "library \<Rightarrow> hook_env \<Rightarrow> string \<Rightarrow> classification" where
  "classify_line lb env command =
     (let preview = line_preview command in
      if max_bash_command_chars lb env < int (num_chars command) then unread ''oversize_command'' preview
      else if re_search fork_bomb_re command
      then priced ''delete'' ''irreversible'' ''systemic'' ''internal'' ''command'' ''fork_bomb'' ''destructive_systemic'' preview
      else let (segments, budget) = shell_segments lb command
           in if wb_exhausted budget then unread ''unwalkable_command'' preview
              else if segments = [] then classify_bash_execute lb env preview
              else most_severe lb (line_candidates lb env preview segments))"

definition bash_command :: "library \<Rightarrow> dict \<Rightarrow> string" where
  "bash_command lb tool_input =
     py_str (lb_ucd lb) (get_or tool_input ''command'' (get_or tool_input ''cmd'' (JStr [])))"

definition classify_bash :: "library \<Rightarrow> hook_env \<Rightarrow> dict \<Rightarrow> classification" where
  "classify_bash lb env tool_input = classify_line lb env (bash_command lb tool_input)"

end
