(* ===== verification/ClassifyTool.thy ===== *)
theory ClassifyTool
  imports ClassifyLine
begin

text \<open>
  Pricing a tool call (\<open>classify.classify\<close>): the file tools, the web tools, the tools of the session, and every tool
  the classifier does not know, which starts from a guarded floor that the name and the arguments only raise.
\<close>

section \<open>Files and the web\<close>

text \<open>\<open>str(x) if x else ""\<close>, and \<open>s or None\<close>.\<close>

definition text_of :: "library \<Rightarrow> json \<Rightarrow> string" where
  "text_of lb j = (if py_truth j then py_str (lb_ucd lb) j else [])"

definition some_text :: "string \<Rightarrow> string option" where
  "some_text s = (if s = [] then None else Some s)"

definition file_result :: "string \<Rightarrow> string \<Rightarrow> string \<Rightarrow> string \<Rightarrow> string \<Rightarrow> string \<Rightarrow> classification" where
  "file_result verb rv radius sig tier path =
     (priced verb rv radius ''internal'' ''file'' sig tier None)
       \<lparr>c_target_ref := some_text path, c_file_path := some_text path\<rparr>"

definition oversize_path :: "string \<Rightarrow> string \<Rightarrow> classification" where
  "oversize_path verb path =
     priced verb ''irreversible'' ''systemic'' ''internal'' ''file'' ''oversize_path'' ''destructive_systemic''
       (Some (take_chars 200 path))"

definition sensitive_path :: "string \<Rightarrow> bool" where
  "sensitive_path path \<longleftrightarrow> path \<noteq> [] \<and> re_search sensitive_path_re path"

text \<open>\<open>exists\<close> is \<open>os.path.exists\<close>.\<close>

definition classify_write :: "library \<Rightarrow> (string \<Rightarrow> bool) \<Rightarrow> dict \<Rightarrow> classification" where
  "classify_write lb exists tool_input =
     (let path = text_of lb (dget tool_input ''file_path'') in
      if max_file_path_chars < num_chars path then oversize_path ''create'' path
      else
        (let rv = (if path \<noteq> [] \<and> exists path then ''irreversible'' else ''recoverable'')
         in if sensitive_path path
            then file_result ''create'' rv ''broad'' ''sensitive_write'' ''destructive_broad'' path
            else file_result ''create'' rv ''single'' ''disk_write''
                   (if rv = ''recoverable'' then ''moderate'' else ''destructive_broad'') path))"

definition classify_edit :: "library \<Rightarrow> dict \<Rightarrow> classification" where
  "classify_edit lb tool_input =
     (let path = text_of lb (get_or tool_input ''file_path'' (dget tool_input ''notebook_path'')) in
      if max_file_path_chars < num_chars path then oversize_path ''update'' path
      else
        (let mode = lower lb (ustrip (text_of lb (dget tool_input ''edit_mode'')));
             rv = (if mode = ''delete'' then ''irreversible'' else ''recoverable'')
         in if sensitive_path path
            then file_result ''update'' rv ''scoped'' ''sensitive_write'' ''moderate'' path
            else file_result ''update'' rv ''single'' ''none'' ''moderate'' path))"

definition classify_read_tool :: "library \<Rightarrow> dict \<Rightarrow> classification" where
  "classify_read_tool lb tool_input =
     file_result ''read'' ''reversible'' ''single'' ''none'' ''benign''
       (text_of lb (get_or tool_input ''file_path'' (dget tool_input ''pattern'')))"

definition classify_web :: "library \<Rightarrow> dict \<Rightarrow> classification" where
  "classify_web lb tool_input =
     (let url = get_or tool_input ''url'' (dget tool_input ''query'')
      in (priced ''read'' ''reversible'' ''single'' ''outbound'' ''resource'' ''none'' ''benign'' None)
           \<lparr>c_target_ref := (if py_truth url then Some (take_chars 200 (py_str (lb_ucd lb) url)) else None)\<rparr>)"

section \<open>Unknown tools: the name\<close>

definition session_local_read_tools :: "string list" where
  "session_local_read_tools = [''toolsearch'', ''bashoutput'', ''todowrite'', ''exitplanmode'']"

definition unknown_money_tokens :: "string list" where
  "unknown_money_tokens = [''refund'', ''payout'', ''payment'', ''pay'', ''charge'', ''chargeback'', ''transfer'', ''transaction'',
     ''invoice'', ''subscription'', ''withdraw'', ''withdrawal'', ''disburse'', ''disbursement'', ''capture'',
     ''settle'', ''settlement'']"

definition unknown_destructive_tokens :: "string list" where
  "unknown_destructive_tokens = [''delete'', ''destroy'', ''drop'', ''truncate'', ''purge'', ''remove'', ''rm'', ''erase'', ''wipe'',
     ''revoke'', ''terminate'', ''kill'', ''prune'', ''expire'', ''unlink'', ''uninstall'', ''deprovision'',
     ''teardown'', ''reset'']"

definition unknown_emit_tokens :: "string list" where
  "unknown_emit_tokens = [''send'', ''publish'', ''email'', ''mail'', ''notify'', ''notification'', ''broadcast'', ''tweet'',
     ''sms'', ''webhook'', ''dispatch'', ''deploy'', ''release'', ''upload'']"

definition unknown_ref_keys :: "string list" where
  "unknown_ref_keys = [''table'', ''database'', ''collection'', ''bucket'', ''namespace'', ''repo'', ''repository'', ''path'',
     ''file_path'', ''filename'', ''url'', ''uri'', ''arn'', ''queue'', ''topic'', ''channel'', ''cluster'',
     ''project'', ''resource'', ''resource_id'', ''id'', ''ids'', ''name'', ''where'', ''filter'', ''query'']"

definition unknown_count_keys :: "string list" where
  "unknown_count_keys = [''count'', ''limit'', ''n'', ''num'', ''number'', ''quantity'', ''qty'', ''max_results'', ''maxresults'',
     ''batch_size'', ''batchsize'', ''size'', ''top'']"

definition unknown_amount_keys :: "string list" where
  "unknown_amount_keys = [''amount'', ''amount_cents'', ''value'', ''total'', ''price'', ''sum'']"

definition unknown_currency_keys :: "string list" where
  "unknown_currency_keys = [''currency'', ''currency_code'', ''ccy'', ''curr'']"

definition ascii_alnum :: "char \<Rightarrow> bool" where
  "ascii_alnum c \<longleftrightarrow> is_upper_char c \<or> is_lower_char c \<or> is_digit_char c"

text \<open>\<open>_UNKNOWN_NAME_SPLIT_RE.split\<close>; the first argument is the part so far.\<close>

fun name_parts :: "string \<Rightarrow> string \<Rightarrow> string list" where
  "name_parts acc [] = [acc]"
| "name_parts acc (c # cs) =
     (if \<not> ascii_alnum c then acc # name_parts [] cs
      else if is_upper_char c \<and> acc \<noteq> [] \<and> (is_lower_char (last acc) \<or> is_digit_char (last acc))
      then acc # name_parts [c] cs
      else name_parts (acc @ [c]) cs)"

definition unknown_name_tokens :: "string \<Rightarrow> string list" where
  "unknown_name_tokens tool_name = map (map lower_char) (filter (\<lambda>p. p \<noteq> []) (name_parts [] tool_name))"

definition names_one_of :: "string list \<Rightarrow> string list \<Rightarrow> bool" where
  "names_one_of vocabulary tokens \<longleftrightarrow> list_ex (\<lambda>t. t \<in> set vocabulary) tokens"

section \<open>Unknown tools: the arguments\<close>

definition unknown_secret_key_re :: re where
  "unknown_secret_key_re = alts (
     map ilit [''token'', ''password'', ''passwd'', ''pwd'', ''secret'', ''credential'', ''auth'', ''bearer'', ''private'']
     @ map (\<lambda>w. seqs [ilit w, opt (one_of ''_-''), ilit ''key'']) [''api'', ''access'']
     @ map ilit [''signature'', ''session'', ''cookie'', ''salt''])"

definition secret_key :: "string \<Rightarrow> bool" where
  "secret_key key = re_search unknown_secret_key_re key"

text \<open>\<open>_unknown_number\<close>. An integer that no float can hold raises \<open>OverflowError\<close>, which is not caught.\<close>

definition bounded_number :: "pyfloat \<Rightarrow> rat option" where
  "bounded_number f = (case f of Fin r \<Rightarrow> if r < 0 then None else Some r | _ \<Rightarrow> None)"

fun unknown_number :: "library \<Rightarrow> json \<Rightarrow> hook_exc + rat option" where
  "unknown_number lb (JInt n) =
     (case lb_round lb (of_int n) of Fin r \<Rightarrow> Inr (bounded_number (Fin r)) | _ \<Rightarrow> Inl HOverflowError)"
| "unknown_number lb (JFloat f) = Inr (bounded_number f)"
| "unknown_number lb (JStr s) = Inr (case lb_float lb s of None \<Rightarrow> None | Some f \<Rightarrow> bounded_number f)"
| "unknown_number lb _ = Inr None"

definition currency_text :: "library \<Rightarrow> json \<Rightarrow> string option" where
  "currency_text lb v =
     (case v of
        JStr s \<Rightarrow> if 2 \<le> num_chars (ustrip s) \<and> num_chars (ustrip s) \<le> 8 then Some (py_upper (lb_ucd lb) (ustrip s)) else None
      | _ \<Rightarrow> None)"

type_synonym money = "rat option \<times> string option"

fun money_scan :: "library \<Rightarrow> money \<Rightarrow> dict \<Rightarrow> hook_exc + money" where
  "money_scan lb m [] = Inr m"
| "money_scan lb (amount, currency) ((key, value) # args) =
     (if secret_key key then money_scan lb (amount, currency) args
      else if amount = None \<and> lower lb key \<in> set unknown_amount_keys
      then bindE (unknown_number lb value) (\<lambda>a. money_scan lb (a, currency) args)
      else if currency = None \<and> lower lb key \<in> set unknown_currency_keys
      then money_scan lb (amount, currency_text lb value) args
      else money_scan lb (amount, currency) args)"

text \<open>\<open>_unknown_money\<close>: \<open>(None, None)\<close> is its \<open>None\<close>.\<close>

definition unknown_money :: "library \<Rightarrow> dict \<Rightarrow> hook_exc + money option" where
  "unknown_money lb args =
     bindE (money_scan lb (None, None) args) (\<lambda>m. Inr (if m = (None, None) then None else Some m))"

definition count_key :: "library \<Rightarrow> string \<Rightarrow> bool" where
  "count_key lb key \<longleftrightarrow>
     map (\<lambda>c. if c = CHR ''-'' then CHR ''_'' else c) (lower lb key) \<in> set unknown_count_keys"

fun magnitude_scan :: "library \<Rightarrow> int \<Rightarrow> dict \<Rightarrow> hook_exc + int" where
  "magnitude_scan lb largest [] = Inr largest"
| "magnitude_scan lb largest ((key, value) # args) =
     (if secret_key key then magnitude_scan lb largest args
      else case value of
        JArr xs \<Rightarrow> magnitude_scan lb (max largest (int (length xs))) args
      | _ \<Rightarrow>
          if count_key lb key
          then bindE (unknown_number lb value) (\<lambda>n.
                 magnitude_scan lb (case n of Some r \<Rightarrow> if r < 1000000000 then max largest \<lfloor>r\<rfloor> else largest | None \<Rightarrow> largest)
                   args)
          else magnitude_scan lb largest args)"

definition unknown_magnitude :: "library \<Rightarrow> dict \<Rightarrow> hook_exc + int" where
  "unknown_magnitude lb args = magnitude_scan lb 1 args"

text \<open>What an identifying argument shows.\<close>

definition shown_value :: "library \<Rightarrow> json \<Rightarrow> string option" where
  "shown_value lb v =
     (case v of
        JArr xs \<Rightarrow> Some (''['' @ str_nat (length xs) @ '' items]'')
      | JStr s \<Rightarrow> Some s
      | JInt _ \<Rightarrow> Some (py_str (lb_ucd lb) v)
      | JFloat _ \<Rightarrow> Some (py_str (lb_ucd lb) v)
      | JBool _ \<Rightarrow> Some (py_str (lb_ucd lb) v)
      | _ \<Rightarrow> None)"

definition ref_field :: "library \<Rightarrow> dict \<Rightarrow> string \<Rightarrow> string option" where
  "ref_field lb args key =
     (case map_of args key of
        None \<Rightarrow> None
      | Some v \<Rightarrow>
          if secret_key key then None
          else case shown_value lb v of
            None \<Rightarrow> None
          | Some s \<Rightarrow>
              (let r = ustrip s
               in if r = [] then None
                  else Some (key @ ''='' @ (if 80 < num_chars r then take_chars 80 r @ ''...'' else r))))"

definition unknown_ref_fields :: "library \<Rightarrow> dict \<Rightarrow> string list" where
  "unknown_ref_fields lb args =
     take 3 (concat (map (\<lambda>k. case ref_field lb args k of None \<Rightarrow> [] | Some f \<Rightarrow> [f]) unknown_ref_keys))"

definition unknown_target_ref :: "library \<Rightarrow> dict \<Rightarrow> string option" where
  "unknown_target_ref lb args =
     (case unknown_ref_fields lb args of
        [] \<Rightarrow> None
      | fs \<Rightarrow> Some (take_chars 200 (join_with '' '' fs)))"

section \<open>Unknown tools\<close>

definition money_params :: "money option \<Rightarrow> dict" where
  "money_params money =
     (case money of
        None \<Rightarrow> []
      | Some (amount, currency) \<Rightarrow>
          (case amount of
             None \<Rightarrow> [(''amount_declared'', JBool False)]
           | Some a \<Rightarrow> [(''amount'', JFloat (Fin a)), (''amount_declared'', JBool True)])
          @ (case currency of
               None \<Rightarrow> []
             | Some c \<Rightarrow> if c = [] then [] else [(''currency'', JStr c)]))"

definition unknown_verb :: "money option \<Rightarrow> string list \<Rightarrow> string" where
  "unknown_verb money tokens =
     (if money \<noteq> None \<or> names_one_of unknown_money_tokens tokens then ''transact''
      else if names_one_of unknown_destructive_tokens tokens then ''delete''
      else if names_one_of unknown_emit_tokens tokens then ''emit''
      else ''execute'')"

definition classify_unknown :: "library \<Rightarrow> string \<Rightarrow> json \<Rightarrow> hook_exc + classification" where
  "classify_unknown lb tool_name tool_input =
     (let args = as_obj tool_input in
      bindE (unknown_money lb args) (\<lambda>money.
      bindE (unknown_magnitude lb args) (\<lambda>count.
        Inr ((priced (unknown_verb money (unknown_name_tokens tool_name)) ''irreversible'' ''broad'' ''outbound''
               ''resource'' ''unknown_tool'' ''destructive_broad'' None)
          \<lparr>c_magnitude_count := count, c_target_ref := unknown_target_ref lb args,
            c_params_extra := (if money_params money = [] then None else Some (money_params money))\<rparr>))))"

section \<open>Every call\<close>

text \<open>\<open>classify\<close>. A name that is not a text has no \<open>lower\<close>; arguments that are not an object have no \<open>get\<close>.\<close>

definition classify_known :: "library \<Rightarrow> hook_env \<Rightarrow> (string \<Rightarrow> bool) \<Rightarrow> string \<Rightarrow> dict \<Rightarrow> classification option" where
  "classify_known lb env exists name tool_input =
     (if name = ''bash'' then Some (classify_bash lb env tool_input)
      else if name = ''write'' then Some (classify_write lb exists tool_input)
      else if name \<in> set [''edit'', ''multiedit'', ''notebookedit''] then Some (classify_edit lb tool_input)
      else if name \<in> set [''read'', ''glob'', ''grep'', ''ls''] \<or> name \<in> set session_local_read_tools
      then Some (classify_read_tool lb tool_input)
      else if name \<in> set [''webfetch'', ''websearch''] then Some (classify_web lb tool_input)
      else None)"

definition classify_named :: "library \<Rightarrow> hook_env \<Rightarrow> (string \<Rightarrow> bool) \<Rightarrow> string \<Rightarrow> json \<Rightarrow> hook_exc + classification" where
  "classify_named lb env exists tool_name tool_input =
     (case tool_input of
        JObj d \<Rightarrow>
          (case classify_known lb env exists (lower lb tool_name) d of
             Some c \<Rightarrow> Inr c
           | None \<Rightarrow> classify_unknown lb tool_name tool_input)
      | _ \<Rightarrow>
          if classify_known lb env exists (lower lb tool_name) [] = None
          then classify_unknown lb tool_name tool_input else Inl HAttributeError)"

definition classify :: "library \<Rightarrow> hook_env \<Rightarrow> (string \<Rightarrow> bool) \<Rightarrow> json \<Rightarrow> json \<Rightarrow> hook_exc + classification" where
  "classify lb env exists tool_name tool_input =
     (case tool_name of
        JStr name \<Rightarrow> classify_named lb env exists name tool_input
      | _ \<Rightarrow> if py_truth tool_name then Inl HAttributeError else classify_named lb env exists [] tool_input)"

end
