(* ===== verification/ShellLaws.thy ===== *)
theory ShellLaws
  imports ShellText
begin

text \<open>
  Two laws of the shell reader. Peeling a group by a window over one prefix scan, as the code does, is peeling it
  by re-slicing and re-balancing the text at every step, the quadratic routine the code replaced. And cutting at
  operators is compositional: whatever a chained line starts with, the commands after the operator are all there.
\<close>

section \<open>Blanks\<close>

lemma chars_of_ascii: "code c < 128 \<Longrightarrow> chars_of (c # cs) = [c] # chars_of cs"
  by (auto simp: high_byte_def split: list.splits)

lemma blank_bytes:
  assumes "w \<in> set (chars_of s)" "blank_char w" "c \<in> set w"
  shows "c \<notin> {sq, dq, bslash, CHR ''('', CHR '')''}"
proof (cases "code c < 128")
  case True
  have "\<forall>w \<in> set (chars_of s). (\<forall>c \<in> set w. code c < 128 \<longrightarrow> w = [c])"
    by (induction s) (auto split: list.splits if_splits simp: continues_def high_byte_def dest!: bspec)
  with assms True have "w = [c]" by blast
  with assms(2) show ?thesis by (auto simp: blank_char_def space_cp_def)
next
  case False
  then show ?thesis by auto
qed

text \<open>Stripping removes a run of bytes the scanners pass over.\<close>

lemma lstrip_split:
  obtains b where "s = b @ lstrip s" "set b \<inter> {sq, dq, bslash, CHR ''('', CHR '')''} = {}"
proof
  show "s = concat (takeWhile blank_char (chars_of s)) @ lstrip s"
    by (metis concat_append length_concat_chars lstrip_def takeWhile_dropWhile_id)
  have "\<And>c w. w \<in> set (takeWhile blank_char (chars_of s)) \<Longrightarrow> c \<in> set w \<Longrightarrow> c \<notin> {sq, dq, bslash, CHR ''('', CHR '')''}"
    by (meson blank_bytes set_takeWhileD)
  then show "set (concat (takeWhile blank_char (chars_of s))) \<inter> {sq, dq, bslash, CHR ''('', CHR '')''} = {}"
    unfolding set_concat by blast
qed

section \<open>The prefix scan\<close>

lemma paren_scan_length [simp]: "length (paren_scan q d s) = length s"
  by (induction q d s rule: paren_scan.induct) auto

lemma paren_scan_shift: "paren_scan q (d + e) s = map (\<lambda>x. x + e) (paren_scan q d s)"
  by (induction q d s rule: paren_scan.induct) (auto simp: algebra_simps)

text \<open>The scan of a prefix is a prefix of the scan.\<close>

lemma paren_scan_take: "q = None \<or> q = Some sq \<or> q = Some dq \<Longrightarrow> paren_scan q d (take n s) = take n (paren_scan q d s)"
proof (induction q d s arbitrary: n rule: paren_scan.induct)
  case (2 k d c cs)
  note IH = 2
  show ?case
  proof (cases n)
    case (Suc m)
    show ?thesis
    proof (cases "c = bslash \<and> k = dq \<and> cs \<noteq> []")
      case True
      then obtain e es where "cs = e # es" by (cases cs) auto
      then show ?thesis using Suc True IH(1) [OF True, of "m - 1"] by (cases m) auto
    next
      case False
      then have "\<not> (c = bslash \<and> k = dq \<and> take m cs \<noteq> [])" by auto
      then show ?thesis using Suc False IH(2) [OF False, of m] IH(3) by auto
    qed
  qed simp
next
  case (3 d c cs)
  note IH = 3
  show ?case
  proof (cases n)
    case (Suc m)
    show ?thesis
    proof (cases "c = bslash \<and> cs \<noteq> []")
      case True
      then obtain e es where "cs = e # es" by (cases cs) auto
      then show ?thesis using Suc True IH(2) [of "m - 1"] by (cases m) auto
    next
      case False
      then have "\<not> (c = bslash \<and> take m cs \<noteq> [])" by auto
      with False Suc show ?thesis using IH(1) [of m] IH(3-5) [of m] by auto
    qed
  qed simp
qed simp

lemma paren_scan_plain:
  "set b \<inter> {sq, dq, bslash, CHR ''('', CHR '')''} = {} \<Longrightarrow> paren_scan None d (b @ s) = replicate (length b) d @ paren_scan None d s"
  by (induction b) auto

section \<open>Peeling by re-slicing\<close>

text \<open>The text itself is cut and balanced again at every step.\<close>

function reslice_right :: "string \<Rightarrow> string" where
  "reslice_right s =
     (if s \<noteq> [] \<and> last s = CHR '')'' \<and> paren_balance s < 0 then reslice_right (rstrip (butlast s)) else s)"
  by pat_completeness auto
termination
  by (relation "measure length") (auto intro: le_less_trans [OF length_rstrip])

declare reslice_right.simps [simp del]

definition reslice_left :: "string \<Rightarrow> string" where
  "reslice_left s =
     (if s \<noteq> [] \<and> hd s = CHR ''('' \<and> \<not> (2 \<le> length s \<and> s ! 1 = CHR ''('') then lstrip (tl s) else s)"

lemma reslice_right_shorter: "reslice_right s = s \<or> length (reslice_right s) < length s"
proof (induction s rule: reslice_right.induct)
  case (1 s)
  show ?case
  proof (cases "s \<noteq> [] \<and> last s = CHR '')'' \<and> paren_balance s < 0")
    case True
    then have "reslice_right s = reslice_right (rstrip (butlast s))" by (subst reslice_right.simps) simp
    moreover have "length (rstrip (butlast s)) < length s"
      using True length_rstrip [of "butlast s"] by (cases s) auto
    ultimately show ?thesis using 1 [OF True] by auto
  next
    case False
    then have "reslice_right s = s" by (subst reslice_right.simps) (simp only: if_False)
    then show ?thesis ..
  qed
qed

lemma reslice_left_shorter: "reslice_left s = s \<or> length (reslice_left s) < length s"
  using length_lstrip [of "tl s"] by (cases s) (auto simp: reslice_left_def)

function reslice :: "string \<Rightarrow> string" where
  "reslice s =
     (if reslice_right (reslice_left s) = s then s else reslice (reslice_right (reslice_left s)))"
  by pat_completeness auto
termination
proof (relation "measure length")
  fix s assume "reslice_right (reslice_left s) \<noteq> s"
  then have "length (reslice_right (reslice_left s)) < length s"
    using reslice_left_shorter [of s] reslice_right_shorter [of "reslice_left s"] by fastforce
  then show "(reslice_right (reslice_left s), s) \<in> measure length" by simp
qed simp

declare reslice.simps [simp del]

definition peel_group_by_reslicing :: "string \<Rightarrow> string" where
  "peel_group_by_reslicing segment = reslice (ustrip segment)"

section \<open>The window shows what the slice would be\<close>

text \<open>A position outside quotes: scanning from there goes on like the scan of the whole text.\<close>

definition clean :: "string \<Rightarrow> nat \<Rightarrow> bool" where
  "clean s i \<longleftrightarrow> paren_scan None (paren_prefix_balance s ! i) (drop i s) = drop i (paren_scan None 0 s)"

lemma clean_0: "clean s 0"
  by (simp add: clean_def paren_prefix_balance_def)

lemma clean_paren:
  assumes "clean s i" "i < length s" "s ! i = CHR ''(''"
  shows "clean s (i + 1)"
proof -
  let ?S = "paren_scan None 0 s" and ?p = "paren_prefix_balance s"
  have "(?p ! i + 1) # paren_scan None (?p ! i + 1) (drop (Suc i) s) = ?S ! i # drop (Suc i) ?S"
    using assms by (simp add: clean_def Cons_nth_drop_Suc flip: Cons_nth_drop_Suc [OF assms(2)])
  then have "?S ! i = ?p ! i + 1 \<and> paren_scan None (?p ! i + 1) (drop (Suc i) s) = drop (Suc i) ?S" by (metis list.inject)
  then have "paren_scan None (?S ! i) (drop (Suc i) s) = drop (Suc i) ?S" by metis
  then show ?thesis by (simp add: clean_def paren_prefix_balance_def)
qed

lemma clean_skip:
  assumes "clean s i" "drop i s = b @ r" "set b \<inter> {sq, dq, bslash, CHR ''('', CHR '')''} = {}"
  shows "clean s (i + length b)"
proof (cases "b = []")
  case False
  let ?S = "paren_scan None 0 s" and ?p = "paren_prefix_balance s" and ?d = "paren_prefix_balance s ! i"
  have e: "drop i ?S = replicate (length b) ?d @ paren_scan None ?d r"
    using assms paren_scan_plain [OF assms(3)] by (simp add: clean_def)
  have i: "i \<le> length s" using False assms(2) by (cases "i \<le> length s") auto
  have "drop (i + length b) ?S = paren_scan None ?d r"
    using arg_cong [OF e, of "drop (length b)"] by (simp add: add.commute)
  moreover have "?p ! (i + length b) = ?d"
  proof -
    have "?S ! (i + (length b - 1)) = drop i ?S ! (length b - 1)" using i by (simp add: nth_drop)
    also have "\<dots> = ?d" using False by (simp add: e nth_append)
    finally show ?thesis using False by (cases "length b") (auto simp: paren_prefix_balance_def)
  qed
  moreover have "drop (i + length b) s = r"
    using arg_cong [OF assms(2), of "drop (length b)"] by (simp add: add.commute)
  ultimately show ?thesis by (simp add: clean_def)
qed (use assms in simp)

lemma balance_window:
  assumes "clean s lo" "lo \<le> hi" "hi \<le> length s"
  shows "paren_balance (window s lo hi) = paren_prefix_balance s ! hi - paren_prefix_balance s ! lo"
proof (cases "lo = hi")
  case True
  then show ?thesis by (simp add: paren_balance_def paren_prefix_balance_def window_def)
next
  case False
  let ?S = "paren_scan None 0 s" and ?d = "paren_prefix_balance s ! lo" and ?w = "window s lo hi"
  have w: "?w = take (hi - lo) (drop lo s)" by (simp add: window_def drop_take)
  have "map (\<lambda>x. x + ?d) (paren_scan None 0 ?w) = paren_scan None ?d ?w"
    using paren_scan_shift [of None 0 ?d ?w] by simp
  also have "\<dots> = take (hi - lo) (drop lo ?S)"
    using assms(1) paren_scan_take [of None ?d "hi - lo" "drop lo s"] by (simp add: w clean_def)
  finally have m: "map (\<lambda>x. x + ?d) (paren_scan None 0 ?w) = take (hi - lo) (drop lo ?S)" .
  have ne: "paren_scan None 0 ?w \<noteq> []"
    using False assms by (metis length_window less_le list.size(3) paren_scan_length zero_less_diff less_numeral_extra(3))
  then have "last (paren_scan None 0 ?w) + ?d = last (take (hi - lo) (drop lo ?S))"
    using m by (metis last_map)
  also have "\<dots> = ?S ! (hi - 1)"
    using False assms by (simp add: last_conv_nth nth_drop)
  also have "\<dots> = paren_prefix_balance s ! hi"
    using False assms by (cases hi) (auto simp: paren_prefix_balance_def)
  finally show ?thesis using ne by (simp add: paren_balance_def paren_prefix_balance_def)
qed

lemma clean_left:
  assumes "clean s lo" "lo \<le> hi" "hi \<le> length s"
  shows "clean s (peel_left s lo hi) \<and> window s (peel_left s lo hi) hi = reslice_left (window s lo hi)"
proof -
  let ?w = "window s lo hi"
  have w: "?w \<noteq> [] \<longleftrightarrow> lo < hi" "lo < hi \<Longrightarrow> hd ?w = s ! lo" "lo + 1 < hi \<Longrightarrow> ?w ! 1 = s ! (lo + 1)"
      "2 \<le> length ?w \<longleftrightarrow> lo + 1 < hi" "lo < hi \<Longrightarrow> tl ?w = window s (lo + 1) hi"
    using assms by (auto simp: window_def hd_drop_conv_nth tl_drop drop_Suc)
  show ?thesis
  proof (cases "lo < hi \<and> s ! lo = CHR ''('' \<and> \<not> (lo + 1 < hi \<and> s ! (lo + 1) = CHR ''('')")
    case False
    then have "peel_left s lo hi = lo" "reslice_left ?w = ?w"
      unfolding peel_left_def reslice_left_def using w by (auto simp only: if_False split: if_splits)
    with assms show ?thesis by simp
  next
    case True
    obtain b where b: "window s (lo + 1) hi = b @ lstrip (window s (lo + 1) hi)"
        "set b \<inter> {sq, dq, bslash, CHR ''('', CHR '')''} = {}"
      using lstrip_split by blast
    have "hi - (lo + 1) = length b + length (lstrip (window s (lo + 1) hi))"
      using arg_cong [OF b(1), of length] assms by simp
    then have l: "peel_left s lo hi = lo + 1 + length b"
      using True unfolding peel_left_def by (subst if_P) auto
    have "drop (lo + 1) s = window s (lo + 1) hi @ drop hi s"
      using True assms by (metis Suc_eq_plus1 Suc_leI append_take_drop_id drop_append drop_take length_take min.absorb2
          diff_is_0_eq' drop0 window_def)
    then have "drop (lo + 1) s = b @ lstrip (window s (lo + 1) hi) @ drop hi s"
      using b(1) by (metis append_assoc)
    then have c: "clean s (peel_left s lo hi)"
      using clean_skip [OF clean_paren [OF assms(1)] _ b(2)] assms(3) True l by simp
    have "window s (peel_left s lo hi) hi = drop (length b) (window s (lo + 1) hi)"
      by (simp add: window_def l add.commute)
    also have "\<dots> = lstrip (window s (lo + 1) hi)" using b(1) by (metis append_eq_conv_conj)
    also have "\<dots> = reslice_left ?w" using True w by (simp add: reslice_left_def)
    finally show ?thesis using c by simp
  qed
qed

lemma peel_right_window:
  assumes "clean s lo" "lo \<le> hi" "hi \<le> length s"
  shows "window s lo (peel_right (paren_prefix_balance s) s lo hi) = reslice_right (window s lo hi)"
  using assms
proof (induction "paren_prefix_balance s" s lo hi rule: peel_right.induct)
  case (1 s lo hi)
  let ?p = "paren_prefix_balance s" and ?w = "window s lo hi" and ?t = "rstrip (window s lo (hi - 1))"
  have w: "?w \<noteq> [] \<longleftrightarrow> lo < hi" "lo < hi \<Longrightarrow> last ?w = s ! (hi - 1)" "lo < hi \<Longrightarrow> butlast ?w = window s lo (hi - 1)"
    using 1(4) by (auto simp: window_def last_conv_nth nth_drop butlast_drop butlast_take)
  show ?case
  proof (cases "lo < hi \<and> hi \<le> length s \<and> s ! (hi - 1) = CHR '')'' \<and> ?p ! hi - ?p ! lo < 0")
    case True
    then have a: "peel_right ?p s lo hi = peel_right ?p s lo (lo + length ?t)" by (subst peel_right.simps) simp
    have b: "reslice_right ?w = reslice_right ?t"
      using True w balance_window [OF 1(2-4)] by (subst reslice_right.simps) simp
    obtain x where x: "window s lo (hi - 1) = ?t @ x" using rstrip_prefix by blast
    have "length ?t \<le> hi - 1 - lo" using True length_rstrip [of "window s lo (hi - 1)"] length_window [of "hi - 1" s lo] by linarith
    then have le: "lo + length ?t \<le> hi - 1" using True by linarith
    have "window s lo (lo + length ?t) = take (length ?t) (window s lo (hi - 1))"
      using le by (simp add: window_def drop_take)
    also have "\<dots> = ?t" using x by (metis append_eq_conv_conj)
    finally have c: "window s lo (lo + length ?t) = ?t" .
    have "lo + length ?t \<le> length s" using le True by linarith
    then show ?thesis using 1(1) [OF True 1(2)] c a b by simp
  next
    case False
    then have a: "peel_right ?p s lo hi = hi" by (subst peel_right.simps) (simp only: if_False)
    have "\<not> (?w \<noteq> [] \<and> last ?w = CHR '')'' \<and> paren_balance ?w < 0)"
      using False w balance_window [OF 1(2-4)] 1(4) by auto
    then have "reslice_right ?w = ?w" by (subst reslice_right.simps) (simp only: if_False)
    with a show ?thesis by simp
  qed
qed

lemma peel_window_reslice:
  assumes "clean s lo" "lo \<le> hi" "hi \<le> length s"
  shows "peel_window (paren_prefix_balance s) s lo hi = reslice (window s lo hi)"
  using assms
proof (induction "paren_prefix_balance s" s lo hi rule: peel_window.induct)
  case (1 s lo hi)
  let ?p = "paren_prefix_balance s" and ?w = "window s lo hi" and ?lo = "peel_left s lo hi"
  let ?hi = "peel_right ?p s ?lo hi"
  have lo: "lo \<le> ?lo" "?lo \<le> hi" using peel_left_ge [of hi s lo] 1(3,4) by auto
  have hi: "?lo \<le> ?hi" "?hi \<le> hi" using peel_right_ge [OF lo(2)] peel_right_le by auto
  have c: "clean s ?lo" "window s ?lo hi = reslice_left ?w" using clean_left [OF 1(2-4)] by auto
  have s: "window s ?lo ?hi = reslice_right (reslice_left ?w)"
    using peel_right_window [OF c(1) lo(2) 1(4)] c(2) by simp
  have e: "window s ?lo ?hi = ?w \<longleftrightarrow> ?lo = lo \<and> ?hi = hi"
  proof
    assume "window s ?lo ?hi = ?w"
    then have "?hi - ?lo = hi - lo" using hi 1(4) by (metis length_window le_trans)
    then show "?lo = lo \<and> ?hi = hi" using lo hi 1(3) by linarith
  qed metis
  show ?case
  proof (cases "?lo = lo \<and> ?hi = hi")
    case True
    then have "reslice_right (reslice_left ?w) = ?w" using s e by metis
    then have "reslice ?w = ?w" by (subst reslice.simps) simp
    moreover have "peel_right ?p s lo hi = hi" using True by metis
    with True have "peel_window ?p s lo hi = ?w" using 1(3,4) by (subst peel_window.simps) (simp add: Let_def)
    ultimately show ?thesis by simp
  next
    case False
    then have "reslice_right (reslice_left ?w) \<noteq> ?w" using s e by metis
    then have "reslice ?w = reslice (window s ?lo ?hi)" using s by (subst reslice.simps) simp
    moreover have "peel_window ?p s lo hi = peel_window ?p s ?lo ?hi"
      using False 1(3,4) by (subst peel_window.simps) (auto simp: Let_def)
    ultimately show ?thesis using 1(1) [OF _ refl refl False c(1) hi(1)] 1(3,4) hi(2) by simp
  qed
qed

text \<open>Peeling a subshell group over one prefix scan of the segment gives what stripping, re-slicing and
  re-balancing the text at every step gives.\<close>

theorem peel_group_is_reslicing: "peel_group segment = peel_group_by_reslicing segment"
proof (cases "CHR ''('' \<notin> set (ustrip segment) \<and> CHR '')'' \<notin> set (ustrip segment)")
  case True
  let ?s = "ustrip segment"
  have "reslice_left ?s = ?s" using True by (cases ?s) (auto simp: reslice_left_def)
  moreover have "reslice_right ?s = ?s"
    using True by (subst reslice_right.simps) (metis last_in_set)
  ultimately have "reslice ?s = ?s" by (subst reslice.simps) simp
  with True show ?thesis by (simp add: peel_group_def peel_group_by_reslicing_def Let_def)
next
  case False
  then have "peel_group segment = reslice (window (ustrip segment) 0 (length (ustrip segment)))"
    unfolding peel_group_def Let_def using peel_window_reslice [OF clean_0] by (subst if_not_P) auto
  then show ?thesis by (simp add: peel_group_by_reslicing_def window_def)
qed

section \<open>Cutting a chained line\<close>

text \<open>Read to its end, the text is outside quotes and owes no escaped character.\<close>

fun settled :: "char option \<Rightarrow> string \<Rightarrow> bool" where
  "settled q [] \<longleftrightarrow> q = None"
| "settled (Some k) (c # cs) \<longleftrightarrow>
     (if c = bslash \<and> k = dq \<and> cs \<noteq> [] then settled (Some k) (tl cs)
      else settled (if c = k then None else Some k) cs)"
| "settled None (c # cs) \<longleftrightarrow>
     (if c = sq \<or> c = dq then settled (Some c) cs
      else if c = bslash then cs \<noteq> [] \<and> settled None (tl cs)
      else settled None cs)"

lemma split_ops_nonempty [simp]: "split_ops q buf s \<noteq> []"
  by (induction q buf s rule: split_ops.induct) auto

lemma chars_of_append_space: "chars_of (s @ '' '') = chars_of s @ ['' '']"
  by (induction s) (auto split: list.splits simp: continues_def)

lemma blank_space: "blank_char '' ''"
  by (simp add: blank_char_def space_cp_def)

lemma chars_of_space: "chars_of (CHR '' '' # s) = [CHR '' ''] # chars_of s"
  by (rule chars_of_ascii) simp

lemma all_blank: "\<forall>w \<in> set ws. blank_char w \<Longrightarrow> dropWhile blank_char ws = []"
  by (simp only: dropWhile_eq_Nil_conv)

lemma not_all_blank:
  assumes "w \<in> set (chars_of s)" "\<not> blank_char w"
  shows "lstrip s \<noteq> []" "rstrip s \<noteq> []"
proof -
  have e: "ws \<noteq> []" if "[] \<notin> set ws" "w \<in> set ws" for ws :: "string list" using that by auto
  have "hd (dropWhile blank_char (chars_of s)) \<noteq> [] \<and> dropWhile blank_char (chars_of s) \<noteq> []"
    using assms chars_of_nonempty [of s]
    by (metis dropWhile_eq_Nil_conv hd_in_set set_dropWhileD)
  then show "lstrip s \<noteq> []"
    unfolding lstrip_def by (cases "dropWhile blank_char (chars_of s)") auto
  have "hd (dropWhile blank_char (rev (chars_of s))) \<noteq> [] \<and> dropWhile blank_char (rev (chars_of s)) \<noteq> []"
    using assms chars_of_nonempty [of s]
    by (metis dropWhile_eq_Nil_conv hd_in_set set_dropWhileD set_rev)
  then show "rstrip s \<noteq> []"
    unfolding rstrip_def by (cases "dropWhile blank_char (rev (chars_of s))") auto
qed

lemma ustrip_space_left: "ustrip (CHR '' '' # s) = ustrip s"
  by (simp add: ustrip_def lstrip_def chars_of_space blank_space del: chars_of.simps)

lemma rstrip_space: "rstrip (s @ '' '') = rstrip s"
  by (simp add: rstrip_def chars_of_append_space blank_space)

lemma lstrip_space: "lstrip (s @ '' '') = (if lstrip s = [] then [] else lstrip s @ '' '')"
proof (cases "\<forall>w \<in> set (chars_of s). blank_char w")
  case True
  then show ?thesis
    using all_blank [OF True] all_blank [of "chars_of s @ ['' '']"]
    by (simp add: lstrip_def chars_of_append_space blank_space del: concat_eq_Nil_conv dropWhile_eq_Nil_conv)
next
  case False
  then obtain w where "w \<in> set (chars_of s)" "\<not> blank_char w" by blast
  then show ?thesis
    using not_all_blank [of w s] by (simp add: lstrip_def chars_of_append_space dropWhile_append1 del: concat_eq_Nil_conv)
qed

lemma ustrip_space_right: "ustrip (s @ '' '') = ustrip s"
  by (simp add: ustrip_def lstrip_space rstrip_space)

lemma after_gt_space: "after_gt (CHR '' '' # buf) = after_gt buf"
proof -
  have "rstrip (CHR '' '' # buf) = (if rstrip buf = [] then [] else CHR '' '' # rstrip buf)"
  proof (cases "\<forall>w \<in> set (chars_of buf). blank_char w")
    case True
    then show ?thesis
      using all_blank [of "rev (chars_of buf)"] all_blank [of "rev (chars_of buf) @ ['' '']"]
      by (simp add: rstrip_def chars_of_space blank_space del: chars_of.simps concat_eq_Nil_conv dropWhile_eq_Nil_conv)
  next
    case False
    then obtain w where "w \<in> set (chars_of buf)" "\<not> blank_char w" by blast
    then show ?thesis
      using not_all_blank [of w buf]
      by (simp add: rstrip_def chars_of_space dropWhile_append1 del: chars_of.simps concat_eq_Nil_conv)
  qed
  then show ?thesis by (simp add: after_gt_def)
qed

text \<open>A blank in front of the text so far is a blank in front of the first part.\<close>

lemma split_ops_space: "split_ops q (CHR '' '' # buf) s = (CHR '' '' # hd (split_ops q buf s)) # tl (split_ops q buf s)"
  by (induction q buf s rule: split_ops.induct) (simp_all add: after_gt_space)

definition chain_ops :: "string list" where
  "chain_ops = [''&&'', ''||'', '';'']"

text \<open>The parts of a text that one more blank follows.\<close>

definition spaced :: "string list \<Rightarrow> string list" where
  "spaced ps = butlast ps @ [last ps @ '' '']"

lemma spaced_Cons: "ps \<noteq> [] \<Longrightarrow> spaced (p # ps) = p # spaced ps"
  by (simp add: spaced_def)

lemma split_ops_op: "op \<in> set chain_ops \<Longrightarrow> split_ops None buf (op @ r) = buf # split_ops None [] r"
  by (auto simp: chain_ops_def)

lemma split_ops_at_chain:
  "op \<in> set chain_ops \<Longrightarrow> split_ops None buf (CHR '' '' # op @ r) = (buf @ '' '') # split_ops None [] r"
  by (auto simp: chain_ops_def)

lemma split_ops_chain:
  assumes op: "op \<in> set chain_ops"
  shows "settled q a \<Longrightarrow> split_ops q buf (a @ CHR '' '' # op @ r) = spaced (split_ops q buf a) @ split_ops None [] r"
proof (induction q buf a rule: split_ops.induct)
  case (1 q buf)
  then show ?case using split_ops_at_chain [OF op] by (simp add: spaced_def)
next
  case (2 k buf c cs)
  note IH = 2
  show ?case
  proof (cases "c = bslash \<and> k = dq \<and> cs \<noteq> []")
    case True
    then obtain e es where "cs = e # es" by (cases cs) auto
    then show ?thesis using True IH(1) [OF True] IH(3) by simp
  next
    case False
    then have "\<not> (c = bslash \<and> k = dq)" using IH(3) by (cases cs) (auto split: if_splits)
    then show ?thesis using IH(2) [OF False] IH(3) False by auto
  qed
next
  case (3 buf c cs)
  note IH = 3
  show ?case
  proof (cases cs)
    case Nil
    with IH(9) show ?thesis
      by (simp add: split_ops_op [OF op] split_ops_at_chain [OF op] spaced_def split: if_splits)
  next
    case (Cons d ds)
    let ?quote = "c = sq \<or> c = dq"
    let ?twin = "(c = CHR ''&'' \<or> c = CHR ''|'') \<and> cs \<noteq> [] \<and> hd cs = c"
    let ?cut = "c = CHR '';'' \<or> c = CHR ''|'' \<or> c = newline_char"
    consider "?quote" | "\<not> ?quote" "c = bslash" | "\<not> ?quote" "c \<noteq> bslash" "?twin"
      | "\<not> ?quote" "c \<noteq> bslash" "\<not> ?twin" "c = CHR ''&''"
      | "\<not> ?quote" "c \<noteq> bslash" "\<not> ?twin" "c \<noteq> CHR ''&''" "?cut"
      | "\<not> ?quote" "c \<noteq> bslash" "\<not> ?twin" "c \<noteq> CHR ''&''" "\<not> ?cut"
      by blast
    then show ?thesis
    proof cases
      case 1
      have "settled (Some c) cs" using 1 IH(9) by simp
      from IH(1) [OF 1 this] show ?thesis using 1 by simp
    next
      case 2
      have "settled None (tl cs)" using 2 Cons IH(9) by simp
      from IH(2) [OF 2(1) _ this] show ?thesis using 2 Cons by simp
    next
      case 3
      have "settled None (tl cs)" using 3 Cons IH(9) by (simp split: if_splits)
      from IH(3) [OF 3(1) _ 3(3) this] 3(2) show ?thesis using 3 Cons by (simp add: spaced_Cons)
    next
      case 4
      then have s: "settled None cs" using IH(9) by simp
      show ?thesis
      proof (cases "after_gt buf \<or> d = CHR ''>''")
        case True
        then have "after_gt buf \<or> cs \<noteq> [] \<and> hd cs = CHR ''>''" using Cons by simp
        from IH(4) [OF 4(1) _ 4(3,4) this s] 4(2) show ?thesis using True 4 Cons by simp
      next
        case False
        then have "\<not> (after_gt buf \<or> cs \<noteq> [] \<and> hd cs = CHR ''>'')" using Cons by simp
        from IH(5) [OF 4(1) _ 4(3,4) this s] 4(2) show ?thesis using False 4 Cons by (simp add: spaced_Cons)
      qed
    next
      case 5
      then have s: "settled None cs" using IH(9) by simp
      show ?thesis
      proof (cases "c = CHR ''|'' \<and> after_gt buf")
        case True
        from IH(6) [OF 5(1) _ 5(3,4,5) True s] 5(2) show ?thesis using True 5 Cons by simp
      next
        case False
        from IH(7) [OF 5(1) _ 5(3,4,5) False s] 5(2)
        have ih: "split_ops None [] (cs @ CHR '' '' # op @ r) = spaced (split_ops None [] cs) @ split_ops None [] r"
          by blast
        have "split_ops None buf (c # d # x) = buf # split_ops None [] (d # x)" for x
          using 5(5) by (elim disjE) (use False 5(3) Cons in simp_all)
        then show ?thesis using ih Cons by (simp add: spaced_Cons)
      qed
    next
      case 6
      then have s: "settled None cs" using IH(9) by simp
      from IH(8) [OF 6(1) _ 6(3,4,5) s] 6(2) show ?thesis using 6 Cons by simp
    qed
  qed
qed

lemma strip_parts:
  "filter (\<lambda>p. p \<noteq> []) (map ustrip (spaced ps @ split_ops None [CHR '' ''] b)) =
     filter (\<lambda>p. p \<noteq> []) (map ustrip ps) @ filter (\<lambda>p. p \<noteq> []) (map ustrip (split_ops None [] b))" if "ps \<noteq> []"
proof -
  have "map ustrip (spaced ps) = map ustrip (butlast ps @ [last ps])"
    by (simp add: spaced_def ustrip_space_right)
  then have "map ustrip (spaced ps) = map ustrip ps" using that by simp
  moreover have "map ustrip (split_ops None [CHR '' ''] b) = map ustrip (split_ops None [] b)"
    using split_ops_space [of None "[]" b] by (cases "split_ops None [] b") (simp_all add: ustrip_space_left)
  ultimately show ?thesis by simp
qed

text \<open>A line chained by \<open>&&\<close>, \<open>||\<close> or \<open>;\<close>, whose first half leaves no quote open and no escape unfinished, is cut
  into the commands of its halves, all of them and in their order: nothing before the operator can hide what
  comes after it.\<close>

theorem chained_commands_are_all_read:
  assumes "settled None a" "op \<in> set chain_ops"
  shows "split_on_operators (a @ '' '' @ op @ '' '' @ b) = split_on_operators a @ split_on_operators b"
  using split_ops_chain [OF assms(2,1), of "[]" "'' '' @ b"] strip_parts [of "split_ops None [] a" b]
  by (simp add: split_on_operators_def)

lemma chained_commands_are_all_read_witness:
  "split_on_operators (''echo hi'' @ '' '' @ ''&&'' @ '' '' @ ''rm -r /srv'') = split_on_operators ''echo hi'' @ split_on_operators ''rm -r /srv''"
  by (rule chained_commands_are_all_read; code_simp)

end
