(* ===== verification/WalkLaws.thy ===== *)
theory WalkLaws
  imports ShellWalk ShellLaws
begin

text \<open>
  What the budget of the walk buys. Without a budget, the commands of a line are a plain recursion to a given
  depth; a walk that does not run out returns exactly those, to any depth at least its own, and a walk never
  returns more than its budget. Nothing in front of an operator takes away the commands behind it.
\<close>

section \<open>The commands of a line, without a budget\<close>

fun command_list :: "library \<Rightarrow> (string \<Rightarrow> string list) option \<Rightarrow> string list \<Rightarrow> string list" where
  "command_list lb deeper [] = []"
| "command_list lb deeper (s # ss) =
     (let segment = peel_prefixed_group lb s in
      if segment = [] then command_list lb deeper ss
      else (case deeper of
              None \<Rightarrow> [segment]
            | Some f \<Rightarrow>
                (case inner_program lb segment of
                   None \<Rightarrow> [segment]
                 | Some p \<Rightarrow> if f p = [] then [segment] else f p)
                @ concat (map f (substitution_bodies segment)))
           @ command_list lb deeper ss)"

definition line_commands :: "library \<Rightarrow> (string \<Rightarrow> string list) option \<Rightarrow> string \<Rightarrow> string list" where
  "line_commands lb deeper command =
     (if ustrip command = [] then [] else command_list lb deeper (split_on_operators command))"

primrec commands_within :: "library \<Rightarrow> nat \<Rightarrow> string \<Rightarrow> string list" where
  "commands_within lb 0 = line_commands lb None"
| "commands_within lb (Suc n) = line_commands lb (Some (commands_within lb n))"

section \<open>A walk that does not run out\<close>

lemma charge_exhausted:
  "charge b s = (True, b1) \<Longrightarrow> wb_exhausted b1 = wb_exhausted b"
  "charge b s = (False, b1) \<Longrightarrow> wb_exhausted b1"
  by (auto simp: charge_def Let_def split: if_splits)

definition reads_as :: "walker \<Rightarrow> (string \<Rightarrow> string list) \<Rightarrow> bool" where
  "reads_as w f \<longleftrightarrow>
     (\<forall>c b. \<not> wb_exhausted (snd (w c b)) \<longrightarrow> \<not> wb_exhausted b \<and> fst (w c b) = f c)"

lemma reads_asD:
  "reads_as w f \<Longrightarrow> w c b = (out, b') \<Longrightarrow> \<not> wb_exhausted b' \<Longrightarrow> \<not> wb_exhausted b \<and> out = f c"
  unfolding reads_as_def by (metis fst_conv snd_conv)

lemma walk_each_read:
  "reads_as w f \<Longrightarrow> walk_each w cs b = (out, b') \<Longrightarrow> \<not> wb_exhausted b' \<Longrightarrow>
     \<not> wb_exhausted b \<and> out = concat (map f cs)"
proof (induction cs arbitrary: b out b')
  case (Cons c cs)
  obtain o1 b1 o2 b2 where w: "w c b = (o1, b1)" "walk_each w cs b1 = (o2, b2)" by (metis surj_pair)
  with Cons.prems have e: "out = o1 @ o2" "b' = b2" by auto
  with Cons.IH [OF Cons.prems(1) w(2)] Cons.prems(3) have "\<not> wb_exhausted b1" "o2 = concat (map f cs)" by auto
  with reads_asD [OF Cons.prems(1) w(1)] e show ?case by simp
qed simp

lemma own_commands_read:
  assumes "reads_as w f" "own_commands lb w s b = (out, b')" "\<not> wb_exhausted b'"
  shows "\<not> wb_exhausted b
     \<and> out = (case inner_program lb s of None \<Rightarrow> [s] | Some p \<Rightarrow> if f p = [] then [s] else f p)"
proof (cases "inner_program lb s")
  case None
  then show ?thesis using assms by (simp add: own_commands_def)
next
  case (Some p)
  obtain ex b'' where w: "w p b = (ex, b'')" by (cases "w p b")
  then have "b'' = b'" "out = (if ex = [] then [s] else ex)" using assms(2) Some by (auto simp: own_commands_def)
  then show ?thesis using reads_asD [OF assms(1) w] assms(3) Some by simp
qed

lemma walk_segments_read:
  "reads_as w f \<Longrightarrow> walk_segments lb (Some w) ss b = (out, b') \<Longrightarrow> \<not> wb_exhausted b' \<Longrightarrow>
     \<not> wb_exhausted b \<and> out = command_list lb (Some f) ss"
proof (induction ss arbitrary: b out b')
  case (Cons s ss)
  let ?seg = "peel_prefixed_group lb s"
  show ?case
  proof (cases "?seg = []")
    case True
    with Cons show ?thesis by simp
  next
    case False
    obtain ok b1 where ch: "charge b ?seg = (ok, b1)" by (metis surj_pair)
    have ok: ok
    proof (rule ccontr)
      assume n: "\<not> ok"
      then have "b' = b1" using Cons.prems(2) False ch by simp
      with Cons.prems(3) charge_exhausted(2) ch n show False by simp
    qed
    obtain own b2 where own: "own_commands lb w ?seg b1 = (own, b2)" by (cases "own_commands lb w ?seg b1")
    obtain more b3 where more: "walk_each w (substitution_bodies ?seg) b2 = (more, b3)" by (metis surj_pair)
    obtain rest b4 where rest: "walk_segments lb (Some w) ss b3 = (rest, b4)" by (metis surj_pair)
    have e: "out = own @ more @ rest" "b' = b4"
      using Cons.prems(2) False ch ok own more rest by (simp_all add: Let_def)
    from Cons.IH [OF Cons.prems(1) rest] Cons.prems(3) e(2)
    have r: "\<not> wb_exhausted b3" "rest = command_list lb (Some f) ss" by auto
    from walk_each_read [OF Cons.prems(1) more r(1)]
    have m: "\<not> wb_exhausted b2" "more = concat (map f (substitution_bodies ?seg))" by auto
    from own_commands_read [OF Cons.prems(1) own m(1)]
    have "\<not> wb_exhausted b1"
        "own = (case inner_program lb ?seg of None \<Rightarrow> [?seg] | Some p \<Rightarrow> if f p = [] then [?seg] else f p)"
      by auto
    then show ?thesis using charge_exhausted(1) ch ok e(1) m(2) r(2) False by (simp add: Let_def)
  qed
qed simp

lemma walk_segments_read_flat:
  "walk_segments lb None ss b = (out, b') \<Longrightarrow> \<not> wb_exhausted b' \<Longrightarrow>
     \<not> wb_exhausted b \<and> out = command_list lb deeper ss"
proof (induction ss arbitrary: b out b')
  case (Cons s ss)
  let ?seg = "peel_prefixed_group lb s"
  show ?case
  proof (cases "?seg = []")
    case True
    with Cons show ?thesis by simp
  next
    case False
    obtain ok b1 where ch: "charge b ?seg = (ok, b1)" by (metis surj_pair)
    have ok: ok
    proof (rule ccontr)
      assume n: "\<not> ok"
      then have "b' = b1" using Cons.prems(1) False ch by simp
      with Cons.prems(2) charge_exhausted(2) ch n show False by simp
    qed
    let ?b2 = "if inner_program lb ?seg \<noteq> None \<or> substitution_bodies ?seg \<noteq> [] then b1\<lparr>wb_exhausted := True\<rparr> else b1"
    obtain rest b4 where rest: "walk_segments lb None ss ?b2 = (rest, b4)" by (metis surj_pair)
    have e: "out = ?seg # rest" "b' = b4"
      using Cons.prems(1) False ch ok rest by (simp_all add: Let_def)
    from Cons.IH [OF rest] Cons.prems(2) e(2)
    have r: "\<not> wb_exhausted ?b2" "rest = command_list lb deeper ss" by auto
    from r(1) have n: "inner_program lb ?seg = None" "substitution_bodies ?seg = []" "\<not> wb_exhausted b1"
      by (auto split: if_splits)
    then show ?thesis using charge_exhausted(1) ch ok e(1) r(2) False by (simp add: Let_def split: option.split)
  qed
qed simp

lemma walk_down_read: "reads_as (walk_down lb n) (commands_within lb (n + k))"
proof (induction n)
  case 0
  have "\<not> wb_exhausted b \<and> out = commands_within lb k c"
    if "walk_line lb None c b = (out, b')" "\<not> wb_exhausted b'" for c b out b'
  proof -
    obtain deeper where d: "commands_within lb k = line_commands lb deeper" by (cases k) auto
    show ?thesis
      using that walk_segments_read_flat [of lb "split_on_operators c" b out b' deeper]
      by (auto simp: d walk_line_def line_commands_def split: if_splits)
  qed
  then show ?case unfolding reads_as_def by (simp add: prod_eq_iff)
next
  case (Suc n)
  have "\<not> wb_exhausted b \<and> out = commands_within lb (Suc n + k) c"
    if "walk_line lb (Some (walk_down lb n)) c b = (out, b')" "\<not> wb_exhausted b'" for c b out b'
    using that walk_segments_read [OF Suc, of lb "split_on_operators c" b out b']
    by (auto simp: walk_line_def line_commands_def split: if_splits)
  then show ?case unfolding reads_as_def by (simp add: prod_eq_iff)
qed


section \<open>The bounds\<close>

definition spends :: "walk_budget \<Rightarrow> string list \<Rightarrow> walk_budget \<Rightarrow> bool" where
  "spends b out b' \<longleftrightarrow>
     int (length out) + max 0 (wb_segments b') \<le> max 0 (wb_segments b)
     \<and> int (sum_list (map num_chars out)) + max 0 (wb_chars b') \<le> max 0 (wb_chars b)"

lemma spends_refl: "spends b [] b"
  by (simp add: spends_def)

lemma spends_trans: "spends b xs b1 \<Longrightarrow> spends b1 ys b2 \<Longrightarrow> spends b (xs @ ys) b2"
  by (auto simp: spends_def)

lemma spends_weaken: "spends b xs b' \<Longrightarrow> spends b [] b'"
  by (auto simp: spends_def)

lemma spends_mark: "spends b xs b' \<Longrightarrow> spends b xs (b'\<lparr>wb_exhausted := e\<rparr>)"
  by (simp add: spends_def)

lemma spends_charge: "charge b s = (ok, b1) \<Longrightarrow> spends b (if ok then [s] else []) b1"
  by (auto simp: charge_def spends_def Let_def split: if_splits)

definition bounded_walker :: "walker \<Rightarrow> bool" where
  "bounded_walker w \<longleftrightarrow> (\<forall>c b. spends b (fst (w c b)) (snd (w c b)))"

lemma bounded_walkerD: "bounded_walker w \<Longrightarrow> w c b = (out, b') \<Longrightarrow> spends b out b'"
  unfolding bounded_walker_def by (metis fst_conv snd_conv)

lemma walk_each_bounded: "bounded_walker w \<Longrightarrow> spends b (fst (walk_each w cs b)) (snd (walk_each w cs b))"
proof (induction cs arbitrary: b)
  case (Cons c cs)
  obtain o1 b1 where w: "w c b = (o1, b1)" by (metis surj_pair)
  have "spends b o1 b1" by (rule bounded_walkerD [OF Cons.prems w])
  then show ?case using Cons.IH [OF Cons.prems, of b1] w by (auto simp: split_beta Let_def intro: spends_trans)
qed (simp add: spends_refl)

lemma own_commands_bounded:
  assumes "bounded_walker w" "own_commands lb w s b1 = (out, b2)" "spends b [s] b1"
  shows "spends b out b2"
proof (cases "inner_program lb s")
  case None
  then show ?thesis using assms by (simp add: own_commands_def)
next
  case (Some p)
  obtain ex b'' where ex: "w p b1 = (ex, b'')" by (cases "w p b1")
  then have e: "b'' = b2" "out = (if ex = [] then [s] else ex)" using assms(2) Some by (auto simp: own_commands_def)
  have s: "spends b1 ex b2" using bounded_walkerD [OF assms(1) ex] e by simp
  show ?thesis
    using spends_trans [OF assms(3) s] spends_trans [OF spends_weaken [OF assms(3)] s] e(2) by (simp split: if_splits)
qed

lemma walk_segments_bounded:
  "(\<And>w. deeper = Some w \<Longrightarrow> bounded_walker w) \<Longrightarrow>
     spends b (fst (walk_segments lb deeper ss b)) (snd (walk_segments lb deeper ss b))"
proof (induction ss arbitrary: b)
  case (Cons s ss)
  let ?seg = "peel_prefixed_group lb s"
  show ?case
  proof (cases "?seg = []")
    case True
    then show ?thesis using Cons by simp
  next
    case False
    obtain ok b1 where ch: "charge b ?seg = (ok, b1)" by (metis surj_pair)
    note sp = spends_charge [OF ch]
    show ?thesis
    proof (cases ok)
      case False
      then show ?thesis using sp \<open>?seg \<noteq> []\<close> ch by simp
    next
      case True
      show ?thesis
      proof (cases deeper)
        case None
        let ?b2 = "if inner_program lb ?seg \<noteq> None \<or> substitution_bodies ?seg \<noteq> [] then b1\<lparr>wb_exhausted := True\<rparr> else b1"
        have "spends b [?seg] ?b2" using sp True by (simp add: spends_mark)
        from spends_trans [OF this Cons.IH [of ?b2, OF Cons.prems]] show ?thesis
          using None True ch False by (simp add: Let_def split_beta)
      next
        case (Some w)
        have bw: "bounded_walker w" using Cons.prems Some by simp
        obtain own b2 where own: "own_commands lb w ?seg b1 = (own, b2)" by (cases "own_commands lb w ?seg b1")
        have "spends b own b2" using own_commands_bounded [OF bw own] sp True by simp
        moreover obtain more b3 where more: "walk_each w (substitution_bodies ?seg) b2 = (more, b3)" by (cases "walk_each w (substitution_bodies ?seg) b2")
        moreover have "spends b2 more b3" using walk_each_bounded [OF bw, of b2 "substitution_bodies ?seg"] more by simp
        ultimately have "spends b (own @ more) b3" using spends_trans by blast
        from spends_trans [OF this Cons.IH [of b3, OF Cons.prems]] show ?thesis
          using Some True ch False own more by (simp add: Let_def split_beta)
      qed
    qed
  qed
qed (simp add: spends_refl)

lemma walk_down_bounded: "bounded_walker (walk_down lb n)"
proof (induction n)
  case 0
  then show ?case
    using walk_segments_bounded [of None] by (simp add: bounded_walker_def walk_line_def spends_refl)
next
  case (Suc n)
  then show ?case
    using walk_segments_bounded [of "Some (walk_down lb n)"] by (simp add: bounded_walker_def walk_line_def spends_refl)
qed

text \<open>Whatever the line, the walk returns at most 16384 commands, of at most 262144 characters in all.\<close>

theorem walk_is_bounded:
  "length (fst (shell_segments lb command)) \<le> 16384
   \<and> sum_list (map num_chars (fst (shell_segments lb command))) \<le> 262144"
proof -
  obtain out b' where w: "shell_segments lb command = (out, b')" by (metis surj_pair)
  then have "spends fresh_budget out b'"
    using bounded_walkerD [OF walk_down_bounded] by (simp add: shell_segments_def)
  then have "int (length out) + max 0 (wb_segments b') \<le> 16384"
      "int (sum_list (map num_chars out)) + max 0 (wb_chars b') \<le> 262144"
    by (simp_all add: spends_def fresh_budget_def walk_max_segments_def walk_max_chars_def)
  then have "int (length out) \<le> 16384" "int (sum_list (map num_chars out)) \<le> 262144" by linarith+
  then show ?thesis using w by simp
qed

section \<open>A chained line\<close>

lemma command_list_append: "command_list lb deeper (xs @ ys) = command_list lb deeper xs @ command_list lb deeper ys"
  by (induction xs) (simp_all add: Let_def)

lemma ascii_char: "w \<in> set (chars_of s) \<Longrightarrow> c \<in> set w \<Longrightarrow> code c < 128 \<Longrightarrow> w = [c]"
proof -
  have "\<forall>w \<in> set (chars_of s). \<forall>c \<in> set w. code c < 128 \<longrightarrow> w = [c]"
    by (induction s) (auto split: list.splits if_splits simp: continues_def high_byte_def dest!: bspec)
  then show "w \<in> set (chars_of s) \<Longrightarrow> c \<in> set w \<Longrightarrow> code c < 128 \<Longrightarrow> w = [c]" by blast
qed

lemma in_dropWhile: "x \<in> set xs \<Longrightarrow> \<not> P x \<Longrightarrow> x \<in> set (dropWhile P xs)"
  by (induction xs) auto

text \<open>Stripping keeps every visible ASCII character.\<close>

lemma strip_keeps:
  assumes "c \<in> set s" "code c < 128" "\<not> blank_char [c]"
  shows "c \<in> set (lstrip s)" "c \<in> set (rstrip s)"
proof -
  obtain w where w: "w \<in> set (chars_of s)" "c \<in> set w"
    using assms(1) length_concat_chars [of s] by (metis UN_E set_concat)
  then have e: "w = [c]" using ascii_char assms(2) by blast
  have "w \<in> set (dropWhile blank_char (chars_of s))" using w(1) assms(3) e by (intro in_dropWhile) auto
  then show "c \<in> set (lstrip s)" using w(2) by (auto simp: lstrip_def)
  have "w \<in> set (dropWhile blank_char (rev (chars_of s)))" using w(1) assms(3) e by (intro in_dropWhile) auto
  then show "c \<in> set (rstrip s)" using w(2) by (auto simp: rstrip_def)
qed

lemma chained_not_blank: "op \<in> set chain_ops \<Longrightarrow> ustrip (a @ '' '' @ op @ '' '' @ b) \<noteq> []"
proof -
  assume op: "op \<in> set chain_ops"
  let ?l = "a @ '' '' @ op @ '' '' @ b"
  have "hd op \<in> set ?l" "code (hd op) < 128" "\<not> blank_char [hd op]"
    using op by (auto simp: chain_ops_def blank_char_def space_cp_def)
  then have "hd op \<in> set (ustrip ?l)" by (metis strip_keeps ustrip_def)
  then show ?thesis by auto
qed

lemma chained_commands_within:
  assumes "settled None a" "op \<in> set chain_ops"
  shows "set (commands_within lb n b) \<subseteq> set (commands_within lb n (a @ '' '' @ op @ '' '' @ b))"
proof -
  obtain deeper where d: "commands_within lb n = line_commands lb deeper" by (cases n) auto
  have "split_on_operators (a @ '' '' @ op @ '' '' @ b) = split_on_operators a @ split_on_operators b"
    using split_ops_chain [OF assms(2,1), of "[]" "'' '' @ b"] strip_parts [of "split_ops None [] a" b]
    by (simp add: split_on_operators_def)
  then show ?thesis
    using chained_not_blank [OF assms(2), of a b] by (simp add: d line_commands_def command_list_append)
qed

end
