(* ===== verification/ClassifyLaws.thy ===== *)
theory ClassifyLaws
  imports ClassifyTool WalkLaws
begin

text \<open>
  What the classifier promises: a line is as severe as the worst thing it runs, whatever stands before it; it is a
  read only if everything on it is; the order of its commands cannot choose the answer; every answer stays
  within the vocabularies of the envelope; an unknown tool never falls below its floor.
\<close>

section \<open>The most severe candidate\<close>

lemma foldr_max_ge: "x \<in> set xs \<Longrightarrow> x \<le> foldr max xs (b :: nat list)"
  by (induction xs) (auto simp: le_max_iff_disj)

lemma foldr_max_in: "xs \<noteq> [] \<Longrightarrow> foldr max xs [] \<in> set (xs :: nat list list)"
proof (induction xs)
  case (Cons x xs)
  then show ?case by (cases "xs = []") (auto simp: max_def)
qed simp

lemma severity_le_worst: "c \<in> set results \<Longrightarrow> severity c \<le> worst results"
  unfolding worst_def by (rule foldr_max_ge) simp

lemma tied_nonempty: "results \<noteq> [] \<Longrightarrow> tied results \<noteq> []"
proof -
  assume "results \<noteq> []"
  then have "worst results \<in> set (map severity results)" unfolding worst_def by (intro foldr_max_in) simp
  then show ?thesis by (auto simp: tied_def filter_empty_conv)
qed

lemma most_severe_tied: "results \<noteq> [] \<Longrightarrow> most_severe lb results \<in> set (tied results)"
  using tied_nonempty [of results]
  by (auto simp: most_severe_def split: list.split dest: filter_eq_ConsD)

lemma most_severe_worst: "results \<noteq> [] \<Longrightarrow> severity (most_severe lb results) = worst results"
  using most_severe_tied [of results lb] by (simp add: tied_def)

lemma most_severe_in: "results \<noteq> [] \<Longrightarrow> most_severe lb results \<in> set results"
  using most_severe_tied [of results lb] by (simp add: tied_def)

lemma candidates_nonempty: "segments \<noteq> [] \<Longrightarrow> line_candidates lb env preview segments \<noteq> []"
  by (simp add: line_candidates_def)

section \<open>Order\<close>

lemma worst_cong: "set xs = set ys \<Longrightarrow> worst xs = worst ys"
proof (cases "xs = []")
  case False
  assume s: "set xs = set ys"
  then have "ys \<noteq> []" using False by auto
  with False have "worst xs \<in> set (map severity xs)" "worst ys \<in> set (map severity ys)"
    unfolding worst_def by (auto intro: foldr_max_in simp del: set_map)
  then obtain c d where "c \<in> set xs" "severity c = worst xs" "d \<in> set ys" "severity d = worst ys" by force
  with s show ?thesis using severity_le_worst [of c ys] severity_le_worst [of d xs] by simp
qed simp

text \<open>The named file is temporary only if every equally severe candidate's is.\<close>

lemma named_temporary:
  assumes "results \<noteq> []"
  shows "is_fhs_temporary lb (c_target_ref (most_severe lb results))
    \<longleftrightarrow> (\<forall>c \<in> set (tied results). is_fhs_temporary lb (c_target_ref c))"
proof (cases "length (tied results) = 1")
  case True
  then obtain c where "tied results = [c]" by (auto simp: length_Suc_conv)
  then show ?thesis by (simp add: most_severe_def)
next
  case False
  let ?f = "filter (\<lambda>c. \<not> is_fhs_temporary lb (c_target_ref c)) (tied results)"
  show ?thesis
  proof (cases ?f)
    case Nil
    then have "\<forall>c \<in> set (tied results). is_fhs_temporary lb (c_target_ref c)" by (simp add: filter_empty_conv)
    then show ?thesis using most_severe_tied [OF assms] by blast
  next
    case (Cons c cs)
    then have "c \<in> set ?f" by simp
    then have "c \<in> set (tied results)" "\<not> is_fhs_temporary lb (c_target_ref c)" by simp_all
    moreover have "most_severe lb results = c" using False Cons by (simp add: most_severe_def)
    ultimately show ?thesis by blast
  qed
qed

text \<open>The order of the candidates, which the audited agent supplies, decides neither how severe the reported
  classification is nor whether the file it names is a temporary one.\<close>

theorem order_cannot_choose:
  assumes "set xs = set ys"
  shows "severity (most_severe lb xs) = severity (most_severe lb ys)
    \<and> is_fhs_temporary lb (c_target_ref (most_severe lb xs)) = is_fhs_temporary lb (c_target_ref (most_severe lb ys))"
proof (cases "xs = []")
  case True
  with assms show ?thesis by simp
next
  case False
  with assms have "ys \<noteq> []" by auto
  moreover have "set (tied xs) = set (tied ys)" using assms worst_cong [OF assms] by (simp add: tied_def)
  ultimately show ?thesis
    using False by (simp add: most_severe_worst named_temporary worst_cong [OF assms])
qed

lemma order_cannot_choose_witness:
  "severity (most_severe sample_library [read_result None, sample_classification])
     = severity (most_severe sample_library [sample_classification, read_result None])"
  using order_cannot_choose [of "[read_result None, sample_classification]" "[sample_classification, read_result None]"
      sample_library] by auto

section \<open>Nothing in front hides what follows\<close>

text \<open>The axes of a severity, without the verb.\<close>

definition axes_severity :: "classification \<Rightarrow> nat list" where
  "axes_severity c = [tier_rank (c_tier c), rev_rank (c_reversibility c), blast_rank (c_blast_radius c)]"

lemma severity_axes: "severity c \<le> severity d \<Longrightarrow> axes_severity c \<le> axes_severity d"
  by (auto simp: severity_def axes_severity_def)

lemma axes_top:
  "axes_severity c \<le> axes_severity (unread sig p)"
  "axes_severity c \<le> axes_severity (priced v ''irreversible'' ''systemic'' e k sg ''destructive_systemic'' p)"
  by (auto simp: axes_severity_def unread_def priced_def tier_rank_def rev_rank_def blast_rank_def)

text \<open>What the line was read as.\<close>

lemma walk_commands:
  "\<not> wb_exhausted (snd (shell_segments lb command)) \<Longrightarrow>
     fst (shell_segments lb command) = commands_within lb walk_max_depth command"
  using walk_down_read [of lb walk_max_depth 0] unfolding reads_as_def shell_segments_def by simp

lemma line_covers:
  assumes "s \<in> set (commands_within lb walk_max_depth command)"
  shows "axes_severity (classify_segment lb env (line_preview command)
      (sql_reachable lb (commands_within lb walk_max_depth command)) s) \<le> axes_severity (classify_line lb env command)"
proof -
  obtain segs b where w: "shell_segments lb command = (segs, b)" by (cases "shell_segments lb command")
  have e: "segs = commands_within lb walk_max_depth command" if "\<not> wb_exhausted b"
    using walk_commands [of lb command] that w by simp
  show ?thesis
  proof (cases "wb_exhausted b \<or> max_bash_command_chars lb env < int (num_chars command) \<or> re_search fork_bomb_re command")
    case True
    then show ?thesis by (auto simp: classify_line_def w axes_top Let_def)
  next
    case False
    then have s: "segs = commands_within lb walk_max_depth command" using e by simp
    with assms have ne: "segs \<noteq> []" by auto
    let ?c = "line_candidates lb env (line_preview command) segs"
    have "classify_segment lb env (line_preview command) (sql_reachable lb segs) s \<in> set ?c"
      using assms s by (simp add: line_candidates_def)
    then have "severity (classify_segment lb env (line_preview command) (sql_reachable lb segs) s)
        \<le> severity (most_severe lb ?c)"
      using severity_le_worst most_severe_worst candidates_nonempty [OF ne] by simp
    then have "axes_severity (classify_segment lb env (line_preview command) (sql_reachable lb segs) s)
        \<le> axes_severity (most_severe lb ?c)" by (rule severity_axes)
    then show ?thesis using False ne s by (simp add: classify_line_def w Let_def)
  qed
qed


text \<open>The sample command, as the reader sees it.\<close>

lemmas shell_eval = ustrip_def lstrip_def rstrip_def blank_char_def space_cp_def continues_def high_byte_def
  command_word_def after_last_def lower_def is_ascii_def lower_char_def is_upper_char_def
  shell_keywords_def wrapper_commands_def unbounded_wrappers_def prefix_words_def shell_commands_def

lemma sample_words: "safe_split ''rm -r /srv'' = [''rm'', ''-r'', ''/srv'']"
  by (simp add: safe_split_def shlex_blank_def)

lemma sample_peeled: "peel_prefixed_group sample_library ''rm -r /srv'' = ''rm -r /srv''"
proof -
  have "peel_group ''rm -r /srv'' = ''rm -r /srv''" by (simp add: peel_group_def shell_eval)
  moreover have "reach_group sample_library ''rm -r /srv'' = None"
    by (subst reach_group.simps) (simp add: before_first_def shell_eval)
  ultimately show ?thesis by (simp add: peel_prefixed_group_def) (subst peel_turns.simps, simp)
qed

lemma sample_prefixes: "peel_wrappers sample_library [''rm'', ''-r'', ''/srv''] = ([''rm'', ''-r'', ''/srv''], False, [])"
proof -
  have "\<not> re_match env_assign_re ''rm''"
    by (simp add: re_match_def env_assign_re_def cps_def ends.simps(5) letter_cp_def lower_cp_def upper_cp_def
        digit_cp_def lit_def shell_eval)
  moreover have "match_len (redirection_re sample_library) ''rm'' = None"
    by (simp add: match_len_def redirection_re_def cps_def ends.simps(5) re_digit_def lit_def digit_cp_def
        sample_library_def shell_eval)
  ultimately show ?thesis by (simp add: peel_wrappers_def shell_eval)
qed

lemma sample_commands: "commands_within sample_library n ''rm -r /srv'' = [''rm -r /srv'']"
proof -
  have "split_on_operators ''rm -r /srv'' = [''rm -r /srv'']"
    by (simp add: split_on_operators_def after_gt_def shell_eval)
  moreover have "inner_program sample_library ''rm -r /srv'' = None"
    by (simp add: inner_program_def sample_words sample_prefixes shell_c_payload_def shell_eval)
  moreover have "substitution_bodies ''rm -r /srv'' = []" by (simp add: substitution_bodies_def)
  moreover have "ustrip ''rm -r /srv'' \<noteq> []" by (simp add: shell_eval)
  ultimately have "line_commands sample_library deeper ''rm -r /srv'' = [''rm -r /srv'']" for deeper
    by (simp add: line_commands_def sample_peeled Let_def split: option.split)
  then show ?thesis by (cases n) simp_all
qed


section \<open>Reads\<close>

lemma priced_simps [simp]:
  "c_verb (priced v r b e k s t p) = v" "c_reversibility (priced v r b e k s t p) = r"
  "c_blast_radius (priced v r b e k s t p) = b" "c_externality (priced v r b e k s t p) = e"
  "c_tier (priced v r b e k s t p) = t" "c_params_extra (priced v r b e k s t p) = None"
  "c_magnitude_count (priced v r b e k s t p) = 1" "c_target_ref (priced v r b e k s t p) = None"
  "c_danger_signature (priced v r b e k s t p) = s"
  by (simp_all add: priced_def)

lemma path_result_simps [simp]:
  "c_verb (path_result k r s t ps p) = ''delete''" "c_reversibility (path_result k r s t ps p) = ''irreversible''"
  "c_blast_radius (path_result k r s t ps p) = r" "c_externality (path_result k r s t ps p) = ''internal''"
  "c_params_extra (path_result k r s t ps p) = None"
  by (simp_all add: path_result_def)

lemma delete_verb: "c_verb (classify_bash_delete lb s p u q) = ''delete''"
  by (simp add: classify_bash_delete_def Let_def split: option.split prod.split)

lemma path_delete_verb: "c_verb (classify_path_delete ps r u s p) = ''delete''"
  by (simp add: classify_path_delete_def Let_def split: prod.split)

lemma emit_verb: "c_verb (classify_bash_emit lb s p) = ''emit''"
  by (simp add: classify_bash_emit_def split: prod.split)

lemma execute_verb: "c_verb (classify_bash_execute lb env p) = ''execute''"
  by (simp add: classify_bash_execute_def)

lemma truncation_verb: "peeled_truncations lb p s = Some c \<Longrightarrow> c_verb c = ''delete''"
  by (auto simp: peeled_truncations_def path_delete_verb split: prod.splits if_splits)

text \<open>A command is priced in one of eight ways.\<close>

inductive segment_outcome :: "library \<Rightarrow> hook_env \<Rightarrow> string option \<Rightarrow> string \<Rightarrow> classification \<Rightarrow> bool"
  for lb env p s where
  deletion: "segment_outcome lb env p s (classify_bash_delete lb s p u q)"
| family: "radius \<in> {''scoped'', ''broad'', ''systemic''} \<Longrightarrow> segment_outcome lb env p s
     ((priced ''delete'' ''irreversible'' radius ''internal'' ''resource'' sig (tier_for_radius radius) p)\<lparr>c_target_ref := tgt\<rparr>)"
| overwrite: "segment_outcome lb env p s (classify_path_delete ps False u ''content_overwrite'' p)"
| script: "segment_outcome lb env p s (priced ''execute'' ''irreversible'' ''broad'' ''internal'' ''resource''
     ''sql_script_unbounded'' ''destructive_broad'' p)"
| emission: "segment_outcome lb env p s (classify_bash_emit lb s p)"
| unresolvable: "segment_outcome lb env p s (unresolvable_command p)"
| reading: "segment_outcome lb env p s (read_result p)"
| execution: "segment_outcome lb env p s (classify_bash_execute lb env p)"

definition guarded_radius :: "destruction \<Rightarrow> bool" where
  "guarded_radius d \<longleftrightarrow>
     (case d of None \<Rightarrow> True | Some (sig, radius, tgt) \<Rightarrow> radius \<in> {''scoped'', ''broad'', ''systemic''})"

lemma guarded_radius_intros:
  "guarded_radius x \<Longrightarrow> guarded_radius y \<Longrightarrow> guarded_radius (if b then x else y)"
  "guarded_radius None" "guarded_radius (Some (sig, ''broad'', tgt))" "guarded_radius (Some (sig, ''scoped'', tgt))"
  "guarded_radius (Some (sig, ''systemic'', tgt))" "guarded_radius (Some (sig, if b then ''broad'' else ''scoped'', tgt))"
  by (simp_all add: guarded_radius_def)

lemma infra_guarded: "guarded_radius (infra_destructive lb cmd0 args low s)"
  unfolding infra_destructive_def aws_destruction_def container_destruction_def
  by (intro guarded_radius_intros)

lemma max_radius_guarded:
  "radius \<in> {''scoped'', ''broad'', ''systemic''} \<Longrightarrow> max_radius radius ''broad'' \<in> {''scoped'', ''broad'', ''systemic''}"
  by (auto simp: max_radius_def blast_rank_def)

lemma outcome_if:
  "segment_outcome lb env p s x \<Longrightarrow> segment_outcome lb env p s y \<Longrightarrow> segment_outcome lb env p s (if b then x else y)"
  by simp

lemma classify_segment_outcome: "segment_outcome lb env p s (classify_segment lb env p r s)"
proof -
  obtain tokens unb tr where w: "peel_wrappers lb (safe_split s) = (tokens, unb, tr)"
    by (cases "peel_wrappers lb (safe_split s)")
  show ?thesis
    unfolding classify_segment_def Let_def w prod.case
  proof (intro outcome_if segment_outcome.intros, goal_cases)
    case 1
    let ?d = "infra_destructive lb (case tokens of [] \<Rightarrow> [] | t # _ \<Rightarrow> command_word lb t) (drop 1 tokens)
       (map (lower lb) (drop 1 tokens)) s"
    show ?case
    proof (cases ?d)
      case (Some d)
      then have "fst (snd d) \<in> {''scoped'', ''broad'', ''systemic''}"
        using infra_guarded [of lb _ "drop 1 tokens"] by (metis (no_types, lifting) guarded_radius_def option.simps(5) prod.case_eq_if)
      then show ?thesis
        using Some max_radius_guarded by (auto simp: split_beta intro!: segment_outcome.family)
    next
      case None
      show ?thesis
        unfolding None option.case
        by (cases "overwritten_files lb (case tokens of [] \<Rightarrow> [] | t # _ \<Rightarrow> command_word lb t) (drop 1 tokens) (safe_split s)")
          (simp_all only: option.case, intro outcome_if segment_outcome.intros, rule segment_outcome.overwrite)
    qed
  qed
qed

lemma segment_read: "c_verb (classify_segment lb env p r s) = ''read'' \<longleftrightarrow> classify_segment lb env p r s = read_result p"
proof
  assume "c_verb (classify_segment lb env p r s) = ''read''"
  with classify_segment_outcome [of lb env p s r] show "classify_segment lb env p r s = read_result p"
    by (cases rule: segment_outcome.cases)
      (simp_all add: delete_verb path_delete_verb emit_verb execute_verb unresolvable_command_def)
qed (simp add: read_result_def)

lemma read_severity: "severity (read_result p) = [0, 0, 0, 0]"
  by (simp add: severity_def read_result_def tier_rank_def rev_rank_def blast_rank_def verb_order_def)

lemma least_severity: "severity c \<le> [0, 0, 0, 0] \<Longrightarrow> c_verb c = ''read''"
  by (auto simp: severity_def verb_order_def less_eq_list_code split: if_splits)

definition all_reads :: "library \<Rightarrow> hook_env \<Rightarrow> string option \<Rightarrow> string list \<Rightarrow> bool" where
  "all_reads lb env preview cs \<longleftrightarrow>
     list_all (\<lambda>s. classify_segment lb env preview (sql_reachable lb cs) s = read_result preview
        \<and> peeled_truncations lb preview s = None) cs"

lemma candidates_read:
  assumes "cs \<noteq> []"
  shows "c_verb (most_severe lb (line_candidates lb env preview cs)) = ''read'' \<longleftrightarrow> all_reads lb env preview cs"
proof
  let ?c = "line_candidates lb env preview cs" and ?r = "sql_reachable lb cs"
  assume v: "c_verb (most_severe lb ?c) = ''read''"
  have in_c: "most_severe lb ?c \<in> set ?c" by (rule most_severe_in [OF candidates_nonempty [OF assms]])
  then have "most_severe lb ?c = read_result preview"
  proof (cases "\<exists>s \<in> set cs. most_severe lb ?c = classify_segment lb env preview ?r s")
    case True
    then show ?thesis using v segment_read by metis
  next
    case False
    then obtain s where "peeled_truncations lb preview s = Some (most_severe lb ?c)"
      using in_c by (auto simp: line_candidates_def split: option.splits)
    then show ?thesis using v truncation_verb by fastforce
  qed
  then have w: "worst ?c = [0, 0, 0, 0]"
    using most_severe_worst [OF candidates_nonempty [OF assms], of lb lb env preview] by (simp add: read_severity)
  have r: "c_verb c = ''read''" if "c \<in> set ?c" for c
    using severity_le_worst [OF that] w least_severity by simp
  have "classify_segment lb env preview ?r s = read_result preview \<and> peeled_truncations lb preview s = None"
    if "s \<in> set cs" for s
  proof
    have "classify_segment lb env preview ?r s \<in> set ?c" using that by (simp add: line_candidates_def)
    then show "classify_segment lb env preview ?r s = read_result preview" using r segment_read by metis
    show "peeled_truncations lb preview s = None"
    proof (rule ccontr)
      assume "peeled_truncations lb preview s \<noteq> None"
      then obtain c where c: "peeled_truncations lb preview s = Some c" by blast
      then have "c \<in> set ?c" using that by (force simp: line_candidates_def)
      then show False using r [of c] truncation_verb [OF c] by simp
    qed
  qed
  then show "all_reads lb env preview cs" by (simp add: all_reads_def list_all_iff)
next
  let ?c = "line_candidates lb env preview cs"
  assume "all_reads lb env preview cs"
  then have "\<forall>c \<in> set ?c. c = read_result preview"
    by (auto simp: all_reads_def list_all_iff line_candidates_def)
  then have "most_severe lb ?c = read_result preview"
    using most_severe_in [OF candidates_nonempty [OF assms]] by metis
  then show "c_verb (most_severe lb ?c) = ''read''" by (simp add: read_result_def)
qed


section \<open>Every answer is in the vocabulary\<close>

definition in_vocabulary :: "classification \<Rightarrow> bool" where
  "in_vocabulary c \<longleftrightarrow> proper_classification c \<and> c_verb c \<in> set spec_verbs"

lemma vocabulary:
  "v \<in> {''read'', ''create'', ''update'', ''delete'', ''execute'', ''transact'', ''emit''} \<Longrightarrow> v \<in> set spec_verbs"
  "r \<in> {''reversible'', ''recoverable'', ''irreversible''} \<Longrightarrow> r \<in> set (axis_members ''reversibility'')"
  "b \<in> {''single'', ''scoped'', ''broad'', ''systemic''} \<Longrightarrow> b \<in> set (axis_members ''blast_radius'')"
  "e \<in> {''internal'', ''outbound''} \<Longrightarrow> e \<in> set (axis_members ''externality'')"
  by (auto simp: spec_verbs_def axis_members_def axis_allowed_def)

lemma in_vocabularyI:
  assumes "c_verb c \<in> {''read'', ''create'', ''update'', ''delete'', ''execute'', ''transact'', ''emit''}"
    "c_reversibility c \<in> {''reversible'', ''recoverable'', ''irreversible''}"
    "c_blast_radius c \<in> {''single'', ''scoped'', ''broad'', ''systemic''}"
    "c_externality c \<in> {''internal'', ''outbound''}"
    "case c_params_extra c of None \<Rightarrow> True | Some x \<Rightarrow> proper_extra x"
  shows "in_vocabulary c"
proof -
  have "c_verb c \<noteq> []" using assms(1) by auto
  then show ?thesis
    unfolding in_vocabulary_def proper_classification_def
    by (intro conjI vocabulary assms)
qed

lemma in_vocabulary_priced:
  "v \<in> {''read'', ''create'', ''update'', ''delete'', ''execute'', ''transact'', ''emit''} \<Longrightarrow>
   r \<in> {''reversible'', ''recoverable'', ''irreversible''} \<Longrightarrow> b \<in> {''single'', ''scoped'', ''broad'', ''systemic''} \<Longrightarrow>
   e \<in> {''internal'', ''outbound''} \<Longrightarrow> in_vocabulary (priced v r b e k s t p)"
  by (rule in_vocabularyI) simp_all

lemma in_vocabulary_fields [simp]:
  "in_vocabulary (c\<lparr>c_target_ref := x\<rparr>) = in_vocabulary c" "in_vocabulary (c\<lparr>c_file_path := y\<rparr>) = in_vocabulary c"
  "in_vocabulary (c\<lparr>c_magnitude_count := n\<rparr>) = in_vocabulary c"
  by (simp_all add: in_vocabulary_def proper_classification_def)

lemma radius_closed: "fst (radius_for_paths ps r) \<in> {''single'', ''scoped'', ''broad'', ''systemic''}"
  by (simp add: radius_for_paths_def)

lemma max_radius_closed:
  "a \<in> S \<Longrightarrow> b \<in> S \<Longrightarrow> max_radius a b \<in> S"
  by (simp add: max_radius_def)

lemma path_result_vocabulary: "b \<in> {''single'', ''scoped'', ''broad'', ''systemic''} \<Longrightarrow> in_vocabulary (path_result k b s t ps p)"
  by (rule in_vocabularyI) simp_all

lemma path_delete_vocabulary: "in_vocabulary (classify_path_delete ps r u s p)"
proof -
  obtain a b c where e: "radius_for_paths ps r = (a, b, c)" by (cases "radius_for_paths ps r")
  then have a: "a \<in> {''single'', ''scoped'', ''broad'', ''systemic''}" using radius_closed [of ps r] by simp
  have "max_radius a ''broad'' \<in> {''single'', ''scoped'', ''broad'', ''systemic''}"
    using a by (intro max_radius_closed) simp_all
  with a show ?thesis by (cases u) (simp_all only: classify_path_delete_def e Let_def prod.case if_True if_False path_result_vocabulary)
qed

lemma sql_radius: "sql_destruction lb s = Some (radius, sig, tier) \<Longrightarrow> radius = ''systemic'' \<or> radius = ''broad''"
  by (simp add: sql_destruction_def split: if_splits)

lemma in_vocabulary_if: "in_vocabulary x \<Longrightarrow> in_vocabulary y \<Longrightarrow> in_vocabulary (if b then x else y)"
  by simp

lemma bash_delete_vocabulary: "in_vocabulary (classify_bash_delete lb s p u q)"
proof -
  obtain a b c where e: "radius_for_paths (extract_rm_paths lb s) (rm_is_recursive lb s) = (a, b, c)"
    by (cases "radius_for_paths (extract_rm_paths lb s) (rm_is_recursive lb s)")
  then have a: "a \<in> {''single'', ''scoped'', ''broad'', ''systemic''}"
    using radius_closed [of "extract_rm_paths lb s" "rm_is_recursive lb s"] by simp
  have "max_radius a ''broad'' \<in> {''single'', ''scoped'', ''broad'', ''systemic''}"
    using a by (intro max_radius_closed) simp_all
  with a have p: "in_vocabulary (path_result ''command'' (if u then max_radius a ''broad'' else a) sg tr ps p)" for sg tr ps
    by (intro path_result_vocabulary) simp
  have d: "in_vocabulary (priced ''delete'' ''irreversible'' radius ''internal'' k sg tr p)"
    if "radius = ''systemic'' \<or> radius = ''broad''" for radius k sg tr
    using that by (intro in_vocabulary_priced) auto
  show ?thesis
  proof (cases "if q then sql_destruction lb s else None")
    case None
    show ?thesis
      unfolding classify_bash_delete_def None option.case e Let_def prod.case
      by (intro in_vocabulary_if p d) simp_all
  next
    case (Some x)
    obtain radius sig tier where x: "x = (radius, sig, tier)" by (cases x)
    then have "radius = ''systemic'' \<or> radius = ''broad''" using Some sql_radius by (simp split: if_splits)
    then show ?thesis
      unfolding classify_bash_delete_def Some option.case x prod.case by (intro in_vocabulary_if d) simp_all
  qed
qed

lemma segment_vocabulary: "in_vocabulary (classify_segment lb env p r s)"
  using classify_segment_outcome [of lb env p s r]
proof (cases rule: segment_outcome.cases)
  case (family radius sig tgt)
  then show ?thesis by (auto intro!: in_vocabulary_priced)
qed (auto simp: bash_delete_vocabulary path_delete_vocabulary classify_bash_emit_def unresolvable_command_def
    read_result_def classify_bash_execute_def split: prod.split intro!: in_vocabulary_priced)

lemma line_vocabulary: "in_vocabulary (classify_line lb env command)"
proof -
  have c: "\<forall>c \<in> set (line_candidates lb env p cs). in_vocabulary c" for p cs
    by (auto simp: line_candidates_def segment_vocabulary peeled_truncations_def path_delete_vocabulary
        split: option.splits prod.splits if_splits)
  have m: "in_vocabulary (most_severe lb (line_candidates lb env p cs))" if "cs \<noteq> []" for p cs
    using c most_severe_in [OF candidates_nonempty [OF that]] by blast
  show ?thesis
    by (auto simp: classify_line_def Let_def unread_def classify_bash_execute_def m split: prod.split
        intro!: in_vocabulary_priced)
qed

lemma unknown_answer:
  assumes "classify_unknown lb tool_name tool_input = Inr c"
  obtains money count where "unknown_money lb (as_obj tool_input) = Inr money"
    "unknown_magnitude lb (as_obj tool_input) = Inr count"
    "c = (priced (unknown_verb money (unknown_name_tokens tool_name)) ''irreversible'' ''broad'' ''outbound''
            ''resource'' ''unknown_tool'' ''destructive_broad'' None)
          \<lparr>c_magnitude_count := count, c_target_ref := unknown_target_ref lb (as_obj tool_input),
            c_params_extra := (if money_params money = [] then None else Some (money_params money))\<rparr>"
  using assms
  by (cases "unknown_money lb (as_obj tool_input)"; cases "unknown_magnitude lb (as_obj tool_input)")
    (auto simp: classify_unknown_def Let_def py_simps)

lemma unknown_verb_closed: "unknown_verb m ts \<in> {''transact'', ''delete'', ''emit'', ''execute''}"
  by (simp add: unknown_verb_def)

lemma money_params_proper: "proper_extra (money_params money)"
  by (auto simp: money_params_def proper_extra_def dget_def split: option.split)

lemma unknown_vocabulary: "classify_unknown lb tool_name tool_input = Inr c \<Longrightarrow> in_vocabulary c"
proof (erule unknown_answer, rule in_vocabularyI, goal_cases)
  case (1 money count)
  then show ?case using unknown_verb_closed [of money "unknown_name_tokens tool_name"] by auto
qed (simp_all add: money_params_proper)

lemma oversize_path_vocabulary: "v = ''create'' \<or> v = ''update'' \<Longrightarrow> in_vocabulary (oversize_path v p)"
  unfolding oversize_path_def by (intro in_vocabulary_priced) auto

lemma file_vocabulary:
  "v \<in> {''read'', ''create'', ''update''} \<Longrightarrow> r \<in> {''reversible'', ''recoverable'', ''irreversible''} \<Longrightarrow>
   b \<in> {''single'', ''scoped'', ''broad''} \<Longrightarrow> in_vocabulary (file_result v r b s t p)"
  unfolding file_result_def in_vocabulary_fields by (intro in_vocabulary_priced) auto

lemma known_vocabulary: "classify_known lb env exists name d = Some c \<Longrightarrow> in_vocabulary c"
proof -
  have "in_vocabulary (classify_write lb exists d)" "in_vocabulary (classify_edit lb d)"
    "in_vocabulary (classify_read_tool lb d)" "in_vocabulary (classify_web lb d)"
    unfolding classify_write_def classify_edit_def classify_read_tool_def classify_web_def Let_def in_vocabulary_fields
    by (intro in_vocabulary_if file_vocabulary oversize_path_vocabulary in_vocabulary_priced; simp)+
  then show "classify_known lb env exists name d = Some c \<Longrightarrow> in_vocabulary c"
    using line_vocabulary [of lb env "bash_command lb d"]
    by (simp only: classify_known_def classify_bash_def split: if_splits) auto
qed

text \<open>Whatever the tool and its arguments, an answer of the classifier has a verb of the specification, axes of the
  closed vocabularies, and an amount only if it is a finite number: what the envelope and the engine rely on.\<close>

theorem every_answer_is_in_the_vocabulary:
  "case classify lb env exists tool_name tool_input of
     Inl _ \<Rightarrow> True
   | Inr c \<Rightarrow> proper_classification c \<and> c_verb c \<in> set spec_verbs"
proof -
  have "in_vocabulary c" if "classify lb env exists tool_name tool_input = Inr c" for c
    using that known_vocabulary unknown_vocabulary
    by (auto simp: classify_def classify_named_def split: json.splits option.splits if_splits)
  then show ?thesis by (auto simp: in_vocabulary_def split: sum.split)
qed

section \<open>The floor of an unknown tool\<close>

text \<open>At least as many as any list given under a name that is no credential.\<close>

definition counts_lists :: "dict \<Rightarrow> int \<Rightarrow> bool" where
  "counts_lists args n \<longleftrightarrow>
     list_all (\<lambda>(k, v). secret_key k \<or> (case v of JArr xs \<Rightarrow> int (length xs) \<le> n | _ \<Rightarrow> True)) args"

definition seen_number :: "int \<Rightarrow> rat option \<Rightarrow> int" where
  "seen_number n x = (case x of Some r \<Rightarrow> if r < 1000000000 then max n \<lfloor>r\<rfloor> else n | None \<Rightarrow> n)"

lemma seen_number_ge: "n \<le> seen_number n x"
  by (simp add: seen_number_def split: option.split)

lemma magnitude_step:
  assumes "magnitude_scan lb n ((k, v) # args) = Inr m"
  shows "\<exists>n'. n \<le> n' \<and> magnitude_scan lb n' args = Inr m
     \<and> (secret_key k \<or> (case v of JArr xs \<Rightarrow> int (length xs) \<le> n' | _ \<Rightarrow> True))"
proof (cases "secret_key k \<or> \<not> count_key lb k \<or> (\<exists>xs. v = JArr xs)")
  case True
  then consider "magnitude_scan lb n args = Inr m" "secret_key k \<or> \<not> (\<exists>xs. v = JArr xs)"
    | xs where "v = JArr xs" "magnitude_scan lb (max n (int (length xs))) args = Inr m"
    using assms by (cases "secret_key k"; cases v) auto
  then show ?thesis
  proof cases
    case 1
    then show ?thesis by (intro exI [of _ n]) (auto split: json.split)
  next
    case 2
    then show ?thesis by (intro exI [of _ "max n (int (length xs))"]) simp
  qed
next
  case False
  then have "bindE (unknown_number lb v) (\<lambda>x. magnitude_scan lb (seen_number n x) args) = Inr m"
    using assms by (cases v) (simp_all add: seen_number_def)
  then obtain x where "magnitude_scan lb (seen_number n x) args = Inr m" by (auto simp: py_simps)
  then show ?thesis
    using False seen_number_ge [of n x] by (intro exI [of _ "seen_number n x"]) (auto split: json.split)
qed

lemma magnitude_grows: "magnitude_scan lb n args = Inr m \<Longrightarrow> n \<le> m \<and> counts_lists args m"
proof (induction args arbitrary: n)
  case (Cons a args)
  obtain k v where a: "a = (k, v)" by force
  obtain n' where n': "n \<le> n'" "magnitude_scan lb n' args = Inr m"
      "secret_key k \<or> (case v of JArr xs \<Rightarrow> int (length xs) \<le> n' | _ \<Rightarrow> True)"
    using magnitude_step Cons.prems unfolding a by blast
  with Cons.IH [OF n'(2)] show ?case
    by (auto simp: a counts_lists_def split: json.splits)
qed (simp add: counts_lists_def)

lemma num_chars_unknown_ref: "unknown_target_ref lb args = Some r \<Longrightarrow> num_chars r \<le> 200"
  using num_chars_take by (auto simp: unknown_target_ref_def split: list.splits)

text \<open>A tool the classifier does not know is never priced below its floor, whatever its name and its arguments:
  irreversible, broad, outbound, not a read, touching at least one thing and at least as many as any list it is
  given; and what it names for the human and the audit log is at most 200 characters.\<close>

theorem unknown_tool_floor:
  "case classify_unknown lb tool_name tool_input of
     Inl _ \<Rightarrow> True
   | Inr c \<Rightarrow> (c_reversibility c, c_blast_radius c, c_externality c, c_tier c) =
           (''irreversible'', ''broad'', ''outbound'', ''destructive_broad'')
       \<and> c_verb c \<in> {''transact'', ''delete'', ''emit'', ''execute''} \<and> 1 \<le> c_magnitude_count c
       \<and> counts_lists (as_obj tool_input) (c_magnitude_count c)
       \<and> (case c_target_ref c of None \<Rightarrow> True | Some r \<Rightarrow> num_chars r \<le> 200)"
proof (cases "classify_unknown lb tool_name tool_input")
  case (Inr c)
  from Inr show ?thesis
  proof (rule unknown_answer)
    fix money count
    assume a: "unknown_magnitude lb (as_obj tool_input) = Inr count"
      "c = (priced (unknown_verb money (unknown_name_tokens tool_name)) ''irreversible'' ''broad'' ''outbound''
            ''resource'' ''unknown_tool'' ''destructive_broad'' None)
          \<lparr>c_magnitude_count := count, c_target_ref := unknown_target_ref lb (as_obj tool_input),
            c_params_extra := (if money_params money = [] then None else Some (money_params money))\<rparr>"
    have "1 \<le> count \<and> counts_lists (as_obj tool_input) count"
      using magnitude_grows a(1) by (simp add: unknown_magnitude_def)
    moreover have "case unknown_target_ref lb (as_obj tool_input) of None \<Rightarrow> True | Some r \<Rightarrow> num_chars r \<le> 200"
      using num_chars_unknown_ref by (simp split: option.split)
    ultimately show ?thesis
      using unknown_verb_closed [of money "unknown_name_tokens tool_name"] unfolding Inr a(2) by simp
  qed
qed simp

section \<open>Credentials do not show\<close>

abbreviation plain_args :: "dict \<Rightarrow> dict" where
  "plain_args args \<equiv> filter (\<lambda>(k, v). \<not> secret_key k) args"

lemma money_scan_plain: "money_scan lb m (plain_args args) = money_scan lb m args"
  by (induction lb m args rule: money_scan.induct) auto

lemma magnitude_scan_plain: "magnitude_scan lb n (plain_args args) = magnitude_scan lb n args"
proof (induction args arbitrary: n)
  case (Cons a args)
  obtain k v where "a = (k, v)" by force
  then show ?case using Cons by (cases v) simp_all
qed simp

lemma map_of_plain: "\<not> secret_key k \<Longrightarrow> map_of (plain_args args) k = map_of args k"
  by (induction args) auto

lemma ref_field_plain: "ref_field lb (plain_args args) k = ref_field lb args k"
proof (cases "secret_key k")
  case True
  then show ?thesis by (auto simp: ref_field_def split: option.splits)
qed (simp add: ref_field_def map_of_plain)

text \<open>What an unknown tool's arguments carry under a name that looks like a credential has no influence on any
  part of the classification, so none of it reaches the engine, the human or the audit log.\<close>

theorem credentials_do_not_show:
  "classify_unknown lb tool_name (JObj args) = classify_unknown lb tool_name (JObj (plain_args args))"
  by (simp add: classify_unknown_def unknown_money_def unknown_magnitude_def unknown_target_ref_def
      unknown_ref_fields_def money_scan_plain magnitude_scan_plain ref_field_plain)

section \<open>More paths are never less\<close>

lemma radius_level:
  "blast_rank (fst (radius_for_paths ps r)) =
     (if list_ex is_systemic_path ps \<or> list_ex (re_match block_device_re) ps then 3
      else if list_ex (re_search data_container_path_re) ps \<or> r \<or> ps = [] \<or> list_ex is_glob ps \<or> 20 \<le> length ps then 2
      else if 2 \<le> length ps then 1 else 0)"
  by (auto simp add: radius_for_paths_def blast_rank_def)

text \<open>Naming more paths, or asking for recursion, never lowers the radius of a destruction that already names
  one.\<close>

theorem more_paths_never_lower_the_radius:
  assumes "ps \<noteq> []"
  shows "blast_rank (fst (radius_for_paths ps r)) \<le> blast_rank (fst (radius_for_paths (ps @ qs) (r \<or> r')))"
  using assms by (simp add: radius_level)

lemma more_paths_never_lower_the_radius_witness:
  "blast_rank (fst (radius_for_paths [''/srv/a''] False)) \<le> blast_rank (fst (radius_for_paths ([''/srv/a''] @ [''/srv/b'']) (False \<or> True)))"
  by (rule more_paths_never_lower_the_radius) simp

section \<open>The whole hook\<close>

text \<open>The text the classifier would have to read was read.\<close>

definition fits :: "library \<Rightarrow> hook_env \<Rightarrow> string \<Rightarrow> dict \<Rightarrow> bool" where
  "fits lb env name d =
     (if name = ''bash'' then int (num_chars (bash_command lb d)) \<le> max_bash_command_chars lb env
      else if name = ''write'' then num_chars (text_of lb (dget d ''file_path'')) \<le> max_file_path_chars
      else if name \<in> set [''edit'', ''multiedit'', ''notebookedit'']
      then num_chars (text_of lb (get_or d ''file_path'' (dget d ''notebook_path''))) \<le> max_file_path_chars
      else True)"

lemma unfit_signature:
  assumes "classify_named lb env exists name (JObj d) = Inr c" "\<not> fits lb env (lower lb name) d"
  shows "c_danger_signature c \<in> {''oversize_command'', ''oversize_path''}"
  using assms
  by (auto simp: fits_def classify_named_def classify_known_def classify_bash_def classify_line_def unread_def
      classify_write_def classify_edit_def oversize_path_def Let_def split: if_splits)

text \<open>C23: in enforce mode, with the classifier in its place, no Bash command longer than its cap and no written or edited
  path longer than the longest possible one is ever allowed or handed to the human, whatever the engine says.\<close>

theorem nothing_oversize_runs:
  assumes "hook_mode lb env = ''enforce''" "hi_classify inp = classify lb env exists"
    "hi_stdin inp = Inr (JObj payload)" "get_or payload ''tool_name'' (JStr ''unknown'') = JStr name"
    "get_or payload ''tool_input'' (JObj []) = JObj d" "an_permission (main_answer lb env inp) \<noteq> ''deny''"
  shows "fits lb env (lower lb name) d"
proof (rule ccontr)
  assume n: "\<not> fits lb env (lower lb name) d"
  from assms(1,6) show False
  proof (rule permission_path)
    fix payload' cls e v0
    assume p: "hi_stdin inp = Inr (JObj payload')"
      "hi_classify inp (get_or payload' ''tool_name'' (JStr ''unknown'')) (get_or payload' ''tool_input'' (JObj [])) = Inr cls"
      "build_envelope lb env (hi_stamps inp) payload' cls = Inr e" "refuse_oversize lb env e v0 = v0"
      "an_permission (main_answer lb env inp) = v_permission v0"
    have "classify_named lb env exists name (JObj d) = Inr cls"
      using p(1,2) assms(2-5) by (simp add: classify_def)
    then have "c_danger_signature cls \<in> {''oversize_command'', ''oversize_path''}" using n by (rule unfit_signature)
    moreover have "danger_of e \<notin> {JStr ''oversize_command'', JStr ''oversize_path''}"
      using refuse_oversize_pass [of lb env e v0] p(4,5) assms(6) by simp
    ultimately show False using danger_built [OF p(3)] by auto
  qed
qed

text \<open>Only one application of the classifier matters.\<close>

lemma main_answer_classified:
  assumes "hi_stdin inp = Inr (JObj p)"
    "hi_classify inp (get_or p ''tool_name'' (JStr ''unknown'')) (get_or p ''tool_input'' (JObj [])) = r"
  shows "main_answer lb env inp = main_answer lb env (inp\<lparr>hi_classify := \<lambda>_ _. r\<rparr>)"
proof -
  have "normalized_call lb env inp p = normalized_call lb env (inp\<lparr>hi_classify := \<lambda>_ _. r\<rparr>) p"
    using assms(2) by (simp add: normalized_call_def)
  moreover have "judge_call lb env (inp\<lparr>hi_classify := \<lambda>_ _. r\<rparr>) e = judge_call lb env inp e" for e
    by (simp add: judge_call_def)
  ultimately show ?thesis using assms(1) by (simp add: main_answer_def run_pipeline_def cong: sum.case_cong)
qed

definition write_call :: hook_input where
  "write_call = (sample_hook_input sample_classification ''allow'')
     \<lparr>hi_stdin := Inr (JObj [(''session_id'', JStr ''s1''), (''tool_name'', JStr ''Write''),
         (''tool_input'', JObj [(''file_path'', JStr ''a'')])]),
      hi_classify := classify sample_library sample_hook_env (\<lambda>_. False)\<rparr>"

lemma write_classified:
  "classify sample_library sample_hook_env (\<lambda>_. False) (JStr ''Write'') (JObj [(''file_path'', JStr ''a'')]) =
     Inr (file_result ''create'' ''recoverable'' ''single'' ''disk_write'' ''moderate'' ''a'')"
proof -
  have "\<not> re_search sensitive_path_re ''a''"
    by code_simp
  moreover have "is_ascii ''Write'' \<and> map lower_char ''Write'' = ''write''" by code_simp
  ultimately show ?thesis
    by (simp add: classify_def classify_named_def classify_known_def classify_write_def Let_def text_of_def dget_def
        num_chars_def continues_def max_file_path_chars_def sensitive_path_def lower_def del: list.map)
qed

lemma nothing_oversize_runs_witness:
  "hook_mode sample_library sample_hook_env = ''enforce''
   \<and> an_permission (main_answer sample_library sample_hook_env write_call) = ''allow''
   \<and> fits sample_library sample_hook_env (lower sample_library ''Write'') [(''file_path'', JStr ''a'')]"
proof -
  let ?w = "file_result ''create'' ''recoverable'' ''single'' ''disk_write'' ''moderate'' ''a''"
  have m: "hook_mode sample_library sample_hook_env = ''enforce''" by code_simp
  have c: "hi_classify write_call (JStr ''Write'') (JObj [(''file_path'', JStr ''a'')]) = Inr ?w"
    by (simp add: write_call_def write_classified)
  have "main_answer sample_library sample_hook_env write_call
      = main_answer sample_library sample_hook_env (write_call\<lparr>hi_classify := \<lambda>_ _. Inr ?w\<rparr>)"
    by (rule main_answer_classified [where p = "[(''session_id'', JStr ''s1''), (''tool_name'', JStr ''Write''),
          (''tool_input'', JObj [(''file_path'', JStr ''a'')])]"]) (simp add: write_call_def, simp add: get_or_def dget_def c)
  moreover have "an_permission (main_answer sample_library sample_hook_env
      ((sample_hook_input sample_classification ''allow'')
        \<lparr>hi_stdin := Inr (JObj [(''session_id'', JStr ''s1''), (''tool_name'', JStr ''Write''),
           (''tool_input'', JObj [(''file_path'', JStr ''a'')])]), hi_classify := \<lambda>_ _. Inr ?w\<rparr>)) = ''allow''"
    by code_simp
  ultimately have a: "an_permission (main_answer sample_library sample_hook_env write_call) = ''allow''"
    by (simp add: write_call_def)
  have "fits sample_library sample_hook_env (lower sample_library ''Write'') [(''file_path'', JStr ''a'')]"
    by (rule nothing_oversize_runs [OF m, of write_call "\<lambda>_. False"
        "[(''session_id'', JStr ''s1''), (''tool_name'', JStr ''Write''), (''tool_input'', JObj [(''file_path'', JStr ''a'')])]"])
      (simp_all add: a, simp_all add: write_call_def get_or_def dget_def)
  with m a show ?thesis by simp
qed

end
