(* ===== verification/HookSettings.thy ===== *)
theory HookSettings
  imports HookBase PyRegex
begin

text \<open>
  The installation of the hook in Claude Code's settings (\<open>reeflex-claude/reeflex_claude\<close>: \<open>setup_settings.py\<close> and
  the set-up command of \<open>cli.py\<close>): the command that is wired, the merge of the hook entry and of the environment
  into a file that others write too, and the comparison of the two timeouts. What happens on the terminal and on
  the disk is an argument.
\<close>

section \<open>The command\<close>

text \<open>\<open>shlex.quote\<close>: a text of safe characters stays, another goes between apostrophes.\<close>

definition shell_safe :: "char \<Rightarrow> bool" where
  "shell_safe c \<longleftrightarrow> is_lower_char c \<or> is_upper_char c \<or> is_digit_char c \<or> c \<in> set ''_@%+=:,./-''"

definition quoted_char :: "char \<Rightarrow> string" where
  "quoted_char c =
     (if c = CHR 0x27 then [CHR 0x27, CHR 0x22, CHR 0x27, CHR 0x22, CHR 0x27] else [c])"

definition shlex_quote :: "string \<Rightarrow> string" where
  "shlex_quote s =
     (if s = [] then [CHR 0x27, CHR 0x27]
      else if list_all shell_safe s then s
      else CHR 0x27 # concat (map quoted_char s) @ [CHR 0x27])"

text \<open>\<open>exe\<close> is what \<open>shutil.which\<close> found, \<open>python\<close> the interpreter.\<close>

definition hook_command_for_settings :: "string option \<Rightarrow> string \<Rightarrow> string" where
  "hook_command_for_settings exe python =
     (case exe of
        Some (c # e) \<Rightarrow> shlex_quote (c # e) @ '' hook''
      | _ \<Rightarrow> shlex_quote python @ '' -m reeflex_claude.cli hook'')"

definition hook_word :: re where
  "hook_word = seqs [Alt Bol space_re, lit ''hook'', Alt space_re Eol]"

definition is_our_hook :: "json \<Rightarrow> bool" where
  "is_our_hook command =
     (case command of
        JStr s \<Rightarrow> contains_text ''reeflex-claude hook'' s
          \<or> (contains_text ''reeflex-claude'' s \<or> contains_text ''reeflex_claude'' s) \<and> re_search hook_word s
      | _ \<Rightarrow> False)"

section \<open>Reading the settings\<close>

datatype settings_exc = SettingsNotJson | SettingsNotAnObject | SettingsUnreadable
  | HooksNotAnObject | PreToolUseNotAnArray | EnvNotAnObject

definition load_settings :: "library \<Rightarrow> text_file \<Rightarrow> settings_exc + dict" where
  "load_settings lb f =
     (case f of
        FAbsent \<Rightarrow> Inr []
      | FUnreadable \<Rightarrow> Inl SettingsUnreadable
      | FText t \<Rightarrow>
          if strip lb t = [] then Inr []
          else case lb_loads lb t of
            Inl HValueError \<Rightarrow> Inl SettingsNotJson
          | Inl _ \<Rightarrow> Inl SettingsUnreadable
          | Inr (JObj d) \<Rightarrow> Inr d
          | Inr _ \<Rightarrow> Inl SettingsNotAnObject)"

text \<open>The blocks of \<open>hooks.PreToolUse\<close>, the entries of a block, and the entries that are ours.\<close>

definition pretool_blocks :: "dict \<Rightarrow> json list" where
  "pretool_blocks settings =
     (case dget settings ''hooks'' of
        JObj hr \<Rightarrow> (case dget hr ''PreToolUse'' of JArr blocks \<Rightarrow> blocks | _ \<Rightarrow> [])
      | _ \<Rightarrow> [])"

definition block_items :: "json \<Rightarrow> json list" where
  "block_items b =
     (case b of JObj d \<Rightarrow> (case dget d ''hooks'' of JArr items \<Rightarrow> items | _ \<Rightarrow> []) | _ \<Rightarrow> [])"

definition our_item :: "json \<Rightarrow> bool" where
  "our_item i = (case i of JObj d \<Rightarrow> is_our_hook (dget d ''command'') | _ \<Rightarrow> False)"

definition our_items :: "dict \<Rightarrow> json list" where
  "our_items settings = filter our_item (concat (map block_items (pretool_blocks settings)))"

definition wired_hook_command :: "dict \<Rightarrow> json option" where
  "wired_hook_command settings =
     (case our_items settings of [] \<Rightarrow> None | i # _ \<Rightarrow> Some (dget (as_obj i) ''command''))"

text \<open>An integer that no float can hold raises \<open>OverflowError\<close>.\<close>

definition timeout_value :: "library \<Rightarrow> json \<Rightarrow> hook_exc + pyfloat option" where
  "timeout_value lb v =
     (case v of
        JInt n \<Rightarrow> (case lb_round lb (of_int n) of Fin r \<Rightarrow> Inr (Some (Fin r)) | _ \<Rightarrow> Inl HOverflowError)
      | JFloat f \<Rightarrow> Inr (Some f)
      | _ \<Rightarrow> Inr None)"

definition wired_hook_timeout :: "library \<Rightarrow> dict \<Rightarrow> hook_exc + pyfloat option" where
  "wired_hook_timeout lb settings =
     (case our_items settings of [] \<Rightarrow> Inr None | i # _ \<Rightarrow> timeout_value lb (dget (as_obj i) ''timeout''))"

definition has_hook_entry :: "dict \<Rightarrow> bool" where
  "has_hook_entry settings \<longleftrightarrow> our_items settings \<noteq> []"

section \<open>The two timeouts\<close>

datatype mismatch = EntryBelowDefault pyfloat | DeclaredNoNumber string | DeclaredLarger pyfloat pyfloat

definition timeout_key :: string where
  "timeout_key = ''REEFLEX_CLAUDE_HOOK_TIMEOUT''"

definition exported_timeout :: "library \<Rightarrow> dict \<Rightarrow> string" where
  "exported_timeout lb settings =
     py_str (lb_ucd lb) (dget_or (as_obj (dget settings ''env'')) timeout_key (JStr []))"

definition declared_timeout :: "library \<Rightarrow> dict \<Rightarrow> string" where
  "declared_timeout lb settings = strip lb (exported_timeout lb settings)"

definition deadline_mismatch :: "library \<Rightarrow> dict \<Rightarrow> hook_exc + mismatch option" where
  "deadline_mismatch lb settings =
     bindE (wired_hook_timeout lb settings) (\<lambda>entry.
       case entry of
         None \<Rightarrow> Inr None
       | Some e \<Rightarrow>
           (let raw = declared_timeout lb settings
            in if raw = []
               then Inr (if flt e (Fin runner_timeout_seconds) then Some (EntryBelowDefault e) else None)
               else case lb_float lb raw of
                 None \<Rightarrow> Inr (Some (DeclaredNoNumber raw))
               | Some d \<Rightarrow> Inr (if flt e d then Some (DeclaredLarger d e) else None)))"

section \<open>The merge\<close>

definition default_matcher :: string where
  "default_matcher = ''*''"

definition merge_item :: "string \<Rightarrow> int \<Rightarrow> json \<Rightarrow> json" where
  "merge_item command timeout i =
     (if our_item i
      then JObj (dput ''timeout'' (JInt timeout) (dput ''command'' (JStr command)
                  (dput ''type'' (JStr ''command'') (as_obj i))))
      else i)"

definition merge_block :: "string \<Rightarrow> string \<Rightarrow> int \<Rightarrow> json \<Rightarrow> json" where
  "merge_block command matcher timeout b =
     (if list_ex our_item (block_items b)
      then JObj (dput ''matcher'' (JStr matcher)
             (dput ''hooks'' (JArr (map (merge_item command timeout) (block_items b))) (as_obj b)))
      else b)"

definition fresh_block :: "string \<Rightarrow> string \<Rightarrow> int \<Rightarrow> json" where
  "fresh_block command matcher timeout =
     JObj [(''matcher'', JStr matcher),
           (''hooks'', JArr [JObj [(''type'', JStr ''command''), (''command'', JStr command), (''timeout'', JInt timeout)]])]"

text \<open>The answer says whether an entry was there.\<close>

definition merge_hook_entry :: "string \<Rightarrow> string \<Rightarrow> int \<Rightarrow> dict \<Rightarrow> settings_exc + dict \<times> bool" where
  "merge_hook_entry command matcher timeout settings =
     (case dget_or settings ''hooks'' (JObj []) of
        JObj hr \<Rightarrow>
          (case dget_or hr ''PreToolUse'' (JArr []) of
             JArr blocks \<Rightarrow>
               (let replaced = list_ex (\<lambda>b. list_ex our_item (block_items b)) blocks;
                    blocks' = map (merge_block command matcher timeout) blocks
                      @ (if replaced then [] else [fresh_block command matcher timeout])
                in Inr (dput ''hooks'' (JObj (dput ''PreToolUse'' (JArr blocks') hr)) settings, replaced))
           | _ \<Rightarrow> Inl PreToolUseNotAnArray)
      | _ \<Rightarrow> Inl HooksNotAnObject)"

definition merge_env :: "(string \<times> string) list \<Rightarrow> dict \<Rightarrow> settings_exc + dict" where
  "merge_env updates settings =
     (case dget_or settings ''env'' (JObj []) of
        JObj env \<Rightarrow> Inr (dput ''env'' (JObj (fold (\<lambda>(k, v). dput k (JStr v)) updates env)) settings)
      | _ \<Rightarrow> Inl EnvNotAnObject)"

section \<open>The set-up command\<close>

text \<open>The terminal: none, or what \<open>input\<close> returned, \<open>None\<close> when it raised.\<close>

datatype terminal = NoTty | Tty "string option"

definition prompt_or_default ::
  "library \<Rightarrow> terminal \<Rightarrow> string option \<Rightarrow> string \<Rightarrow> string list \<Rightarrow> string" where
  "prompt_or_default lb tty value dflt choices =
     (case value of
        Some v \<Rightarrow> v
      | None \<Rightarrow>
          (case tty of
             Tty (Some line) \<Rightarrow>
               (let raw = strip lb line
                in if raw = [] then dflt else if choices \<noteq> [] \<and> raw \<notin> set choices then dflt else raw)
           | _ \<Rightarrow> dflt))"

definition prompt_token :: "library \<Rightarrow> terminal \<Rightarrow> string option \<Rightarrow> string option" where
  "prompt_token lb tty value =
     (case value of
        Some v \<Rightarrow> if v = [] then None else Some v
      | None \<Rightarrow> (case tty of Tty (Some line) \<Rightarrow> if strip lb line = [] then None else Some (strip lb line) | _ \<Rightarrow> None))"

record setup_args =
  sa_core_url :: "string option \<times> terminal"
  sa_mode :: "string option \<times> terminal"
  sa_verify :: "string option \<times> terminal"
  sa_environment :: "string option \<times> terminal"
  sa_token :: "string option \<times> terminal"
  sa_exe :: "string option"
  sa_python :: string

definition prompted :: "library \<Rightarrow> string option \<times> terminal \<Rightarrow> string \<Rightarrow> string list \<Rightarrow> string" where
  "prompted lb a dflt choices = prompt_or_default lb (snd a) (fst a) dflt choices"

definition matcher_stamp :: string where
  "matcher_stamp = ''REEFLEX_CLAUDE_MATCHER''"

definition env_updates :: "library \<Rightarrow> setup_args \<Rightarrow> (string \<times> string) list" where
  "env_updates lb a =
     [(''REEFLEX_CORE_URL'', prompted lb (sa_core_url a) ''http://127.0.0.1:8080'' []),
      (''REEFLEX_MODE'', prompted lb (sa_mode a) ''enforce'' [''enforce'', ''observe'']),
      (''REEFLEX_CLAUDE_ENVIRONMENT'', prompted lb (sa_environment a) ''production'' [''production'', ''staging'', ''dev'']),
      (''REEFLEX_VERIFY_SSL'', prompted lb (sa_verify a) ''true'' [''true'', ''false'']),
      (matcher_stamp, default_matcher), (timeout_key, ''30'')]
     @ (case prompt_token lb (snd (sa_token a)) (fst (sa_token a)) of None \<Rightarrow> [] | Some t \<Rightarrow> [(''REEFLEX_CORE_TOKEN'', t)])"

text \<open>The settings that \<open>setup\<close> writes; an \<open>Inl\<close> writes nothing.\<close>

definition cmd_setup :: "library \<Rightarrow> setup_args \<Rightarrow> text_file \<Rightarrow> settings_exc + dict" where
  "cmd_setup lb a f =
     bindE (load_settings lb f) (\<lambda>settings.
     bindE (merge_hook_entry (hook_command_for_settings (sa_exe a) (sa_python a)) default_matcher 30 settings)
       (\<lambda>(merged, _). merge_env (env_updates lb a) merged))"

section \<open>The command is recognised\<close>

lemma chars_of_none: "chars_of s = [] \<longleftrightarrow> s = []"
  by (cases s) (auto split: list.split)

lemma chars_of_head: "\<exists>w ws. chars_of (c # b) = (c # w) # ws"
  by (simp split: list.split)

lemma chars_of_append: "\<not> continues c \<Longrightarrow> chars_of (a @ c # b) = chars_of a @ chars_of (c # b)"
proof (induction a)
  case (Cons x a)
  obtain w ws where c: "chars_of (c # b) = (c # w) # ws" using chars_of_head by blast
  have i: "chars_of (a @ c # b) = chars_of a @ (c # w) # ws" using Cons c by metis
  then show ?case
    unfolding append_Cons chars_of.simps(2) [of x] i c using Cons.prems
    by (cases "chars_of a") (simp_all add: chars_of_none)
qed simp

lemma places_suffix: "\<exists>c'. (c', b) \<in> set (places c (a @ b))"
proof (induction a arbitrary: c)
  case Nil
  then show ?case by (cases b) auto
qed auto

lemma search_hook_word: "re_search hook_word (a @ '' hook'')"
proof -
  have "chars_of (a @ CHR '' '' # ''hook'') = chars_of a @ chars_of (CHR '' '' # ''hook'')"
    by (rule chars_of_append) (simp add: continues_code)
  then have c: "cps (a @ '' hook'') = cps a @ [32, 104, 111, 111, 107]"
    by (simp add: cps_def high_byte_code continues_code)
  obtain c' where "(c', [32, 104, 111, 111, 107]) \<in> set (places None (cps (a @ '' hook'')))"
    using places_suffix [of "[32, 104, 111, 111, 107]" None "cps a"] c by auto
  moreover have "ends hook_word (c', [32, 104, 111, 111, 107]) \<noteq> []"
    by (simp add: hook_word_def lit_def space_re_def space_cp_def)
  ultimately show ?thesis unfolding re_search_def list_ex_iff by blast
qed

lemma quoted_plain: "CHR 0x27 \<notin> set m \<Longrightarrow> concat (map quoted_char m) = m"
  by (induction m) (auto simp: quoted_char_def)

lemma quote_keeps_part:
  assumes "contains_text m s" "CHR 0x27 \<notin> set m" "m \<noteq> []"
  shows "contains_text m (shlex_quote s)"
proof -
  obtain a b where s: "s = a @ m @ b" using assms(1) by (auto simp: contains_text_def sublist_def)
  have "concat (map quoted_char s) = concat (map quoted_char a) @ m @ concat (map quoted_char b)"
    by (simp add: s quoted_plain [OF assms(2)])
  then have "CHR 0x27 # concat (map quoted_char s) @ [CHR 0x27]
      = (CHR 0x27 # concat (map quoted_char a)) @ m @ (concat (map quoted_char b) @ [CHR 0x27])" by simp
  then have "sublist m (CHR 0x27 # concat (map quoted_char s) @ [CHR 0x27])" unfolding sublist_def by blast
  then show ?thesis using assms by (auto simp: shlex_quote_def contains_text_def)
qed

lemma contains_append: "contains_text m s \<Longrightarrow> contains_text m (s @ t)"
  by (simp add: contains_text_def sublist_append)

text \<open>\<open>which\<close> finds a file of the name it looks for.\<close>

definition named_exe :: "string option \<Rightarrow> bool" where
  "named_exe exe = (case exe of Some (c # e) \<Rightarrow> contains_text ''reeflex-claude'' (c # e) | _ \<Rightarrow> True)"

lemma fallback_is_ours: "is_our_hook (JStr (q @ '' -m reeflex_claude.cli hook''))"
proof -
  have "q @ '' -m reeflex_claude.cli hook'' = (q @ '' -m '') @ ''reeflex_claude'' @ ''.cli hook''" by simp
  then have "contains_text ''reeflex_claude'' (q @ '' -m reeflex_claude.cli hook'')"
    unfolding contains_text_def by (metis sublist_appendI)
  then show ?thesis using search_hook_word [of "q @ '' -m reeflex_claude.cli''"] by (simp add: is_our_hook_def)
qed

lemma setup_command_is_ours:
  assumes "named_exe exe"
  shows "is_our_hook (JStr (hook_command_for_settings exe python))"
proof (cases "case exe of Some (c # e) \<Rightarrow> True | _ \<Rightarrow> False")
  case True
  then obtain c e where e: "exe = Some (c # e)" by (auto split: option.splits list.splits)
  have "contains_text ''reeflex-claude'' (shlex_quote (c # e) @ '' hook'')"
    using assms by (intro contains_append quote_keeps_part) (auto simp: e named_exe_def)
  then show ?thesis
    using search_hook_word by (simp add: is_our_hook_def hook_command_for_settings_def e)
next
  case False
  then show ?thesis
    using fallback_is_ours by (auto simp: hook_command_for_settings_def split: option.splits list.splits)
qed

section \<open>What the merge leaves\<close>

lemma our_item_set [simp]:
  "our_item (JObj (dput ''timeout'' t (dput ''command'' c (dput ''type'' y d)))) = is_our_hook c"
  by (simp add: our_item_def)

lemma merge_item_ours: "is_our_hook (JStr command) \<Longrightarrow> our_item (merge_item command timeout i) = our_item i"
  by (simp add: merge_item_def)

lemma merge_item_foreign:
  "is_our_hook (JStr command) \<Longrightarrow> filter (\<lambda>i. \<not> our_item i) (map (merge_item command timeout) is) = filter (\<lambda>i. \<not> our_item i) is"
  by (induction "is") (auto simp: merge_item_ours merge_item_def)

lemma block_items_merged: "block_items (merge_block command matcher timeout b) = map (merge_item command timeout) (block_items b)"
proof (cases "list_ex our_item (block_items b)")
  case True
  then show ?thesis by (simp add: merge_block_def) (simp add: block_items_def)
next
  case False
  then have "map (merge_item command timeout) (block_items b) = block_items b"
    by (auto simp: merge_item_def list_ex_iff intro: map_idI)
  with False show ?thesis by (simp add: merge_block_def)
qed

lemma merge_hook_entry_Inr:
  assumes "merge_hook_entry command matcher timeout settings = Inr (s, replaced)"
  obtains hr blocks where "as_obj (dget settings ''hooks'') = hr" "pretool_blocks settings = blocks"
    "replaced = list_ex (\<lambda>b. list_ex our_item (block_items b)) blocks"
    "s = dput ''hooks'' (JObj (dput ''PreToolUse'' (JArr (map (merge_block command matcher timeout) blocks
       @ (if replaced then [] else [fresh_block command matcher timeout]))) hr)) settings"
proof -
  obtain hr where h: "dget_or settings ''hooks'' (JObj []) = JObj hr"
    using assms by (auto simp: merge_hook_entry_def split: json.splits)
  obtain blocks where b: "dget_or hr ''PreToolUse'' (JArr []) = JArr blocks"
    using assms h by (auto simp: merge_hook_entry_def split: json.splits)
  have "as_obj (dget settings ''hooks'') = hr"
    using h by (auto simp: dget_or_def dget_def split: option.splits)
  moreover have "pretool_blocks settings = blocks"
    using h b by (auto simp: pretool_blocks_def dget_or_def dget_def split: option.splits)
  moreover have "replaced = list_ex (\<lambda>b. list_ex our_item (block_items b)) blocks"
    "s = dput ''hooks'' (JObj (dput ''PreToolUse'' (JArr (map (merge_block command matcher timeout) blocks
       @ (if replaced then [] else [fresh_block command matcher timeout]))) hr)) settings"
    using assms by (auto simp: merge_hook_entry_def h b Let_def)
  ultimately show thesis by (rule that)
qed

lemma pretool_put [simp]:
  "pretool_blocks (dput ''hooks'' (JObj (dput ''PreToolUse'' (JArr bs) hr)) settings) = bs"
  by (simp add: pretool_blocks_def)

text \<open>An entry of ours as it was wired, and what others wrote: other keys, blocks without an entry of ours, and the
  entries that are not ours.\<close>

definition wired_as :: "string \<Rightarrow> int \<Rightarrow> json \<Rightarrow> bool" where
  "wired_as command timeout i \<longleftrightarrow> our_item i \<and> dget (as_obj i) ''command'' = JStr command
     \<and> dget (as_obj i) ''timeout'' = JInt timeout"

definition foreign_part :: "dict \<Rightarrow> dict \<times> dict \<times> json list \<times> json list" where
  "foreign_part settings =
     (filter (\<lambda>(k, v). k \<notin> set [''hooks'', ''env'']) settings,
      filter (\<lambda>(k, v). k \<noteq> ''PreToolUse'') (as_obj (dget settings ''hooks'')),
      filter (\<lambda>b. \<not> list_ex our_item (block_items b)) (pretool_blocks settings),
      filter (\<lambda>i. \<not> our_item i) (concat (map block_items (pretool_blocks settings))))"

lemma filter_dput: "filter (\<lambda>(k, v). k \<noteq> j) (dput j x d) = filter (\<lambda>(k, v). k \<noteq> j) d"
  by (induction d) auto

lemma fresh_items: "block_items (fresh_block command matcher timeout)
    = [JObj [(''type'', JStr ''command''), (''command'', JStr command), (''timeout'', JInt timeout)]]"
  by (simp add: fresh_block_def block_items_def)

lemma fresh_wired: "is_our_hook (JStr command) \<Longrightarrow>
    list_all (wired_as command timeout) (block_items (fresh_block command matcher timeout))"
  by (simp add: fresh_items wired_as_def our_item_def)

lemma merged_wired: "is_our_hook (JStr command) \<Longrightarrow> our_item (merge_item command timeout i) \<Longrightarrow>
    wired_as command timeout (merge_item command timeout i)"
  by (simp add: merge_item_ours) (simp add: merge_item_def wired_as_def)

lemma merge_wires:
  assumes "is_our_hook (JStr command)" "merge_hook_entry command matcher timeout settings = Inr (s, replaced)"
  shows "our_items s \<noteq> []" "list_all (wired_as command timeout) (our_items s)"
proof -
  obtain hr blocks where m: "replaced = list_ex (\<lambda>b. list_ex our_item (block_items b)) blocks"
    "s = dput ''hooks'' (JObj (dput ''PreToolUse'' (JArr (map (merge_block command matcher timeout) blocks
       @ (if replaced then [] else [fresh_block command matcher timeout]))) hr)) settings"
    by (rule merge_hook_entry_Inr [OF assms(2)])
  have i: "our_items s = filter our_item (map (merge_item command timeout) (concat (map block_items blocks)))
      @ (if replaced then [] else block_items (fresh_block command matcher timeout))"
    using assms(1) by (auto simp: our_items_def m(2) block_items_merged map_concat comp_def fresh_items our_item_def)
  have "list_all (wired_as command timeout) (filter our_item (map (merge_item command timeout) xs))" for xs
    using merged_wired [OF assms(1)] by (auto simp: list_all_iff)
  then show "list_all (wired_as command timeout) (our_items s)" using fresh_wired [OF assms(1)] by (simp add: i)
  show "our_items s \<noteq> []"
  proof (cases replaced)
    case True
    then obtain b x where "b \<in> set blocks" "x \<in> set (block_items b)" "our_item x" using m(1) by (auto simp: list_ex_iff)
    then have "merge_item command timeout x \<in> set (our_items s)" using assms(1) by (auto simp: i merge_item_ours)
    then show ?thesis by auto
  next
    case False
    then show ?thesis by (simp add: i fresh_items)
  qed
qed

lemma merge_block_ours: "is_our_hook (JStr command) \<Longrightarrow>
    list_ex our_item (block_items (merge_block command matcher timeout b)) = list_ex our_item (block_items b)"
  by (simp add: block_items_merged list_ex_iff merge_item_ours)

lemma merge_blocks_foreign:
  assumes "is_our_hook (JStr command)"
  shows "filter (\<lambda>b. \<not> list_ex our_item (block_items b)) (map (merge_block command matcher timeout) bs)
    = filter (\<lambda>b. \<not> list_ex our_item (block_items b)) bs"
  by (induction bs) (simp_all add: merge_block_ours [OF assms], simp add: merge_block_def)

lemma filter_dput_out: "\<not> P j \<Longrightarrow> filter (\<lambda>(k, v). P k) (dput j x d) = filter (\<lambda>(k, v). P k) d"
  by (induction d) auto

lemma merge_keeps_foreign:
  assumes "is_our_hook (JStr command)" "merge_hook_entry command matcher timeout settings = Inr (s, replaced)"
  shows "foreign_part s = foreign_part settings"
proof -
  obtain hr blocks where m: "as_obj (dget settings ''hooks'') = hr" "pretool_blocks settings = blocks"
    "s = dput ''hooks'' (JObj (dput ''PreToolUse'' (JArr (map (merge_block command matcher timeout) blocks
       @ (if replaced then [] else [fresh_block command matcher timeout]))) hr)) settings"
    by (rule merge_hook_entry_Inr [OF assms(2)])
  have f: "list_ex our_item (block_items (fresh_block command matcher timeout))"
    "filter (\<lambda>i. \<not> our_item i) (block_items (fresh_block command matcher timeout)) = []"
    using assms(1) by (simp_all add: fresh_items our_item_def)
  have c: "concat (map (block_items \<circ> merge_block command matcher timeout) blocks)
      = map (merge_item command timeout) (concat (map block_items blocks))"
    by (simp add: block_items_merged map_concat comp_def)
  have "filter (\<lambda>i. \<not> our_item i) (concat (map block_items (pretool_blocks s)))
      = filter (\<lambda>i. \<not> our_item i) (concat (map block_items blocks))"
    by (simp add: m(3) c f merge_item_foreign [OF assms(1)])
  then show ?thesis
    by (simp add: foreign_part_def m(1,2) merge_blocks_foreign [OF assms(1)] f filter_dput_out)
      (simp add: m(3) merge_blocks_foreign [OF assms(1)] f filter_dput_out)
qed

lemma merge_env_Inr:
  assumes "merge_env updates settings = Inr s"
  shows "\<exists>x. s = dput ''env'' x settings"
  using assms by (auto simp: merge_env_def split: json.splits)

lemma pretool_env [simp]: "pretool_blocks (dput ''env'' x settings) = pretool_blocks settings"
  by (simp add: pretool_blocks_def)

lemma foreign_env: "foreign_part (dput ''env'' x settings) = foreign_part settings"
  by (simp add: foreign_part_def filter_dput_out)

lemma our_items_env: "our_items (dput ''env'' x settings) = our_items settings"
  by (simp add: our_items_def)

definition setup_command :: "setup_args \<Rightarrow> string" where
  "setup_command a = hook_command_for_settings (sa_exe a) (sa_python a)"

lemma cmd_setup_parts:
  assumes "cmd_setup lb a f = Inr s" "load_settings lb f = Inr s0"
  obtains merged b x where "merge_hook_entry (setup_command a) default_matcher 30 s0 = Inr (merged, b)"
    "s = dput ''env'' x merged"
  using assms merge_env_Inr by (auto simp: cmd_setup_def setup_command_def py_simps split: prod.splits) blast


definition sample_settings :: dict where
  "sample_settings =
     [(''model'', JStr ''opus''),
      (''hooks'', JObj [(''PreToolUse'', JArr [JObj [(''matcher'', JStr ''Bash''),
         (''hooks'', JArr [JObj [(''command'', JStr ''lint'')], JObj [(''command'', JStr ''reeflex-claude hook'')]])]])])]"

definition sample_setup :: setup_args where
  "sample_setup = \<lparr>sa_core_url = (None, NoTty), sa_mode = (None, NoTty), sa_verify = (None, NoTty),
     sa_environment = (None, Tty (Some ''dev'')), sa_token = (None, NoTty), sa_exe = Some ''/opt/my tools/reeflex-claude'',
     sa_python = ''python3''\<rparr>"


text \<open>C38: When \<open>check\<close> finds no mismatch and the declared timeout is no zero, no negative number and no \<open>nan\<close>, the
  time that the hook takes for granted ends no later than the runner kills it.\<close>

definition declared_ok :: "library \<Rightarrow> dict \<Rightarrow> bool" where
  "declared_ok lb settings =
     (case lb_float lb (declared_timeout lb settings) of None \<Rightarrow> True | Some d \<Rightarrow> positive d \<or> declared_timeout lb settings = [])"

theorem quiet_check_fits_the_runner:
  assumes "deadline_mismatch lb settings = Inr None" "wired_hook_timeout lb settings = Inr (Some (Fin t))"
    and "declared_ok lb settings"
  shows "runner_timeout (lb_ucd lb) (lb_float lb) (Some (exported_timeout lb settings)) \<le> t"
proof (cases "declared_timeout lb settings = []")
  case True
  then show ?thesis
    using assms by (auto simp: deadline_mismatch_def runner_timeout_def declared_timeout_def flt_def Let_def py_simps
      runner_timeout_seconds_def split: if_splits)
next
  case False
  then obtain d where d: "lb_float lb (declared_timeout lb settings) = Some d" "\<not> flt (Fin t) d"
    using assms(1,2) by (auto simp: deadline_mismatch_def Let_def py_simps split: option.splits if_splits)
  then obtain x where x: "d = Fin x" "0 < x"
    using assms(3) False by (cases d) (auto simp: declared_ok_def flt_def)
  then have "x \<le> t" using d(2) by (auto simp: flt_def)
  then show ?thesis
    using False d(1) x by (simp add: runner_timeout_def declared_timeout_def [symmetric] Let_def)
qed

definition sample_wired :: dict where
  "sample_wired =
     [(''hooks'', JObj [(''PreToolUse'', JArr [JObj [(''hooks'',
         JArr [JObj [(''command'', JStr ''reeflex-claude hook''), (''timeout'', JInt 25)]])]])]),
      (''env'', JObj [(''REEFLEX_CLAUDE_HOOK_TIMEOUT'', JStr ''20'')])]"

theorem quiet_check_fits_the_runner_witness:
  "runner_timeout plain_ucd (\<lambda>_. Some (Fin 20))
     (Some (exported_timeout (sample_library\<lparr>lb_float := (\<lambda>_. Some (Fin 20))\<rparr>) sample_wired)) \<le> 25"
proof -
  let ?lb = "sample_library\<lparr>lb_float := (\<lambda>_. Some (Fin 20))\<rparr>"
  have o: "our_items sample_wired = [JObj [(''command'', JStr ''reeflex-claude hook''), (''timeout'', JInt 25)]]"
    by (simp add: our_items_def pretool_blocks_def block_items_def sample_wired_def our_item_def is_our_hook_def contains_text_def)
  have w: "wired_hook_timeout ?lb sample_wired = Inr (Some (Fin 25))"
    by (simp add: wired_hook_timeout_def o timeout_value_def sample_library_def)
  have d: "declared_timeout ?lb sample_wired = ''20''"
    by (simp add: declared_timeout_def exported_timeout_def sample_wired_def dget_or_def timeout_key_def sample_library_def
        py_strip_def strip_ascii_def is_ascii_def is_space_char_def)
  have m: "deadline_mismatch ?lb sample_wired = Inr None"
    by (simp add: deadline_mismatch_def w d flt_def)
  have "declared_ok ?lb sample_wired" by (simp add: declared_ok_def)
  then show ?thesis using quiet_check_fits_the_runner [OF m w] by (simp add: sample_library_def)
qed

text \<open>A declared zero passes the check, whatever the runner's patience, and the hook takes it for thirty seconds.\<close>

lemma declared_zero_goes_unseen:
  assumes "wired_hook_timeout lb settings = Inr (Some (Fin t))" "0 \<le> t"
    and "declared_timeout lb settings \<noteq> []" "lb_float lb (declared_timeout lb settings) = Some (Fin 0)"
  shows "deadline_mismatch lb settings = Inr None
     \<and> runner_timeout (lb_ucd lb) (lb_float lb) (Some (exported_timeout lb settings)) = 30"
  using assms by (auto simp: deadline_mismatch_def py_simps flt_def runner_timeout_def Let_def
      declared_timeout_def [symmetric] runner_timeout_seconds_def)

end
