(* ===== verification/HookPosture.thy ===== *)
theory HookPosture
  imports HookSettings
begin

text \<open>
  The record that a session leaves when not every tool reaches the hook (\<open>reeflex-claude/reeflex_claude/posture.py\<close>):
  where settings can be, the matchers found in them, the assessment, and the marker that keeps it to one record per
  session. The files, the environment and the compiler of regular expressions are arguments.
\<close>

section \<open>Where settings can be\<close>

text \<open>\<open>str(Path(s))\<close> on a POSIX system, and \<open>root / part\<close> for a relative part.\<close>

definition posix_path :: "string \<Rightarrow> string" where
  "posix_path s =
     (let t = replicate (initial_slashes s) CHR ''/''
            @ join_with ''/'' (filter (\<lambda>w. w \<noteq> [] \<and> w \<noteq> ''.'') (split_on CHR ''/'' s))
      in if t = [] then ''.'' else t)"

definition path_in :: "string \<Rightarrow> string \<Rightarrow> string" where
  "path_in r part = (if r = ''.'' then part else if last r = CHR ''/'' then r @ part else r @ CHR ''/'' # part)"

definition settings_in :: "string \<Rightarrow> string" where
  "settings_in r = path_in r ''.claude/settings.json''"

text \<open>The surroundings of a hook process.\<close>

datatype platform = Darwin | PosixLike

record posture_env =
  pe_project :: "string option"
  pe_cwd :: "string option"
  pe_home :: "string option"
  pe_platform :: platform
  pe_stamp :: "string option"

definition managed_settings :: "platform \<Rightarrow> string" where
  "managed_settings pf =
     (case pf of Darwin \<Rightarrow> ''/Library/Application Support/ClaudeCode/managed-settings.json''
      | PosixLike \<Rightarrow> ''/etc/claude-code/managed-settings.json'')"

fun first_seen :: "string list \<Rightarrow> string list \<Rightarrow> string list" where
  "first_seen seen [] = []"
| "first_seen seen (p # ps) = (if p \<in> set seen then first_seen seen ps else p # first_seen (p # seen) ps)"

definition settings_roots :: "library \<Rightarrow> posture_env \<Rightarrow> string list" where
  "settings_roots lb e =
     (let project = strip lb (env_or (pe_project e) []);
          roots = (if project = [] then [] else [posix_path project])
      in case pe_cwd e of
           None \<Rightarrow> roots
         | Some c \<Rightarrow> if posix_path c \<in> set roots then roots else roots @ [posix_path c])"

definition candidate_settings_paths :: "library \<Rightarrow> posture_env \<Rightarrow> string list" where
  "candidate_settings_paths lb e =
     first_seen []
       (concat (map (\<lambda>r. [settings_in r, path_in r ''.claude/settings.local.json'']) (settings_roots lb e))
        @ (case pe_home e of None \<Rightarrow> [] | Some h \<Rightarrow> [settings_in (posix_path h)])
        @ [managed_settings (pe_platform e)])"

section \<open>What a file says\<close>

text \<open>A file is its size and what reading it gives.\<close>

type_synonym settings_files = "string \<Rightarrow> nat \<times> text_file"

definition max_settings_bytes :: nat where
  "max_settings_bytes = 1048576"

definition read_settings :: "library \<Rightarrow> nat \<times> text_file \<Rightarrow> dict option" where
  "read_settings lb f =
     (case snd f of
        FText t \<Rightarrow>
          if max_settings_bytes < fst f then None
          else (case lb_loads lb t of Inr (JObj d) \<Rightarrow> Some d | _ \<Rightarrow> None)
      | _ \<Rightarrow> None)"

definition block_matcher :: "json \<Rightarrow> string option" where
  "block_matcher b = (case dget (as_obj b) ''matcher'' of JStr m \<Rightarrow> Some m | _ \<Rightarrow> None)"

definition matchers_in :: "dict \<Rightarrow> string option list" where
  "matchers_in settings = map block_matcher (filter (\<lambda>b. list_ex our_item (block_items b)) (pretool_blocks settings))"

definition is_full_coverage :: "library \<Rightarrow> string option \<Rightarrow> bool" where
  "is_full_coverage lb m = (case m of None \<Rightarrow> True | Some s \<Rightarrow> strip lb s \<in> set [''*'', ''''])"

definition illustrative_tools :: "string list" where
  "illustrative_tools =
     [''mcp__<server>__<tool>'', ''Task'', ''SlashCommand'', ''Skill'', ''BashOutput'', ''KillShell'', ''ExitPlanMode'',
      ''TodoWrite'']"

definition probe_name :: "string \<Rightarrow> string" where
  "probe_name t = (if t = ''mcp__<server>__<tool>'' then ''mcp__srv__do_it'' else t)"

text \<open>\<open>compile m\<close> is \<open>fullmatch\<close> of the compiled pattern, \<open>None\<close> when it does not compile.\<close>

type_synonym compiler = "string \<Rightarrow> (string \<Rightarrow> bool) option"

definition uncovered_examples :: "compiler \<Rightarrow> string \<Rightarrow> string list" where
  "uncovered_examples compile m =
     (case compile m of
        None \<Rightarrow> illustrative_tools
      | Some full \<Rightarrow> filter (\<lambda>t. \<not> full (probe_name t)) illustrative_tools)"

section \<open>The assessment\<close>

datatype coverage = CoverFull | CoverNarrowed | CoverUnverified
datatype evidence_kind = FromFile | FromStamp | NoEvidence

record wiring =
  wr_source :: string
  wr_matcher :: "string option"
  wr_covers :: bool

record assessment =
  as_state :: coverage
  as_wired :: "wiring list"
  as_uncovered :: "string list"
  as_scanned :: "string list"
  as_evidence :: evidence_kind

definition wiring_of :: "library \<Rightarrow> string \<Rightarrow> string option \<Rightarrow> wiring" where
  "wiring_of lb source m = \<lparr>wr_source = source, wr_matcher = m, wr_covers = is_full_coverage lb m\<rparr>"

definition scanned_files :: "library \<Rightarrow> posture_env \<Rightarrow> settings_files \<Rightarrow> (string \<times> dict) list" where
  "scanned_files lb e files =
     concat (map (\<lambda>p. case read_settings lb (files p) of None \<Rightarrow> [] | Some s \<Rightarrow> [(p, s)]) (candidate_settings_paths lb e))"

definition wired_in_files :: "library \<Rightarrow> posture_env \<Rightarrow> settings_files \<Rightarrow> wiring list" where
  "wired_in_files lb e files =
     concat (map (\<lambda>(p, s). map (wiring_of lb p) (matchers_in s)) (scanned_files lb e files))"

definition stamp_source :: string where
  "stamp_source = ''env:REEFLEX_CLAUDE_MATCHER''"

definition stamped :: "library \<Rightarrow> posture_env \<Rightarrow> wiring list" where
  "stamped lb e = (case pe_stamp e of None \<Rightarrow> [] | Some m \<Rightarrow> [wiring_of lb stamp_source (Some m)])"

definition missed_by_all :: "compiler \<Rightarrow> wiring list \<Rightarrow> string list" where
  "missed_by_all compile ws =
     filter (\<lambda>t. list_all (\<lambda>w. t \<in> set (uncovered_examples compile (env_or (wr_matcher w) []))) ws) illustrative_tools"

definition assess :: "library \<Rightarrow> compiler \<Rightarrow> posture_env \<Rightarrow> settings_files \<Rightarrow> assessment" where
  "assess lb compile e files =
     (let filed = wired_in_files lb e files;
          wired = (if filed \<noteq> [] then filed else stamped lb e);
          evidence = (if filed \<noteq> [] then FromFile else if wired \<noteq> [] then FromStamp else NoEvidence);
          result = \<lparr>as_state = CoverUnverified, as_wired = wired, as_uncovered = [],
            as_scanned = map fst (scanned_files lb e files), as_evidence = evidence\<rparr>
      in if wired = [] then result
         else if list_ex wr_covers wired
         then (if evidence = FromStamp then result else result\<lparr>as_state := CoverFull\<rparr>)
         else result\<lparr>as_state := CoverNarrowed, as_uncovered := missed_by_all compile wired\<rparr>)"

definition widen_command :: "posture_env \<Rightarrow> assessment \<Rightarrow> string" where
  "widen_command e a =
     (let home = (case pe_home e of None \<Rightarrow> [] | Some h \<Rightarrow> settings_in (posix_path h));
          sources = map wr_source (as_wired a)
      in if home \<noteq> [] \<and> sources \<noteq> [] \<and> list_all (\<lambda>s. s = home) sources then ''reeflex-claude setup --global''
         else ''reeflex-claude setup'')"

section \<open>One record per session\<close>

definition marker_ttl_seconds :: rat where
  "marker_ttl_seconds = 604800"

text \<open>The markers of the sessions with the times they were written, and the audit stream.\<close>

record posture_world =
  pw_markers :: "(string \<times> rat) list"
  pw_posted :: "dict list"

text \<open>What one call of the hook meets; \<open>pc_logged\<close> and \<open>pc_marked\<close> say whether the two writes reach the disk.\<close>

record posture_call =
  pc_session :: string
  pc_mode :: string
  pc_env :: posture_env
  pc_files :: settings_files
  pc_now :: rat
  pc_ts :: string
  pc_logged :: bool
  pc_marked :: bool

definition marker_name :: "library \<Rightarrow> string \<Rightarrow> string" where
  "marker_name lb session = take 32 (lb_sha256 lb session)"

definition wiring_json :: "wiring \<Rightarrow> json" where
  "wiring_json w =
     JObj [(''source'', JStr (wr_source w)), (''matcher'', jopt (wr_matcher w)), (''covers_all'', JBool (wr_covers w))]"

definition evidence_text :: "evidence_kind \<Rightarrow> string" where
  "evidence_text k = (case k of FromFile \<Rightarrow> ''settings-file'' | FromStamp \<Rightarrow> ''env-stamp'' | NoEvidence \<Rightarrow> ''none'')"

definition posture_rule :: "assessment \<Rightarrow> string" where
  "posture_rule a =
     (if as_state a = CoverNarrowed then ''reeflex.adapter/matcher_narrowed'' else ''reeflex.adapter/matcher_unverified'')"

text \<open>\<open>say\<close> writes the reason. There is no verdict in the record.\<close>

definition build_record ::
  "(posture_env \<Rightarrow> assessment \<Rightarrow> string) \<Rightarrow> string \<Rightarrow> posture_call \<Rightarrow> assessment \<Rightarrow> dict" where
  "build_record say version c a =
     [(''ts'', JStr (pc_ts c)), (''session_id'', JStr (''claude:'' @ pc_session c)), (''event'', JStr ''adapter_posture''),
      (''rule'', JStr (posture_rule a)), (''reason'', JStr (say (pc_env c) a)),
      (''matcher'', JObj [(''shipped'', JStr default_matcher), (''wired'', JArr (map wiring_json (as_wired a))),
         (''uncovered_examples'', JArr (map JStr (as_uncovered a))), (''evidence'', JStr (evidence_text (as_evidence a))),
         (''scanned'', JArr (map JStr (as_scanned a)))]),
      (''remediation'', JStr (widen_command (pc_env c) a)), (''mode'', JStr (pc_mode c)), (''adapter_version'', JStr version)]"

definition prune_markers :: "rat \<Rightarrow> (string \<times> rat) list \<Rightarrow> (string \<times> rat) list" where
  "prune_markers now ms = filter (\<lambda>(m, t). now - t \<le> marker_ttl_seconds) ms"

definition note_once ::
  "library \<Rightarrow> compiler \<Rightarrow> (posture_env \<Rightarrow> assessment \<Rightarrow> string) \<Rightarrow> string \<Rightarrow> posture_call \<Rightarrow> posture_world
     \<Rightarrow> posture_world \<times> dict option" where
  "note_once lb compile say version c w =
     (let name = marker_name lb (pc_session c)
      in if pc_session c = [] \<or> map_of (pw_markers w) name \<noteq> None then (w, None)
         else let a = assess lb compile (pc_env c) (pc_files c);
                  rec = (if as_state a = CoverFull then None else Some (build_record say version c a));
                  w1 = (case rec of Some r \<Rightarrow> if pc_logged c then w\<lparr>pw_posted := pw_posted w @ [r]\<rparr> else w | None \<Rightarrow> w);
                  w2 = (if pc_marked c then w1\<lparr>pw_markers := prune_markers (pc_now c) (dput name (pc_now c) (pw_markers w1))\<rparr>
                        else w1)
              in (w2, rec))"

definition note_calls ::
  "library \<Rightarrow> compiler \<Rightarrow> (posture_env \<Rightarrow> assessment \<Rightarrow> string) \<Rightarrow> string \<Rightarrow> posture_call list \<Rightarrow> posture_world
     \<Rightarrow> posture_world" where
  "note_calls lb compile say version cs w = fold (\<lambda>c w. fst (note_once lb compile say version c w)) cs w"

section \<open>What an assessment rests on\<close>

lemma full_coverage_rests_on_a_file:
  "as_state (assess lb compile e files) = CoverFull
     \<longleftrightarrow> list_ex (\<lambda>(p, s). list_ex (is_full_coverage lb) (matchers_in s)) (scanned_files lb e files)"
proof -
  have f: "list_ex wr_covers (wired_in_files lb e files)
      \<longleftrightarrow> list_ex (\<lambda>(p, s). list_ex (is_full_coverage lb) (matchers_in s)) (scanned_files lb e files)"
    by (force simp: wired_in_files_def list_ex_iff wiring_of_def)
  have "as_state (assess lb compile e files) = CoverFull \<longleftrightarrow> list_ex wr_covers (wired_in_files lb e files)"
    by (auto simp: assess_def Let_def)
  then show ?thesis using f by simp
qed

lemma our_block_merged:
  assumes "is_our_hook (JStr command)" "list_ex our_item (block_items (merge_block command matcher timeout b))"
  shows "block_matcher (merge_block command matcher timeout b) = Some matcher"
  using assms merge_block_ours [OF assms(1)] by (simp add: merge_block_def block_matcher_def)

lemma merge_sets_matchers:
  assumes "is_our_hook (JStr command)" "merge_hook_entry command matcher timeout settings = Inr (s, replaced)"
  shows "matchers_in s \<noteq> []" "list_all (\<lambda>m. m = Some matcher) (matchers_in s)"
proof -
  obtain hr blocks where m: "replaced = list_ex (\<lambda>b. list_ex our_item (block_items b)) blocks"
    "s = dput ''hooks'' (JObj (dput ''PreToolUse'' (JArr (map (merge_block command matcher timeout) blocks
       @ (if replaced then [] else [fresh_block command matcher timeout]))) hr)) settings"
    by (rule merge_hook_entry_Inr [OF assms(2)])
  have f: "list_ex our_item (block_items (fresh_block command matcher timeout))"
    "block_matcher (fresh_block command matcher timeout) = Some matcher"
    using assms(1) by (simp_all add: fresh_items our_item_def) (simp add: fresh_block_def block_matcher_def)
  show "list_all (\<lambda>m. m = Some matcher) (matchers_in s)"
    using f(2) our_block_merged [OF assms(1)] by (auto simp: matchers_in_def m(2) list_all_iff)
  show "matchers_in s \<noteq> []"
  proof (cases replaced)
    case True
    then obtain b where b: "b \<in> set blocks" "list_ex our_item (block_items b)" using m(1) by (auto simp: list_ex_iff)
    then have "merge_block command matcher timeout b \<in> set (filter (\<lambda>b. list_ex our_item (block_items b)) (pretool_blocks s))"
      using merge_block_ours [OF assms(1)] by (simp add: m(2))
    then show ?thesis unfolding matchers_in_def by force
  next
    case False
    then show ?thesis using f(1) by (simp add: matchers_in_def m(2))
  qed
qed

text \<open>What \<open>setup\<close> wrote into a file at a known place is assessed as full coverage.\<close>

lemma setup_is_assessed_full:
  assumes "named_exe (sa_exe a)" "load_settings lb f = Inr s0" "cmd_setup lb a f = Inr s"
    and "p \<in> set (candidate_settings_paths lb e)" "read_settings lb (files p) = Some s"
  shows "as_state (assess lb compile e files) = CoverFull"
proof -
  obtain merged b x where m: "merge_hook_entry (setup_command a) default_matcher 30 s0 = Inr (merged, b)"
    "s = dput ''env'' x merged"
    by (rule cmd_setup_parts [OF assms(3,2)])
  have o: "is_our_hook (JStr (setup_command a))" using setup_command_is_ours [OF assms(1)] by (simp add: setup_command_def)
  have "matchers_in s = matchers_in merged" by (simp add: matchers_in_def m(2))
  then have "matchers_in s \<noteq> []" "list_all (\<lambda>m. m = Some default_matcher) (matchers_in s)"
    using merge_sets_matchers [OF o m(1)] by simp_all
  moreover have "is_full_coverage lb (Some default_matcher)"
    by (simp add: is_full_coverage_def default_matcher_def py_strip_def strip_ascii_def is_ascii_def is_space_char_def)
  ultimately have "list_ex (is_full_coverage lb) (matchers_in s)" by (cases "matchers_in s") simp_all
  moreover have "(p, s) \<in> set (scanned_files lb e files)" using assms(4,5) by (force simp: scanned_files_def)
  ultimately show ?thesis unfolding full_coverage_rests_on_a_file list_ex_iff by blast
qed

section \<open>A session leaves at most one record\<close>

definition records_of :: "string \<Rightarrow> posture_world \<Rightarrow> dict list" where
  "records_of session w = filter (\<lambda>r. dget r ''session_id'' = JStr (''claude:'' @ session)) (pw_posted w)"

text \<open>Both writes of a call reach the disk, its time is in the span of one marker's life, and no other session has
  the digest of this one.\<close>

definition steady :: "library \<Rightarrow> rat \<Rightarrow> string \<Rightarrow> posture_call \<Rightarrow> bool" where
  "steady lb t0 session c \<longleftrightarrow> pc_logged c \<and> pc_marked c \<and> t0 \<le> pc_now c \<and> pc_now c \<le> t0 + marker_ttl_seconds
     \<and> (marker_name lb (pc_session c) = marker_name lb session) = (pc_session c = session)"

lemma map_of_prune:
  "map_of ms m = Some t \<Longrightarrow> now - t \<le> marker_ttl_seconds \<Longrightarrow> map_of (prune_markers now ms) m = Some t"
  by (induction ms) (auto simp: prune_markers_def)

lemma map_of_prune_None: "map_of ms m = None \<Longrightarrow> map_of (prune_markers now ms) m = None"
  by (auto simp: prune_markers_def map_of_eq_None_iff)

lemma record_session: "dget (build_record say version c a) ''session_id'' = JStr (''claude:'' @ pc_session c)"
  by (simp add: build_record_def)

text \<open>A call of another session leaves this one's marker and records alone.\<close>

lemma other_session:
  assumes "steady lb t0 session c" "pc_session c \<noteq> session"
  shows "records_of session (fst (note_once lb compile say version c w)) = records_of session w"
    and "map_of (pw_markers w) (marker_name lb session) = None
      \<Longrightarrow> map_of (pw_markers (fst (note_once lb compile say version c w))) (marker_name lb session) = None"
  using assms map_of_prune_None [of _ "marker_name lb session"]
  by (auto simp: note_once_def Let_def records_of_def record_session steady_def)

text \<open>A marker in force silences its session and stays.\<close>

lemma marked_session:
  assumes "steady lb t0 session c" "map_of (pw_markers w) (marker_name lb session) = Some t" "t0 \<le> t"
  shows "records_of session (fst (note_once lb compile say version c w)) = records_of session w"
    and "map_of (pw_markers (fst (note_once lb compile say version c w))) (marker_name lb session) = Some t"
proof -
  have "pc_now c - t \<le> marker_ttl_seconds" using assms(1,3) by (simp add: steady_def)
  then show "map_of (pw_markers (fst (note_once lb compile say version c w))) (marker_name lb session) = Some t"
    using assms map_of_prune [of _ "marker_name lb session" t "pc_now c"]
    by (cases "pc_session c = session") (auto simp: note_once_def Let_def steady_def)
  show "records_of session (fst (note_once lb compile say version c w)) = records_of session w"
    using assms other_session(1) [OF assms(1)] by (cases "pc_session c = session") (auto simp: note_once_def Let_def)
qed

lemma note_calls_Cons:
  "note_calls lb compile say version (c # cs) w
     = note_calls lb compile say version cs (fst (note_once lb compile say version c w))"
  by (simp add: note_calls_def)

lemma marked_run:
  assumes "list_all (steady lb t0 session) cs" "map_of (pw_markers w) (marker_name lb session) = Some t" "t0 \<le> t"
  shows "records_of session (note_calls lb compile say version cs w) = records_of session w"
  using assms
proof (induction cs arbitrary: w)
  case (Cons c cs)
  then show ?case using marked_session [of lb t0 session c w t] by (simp add: note_calls_Cons)
qed (simp add: note_calls_def)

lemma first_call:
  assumes "steady lb t0 session c" "pc_session c = session" "session \<noteq> []"
    and "map_of (pw_markers w) (marker_name lb session) = None"
  shows "records_of session (fst (note_once lb compile say version c w)) = records_of session w
      @ (let a = assess lb compile (pc_env c) (pc_files c)
         in if as_state a = CoverFull then [] else [build_record say version c a])"
    and "map_of (pw_markers (fst (note_once lb compile say version c w))) (marker_name lb session) = Some (pc_now c)"
proof -
  show "records_of session (fst (note_once lb compile say version c w)) = records_of session w
      @ (let a = assess lb compile (pc_env c) (pc_files c)
         in if as_state a = CoverFull then [] else [build_record say version c a])"
    using assms by (simp add: note_once_def Let_def steady_def records_of_def record_session)
  have "map_of (prune_markers (pc_now c) (dput (marker_name lb session) (pc_now c) ms)) (marker_name lb session)
      = Some (pc_now c)" for ms
    by (rule map_of_prune) (simp_all add: marker_ttl_seconds_def)
  then show "map_of (pw_markers (fst (note_once lb compile say version c w))) (marker_name lb session) = Some (pc_now c)"
    using assms by (simp add: note_once_def Let_def steady_def)
qed

lemma unmarked_run:
  assumes "list_all (steady lb t0 session) cs" "session \<noteq> []" "map_of (pw_markers w) (marker_name lb session) = None"
  shows "records_of session (note_calls lb compile say version cs w) = records_of session w
    @ (case find (\<lambda>c. pc_session c = session) cs of
         None \<Rightarrow> []
       | Some c \<Rightarrow> let a = assess lb compile (pc_env c) (pc_files c)
           in if as_state a = CoverFull then [] else [build_record say version c a])"
  using assms
proof (induction cs arbitrary: w)
  case (Cons c cs)
  let ?w = "fst (note_once lb compile say version c w)"
  show ?case
  proof (cases "pc_session c = session")
    case True
    have "t0 \<le> pc_now c" using Cons.prems(1) by (simp add: steady_def)
    have c: "steady lb t0 session c" "list_all (steady lb t0 session) cs" using Cons.prems(1) by simp_all
    note f = first_call [OF c(1) True Cons.prems(2,3), of compile say version]
    have "records_of session (note_calls lb compile say version cs ?w) = records_of session ?w"
      by (rule marked_run [OF c(2) f(2) \<open>t0 \<le> pc_now c\<close>])
    then show ?thesis using f(1) by (simp add: note_calls_Cons True)
  next
    case False
    then show ?thesis using Cons other_session [of lb t0 session c] by (simp add: note_calls_Cons)
  qed
qed (simp add: note_calls_def)


definition sample_posture_env :: posture_env where
  "sample_posture_env = \<lparr>pe_project = None, pe_cwd = Some ''/work'', pe_home = None, pe_platform = PosixLike,
     pe_stamp = Some ''*''\<rparr>"

definition sample_posture_call :: "string \<Rightarrow> rat \<Rightarrow> posture_call" where
  "sample_posture_call session now =
     \<lparr>pc_session = session, pc_mode = ''enforce'', pc_env = sample_posture_env, pc_files = (\<lambda>_. (0, FAbsent)),
      pc_now = now, pc_ts = ''t'', pc_logged = True, pc_marked = True\<rparr>"


end
