(* ===== verification/GatewayCalls.thy ===== *)
theory GatewayCalls
  imports ClassifyLaws
begin

text \<open>
  A tool call that a model behind an LLM gateway proposes, in the words of the classifier
  (\<open>reeflex-litellm/reeflex_litellm/normalize.py\<close>). A response object and the nested dict it becomes on the wire
  are read by the same code; both are JSON objects here. The names a gateway tool may have are matched by
  name and shape of the arguments, or by the operator's own table.
\<close>

section \<open>The seat's configuration\<close>

text \<open>What the environment holds: the variables shared with the hook, the seat's own, every other variable by name,
  and the files a variable may name.\<close>

datatype file_read = FileText string | FileMissing | FileUndecodable

record gateway_env =
  gv_hook :: hook_env
  gv_tool_map :: "string option"
  gv_map_file :: "string option"
  gv_map_inline :: "string option"
  gv_principal :: "string option"
  gv_environment :: "string option"
  gv_hold_wait :: "string option"
  gv_hold_poll :: "string option"
  gv_timeout :: "string option"
  gv_approver :: "string option"
  gv_push :: "string option"
  gv_holds_push :: "string option"
  gv_var :: "string \<Rightarrow> string option"
  gv_file :: "string \<Rightarrow> file_read"

text \<open>\<open>_get\<close>: a key of a dict, an attribute of an object; nothing else that JSON gives has one of the attributes
  asked for.\<close>

definition attr :: "json \<Rightarrow> string \<Rightarrow> json" where
  "attr j k = dget (as_obj j) k"

definition or_else :: "json \<Rightarrow> json \<Rightarrow> json" where
  "or_else j d = (if py_truth j then j else d)"

text \<open>\<open>except (ValueError, TypeError)\<close>; an encoding error is a \<open>ValueError\<close>.\<close>

fun value_or_type_error :: "hook_exc \<Rightarrow> bool" where
  "value_or_type_error HValueError = True"
| "value_or_type_error HTypeError = True"
| "value_or_type_error HEncodeError = True"
| "value_or_type_error _ = False"

section \<open>The operator's table\<close>

definition known_classifier_tools :: "string list" where
  "known_classifier_tools = [''Bash'', ''Write'', ''Edit'', ''MultiEdit'', ''NotebookEdit'', ''Read'', ''Glob'', ''Grep'',
     ''LS'', ''WebFetch'', ''WebSearch'']"

text \<open>The text of the table: the variable itself, or the file it names. A file that is not UTF-8 raises a
  \<open>UnicodeDecodeError\<close> that nothing here catches.\<close>

definition tool_map_text :: "library \<Rightarrow> gateway_env \<Rightarrow> hook_exc + string option" where
  "tool_map_text lb gv =
     (let raw = strip lb (env_or (gv_tool_map gv) [])
      in if raw = [] then Inr None
         else if prefix ''{'' raw then Inr (Some raw)
         else case gv_file gv raw of
                FileText t \<Rightarrow> Inr (Some t)
              | FileMissing \<Rightarrow> Inr None
              | FileUndecodable \<Rightarrow> Inl HValueError)"

fun tool_entries :: "dict \<Rightarrow> (string \<times> string) list" where
  "tool_entries [] = []"
| "tool_entries ((k, JStr v) # d) =
     (if v \<in> set known_classifier_tools then (k, v) # tool_entries d else tool_entries d)"
| "tool_entries (_ # d) = tool_entries d"

definition operator_tool_map :: "library \<Rightarrow> gateway_env \<Rightarrow> hook_exc + (string \<times> string) list" where
  "operator_tool_map lb gv =
     bindE (tool_map_text lb gv) (\<lambda>text. case text of
       None \<Rightarrow> Inr []
     | Some t \<Rightarrow> (case lb_loads lb t of
           Inl e \<Rightarrow> if value_or_type_error e then Inr [] else Inl e
         | Inr parsed \<Rightarrow> Inr (tool_entries (as_obj parsed))))"

section \<open>Names and arguments\<close>

definition command_keys :: "string list" where
  "command_keys = [''command'', ''cmd'', ''shell_command'', ''script'', ''bash_command'', ''code'', ''commandline'',
     ''command_line'']"

definition path_keys :: "string list" where
  "path_keys = [''file_path'', ''notebook_path'', ''path'', ''filename'', ''file'', ''target_path'', ''filepath'',
     ''dest'', ''destination'']"

definition content_keys :: "string list" where
  "content_keys = [''content'', ''text'', ''data'', ''body'', ''contents'', ''new_content'']"

definition url_keys :: "string list" where
  "url_keys = [''url'', ''uri'', ''link'', ''endpoint'', ''address'']"

definition query_keys :: "string list" where
  "query_keys = [''query'', ''q'', ''search'', ''search_query'', ''pattern'']"

definition shell_names :: "string list" where
  "shell_names = [''shell'', ''bash'', ''terminal'', ''console'', ''exec'', ''command'', ''run_code'', ''run_script'',
     ''sh_tool'', ''subprocess'']"

definition write_names :: "string list" where
  "write_names = [''write_file'', ''create_file'', ''save_file'', ''put_file'', ''write'', ''create_document'',
     ''upload_file'']"

definition edit_names :: "string list" where
  "edit_names = [''edit'', ''patch'', ''apply_diff'', ''modify_file'', ''update_file'', ''replace_in_file'', ''str_replace'']"

definition read_names :: "string list" where
  "read_names = [''read_file'', ''read'', ''cat_file'', ''get_file'', ''view_file'', ''list_dir'', ''list_files'',
     ''list_directory'', ''glob'', ''grep'', ''search_files'', ''find_file'', ''ls_tool'']"

definition fetch_names :: "string list" where
  "fetch_names = [''http_request'', ''fetch_url'', ''fetch'', ''browse'', ''curl'', ''web_get'', ''request_url'', ''open_url'']"

definition search_names :: "string list" where
  "search_names = [''web_search'', ''search_web'', ''google'', ''bing'', ''internet_search'']"

text \<open>\<open>_first\<close>: the first key that holds a text that is not blank.\<close>

fun first_text :: "library \<Rightarrow> dict \<Rightarrow> string list \<Rightarrow> string option" where
  "first_text lb args [] = None"
| "first_text lb args (k # ks) =
     (case dget args k of
        JStr v \<Rightarrow> if strip lb v \<noteq> [] then Some v else first_text lb args ks
      | _ \<Rightarrow> first_text lb args ks)"

definition name_matches :: "string \<Rightarrow> string list \<Rightarrow> bool" where
  "name_matches name needles \<longleftrightarrow> list_ex (\<lambda>n. contains_text n name) needles"

definition tool_by_shape :: "library \<Rightarrow> string \<Rightarrow> dict \<Rightarrow> string option" where
  "tool_by_shape lb name args =
     (let has = (\<lambda>keys. first_text lb args keys \<noteq> None); named = name_matches name
      in if named shell_names \<and> has command_keys then Some ''Bash''
         else if has [''command'', ''cmd'', ''shell_command''] \<and> \<not> named (read_names @ write_names @ edit_names)
         then Some ''Bash''
         else if named edit_names \<and> has path_keys then Some ''Edit''
         else if named write_names \<and> has path_keys then Some ''Write''
         else if named search_names \<and> has query_keys then Some ''WebSearch''
         else if named fetch_names \<and> has url_keys then Some ''WebFetch''
         else if named read_names \<and> (has path_keys \<or> has query_keys) then Some ''Read''
         else None)"

text \<open>The classifier's tool, if any, and where it comes from.\<close>

definition map_tool :: "library \<Rightarrow> gateway_env \<Rightarrow> string \<Rightarrow> dict \<Rightarrow> hook_exc + string option \<times> string" where
  "map_tool lb gv gateway_tool args =
     bindE (operator_tool_map lb gv) (\<lambda>table.
       Inr (case map_of table gateway_tool of
              Some t \<Rightarrow> (Some t, ''operator_map'')
            | None \<Rightarrow> (case tool_by_shape lb (lower lb gateway_tool) args of
                  Some t \<Rightarrow> (Some t, ''name_and_shape'')
                | None \<Rightarrow> (None, ''unmapped''))))"

text \<open>Renaming a key: the value stays the model's.\<close>

definition put_first :: "library \<Rightarrow> string \<Rightarrow> string list \<Rightarrow> dict \<Rightarrow> dict \<Rightarrow> dict" where
  "put_first lb key keys args out =
     (case first_text lb args keys of None \<Rightarrow> out | Some v \<Rightarrow> dput key (JStr v) out)"

definition project_input :: "library \<Rightarrow> string \<Rightarrow> dict \<Rightarrow> dict" where
  "project_input lb tool args =
     (if tool = ''Bash'' then put_first lb ''command'' command_keys args args
      else if tool \<in> set [''Write'', ''Edit'', ''MultiEdit'', ''NotebookEdit'', ''Read'']
      then put_first lb ''content'' content_keys args (put_first lb ''file_path'' path_keys args args)
      else if tool = ''WebFetch'' then put_first lb ''url'' url_keys args args
      else if tool = ''WebSearch'' then put_first lb ''query'' query_keys args args
      else args)"

section \<open>One call\<close>

record gateway_call =
  gc_call_id :: json
  gc_gateway_tool :: string
  gc_tool_name :: string
  gc_tool_input :: dict
  gc_mapped :: bool
  gc_mapping_source :: string
  gc_arguments_ok :: bool
  gc_raw_arguments :: "string option"

text \<open>The arguments, and whether they could be read.\<close>

definition parse_arguments :: "library \<Rightarrow> json \<Rightarrow> hook_exc + dict \<times> bool" where
  "parse_arguments lb raw =
     (case raw of
        JObj d \<Rightarrow> Inr (d, True)
      | JNull \<Rightarrow> Inr ([], True)
      | JStr s \<Rightarrow>
          if s = [] then Inr ([], True)
          else (case lb_loads lb s of
                  Inl e \<Rightarrow> if value_or_type_error e then Inr ([], False) else Inl e
                | Inr (JObj d) \<Rightarrow> Inr (d, True)
                | Inr _ \<Rightarrow> Inr ([], False))
      | _ \<Rightarrow> Inr ([], False))"

fun text_only :: "json \<Rightarrow> string option" where
  "text_only (JStr s) = Some s"
| "text_only _ = None"

definition gateway_tool_of :: "library \<Rightarrow> json \<Rightarrow> string" where
  "gateway_tool_of lb tool_call =
     (let name = attr (or_else (attr tool_call ''function'') (JObj [])) ''name'';
          text = py_str (lb_ucd lb) (or_else name (JStr []))
      in if text = [] then ''unknown'' else text)"

definition raw_arguments_of :: "json \<Rightarrow> json" where
  "raw_arguments_of tool_call = attr (or_else (attr tool_call ''function'') (JObj [])) ''arguments''"

definition normalize_tool_call :: "library \<Rightarrow> gateway_env \<Rightarrow> json \<Rightarrow> hook_exc + gateway_call" where
  "normalize_tool_call lb gv tool_call =
     (let tool = gateway_tool_of lb tool_call; raw = raw_arguments_of tool_call
      in bindE (parse_arguments lb raw) (\<lambda>(args, ok).
         bindE (map_tool lb gv tool args) (\<lambda>(mapped, source).
           let call = \<lparr>gc_call_id = or_else (attr tool_call ''id'') (JStr []), gc_gateway_tool = tool,
                 gc_tool_name = tool, gc_tool_input = args, gc_mapped = False, gc_mapping_source = ''unmapped'',
                 gc_arguments_ok = ok, gc_raw_arguments = text_only raw\<rparr>
           in Inr (case mapped of
                None \<Rightarrow> call
              | Some t \<Rightarrow> call\<lparr>gc_tool_name := t, gc_tool_input := project_input lb t args, gc_mapped := True,
                                gc_mapping_source := source\<rparr>))))"

text \<open>\<open>normalize_tool_calls\<close>: what \<open>list\<close> makes of a JSON value, and every element in order.\<close>

fun py_items :: "json \<Rightarrow> json list" where
  "py_items (JArr xs) = xs"
| "py_items (JStr s) = map JStr (chars_of s)"
| "py_items (JObj d) = map (JStr \<circ> fst) d"
| "py_items _ = []"

fun map_exc :: "('a \<Rightarrow> 'e + 'b) \<Rightarrow> 'a list \<Rightarrow> 'e + 'b list" where
  "map_exc f [] = Inr []"
| "map_exc f (x # xs) = bindE (f x) (\<lambda>y. bindE (map_exc f xs) (\<lambda>ys. Inr (y # ys)))"

definition normalize_tool_calls :: "library \<Rightarrow> gateway_env \<Rightarrow> json \<Rightarrow> hook_exc + gateway_call list" where
  "normalize_tool_calls lb gv tool_calls = map_exc (normalize_tool_call lb gv) (py_items tool_calls)"

section \<open>Nothing is made up\<close>

lemma first_text_in: "first_text lb args ks = Some v \<Longrightarrow> \<exists>k \<in> set ks. dget args k = JStr v"
  by (induction lb args ks rule: first_text.induct) (auto split: json.splits if_splits)

lemma dget_in_values: "dget d k = v \<Longrightarrow> v \<noteq> JNull \<Longrightarrow> v \<in> snd ` set d"
  by (auto simp: dget_def split: option.splits dest!: map_of_SomeD intro: rev_image_eqI)

lemma first_text_value: "first_text lb args ks = Some v \<Longrightarrow> JStr v \<in> snd ` set args"
  using first_text_in [of lb args ks v] dget_in_values by fastforce

lemma values_dput: "snd ` set (dput k v d) \<subseteq> insert v (snd ` set d)"
  by (induction k v d rule: dput.induct) auto

lemma values_put_first:
  assumes "snd ` set out \<subseteq> snd ` set args"
  shows "snd ` set (put_first lb key keys args out) \<subseteq> snd ` set args"
proof (cases "first_text lb args keys")
  case (Some v)
  then have "insert (JStr v) (snd ` set out) \<subseteq> snd ` set args" using assms first_text_value by simp
  with values_dput [of key "JStr v" out] have "snd ` set (dput key (JStr v) out) \<subseteq> snd ` set args" by (rule order_trans)
  then show ?thesis using Some by (simp add: put_first_def)
qed (use assms in \<open>simp add: put_first_def\<close>)

lemma values_project: "snd ` set (project_input lb t args) \<subseteq> snd ` set args"
  by (simp add: project_input_def values_put_first)

text \<open>The arguments the model gave, as far as they can be read.\<close>

definition given_arguments :: "library \<Rightarrow> json \<Rightarrow> dict" where
  "given_arguments lb tool_call =
     (case parse_arguments lb (raw_arguments_of tool_call) of Inr (args, _) \<Rightarrow> args | Inl _ \<Rightarrow> [])"

lemma normalized:
  assumes "normalize_tool_call lb gv tool_call = Inr c"
  obtains args mapped source where "given_arguments lb tool_call = args"
    "map_tool lb gv (gateway_tool_of lb tool_call) args = Inr (mapped, source)"
    "gc_gateway_tool c = gateway_tool_of lb tool_call"
    "mapped = None \<Longrightarrow> \<not> gc_mapped c \<and> gc_tool_name c = gateway_tool_of lb tool_call \<and> gc_tool_input c = args"
    "\<And>t. mapped = Some t \<Longrightarrow> gc_mapped c \<and> gc_tool_name c = t \<and> gc_tool_input c = project_input lb t args
       \<and> gc_mapping_source c = source"
proof -
  obtain args ok where a: "parse_arguments lb (raw_arguments_of tool_call) = Inr (args, ok)"
    using assms by (auto simp: normalize_tool_call_def Let_def py_simps)
  then obtain mapped source where m: "map_tool lb gv (gateway_tool_of lb tool_call) args = Inr (mapped, source)"
    using assms by (auto simp: normalize_tool_call_def Let_def py_simps)
  show thesis
    using assms a m
    by (intro that [of args mapped source]) (auto simp: normalize_tool_call_def given_arguments_def Let_def split: option.splits)
qed

definition draws_on :: "dict \<Rightarrow> dict \<Rightarrow> bool" where
  "draws_on args input \<longleftrightarrow> list_all (\<lambda>v. v \<in> snd ` set args) (map snd input)"

text \<open>What the classifier reads of a gateway's tool call is the model's own: every value of the arguments it is
  handed is a value the model gave, and the tool's own name is kept for the record.\<close>

theorem nothing_is_synthesized:
  "case normalize_tool_call lb gv tool_call of
     Inl _ \<Rightarrow> True
   | Inr c \<Rightarrow> draws_on (given_arguments lb tool_call) (gc_tool_input c)
       \<and> gc_gateway_tool c = gateway_tool_of lb tool_call"
proof (cases "normalize_tool_call lb gv tool_call")
  case (Inr c)
  from Inr show ?thesis
  proof (rule normalized)
    fix args mapped source
    assume a: "given_arguments lb tool_call = args" "gc_gateway_tool c = gateway_tool_of lb tool_call"
      and n: "mapped = None \<Longrightarrow> \<not> gc_mapped c \<and> gc_tool_name c = gateway_tool_of lb tool_call \<and> gc_tool_input c = args"
      and s: "\<And>t. mapped = Some t \<Longrightarrow> gc_mapped c \<and> gc_tool_name c = t \<and> gc_tool_input c = project_input lb t args
        \<and> gc_mapping_source c = source"
    have "snd ` set (gc_tool_input c) \<subseteq> snd ` set args"
      using n s values_project by (cases mapped) auto
    then show ?thesis using a Inr by (auto simp: draws_on_def list_all_iff)
  qed
qed simp

section \<open>What an unmapped call costs\<close>

definition classifier_names :: "string list" where
  "classifier_names = [''bash'', ''write'', ''edit'', ''multiedit'', ''notebookedit'', ''read'', ''glob'', ''grep'', ''ls'',
     ''webfetch'', ''websearch''] @ session_local_read_tools"

lemma classify_known_None: "name \<notin> set classifier_names \<Longrightarrow> classify_known lb env exists name d = None"
  by (simp add: classify_known_def classifier_names_def)

definition seat_classify :: "library \<Rightarrow> gateway_env \<Rightarrow> (string \<Rightarrow> bool) \<Rightarrow> gateway_call \<Rightarrow> hook_exc + classification" where
  "seat_classify lb gv exists c = classify lb (gv_hook gv) exists (JStr (gc_tool_name c)) (JObj (gc_tool_input c))"

lemma unknown_name_classified:
  "lower lb name \<notin> set classifier_names \<Longrightarrow> classify lb env exists (JStr name) (JObj d) = classify_unknown lb name (JObj d)"
  by (simp add: classify_def classify_named_def classify_known_None)

text \<open>A call of a tool that has no mapping is priced as the classifier prices a tool it has never heard of, with
  its irreversible, broad, outbound floor, unless the gateway's tool happens to have the name of one of the
  classifier's own tools.\<close>

theorem unmapped_call_asks:
  "case normalize_tool_call lb gv tool_call of
     Inl _ \<Rightarrow> True
   | Inr c \<Rightarrow> gc_mapped c \<or> lower lb (gc_gateway_tool c) \<in> set classifier_names
       \<or> seat_classify lb gv exists c = classify_unknown lb (gc_gateway_tool c) (JObj (gc_tool_input c))"
proof (cases "normalize_tool_call lb gv tool_call")
  case (Inr c)
  from Inr show ?thesis
  proof (rule normalized)
    fix args mapped source
    assume "gc_gateway_tool c = gateway_tool_of lb tool_call"
      and "mapped = None \<Longrightarrow> \<not> gc_mapped c \<and> gc_tool_name c = gateway_tool_of lb tool_call \<and> gc_tool_input c = args"
      and "\<And>t. mapped = Some t \<Longrightarrow> gc_mapped c \<and> gc_tool_name c = t \<and> gc_tool_input c = project_input lb t args
        \<and> gc_mapping_source c = source"
    then show ?thesis
      using Inr unknown_name_classified [of lb "gateway_tool_of lb tool_call" "gv_hook gv" exists "gc_tool_input c"]
      by (cases mapped) (auto simp: seat_classify_def)
  qed
qed simp

text \<open>The names are matched anywhere in a tool's name, so that a tool that erases spreadsheets, or deletes threads, is
  read as one that reads a file.\<close>

lemma spreadsheets_are_read:
  "tool_by_shape sample_library ''spreadsheet_erase'' [(''file'', JStr ''q3.xlsx'')] = Some ''Read''"
  "tool_by_shape sample_library ''thread_delete'' [(''query'', JStr ''all'')] = Some ''Read''"
  by code_simp+

end
