(* ===== verification/GatewayTenants.thy ===== *)
theory GatewayTenants
  imports GatewayCalls
begin

text \<open>
  Whose action a gateway's tool call is (\<open>reeflex-litellm/reeflex_litellm/tenancy.py\<close>): the identity the proxy
  authenticated, the operator's map from identities to organisations, and the answer for one request. Every
  \<open>raise\<close> of the map's validation is a constructor of \<open>map_error\<close>; its text is the argument \<open>say\<close>.
\<close>

section \<open>The caller\<close>

record gateway_identity =
  gi_key_hash :: "string option"
  gi_key_alias :: "string option"
  gi_team_id :: "string option"
  gi_team_alias :: "string option"
  gi_org_id :: "string option"
  gi_org_alias :: "string option"
  gi_user_id :: "string option"
  gi_end_user_id :: "string option"
  gi_via_virtual_key :: bool
  gi_withheld :: bool

definition master_key_alias :: string where
  "master_key_alias = ''litellm_proxy_master_key''"

definition hex_char :: "char \<Rightarrow> bool" where
  "hex_char c \<longleftrightarrow> is_digit_char c \<or> CHR ''a'' \<le> c \<and> c \<le> CHR ''f''"

text \<open>\<open>^[0-9a-f]{64}$\<close> on a stripped text.\<close>

definition sha256_hex :: "string \<Rightarrow> bool" where
  "sha256_hex v \<longleftrightarrow> length v = 64 \<and> list_all hex_char v"

text \<open>The key's identifier, and whether something was there and is withheld.\<close>

definition safe_key_hash :: "library \<Rightarrow> json \<Rightarrow> bool \<Rightarrow> string option \<times> bool" where
  "safe_key_hash lb api_key via =
     (case api_key of
        JStr s \<Rightarrow>
          if strip lb s = [] then (None, False)
          else if \<not> via then (None, True)
          else if strip lb s = master_key_alias \<or> sha256_hex (strip lb s) then (Some (strip lb s), False)
          else (None, True)
      | _ \<Rightarrow> (None, False))"

text \<open>\<open>_s\<close>.\<close>

definition stripped_text :: "library \<Rightarrow> json \<Rightarrow> string option" where
  "stripped_text lb v =
     (case v of JStr s \<Rightarrow> if strip lb s = [] then None else Some (strip lb s) | _ \<Rightarrow> None)"

definition read_identity :: "library \<Rightarrow> json \<Rightarrow> gateway_identity" where
  "read_identity lb auth =
     (let via = py_truth (attr auth ''via_virtual_key'');
          first = safe_key_hash lb (attr auth ''api_key'') via;
          (hash, withheld) = (if fst first = None \<and> \<not> snd first then safe_key_hash lb (attr auth ''token'') via
                              else first);
          s = (\<lambda>k. stripped_text lb (attr auth k))
      in \<lparr>gi_key_hash = hash, gi_key_alias = s ''key_alias'', gi_team_id = s ''team_id'', gi_team_alias = s ''team_alias'',
          gi_org_id = s ''org_id'', gi_org_alias = s ''organization_alias'', gi_user_id = s ''user_id'',
          gi_end_user_id = s ''end_user_id'', gi_via_virtual_key = via, gi_withheld = withheld\<rparr>)"

text \<open>The same over the guardrail protocol, where the proxy's own marker is not sent.\<close>

definition read_identity_from_gateway_metadata :: "library \<Rightarrow> json \<Rightarrow> gateway_identity" where
  "read_identity_from_gateway_metadata lb request_data =
     (let s = (\<lambda>k. stripped_text lb (attr request_data (''user_api_key_'' @ k)));
          (hash, withheld) = safe_key_hash lb (jopt (s ''hash'')) True
      in \<lparr>gi_key_hash = hash, gi_key_alias = s ''alias'', gi_team_id = s ''team_id'', gi_team_alias = s ''team_alias'',
          gi_org_id = s ''org_id'', gi_org_alias = None, gi_user_id = s ''user_id'', gi_end_user_id = s ''end_user_id'',
          gi_via_virtual_key = False, gi_withheld = withheld\<rparr>)"

definition described :: "string \<Rightarrow> string option \<Rightarrow> string list" where
  "described label v = (case v of None \<Rightarrow> [] | Some s \<Rightarrow> if s = [] then [] else [label @ ''='' @ s])"

definition describe :: "gateway_identity \<Rightarrow> string" where
  "describe i =
     (let bits = described ''key_alias'' (gi_key_alias i)
            @ described ''key'' (map_option (\<lambda>h. take_chars 12 h @ ''...'') (gi_key_hash i))
            @ described ''team_id'' (gi_team_id i) @ described ''team'' (gi_team_alias i)
            @ described ''user_id'' (gi_user_id i)
            @ (if gi_withheld i then [''key=<withheld: not a proxy-issued virtual key>''] else [])
      in if bits = [] then ''no key, team or user identity'' else join_with '', '' bits)"

definition as_record :: "gateway_identity \<Rightarrow> dict" where
  "as_record i =
     [(''key_alias'', jopt (gi_key_alias i)), (''key_hash_prefix'', jopt (map_option (take_chars 12) (gi_key_hash i))),
      (''team_id'', jopt (gi_team_id i)), (''team_alias'', jopt (gi_team_alias i)),
      (''litellm_org_id'', jopt (gi_org_id i)), (''user_id'', jopt (gi_user_id i)),
      (''end_user_id'', jopt (gi_end_user_id i)), (''via_virtual_key'', JBool (gi_via_virtual_key i))]
     @ (if gi_withheld i then [(''key_material_withheld'', JBool True)] else [])"

section \<open>The map\<close>

record tenant =
  tn_org :: "string option"
  tn_label :: json
  tn_principal :: json
  tn_environment :: "string option"
  tn_on_prem_hosts :: "string list"
  tn_cloud_hosts :: "string list"
  tn_evidence :: dict
  tn_matched_on :: "string option"
  tn_matched_value :: "string option"

definition unscoped :: tenant where
  "unscoped = \<lparr>tn_org = None, tn_label = JStr ''unscoped'', tn_principal = JNull, tn_environment = None,
     tn_on_prem_hosts = [], tn_cloud_hosts = [], tn_evidence = [], tn_matched_on = Some ''unscoped'',
     tn_matched_value = None\<rparr>"

definition bound_to :: "string \<Rightarrow> string \<Rightarrow> tenant \<Rightarrow> tenant" where
  "bound_to on v t = t\<lparr>tn_matched_on := Some on, tn_matched_value := Some v\<rparr>"

datatype map_error =
    MapNotAnObject | NoTenants | BadTenantName | TenantNotAnObject string | EmptyOrg string
  | BadEnvironment string | BadEvidence string | InlineSecret string string | BadHosts string string
  | NoBind | UnknownDimension | BadTable string | CatchAll string | UnknownTenant string
  | BindsNothing | MapUnreadable | MapNotJson | MapNotSet | MapOther hook_exc

record tenancy_map =
  tm_tenants :: "(string \<times> tenant) list"
  tm_bind :: "(string \<times> (string \<times> string) list) list"
  tm_source :: string

definition environments :: "string list" where
  "environments = [''production'', ''staging'', ''dev'']"

definition inline_secrets :: "string list" where
  "inline_secrets = [''gate_token'', ''signing_key'', ''evidence_key'', ''token'']"

fun str_items :: "json list \<Rightarrow> string list option" where
  "str_items [] = Some []"
| "str_items (JStr s # xs) = map_option ((#) s) (str_items xs)"
| "str_items (_ # xs) = None"

text \<open>\<open>_host_list\<close>.\<close>

definition host_list :: "library \<Rightarrow> string \<Rightarrow> string \<Rightarrow> dict \<Rightarrow> map_error + string list" where
  "host_list lb name field spec =
     (case dget spec field of
        JNull \<Rightarrow> Inr []
      | JArr xs \<Rightarrow> (case str_items xs of
            None \<Rightarrow> Inl (BadHosts name field)
          | Some hs \<Rightarrow> Inr (map (\<lambda>h. lower lb (strip lb h)) (filter (\<lambda>h. strip lb h \<noteq> []) hs)))
      | _ \<Rightarrow> Inl (BadHosts name field))"

definition reject_inline_secrets :: "string \<Rightarrow> dict \<Rightarrow> map_error + unit" where
  "reject_inline_secrets name evidence =
     (case filter (\<lambda>bad. map_of evidence bad \<noteq> None) inline_secrets of
        [] \<Rightarrow> Inr () | bad # _ \<Rightarrow> Inl (InlineSecret name bad))"

definition parse_tenant :: "library \<Rightarrow> string \<Rightarrow> json \<Rightarrow> map_error + tenant" where
  "parse_tenant lb name value =
     (if strip lb name = [] then Inl BadTenantName
      else case value of
        JObj spec \<Rightarrow>
          (case or_else (dget spec ''org'') (JStr name) of
             JStr org \<Rightarrow>
               if strip lb org = [] then Inl (EmptyOrg name)
               else if dget spec ''environment'' \<notin> set (JNull # map JStr environments) then Inl (BadEnvironment name)
               else if \<not> (dget spec ''evidence'' = JNull \<or> is_obj (dget spec ''evidence'')) then Inl (BadEvidence name)
               else
                 let evidence = as_obj (dget spec ''evidence'')
                 in bindE (reject_inline_secrets name evidence) (\<lambda>_.
                    bindE (host_list lb name ''on_prem_hosts'' spec) (\<lambda>on_prem.
                    bindE (host_list lb name ''cloud_hosts'' spec) (\<lambda>cloud.
                      Inr \<lparr>tn_org = Some (strip lb org),
                           tn_label = or_else (dget spec ''label'') (JStr (strip lb org)),
                           tn_principal = dget spec ''principal'',
                           tn_environment = text_only (dget spec ''environment''),
                           tn_on_prem_hosts = on_prem, tn_cloud_hosts = cloud, tn_evidence = evidence,
                           tn_matched_on = None, tn_matched_value = None\<rparr>)))
           | _ \<Rightarrow> Inl (EmptyOrg name))
      | _ \<Rightarrow> Inl (TenantNotAnObject name))"

fun parse_tenants :: "library \<Rightarrow> (string \<times> tenant) list \<Rightarrow> dict \<Rightarrow> map_error + (string \<times> tenant) list" where
  "parse_tenants lb tenants [] = Inr tenants"
| "parse_tenants lb tenants ((name, spec) # rest) =
     bindE (parse_tenant lb name spec) (\<lambda>t. parse_tenants lb (dput (strip lb name) t tenants) rest)"

definition bind_dimensions :: "string list" where
  "bind_dimensions = [''key_hash'', ''key_alias'', ''team_id'']"

definition forbidden_bind_keys :: "string list" where
  "forbidden_bind_keys = [''*'', ''default'', ''fallback'', ''any'', []]"

text \<open>One table of \<open>bind\<close>. A tenant that is a list or a dict cannot be looked up.\<close>

fun parse_table ::
  "library \<Rightarrow> (string \<times> tenant) list \<Rightarrow> string \<Rightarrow> (string \<times> string) list \<Rightarrow> dict
     \<Rightarrow> map_error + (string \<times> string) list" where
  "parse_table lb tenants dn acc [] = Inr acc"
| "parse_table lb tenants dn acc ((k, v) # rest) =
     (if lower lb (strip lb k) \<in> set forbidden_bind_keys then Inl (CatchAll dn)
      else case v of
        JStr t \<Rightarrow> if map_of tenants t = None then Inl (UnknownTenant dn)
                  else parse_table lb tenants dn (dput (strip lb k) t acc) rest
      | JArr _ \<Rightarrow> Inl (MapOther HTypeError)
      | JObj _ \<Rightarrow> Inl (MapOther HTypeError)
      | _ \<Rightarrow> Inl (UnknownTenant dn))"

fun parse_bind ::
  "library \<Rightarrow> (string \<times> tenant) list \<Rightarrow> dict \<Rightarrow> string list
     \<Rightarrow> map_error + (string \<times> (string \<times> string) list) list" where
  "parse_bind lb tenants bind_raw [] = Inr []"
| "parse_bind lb tenants bind_raw (dn # dns) =
     (case or_else (dget bind_raw dn) (JObj []) of
        JObj table \<Rightarrow>
          bindE (parse_table lb tenants dn [] table) (\<lambda>t.
          bindE (parse_bind lb tenants bind_raw dns) (\<lambda>ts. Inr ((dn, t) # ts)))
      | _ \<Rightarrow> Inl (BadTable dn))"

definition parse_map :: "library \<Rightarrow> json \<Rightarrow> string \<Rightarrow> map_error + tenancy_map" where
  "parse_map lb raw source =
     (case raw of
        JObj d \<Rightarrow>
          (case dget d ''tenants'' of
             JObj tenants_raw \<Rightarrow>
               if tenants_raw = [] then Inl NoTenants
               else bindE (parse_tenants lb [] tenants_raw) (\<lambda>tenants.
                 case dget d ''bind'' of
                   JObj bind_raw \<Rightarrow>
                     if bind_raw = [] then Inl NoBind
                     else if \<not> list_all (\<lambda>(k, _). k \<in> set bind_dimensions) bind_raw then Inl UnknownDimension
                     else bindE (parse_bind lb tenants bind_raw bind_dimensions) (\<lambda>tables.
                       if list_all (\<lambda>(_, t). t = []) tables then Inl BindsNothing
                       else Inr \<lparr>tm_tenants = tenants, tm_bind = tables, tm_source = source\<rparr>)
                 | _ \<Rightarrow> Inl NoBind)
           | _ \<Rightarrow> Inl NoTenants)
      | _ \<Rightarrow> Inl MapNotAnObject)"

section \<open>Resolving a caller\<close>

definition unmapped_reason :: "gateway_identity \<Rightarrow> string \<Rightarrow> string" where
  "unmapped_reason i source =
     ''Reeflex: this gateway caller is not mapped to a Reeflex org, so the tool call was not ruled on and is refused. The proxy authenticated [''
     @ describe i @ '']. Bind it in the tenancy map ('' @ source
     @ '') under key_hash, key_alias or team_id. There is deliberately no default org: filing one department''
     @ [CHR 0x27] @ ''s actions under another department'' @ [CHR 0x27] @ ''s evidence would be worse than this refusal.''"

definition map_file_env :: string where "map_file_env = ''REEFLEX_LITELLM_TENANCY_MAP_FILE''"
definition map_inline_env :: string where "map_inline_env = ''REEFLEX_LITELLM_TENANCY_MAP''"

definition no_map_reason :: "string \<Rightarrow> string" where
  "no_map_reason detail =
     ''Reeflex: the gateway has no usable tenancy map, so no tool call can be attributed to a Reeflex org and all are refused: ''
     @ detail @ ''. Set '' @ map_file_env @ '' (a path to the JSON map) or '' @ map_inline_env @ '' (the map inline).''"

record tenant_resolution =
  rs_tenant :: "tenant option"
  rs_identity :: gateway_identity
  rs_reason :: "string option"

text \<open>The dimensions of an identity in the order they are tried.\<close>

definition dimensions :: "gateway_identity \<Rightarrow> (string \<times> string option) list" where
  "dimensions i = [(''key_hash'', gi_key_hash i), (''key_alias'', gi_key_alias i), (''team_id'', gi_team_id i)]"

definition bound_tenant :: "tenancy_map \<Rightarrow> string \<Rightarrow> string \<Rightarrow> tenant option" where
  "bound_tenant m dn v =
     (case map_of (tm_bind m) dn of
        None \<Rightarrow> None
      | Some table \<Rightarrow> (case map_of table v of
          None \<Rightarrow> None
        | Some org \<Rightarrow> if org = [] then None else map_option (bound_to dn v) (map_of (tm_tenants m) org)))"

fun first_bound :: "tenancy_map \<Rightarrow> (string \<times> string option) list \<Rightarrow> tenant option" where
  "first_bound m [] = None"
| "first_bound m ((dn, None) # ds) = first_bound m ds"
| "first_bound m ((dn, Some v) # ds) =
     (if v = [] then first_bound m ds
      else case bound_tenant m dn v of Some t \<Rightarrow> Some t | None \<Rightarrow> first_bound m ds)"

definition resolve_in :: "tenancy_map \<Rightarrow> gateway_identity \<Rightarrow> tenant_resolution" where
  "resolve_in m i =
     (case first_bound m (dimensions i) of
        Some t \<Rightarrow> \<lparr>rs_tenant = Some t, rs_identity = i, rs_reason = None\<rparr>
      | None \<Rightarrow> \<lparr>rs_tenant = None, rs_identity = i, rs_reason = Some (unmapped_reason i (tm_source m))\<rparr>)"

text \<open>Reading the map: the file if one is named, else the inline text.\<close>

definition loaded_json :: "library \<Rightarrow> string \<Rightarrow> map_error + json" where
  "loaded_json lb text =
     (case lb_loads lb text of
        Inr j \<Rightarrow> Inr j
      | Inl e \<Rightarrow> Inl (if value_or_type_error e \<and> e \<noteq> HTypeError then MapNotJson else MapOther e))"

definition load_uncached :: "library \<Rightarrow> gateway_env \<Rightarrow> map_error + tenancy_map" where
  "load_uncached lb gv =
     (let path = strip lb (env_or (gv_map_file gv) []); inline = strip lb (env_or (gv_map_inline gv) [])
      in if path \<noteq> []
         then (case gv_file gv path of
                 FileMissing \<Rightarrow> Inl MapUnreadable
               | FileUndecodable \<Rightarrow> Inl MapNotJson
               | FileText t \<Rightarrow> bindE (loaded_json lb t) (\<lambda>raw. parse_map lb raw (map_file_env @ ''='' @ path)))
         else if inline \<noteq> [] then bindE (loaded_json lb inline) (\<lambda>raw. parse_map lb raw map_inline_env)
         else Inl MapNotSet)"

text \<open>The cache is keyed on the path, the time and size of the file, and the inline text.\<close>

type_synonym map_key = "string \<times> (int \<times> int) option \<times> string"
type_synonym map_cache = "(map_key \<times> tenancy_map) option"

definition cache_key :: "library \<Rightarrow> gateway_env \<Rightarrow> (string \<Rightarrow> (int \<times> int) option) \<Rightarrow> map_key" where
  "cache_key lb gv stat =
     (let path = strip lb (env_or (gv_map_file gv) [])
      in (path, if path = [] then None else stat path, env_or (gv_map_inline gv) []))"

definition load_map ::
  "library \<Rightarrow> gateway_env \<Rightarrow> (string \<Rightarrow> (int \<times> int) option) \<Rightarrow> map_cache \<Rightarrow> map_cache \<times> (map_error + tenancy_map)" where
  "load_map lb gv stat cache =
     (let key = cache_key lb gv stat
      in if map_option fst cache = Some key then (cache, Inr (snd (the cache)))
         else case load_uncached lb gv of
                Inl e \<Rightarrow> (cache, Inl e)
              | Inr m \<Rightarrow> (Some (key, m), Inr m))"

definition resolve_identity ::
  "library \<Rightarrow> gateway_env \<Rightarrow> (map_error \<Rightarrow> string) \<Rightarrow> (string \<Rightarrow> (int \<times> int) option) \<Rightarrow> map_cache \<Rightarrow> gateway_identity
     \<Rightarrow> map_cache \<times> tenant_resolution" where
  "resolve_identity lb gv say stat cache i =
     (case load_map lb gv stat cache of
        (c, Inl e) \<Rightarrow> (c, \<lparr>rs_tenant = None, rs_identity = i, rs_reason = Some (no_map_reason (say e))\<rparr>)
      | (c, Inr m) \<Rightarrow> (c, resolve_in m i))"

definition resolve ::
  "library \<Rightarrow> gateway_env \<Rightarrow> (map_error \<Rightarrow> string) \<Rightarrow> (string \<Rightarrow> (int \<times> int) option) \<Rightarrow> map_cache \<Rightarrow> json
     \<Rightarrow> map_cache \<times> tenant_resolution" where
  "resolve lb gv say stat cache auth = resolve_identity lb gv say stat cache (read_identity lb auth)"

definition session_scope :: "tenant \<Rightarrow> string" where
  "session_scope t = (case tn_org t of None \<Rightarrow> ''unscoped'' | Some org \<Rightarrow> if org = [] then ''unscoped'' else org)"

section \<open>No key material, no default organisation\<close>

lemma safe_key_hash_Some:
  "fst (safe_key_hash lb k via) = Some h \<Longrightarrow> via \<and> (h = master_key_alias \<or> sha256_hex h)"
  by (auto simp: safe_key_hash_def split: json.splits if_splits)

text \<open>What is recorded of a key is the proxy's stand-in for its own or a digest, never the key.\<close>

lemma no_key_material:
  "gi_key_hash (read_identity lb auth) = Some h \<Longrightarrow> h = master_key_alias \<or> sha256_hex h"
  "gi_key_hash (read_identity_from_gateway_metadata lb auth) = Some h \<Longrightarrow> h = master_key_alias \<or> sha256_hex h"
  by (auto simp: read_identity_def read_identity_from_gateway_metadata_def Let_def split: prod.splits if_splits
      dest!: safe_key_hash_Some arg_cong [of _ _ fst])

lemma parse_table_bound:
  "parse_table lb tenants dn acc table = Inr out \<Longrightarrow> map_of out v = Some t \<Longrightarrow>
     map_of acc v = Some t
     \<or> (\<exists>k. (k, JStr t) \<in> set table \<and> strip lb k = v \<and> lower lb v \<notin> set forbidden_bind_keys)"
proof (induction lb tenants dn acc table rule: parse_table.induct)
  case (2 lb tenants dn acc k v' rest)
  from 2(2) obtain t' where f: "lower lb (strip lb k) \<notin> set forbidden_bind_keys" and v': "v' = JStr t'"
    and n: "map_of tenants t' \<noteq> None"
    and r: "parse_table lb tenants dn (dput (strip lb k) t' acc) rest = Inr out"
    by (auto split: json.splits if_splits)
  from 2(1) [OF f v' n r 2(3)] show ?case using f v' by (auto split: if_splits)
qed simp

lemma parse_table_keys: "parse_table lb tenants dn [] table = Inr out \<Longrightarrow> map_of out v = Some t \<Longrightarrow>
    \<exists>k. (k, JStr t) \<in> set table \<and> strip lb k = v \<and> lower lb v \<notin> set forbidden_bind_keys"
  using parse_table_bound by fastforce

lemma parse_bind_tables:
  "parse_bind lb tenants bind_raw dns = Inr tables \<Longrightarrow> map_of tables dn = Some table \<Longrightarrow>
     parse_table lb tenants dn [] (as_obj (dget bind_raw dn)) = Inr table"
proof (induction lb tenants bind_raw dns arbitrary: tables rule: parse_bind.induct)
  case (2 lb tenants bind_raw d dns)
  then obtain raw t ts where r: "or_else (dget bind_raw d) (JObj []) = JObj raw" "parse_table lb tenants d [] raw = Inr t"
    "parse_bind lb tenants bind_raw dns = Inr ts" "tables = (d, t) # ts"
    by (auto simp: py_simps split: json.splits)
  have "raw = as_obj (dget bind_raw d)"
    using r(1) by (cases "dget bind_raw d") (auto simp: or_else_def split: if_splits)
  with 2 r show ?case by (auto split: if_splits)
qed simp

lemma parse_tenant_org: "parse_tenant lb name spec = Inr t \<Longrightarrow> tn_org t \<noteq> None \<and> tn_org t \<noteq> Some []"
  by (auto simp: parse_tenant_def Let_def py_simps split: json.splits if_splits)

lemma parse_tenants_orgs:
  "parse_tenants lb tenants raw = Inr out \<Longrightarrow> \<forall>t \<in> ran (map_of tenants). tn_org t \<noteq> None \<and> tn_org t \<noteq> Some [] \<Longrightarrow>
     \<forall>t \<in> ran (map_of out). tn_org t \<noteq> None \<and> tn_org t \<noteq> Some []"
proof (induction lb tenants raw rule: parse_tenants.induct)
  case (2 lb tenants name spec rest)
  then obtain t where t: "parse_tenant lb name spec = Inr t"
    "parse_tenants lb (dput (strip lb name) t tenants) rest = Inr out"
    by (auto simp: py_simps)
  have "\<forall>x \<in> ran (map_of (dput (strip lb name) t tenants)). tn_org x \<noteq> None \<and> tn_org x \<noteq> Some []"
    using parse_tenant_org [OF t(1)] 2(3) by (auto simp: ran_def split: if_splits)
  then show ?case by (rule 2(1) [OF t(2)])
qed simp

lemma first_bound_Some:
  "first_bound m ds = Some t \<Longrightarrow> \<exists>dn v. (dn, Some v) \<in> set ds \<and> bound_tenant m dn v = Some t"
  by (induction m ds rule: first_bound.induct) (auto split: if_splits option.splits)

definition named_by :: "library \<Rightarrow> json \<Rightarrow> gateway_identity \<Rightarrow> tenant \<Rightarrow> bool" where
  "named_by lb raw i t \<longleftrightarrow> (\<exists>dn v k name. (dn, Some v) \<in> set (dimensions i)
     \<and> tn_matched_on t = Some dn \<and> tn_matched_value t = Some v \<and> tn_org t \<noteq> None \<and> tn_org t \<noteq> Some []
     \<and> (k, JStr name) \<in> set (as_obj (dget (as_obj (dget (as_obj raw) ''bind'')) dn))
     \<and> strip lb k = v \<and> lower lb v \<notin> set forbidden_bind_keys)"

lemma parse_map_parts:
  assumes "parse_map lb raw source = Inr m"
  obtains d tenants_raw tenants bind_raw tables where "raw = JObj d" "parse_tenants lb [] tenants_raw = Inr tenants"
    "dget d ''bind'' = JObj bind_raw" "parse_bind lb tenants bind_raw bind_dimensions = Inr tables"
    "m = \<lparr>tm_tenants = tenants, tm_bind = tables, tm_source = source\<rparr>"
proof -
  obtain d where d: "raw = JObj d" using assms by (auto simp: parse_map_def split: json.splits)
  obtain traw where t: "dget d ''tenants'' = JObj traw"
    using assms by (auto simp: parse_map_def d split: json.splits)
  obtain tenants where ts: "parse_tenants lb [] traw = Inr tenants"
    using assms by (auto simp: parse_map_def d t py_simps split: if_splits)
  obtain braw where b: "dget d ''bind'' = JObj braw"
    using assms by (cases "dget d ''bind''") (auto simp: parse_map_def d t ts split: if_splits)
  show thesis
    using assms that [OF d ts b] by (auto simp: parse_map_def d t ts b py_simps split: if_splits)
qed

lemma resolved_is_named:
  assumes "parse_map lb raw source = Inr m" "rs_tenant (resolve_in m i) = Some t"
  shows "named_by lb raw i t"
proof -
  from assms(1) obtain d tenants_raw tenants bind_raw tables where p: "raw = JObj d"
    "parse_tenants lb [] tenants_raw = Inr tenants" "dget d ''bind'' = JObj bind_raw"
    "parse_bind lb tenants bind_raw bind_dimensions = Inr tables"
    "m = \<lparr>tm_tenants = tenants, tm_bind = tables, tm_source = source\<rparr>"
    by (rule parse_map_parts)
  have "first_bound m (dimensions i) = Some t" using assms(2) by (auto simp: resolve_in_def split: option.splits)
  then obtain dn v where v: "(dn, Some v) \<in> set (dimensions i)" "bound_tenant m dn v = Some t"
    using first_bound_Some by blast
  then obtain table name t0 where b: "map_of tables dn = Some table" "map_of table v = Some name"
    "map_of tenants name = Some t0" "t = bound_to dn v t0"
    by (auto simp: bound_tenant_def p(5) split: option.splits if_splits)
  have o: "tn_org t0 \<noteq> None \<and> tn_org t0 \<noteq> Some []"
    using parse_tenants_orgs [OF p(2)] b(3) by (auto simp: ran_def)
  obtain k where "(k, JStr name) \<in> set (as_obj (dget bind_raw dn))" "strip lb k = v"
      "lower lb v \<notin> set forbidden_bind_keys"
    using parse_table_keys [OF parse_bind_tables [OF p(4) b(1)] b(2)] by blast
  then show ?thesis
    unfolding named_by_def using v(1) o b(4) p(1,3)
    by (intro exI [of _ dn] exI [of _ v] exI [of _ k] exI [of _ name]) (simp add: bound_to_def)
qed

definition from_a_map :: "library \<Rightarrow> tenancy_map \<Rightarrow> bool" where
  "from_a_map lb m \<longleftrightarrow> (\<exists>raw source. parse_map lb raw source = Inr m)"

definition cache_parsed :: "library \<Rightarrow> map_cache \<Rightarrow> bool" where
  "cache_parsed lb cache \<longleftrightarrow> (case cache of None \<Rightarrow> True | Some (_, m) \<Rightarrow> from_a_map lb m)"

lemma load_uncached_parsed: "load_uncached lb gv = Inr m \<Longrightarrow> from_a_map lb m"
  unfolding from_a_map_def by (auto simp: load_uncached_def Let_def py_simps split: if_splits file_read.splits)

lemma load_map_parsed:
  assumes "cache_parsed lb cache" "load_map lb gv stat cache = (c, r)"
  shows "cache_parsed lb c" "r = Inr m \<Longrightarrow> from_a_map lb m"
proof -
  show "cache_parsed lb c"
    using assms load_uncached_parsed [of lb gv]
    by (cases "load_uncached lb gv") (auto simp: load_map_def cache_parsed_def Let_def split: if_splits)
  show "from_a_map lb m" if "r = Inr m"
  proof (cases "map_option fst cache = Some (cache_key lb gv stat)")
    case True
    then show ?thesis using assms that by (auto simp: load_map_def cache_parsed_def)
  next
    case False
    then have "r = load_uncached lb gv" using assms(2) by (simp only: load_map_def Let_def if_False split: sum.splits) auto
    then show ?thesis using that load_uncached_parsed by simp
  qed
qed


definition sample_tenancy :: json where
  "sample_tenancy = JObj
     [(''tenants'', JObj [(''pay'', JObj [(''org'', JStr ''acme-pay'')]), (''ads'', JObj [(''environment'', JStr ''dev'')])]),
      (''bind'', JObj [(''key_alias'', JObj [(''k1'', JStr ''pay'')]), (''team_id'', JObj [(''t1'', JStr ''ads'')])])]"

definition sample_gateway_library :: library where
  "sample_gateway_library = sample_library\<lparr>lb_loads :=
     (\<lambda>s. if s = ''{}'' then Inr sample_tenancy else lb_loads sample_library s)\<rparr>"

definition sample_gateway_env :: gateway_env where
  "sample_gateway_env = \<lparr>gv_hook = sample_hook_env, gv_tool_map = None, gv_map_file = None, gv_map_inline = Some ''{}'',
     gv_principal = None, gv_environment = None, gv_hold_wait = None, gv_hold_poll = None, gv_timeout = None,
     gv_approver = None, gv_push = None, gv_holds_push = None, gv_var = (\<lambda>_. None), gv_file = (\<lambda>_. FileMissing)\<rparr>"

definition sample_auth :: json where
  "sample_auth = JObj [(''key_alias'', JStr ''k1''), (''team_id'', JStr ''t1'')]"


end
