(* ===== verification/GatewayCore.thy ===== *)
theory GatewayCore
  imports GatewayTenants
begin

text \<open>
  The gateway's conversation with the engine (\<open>reeflex-litellm/reeflex_litellm/core.py\<close>): the request, the reading
  of a decision, the reading of a hold, and the loop that waits for one to be decided. The replies and the clock
  are arguments; waiting is given as many turns as its first argument says, and \<open>None\<close> means that it is still
  waiting then.
\<close>

section \<open>Requests\<close>

record gateway_verdict =
  gk_kind :: string
  gk_decision :: json
  gk_reason :: string
  gk_rule :: json
  gk_reachable :: bool
  gk_hold_id :: json
  gk_expires_ts :: json
  gk_obligations :: "json list"
  gk_http_status :: "int option"
  gk_decision_id :: json

record gateway_request =
  gr_url :: string
  gr_method :: string
  gr_body :: "dict option"
  gr_headers :: "(string \<times> string) list"
  gr_timeout :: pyfloat
  gr_insecure :: bool

fun below_zero :: "pyfloat \<Rightarrow> bool" where
  "below_zero (Fin x) = (x < 0)"
| "below_zero NegInf = True"
| "below_zero _ = False"

definition gateway_float_env :: "library \<Rightarrow> string option \<Rightarrow> pyfloat \<Rightarrow> bool \<Rightarrow> pyfloat" where
  "gateway_float_env lb v dflt allow_zero =
     (case lb_float lb (env_or v []) of
        None \<Rightarrow> dflt
      | Some x \<Rightarrow> if below_zero x then dflt else if x = Fin 0 \<and> \<not> allow_zero then dflt else x)"

definition gateway_request_for ::
  "library \<Rightarrow> gateway_env \<Rightarrow> string \<Rightarrow> string \<Rightarrow> dict option \<Rightarrow> gateway_request" where
  "gateway_request_for lb gv method path body =
     (let env = gv_hook gv; url = core_url_of env @ path; token = strip lb (env_or (he_core_token env) [])
      in \<lparr>gr_url = url, gr_method = method, gr_body = body, gr_headers = request_headers [] token,
          gr_timeout = gateway_float_env lb (gv_timeout gv) (Fin 5) False, gr_insecure = insecure_context lb env url\<rparr>)"

lemma gateway_request_body [simp]: "gr_body (gateway_request_for lb gv m p b) = b"
  by (simp add: gateway_request_for_def Let_def)

text \<open>\<open>_request\<close>: a status and a decoded body, or an error text. A URL that cannot be parsed raises before.\<close>

definition read_http :: "library \<Rightarrow> core_reply \<Rightarrow> string + int \<times> json" where
  "read_http lb reply =
     (case reply of
        HttpError status reason body \<Rightarrow>
          (let failed = Inl (''core HTTP '' @ str_int status @ '': '' @ truncated max_error_len reason)
           in case body of
                None \<Rightarrow> failed
              | Some raw \<Rightarrow> (case lb_loads lb raw of Inr parsed \<Rightarrow> Inr (status, parsed) | Inl _ \<Rightarrow> failed))
      | NetError text \<Rightarrow> Inl (''core unreachable: '' @ truncated max_error_len text)
      | Replied status raw \<Rightarrow>
          (case lb_loads lb raw of
             Inr parsed \<Rightarrow> Inr (status, parsed)
           | Inl e \<Rightarrow> Inl (''core response not JSON: '' @ truncated max_error_len (lb_exc_text lb e))))"

definition ask_core ::
  "library \<Rightarrow> gateway_env \<Rightarrow> (gateway_request \<Rightarrow> core_reply) \<Rightarrow> string \<Rightarrow> string \<Rightarrow> dict option
     \<Rightarrow> hook_exc + string + int \<times> json" where
  "ask_core lb gv net method path body =
     (let rq = gateway_request_for lb gv method path body
      in case lb_url_error lb (gr_url rq) of Some e \<Rightarrow> Inl e | None \<Rightarrow> Inr (read_http lb (net rq)))"

section \<open>Decisions\<close>

definition gateway_fail_closed :: "string \<Rightarrow> gateway_verdict" where
  "gateway_fail_closed reason =
     \<lparr>gk_kind = ''deny'', gk_decision = JStr [],
      gk_reason = ''Reeflex: core unreachable or error -- failing closed: '' @ reason @ '' [rule='' @ fail_rule @ '']'',
      gk_rule = JStr fail_rule, gk_reachable = False, gk_hold_id = JNull, gk_expires_ts = JNull, gk_obligations = [],
      gk_http_status = None, gk_decision_id = JNull\<rparr>"

definition map_verdict ::
  "library \<Rightarrow> gateway_env \<Rightarrow> cred_file \<Rightarrow> int \<Rightarrow> dict \<Rightarrow> hook_exc + gateway_verdict" where
  "map_verdict lb gv cf status body =
     (let env = gv_hook gv; decision = dget_or body ''decision'' (JStr []);
          reason = dget_or body ''reason'' (JStr []); rule = dget_or body ''rule'' (JStr ''unknown'')
      in bindE (obligation_list (dget_or body ''obligations'' (JArr []))) (\<lambda>obligations.
           let v = \<lparr>gk_kind = ''deny'', gk_decision = decision,
                 gk_reason = ''Reeflex: '' @ py_str (lb_ucd lb) reason @ '' [rule='' @ py_str (lb_ucd lb) rule @ '']''
                   @ hold_clause lb env cf body (core_url_of env) (gate_id_of lb env) [],
                 gk_rule = rule, gk_reachable = True, gk_hold_id = dget body ''hold_id'',
                 gk_expires_ts = dget body ''expires_ts'', gk_obligations = obligations,
                 gk_http_status = Some status, gk_decision_id = dget body ''decision_id''\<rparr>
           in case permission_for decision of
                Some p \<Rightarrow> Inr (v\<lparr>gk_kind := p\<rparr>)
              | None \<Rightarrow> Inr (v\<lparr>gk_reason := ''Reeflex: unknown decision value '' @ [CHR 0x27]
                    @ truncated max_error_len (py_str (lb_ucd lb) decision) @ [CHR 0x27]
                    @ '' -- failing closed [rule=adapter/unknown_decision]'',
                  gk_rule := JStr ''adapter/unknown_decision_fail_closed'', gk_obligations := []\<rparr>)))"

definition read_decision ::
  "library \<Rightarrow> gateway_env \<Rightarrow> cred_file \<Rightarrow> string + int \<times> json \<Rightarrow> hook_exc + gateway_verdict" where
  "read_decision lb gv cf answer =
     (case answer of
        Inl err \<Rightarrow> Inr (gateway_fail_closed err)
      | Inr (status, body) \<Rightarrow>
          (case body of
             JObj d \<Rightarrow>
               if map_of d ''decision'' \<noteq> None then map_verdict lb gv cf status d
               else if status \<noteq> 200
               then Inr (gateway_fail_closed (''core returned HTTP '' @ str_int status @ '' without decision''))
               else Inr (gateway_fail_closed (''core response missing '' @ [CHR 0x27] @ ''decision'' @ [CHR 0x27] @ '' field''))
           | _ \<Rightarrow>
               if status \<noteq> 200
               then Inr (gateway_fail_closed (''core returned HTTP '' @ str_int status @ '' without decision''))
               else Inr (gateway_fail_closed (''core response missing '' @ [CHR 0x27] @ ''decision'' @ [CHR 0x27] @ '' field''))))"

definition gateway_decide ::
  "library \<Rightarrow> gateway_env \<Rightarrow> cred_file \<Rightarrow> (gateway_request \<Rightarrow> core_reply) \<Rightarrow> dict \<Rightarrow> hook_exc + gateway_verdict" where
  "gateway_decide lb gv cf net envelope =
     bindE (ask_core lb gv net ''POST'' ''/v1/decide'' (Some envelope)) (read_decision lb gv cf)"

section \<open>Holds\<close>

definition hold_path :: "library \<Rightarrow> json \<Rightarrow> string" where
  "hold_path lb hold_id = ''/v1/holds/'' @ py_str (lb_ucd lb) hold_id"

fun nonempty_text :: "json \<Rightarrow> string" where
  "nonempty_text (JStr s) = s"
| "nonempty_text _ = []"

text \<open>The status of a hold, or why it cannot be read.\<close>

definition hold_status :: "string + int \<times> json \<Rightarrow> string + string" where
  "hold_status answer =
     (case answer of
        Inl err \<Rightarrow> Inl err
      | Inr (_, JObj body) \<Rightarrow>
          (let st = nonempty_text (dget body ''status''); ev = nonempty_text (dget body ''event_type'');
               st' = (if st \<noteq> [] then st else if ev = ''created'' then ''pending'' else ev)
           in if st' = [] then Inl ''hold response carried no status'' else Inr st')
      | Inr _ \<Rightarrow> Inl ''hold response not an object'')"

definition get_hold_status ::
  "library \<Rightarrow> gateway_env \<Rightarrow> (gateway_request \<Rightarrow> core_reply) \<Rightarrow> json \<Rightarrow> hook_exc + string + string" where
  "get_hold_status lb gv net hold_id =
     bindE (ask_core lb gv net ''GET'' (hold_path lb hold_id) None) (\<lambda>answer. Inr (hold_status answer))"

text \<open>Who decided a hold, if the record says so.\<close>

definition decided_hold :: "library \<Rightarrow> string + int \<times> json \<Rightarrow> dict option" where
  "decided_hold lb answer =
     (case answer of
        Inr (_, JObj body) \<Rightarrow>
          (case dget body ''decided_by'' of
             JStr raw \<Rightarrow>
               if CHR '':'' \<notin> set raw then None
               else let ptype = strip lb (before_first CHR '':'' raw); pid = strip lb (after_first CHR '':'' raw)
                    in if ptype = [] \<or> pid = [] then None
                       else Some [(''resolution'', dget body ''status''),
                              (''decided_by'', JObj [(''type'', JStr ptype), (''id'', JStr pid)]),
                              (''verified'', JBool (py_truth (dget body ''decided_by_verified'')))]
           | _ \<Rightarrow> None)
      | _ \<Rightarrow> None)"

definition hold_decision ::
  "library \<Rightarrow> gateway_env \<Rightarrow> (gateway_request \<Rightarrow> core_reply) \<Rightarrow> json \<Rightarrow> hook_exc + dict option" where
  "hold_decision lb gv net hold_id =
     bindE (ask_core lb gv net ''GET'' (hold_path lb hold_id) None) (\<lambda>answer. Inr (decided_hold lb answer))"

section \<open>Waiting\<close>

text \<open>Python's \<open>max\<close> and \<open>min\<close> on floats: the first argument is kept unless the second is strictly better,
  so a \<open>nan\<close> in the first place stays.\<close>

definition py_fmax :: "pyfloat \<Rightarrow> pyfloat \<Rightarrow> pyfloat" where
  "py_fmax a b = (if flt a b then b else a)"

definition py_fmin :: "pyfloat \<Rightarrow> pyfloat \<Rightarrow> pyfloat" where
  "py_fmin a b = (if flt b a then b else a)"

text \<open>The double nearest to 0.05.\<close>

definition shortest_sleep :: rat where
  "shortest_sleep = 3602879701896397 / 72057594037927936"

text \<open>What the loop meets: the reply to each poll, and the two clock readings after it.\<close>

record hold_watch =
  hw_reply :: "nat \<Rightarrow> gateway_request \<Rightarrow> core_reply"
  hw_start :: rat
  hw_now :: "nat \<Rightarrow> rat"
  hw_later :: "nat \<Rightarrow> rat"

definition wait_deadline :: "library \<Rightarrow> gateway_env \<Rightarrow> hold_watch \<Rightarrow> pyfloat option \<Rightarrow> pyfloat" where
  "wait_deadline lb gv w wait_seconds =
     (let wait = (case wait_seconds of None \<Rightarrow> gateway_float_env lb (gv_hold_wait gv) (Fin 30) True | Some x \<Rightarrow> x)
      in fadd (lb_round lb) (Fin (hw_start w)) (py_fmax wait (Fin 0)))"

fun fneg :: "pyfloat \<Rightarrow> pyfloat" where
  "fneg (Fin x) = Fin (- x)"
| "fneg PosInf = NegInf"
| "fneg NegInf = PosInf"
| "fneg NaN = NaN"

definition pause :: "library \<Rightarrow> gateway_env \<Rightarrow> pyfloat \<Rightarrow> rat \<Rightarrow> pyfloat" where
  "pause lb gv limit now =
     py_fmin (py_fmax (gateway_float_env lb (gv_hold_poll gv) (Fin 1) False) (Fin shortest_sleep))
       (py_fmax (fadd (lb_round lb) limit (fneg (Fin now))) (Fin shortest_sleep))"

fun sleep_error :: "pyfloat \<Rightarrow> hook_exc option" where
  "sleep_error NaN = Some HValueError"
| "sleep_error PosInf = Some HOverflowError"
| "sleep_error _ = None"

fun await_loop ::
  "nat \<Rightarrow> library \<Rightarrow> gateway_env \<Rightarrow> hold_watch \<Rightarrow> json \<Rightarrow> pyfloat \<Rightarrow> nat \<Rightarrow> (hook_exc + string + string) option" where
  "await_loop 0 lb gv w hold_id limit n = None"
| "await_loop (Suc turns) lb gv w hold_id limit n =
     (case get_hold_status lb gv (hw_reply w n) hold_id of
        Inl e \<Rightarrow> Some (Inl e)
      | Inr (Inl err) \<Rightarrow> Some (Inr (Inl err))
      | Inr (Inr status) \<Rightarrow>
          if status \<noteq> ''pending'' then Some (Inr (Inr status))
          else if fle limit (Fin (hw_now w n)) then Some (Inr (Inr ''pending''))
          else case sleep_error (pause lb gv limit (hw_later w n)) of
                 Some e \<Rightarrow> Some (Inl e)
               | None \<Rightarrow> await_loop turns lb gv w hold_id limit (Suc n))"

definition await_hold ::
  "nat \<Rightarrow> library \<Rightarrow> gateway_env \<Rightarrow> hold_watch \<Rightarrow> json \<Rightarrow> pyfloat option \<Rightarrow> (hook_exc + string + string) option" where
  "await_hold turns lb gv w hold_id wait_seconds =
     await_loop turns lb gv w hold_id (wait_deadline lb gv w wait_seconds) 0"

section \<open>The wait ends\<close>

lemma await_loop_ends:
  assumes "\<And>k. hw_now w k + 1 / 20 \<le> hw_now w (Suc k)" "d + 1 / 20 \<le> hw_now w n + of_nat turns / 20" "0 < turns"
  shows "\<exists>r. await_loop turns lb gv w hold_id (Fin d) n = Some r"
  using assms(2,3)
proof (induction turns arbitrary: n)
  case (Suc turns)
  have "\<exists>r. await_loop turns lb gv w hold_id (Fin d) (Suc n) = Some r" if "hw_now w n < d"
  proof (cases turns)
    case 0
    with Suc.prems(1) that show ?thesis by simp
  next
    case (Suc t)
    then show ?thesis using Suc.IH [of "Suc n"] Suc.prems(1) assms(1) [of n] by (simp add: field_simps)
  qed
  then show ?case
    by (auto split: sum.split option.split)
qed simp

lemma await_loop_never:
  assumes "\<And>k. get_hold_status lb gv (hw_reply w k) hold_id = Inr (Inr ''pending'')"
    and "\<And>k. sleep_error (pause lb gv limit (hw_later w k)) = None"
    and "\<And>x. \<not> fle limit (Fin x)"
  shows "await_loop turns lb gv w hold_id limit n = None"
  by (induction turns arbitrary: n) (simp_all add: assms)

section \<open>One reading of a decision\<close>

definition reads_alike :: "verdict \<Rightarrow> gateway_verdict \<Rightarrow> bool" where
  "reads_alike h g \<longleftrightarrow> gk_kind g = v_permission h \<and> gk_rule g = v_rule h \<and> gk_obligations g = v_obligations h
     \<and> gk_reachable g = v_reachable h"

text \<open>The gateway's own copy of the reading of a decision agrees with the hook's: whatever object the engine
  answers, where the hook comes to a verdict the gateway comes to the same permission, rule and obligations.\<close>

theorem gateway_reads_as_the_hook:
  "case map_decision lb (gv_hook gv) cf core_url gate_id (JObj d) of
     Inl _ \<Rightarrow> True
   | Inr h \<Rightarrow> (case map_verdict lb gv cf status d of Inl _ \<Rightarrow> False | Inr g \<Rightarrow> reads_alike h g)"
proof (cases "obligation_list (dget_or d ''obligations'' (JArr []))")
  case (Inr obl)
  show ?thesis
  proof (cases "permission_for (dget_or d ''decision'' (JStr []))")
    case None
    then show ?thesis
      by (cases "trunc_decision lb (dget_or d ''decision'' (JStr []))")
        (simp_all add: map_decision_def map_verdict_def Let_def Inr reads_alike_def)
  qed (simp add: map_decision_def map_verdict_def Let_def Inr reads_alike_def)
qed (simp add: map_decision_def Let_def)

end
