(* ===== verification/GatewayEvidence.thy ===== *)
theory GatewayEvidence
  imports GatewayCore Holds
begin

text \<open>
  What the gateway records and sends (\<open>reeflex-litellm/reeflex_litellm/evidence.py\<close>): the line of its own ledger,
  the record on the closed evidence wire, the pending hold it announces to an inbox, and the signed request that
  carries them. Hashing, signing and the text of a request's body are arguments, as are the replies.
\<close>

section \<open>Errors\<close>

text \<open>Every constructor but the last is an \<open>EvidenceConfigError\<close>.\<close>

datatype evidence_error =
    NotInTheMap "string list" | EmptyVariable string | KeyNotHex string | KeyLength string nat
  | FieldsMissing "string list" | FieldsUnknown string "json list" | NotInEnum string json
  | EvidenceOther hook_exc

record evidence_lib =
  el_digest :: "json \<Rightarrow> string"
  el_body :: "json list \<Rightarrow> hook_exc + string"
  el_hmac :: "string \<Rightarrow> string \<Rightarrow> string"
  el_say :: "evidence_error \<Rightarrow> string"

text \<open>\<open>x or {}\<close> where the next step asks the result for a key.\<close>

definition sub_block :: "json \<Rightarrow> evidence_error + dict" where
  "sub_block j = (case or_else j (JObj []) of JObj d \<Rightarrow> Inr d | _ \<Rightarrow> Inl (EvidenceOther HAttributeError))"

lemma sub_block_JObj [simp]: "sub_block (JObj d) = Inr d"
  by (cases d) (simp_all add: sub_block_def or_else_def)

lemma sub_block_JNull [simp]: "sub_block JNull = Inr []"
  by (simp add: sub_block_def or_else_def)

section \<open>The hash\<close>

definition gateway_hash_allowlist :: "string list" where
  "gateway_hash_allowlist = [''action'', ''axes'', ''magnitude'', ''target'']"

definition envelope_hash :: "(json \<Rightarrow> string) \<Rightarrow> dict \<Rightarrow> string" where
  "envelope_hash digest envelope =
     digest (sort_keys (JObj (List.map_filter (\<lambda>k. map_option (Pair k) (map_of envelope k)) gateway_hash_allowlist)))"

lemma envelope_hash_is_the_engines: "envelope_hash digest e = canonical_hash digest e"
  by (simp add: envelope_hash_def canonical_hash_def projection_def gateway_hash_allowlist_def hash_allowlist_def)

section \<open>The ledger\<close>

definition stage_allowed :: string where "stage_allowed = ''allowed_at_gateway''"
definition stage_refused :: string where "stage_refused = ''refused_at_gateway''"

definition stages_this_seat_can_emit :: "string list" where
  "stages_this_seat_can_emit = [stage_allowed, stage_refused]"

definition assert_never_claims_prevention :: "string \<Rightarrow> hook_exc + unit" where
  "assert_never_claims_prevention stage = (if stage \<in> set stages_this_seat_can_emit then Inr () else Inl HValueError)"

text \<open>What the gateway does with one proposed call: the \<open>Outcome\<close> of \<open>enforce.py\<close>.\<close>

record outcome =
  oc_allowed :: bool
  oc_refusal :: "dict option"
  oc_verdict :: "gateway_verdict option"
  oc_hold_id :: json
  oc_released_after_approval :: bool
  oc_ledger :: "dict option"
  oc_hold_announced :: "string option"
  oc_hold_decision :: "dict option"
  oc_parent_decision_id :: json

text \<open>\<open>getattr(verdict, field, default)\<close>.\<close>

definition of_verdict :: "outcome \<Rightarrow> (gateway_verdict \<Rightarrow> 'a) \<Rightarrow> 'a \<Rightarrow> 'a" where
  "of_verdict r f d = (case oc_verdict r of None \<Rightarrow> d | Some v \<Rightarrow> f v)"

definition ledger_record ::
  "evidence_lib \<Rightarrow> string \<Rightarrow> dict \<Rightarrow> dict \<Rightarrow> gateway_call \<Rightarrow> tenant \<Rightarrow> outcome \<Rightarrow> evidence_error + dict" where
  "ledger_record el now envelope gateway_routing call t r =
     (let stage = (if oc_allowed r then stage_allowed else stage_refused)
      in bindE (case assert_never_claims_prevention stage of Inl e \<Rightarrow> Inl (EvidenceOther e) | Inr u \<Rightarrow> Inr u) (\<lambda>_.
         bindE (sub_block (dget envelope ''agent'')) (\<lambda>agent.
         bindE (sub_block (dget envelope ''action'')) (\<lambda>action.
         bindE (sub_block (dget envelope ''target'')) (\<lambda>target.
         Inr [(''schema'', JStr ''reeflex-litellm/decision-ledger/v1''),
              (''decision_id'', of_verdict r gk_decision_id JNull),
              (''verdict'', or_else (of_verdict r gk_decision (JStr [])) (JStr [])),
              (''rule'', of_verdict r gk_rule (JStr ''unknown'')),
              (''reason'', JStr (of_verdict r gk_reason [])),
              (''envelope_hash'', JStr (envelope_hash (el_digest el) envelope)),
              (''occurred_ts'', JStr now),
              (''agent_id'', dget agent ''id''),
              (''session_id'', dget agent ''session_id''),
              (''action'', JObj [(''verb'', dget action ''verb''), (''ability'', dget action ''ability''),
                 (''namespace'', dget action ''namespace''), (''target_system'', dget target ''system''),
                 (''target_environment'', dget target ''environment'')]),
              (''magnitude'', dget envelope ''magnitude''),
              (''axes'', dget envelope ''axes''),
              (''enforcement_stage'', JStr stage),
              (''observed'', JStr ''proposal''),
              (''prevents_execution'', JBool False),
              (''gateway_routing'', JObj gateway_routing),
              (''gateway_tool'', JStr (gc_gateway_tool call)),
              (''tool_call_id'', gc_call_id call),
              (''normalization'', JStr (gc_mapping_source call)),
              (''tenant_org'', jopt (tn_org t)),
              (''hold_id'', oc_hold_id r),
              (''hold_announced'', jopt (oc_hold_announced r)),
              (''hold_decision'', case oc_hold_decision r of None \<Rightarrow> JNull | Some d \<Rightarrow> JObj d),
              (''parent_decision_id'', oc_parent_decision_id r),
              (''released_after_approval'', JBool (oc_released_after_approval r)),
              (''refusal_error'', case oc_refusal r of None \<Rightarrow> JNull | Some d \<Rightarrow> dget d ''error''),
              (''core_reachable'', JBool (of_verdict r gk_reachable True))])))))"

text \<open>\<open>append_ledger\<close>: where the line goes, if anywhere, and whether it was written. \<open>write\<close> is the append and
  sync; whatever it raises is dropped.\<close>

definition append_ledger ::
  "library \<Rightarrow> gateway_env \<Rightarrow> (string \<Rightarrow> dict \<Rightarrow> bool) \<Rightarrow> dict \<Rightarrow> string option" where
  "append_ledger lb gv write record =
     (let target = strip lb (env_or (gv_var gv ''REEFLEX_LITELLM_LEDGER_PATH'') [])
      in if target = [] then None else if write target record then Some target else None)"

section \<open>The evidence wire\<close>

definition sig_alg :: string where "sig_alg = ''hmac-sha256''"

definition wire_fields :: "string list" where
  "wire_fields = [''decision_id'', ''verdict'', ''rule'', ''envelope_hash'', ''occurred_ts'', ''action'', ''magnitude'',
     ''agent_id'', ''traceparent'', ''hold'', ''sig_alg'']"

definition wire_action_fields :: "string list" where
  "wire_action_fields = [''verb'', ''target_system'', ''target_environment'']"

definition wire_hold_fields :: "string list" where
  "wire_hold_fields = [''hold_id'', ''parent_decision_id'', ''resolution'', ''decided_by'']"

definition wire_decided_by_fields :: "string list" where
  "wire_decided_by_fields = [''type'', ''id'']"

definition hold_resolutions :: "string list" where
  "hold_resolutions = [''approved'', ''rejected'', ''expired'']"

definition decided_by_types :: "string list" where
  "decided_by_types = [''human'', ''agent'']"

text \<open>\<open>v in {...}\<close>: a list or a dict cannot be hashed.\<close>

fun in_enum :: "string list \<Rightarrow> json \<Rightarrow> evidence_error + bool" where
  "in_enum names (JStr s) = Inr (s \<in> set names)"
| "in_enum names (JArr _) = Inl (EvidenceOther HTypeError)"
| "in_enum names (JObj _) = Inl (EvidenceOther HTypeError)"
| "in_enum names _ = Inr False"

text \<open>\<open>set(x or {})\<close>.\<close>

definition key_set :: "json \<Rightarrow> evidence_error + json list" where
  "key_set j =
     (case or_else j (JObj []) of
        JObj d \<Rightarrow> Inr (map (JStr \<circ> fst) d)
      | JStr s \<Rightarrow> Inr (map JStr (chars_of s))
      | JArr xs \<Rightarrow> if list_all hashable xs then Inr xs else Inl (EvidenceOther HTypeError)
      | _ \<Rightarrow> Inl (EvidenceOther HTypeError))"

definition only_fields :: "string \<Rightarrow> string list \<Rightarrow> json \<Rightarrow> evidence_error + unit" where
  "only_fields what names j =
     bindE (key_set j) (\<lambda>ks. case filter (\<lambda>k. k \<notin> set (map JStr names)) ks of
        [] \<Rightarrow> Inr () | x # xs \<Rightarrow> Inl (FieldsUnknown what (x # xs)))"

definition must_be_in :: "string \<Rightarrow> string list \<Rightarrow> json \<Rightarrow> evidence_error + unit" where
  "must_be_in what names v =
     (if v = JNull then Inr ()
      else bindE (in_enum names v) (\<lambda>ok. if ok then Inr () else Inl (NotInEnum what v)))"

definition assert_wire_is_spec_clean :: "dict \<Rightarrow> evidence_error + unit" where
  "assert_wire_is_spec_clean wire =
     bindE (only_fields ''record'' wire_fields (JObj wire)) (\<lambda>_.
     bindE (only_fields ''action'' wire_action_fields (dget wire ''action'')) (\<lambda>_.
     bindE (only_fields ''hold'' wire_hold_fields (dget wire ''hold'')) (\<lambda>_.
     bindE (sub_block (dget wire ''hold'')) (\<lambda>hold.
     bindE (only_fields ''hold.decided_by'' wire_decided_by_fields (dget hold ''decided_by'')) (\<lambda>_.
     bindE (must_be_in ''hold.resolution'' hold_resolutions (dget hold ''resolution'')) (\<lambda>_.
     bindE (sub_block (dget hold ''decided_by'')) (\<lambda>by_whom.
       must_be_in ''hold.decided_by.type'' decided_by_types (dget by_whom ''type''))))))))"

text \<open>\<open>isinstance(v, int)\<close>, which a boolean is.\<close>

fun int_like :: "json \<Rightarrow> bool" where
  "int_like (JInt _) = True"
| "int_like (JBool _) = True"
| "int_like _ = False"

definition put_if :: "bool \<Rightarrow> string \<Rightarrow> json \<Rightarrow> dict" where
  "put_if b k v = (if b then [(k, v)] else [])"

definition wire_required :: "string list" where
  "wire_required = [''decision_id'', ''verdict'', ''rule'', ''envelope_hash'', ''occurred_ts'']"

text \<open>Who decided, if the record names a party of a known kind.\<close>

definition wire_decider :: "library \<Rightarrow> dict \<Rightarrow> evidence_error + dict" where
  "wire_decider lb by_whom =
     bindE (in_enum decided_by_types (dget by_whom ''type'')) (\<lambda>known.
       Inr (case dget by_whom ''id'' of
              JStr pid \<Rightarrow>
                put_if (known \<and> strip lb pid \<noteq> []) ''decided_by''
                  (JObj [(''type'', dget by_whom ''type''), (''id'', JStr (strip lb pid))])
            | _ \<Rightarrow> []))"

definition wire_hold :: "library \<Rightarrow> dict \<Rightarrow> evidence_error + dict" where
  "wire_hold lb ledger =
     (if \<not> py_truth (dget ledger ''hold_id'') then Inr []
      else bindE (sub_block (dget ledger ''hold_decision'')) (\<lambda>decision.
           bindE (in_enum hold_resolutions (dget decision ''resolution'')) (\<lambda>resolved.
           bindE (sub_block (dget decision ''decided_by'')) (\<lambda>by_whom.
           bindE (wire_decider lb by_whom) (\<lambda>decider.
             Inr [(''hold'', JObj ([(''hold_id'', dget ledger ''hold_id'')]
               @ put_if (py_truth (dget ledger ''parent_decision_id'')) ''parent_decision_id''
                   (dget ledger ''parent_decision_id'')
               @ put_if resolved ''resolution'' (dget decision ''resolution'')
               @ decider))])))))"

text \<open>The record before it is checked again.\<close>

definition build_wire :: "library \<Rightarrow> dict \<Rightarrow> evidence_error + dict" where
  "build_wire lb ledger =
     bindE (sub_block (dget ledger ''action'')) (\<lambda>action.
       let missing = filter (\<lambda>k. \<not> py_truth (dget ledger k)) wire_required
             @ (if py_truth (dget action ''verb'') then [] else [''action.verb''])
             @ (if py_truth (dget action ''target_environment'') then [] else [''action.target_environment''])
       in if missing \<noteq> [] then Inl (FieldsMissing missing)
          else
            let system = or_else (dget action ''target_system'') (dget action ''namespace'');
                count = dget (as_obj (dget ledger ''magnitude'')) ''count''
            in bindE (wire_hold lb ledger) (\<lambda>hold.
                 Inr (map (\<lambda>k. (k, dget ledger k)) wire_required
                   @ [(''action'', JObj ([(''verb'', dget action ''verb''),
                          (''target_environment'', dget action ''target_environment'')]
                        @ put_if (py_truth system) ''target_system'' system)),
                      (''sig_alg'', JStr sig_alg)]
                   @ put_if (int_like count) ''magnitude'' (JObj [(''count'', count)])
                   @ put_if (py_truth (dget ledger ''agent_id'')) ''agent_id'' (dget ledger ''agent_id'')
                   @ put_if (py_truth (dget ledger ''traceparent'')) ''traceparent'' (dget ledger ''traceparent'')
                   @ hold)))"

definition wire_record :: "library \<Rightarrow> dict \<Rightarrow> evidence_error + dict" where
  "wire_record lb ledger =
     bindE (build_wire lb ledger) (\<lambda>wire. bindE (assert_wire_is_spec_clean wire) (\<lambda>_. Inr wire))"

section \<open>A pending hold\<close>

definition hold_fields :: "string list" where
  "hold_fields = [''hold_id'', ''decision_id'', ''verb'', ''target_system'', ''target_environment'', ''magnitude_count'',
     ''rule'', ''agent_id'', ''envelope_hash'', ''reason'', ''created_ts'', ''expires_ts'', ''sig_alg'']"

definition hold_required_fields :: "string list" where
  "hold_required_fields = [''hold_id'', ''decision_id'', ''verb'', ''target_environment'', ''rule'', ''envelope_hash'',
     ''created_ts'']"

fun counts_objects :: "json \<Rightarrow> bool" where
  "counts_objects (JInt n) = (0 \<le> n)"
| "counts_objects _ = False"

definition assert_hold_is_spec_clean :: "dict \<Rightarrow> evidence_error + unit" where
  "assert_hold_is_spec_clean rec = only_fields ''pending hold'' hold_fields (JObj rec)"

text \<open>The keyword arguments of \<open>hold_record\<close>: the required ones, then the optional ones, \<open>None\<close> where left out.\<close>

record hold_args =
  ha_hold_id :: json
  ha_decision_id :: json
  ha_verb :: json
  ha_environment :: json
  ha_rule :: json
  ha_hash :: json
  ha_created :: json
  ha_system :: json
  ha_count :: json
  ha_agent :: json
  ha_reason :: json
  ha_expires :: json

definition hold_record :: "hold_args \<Rightarrow> evidence_error + dict" where
  "hold_record a =
     (let rec = [(''hold_id'', ha_hold_id a), (''decision_id'', ha_decision_id a), (''verb'', ha_verb a),
            (''target_environment'', ha_environment a), (''rule'', ha_rule a), (''envelope_hash'', ha_hash a),
            (''created_ts'', ha_created a), (''sig_alg'', JStr sig_alg)];
          missing = filter (\<lambda>k. nonempty_text (dget rec k) = []) hold_required_fields
      in if missing \<noteq> [] then Inl (FieldsMissing missing)
         else
           let full = rec @ put_if (py_truth (ha_system a)) ''target_system'' (ha_system a)
                 @ put_if (counts_objects (ha_count a)) ''magnitude_count'' (ha_count a)
                 @ put_if (py_truth (ha_agent a)) ''agent_id'' (ha_agent a)
                 @ put_if (py_truth (ha_reason a)) ''reason'' (ha_reason a)
                 @ put_if (py_truth (ha_expires a)) ''expires_ts'' (ha_expires a)
           in bindE (assert_hold_is_spec_clean full) (\<lambda>_. Inr full))"

definition hold_record_from_ledger :: "string \<Rightarrow> dict \<Rightarrow> json \<Rightarrow> json \<Rightarrow> evidence_error + dict" where
  "hold_record_from_ledger now ledger hold_id expires_ts =
     bindE (sub_block (dget ledger ''action'')) (\<lambda>action.
       let text = (\<lambda>d k. or_else (dget d k) (JStr []))
       in hold_record \<lparr>ha_hold_id = hold_id, ha_decision_id = text ledger ''decision_id'', ha_verb = text action ''verb'',
            ha_environment = text action ''target_environment'', ha_rule = text ledger ''rule'',
            ha_hash = text ledger ''envelope_hash'', ha_created = or_else (dget ledger ''occurred_ts'') (JStr now),
            ha_system = or_else (dget action ''target_system'') (dget action ''namespace''),
            ha_count = dget (as_obj (dget ledger ''magnitude'')) ''count'', ha_agent = dget ledger ''agent_id'',
            ha_reason = dget ledger ''reason'', ha_expires = expires_ts\<rparr>)"

section \<open>Credentials\<close>

text \<open>\<open>bytes.fromhex\<close>: pairs of hex digits, white space between them ignored.\<close>

definition hex_digit :: "char \<Rightarrow> nat option" where
  "hex_digit c =
     (if is_digit_char c then Some (code c - 48)
      else if CHR ''a'' \<le> c \<and> c \<le> CHR ''f'' then Some (code c - 87)
      else if CHR ''A'' \<le> c \<and> c \<le> CHR ''F'' then Some (code c - 55)
      else None)"

definition hex_space :: "char \<Rightarrow> bool" where
  "hex_space c \<longleftrightarrow> code c \<in> set [9, 10, 11, 12, 13, 32]"

fun from_hex :: "string \<Rightarrow> nat list option" where
  "from_hex [] = Some []"
| "from_hex [c] = (if hex_space c then Some [] else None)"
| "from_hex (c # d # cs) =
     (if hex_space c then from_hex (d # cs)
      else case (hex_digit c, hex_digit d) of
             (Some a, Some b) \<Rightarrow> map_option ((#) (16 * a + b)) (from_hex cs)
           | _ \<Rightarrow> None)"

record gate_credentials =
  gt_url :: string
  gt_token :: string
  gt_key :: "nat list"
  gt_org :: "string option"

text \<open>\<open>(spec.get(k) or "").strip()\<close>: only a text can be stripped.\<close>

definition spec_text :: "library \<Rightarrow> dict \<Rightarrow> string \<Rightarrow> evidence_error + string" where
  "spec_text lb spec k =
     (case or_else (dget spec k) (JStr []) of JStr s \<Rightarrow> Inr (strip lb s) | _ \<Rightarrow> Inl (EvidenceOther HAttributeError))"

definition credentials_for ::
  "library \<Rightarrow> gateway_env \<Rightarrow> tenant \<Rightarrow> string \<Rightarrow> evidence_error + gate_credentials" where
  "credentials_for lb gv t url_key =
     bindE (spec_text lb (tn_evidence t) url_key) (\<lambda>url.
     bindE (spec_text lb (tn_evidence t) ''gate_token_env'') (\<lambda>token_env.
     bindE (spec_text lb (tn_evidence t) ''signing_key_env'') (\<lambda>key_env.
       let missing = (if url = [] then [''evidence.'' @ url_key] else [])
             @ (if token_env = [] then [''evidence.gate_token_env''] else [])
             @ (if key_env = [] then [''evidence.signing_key_env''] else []);
           token = strip lb (env_or (gv_var gv token_env) []);
           key_hex = strip lb (env_or (gv_var gv key_env) [])
       in if missing \<noteq> [] then Inl (NotInTheMap missing)
          else if token = [] then Inl (EmptyVariable token_env)
          else if key_hex = [] then Inl (EmptyVariable key_env)
          else case from_hex key_hex of
                 None \<Rightarrow> Inl (KeyNotHex key_env)
               | Some key \<Rightarrow>
                   if length key \<noteq> 32 then Inl (KeyLength key_env (length key))
                   else Inr \<lparr>gt_url = rstrip_slashes url, gt_token = token, gt_key = key, gt_org = tn_org t\<rparr>)))"

section \<open>Pushing\<close>

record push_result =
  pr_ok :: bool
  pr_status :: "int option"
  pr_body :: "string option"
  pr_error :: "string option"
  pr_org :: "string option"
  pr_records :: nat

record signed_request =
  sr_url :: string
  sr_body :: string
  sr_headers :: "(string \<times> string) list"
  sr_timeout :: pyfloat

text \<open>What sending it comes to: an answer, an HTTP error with what could be read of its body, or the text of
  whatever else was raised.\<close>

datatype push_reply = PushReplied int string | PushHttpError int string | PushRaised string

definition sign :: "evidence_lib \<Rightarrow> string \<Rightarrow> int \<Rightarrow> nat list \<Rightarrow> string" where
  "sign el body timestamp key = el_hmac el (map char_of key) (str_int timestamp @ ''.'' @ [CHR 0x0A] @ body)"

definition signed_request_for ::
  "library \<Rightarrow> gateway_env \<Rightarrow> evidence_lib \<Rightarrow> gate_credentials \<Rightarrow> int \<Rightarrow> string \<Rightarrow> signed_request" where
  "signed_request_for lb gv el creds ts body =
     \<lparr>sr_url = gt_url creds, sr_body = body,
      sr_headers = [(''Content-Type'', ''application/json''), (''Authorization'', ''Bearer '' @ gt_token creds),
        (''X-Reeflex-Timestamp'', str_int ts),
        (''X-Reeflex-Signature'', sig_alg @ ''='' @ sign el body ts (gt_key creds))],
      sr_timeout = (let raw = env_or (gv_var gv ''REEFLEX_LITELLM_EVIDENCE_TIMEOUT'') []
                    in if raw = [] then Fin 5 else case lb_float lb raw of None \<Rightarrow> Fin 5 | Some x \<Rightarrow> x)\<rparr>"

fun all_valid :: "(dict \<Rightarrow> evidence_error + unit) \<Rightarrow> dict list \<Rightarrow> evidence_error + unit" where
  "all_valid validator [] = Inr ()"
| "all_valid validator (r # rs) = bindE (validator r) (\<lambda>_. all_valid validator rs)"

definition pushed :: "dict list \<Rightarrow> string option \<Rightarrow> push_result" where
  "pushed records org =
     \<lparr>pr_ok = True, pr_status = None, pr_body = None, pr_error = None, pr_org = org, pr_records = length records\<rparr>"

text \<open>\<open>_push_signed\<close>. An error of the credentials that is not an \<open>EvidenceConfigError\<close> gets out.\<close>

definition push_signed ::
  "library \<Rightarrow> gateway_env \<Rightarrow> evidence_lib \<Rightarrow> (signed_request \<Rightarrow> push_reply) \<Rightarrow> int \<Rightarrow> dict list \<Rightarrow> tenant \<Rightarrow> string
     \<Rightarrow> (dict \<Rightarrow> evidence_error + unit) \<Rightarrow> string \<Rightarrow> hook_exc + push_result" where
  "push_signed lb gv el net ts records t url_key validator what =
     (let result = pushed records (tn_org t);
          failed = (\<lambda>text. result\<lparr>pr_ok := False, pr_error := Some text\<rparr>)
      in if records = [] then Inr result
         else case credentials_for lb gv t url_key of
           Inl (EvidenceOther e) \<Rightarrow> Inl e
         | Inl e \<Rightarrow> Inr (failed (el_say el e))
         | Inr creds \<Rightarrow> Inr
             (case bindE (all_valid validator records)
                     (\<lambda>_. case el_body el (map JObj records) of Inl e \<Rightarrow> Inl (EvidenceOther e) | Inr body \<Rightarrow> Inr body) of
                Inl e \<Rightarrow> failed (what @ '' push: '' @ el_say el e)
              | Inr body \<Rightarrow>
                  (case net (signed_request_for lb gv el creds ts body) of
                     PushReplied status raw \<Rightarrow> result\<lparr>pr_status := Some status, pr_body := Some raw\<rparr>
                   | PushHttpError status raw \<Rightarrow>
                       (failed (what @ '' push: HTTP '' @ str_int status))\<lparr>pr_status := Some status, pr_body := Some raw\<rparr>
                   | PushRaised text \<Rightarrow> failed (what @ '' push: '' @ text))))"

definition flag_set :: "library \<Rightarrow> string option \<Rightarrow> bool" where
  "flag_set lb v = (lower lb (strip lb (env_or v [])) \<in> set [''1'', ''true'', ''yes'', ''on''])"

definition push_enabled :: "library \<Rightarrow> gateway_env \<Rightarrow> bool" where
  "push_enabled lb gv = flag_set lb (gv_push gv)"

definition holds_push_enabled :: "library \<Rightarrow> gateway_env \<Rightarrow> bool" where
  "holds_push_enabled lb gv = flag_set lb (gv_holds_push gv)"

definition push ::
  "library \<Rightarrow> gateway_env \<Rightarrow> evidence_lib \<Rightarrow> (signed_request \<Rightarrow> push_reply) \<Rightarrow> int \<Rightarrow> dict list \<Rightarrow> tenant
     \<Rightarrow> hook_exc + push_result" where
  "push lb gv el net ts records t =
     push_signed lb gv el net ts records t ''ingest_url'' assert_wire_is_spec_clean ''evidence''"

definition push_holds ::
  "library \<Rightarrow> gateway_env \<Rightarrow> evidence_lib \<Rightarrow> (signed_request \<Rightarrow> push_reply) \<Rightarrow> int \<Rightarrow> dict list \<Rightarrow> tenant
     \<Rightarrow> hook_exc + push_result" where
  "push_holds lb gv el net ts records t =
     push_signed lb gv el net ts records t ''holds_url'' assert_hold_is_spec_clean ''pending-hold''"

section \<open>Announcing a hold\<close>

definition announce_off :: string where "announce_off = ''not_configured''"
definition announce_sent :: string where "announce_sent = ''sent''"
definition announce_failed :: string where "announce_failed = ''failed''"

text \<open>The record of a hold the engine has just raised.\<close>

definition announcement :: "evidence_lib \<Rightarrow> string \<Rightarrow> dict \<Rightarrow> gateway_verdict \<Rightarrow> evidence_error + dict" where
  "announcement el now envelope v =
     bindE (sub_block (dget envelope ''action'')) (\<lambda>action.
     bindE (sub_block (dget envelope ''target'')) (\<lambda>target.
     bindE (sub_block (dget envelope ''magnitude'')) (\<lambda>magnitude.
     bindE (sub_block (dget envelope ''agent'')) (\<lambda>agent.
       hold_record \<lparr>ha_hold_id = gk_hold_id v, ha_decision_id = or_else (gk_decision_id v) (JStr []),
         ha_verb = or_else (dget action ''verb'') (JStr []),
         ha_environment = or_else (dget target ''environment'') (JStr []), ha_rule = or_else (gk_rule v) (JStr []),
         ha_hash = JStr (envelope_hash (el_digest el) envelope), ha_created = JStr now,
         ha_system = dget action ''namespace'', ha_count = dget magnitude ''count'', ha_agent = dget agent ''id'',
         ha_reason = JStr (gk_reason v), ha_expires = gk_expires_ts v\<rparr>))))"

definition announce_hold ::
  "library \<Rightarrow> gateway_env \<Rightarrow> evidence_lib \<Rightarrow> (signed_request \<Rightarrow> push_reply) \<Rightarrow> int \<Rightarrow> string \<Rightarrow> dict \<Rightarrow> gateway_verdict
     \<Rightarrow> tenant \<Rightarrow> hook_exc + string \<times> string" where
  "announce_hold lb gv el net ts now envelope v t =
     (if \<not> holds_push_enabled lb gv then Inr (announce_off, ''REEFLEX_LITELLM_HOLDS_PUSH is not enabled'')
      else if \<not> py_truth (gk_hold_id v) then Inr (announce_failed, ''core raised a hold with no hold_id'')
      else case announcement el now envelope v of
        Inl e \<Rightarrow> Inr (announce_failed, el_say el e)
      | Inr rec \<Rightarrow> bindE (push_holds lb gv el net ts [rec] t) (\<lambda>result.
          Inr (if pr_ok result
               then (announce_sent, ''HTTP '' @ (case pr_status result of Some n \<Rightarrow> str_int n | None \<Rightarrow> ''None''))
               else (announce_failed, or_text (pr_error result) ''push failed''))))"

section \<open>The wires stay closed\<close>

lemma put_if_dget [simp]: "dget (put_if b k v) k' = (if b \<and> k = k' then v else JNull)"
  by (simp add: put_if_def dget_def)

lemma put_if_keys [simp]: "fst ` set (put_if b k v) = (if b then {k} else {})"
  by (simp add: put_if_def)

lemma only_fields_obj:
  assumes "fst ` set d \<subseteq> set names"
  shows "only_fields what names (JObj d) = Inr ()"
proof -
  have "filter (\<lambda>k. k \<notin> set (map JStr names)) (map (JStr \<circ> fst) d) = []"
    using assms by (auto simp: filter_empty_conv)
  moreover have "key_set (JObj d) = Inr (map (JStr \<circ> fst) d)" by (cases d) (simp_all add: key_set_def or_else_def)
  ultimately show ?thesis by (simp add: only_fields_def)
qed

lemma only_fields_null [simp]: "only_fields what names JNull = Inr ()"
  by (simp add: only_fields_def key_set_def or_else_def)

lemma in_enum_true: "in_enum names v = Inr True \<Longrightarrow> must_be_in what names v = Inr ()"
  by (cases v) (auto simp: must_be_in_def)

lemma must_be_in_null [simp]: "must_be_in what names JNull = Inr ()"
  by (simp add: must_be_in_def)

lemma put_if_sub: "fst ` set (put_if b k v) \<subseteq> {k}"
  by simp

text \<open>A \<open>hold\<close> block that the assertion accepts.\<close>

definition hold_block_clean :: "dict \<Rightarrow> bool" where
  "hold_block_clean h \<longleftrightarrow> fst ` set h \<subseteq> set wire_hold_fields
     \<and> must_be_in ''hold.resolution'' hold_resolutions (dget h ''resolution'') = Inr ()
     \<and> (dget h ''decided_by'' = JNull
        \<or> (\<exists>b. dget h ''decided_by'' = JObj b \<and> fst ` set b \<subseteq> set wire_decided_by_fields
             \<and> must_be_in ''hold.decided_by.type'' decided_by_types (dget b ''type'') = Inr ()))"

lemma dget_append_keys: "dget (a @ b) k = (if k \<in> fst ` set a then dget a k else dget b k)"
  by (induction a) (auto simp: dget_Cons)

lemma wire_decider_clean:
  assumes "wire_decider lb w = Inr d"
  shows "d = [] \<or> (\<exists>b. d = [(''decided_by'', JObj b)] \<and> fst ` set b \<subseteq> set wire_decided_by_fields
           \<and> must_be_in ''hold.decided_by.type'' decided_by_types (dget b ''type'') = Inr ())"
proof (cases "dget w ''id''")
  case (JStr pid)
  with assms obtain known where k: "in_enum decided_by_types (dget w ''type'') = Inr known"
    and d: "d = put_if (known \<and> strip lb pid \<noteq> []) ''decided_by''
              (JObj [(''type'', dget w ''type''), (''id'', JStr (strip lb pid))])"
    by (auto simp: wire_decider_def py_simps)
  show ?thesis
  proof (cases "known \<and> strip lb pid \<noteq> []")
    case True
    with k have "must_be_in ''hold.decided_by.type'' decided_by_types (dget w ''type'') = Inr ()"
      using in_enum_true by simp
    with True show ?thesis by (simp add: d put_if_def wire_decided_by_fields_def dget_Cons)
  qed (simp add: d put_if_def)
qed (use assms in \<open>auto simp: wire_decider_def py_simps\<close>)

lemma wire_hold_clean:
  assumes "wire_hold lb ledger = Inr h"
  shows "h = [] \<or> (\<exists>b. h = [(''hold'', JObj b)] \<and> b \<noteq> [] \<and> hold_block_clean b)"
proof (cases "py_truth (dget ledger ''hold_id'')")
  case True
  with assms obtain decision resolved w d where r: "in_enum hold_resolutions (dget decision ''resolution'') = Inr resolved"
    and d: "wire_decider lb w = Inr d"
    and h: "h = [(''hold'', JObj ([(''hold_id'', dget ledger ''hold_id'')]
               @ put_if (py_truth (dget ledger ''parent_decision_id'')) ''parent_decision_id''
                   (dget ledger ''parent_decision_id'')
               @ put_if resolved ''resolution'' (dget decision ''resolution'') @ d))]"
    by (auto simp: wire_hold_def py_simps)
  let ?b = "[(''hold_id'', dget ledger ''hold_id'')]
               @ put_if (py_truth (dget ledger ''parent_decision_id'')) ''parent_decision_id''
                   (dget ledger ''parent_decision_id'')
               @ put_if resolved ''resolution'' (dget decision ''resolution'') @ d"
  from wire_decider_clean [OF d]
  have dk: "fst ` set d \<subseteq> {''decided_by''}" and dr: "dget d ''resolution'' = JNull" by (auto simp: dget_Cons)
  have "fst ` set ?b \<subseteq> set wire_hold_fields"
    using dk by (auto simp: wire_hold_fields_def put_if_def)
  moreover have "must_be_in ''hold.resolution'' hold_resolutions (dget ?b ''resolution'') = Inr ()"
    using r dr in_enum_true [of hold_resolutions] by (cases resolved) (simp_all add: dget_append_keys dget_Cons)
  moreover have "dget ?b ''decided_by'' = dget d ''decided_by''"
    by (simp add: dget_append_keys dget_Cons)
  ultimately have "hold_block_clean ?b"
    using wire_decider_clean [OF d] by (auto simp: hold_block_clean_def dget_Cons)
  with h show ?thesis by blast
qed (use assms in \<open>simp add: wire_hold_def\<close>)

lemma assert_wire_clean:
  assumes "only_fields ''record'' wire_fields (JObj w) = Inr ()"
    "only_fields ''action'' wire_action_fields (dget w ''action'') = Inr ()"
  shows "dget w ''hold'' = JNull \<Longrightarrow> assert_wire_is_spec_clean w = Inr ()"
    "dget w ''hold'' = JObj b \<Longrightarrow> hold_block_clean b \<Longrightarrow> assert_wire_is_spec_clean w = Inr ()"
proof -
  have n: "dget [] k = JNull" for k by (simp add: dget_def)
  show "dget w ''hold'' = JNull \<Longrightarrow> assert_wire_is_spec_clean w = Inr ()"
    by (simp add: assert_wire_is_spec_clean_def assms n)
  assume h: "dget w ''hold'' = JObj b" and c: "hold_block_clean b"
  from c have sub: "fst ` set b \<subseteq> set wire_hold_fields"
    and r: "must_be_in ''hold.resolution'' hold_resolutions (dget b ''resolution'') = Inr ()"
    unfolding hold_block_clean_def by blast+
  note fields = only_fields_obj [OF sub]
  from c consider "dget b ''decided_by'' = JNull" | x where "dget b ''decided_by'' = JObj x"
      "fst ` set x \<subseteq> set wire_decided_by_fields"
      "must_be_in ''hold.decided_by.type'' decided_by_types (dget x ''type'') = Inr ()"
    unfolding hold_block_clean_def by blast
  then show "assert_wire_is_spec_clean w = Inr ()"
  proof cases
    case 1
    then show ?thesis by (simp add: assert_wire_is_spec_clean_def assms h fields r n)
  next
    case (2 x)
    then show ?thesis by (simp add: assert_wire_is_spec_clean_def assms h fields r only_fields_obj)
  qed
qed

lemma build_wire_parts:
  assumes "build_wire lb ledger = Inr w"
  obtains action system count h where "sub_block (dget ledger ''action'') = Inr action" "wire_hold lb ledger = Inr h"
    "list_all (\<lambda>k. py_truth (dget ledger k)) wire_required"
    "py_truth (dget action ''verb'')" "py_truth (dget action ''target_environment'')"
    "w = map (\<lambda>k. (k, dget ledger k)) wire_required
           @ [(''action'', JObj ([(''verb'', dget action ''verb''),
                  (''target_environment'', dget action ''target_environment'')]
                @ put_if (py_truth system) ''target_system'' system)),
              (''sig_alg'', JStr sig_alg)]
           @ put_if (int_like count) ''magnitude'' (JObj [(''count'', count)])
           @ put_if (py_truth (dget ledger ''agent_id'')) ''agent_id'' (dget ledger ''agent_id'')
           @ put_if (py_truth (dget ledger ''traceparent'')) ''traceparent'' (dget ledger ''traceparent'')
           @ h"
proof -
  obtain action where a: "sub_block (dget ledger ''action'') = Inr action"
    using assms by (auto simp: build_wire_def py_simps)
  obtain h where h: "wire_hold lb ledger = Inr h"
    using assms by (auto simp: build_wire_def py_simps a Let_def split: if_splits)
  let ?missing = "filter (\<lambda>k. \<not> py_truth (dget ledger k)) wire_required
             @ (if py_truth (dget action ''verb'') then [] else [''action.verb''])
             @ (if py_truth (dget action ''target_environment'') then [] else [''action.target_environment''])"
  have m: "?missing = []" using assms by (auto simp: build_wire_def a Let_def split: if_splits)
  then have "list_all (\<lambda>k. py_truth (dget ledger k)) wire_required" "py_truth (dget action ''verb'')"
    "py_truth (dget action ''target_environment'')"
    by (auto simp: list_all_iff filter_empty_conv split: if_splits)
  with a h m show thesis
    using assms unfolding build_wire_def a h bindE.simps Let_def m
    by (intro that [OF a h]) (auto simp only: simp_thms if_False sum.inject)
qed

lemma wire_required_keys: "fst ` set (map (\<lambda>k. (k, f k)) wire_required) = set wire_required"
  by (auto simp: image_image)

lemma required_skips: "''action'' \<in> set wire_required \<longleftrightarrow> False" "''hold'' \<in> set wire_required \<longleftrightarrow> False"
  by (simp_all add: wire_required_def)

text \<open>The check made on every record before it is sent never fires on one that this module builds.\<close>

lemma build_wire_clean:
  assumes "build_wire lb ledger = Inr w"
  shows "fst ` set w \<subseteq> set wire_fields" "assert_wire_is_spec_clean w = Inr ()"
proof -
  from assms obtain action system count h where h: "wire_hold lb ledger = Inr h"
    and w: "w = map (\<lambda>k. (k, dget ledger k)) wire_required
           @ [(''action'', JObj ([(''verb'', dget action ''verb''),
                  (''target_environment'', dget action ''target_environment'')]
                @ put_if (py_truth system) ''target_system'' system)),
              (''sig_alg'', JStr sig_alg)]
           @ put_if (int_like count) ''magnitude'' (JObj [(''count'', count)])
           @ put_if (py_truth (dget ledger ''agent_id'')) ''agent_id'' (dget ledger ''agent_id'')
           @ put_if (py_truth (dget ledger ''traceparent'')) ''traceparent'' (dget ledger ''traceparent'')
           @ h"
    by (rule build_wire_parts)
  have hk: "fst ` set h \<subseteq> {''hold''}" using wire_hold_clean [OF h] by auto
  have wr: "fst ` (\<lambda>k. (k, dget ledger k)) ` set wire_required = set wire_required" by (auto simp: image_image)
  have "fst ` set w \<subseteq> set wire_required \<union> ({''action'', ''sig_alg''} \<union> ({''magnitude''} \<union> ({''agent_id''}
      \<union> ({''traceparent''} \<union> {''hold''}))))"
    unfolding w set_append image_Un by (intro Un_mono put_if_sub hk) (simp_all add: wr)
  also have "\<dots> \<subseteq> set wire_fields" by (simp add: wire_fields_def wire_required_def)
  finally show sub: "fst ` set w \<subseteq> set wire_fields" .
  have act: "dget w ''action'' = JObj ([(''verb'', dget action ''verb''),
                  (''target_environment'', dget action ''target_environment'')]
                @ put_if (py_truth system) ''target_system'' system)"
    unfolding w by (simp only: dget_append_keys wire_required_keys required_skips if_False dget_Cons fst_conv if_True) simp
  have hld: "dget w ''hold'' = dget h ''hold''"
    unfolding w by (simp only: dget_append_keys wire_required_keys required_skips if_False if_True put_if_keys)
      (simp add: dget_def)
  have a: "only_fields ''action'' wire_action_fields (dget w ''action'') = Inr ()"
    unfolding act by (rule only_fields_obj) (auto simp: wire_action_fields_def put_if_def)
  have r: "only_fields ''record'' wire_fields (JObj w) = Inr ()" using sub by (rule only_fields_obj)
  show "assert_wire_is_spec_clean w = Inr ()"
    using wire_hold_clean [OF h]
  proof
    assume "h = []"
    then have "dget w ''hold'' = JNull" unfolding hld by (simp add: dget_def)
    then show ?thesis by (rule assert_wire_clean(1) [OF r a])
  next
    assume "\<exists>b. h = [(''hold'', JObj b)] \<and> b \<noteq> [] \<and> hold_block_clean b"
    then obtain b where "h = [(''hold'', JObj b)]" "hold_block_clean b" by blast
    then show ?thesis using assert_wire_clean(2) [OF r a] by (simp add: hld dget_Cons)
  qed
qed

text \<open>A record for the evidence wire never carries a field, a resolution or a kind of decider that the closed
  schema does not define: whatever the ledger line, the module either builds a record of the schema's fields or
  fails before its own assertion, which therefore never fires.\<close>

theorem wire_record_is_spec_clean:
  "case wire_record lb ledger of
     Inl e \<Rightarrow> build_wire lb ledger = Inl e
   | Inr w \<Rightarrow> build_wire lb ledger = Inr w \<and> assert_wire_is_spec_clean w = Inr () \<and> fst ` set w \<subseteq> set wire_fields"
proof (cases "build_wire lb ledger")
  case (Inr w)
  then show ?thesis using build_wire_clean [OF Inr] by (simp add: wire_record_def)
qed (simp add: wire_record_def)

end
