(* ===== verification/GatewayEnforce.thy ===== *)
theory GatewayEnforce
  imports GatewayEvidence HookEnvelope
begin

text \<open>
  One proposed tool call, from its envelope to its outcome (\<open>reeflex-litellm/reeflex_litellm\<close>: \<open>vintage.py\<close>,
  \<open>envelope.py\<close>, \<open>enforce.py\<close>). What the network, the clocks and the environment answer during the ruling of one
  call is a \<open>ruling_world\<close>; a ruling is \<open>None\<close> while it is still waiting for a human after its turns.
\<close>

section \<open>The seat\<close>

text \<open>The seat's fixed parts. \<open>se_first\<close> is what the first ruling met of the environment: the canaries are run once
  per process and their result is kept.\<close>

record seat =
  se_lb :: library
  se_gv :: gateway_env
  se_cf :: cred_file
  se_el :: evidence_lib
  se_first :: "hook_env \<times> (string \<Rightarrow> bool)"

record ruling_world =
  rw_stamps :: stamps
  rw_exists :: "string \<Rightarrow> bool"
  rw_decide :: "gateway_request \<Rightarrow> core_reply"
  rw_push :: "signed_request \<Rightarrow> push_reply"
  rw_push_ts :: int
  rw_push_now :: string
  rw_watch :: hold_watch
  rw_turns :: nat
  rw_who :: "gateway_request \<Rightarrow> core_reply"
  rw_ns :: int
  rw_again :: "gateway_request \<Rightarrow> core_reply"
  rw_now :: string

section \<open>The classifier behind the seat\<close>

definition canaries :: "(string \<times> string \<times> bool) list" where
  "canaries =
     [(''chained-and'', ''ls -la /tmp && rm -rf /var/lib/pgsql'', True),
      (''chained-semicolon'', ''cd /tmp; rm -rf /var/lib/pgsql'', True),
      (''subst-dollar-paren'', ''echo $(rm -rf /var/lib/pgsql)'', True),
      (''subst-backtick'', ''echo '' @ [CHR 0x60] @ ''rm -rf /var/lib/pgsql'' @ [CHR 0x60], True),
      (''subst-double-quoted'', ''echo '' @ [CHR 0x22] @ ''cleaning: $(rm -rf /var/lib/pgsql)'' @ [CHR 0x22], True),
      (''subst-process'', ''cat <(rm -rf /var/lib/pgsql)'', True),
      (''not-single-quoted'', ''echo '' @ [CHR 0x27] @ ''$(rm -rf /var/lib/pgsql)'' @ [CHR 0x27], False),
      (''not-read-in-subst'', ''echo $(ls -la /tmp)'', False),
      (''not-build-stamp'', ''echo '' @ [CHR 0x22] @ ''built $(date -u +%F)'' @ [CHR 0x22], False),
      (''not-plain-read'', ''cat /etc/hosts'', False)]"

definition canary_wrong :: "library \<Rightarrow> hook_env \<Rightarrow> (string \<Rightarrow> bool) \<Rightarrow> string \<times> string \<times> bool \<Rightarrow> bool" where
  "canary_wrong lb env exists canary =
     (case canary of (_, command, must_be_delete) \<Rightarrow>
        (case classify lb env exists (JStr ''Bash'') (JObj [(''command'', JStr command)]) of
           Inl _ \<Rightarrow> True
         | Inr c \<Rightarrow> (c_verb c = ''delete'' \<and> c_reversibility c = ''irreversible'') \<noteq> must_be_delete))"

definition failures :: "library \<Rightarrow> hook_env \<Rightarrow> (string \<Rightarrow> bool) \<Rightarrow> string list" where
  "failures lb env exists = map fst (filter (canary_wrong lb env exists) canaries)"

definition assert_usable :: "seat \<Rightarrow> hook_exc + unit" where
  "assert_usable s =
     (case se_first s of (env, exists) \<Rightarrow>
        if failures (se_lb s) env exists = [] then Inr () else Inl (HOther ''StaleClassifier''))"

section \<open>The envelope\<close>

definition agent_prefix :: string where "agent_prefix = ''agent:litellm-gateway''"
definition session_prefix :: string where "session_prefix = ''litellm''"
definition namespace_of_gateway :: string where "namespace_of_gateway = ''litellm-gateway''"

definition gateway_agent_id :: "tenant \<Rightarrow> string \<Rightarrow> string" where
  "gateway_agent_id t model =
     agent_prefix @ ''/'' @ session_scope t @ ''/'' @ (if model = [] then ''unknown'' else model)"

definition gateway_session :: "tenant \<Rightarrow> string \<Rightarrow> string" where
  "gateway_session t session_id = session_prefix @ '':'' @ session_scope t @ '':'' @ session_id"

definition gateway_principal :: "gateway_env \<Rightarrow> tenant \<Rightarrow> json \<Rightarrow> json" where
  "gateway_principal gv t explicit =
     (if py_truth (tn_principal t) then tn_principal t
      else if explicit \<noteq> JNull then explicit
      else case gv_principal gv of None \<Rightarrow> JNull | Some p \<Rightarrow> if p = [] then JNull else JStr p)"

definition gateway_environment :: "library \<Rightarrow> gateway_env \<Rightarrow> tenant \<Rightarrow> string option \<Rightarrow> string" where
  "gateway_environment lb gv t explicit =
     (case tn_environment t of
        Some (c # cs) \<Rightarrow> c # cs
      | _ \<Rightarrow>
         (let raw = (case explicit of Some e \<Rightarrow> e | None \<Rightarrow> env_or (gv_environment gv) ''production'');
              v = lower lb (strip lb raw)
          in if v \<in> set environments then v else ''production''))"

text \<open>Overwriting keys of one block of the envelope.\<close>

definition overlay :: "string \<Rightarrow> dict \<Rightarrow> dict \<Rightarrow> dict" where
  "overlay block entries e = dput block (JObj (fold (\<lambda>(k, v) d. dput k v d) entries (as_obj (dget e block)))) e"

definition gateway_context :: "gateway_call \<Rightarrow> tenant \<Rightarrow> string \<Rightarrow> dict option \<Rightarrow> dict" where
  "gateway_context call t model routing =
     [(''gateway'', JStr ''litellm''),
      (''gateway_model'', JStr (if model = [] then ''unknown'' else model)),
      (''gateway_tool_name'', JStr (gc_gateway_tool call)),
      (''gateway_tool_call_id'', gc_call_id call),
      (''classifier_tool_name'', JStr (gc_tool_name call)),
      (''normalization'', JStr (gc_mapping_source call)),
      (''arguments_parsed'', JBool (gc_arguments_ok call)),
      (''tenancy'', JObj [(''org'', jopt (tn_org t)), (''scope'', JStr (session_scope t)),
         (''matched_on'', jopt (tn_matched_on t))])]
     @ (case routing of None \<Rightarrow> [] | Some r \<Rightarrow> [(''gateway_routing'', JObj r)])"

text \<open>What the gateway lays over the envelope that the classifier's own builder made.\<close>

definition lay_over ::
  "library \<Rightarrow> gateway_env \<Rightarrow> gateway_call \<Rightarrow> tenant \<Rightarrow> string \<Rightarrow> string \<Rightarrow> json \<Rightarrow> string option \<Rightarrow> dict option
     \<Rightarrow> dict \<Rightarrow> dict" where
  "lay_over lb gv call t session_id model party environment routing e =
     overlay ''context'' (gateway_context call t model routing)
       (overlay ''params'' [(''gateway'', JStr ''litellm''), (''gateway_tool'', JStr (gc_gateway_tool call))]
         (overlay ''target'' [(''environment'', JStr (gateway_environment lb gv t environment))]
           (overlay ''action'' [(''namespace'', JStr namespace_of_gateway),
                (''ability'', JStr (''litellm/'' @ gc_gateway_tool call))]
             (overlay ''agent'' [(''id'', JStr (gateway_agent_id t model)),
                  (''session_id'', JStr (gateway_session t session_id)),
                  (''on_behalf_of'', gateway_principal gv t party)] e))))"

record asked =
  as_session :: string
  as_model :: string
  as_principal :: json
  as_environment :: "string option"
  as_hold_wait :: "pyfloat option"
  as_routing :: "dict option"

definition build_gateway_envelope ::
  "seat \<Rightarrow> ruling_world \<Rightarrow> asked \<Rightarrow> tenant \<Rightarrow> gateway_call \<Rightarrow> hook_exc + dict" where
  "build_gateway_envelope s w a t call =
     (let lb = se_lb s; gv = se_gv s
      in bindE (assert_usable s) (\<lambda>_.
         bindE (seat_classify lb gv (rw_exists w) call) (\<lambda>cls.
         bindE (build_envelope lb (gv_hook gv) (rw_stamps w)
             [(''session_id'', JStr (as_session a)), (''tool_name'', JStr (gc_tool_name call)),
              (''tool_input'', JObj (gc_tool_input call))] cls) (\<lambda>e.
           Inr (lay_over lb gv call t (as_session a) (as_model a) (as_principal a) (as_environment a) (as_routing a) e)))))"

text \<open>The envelope that asks again with an approval: the same one with a new nonce.\<close>

definition with_approval :: "library \<Rightarrow> int \<Rightarrow> dict \<Rightarrow> json \<Rightarrow> string option \<Rightarrow> hook_exc + dict" where
  "with_approval lb ns envelope hold_id approver =
     (let out = dput ''approval'' (JObj [(''present'', JBool True), (''hold_id'', hold_id), (''by'', jopt approver),
            (''role'', case approver of None \<Rightarrow> JNull | Some a \<Rightarrow> if a = [] then JNull else JStr ''human'')]) envelope;
          prev = or_else (dget (as_obj (dget out ''meta'')) ''nonce'') (JStr [])
      in bindE (make_nonce lb (join_with '':'' [py_str (lb_ucd lb) prev, py_str (lb_ucd lb) hold_id, str_int ns])) (\<lambda>nonce.
           Inr (overlay ''meta'' [(''nonce'', JStr nonce)] out)))"

section \<open>Outcomes\<close>

definition refusal :: "gateway_call \<Rightarrow> string \<Rightarrow> json \<Rightarrow> string \<Rightarrow> json \<Rightarrow> dict" where
  "refusal call error rule reason hold_id =
     [(''error'', JStr error), (''rule'', rule), (''reason'', JStr reason), (''tool_call_id'', gc_call_id call),
      (''tool'', JStr (gc_gateway_tool call)), (''stage'', JStr stage_refused)]
     @ put_if (py_truth hold_id) ''hold_id'' hold_id"

definition released :: "gateway_verdict \<Rightarrow> outcome" where
  "released v =
     \<lparr>oc_allowed = True, oc_refusal = None, oc_verdict = Some v, oc_hold_id = JNull, oc_released_after_approval = False,
      oc_ledger = None, oc_hold_announced = None, oc_hold_decision = None, oc_parent_decision_id = JNull\<rparr>"

definition refused :: "dict \<Rightarrow> gateway_verdict option \<Rightarrow> outcome" where
  "refused r v =
     \<lparr>oc_allowed = False, oc_refusal = Some r, oc_verdict = v, oc_hold_id = JNull, oc_released_after_approval = False,
      oc_ledger = None, oc_hold_announced = None, oc_hold_decision = None, oc_parent_decision_id = JNull\<rparr>"

definition error_unmapped :: string where "error_unmapped = ''reeflex_tenant_unmapped''"
definition rule_unmapped :: string where "rule_unmapped = ''reeflex.litellm/tenancy_unmapped''"

definition refuse_unmapped_tenant :: "gateway_call \<Rightarrow> string \<Rightarrow> outcome" where
  "refuse_unmapped_tenant call reason =
     refused (refusal call error_unmapped (JStr rule_unmapped) reason JNull) None"

definition announce_note :: "library \<Rightarrow> string \<Rightarrow> string \<Rightarrow> string" where
  "announce_note lb announced detail =
     (if announced = announce_sent then ''The hold was delivered to the approval inbox. ''
      else if announced = announce_failed
      then ''NOTE: the hold could NOT be delivered to the approval inbox (''
             @ truncated 120 (if strip lb detail = [] then ''no detail'' else strip lb detail)
             @ ''), so nobody may have been asked -- this is a gateway configuration problem, not a human declining. ''
      else ''NOTE: no approval inbox is configured on this gateway, so the hold exists in reeflex-core and was not delivered anywhere a human is watching. '')"

section \<open>Deciding one call\<close>

definition fail_rule_json :: json where "fail_rule_json = JStr fail_rule"

text \<open>Every refusal after a hold was raised names it.\<close>

definition held_back ::
  "gateway_call \<Rightarrow> string \<Rightarrow> json \<Rightarrow> string \<Rightarrow> json \<Rightarrow> string \<Rightarrow> gateway_verdict \<Rightarrow> outcome" where
  "held_back call error rule reason hold_id announced v =
     (refused (refusal call error rule reason hold_id) (Some v))
       \<lparr>oc_hold_id := hold_id, oc_hold_announced := Some announced\<rparr>"

definition decided_by_whom :: "dict option \<Rightarrow> gateway_verdict \<Rightarrow> outcome \<Rightarrow> outcome" where
  "decided_by_whom decision v out = out\<lparr>oc_hold_decision := decision, oc_parent_decision_id := gk_decision_id v\<rparr>"

definition resubmit_approved ::
  "seat \<Rightarrow> ruling_world \<Rightarrow> gateway_call \<Rightarrow> dict \<Rightarrow> gateway_verdict \<Rightarrow> string \<Rightarrow> dict option
     \<Rightarrow> hook_exc + outcome" where
  "resubmit_approved s w call envelope v announced decision =
     (let approver = (case gv_approver (se_gv s) of None \<Rightarrow> None | Some a \<Rightarrow> if a = [] then None else Some a)
      in bindE (with_approval (se_lb s) (rw_ns w) envelope (gk_hold_id v) approver) (\<lambda>again.
         bindE (gateway_decide (se_lb s) (se_gv s) (se_cf s) (rw_again w) again) (\<lambda>second.
           Inr (decided_by_whom decision v
             (if gk_kind second = ''allow''
              then (released second)\<lparr>oc_released_after_approval := True, oc_hold_id := gk_hold_id v,
                     oc_hold_announced := Some announced\<rparr>
              else held_back call (if gk_reachable second then ''reeflex_denied'' else ''reeflex_unavailable'')
                     (gk_rule second)
                     (''Reeflex: a human approved this action but core refused the resubmission, so it is not released. ''
                      @ gk_reason second) (gk_hold_id v) announced second)))))"

text \<open>What a status of the hold comes to.\<close>

definition settled_hold ::
  "seat \<Rightarrow> ruling_world \<Rightarrow> gateway_call \<Rightarrow> dict \<Rightarrow> gateway_verdict \<Rightarrow> string \<Rightarrow> string \<Rightarrow> string
     \<Rightarrow> hook_exc + outcome" where
  "settled_hold s w call envelope v announced detail status =
     (let kept = (\<lambda>error reason. held_back call error (gk_rule v) reason (gk_hold_id v) announced v)
      in bindE (if status \<in> set [''approved'', ''rejected'', ''expired'', ''consumed'']
            then hold_decision (se_lb s) (se_gv s) (rw_who w) (gk_hold_id v) else Inr None) (\<lambda>decision.
       if status = ''pending''
       then Inr (kept ''reeflex_hold_timeout''
         (''Reeflex: this action needs human approval. No decision arrived within the gateway'' @ [CHR 0x27]
          @ ''s wait window, so the call is refused for now. The hold is still open -- retry after a human resolves it. ''
          @ announce_note (se_lb s) announced detail @ gk_reason v))
       else if status = ''rejected''
       then Inr (decided_by_whom decision v (kept ''reeflex_rejected''
         (''Reeflex: a human reviewed this action and rejected it. '' @ gk_reason v)))
       else if status \<in> set [''expired'', ''consumed'']
       then Inr (decided_by_whom decision v (kept ''reeflex_hold_expired''
         (''Reeflex: the approval hold for this action is '' @ status @ '', so the call is refused. '' @ gk_reason v)))
       else if status \<noteq> ''approved''
       then Inr (decided_by_whom decision v (kept ''reeflex_hold_unreadable''
         (''Reeflex: the approval hold for this action reported an unrecognized status ''
          @ lb_repr (se_lb s) (JStr status) @ '', which is not an approval -- refused. '' @ gk_reason v)))
       else resubmit_approved s w call envelope v announced decision))"

text \<open>Asking the human, then waiting for the answer.\<close>

definition wait_for_human ::
  "seat \<Rightarrow> ruling_world \<Rightarrow> pyfloat option \<Rightarrow> tenant \<Rightarrow> gateway_call \<Rightarrow> dict \<Rightarrow> gateway_verdict
     \<Rightarrow> (hook_exc + outcome) option" where
  "wait_for_human s w hold_wait t call envelope v =
     (case announce_hold (se_lb s) (se_gv s) (se_el s) (rw_push w) (rw_push_ts w) (rw_push_now w) envelope v t of
        Inl e \<Rightarrow> Some (Inl e)
      | Inr (announced, detail) \<Rightarrow>
          (case await_hold (rw_turns w) (se_lb s) (se_gv s) (rw_watch w) (gk_hold_id v) hold_wait of
             None \<Rightarrow> None
           | Some (Inl e) \<Rightarrow> Some (Inl e)
           | Some (Inr (Inl err)) \<Rightarrow> Some (Inr (held_back call ''reeflex_hold_unreadable'' (gk_rule v)
               (''Reeflex: this action needs human approval and the hold could not be read, so it is refused: '' @ err)
               (gk_hold_id v) announced v))
           | Some (Inr (Inr status)) \<Rightarrow> Some (settled_hold s w call envelope v announced detail status)))"

definition decide_and_enforce ::
  "seat \<Rightarrow> ruling_world \<Rightarrow> pyfloat option \<Rightarrow> tenant \<Rightarrow> gateway_call \<Rightarrow> dict \<Rightarrow> (hook_exc + outcome) option" where
  "decide_and_enforce s w hold_wait t call envelope =
     (case gateway_decide (se_lb s) (se_gv s) (se_cf s) (rw_decide w) envelope of
        Inl e \<Rightarrow> Some (Inl e)
      | Inr v \<Rightarrow>
          if gk_kind v = ''allow'' then Some (Inr (released v))
          else if gk_kind v = ''deny''
          then Some (Inr (refused (refusal call
                 (if gk_reachable v then ''reeflex_denied'' else ''reeflex_unavailable'') (gk_rule v) (gk_reason v) JNull)
                 (Some v)))
          else if \<not> py_truth (gk_hold_id v)
          then Some (Inr (refused (refusal call ''reeflex_unavailable'' (gk_rule v)
                 (''Reeflex: this action needs human approval but core returned no hold id, so no approval can be recorded against it -- refused. ''
                  @ gk_reason v) JNull) (Some v)))
          else wait_for_human s w hold_wait t call envelope v)"

text \<open>The line of the ledger is written from the outcome; a line that cannot be built changes nothing.\<close>

definition with_ledger :: "seat \<Rightarrow> ruling_world \<Rightarrow> asked \<Rightarrow> tenant \<Rightarrow> gateway_call \<Rightarrow> dict \<Rightarrow> outcome \<Rightarrow> outcome" where
  "with_ledger s w a t call envelope out =
     out\<lparr>oc_ledger := (case ledger_record (se_el s) (rw_now w) envelope
            (case as_routing a of None \<Rightarrow> [] | Some r \<Rightarrow> r) call t out of Inl _ \<Rightarrow> None | Inr d \<Rightarrow> Some d)\<rparr>"

definition unbuilt :: "seat \<Rightarrow> gateway_call \<Rightarrow> hook_exc \<Rightarrow> outcome" where
  "unbuilt s call e =
     refused (refusal call ''reeflex_unavailable'' fail_rule_json
       (''Reeflex: could not build an action envelope for this tool call, so it was not ruled on and is refused: ''
        @ truncated 200 (el_say (se_el s) (EvidenceOther e))) JNull) None"

definition rule_one_call ::
  "seat \<Rightarrow> ruling_world \<Rightarrow> asked \<Rightarrow> tenant \<Rightarrow> gateway_call \<Rightarrow> (hook_exc + outcome) option" where
  "rule_one_call s w a t call =
     (case build_gateway_envelope s w a t call of
        Inl e \<Rightarrow> Some (Inr (unbuilt s call e))
      | Inr envelope \<Rightarrow>
          (case decide_and_enforce s w (as_hold_wait a) t call envelope of
             None \<Rightarrow> None
           | Some (Inl e) \<Rightarrow> Some (Inl e)
           | Some (Inr out) \<Rightarrow> Some (Inr (with_ledger s w a t call envelope out))))"

section \<open>What a release rests on\<close>

text \<open>The engine's answer to an envelope, over the wire of one exchange.\<close>

definition engine_answer :: "seat \<Rightarrow> (gateway_request \<Rightarrow> core_reply) \<Rightarrow> dict \<Rightarrow> dict option" where
  "engine_answer s net envelope =
     answered (se_lb s) (net (gateway_request_for (se_lb s) (se_gv s) ''POST'' ''/v1/decide'' (Some envelope)))"

definition engine_says :: "seat \<Rightarrow> (gateway_request \<Rightarrow> core_reply) \<Rightarrow> dict \<Rightarrow> string \<Rightarrow> bool" where
  "engine_says s net envelope word \<longleftrightarrow>
     map_option (\<lambda>d. dget d ''decision'') (engine_answer s net envelope) = Some (JStr word)"

lemma read_http_answered:
  "read_http lb reply = Inr (status, JObj d) \<Longrightarrow> map_of d ''decision'' \<noteq> None \<Longrightarrow> answered lb reply = Some d"
  by (auto simp: read_http_def answered_def Let_def split: core_reply.splits option.splits sum.splits)

lemma dget_or_decision: "map_of d ''decision'' \<noteq> None \<Longrightarrow> dget_or d ''decision'' x = dget d ''decision''"
  by (auto simp: dget_or_def dget_def split: option.splits)

lemma permission_for_Some:
  "permission_for j = Some p \<Longrightarrow> (p, j) \<in> {(''allow'', JStr ''allow''), (''deny'', JStr ''deny''), (''ask'', JStr ''require_approval'')}"
  by (cases j) (auto split: if_splits)

lemma gateway_decide_rests:
  assumes "gateway_decide lb gv cf net e = Inr v" "gk_kind v \<noteq> ''deny''"
  obtains d where "answered lb (net (gateway_request_for lb gv ''POST'' ''/v1/decide'' (Some e))) = Some d"
    "(gk_kind v, dget d ''decision'') \<in> {(''allow'', JStr ''allow''), (''ask'', JStr ''require_approval'')}"
    "gk_hold_id v = dget d ''hold_id''"
proof -
  let ?rq = "gateway_request_for lb gv ''POST'' ''/v1/decide'' (Some e)"
  obtain answer where a: "read_http lb (net ?rq) = answer" "read_decision lb gv cf answer = Inr v"
    using assms(1) by (auto simp: gateway_decide_def ask_core_def Let_def py_simps split: option.splits)
  then obtain status d where d: "answer = Inr (status, JObj d)" "map_of d ''decision'' \<noteq> None"
    "map_verdict lb gv cf status d = Inr v"
    using assms(2)
    by (auto simp: read_decision_def gateway_fail_closed_def split: sum.splits prod.splits json.splits if_splits)
  from d(3) obtain p where "permission_for (dget_or d ''decision'' (JStr [])) = Some p" "gk_kind v = p"
    "gk_hold_id v = dget d ''hold_id''"
    using assms(2) by (auto simp: map_verdict_def Let_def py_simps split: option.splits)
  with permission_for_Some [of "dget_or d ''decision'' (JStr [])"] assms(2) dget_or_decision [OF d(2)]
    read_http_answered [of lb "net ?rq" status d] a d
  show thesis by (intro that) auto
qed

text \<open>Nothing but the approval and the meta block differs.\<close>

definition same_but_approval :: "dict \<Rightarrow> dict \<Rightarrow> bool" where
  "same_but_approval e e' \<longleftrightarrow> (\<forall>k. k = ''approval'' \<or> k = ''meta'' \<or> map_of e' k = map_of e k)"

lemma with_approval_same: "with_approval lb ns e hold_id approver = Inr e' \<Longrightarrow> same_but_approval e e'"
  by (auto simp: with_approval_def Let_def py_simps same_but_approval_def overlay_def split: if_splits)

lemma same_but_approval_hash:
  assumes "same_but_approval e e'"
  shows "canonical_hash digest e' = canonical_hash digest e"
proof -
  have "map_of e' k = map_of e k" if "k \<in> set hash_allowlist" for k
  proof -
    have "list_all (\<lambda>k. k \<noteq> ''approval'' \<and> k \<noteq> ''meta'') hash_allowlist" by (simp add: hash_allowlist_def)
    with that have "k \<noteq> ''approval''" "k \<noteq> ''meta''" by (auto simp only: list_all_iff)
    then show ?thesis using assms unfolding same_but_approval_def by blast
  qed
  then have "projection e' = projection e"
    unfolding projection_def List.map_filter_def by (intro map_cong filter_cong) simp_all
  then show ?thesis by (simp add: canonical_hash_def)
qed

text \<open>An approval that releases a call: the engine asked for it, the hold it named was read as approved, and the
  engine allowed the same action again.\<close>

definition approved_and_allowed :: "seat \<Rightarrow> ruling_world \<Rightarrow> dict \<Rightarrow> bool" where
  "approved_and_allowed s w e \<longleftrightarrow>
     (\<exists>d n ns approver e'. engine_answer s (rw_decide w) e = Some d \<and> dget d ''decision'' = JStr ''require_approval''
        \<and> get_hold_status (se_lb s) (se_gv s) (hw_reply (rw_watch w) n) (dget d ''hold_id'') = Inr (Inr ''approved'')
        \<and> with_approval (se_lb s) ns e (dget d ''hold_id'') approver = Inr e'
        \<and> same_but_approval e e'
        \<and> canonical_hash (el_digest (se_el s)) e' = canonical_hash (el_digest (se_el s)) e
        \<and> engine_says s (rw_again w) e' ''allow'')"

lemma await_loop_status:
  "await_loop turns lb gv w hold_id limit n = Some (Inr (Inr status)) \<Longrightarrow>
     \<exists>k. get_hold_status lb gv (hw_reply w k) hold_id = Inr (Inr status)"
proof (induction turns arbitrary: n)
  case (Suc turns)
  then show ?case by (auto split: sum.splits if_splits option.splits)
qed simp

lemma outcome_sel [simp]:
  "oc_allowed (released v)" "\<not> oc_allowed (refused r ov)" "\<not> oc_allowed (held_back call er ru re h an v)"
  "oc_allowed (decided_by_whom d v out) = oc_allowed out"
  by (simp_all add: released_def refused_def held_back_def decided_by_whom_def)

lemma last_branch:
  assumes "(if b1 then Inr x1 else if b2 then Inr x2 else if b3 then Inr x3 else if b4 then Inr x4 else r) = Inr out"
    "P out" "\<not> P x1" "\<not> P x2" "\<not> P x3" "\<not> P x4"
  shows "\<not> b4 \<and> r = Inr out"
  using assms by (auto split: if_splits)

lemma settled_allowed:
  assumes "settled_hold s w call e v announced detail status = Inr out" "oc_allowed out"
  shows "status = ''approved'' \<and> (\<exists>decision. resubmit_approved s w call e v announced decision = Inr out)"
  using assms(1) unfolding settled_hold_def Let_def bindE_Inr_iff
  by - (elim exE conjE, drule last_branch [where P = oc_allowed, OF _ assms(2)],
      simp_all only: outcome_sel not_False_eq_True not_not, blast)

lemma resubmit_allowed:
  assumes "resubmit_approved s w call e v announced decision = Inr out" "oc_allowed out"
  obtains approver e' where "with_approval (se_lb s) (rw_ns w) e (gk_hold_id v) approver = Inr e'"
    "engine_says s (rw_again w) e' ''allow''"
proof -
  obtain approver e' second where a: "with_approval (se_lb s) (rw_ns w) e (gk_hold_id v) approver = Inr e'"
    and g: "gateway_decide (se_lb s) (se_gv s) (se_cf s) (rw_again w) e' = Inr second" and k: "gk_kind second = ''allow''"
    using assms unfolding resubmit_approved_def Let_def bindE_Inr_iff
    by (elim exE conjE) (auto split: if_splits)
  from k have "gk_kind second \<noteq> ''deny''" by simp
  from gateway_decide_rests [OF g this] obtain d where
    "answered (se_lb s) (rw_again w (gateway_request_for (se_lb s) (se_gv s) ''POST'' ''/v1/decide'' (Some e'))) = Some d"
    "(gk_kind second, dget d ''decision'') \<in> {(''allow'', JStr ''allow''), (''ask'', JStr ''require_approval'')}" .
  with k have "engine_says s (rw_again w) e' ''allow''" by (simp add: engine_says_def engine_answer_def)
  with a show thesis by (rule that)
qed

lemma decide_and_enforce_allowed:
  assumes "decide_and_enforce s w hold_wait t call e = Some (Inr out)" "oc_allowed out"
  shows "engine_says s (rw_decide w) e ''allow'' \<or> approved_and_allowed s w e"
proof -
  obtain v where g: "gateway_decide (se_lb s) (se_gv s) (se_cf s) (rw_decide w) e = Inr v"
    using assms by (auto simp: decide_and_enforce_def split: sum.splits)
  have nd: "gk_kind v \<noteq> ''deny''" using assms by (auto simp: decide_and_enforce_def g)
  from gateway_decide_rests [OF g nd] obtain d where
    d: "engine_answer s (rw_decide w) e = Some d"
    "(gk_kind v, dget d ''decision'') \<in> {(''allow'', JStr ''allow''), (''ask'', JStr ''require_approval'')}"
    "gk_hold_id v = dget d ''hold_id''"
    unfolding engine_answer_def .
  show ?thesis
  proof (cases "gk_kind v = ''allow''")
    case True
    then show ?thesis using d by (simp add: engine_says_def)
  next
    case False
    then have ask: "dget d ''decision'' = JStr ''require_approval''" using d by simp
    have "wait_for_human s w hold_wait t call e v = Some (Inr out)"
      using assms False nd by (auto simp: decide_and_enforce_def g split: if_splits)
    then obtain announced detail status where
      aw: "await_hold (rw_turns w) (se_lb s) (se_gv s) (rw_watch w) (gk_hold_id v) hold_wait = Some (Inr (Inr status))"
      and st: "settled_hold s w call e v announced detail status = Inr out"
      using assms(2) by (auto simp: wait_for_human_def split: sum.splits prod.splits option.splits)
    from settled_allowed [OF st assms(2)] obtain decision where sa: "status = ''approved''"
      "resubmit_approved s w call e v announced decision = Inr out" by blast
    from resubmit_allowed [OF sa(2) assms(2)] obtain approver e' where
      r: "with_approval (se_lb s) (rw_ns w) e (gk_hold_id v) approver = Inr e'" "engine_says s (rw_again w) e' ''allow''" .
    from aw await_loop_status obtain n where
      "get_hold_status (se_lb s) (se_gv s) (hw_reply (rw_watch w) n) (gk_hold_id v) = Inr (Inr ''approved'')"
      unfolding await_hold_def sa(1) by blast
    with d(1) ask r with_approval_same [OF r(1)] same_but_approval_hash [OF with_approval_same [OF r(1)]]
    show ?thesis unfolding approved_and_allowed_def d(3) by blast
  qed
qed

definition is_refused :: "outcome \<Rightarrow> bool" where
  "is_refused out \<longleftrightarrow> \<not> oc_allowed out"

text \<open>C7: a gateway releases a proposed tool call only on the word of the engine. Either the engine answered
  \<open>allow\<close> to the envelope built from this very call, or it asked for approval, the hold it named was read as
  approved, and it then answered \<open>allow\<close> to the same envelope with nothing changed but the approval and the
  meta block, so that the hash the hold is bound to is the same. A hold's status alone releases nothing, and
  neither does anything the network does.\<close>

theorem released_call_was_allowed:
  "case rule_one_call s w a t call of
     Some (Inr out) \<Rightarrow> is_refused out \<or> (\<exists>e. build_gateway_envelope s w a t call = Inr e
       \<and> (engine_says s (rw_decide w) e ''allow'' \<or> approved_and_allowed s w e))
   | _ \<Rightarrow> True"
proof (cases "rule_one_call s w a t call")
  case (Some r)
  show ?thesis
  proof (cases r)
    case (Inr out)
    have "\<exists>e. build_gateway_envelope s w a t call = Inr e
       \<and> (engine_says s (rw_decide w) e ''allow'' \<or> approved_and_allowed s w e)" if "oc_allowed out"
    proof (cases "build_gateway_envelope s w a t call")
      case (Inl e)
      then show ?thesis using that Some Inr by (auto simp: rule_one_call_def unbuilt_def)
    next
      fix e assume b: "build_gateway_envelope s w a t call = Inr e"
      then obtain out' where d: "decide_and_enforce s w (as_hold_wait a) t call e = Some (Inr out')"
        "out = with_ledger s w a t call e out'"
        using Some Inr by (auto simp: rule_one_call_def split: option.splits sum.splits)
      then show ?thesis
        using that b decide_and_enforce_allowed [OF d(1)] by (auto simp: with_ledger_def)
    qed
    then show ?thesis using Some Inr by (auto simp: is_refused_def)
  qed (simp add: Some)
qed simp

section \<open>What is recorded\<close>

lemma dget_overlay:
  "dget (overlay b entries e) k =
     (if k = b then JObj (fold (\<lambda>(k, v) d. dput k v d) entries (as_obj (dget e b))) else dget e k)"
  by (simp add: overlay_def dget_def)

lemma lay_over_blocks:
  "dget (lay_over lb gv call t sid model party en routing e) ''agent'' =
     JObj (dput ''on_behalf_of'' (gateway_principal gv t party) (dput ''session_id'' (JStr (gateway_session t sid))
       (dput ''id'' (JStr (gateway_agent_id t model)) (as_obj (dget e ''agent'')))))"
  "\<exists>d. dget (lay_over lb gv call t sid model party en routing e) ''action'' = JObj d"
  "\<exists>d. dget (lay_over lb gv call t sid model party en routing e) ''target'' = JObj d"
  by (simp_all add: lay_over_def dget_overlay)

text \<open>The facts a line of the ledger states of the call it records.\<close>

definition ledger_true :: "evidence_lib \<Rightarrow> asked \<Rightarrow> tenant \<Rightarrow> dict \<Rightarrow> outcome \<Rightarrow> dict \<Rightarrow> bool" where
  "ledger_true el a t e out d \<longleftrightarrow>
     dget d ''enforcement_stage'' = JStr (if oc_allowed out then stage_allowed else stage_refused)
     \<and> dget d ''prevents_execution'' = JBool False
     \<and> dget d ''envelope_hash'' = JStr (canonical_hash (el_digest el) e)
     \<and> dget d ''agent_id'' = JStr (gateway_agent_id t (as_model a))
     \<and> dget d ''session_id'' = JStr (gateway_session t (as_session a))
     \<and> dget d ''tenant_org'' = jopt (tn_org t)
     \<and> dget d ''hold_id'' = oc_hold_id out"

lemma ledger_record_true:
  assumes "dget e ''agent'' = JObj agent" "dget agent ''id'' = JStr (gateway_agent_id t (as_model a))"
    "dget agent ''session_id'' = JStr (gateway_session t (as_session a))"
    "dget e ''action'' = JObj action" "dget e ''target'' = JObj target"
  shows "\<exists>d. ledger_record el now e routing call t out = Inr d \<and> ledger_true el a t e out d"
proof -
  have "assert_never_claims_prevention (if oc_allowed out then stage_allowed else stage_refused) = Inr ()"
    by (simp add: assert_never_claims_prevention_def stages_this_seat_can_emit_def)
  then show ?thesis
    unfolding ledger_record_def Let_def assms(1,4,5) sub_block_JObj bindE.simps sum.case
    by (simp only: bindE.simps sum.case sum.inject ledger_true_def ex_simps simp_thms dget_Cons fst_conv)
      (simp add: assms envelope_hash_is_the_engines dget_Cons)
qed

lemma built_blocks:
  assumes "build_gateway_envelope s w a t call = Inr e"
  obtains agent action target where "dget e ''agent'' = JObj agent"
    "dget agent ''id'' = JStr (gateway_agent_id t (as_model a))"
    "dget agent ''session_id'' = JStr (gateway_session t (as_session a))"
    "dget e ''action'' = JObj action" "dget e ''target'' = JObj target"
proof -
  obtain e0 where e0: "e = lay_over (se_lb s) (se_gv s) call t (as_session a) (as_model a) (as_principal a)
      (as_environment a) (as_routing a) e0"
    using assms by (auto simp: build_gateway_envelope_def Let_def py_simps)
  obtain action target where "dget e ''action'' = JObj action" "dget e ''target'' = JObj target"
    using lay_over_blocks(2,3) [of "se_lb s" "se_gv s" call t "as_session a" "as_model a" "as_principal a"
      "as_environment a" "as_routing a" e0]
    unfolding e0 by blast
  moreover have ag: "dget e ''agent'' = JObj (dput ''on_behalf_of'' (gateway_principal (se_gv s) t (as_principal a))
      (dput ''session_id'' (JStr (gateway_session t (as_session a)))
         (dput ''id'' (JStr (gateway_agent_id t (as_model a))) (as_obj (dget e0 ''agent'')))))"
    unfolding e0 by (rule lay_over_blocks)
  ultimately show thesis by (intro that [OF ag]) simp_all
qed

lemma with_ledger_true:
  assumes "build_gateway_envelope s w a t call = Inr e"
  shows "\<exists>d. oc_ledger (with_ledger s w a t call e out) = Some d
    \<and> ledger_true (se_el s) a t e (with_ledger s w a t call e out) d"
proof -
  from assms obtain agent action target where b: "dget e ''agent'' = JObj agent"
    "dget agent ''id'' = JStr (gateway_agent_id t (as_model a))"
    "dget agent ''session_id'' = JStr (gateway_session t (as_session a))"
    "dget e ''action'' = JObj action" "dget e ''target'' = JObj target" by (rule built_blocks)
  from ledger_record_true [OF b, of "se_el s" "rw_now w" "case as_routing a of None \<Rightarrow> [] | Some r \<Rightarrow> r" call out]
  show ?thesis by (auto simp: with_ledger_def ledger_true_def)
qed

text \<open>Every call that was ruled on leaves a line in the seat's ledger, and the line is true: its stage is what the
  caller got, released or refused at the gateway, it never claims that an execution was prevented, its hash is the
  one the engine binds a hold of this envelope to, and its agent and session are those of the caller's
  organisation.\<close>

theorem ledger_tells_what_happened:
  "case (build_gateway_envelope s w a t call, rule_one_call s w a t call) of
     (Inr e, Some (Inr out)) \<Rightarrow>
       (case oc_ledger out of None \<Rightarrow> False | Some d \<Rightarrow> ledger_true (se_el s) a t e out d)
   | _ \<Rightarrow> True"
proof (cases "build_gateway_envelope s w a t call")
  case built: (Inr e)
  show ?thesis
  proof (cases "decide_and_enforce s w (as_hold_wait a) t call e")
    case (Some r)
    show ?thesis
    proof (cases r)
      case (Inr out)
      from with_ledger_true [OF built, of out] obtain d where
        "oc_ledger (with_ledger s w a t call e out) = Some d"
        "ledger_true (se_el s) a t e (with_ledger s w a t call e out) d" by blast
      then show ?thesis by (simp add: rule_one_call_def built Some Inr)
    qed (simp add: rule_one_call_def built Some)
  qed (simp add: rule_one_call_def built)
qed simp

section \<open>A refusal says what it is\<close>

definition proper_outcome :: "gateway_call \<Rightarrow> outcome \<Rightarrow> bool" where
  "proper_outcome call out \<longleftrightarrow>
     (case oc_refusal out of
        None \<Rightarrow> oc_allowed out
      | Some r \<Rightarrow> \<not> oc_allowed out \<and> dget r ''stage'' = JStr stage_refused \<and> dget r ''tool_call_id'' = gc_call_id call)"

lemma refusal_fields [simp]:
  "dget (refusal call er ru re h) ''stage'' = JStr stage_refused"
  "dget (refusal call er ru re h) ''tool_call_id'' = gc_call_id call"
  by (simp_all add: refusal_def dget_Cons)

lemma proper_outcome_rules [simp]:
  "proper_outcome call (released v)" "proper_outcome call (refused (refusal call er ru re h) ov)"
  "proper_outcome call (held_back call er ru re h an v)"
  "proper_outcome call (decided_by_whom d v out) = proper_outcome call out"
  "proper_outcome call (with_ledger s w a t c e out) = proper_outcome call out"
  "proper_outcome call (unbuilt s call x)"
  by (simp_all add: proper_outcome_def released_def refused_def held_back_def decided_by_whom_def with_ledger_def unbuilt_def
      split: option.split)

lemma proper_released [simp]:
  "proper_outcome call (released v\<lparr>oc_released_after_approval := x, oc_hold_id := y, oc_hold_announced := z\<rparr>)"
  by (simp add: proper_outcome_def released_def)

lemma resubmit_proper:
  "resubmit_approved s w call e v announced decision = Inr out \<Longrightarrow> proper_outcome call out"
  unfolding resubmit_approved_def Let_def bindE_Inr_iff by (auto split: if_splits)

lemma settled_proper:
  assumes "settled_hold s w call e v announced detail status = Inr out"
  shows "proper_outcome call out"
proof (rule ccontr)
  assume n: "\<not> proper_outcome call out"
  from assms have "\<exists>decision. resubmit_approved s w call e v announced decision = Inr out"
    unfolding settled_hold_def Let_def bindE_Inr_iff
    by - (elim exE conjE, drule last_branch [where P = "\<lambda>x. \<not> proper_outcome call x", OF _ n],
      simp_all only: proper_outcome_rules not_False_eq_True not_not, blast)
  with n show False using resubmit_proper by blast
qed

lemma decide_and_enforce_proper:
  "decide_and_enforce s w hold_wait t call e = Some (Inr out) \<Longrightarrow> proper_outcome call out"
  by (auto simp: decide_and_enforce_def wait_for_human_def settled_proper
      split: sum.splits if_splits prod.splits option.splits)

lemma ruled_proper: "rule_one_call s w a t call = Some (Inr out) \<Longrightarrow> proper_outcome call out"
  by (auto simp: rule_one_call_def decide_and_enforce_proper split: sum.splits option.splits)

section \<open>A ruling ends\<close>

definition sample_evidence_lib :: evidence_lib where
  "sample_evidence_lib = \<lparr>el_digest = (\<lambda>_. ''digest''), el_body = (\<lambda>_. Inr ''[]''), el_hmac = (\<lambda>_ _. ''mac''),
     el_say = (\<lambda>_. ''error'')\<rparr>"

definition sample_seat :: seat where
  "sample_seat = \<lparr>se_lb = sample_gateway_library, se_gv = sample_gateway_env, se_cf = NoFile, se_el = sample_evidence_lib,
     se_first = (sample_hook_env, \<lambda>_. False)\<rparr>"

definition sample_watch :: hold_watch where
  "sample_watch = \<lparr>hw_reply = (\<lambda>_ _. NetError ''down''), hw_start = 0, hw_now = (\<lambda>k. of_nat k / 20),
     hw_later = (\<lambda>k. of_nat k / 20)\<rparr>"

definition sample_ruling_world :: ruling_world where
  "sample_ruling_world = \<lparr>rw_stamps = \<lparr>st_now = ''t'', st_monotonic_ns = 7\<rparr>, rw_exists = (\<lambda>_. False),
     rw_decide = (\<lambda>_. NetError ''down''), rw_push = (\<lambda>_. PushRaised ''down''), rw_push_ts = 0, rw_push_now = ''t'',
     rw_watch = sample_watch, rw_turns = 21, rw_who = (\<lambda>_. NetError ''down''), rw_ns = 8,
     rw_again = (\<lambda>_. NetError ''down''), rw_now = ''t''\<rparr>"

definition sample_asked :: asked where
  "sample_asked = \<lparr>as_session = ''s1'', as_model = ''m'', as_principal = JNull, as_environment = None,
     as_hold_wait = Some (Fin 1), as_routing = None\<rparr>"

definition sample_gateway_call :: gateway_call where
  "sample_gateway_call = \<lparr>gc_call_id = JStr ''call_0'', gc_gateway_tool = ''run_shell'', gc_tool_name = ''Bash'',
     gc_tool_input = [(''command'', JStr ''ls'')], gc_mapped = True, gc_mapping_source = ''name_and_shape'',
     gc_arguments_ok = True, gc_raw_arguments = None\<rparr>"

text \<open>C36: a ruling ends. If the clock advances by at least a twentieth of a second from one reading to the next,
  which is the shortest sleep of the loop, and the deadline of the wait is a finite number, then as many turns as
  there are twentieths of a second to the deadline, and one more, are enough for an outcome, whatever the engine,
  the inbox and the network answer.\<close>

theorem ruling_ends:
  assumes "\<And>k. hw_now (rw_watch w) k + 1 / 20 \<le> hw_now (rw_watch w) (Suc k)"
    and "wait_deadline (se_lb s) (se_gv s) (rw_watch w) (as_hold_wait a) = Fin d"
    and "d + 1 / 20 \<le> hw_now (rw_watch w) 0 + of_nat (rw_turns w) / 20" "0 < rw_turns w"
  shows "\<exists>r. rule_one_call s w a t call = Some r"
proof -
  have *: "\<exists>r. await_hold (rw_turns w) (se_lb s) (se_gv s) (rw_watch w) h (as_hold_wait a) = Some r" for h
    unfolding await_hold_def assms(2) by (rule await_loop_ends [OF assms(1,3,4)])
  have "\<exists>r. wait_for_human s w (as_hold_wait a) t call e v = Some r" for e v
  proof -
    from * obtain r where "await_hold (rw_turns w) (se_lb s) (se_gv s) (rw_watch w) (gk_hold_id v) (as_hold_wait a) = Some r"
      by blast
    then show ?thesis by (simp add: wait_for_human_def split: sum.split prod.split)
  qed
  then have "\<exists>r. decide_and_enforce s w (as_hold_wait a) t call e = Some r" for e
    by (simp add: decide_and_enforce_def split: sum.splits)
  then have d: "decide_and_enforce s w (as_hold_wait a) t call e \<noteq> None" for e by simp
  show ?thesis
  proof (cases "build_gateway_envelope s w a t call")
    case (Inr e)
    with d [of e] show ?thesis by (auto simp: rule_one_call_def split: sum.split)
  qed (simp add: rule_one_call_def)
qed

theorem ruling_ends_witness:
  "\<exists>r. rule_one_call sample_seat sample_ruling_world sample_asked unscoped sample_gateway_call = Some r"
proof (rule ruling_ends)
  show "wait_deadline (se_lb sample_seat) (se_gv sample_seat) (rw_watch sample_ruling_world) (as_hold_wait sample_asked) = Fin 1"
    by code_simp
qed (simp_all add: sample_ruling_world_def sample_watch_def field_simps)

section \<open>Organisations stay apart\<close>

lemma separated:
  assumes "c \<notin> set a" "c \<notin> set b"
  shows "a @ c # x = b @ c # y \<longleftrightarrow> a = b \<and> x = y"
  using assms
proof (induction a arbitrary: b)
  case Nil
  then show ?case by (cases b) auto
next
  case (Cons z a)
  then show ?case by (cases b) auto
qed

definition model_or_unknown :: "string \<Rightarrow> string" where
  "model_or_unknown m = (if m = [] then ''unknown'' else m)"

text \<open>C35: two organisations never share an agent or a session, as long as no organisation's name holds the character
  the name is joined with: an approval is bound to the agent, and a budget to the session, so neither can be spent
  across organisations, whatever the model or the session is called.\<close>

theorem organisations_keep_apart:
  assumes "CHR ''/'' \<notin> set (session_scope t)" "CHR ''/'' \<notin> set (session_scope t')"
    and "CHR '':'' \<notin> set (session_scope t)" "CHR '':'' \<notin> set (session_scope t')"
  shows "(gateway_agent_id t m = gateway_agent_id t' m'
            \<longleftrightarrow> session_scope t = session_scope t' \<and> model_or_unknown m = model_or_unknown m')
       \<and> (gateway_session t sid = gateway_session t' sid' \<longleftrightarrow> session_scope t = session_scope t' \<and> sid = sid')"
proof -
  have "gateway_agent_id t m = gateway_agent_id t' m' \<longleftrightarrow>
      session_scope t @ CHR ''/'' # model_or_unknown m = session_scope t' @ CHR ''/'' # model_or_unknown m'"
    by (simp only: gateway_agent_id_def model_or_unknown_def append_Cons append_Nil same_append_eq list.inject simp_thms)
  then have "gateway_agent_id t m = gateway_agent_id t' m'
      \<longleftrightarrow> session_scope t = session_scope t' \<and> model_or_unknown m = model_or_unknown m'"
    by (simp only: separated [OF assms(1,2)])
  moreover have "gateway_session t sid = gateway_session t' sid' \<longleftrightarrow>
      session_scope t @ CHR '':'' # sid = session_scope t' @ CHR '':'' # sid'"
    by (simp only: gateway_session_def append_Cons append_Nil same_append_eq list.inject simp_thms)
  then have "gateway_session t sid = gateway_session t' sid' \<longleftrightarrow> session_scope t = session_scope t' \<and> sid = sid'"
    by (simp only: separated [OF assms(3,4)])
  ultimately show ?thesis by (rule conjI)
qed

theorem organisations_keep_apart_witness:
  "gateway_agent_id (unscoped\<lparr>tn_org := Some ''pay''\<rparr>) ''m'' \<noteq> gateway_agent_id (unscoped\<lparr>tn_org := Some ''ads''\<rparr>) ''m''"
proof -
  have s: "session_scope (unscoped\<lparr>tn_org := Some ''pay''\<rparr>) = ''pay''" "session_scope (unscoped\<lparr>tn_org := Some ''ads''\<rparr>) = ''ads''"
    by (simp_all add: session_scope_def)
  show ?thesis
    using organisations_keep_apart [of "unscoped\<lparr>tn_org := Some ''pay''\<rparr>" "unscoped\<lparr>tn_org := Some ''ads''\<rparr>" "''m''" "''m''" "[]" "[]"]
    unfolding s by simp
qed

text \<open>The condition on the names is needed: a model is whatever the caller asks for.\<close>

lemma organisations_collide:
  "gateway_agent_id (unscoped\<lparr>tn_org := Some ''a''\<rparr>) ''b/c'' = gateway_agent_id (unscoped\<lparr>tn_org := Some ''a/b''\<rparr>) ''c''"
  "gateway_session (unscoped\<lparr>tn_org := Some ''a''\<rparr>) ''b:c'' = gateway_session (unscoped\<lparr>tn_org := Some ''a:b''\<rparr>) ''c''"
  by (simp_all add: gateway_agent_id_def gateway_session_def session_scope_def)

end
