(* ===== verification/GatewayRouting.thy ===== *)
theory GatewayRouting
  imports GatewayTenants
begin

text \<open>
  The facts about a request's route that are recorded beside a decision and are never an input of one
  (\<open>reeflex-litellm/reeflex_litellm/routing.py\<close>). Taking a URL apart and reading an IP address are the standard
  library's: \<open>nn_split\<close> gives the host name and port that \<open>urlsplit\<close> finds, nothing where it raises or finds no
  host, and \<open>nn_ip\<close> whether an address literal is private, loopback or link-local.
\<close>

record net_names =
  nn_split :: "string \<Rightarrow> (string \<times> int option) option"
  nn_ip :: "string \<Rightarrow> bool option"

definition host_of :: "library \<Rightarrow> net_names \<Rightarrow> json \<Rightarrow> string option" where
  "host_of lb nn api_base =
     (case stripped_text lb api_base of
        None \<Rightarrow> None
      | Some v \<Rightarrow>
          (case nn_split nn (if contains_text ''//'' v then v else ''//'' @ v) of
             None \<Rightarrow> None
           | Some (host, port) \<Rightarrow>
               if host = [] then None
               else Some (lower lb host
                 @ (case port of None \<Rightarrow> [] | Some p \<Rightarrow> if p = 0 then [] else '':'' @ str_int p))))"

text \<open>\<open>s.rsplit(":", 1)[0]\<close> where the text holds a colon, else the text.\<close>

definition before_last_colon :: "string \<Rightarrow> string" where
  "before_last_colon s =
     (if CHR '':'' \<in> set s then rev (tl (dropWhile (\<lambda>c. c \<noteq> CHR '':'') (rev s))) else s)"

definition strip_brackets :: "string \<Rightarrow> string" where
  "strip_brackets s =
     (let b = (\<lambda>c. c = CHR ''['' \<or> c = CHR '']'') in rev (dropWhile b (rev (dropWhile b s))))"

definition is_private :: "net_names \<Rightarrow> string option \<Rightarrow> json" where
  "is_private nn host_port =
     (case host_port of
        None \<Rightarrow> JNull
      | Some hp \<Rightarrow>
          (let host = strip_brackets (before_last_colon hp)
           in if hp = [] then JNull
              else if host \<in> set [''localhost'', ''localhost.localdomain''] then JBool True
              else case nn_ip nn host of None \<Rightarrow> JNull | Some b \<Rightarrow> JBool b))"

definition env_hosts :: "library \<Rightarrow> gateway_env \<Rightarrow> string \<Rightarrow> string list" where
  "env_hosts lb gv name =
     map (\<lambda>h. lower lb (strip lb h)) (filter (\<lambda>h. strip lb h \<noteq> []) (split_on CHR '','' (env_or (gv_var gv name) [])))"

definition placement_of :: "library \<Rightarrow> gateway_env \<Rightarrow> string option \<Rightarrow> tenant \<Rightarrow> string" where
  "placement_of lb gv host_port t =
     (case host_port of
        None \<Rightarrow> ''undeclared''
      | Some hp \<Rightarrow>
          (let host = before_last_colon hp;
               on_prem = tn_on_prem_hosts t @ env_hosts lb gv ''REEFLEX_LITELLM_ONPREM_HOSTS'';
               cloud = tn_cloud_hosts t @ env_hosts lb gv ''REEFLEX_LITELLM_CLOUD_HOSTS''
           in if hp = [] then ''undeclared''
              else if list_ex (\<lambda>d. host = d \<or> hp = d) on_prem then ''on_prem''
              else if list_ex (\<lambda>d. host = d \<or> hp = d) cloud then ''cloud''
              else ''undeclared''))"

definition text_or :: "string option \<Rightarrow> string option \<Rightarrow> string option" where
  "text_or a b = (case a of None \<Rightarrow> b | Some _ \<Rightarrow> a)"

definition routing_block ::
  "library \<Rightarrow> gateway_env \<Rightarrow> net_names \<Rightarrow> dict \<Rightarrow> json \<Rightarrow> tenant \<Rightarrow> gateway_identity \<Rightarrow> string \<Rightarrow> dict" where
  "routing_block lb gv nn data response t i model =
     (let hidden = as_obj (attr response ''_hidden_params'');
          host = host_of lb nn (dget hidden ''api_base'');
          txt = stripped_text lb
      in [(''gateway'', JStr ''litellm''), (''adapter'', JStr ''reeflex-litellm''), (''model'', JStr model),
          (''model_requested'', jopt (text_or (txt (dget data ''model''))
             (txt (attr (dget data ''metadata'') ''model_group'')))),
          (''model_served'', jopt (txt (attr response ''model''))),
          (''deployment_id'', jopt (txt (dget hidden ''model_id''))),
          (''provider'', jopt (text_or (txt (dget hidden ''custom_llm_provider''))
             (txt (attr response ''custom_llm_provider'')))),
          (''api_base_host'', jopt host), (''api_base_is_private'', is_private nn host),
          (''placement'', JStr (placement_of lb gv host t)), (''stream'', JBool (py_truth (dget data ''stream''))),
          (''tenant'', JObj [(''org'', jopt (tn_org t)), (''label'', tn_label t), (''matched_on'', jopt (tn_matched_on t)),
             (''matched_value'', jopt (tn_matched_value t))]),
          (''caller'', JObj (as_record i))])"

text \<open>A host that is declared on the operator's own premises is recorded as such, whatever the port, and also where
  it is declared a cloud host too; nothing is recorded as on the premises that was not declared.\<close>

lemma placement_declared:
  "placement_of lb gv (Some hp) t = ''on_prem'' \<longleftrightarrow>
     hp \<noteq> [] \<and> (before_last_colon hp \<in> set (tn_on_prem_hosts t @ env_hosts lb gv ''REEFLEX_LITELLM_ONPREM_HOSTS'')
        \<or> hp \<in> set (tn_on_prem_hosts t @ env_hosts lb gv ''REEFLEX_LITELLM_ONPREM_HOSTS''))"
  by (auto simp: placement_of_def Let_def list_ex_iff)

text \<open>An address with colons and no port loses its last group, so that a private IPv6 literal reads as unknown.\<close>

lemma ipv6_literal_cut: "before_last_colon ''fd00::1'' = ''fd00:''"
  by code_simp

end
