(* ===== verification/GatewayReply.thy ===== *)
theory GatewayReply
  imports GatewayEnforce GatewayRouting "HOL-Library.Sublist"
begin

text \<open>
  The guardrail on a whole response (\<open>reeflex-litellm/reeflex_litellm/response.py\<close> and the buffered path of
  \<open>guardrail.py\<close>): the tool calls of every choice are ruled on in order, the refused ones are removed, and what the
  caller receives is the response that is left. A response is its JSON; the choices of a JSON response are objects of
  their own, so rewriting one changes no other. The \<open>k\<close>-th ruling meets the world \<open>w k\<close>.
\<close>

section \<open>Reading and rewriting a response\<close>

definition get_choices :: "json \<Rightarrow> json list" where
  "get_choices response = py_items (attr response ''choices'')"

definition get_tool_calls :: "json \<Rightarrow> json list" where
  "get_tool_calls choice = py_items (attr (attr choice ''message'') ''tool_calls'')"

definition has_tool_calls :: "json \<Rightarrow> bool" where
  "has_tool_calls response \<longleftrightarrow> list_ex (\<lambda>c. get_tool_calls c \<noteq> []) (get_choices response)"

text \<open>\<open>s.rstrip()\<close>: strip after a character that is none of the white space.\<close>

definition rstrip_text :: "library \<Rightarrow> string \<Rightarrow> string" where
  "rstrip_text lb s = tl (strip lb (CHR ''x'' # s))"

text \<open>The notice; \<open>dumps\<close> is \<open>json.dumps(sort_keys=True)\<close>.\<close>

definition refusal_text :: "(json \<Rightarrow> string) \<Rightarrow> json list \<Rightarrow> string" where
  "refusal_text dumps refusals =
     dumps (JObj [(''reeflex'', JObj [(''version'', JInt 1), (''refused'', JArr refusals)])])"

definition rewrite_choice ::
  "library \<Rightarrow> (json \<Rightarrow> string) \<Rightarrow> json list \<Rightarrow> json list \<Rightarrow> dict \<Rightarrow> dict \<Rightarrow> dict" where
  "rewrite_choice lb dumps keep refusals choice message =
     (let notice = refusal_text dumps refusals;
          m1 = dput ''tool_calls'' (if keep = [] then JNull else JArr keep) message;
          content = (case dget m1 ''content'' of
             JStr existing \<Rightarrow> if strip lb existing \<noteq> [] then rstrip_text lb existing @ [CHR 0x0A] @ notice else notice
           | _ \<Rightarrow> notice);
          c = dput ''message'' (JObj (dput ''content'' (JStr content) m1)) choice
      in if keep = [] then dput ''finish_reason'' (JStr ''stop'') c else c)"

definition put_choice :: "json \<Rightarrow> nat \<Rightarrow> dict \<Rightarrow> json" where
  "put_choice response idx choice =
     (case attr response ''choices'' of
        JArr xs \<Rightarrow> JObj (dput ''choices'' (JArr (xs[idx := JObj choice])) (as_obj response))
      | _ \<Rightarrow> response)"

definition apply_refusals ::
  "library \<Rightarrow> (json \<Rightarrow> string) \<Rightarrow> json \<Rightarrow> nat \<Rightarrow> json list \<Rightarrow> json list \<Rightarrow> hook_exc + json" where
  "apply_refusals lb dumps response idx keep refusals =
     (let choices = get_choices response
      in if length choices \<le> idx then Inr response
         else
           let choice = choices ! idx
           in case attr choice ''message'' of
                JNull \<Rightarrow> Inr response
              | JObj message \<Rightarrow>
                  if refusals = [] then Inr response
                  else Inr (put_choice response idx (rewrite_choice lb dumps keep refusals (as_obj choice) message))
              | _ \<Rightarrow> if refusals = [] then Inr response else Inl HAttributeError)"

section \<open>Ruling on the calls of a response\<close>

text \<open>The outcomes of the calls in order, or the first exception; \<open>None\<close> while one of them is waiting.\<close>

fun rule_each ::
  "seat \<Rightarrow> (nat \<Rightarrow> ruling_world) \<Rightarrow> asked \<Rightarrow> tenant \<Rightarrow> nat \<Rightarrow> json list \<Rightarrow> (hook_exc + outcome list) option" where
  "rule_each s w a t k [] = Some (Inr [])"
| "rule_each s w a t k (raw # raws) =
     (case normalize_tool_call (se_lb s) (se_gv s) raw of
        Inl e \<Rightarrow> Some (Inl e)
      | Inr call \<Rightarrow>
          (case rule_one_call s (w k) a t call of
             None \<Rightarrow> None
           | Some (Inl e) \<Rightarrow> Some (Inl e)
           | Some (Inr out) \<Rightarrow>
               (case rule_each s w a t (Suc k) raws of
                  None \<Rightarrow> None
                | Some (Inl e) \<Rightarrow> Some (Inl e)
                | Some (Inr outs) \<Rightarrow> Some (Inr (out # outs)))))"

definition kept_calls :: "json list \<Rightarrow> outcome list \<Rightarrow> json list" where
  "kept_calls raws outs = map fst (filter (\<lambda>(_, out). oc_allowed out) (zip raws outs))"

fun refusal_json :: "outcome \<Rightarrow> json" where
  "refusal_json out = (case oc_refusal out of None \<Rightarrow> JNull | Some r \<Rightarrow> JObj r)"

definition refusals_of :: "outcome list \<Rightarrow> json list" where
  "refusals_of outs = map refusal_json (filter (\<lambda>out. \<not> oc_allowed out) outs)"

definition ledgers_of :: "outcome list \<Rightarrow> dict list" where
  "ledgers_of outs = List.map_filter oc_ledger outs"

text \<open>The loop over the choices. The response it gives back with an exception is as far as it has been rewritten.\<close>

fun rule_choices ::
  "seat \<Rightarrow> (json \<Rightarrow> string) \<Rightarrow> (nat \<Rightarrow> ruling_world) \<Rightarrow> asked \<Rightarrow> tenant \<Rightarrow> nat \<Rightarrow> nat \<Rightarrow> json list \<Rightarrow> json \<Rightarrow> dict list
     \<Rightarrow> json \<times> (hook_exc + dict list) option" where
  "rule_choices s dumps w a t k idx [] response ledgers = (response, Some (Inr ledgers))"
| "rule_choices s dumps w a t k idx (choice # choices) response ledgers =
     (let raws = get_tool_calls choice
      in case rule_each s w a t k raws of
           None \<Rightarrow> (response, None)
         | Some (Inl e) \<Rightarrow> (response, Some (Inl e))
         | Some (Inr outs) \<Rightarrow>
             (case apply_refusals (se_lb s) dumps response idx (kept_calls raws outs) (refusals_of outs) of
                Inl e \<Rightarrow> (response, Some (Inl e))
              | Inr response' \<Rightarrow>
                  rule_choices s dumps w a t (k + length raws) (Suc idx) choices response' (ledgers @ ledgers_of outs)))"

section \<open>Refusing everything\<close>

text \<open>Both refusals of a whole response: every call is normalized for its name and refused by \<open>refuse\<close>. The response
  is as far as it has been rewritten when an exception stops it.\<close>

fun refuse_choices ::
  "seat \<Rightarrow> (json \<Rightarrow> string) \<Rightarrow> (gateway_call \<Rightarrow> json) \<Rightarrow> nat \<Rightarrow> json list \<Rightarrow> json \<Rightarrow> json \<times> hook_exc option" where
  "refuse_choices s dumps refuse idx [] response = (response, None)"
| "refuse_choices s dumps refuse idx (choice # choices) response =
     (if get_tool_calls choice = [] then refuse_choices s dumps refuse (Suc idx) choices response
      else case bindE (map_exc (normalize_tool_call (se_lb s) (se_gv s)) (get_tool_calls choice)) (\<lambda>calls.
             apply_refusals (se_lb s) dumps response idx [] (map refuse calls)) of
           Inl e \<Rightarrow> (response, Some e)
         | Inr response' \<Rightarrow> refuse_choices s dumps refuse (Suc idx) choices response')"

definition refuse_unmapped ::
  "seat \<Rightarrow> (json \<Rightarrow> string) \<Rightarrow> json \<Rightarrow> tenant_resolution \<Rightarrow> json \<times> hook_exc option" where
  "refuse_unmapped s dumps response r =
     refuse_choices s dumps (\<lambda>call. refusal_json (refuse_unmapped_tenant call (or_text (rs_reason r) [])))
       0 (get_choices response) response"

definition failed_hook_reason :: "seat \<Rightarrow> string \<Rightarrow> hook_exc \<Rightarrow> string" where
  "failed_hook_reason s what e =
     ''Reeflex: the gateway'' @ [CHR 0x27] @ ''s governance hook failed, so no tool call on this '' @ what
     @ '' was cleared and all are refused [rule='' @ fail_rule @ '']: '' @ el_say (se_el s) (EvidenceOther e)"

definition refuse_everything :: "seat \<Rightarrow> (json \<Rightarrow> string) \<Rightarrow> json \<Rightarrow> hook_exc \<Rightarrow> json \<times> hook_exc option" where
  "refuse_everything s dumps response e =
     refuse_choices s dumps
       (\<lambda>call. JObj (refusal call ''reeflex_unavailable'' fail_rule_json (failed_hook_reason s ''response'' e) JNull))
       0 (get_choices response) response"

section \<open>The guardrail\<close>

record guardrail =
  gd_environment :: "string option"
  gd_principal :: json
  gd_hold_wait :: json
  gd_session_header :: string

text \<open>\<open>session_id\<close>: the header, the \<open>user\<close> of the request, the identifier of the call, or a fresh one.\<close>

fun header_value :: "library \<Rightarrow> string \<Rightarrow> dict \<Rightarrow> string option" where
  "header_value lb name [] = None"
| "header_value lb name ((k, v) # hs) =
     (case v of
        JStr s \<Rightarrow> if lower lb k = name \<and> strip lb s \<noteq> [] then Some (strip lb s) else header_value lb name hs
      | _ \<Rightarrow> header_value lb name hs)"

definition session_of :: "library \<Rightarrow> guardrail \<Rightarrow> string \<Rightarrow> dict \<Rightarrow> string" where
  "session_of lb g unused data =
     (let name = lower lb (if gd_session_header g = [] then ''x-reeflex-session'' else gd_session_header g);
          headers = as_obj (attr (dget data ''proxy_server_request'') ''headers'')
      in case header_value lb name headers of
           Some s \<Rightarrow> s
         | None \<Rightarrow> (case text_or (stripped_text lb (dget data ''user'')) (stripped_text lb (dget data ''litellm_call_id'')) of
             Some s \<Rightarrow> s
           | None \<Rightarrow> ''litellm-'' @ unused))"

definition model_of :: "library \<Rightarrow> dict \<Rightarrow> json \<Rightarrow> string" where
  "model_of lb data response =
     (case text_or (stripped_text lb (dget data ''model'')) (stripped_text lb (attr response ''model'')) of
        Some m \<Rightarrow> m | None \<Rightarrow> ''unknown'')"

text \<open>\<open>_as_float\<close>: an integer beyond the floats overflows, and only \<open>TypeError\<close> and \<open>ValueError\<close> are caught.\<close>

definition as_float :: "library \<Rightarrow> json \<Rightarrow> hook_exc + pyfloat option" where
  "as_float lb v =
     (case v of
        JNull \<Rightarrow> Inr None
      | JStr s \<Rightarrow> Inr (if s = [] then None else lb_float lb s)
      | JBool b \<Rightarrow> Inr (Some (Fin (if b then 1 else 0)))
      | JInt n \<Rightarrow> (case lb_round lb (of_int n) of Fin x \<Rightarrow> Inr (Some (Fin x)) | _ \<Rightarrow> Inl HOverflowError)
      | JFloat x \<Rightarrow> Inr (Some x)
      | _ \<Rightarrow> Inr None)"

text \<open>What one request brings: the request's data, the identity the proxy authenticated, a fresh identifier, the
  names of the network, and what reading the tenancy map meets.\<close>

record request_world =
  qw_data :: dict
  qw_auth :: json
  qw_fresh :: string
  qw_net :: net_names
  qw_say :: "map_error \<Rightarrow> string"
  qw_stat :: "string \<Rightarrow> (int \<times> int) option"
  qw_cache :: map_cache

definition resolve_request :: "seat \<Rightarrow> request_world \<Rightarrow> map_cache \<times> tenant_resolution" where
  "resolve_request s q = resolve (se_lb s) (se_gv s) (qw_say q) (qw_stat q) (qw_cache q) (qw_auth q)"

definition asked_of :: "seat \<Rightarrow> guardrail \<Rightarrow> request_world \<Rightarrow> json \<Rightarrow> tenant \<Rightarrow> gateway_identity \<Rightarrow> hook_exc + asked" where
  "asked_of s g q response t i =
     bindE (as_float (se_lb s) (gd_hold_wait g)) (\<lambda>wait.
       let model = model_of (se_lb s) (qw_data q) response
       in Inr \<lparr>as_session = session_of (se_lb s) g (qw_fresh q) (qw_data q), as_model = model,
            as_principal = or_else (gd_principal g) JNull,
            as_environment = (if gd_environment g = Some [] then None else gd_environment g), as_hold_wait = wait,
            as_routing = Some (routing_block (se_lb s) (se_gv s) (qw_net q) (qw_data q) response t i model)\<rparr>)"

text \<open>\<open>_record_evidence\<close>: every line goes to the ledger; where pushing is on, the lines that have a record on the
  wire are pushed together. It raises nothing, and what it answers reaches nobody but the log.\<close>

definition record_evidence ::
  "seat \<Rightarrow> (string \<Rightarrow> dict \<Rightarrow> bool) \<Rightarrow> (signed_request \<Rightarrow> push_reply) \<Rightarrow> int \<Rightarrow> dict list \<Rightarrow> tenant
     \<Rightarrow> string option list \<times> (hook_exc + push_result) option" where
  "record_evidence s write net ts ledgers t =
     (let lb = se_lb s; gv = se_gv s; written = map (append_ledger lb gv write) ledgers;
          wire = List.map_filter (\<lambda>d. case wire_record lb d of Inl _ \<Rightarrow> None | Inr x \<Rightarrow> Some x) ledgers
      in (written, if ledgers = [] \<or> \<not> push_enabled lb gv \<or> wire = [] then None
                   else Some (push lb gv (se_el s) net ts wire t)))"

text \<open>\<open>_rule_on_response\<close>: the response as it is left, and the lines to record, with whose they are.\<close>

definition rule_on_response ::
  "seat \<Rightarrow> guardrail \<Rightarrow> (json \<Rightarrow> string) \<Rightarrow> (nat \<Rightarrow> ruling_world) \<Rightarrow> request_world \<Rightarrow> json
     \<Rightarrow> json \<times> (hook_exc + (dict list \<times> tenant) option) option" where
  "rule_on_response s g dumps w q response =
     (if \<not> has_tool_calls response then (response, Some (Inr None))
      else
        let r = snd (resolve_request s q)
        in case rs_tenant r of
             None \<Rightarrow> (case refuse_unmapped s dumps response r of
                 (response', Some e) \<Rightarrow> (response', Some (Inl e))
               | (response', None) \<Rightarrow> (response', Some (Inr None)))
           | Some t \<Rightarrow>
               (case asked_of s g q response t (rs_identity r) of
                  Inl e \<Rightarrow> (response, Some (Inl e))
                | Inr a \<Rightarrow>
                    (case rule_choices s dumps w a t 0 0 (get_choices response) response [] of
                       (response', None) \<Rightarrow> (response', None)
                     | (response', Some (Inl e)) \<Rightarrow> (response', Some (Inl e))
                     | (response', Some (Inr ledgers)) \<Rightarrow> (response', Some (Inr (Some (ledgers, t)))))))"

text \<open>\<open>async_post_call_success_hook\<close>: what the caller receives, or the exception that the proxy answers with;
  \<open>None\<close> while a human is being waited for.\<close>

definition post_call_hook ::
  "seat \<Rightarrow> guardrail \<Rightarrow> (json \<Rightarrow> string) \<Rightarrow> (nat \<Rightarrow> ruling_world) \<Rightarrow> request_world \<Rightarrow> json
     \<Rightarrow> (hook_exc + json) option" where
  "post_call_hook s g dumps w q response =
     (case rule_on_response s g dumps w q response of
        (_, None) \<Rightarrow> None
      | (response', Some (Inr _)) \<Rightarrow> Some (Inr response')
      | (response', Some (Inl e)) \<Rightarrow> (case refuse_everything s dumps response' e of
           (_, Some e') \<Rightarrow> Some (Inl e')
         | (response'', None) \<Rightarrow> Some (Inr response'')))"

section \<open>Only cleared calls are left\<close>

text \<open>A call that was ruled on for the request's own organisation and released.\<close>

definition cleared :: "seat \<Rightarrow> (nat \<Rightarrow> ruling_world) \<Rightarrow> asked \<Rightarrow> tenant \<Rightarrow> json \<Rightarrow> bool" where
  "cleared s w a t raw \<longleftrightarrow>
     (\<exists>k call out. normalize_tool_call (se_lb s) (se_gv s) raw = Inr call
        \<and> rule_one_call s (w k) a t call = Some (Inr out) \<and> oc_allowed out)"

lemma rule_each_kept:
  assumes "rule_each s w a t k raws = Some (Inr outs)"
  shows "subseq (kept_calls raws outs) raws \<and> (\<forall>raw \<in> set (kept_calls raws outs). cleared s w a t raw)
    \<and> (refusals_of outs = [] \<longrightarrow> kept_calls raws outs = raws)"
  using assms
proof (induction raws arbitrary: k outs)
  case (Cons raw raws)
  then obtain call out outs' where c: "normalize_tool_call (se_lb s) (se_gv s) raw = Inr call"
    "rule_one_call s (w k) a t call = Some (Inr out)" "rule_each s w a t (Suc k) raws = Some (Inr outs')"
    "outs = out # outs'"
    by (auto split: sum.splits option.splits)
  note IH = Cons.IH [OF c(3)]
  show ?case
  proof (cases "oc_allowed out")
    case True
    with c have "cleared s w a t raw" unfolding cleared_def by blast
    with IH True show ?thesis by (simp add: kept_calls_def refusals_of_def c(4))
  next
    case False
    have "kept_calls (raw # raws) outs = kept_calls raws outs'" "refusals_of outs \<noteq> []"
      using False by (simp_all add: kept_calls_def refusals_of_def c(4))
    with IH show ?thesis by (simp add: list_emb_Cons)
  qed
qed (simp add: kept_calls_def)

lemma attr_of_items: "\<not> (\<exists>xs. j = JArr xs) \<Longrightarrow> c \<in> set (py_items j) \<Longrightarrow> attr c k = JNull"
  by (cases j) (auto simp: attr_def dget_def)

lemma dget_nil [simp]: "dget [] k = JNull"
  by (simp add: dget_def)

lemma no_calls_without_message: "attr c ''message'' = JNull \<Longrightarrow> get_tool_calls c = []"
  by (simp add: get_tool_calls_def attr_def)

lemma py_items_keep: "py_items (if keep = [] then JNull else JArr keep) = keep"
  by simp

lemma rewrite_choice_calls: "get_tool_calls (JObj (rewrite_choice lb dumps keep refusals choice message)) = keep"
  by (simp add: get_tool_calls_def rewrite_choice_def Let_def attr_def)

lemma apply_refusals_calls:
  assumes "apply_refusals lb dumps r idx keep refs = Inr r'" "idx < length (get_choices r)"
  shows "refs = [] \<Longrightarrow> r' = r"
    and "refs \<noteq> [] \<Longrightarrow> get_tool_calls (get_choices r ! idx) \<noteq> [] \<Longrightarrow>
           \<exists>c'. get_choices r' = (get_choices r)[idx := c'] \<and> get_tool_calls c' = keep"
proof -
  show "refs = [] \<Longrightarrow> r' = r"
    using assms by (auto simp: apply_refusals_def Let_def split: json.splits)
  assume refs: "refs \<noteq> []" and calls: "get_tool_calls (get_choices r ! idx) \<noteq> []"
  let ?c = "get_choices r ! idx"
  have m: "attr ?c ''message'' \<noteq> JNull" using calls no_calls_without_message by blast
  have "?c \<in> set (py_items (attr r ''choices''))" using assms(2) by (simp add: get_choices_def)
  with m obtain xs where xs: "attr r ''choices'' = JArr xs" using attr_of_items by blast
  obtain message where "attr ?c ''message'' = JObj message"
    "r' = put_choice r idx (rewrite_choice lb dumps keep refs (as_obj ?c) message)"
    using assms refs m by (cases "attr ?c ''message''") (auto simp: apply_refusals_def Let_def)
  then have "get_choices r' = (get_choices r)[idx := JObj (rewrite_choice lb dumps keep refs (as_obj ?c) message)]"
    by (simp only: put_choice_def xs json.case) (simp add: get_choices_def xs [unfolded attr_def] attr_def)
  then show "\<exists>c'. get_choices r' = (get_choices r)[idx := c'] \<and> get_tool_calls c' = keep"
    using rewrite_choice_calls by blast
qed

text \<open>What a step leaves of one choice.\<close>

definition leaves :: "(json \<Rightarrow> bool) \<Rightarrow> json \<Rightarrow> json \<Rightarrow> bool" where
  "leaves ok c c' \<longleftrightarrow> subseq (get_tool_calls c') (get_tool_calls c) \<and> list_all ok (get_tool_calls c')"

lemma step_choices:
  assumes "drop idx cs = c # rest" "cs' = cs \<or> cs' = cs[idx := c']"
  shows "take idx cs' = take idx cs" "drop (Suc idx) cs' = rest" "length cs' = length cs" "idx < length cs" "cs ! idx = c"
proof -
  show l: "idx < length cs" using assms(1) by (metis drop_eq_Nil leI list.distinct(1))
  show "cs ! idx = c" using assms(1) l by (metis Cons_nth_drop_Suc list.inject)
  have "drop (Suc idx) cs = rest" using assms(1) l by (metis Cons_nth_drop_Suc list.inject)
  then show "take idx cs' = take idx cs" "drop (Suc idx) cs' = rest" "length cs' = length cs"
    using assms(2) by auto
qed

lemma list_all2_leaves_mono: "list_all2 (leaves ok) cs ds \<Longrightarrow> (\<And>x. ok x \<Longrightarrow> ok' x) \<Longrightarrow> list_all2 (leaves ok') cs ds"
  by (erule list_all2_mono) (auto simp: leaves_def list_all_iff)

lemma rule_choices_leaves:
  assumes "rule_choices s dumps w a t k idx cs r ledgers = (r', res)" "drop idx (get_choices r) = cs"
  shows "length (get_choices r') = length (get_choices r)
    \<and> take idx (get_choices r') = take idx (get_choices r)
    \<and> (\<forall>l. res = Some (Inr l) \<longrightarrow> list_all2 (leaves (cleared s w a t)) cs (drop idx (get_choices r')))"
  using assms
proof (induction cs arbitrary: k idx r ledgers)
  case (Cons c cs)
  show ?case
  proof (cases "rule_each s w a t k (get_tool_calls c)")
    case None
    then show ?thesis using Cons.prems by auto
  next
    case (Some x)
    show ?thesis
    proof (cases x)
      case (Inl e)
      then show ?thesis using Cons.prems Some by auto
    next
      case (Inr outs)
      let ?keep = "kept_calls (get_tool_calls c) outs"
      let ?apply = "apply_refusals (se_lb s) dumps r idx ?keep (refusals_of outs)"
      note each = rule_each_kept [OF Some [unfolded Inr]]
      show ?thesis
      proof (cases ?apply)
        case (Inl e)
        then show ?thesis using Cons.prems Some Inr by auto
      next
        case applied: (Inr r1)
        have il: "idx < length (get_choices r)" and ci: "get_choices r ! idx = c"
          using step_choices [OF Cons.prems(2), of "get_choices r"] by auto
        obtain c' where r1: "get_choices r1 = get_choices r \<or> get_choices r1 = (get_choices r)[idx := c']"
          and ok: "get_choices r1 ! idx = d \<Longrightarrow> get_tool_calls d = ?keep" for d
        proof (cases "refusals_of outs = []")
          case True
          then have "r1 = r" "get_tool_calls c = ?keep" using apply_refusals_calls(1) [OF applied il] each by simp_all
          then show thesis using that [of c] ci by auto
        next
          case False
          then have "get_tool_calls (get_choices r ! idx) \<noteq> []" using Inr Some unfolding ci by (auto simp: refusals_of_def)
          from apply_refusals_calls(2) [OF applied il False this] show thesis using that il by force
        qed
        note st = step_choices [OF Cons.prems(2) r1]
        have "rule_choices s dumps w a t (k + length (get_tool_calls c)) (Suc idx) cs r1 (ledgers @ ledgers_of outs) = (r', res)"
          using Cons.prems(1) Some Inr applied by (simp add: Let_def)
        note IH = Cons.IH [OF this st(2)]
        have lc: "leaves (cleared s w a t) c (get_choices r1 ! idx)"
          using ok [OF refl] each by (simp add: leaves_def list_all_iff)
        have tk: "take (Suc idx) (get_choices r') = take (Suc idx) (get_choices r1)" and len: "length (get_choices r') = length (get_choices r1)"
          using IH by auto
        have il': "idx < length (get_choices r')" using len st(3,4) by simp
        have "get_choices r' ! idx = get_choices r1 ! idx" using tk by (metis lessI nth_take)
        then have dr: "drop idx (get_choices r') = (get_choices r1 ! idx) # drop (Suc idx) (get_choices r')"
          using il' by (metis Cons_nth_drop_Suc)
        have "take idx (get_choices r') = take idx (take (Suc idx) (get_choices r'))" by (simp add: take_take min_def)
        also have "\<dots> = take idx (get_choices r)" using st(1) by (simp add: tk take_take min_def)
        finally show ?thesis using IH dr lc len st(3) by simp
      qed
    qed
  qed
qed simp

lemma map_exc_length: "map_exc f xs = Inr ys \<Longrightarrow> length ys = length xs"
  by (induction xs arbitrary: ys) (auto simp: py_simps)

lemma refuse_choices_leaves:
  assumes "refuse_choices s dumps refuse idx cs r = (r', res)" "drop idx (get_choices r) = cs"
  shows "length (get_choices r') = length (get_choices r)
    \<and> take idx (get_choices r') = take idx (get_choices r)
    \<and> (res = None \<longrightarrow> list_all (\<lambda>c. get_tool_calls c = []) (drop idx (get_choices r')))"
  using assms
proof (induction cs arbitrary: idx r)
  case (Cons c cs)
  have il: "idx < length (get_choices r)" and ci: "get_choices r ! idx = c"
    using step_choices [OF Cons.prems(2), of "get_choices r"] by auto
  let ?calls = "map_exc (normalize_tool_call (se_lb s) (se_gv s)) (get_tool_calls c)"
  let ?step = "bindE ?calls (\<lambda>calls. apply_refusals (se_lb s) dumps r idx [] (map refuse calls))"
  have next_one: ?case if rest: "refuse_choices s dumps refuse (Suc idx) cs r1 = (r', res)"
      and r1: "get_choices r1 = get_choices r \<or> get_choices r1 = (get_choices r)[idx := c']"
      and ok: "get_tool_calls (get_choices r1 ! idx) = []" for r1 c'
  proof -
    note st = step_choices [OF Cons.prems(2) r1]
    note IH = Cons.IH [OF rest st(2)]
    have tk: "take (Suc idx) (get_choices r') = take (Suc idx) (get_choices r1)"
      and len: "length (get_choices r') = length (get_choices r1)" using IH by auto
    have il': "idx < length (get_choices r')" using len st(3,4) by simp
    have "get_choices r' ! idx = get_choices r1 ! idx" using tk by (metis lessI nth_take)
    then have dr: "drop idx (get_choices r') = (get_choices r1 ! idx) # drop (Suc idx) (get_choices r')"
      using il' by (metis Cons_nth_drop_Suc)
    have "take idx (get_choices r') = take idx (take (Suc idx) (get_choices r'))" by (simp add: take_take min_def)
    also have "\<dots> = take idx (get_choices r)" using st(1) by (simp add: tk take_take min_def)
    finally show ?thesis using IH dr ok len st(3) by simp
  qed
  show ?case
  proof (cases "get_tool_calls c = []")
    case True
    then show ?thesis using Cons.prems(1) ci by (intro next_one [of r c]) auto
  next
    case calls: False
    show ?thesis
    proof (cases ?step)
      case (Inl e)
      then show ?thesis using Cons.prems(1) calls by auto
    next
      case (Inr r1)
      then obtain cls where cls: "?calls = Inr cls"
        and ap: "apply_refusals (se_lb s) dumps r idx [] (map refuse cls) = Inr r1"
        by (auto simp: py_simps)
      have "map refuse cls \<noteq> []" using map_exc_length [OF cls] calls by auto
      from apply_refusals_calls(2) [OF ap il this] calls ci obtain c' where
        c': "get_choices r1 = (get_choices r)[idx := c']" "get_tool_calls c' = []" by auto
      show ?thesis
        by (rule next_one [of r1 c']) (use Cons.prems(1) calls Inr c' il in auto)
    qed
  qed
qed simp

lemma refuse_everything_leaves:
  "refuse_everything s dumps r e = (r', None) \<Longrightarrow>
     length (get_choices r') = length (get_choices r) \<and> list_all (\<lambda>c. get_tool_calls c = []) (get_choices r')"
  using refuse_choices_leaves [of s dumps _ 0 "get_choices r" r r' None] unfolding refuse_everything_def by fastforce

lemma nothing_leaves: "list_all (\<lambda>c. get_tool_calls c = []) ds \<Longrightarrow> length ds = length cs \<Longrightarrow> list_all2 (leaves ok) cs ds"
  by (auto simp: list_all2_conv_all_nth leaves_def list_all_length)

text \<open>A call that the request at hand was entitled to.\<close>

definition cleared_for ::
  "seat \<Rightarrow> guardrail \<Rightarrow> (nat \<Rightarrow> ruling_world) \<Rightarrow> request_world \<Rightarrow> json \<Rightarrow> json \<Rightarrow> bool" where
  "cleared_for s g w q response raw \<longleftrightarrow>
     (\<exists>t a. rs_tenant (snd (resolve_request s q)) = Some t
        \<and> asked_of s g q response t (rs_identity (snd (resolve_request s q))) = Inr a \<and> cleared s w a t raw)"

lemma no_calls_leave: "\<not> has_tool_calls r \<Longrightarrow> list_all2 (leaves ok) (get_choices r) (get_choices r)"
  by (auto simp: has_tool_calls_def list_ex_iff list_all2_conv_all_nth leaves_def)

lemma rule_on_response_leaves:
  assumes "rule_on_response s g dumps w q r = (r', res)"
  shows "length (get_choices r') = length (get_choices r)
    \<and> (\<forall>x. res = Some (Inr x) \<longrightarrow> list_all2 (leaves (cleared_for s g w q r)) (get_choices r) (get_choices r'))"
proof (cases "has_tool_calls r")
  case False
  then show ?thesis using assms no_calls_leave by (auto simp: rule_on_response_def)
next
  case calls: True
  let ?res = "snd (resolve_request s q)"
  show ?thesis
  proof (cases "rs_tenant ?res")
    case None
    obtain r1 x where u: "refuse_unmapped s dumps r ?res = (r1, x)" by force
    then have "length (get_choices r1) = length (get_choices r)"
      "x = None \<Longrightarrow> list_all (\<lambda>c. get_tool_calls c = []) (get_choices r1)"
      using refuse_choices_leaves [of s dumps _ 0 "get_choices r" r r1 x] unfolding refuse_unmapped_def by fastforce+
    with nothing_leaves show ?thesis
      using assms calls None u by (cases x) (auto simp: rule_on_response_def Let_def)
  next
    case (Some t)
    show ?thesis
    proof (cases "asked_of s g q r t (rs_identity ?res)")
      case (Inl e)
      then show ?thesis using assms calls Some by (auto simp: rule_on_response_def Let_def)
    next
      case (Inr a)
      obtain r1 x where u: "rule_choices s dumps w a t 0 0 (get_choices r) r [] = (r1, x)" by force
      then have r1: "length (get_choices r1) = length (get_choices r)"
        "\<And>l. x = Some (Inr l) \<Longrightarrow> list_all2 (leaves (cleared s w a t)) (get_choices r) (get_choices r1)"
        using rule_choices_leaves [OF u] by auto
      have "cleared_for s g w q r raw" if "cleared s w a t raw" for raw
        using that Some Inr unfolding cleared_for_def by blast
      note mono = list_all2_leaves_mono [OF r1(2) this]
      show ?thesis
        using assms calls Some Inr u r1(1) mono
        by (auto simp: rule_on_response_def Let_def split: option.splits sum.splits)
    qed
  qed
qed

text \<open>C8: what a caller behind the gateway receives holds only tool calls that were cleared for the caller's own
  organisation. The response has the choices of the model's response; the tool calls of each are some of that
  choice's own, in their order and as the model gave them, and every one of them was normalized, ruled on and
  released. A caller that no organisation is bound to, an exception anywhere on the way, leave no call at all, or
  an error instead of a response.\<close>

theorem response_holds_only_cleared_calls:
  "case post_call_hook s g dumps w q response of
     Some (Inr r) \<Rightarrow> list_all2 (leaves (cleared_for s g w q response)) (get_choices response) (get_choices r)
   | _ \<Rightarrow> True"
proof -
  obtain r' res where r: "rule_on_response s g dumps w q response = (r', res)" by force
  note l = rule_on_response_leaves [OF r]
  show ?thesis
  proof (cases res)
    case (Some x)
    show ?thesis
    proof (cases x)
      case (Inl e)
      obtain r2 y where e: "refuse_everything s dumps r' e = (r2, y)" by force
      then show ?thesis
        using l nothing_leaves [of "get_choices r2" "get_choices response"] refuse_everything_leaves [of s dumps r' e r2]
        by (cases y) (auto simp: post_call_hook_def r Some Inl)
    qed (use l in \<open>auto simp: post_call_hook_def r Some\<close>)
  qed (simp add: post_call_hook_def r)
qed

end
