(* ===== verification/GatewayStream.thy ===== *)
theory GatewayStream
  imports GatewayReply
begin

text \<open>
  The guardrail on a streamed response (\<open>reeflex-litellm/reeflex_litellm/streaming.py\<close> and the streaming hook of
  \<open>guardrail.py\<close>): chunks pass until the first that carries a piece of a tool call; from there the stream is held
  back to its end, the calls are put together and ruled on, and what is left of the tail is let out. A chunk is its
  JSON, which can always be read, so that the branch for a chunk that raises when it is read is not reached.
\<close>

section \<open>Reading a chunk\<close>

definition tool_call_deltas :: "json \<Rightarrow> json list" where
  "tool_call_deltas choice = py_items (attr (attr choice ''delta'') ''tool_calls'')"

text \<open>The index of a fragment: an \<open>int\<close>, which a boolean is, else 0.\<close>

definition index_of :: "json \<Rightarrow> int" where
  "index_of entry = (case attr entry ''index'' of JInt n \<Rightarrow> n | JBool b \<Rightarrow> of_bool b | _ \<Rightarrow> 0)"

definition chunk_entries :: "json \<Rightarrow> json list" where
  "chunk_entries chunk = concat (map tool_call_deltas (get_choices chunk))"

definition chunk_tool_indices :: "json \<Rightarrow> int list" where
  "chunk_tool_indices chunk = map index_of (chunk_entries chunk)"

definition chunk_has_tool_call :: "json \<Rightarrow> bool" where
  "chunk_has_tool_call chunk \<longleftrightarrow> chunk_tool_indices chunk \<noteq> []"

definition chunk_content :: "json \<Rightarrow> string" where
  "chunk_content chunk = concat (map (\<lambda>c. nonempty_text (attr (attr c ''delta'') ''content'')) (get_choices chunk))"

fun first_nonempty :: "string list \<Rightarrow> string option" where
  "first_nonempty [] = None"
| "first_nonempty (s # ss) = (if s = [] then first_nonempty ss else Some s)"

definition chunk_finish_reason :: "json \<Rightarrow> string option" where
  "chunk_finish_reason chunk = first_nonempty (map (\<lambda>c. nonempty_text (attr c ''finish_reason'')) (get_choices chunk))"

section \<open>Putting the calls together\<close>

record call_slot =
  cs_id :: string
  cs_type :: string
  cs_name :: string
  cs_arguments :: string

type_synonym accumulator = "(int \<times> call_slot) list"

definition keep_first :: "string \<Rightarrow> json \<Rightarrow> string" where
  "keep_first old new = (if old = [] then nonempty_text new else old)"

text \<open>One fragment. The first identifier, type and name stay; the arguments are joined.\<close>

definition absorb :: "json \<Rightarrow> accumulator \<Rightarrow> accumulator" where
  "absorb entry acc =
     (let idx = index_of entry; fn = attr entry ''function'';
          slot = (case map_of acc idx of
             Some x \<Rightarrow> x | None \<Rightarrow> \<lparr>cs_id = [], cs_type = [], cs_name = [], cs_arguments = []\<rparr>)
      in dput idx \<lparr>cs_id = keep_first (cs_id slot) (attr entry ''id''),
                  cs_type = keep_first (cs_type slot) (attr entry ''type''),
                  cs_name = keep_first (cs_name slot) (attr fn ''name''),
                  cs_arguments = cs_arguments slot @ nonempty_text (attr fn ''arguments'')\<rparr> acc)"

definition feed :: "json \<Rightarrow> accumulator \<Rightarrow> accumulator" where
  "feed chunk acc = fold absorb (chunk_entries chunk) acc"

definition assembled_call :: "int \<Rightarrow> call_slot \<Rightarrow> json" where
  "assembled_call idx slot =
     JObj [(''id'', JStr (if cs_id slot = [] then ''stream_tool_call_'' @ str_int idx else cs_id slot)),
       (''type'', JStr (if cs_type slot = [] then ''function'' else cs_type slot)),
       (''function'', JObj [(''name'', JStr (cs_name slot)), (''arguments'', JStr (cs_arguments slot))])]"

text \<open>In the order in which the indices first appeared.\<close>

definition assembled :: "accumulator \<Rightarrow> (int \<times> json) list" where
  "assembled acc = map (\<lambda>(idx, slot). (idx, assembled_call idx slot)) acc"

section \<open>Rewriting a chunk\<close>

text \<open>A copy of the chunk with every choice passed through \<open>f\<close>.\<close>

definition on_choices :: "(json \<Rightarrow> hook_exc + json) \<Rightarrow> json \<Rightarrow> hook_exc + json" where
  "on_choices f chunk =
     bindE (map_exc f (get_choices chunk)) (\<lambda>cs.
       Inr (case attr chunk ''choices'' of JArr _ \<Rightarrow> JObj (dput ''choices'' (JArr cs) (as_obj chunk)) | _ \<Rightarrow> chunk))"

definition kept_deltas :: "int list \<Rightarrow> json \<Rightarrow> json list" where
  "kept_deltas drop_set choice = filter (\<lambda>entry. index_of entry \<notin> set drop_set) (tool_call_deltas choice)"

definition strip_choice :: "int list \<Rightarrow> json \<Rightarrow> hook_exc + json" where
  "strip_choice drop_set choice =
     (case attr choice ''delta'' of
        JNull \<Rightarrow> Inr choice
      | JObj delta \<Rightarrow>
          (let kept = kept_deltas drop_set choice
           in Inr (JObj (dput ''delta'' (JObj (dput ''tool_calls'' (if kept = [] then JNull else JArr kept) delta))
                (as_obj choice))))
      | _ \<Rightarrow> Inl HAttributeError)"

definition choice_carries :: "int list \<Rightarrow> json \<Rightarrow> bool" where
  "choice_carries drop_set choice \<longleftrightarrow>
     kept_deltas drop_set choice \<noteq> [] \<or> nonempty_text (attr (attr choice ''delta'') ''content'') \<noteq> []
     \<or> py_truth (attr choice ''finish_reason'')"

definition strip_tool_indices :: "int list \<Rightarrow> json \<Rightarrow> hook_exc + json \<times> bool" where
  "strip_tool_indices drop_set chunk =
     (if \<not> list_ex (\<lambda>i. i \<in> set drop_set) (chunk_tool_indices chunk) then Inr (chunk, True)
      else bindE (on_choices (strip_choice drop_set) chunk) (\<lambda>out.
        Inr (out, list_ex (choice_carries drop_set) (get_choices chunk))))"

definition finish_choice :: "string \<Rightarrow> json \<Rightarrow> hook_exc + json" where
  "finish_choice reason choice =
     (case choice of JObj d \<Rightarrow> Inr (JObj (dput ''finish_reason'' (JStr reason) d)) | _ \<Rightarrow> Inl HAttributeError)"

definition set_finish_reason :: "string \<Rightarrow> json \<Rightarrow> hook_exc + json" where
  "set_finish_reason reason chunk = on_choices (finish_choice reason) chunk"

definition refusal_notice :: "(json \<Rightarrow> string) \<Rightarrow> json list \<Rightarrow> bool \<Rightarrow> string" where
  "refusal_notice dumps refusals lead_newline =
     (if lead_newline then [CHR 0x0A] else []) @ refusal_text dumps refusals"

definition notice_choice :: "string \<Rightarrow> json \<Rightarrow> hook_exc + json" where
  "notice_choice notice choice =
     (case attr choice ''delta'' of
        JNull \<Rightarrow> Inr choice
      | JObj delta \<Rightarrow> Inr (JObj (dput ''finish_reason'' JNull (dput ''delta''
          (JObj (dput ''role'' JNull (dput ''tool_calls'' JNull (dput ''content'' (JStr notice) delta)))) (as_obj choice))))
      | _ \<Rightarrow> Inl HAttributeError)"

definition build_refusal_chunk :: "json \<Rightarrow> string \<Rightarrow> hook_exc + json" where
  "build_refusal_chunk template notice =
     bindE (on_choices (notice_choice notice) template) (\<lambda>out.
       Inr (if attr out ''usage'' \<noteq> JNull then JObj (dput ''usage'' JNull (as_obj out)) else out))"

section \<open>The tail\<close>

record tail_state =
  ts_out :: "json list"
  ts_content :: bool
  ts_finish :: "nat option"

text \<open>One chunk of the tail.\<close>

definition emit_chunk :: "int list \<Rightarrow> bool \<Rightarrow> json \<Rightarrow> tail_state \<Rightarrow> hook_exc + tail_state" where
  "emit_chunk denied all_denied chunk st =
     bindE (strip_tool_indices denied chunk) (\<lambda>(stripped, carries).
       if \<not> carries then Inr st
       else bindE (if all_denied \<and> chunk_finish_reason stripped \<noteq> None then set_finish_reason ''stop'' stripped
                   else Inr stripped) (\<lambda>rewritten.
         let ends = (chunk_finish_reason rewritten \<noteq> None \<and> ts_finish st = None)
         in Inr \<lparr>ts_out = ts_out st @ [rewritten],
                 ts_content = (if ends then ts_content st else ts_content st \<or> chunk_content rewritten \<noteq> []),
                 ts_finish = (if ends then Some (length (ts_out st)) else ts_finish st)\<rparr>))"

fun emit_chunks :: "int list \<Rightarrow> bool \<Rightarrow> json list \<Rightarrow> tail_state \<Rightarrow> hook_exc + tail_state" where
  "emit_chunks denied all_denied [] st = Inr st"
| "emit_chunks denied all_denied (chunk # chunks) st =
     bindE (emit_chunk denied all_denied chunk st) (emit_chunks denied all_denied chunks)"

definition insert_at :: "nat \<Rightarrow> 'a \<Rightarrow> 'a list \<Rightarrow> 'a list" where
  "insert_at n x xs = take n xs @ x # drop n xs"

definition emit_stream ::
  "(json \<Rightarrow> string) \<Rightarrow> json list \<Rightarrow> int list \<Rightarrow> json list \<Rightarrow> bool \<Rightarrow> hook_exc + json list" where
  "emit_stream dumps buffered denied refusals released_content =
     (if denied = [] then Inr buffered
      else
        let all_denied = list_all (\<lambda>i. i \<in> set denied) (concat (map chunk_tool_indices buffered))
        in bindE (emit_chunks denied all_denied buffered
               \<lparr>ts_out = [], ts_content = released_content, ts_finish = None\<rparr>) (\<lambda>st.
           bindE (build_refusal_chunk (last buffered) (refusal_notice dumps refusals (ts_content st))) (\<lambda>notice.
             Inr (insert_at (case ts_finish st of None \<Rightarrow> length (ts_out st) | Some n \<Rightarrow> n) notice (ts_out st)))))"

section \<open>The streaming hook\<close>

definition denied_of :: "(int \<times> json) list \<Rightarrow> outcome list \<Rightarrow> int list" where
  "denied_of calls outs = map (fst \<circ> fst) (filter (\<lambda>(_, out). \<not> oc_allowed out) (zip calls outs))"

text \<open>\<open>_rule_on_stream\<close>: the chunks to let out, and what to record.\<close>

definition rule_on_stream ::
  "seat \<Rightarrow> guardrail \<Rightarrow> (json \<Rightarrow> string) \<Rightarrow> (nat \<Rightarrow> ruling_world) \<Rightarrow> request_world \<Rightarrow> json list \<Rightarrow> accumulator \<Rightarrow> bool
     \<Rightarrow> (hook_exc + json list \<times> (dict list \<times> tenant) option) option" where
  "rule_on_stream s g dumps w q buffered acc released_content =
     (let calls = assembled acc; raws = map snd calls; r = snd (resolve_request s q);
          done = (\<lambda>emitted x. Some (bindE emitted (\<lambda>chunks. Inr (chunks, x))))
      in if calls = [] then Some (Inr (buffered, None))
         else case rs_tenant r of
           None \<Rightarrow> done (bindE (map_exc (normalize_tool_call (se_lb s) (se_gv s)) raws) (\<lambda>cs.
               emit_stream dumps buffered (map fst calls)
                 (map (\<lambda>c. refusal_json (refuse_unmapped_tenant c (or_text (rs_reason r) []))) cs) released_content)) None
         | Some t \<Rightarrow>
             (case asked_of s g q (last buffered) t (rs_identity r) of
                Inl e \<Rightarrow> Some (Inl e)
              | Inr a \<Rightarrow>
                  (case rule_each s w a t 0 raws of
                     None \<Rightarrow> None
                   | Some (Inl e) \<Rightarrow> Some (Inl e)
                   | Some (Inr outs) \<Rightarrow>
                       done (emit_stream dumps buffered (denied_of calls outs) (refusals_of outs) released_content)
                         (Some (ledgers_of outs, t)))))"

definition refuse_stream_everything ::
  "seat \<Rightarrow> (json \<Rightarrow> string) \<Rightarrow> json list \<Rightarrow> accumulator \<Rightarrow> hook_exc \<Rightarrow> bool \<Rightarrow> json list" where
  "refuse_stream_everything s dumps buffered acc e released_content =
     (case bindE (map_exc (normalize_tool_call (se_lb s) (se_gv s)) (map snd (assembled acc))) (\<lambda>cs.
             emit_stream dumps buffered (map fst (assembled acc))
               (map (\<lambda>c. JObj (refusal c ''reeflex_unavailable'' fail_rule_json
                  (failed_hook_reason s ''streamed response'' e) JNull)) cs) released_content) of
        Inl _ \<Rightarrow> [] | Inr chunks \<Rightarrow> chunks)"

text \<open>\<open>async_post_call_streaming_iterator_hook\<close> on a stream that comes to its end: the chunks the caller receives.\<close>

definition streaming_hook ::
  "seat \<Rightarrow> guardrail \<Rightarrow> (json \<Rightarrow> string) \<Rightarrow> (nat \<Rightarrow> ruling_world) \<Rightarrow> request_world \<Rightarrow> json list \<Rightarrow> json list option" where
  "streaming_hook s g dumps w q chunks =
     (let passed = takeWhile (\<lambda>c. \<not> chunk_has_tool_call c) chunks;
          buffered = dropWhile (\<lambda>c. \<not> chunk_has_tool_call c) chunks;
          released_content = list_ex (\<lambda>c. chunk_content c \<noteq> []) passed;
          acc = fold feed buffered []
      in if buffered = [] then Some passed
         else case rule_on_stream s g dumps w q buffered acc released_content of
           None \<Rightarrow> None
         | Some (Inr (out, _)) \<Rightarrow> Some (passed @ out)
         | Some (Inl e) \<Rightarrow> Some (passed @ refuse_stream_everything s dumps buffered acc e released_content))"

section \<open>Only the pieces of cleared calls get out\<close>

lemma map_exc_all2: "map_exc f xs = Inr ys \<Longrightarrow> list_all2 (\<lambda>x y. f x = Inr y) xs ys"
  by (induction xs arbitrary: ys) (auto simp: py_simps)

lemma map_exc_deltas:
  assumes "map_exc f cs = Inr ds" "\<And>c d. c \<in> set cs \<Longrightarrow> f c = Inr d \<Longrightarrow> tool_call_deltas d = h (tool_call_deltas c)"
  shows "map tool_call_deltas ds = map (h \<circ> tool_call_deltas) cs"
  using assms by (induction cs arbitrary: ds) (auto simp: py_simps)

lemma get_choices_JArr: "get_choices (JObj (dput ''choices'' (JArr cs) d)) = cs"
  by (simp add: get_choices_def attr_def)

lemma no_deltas [simp]: "attr c ''delta'' = JNull \<Longrightarrow> tool_call_deltas c = []"
  by (simp add: tool_call_deltas_def attr_def)

lemma items_not_list: "\<not> (\<exists>xs. j = JArr xs) \<Longrightarrow> c \<in> set (py_items j) \<Longrightarrow> tool_call_deltas c = []"
  using attr_of_items [of j c "''delta''"] by simp

lemma on_choices_entries:
  assumes "on_choices f chunk = Inr out"
    and "\<And>c d. f c = Inr d \<Longrightarrow> tool_call_deltas d = h (tool_call_deltas c)" and "h [] = []"
  shows "chunk_entries out = concat (map (h \<circ> tool_call_deltas) (get_choices chunk))"
proof -
  obtain cs where cs: "map_exc f (get_choices chunk) = Inr cs"
    "out = (case attr chunk ''choices'' of JArr _ \<Rightarrow> JObj (dput ''choices'' (JArr cs) (as_obj chunk)) | _ \<Rightarrow> chunk)"
    using assms(1) by (auto simp: on_choices_def py_simps)
  show ?thesis
  proof (cases "\<exists>xs. attr chunk ''choices'' = JArr xs")
    case True
    then have "get_choices out = cs" using cs(2) get_choices_JArr by auto
    then show ?thesis using map_exc_deltas [OF cs(1), of h] assms(2) by (simp add: chunk_entries_def)
  next
    case False
    then have "out = chunk" using cs(2) by (cases "attr chunk ''choices''") auto
    moreover have "tool_call_deltas c = []" if "c \<in> set (get_choices chunk)" for c
      using items_not_list [OF False] that by (simp add: get_choices_def)
    ultimately show ?thesis using assms(3) by (simp add: chunk_entries_def cong: map_cong)
  qed
qed

lemma strip_choice_deltas:
  "strip_choice ds c = Inr d \<Longrightarrow> tool_call_deltas d = filter (\<lambda>entry. index_of entry \<notin> set ds) (tool_call_deltas c)"
  by (auto simp: strip_choice_def kept_deltas_def tool_call_deltas_def attr_def Let_def split: json.splits)

lemma concat_map_filter: "concat (map (filter P \<circ> g) xs) = filter P (concat (map g xs))"
  by (simp add: filter_concat comp_def)

lemma strip_entries:
  assumes "strip_tool_indices ds chunk = Inr (out, carries)"
  shows "chunk_entries out = filter (\<lambda>entry. index_of entry \<notin> set ds) (chunk_entries chunk)"
    and "\<not> carries \<Longrightarrow> chunk_entries out = []"
proof -
  let ?P = "\<lambda>entry. index_of entry \<notin> set ds"
  show e: "chunk_entries out = filter ?P (chunk_entries chunk)"
  proof (cases "list_ex (\<lambda>i. i \<in> set ds) (chunk_tool_indices chunk)")
    case True
    then have "on_choices (strip_choice ds) chunk = Inr out" using assms by (auto simp: strip_tool_indices_def py_simps)
    from on_choices_entries [where h = "filter ?P", OF this strip_choice_deltas] show ?thesis
      by (simp add: concat_map_filter chunk_entries_def)
  next
    case False
    then show ?thesis using assms
      by (auto simp: strip_tool_indices_def chunk_tool_indices_def list_ex_iff intro!: filter_True [symmetric])
  qed
  assume "\<not> carries"
  then have "\<not> list_ex (choice_carries ds) (get_choices chunk)"
    using assms by (auto simp: strip_tool_indices_def py_simps split: if_splits)
  then have "filter ?P (tool_call_deltas c) = []" if "c \<in> set (get_choices chunk)" for c
    using that by (auto simp: list_ex_iff choice_carries_def kept_deltas_def)
  then have "filter ?P (chunk_entries chunk) = []" by (auto simp: chunk_entries_def filter_concat)
  then show "chunk_entries out = []" by (simp only: e)
qed

lemma finish_entries:
  assumes "set_finish_reason reason chunk = Inr out"
  shows "chunk_entries out = chunk_entries chunk"
proof -
  have "tool_call_deltas d = id (tool_call_deltas c)" if "finish_choice reason c = Inr d" for c d
    using that by (auto simp: finish_choice_def tool_call_deltas_def attr_def split: json.splits)
  from on_choices_entries [where h = id, OF assms [unfolded set_finish_reason_def] this] show ?thesis
    by (simp add: chunk_entries_def)
qed

lemma chunk_entries_usage: "chunk_entries (JObj (dput ''usage'' v (as_obj c))) = chunk_entries c"
  by (simp add: chunk_entries_def get_choices_def attr_def)

lemma notice_entries:
  assumes "build_refusal_chunk template text = Inr out"
  shows "chunk_entries out = []"
proof -
  obtain o1 where o1: "on_choices (notice_choice text) template = Inr o1"
    "out = (if attr o1 ''usage'' \<noteq> JNull then JObj (dput ''usage'' JNull (as_obj o1)) else o1)"
    using assms by (auto simp: build_refusal_chunk_def py_simps)
  have "tool_call_deltas d = (\<lambda>_. []) (tool_call_deltas c)" if "notice_choice text c = Inr d" for c d
    using that by (auto simp: notice_choice_def tool_call_deltas_def attr_def split: json.splits)
  from on_choices_entries [where h = "\<lambda>_. []", OF o1(1) this] have "chunk_entries o1 = []" by (simp add: concat_eq_Nil_conv)
  then show ?thesis using o1(2) chunk_entries_usage by auto
qed

lemma emit_chunk_entries:
  assumes "emit_chunk ds all_denied chunk st = Inr st'"
  shows "\<exists>xs. ts_out st' = ts_out st @ xs
    \<and> concat (map chunk_entries xs) = filter (\<lambda>entry. index_of entry \<notin> set ds) (chunk_entries chunk)"
proof -
  obtain stripped carries where s: "strip_tool_indices ds chunk = Inr (stripped, carries)"
    using assms by (auto simp: emit_chunk_def py_simps)
  note e = strip_entries [OF s]
  show ?thesis
  proof (cases carries)
    case False
    then have "st' = st" using assms by (simp add: emit_chunk_def s)
    then show ?thesis using e False by (intro exI [of _ "[]"]) simp
  next
    case True
    then obtain rewritten where r: "rewritten = stripped \<or> set_finish_reason ''stop'' stripped = Inr rewritten"
      "ts_out st' = ts_out st @ [rewritten]"
      using assms by (auto simp: emit_chunk_def s py_simps Let_def split: if_splits)
    then have "chunk_entries rewritten = chunk_entries stripped" using finish_entries by auto
    then show ?thesis using r(2) e(1) by (intro exI [of _ "[rewritten]"]) simp
  qed
qed

lemma emit_chunks_entries:
  "emit_chunks ds all_denied chunks st = Inr st' \<Longrightarrow>
     concat (map chunk_entries (ts_out st')) = concat (map chunk_entries (ts_out st))
       @ filter (\<lambda>entry. index_of entry \<notin> set ds) (concat (map chunk_entries chunks))"
proof (induction chunks arbitrary: st)
  case (Cons c cs)
  then obtain st1 where s: "emit_chunk ds all_denied c st = Inr st1" "emit_chunks ds all_denied cs st1 = Inr st'"
    by (auto simp: py_simps)
  from emit_chunk_entries [OF s(1)] Cons.IH [OF s(2)] show ?case by auto
qed simp

lemma insert_at_entries:
  assumes "g x = []"
  shows "concat (map g (insert_at n x xs)) = concat (map g xs)"
proof -
  have "concat (map g (insert_at n x xs)) = concat (map g (take n xs)) @ concat (map g (drop n xs))"
    using assms by (simp add: insert_at_def)
  also have "\<dots> = concat (map g (take n xs @ drop n xs))" by (simp only: map_append concat_append)
  finally show ?thesis by (simp only: append_take_drop_id)
qed

lemma emit_stream_entries:
  assumes "emit_stream dumps buffered ds refusals rc = Inr out"
  shows "concat (map chunk_entries out) = filter (\<lambda>entry. index_of entry \<notin> set ds) (concat (map chunk_entries buffered))"
proof (cases "ds = []")
  case False
  then obtain st notice where s: "emit_chunks ds (list_all (\<lambda>i. i \<in> set ds) (concat (map chunk_tool_indices buffered)))
      buffered \<lparr>ts_out = [], ts_content = rc, ts_finish = None\<rparr> = Inr st"
    and n: "build_refusal_chunk (last buffered) (refusal_notice dumps refusals (ts_content st)) = Inr notice"
    and out: "out = insert_at (case ts_finish st of None \<Rightarrow> length (ts_out st) | Some n \<Rightarrow> n) notice (ts_out st)"
    using assms by (auto simp: emit_stream_def Let_def py_simps)
  show ?thesis
    unfolding out insert_at_entries [of chunk_entries, OF notice_entries [OF n]] using emit_chunks_entries [OF s] by simp
qed (use assms in \<open>simp add: emit_stream_def\<close>)

section \<open>What was ruled on is what was sent\<close>

text \<open>The arguments a slot has gathered, and the fragment an entry adds.\<close>

definition gathered :: "accumulator \<Rightarrow> int \<Rightarrow> string" where
  "gathered acc i = (case map_of acc i of None \<Rightarrow> [] | Some slot \<Rightarrow> cs_arguments slot)"

definition fragment :: "json \<Rightarrow> string" where
  "fragment entry = nonempty_text (attr (attr entry ''function'') ''arguments'')"

lemma gathered_absorb:
  "gathered (absorb entry acc) i = gathered acc i @ (if index_of entry = i then fragment entry else [])"
  by (auto simp: gathered_def absorb_def Let_def fragment_def split: option.split)

lemma gathered_fold:
  "gathered (fold absorb entries acc) i =
     gathered acc i @ concat (map fragment (filter (\<lambda>entry. index_of entry = i) entries))"
  by (induction entries arbitrary: acc) (simp_all add: gathered_absorb)

lemma dput_key_set: "fst ` set (dput k v d) = insert k (fst ` set d)"
  by (induction k v d rule: dput.induct) auto

lemma absorb_keys: "fst ` set (absorb entry acc) = insert (index_of entry) (fst ` set acc)"
  by (simp add: absorb_def Let_def dput_key_set)

lemma fold_absorb_keys: "fst ` set (fold absorb entries acc) = index_of ` set entries \<union> fst ` set acc"
  by (induction entries arbitrary: acc) (auto simp: absorb_keys)

lemma fold_feed: "fold feed chunks acc = fold absorb (concat (map chunk_entries chunks)) acc"
  by (induction chunks arbitrary: acc) (simp_all add: feed_def)

lemma absorb_distinct: "distinct (map fst acc) \<Longrightarrow> distinct (map fst (absorb entry acc))"
  by (simp add: absorb_def Let_def distinct_keys_dput)

lemma fold_absorb_distinct: "distinct (map fst acc) \<Longrightarrow> distinct (map fst (fold absorb entries acc))"
  by (induction entries arbitrary: acc) (simp_all add: absorb_distinct)

lemma rule_each_cleared:
  "rule_each s w a t k raws = Some (Inr outs) \<Longrightarrow>
     length outs = length raws \<and> (\<forall>j < length raws. oc_allowed (outs ! j) \<longrightarrow> cleared s w a t (raws ! j))"
proof (induction raws arbitrary: k outs)
  case (Cons raw raws)
  then obtain call out outs' where c: "normalize_tool_call (se_lb s) (se_gv s) raw = Inr call"
    "rule_one_call s (w k) a t call = Some (Inr out)" "rule_each s w a t (Suc k) raws = Some (Inr outs')"
    "outs = out # outs'"
    by (auto split: sum.splits option.splits)
  have "oc_allowed out \<Longrightarrow> cleared s w a t raw" using c unfolding cleared_def by blast
  with Cons.IH [OF c(3)] show ?case by (auto simp: c(4) nth_Cons split: nat.split)
qed simp

text \<open>The call at an index was put together from every fragment with that index, ruled on for the caller's own
  organisation, and released.\<close>

definition index_cleared ::
  "seat \<Rightarrow> guardrail \<Rightarrow> (nat \<Rightarrow> ruling_world) \<Rightarrow> request_world \<Rightarrow> json list \<Rightarrow> int \<Rightarrow> bool" where
  "index_cleared s g w q chunks i \<longleftrightarrow>
     (\<exists>slot. cleared_for s g w q (last chunks) (assembled_call i slot)
        \<and> cs_arguments slot =
            concat (map fragment (filter (\<lambda>entry. index_of entry = i) (concat (map chunk_entries chunks)))))"

text \<open>The pieces of tool calls in the output are all the pieces of some cleared calls, in order, and no others.\<close>

definition lets_out_cleared ::
  "seat \<Rightarrow> guardrail \<Rightarrow> (nat \<Rightarrow> ruling_world) \<Rightarrow> request_world \<Rightarrow> json list \<Rightarrow> json list \<Rightarrow> bool" where
  "lets_out_cleared s g w q chunks out \<longleftrightarrow>
     (\<exists>R. (\<forall>i \<in> R. index_cleared s g w q chunks i)
        \<and> concat (map chunk_entries out) = filter (\<lambda>entry. index_of entry \<in> R) (concat (map chunk_entries chunks)))"

lemma lets_out_none: "concat (map chunk_entries out) = [] \<Longrightarrow> lets_out_cleared s g w q chunks out"
  unfolding lets_out_cleared_def by (rule exI [of _ "{}"]) simp

lemma refused_tail:
  assumes "emit_stream dumps buffered (map fst (assembled (fold feed buffered []))) refusals rc = Inr out"
  shows "concat (map chunk_entries out) = []"
proof -
  have "index_of entry \<in> set (map fst (assembled (fold feed buffered [])))"
    if "entry \<in> set (concat (map chunk_entries buffered))" for entry
    using that fold_absorb_keys [of "concat (map chunk_entries buffered)" "[]"]
    by (auto simp: assembled_def fold_feed image_image case_prod_beta)
  then show ?thesis unfolding emit_stream_entries [OF assms] by (simp only: filter_empty_conv) blast
qed

lemma refuse_stream_nothing:
  "concat (map chunk_entries (refuse_stream_everything s dumps buffered (fold feed buffered []) e rc)) = []"
proof (cases "bindE (map_exc (normalize_tool_call (se_lb s) (se_gv s)) (map snd (assembled (fold feed buffered [])))) (\<lambda>cs.
             emit_stream dumps buffered (map fst (assembled (fold feed buffered [])))
               (map (\<lambda>c. JObj (refusal c ''reeflex_unavailable'' fail_rule_json
                  (failed_hook_reason s ''streamed response'' e) JNull)) cs) rc)")
  case (Inr out)
  then obtain refusals where "emit_stream dumps buffered (map fst (assembled (fold feed buffered []))) refusals rc = Inr out"
    by (auto simp: py_simps)
  from refused_tail [OF this] show ?thesis by (simp only: refuse_stream_everything_def Inr sum.case)
qed (simp add: refuse_stream_everything_def)

lemma ruled_tail:
  assumes "buffered \<noteq> []" "acc = fold feed buffered []"
    and "rule_on_stream s g dumps w q buffered acc rc = Some (Inr (out, x))"
  shows "lets_out_cleared s g w q buffered out"
proof -
  let ?calls = "assembled acc" and ?r = "snd (resolve_request s q)" and ?entries = "concat (map chunk_entries buffered)"
  have keys: "index_of entry \<in> fst ` set acc" if "entry \<in> set ?entries" for entry
    using that fold_absorb_keys [of ?entries "[]"] by (simp add: assms(2) fold_feed)
  show ?thesis
  proof (cases "?calls = []")
    case True
    then have "acc = []" by (simp add: assembled_def)
    with keys have "?entries = []" by (metis empty_iff image_empty list.set(1) list.set_intros(1) neq_Nil_conv)
    then show ?thesis using assms(3) True by (intro lets_out_none) (simp add: rule_on_stream_def)
  next
    case some: False
    show ?thesis
    proof (cases "rs_tenant ?r")
      case None
      then obtain refusals where "emit_stream dumps buffered (map fst ?calls) refusals rc = Inr out"
        using assms(3) some by (auto simp: rule_on_stream_def Let_def py_simps)
      then show ?thesis using refused_tail unfolding assms(2) by (intro lets_out_none) blast
    next
      case (Some t)
      obtain a where a: "asked_of s g q (last buffered) t (rs_identity ?r) = Inr a"
        using assms(3) some Some by (auto simp: rule_on_stream_def Let_def split: sum.splits)
      obtain outs where o: "rule_each s w a t 0 (map snd ?calls) = Some (Inr outs)"
        and e: "emit_stream dumps buffered (denied_of ?calls outs) (refusals_of outs) rc = Inr out"
        using assms(3) some Some a by (auto simp: rule_on_stream_def Let_def py_simps split: option.splits sum.splits)
      let ?R = "fst ` set acc - set (denied_of ?calls outs)"
      have "index_cleared s g w q buffered i" if i: "i \<in> ?R" for i
      proof -
        obtain slot where "(i, slot) \<in> set acc" using i by auto
        then obtain j where j: "j < length acc" "acc ! j = (i, slot)" by (metis in_set_conv_nth)
        then have cj: "?calls ! j = (i, assembled_call i slot)" "j < length ?calls" by (simp_all add: assembled_def)
        note each = rule_each_cleared [OF o]
        have "oc_allowed (outs ! j)"
        proof (rule ccontr)
          assume "\<not> oc_allowed (outs ! j)"
          moreover have "(?calls ! j, outs ! j) \<in> set (zip ?calls outs)" using cj(2) each by (auto simp: in_set_zip)
          ultimately have "i \<in> set (denied_of ?calls outs)" unfolding denied_of_def using cj(1) by force
          with i show False by simp
        qed
        then have "cleared s w a t (assembled_call i slot)" using each cj by auto
        then have "cleared_for s g w q (last buffered) (assembled_call i slot)"
          using Some a unfolding cleared_for_def by blast
        moreover have "distinct (map fst acc)" by (simp add: assms(2) fold_feed fold_absorb_distinct)
        then have "map_of acc i = Some slot" using j by (metis map_of_eq_Some_iff nth_mem)
        then have "cs_arguments slot = gathered acc i" by (simp add: gathered_def)
        then have "cs_arguments slot = concat (map fragment (filter (\<lambda>entry. index_of entry = i) ?entries))"
          by (simp add: assms(2) fold_feed gathered_fold) (simp add: gathered_def)
        ultimately show ?thesis unfolding index_cleared_def by blast
      qed
      moreover have "filter (\<lambda>entry. index_of entry \<notin> set (denied_of ?calls outs)) ?entries
          = filter (\<lambda>entry. index_of entry \<in> ?R) ?entries"
        by (rule filter_cong) (use keys in auto)
      ultimately show ?thesis unfolding lets_out_cleared_def emit_stream_entries [OF e] by blast
    qed
  qed
qed

lemma passed_entries: "concat (map chunk_entries (takeWhile (\<lambda>c. \<not> chunk_has_tool_call c) chunks)) = []"
  by (auto simp: chunk_has_tool_call_def chunk_tool_indices_def dest!: set_takeWhileD)

lemma tail_lets_out:
  assumes "lets_out_cleared s g w q (dropWhile P chunks) out" "dropWhile P chunks \<noteq> []"
    and "concat (map chunk_entries (takeWhile P chunks)) = []"
  shows "lets_out_cleared s g w q chunks (takeWhile P chunks @ out)"
proof -
  have "concat (map chunk_entries chunks) = concat (map chunk_entries (takeWhile P chunks @ dropWhile P chunks))"
    by simp
  also have "\<dots> = concat (map chunk_entries (dropWhile P chunks))" using assms(3) by (simp only: map_append concat_append append_Nil)
  finally have e: "concat (map chunk_entries chunks) = concat (map chunk_entries (dropWhile P chunks))" .
  have "last (dropWhile P chunks) = last chunks"
    using assms(2) by (metis last_appendR takeWhile_dropWhile_id)
  moreover have "concat (map chunk_entries (takeWhile P chunks @ out)) = concat (map chunk_entries out)"
    using assms(3) by (simp only: map_append concat_append append_Nil)
  ultimately show ?thesis using assms(1) by (simp only: lets_out_cleared_def index_cleared_def e)
qed


text \<open>A stream with nothing refused in it is let out as it came.\<close>

lemma stream_without_calls: "list_all (\<lambda>c. \<not> chunk_has_tool_call c) chunks \<Longrightarrow> streaming_hook s g dumps w q chunks = Some chunks"
proof -
  assume "list_all (\<lambda>c. \<not> chunk_has_tool_call c) chunks"
  then have p: "c \<in> set chunks \<Longrightarrow> \<not> chunk_has_tool_call c" for c by (simp add: list_all_iff)
  then have "dropWhile (\<lambda>c. \<not> chunk_has_tool_call c) chunks = []" by simp
  moreover have "takeWhile (\<lambda>c. \<not> chunk_has_tool_call c) chunks = chunks" using p by simp
  ultimately show ?thesis by (simp only: streaming_hook_def Let_def if_True simp_thms)
qed

lemma nothing_denied_is_verbatim: "emit_stream dumps buffered [] refusals rc = Inr buffered"
  by (simp add: emit_stream_def)

text \<open>Two choices of one response number their calls from 0 alike, and an index is all that is kept: the arguments of
  different calls are joined into one, which reads as no arguments at all.\<close>

lemma choices_are_joined:
  "assembled (feed (JObj [(''choices'', JArr (map (\<lambda>(name, args). JObj [(''delta'', JObj [(''tool_calls'',
       JArr [JObj [(''index'', JInt 0), (''function'', JObj [(''name'', JStr name), (''arguments'', JStr args)])]])])])
       [(''read'', ''{}''), (''run_shell'', ''{1}'')]))]) [])
   = [(0, JObj [(''id'', JStr ''stream_tool_call_0''), (''type'', JStr ''function''),
        (''function'', JObj [(''name'', JStr ''read''), (''arguments'', JStr ''{}{1}'')])])]"
  by code_simp

end
