(* ===== verification/GatewayConnector.thy ===== *)
theory GatewayConnector
  imports GatewayReply ShellText
begin

text \<open>
  The same seat as a server of its own, asked by the proxy over LiteLLM's generic guardrail API
  (\<open>reeflex-litellm/reeflex_litellm/connector.py\<close>): one request with the model's response in, \<open>NONE\<close> or
  \<open>BLOCKED\<close> out. A request carries what its handler reads of the headers and the body; reading the socket is left
  out, and so are the log lines.
\<close>

section \<open>The answer to one payload\<close>

record counters =
  ct_responses :: nat
  ct_decided :: nat
  ct_blocked :: nat
  ct_allowed :: nat
  ct_pre_call :: nat
  ct_unmapped :: nat
  ct_errors :: nat
  ct_unauthorised :: nat

record connector =
  cn_token :: "string option"
  cn_principal :: "string option"
  cn_environment :: "string option"
  cn_hold_wait :: "pyfloat option"
  cn_session_header :: "string option"
  cn_max_body :: int

definition param_of :: "dict \<Rightarrow> string \<Rightarrow> json" where
  "param_of payload name = dget (as_obj (dget payload ''additional_provider_specific_params'')) name"

text \<open>A header whose value the proxy has replaced is not one.\<close>

fun forwarded_header :: "library \<Rightarrow> string \<Rightarrow> dict \<Rightarrow> string option" where
  "forwarded_header lb name [] = None"
| "forwarded_header lb name ((k, v) # hs) =
     (case v of
        JStr s \<Rightarrow>
          if lower lb k = name \<and> strip lb s \<noteq> [] \<and> strip lb s \<noteq> ''[present]'' then Some (strip lb s)
          else forwarded_header lb name hs
      | _ \<Rightarrow> forwarded_header lb name hs)"

definition connector_session :: "library \<Rightarrow> connector \<Rightarrow> string \<Rightarrow> dict \<Rightarrow> string" where
  "connector_session lb cn unused payload =
     (let name = lower lb (or_text (cn_session_header cn) ''x-reeflex-session'');
          found = text_or (stripped_text lb (param_of payload ''reeflex_session''))
            (text_or (forwarded_header lb name (as_obj (dget payload ''request_headers'')))
            (text_or (stripped_text lb (dget (as_obj (dget payload ''request_data'')) ''user_api_key_end_user_id''))
            (text_or (stripped_text lb (dget payload ''litellm_trace_id''))
                     (stripped_text lb (dget payload ''litellm_call_id'')))))
      in case found of Some s \<Rightarrow> s | None \<Rightarrow> ''litellm-'' @ unused)"

definition blocked :: "(json \<Rightarrow> string) \<Rightarrow> library \<Rightarrow> json list \<Rightarrow> dict" where
  "blocked dumps lb refusals =
     (let first = (case refusals of [] \<Rightarrow> JNull | r # _ \<Rightarrow> dget (as_obj r) ''reason'');
          head = or_else first (JStr ''Reeflex refused this response.'')
      in [(''action'', JStr ''BLOCKED''),
          (''blocked_reason'', JStr (py_str (lb_ucd lb) head @ '' '' @ refusal_text dumps refusals))])"

definition blocked_for_internal_error :: "(json \<Rightarrow> string) \<Rightarrow> seat \<Rightarrow> hook_exc \<Rightarrow> dict" where
  "blocked_for_internal_error dumps s e =
     blocked dumps (se_lb s) [JObj [(''error'', JStr ''reeflex_unavailable''), (''rule'', JStr fail_rule),
       (''reason'', JStr (''Reeflex: the connector'' @ [CHR 0x27]
          @ ''s governance path failed, so no tool call on this response was cleared and the response is refused [rule=''
          @ fail_rule @ '']: '' @ el_say (se_el s) (EvidenceOther e))),
       (''stage'', JStr stage_refused)]]"

definition connector_identity :: "seat \<Rightarrow> dict \<Rightarrow> gateway_identity" where
  "connector_identity s payload = read_identity_from_gateway_metadata (se_lb s) (dget payload ''request_data'')"

definition connector_resolution :: "seat \<Rightarrow> request_world \<Rightarrow> dict \<Rightarrow> tenant_resolution" where
  "connector_resolution s q payload =
     snd (resolve_identity (se_lb s) (se_gv s) (qw_say q) (qw_stat q) (qw_cache q) (connector_identity s payload))"

definition connector_asked :: "seat \<Rightarrow> connector \<Rightarrow> request_world \<Rightarrow> dict \<Rightarrow> tenant \<Rightarrow> asked" where
  "connector_asked s cn q payload t =
     (let lb = se_lb s;
          model = (case stripped_text lb (dget payload ''model'') of Some m \<Rightarrow> m | None \<Rightarrow> ''unknown'');
          nonempty = (\<lambda>x. if x = Some [] then None else x)
      in \<lparr>as_session = connector_session lb cn (qw_fresh q) payload, as_model = model,
          as_principal = jopt (text_or (stripped_text lb (param_of payload ''reeflex_principal'')) (nonempty (cn_principal cn))),
          as_environment =
            text_or (stripped_text lb (param_of payload ''reeflex_environment'')) (nonempty (cn_environment cn)),
          as_hold_wait = cn_hold_wait cn,
          as_routing = Some (routing_block lb (se_gv s) (qw_net q)
              [(''model'', JStr model), (''stream'', dget payload ''stream'')] (JObj [(''model'', JStr model)]) t
              (connector_identity s payload) model
            @ [(''transport'', JStr ''generic_guardrail_api''),
               (''litellm_version'', jopt (stripped_text lb (dget payload ''litellm_version'')))])\<rparr>)"

text \<open>\<open>rule_one_call\<close> over calls that are normalized already.\<close>

fun rule_normalized ::
  "seat \<Rightarrow> (nat \<Rightarrow> ruling_world) \<Rightarrow> asked \<Rightarrow> tenant \<Rightarrow> nat \<Rightarrow> gateway_call list \<Rightarrow> (hook_exc + outcome list) option" where
  "rule_normalized s w a t k [] = Some (Inr [])"
| "rule_normalized s w a t k (call # calls) =
     (case rule_one_call s (w k) a t call of
        None \<Rightarrow> None
      | Some (Inl e) \<Rightarrow> Some (Inl e)
      | Some (Inr out) \<Rightarrow>
          (case rule_normalized s w a t (Suc k) calls of
             None \<Rightarrow> None
           | Some (Inl e) \<Rightarrow> Some (Inl e)
           | Some (Inr outs) \<Rightarrow> Some (Inr (out # outs))))"

text \<open>\<open>decide_payload\<close>: the counters, and the answer with the lines to record.\<close>

definition decide_payload ::
  "seat \<Rightarrow> connector \<Rightarrow> (json \<Rightarrow> string) \<Rightarrow> (nat \<Rightarrow> ruling_world) \<Rightarrow> request_world \<Rightarrow> counters \<Rightarrow> dict
     \<Rightarrow> counters \<times> (hook_exc + dict \<times> (dict list \<times> tenant) option) option" where
  "decide_payload s cn dumps w q c payload =
     (let none = [(''action'', JStr ''NONE'')]
      in if dget payload ''input_type'' \<noteq> JStr ''response''
         then (c\<lparr>ct_pre_call := Suc (ct_pre_call c)\<rparr>, Some (Inr (none, None)))
         else
           let c1 = c\<lparr>ct_responses := Suc (ct_responses c)\<rparr>
           in case dget payload ''tool_calls'' of
                JArr (raw # raws) \<Rightarrow>
                  (case map_exc (normalize_tool_call (se_lb s) (se_gv s)) (raw # raws) of
                     Inl e \<Rightarrow> (c1, Some (Inl e))
                   | Inr calls \<Rightarrow>
                       (let c2 = c1\<lparr>ct_decided := ct_decided c1 + length calls\<rparr>;
                            stopped = c2\<lparr>ct_blocked := Suc (ct_blocked c2)\<rparr>;
                            r = connector_resolution s q payload
                        in case rs_tenant r of
                             None \<Rightarrow>
                               (stopped\<lparr>ct_unmapped := Suc (ct_unmapped c2)\<rparr>,
                                Some (Inr (blocked dumps (se_lb s)
                                  (map (\<lambda>x. refusal_json (refuse_unmapped_tenant x (or_text (rs_reason r) []))) calls), None)))
                           | Some t \<Rightarrow>
                               (case rule_normalized s w (connector_asked s cn q payload t) t 0 calls of
                                  None \<Rightarrow> (c2, None)
                                | Some (Inl e) \<Rightarrow> (c2, Some (Inl e))
                                | Some (Inr outs) \<Rightarrow>
                                    if refusals_of outs \<noteq> []
                                    then (stopped, Some (Inr (blocked dumps (se_lb s) (refusals_of outs),
                                            Some (ledgers_of outs, t))))
                                    else (c2\<lparr>ct_allowed := Suc (ct_allowed c2)\<rparr>,
                                          Some (Inr (none, Some (ledgers_of outs, t)))))))
              | _ \<Rightarrow> (c1, Some (Inr (none, None))))"

section \<open>The server\<close>

record connector_request =
  hr_path :: string
  hr_api_key :: "string option"
  hr_authorization :: "string option"
  hr_content_length :: "string option"
  hr_transfer_encoding :: "string option"
  hr_body :: string

record connector_answer =
  hs_status :: int
  hs_body :: dict
  hs_close :: bool

definition endpoint_path :: string where "endpoint_path = ''/beta/litellm_basic_guardrail_api''"

text \<open>\<open>hmac.compare_digest\<close> takes texts of ASCII only.\<close>

definition connector_authorised :: "library \<Rightarrow> connector \<Rightarrow> connector_request \<Rightarrow> hook_exc + bool" where
  "connector_authorised lb cn rq =
     (case cn_token cn of
        None \<Rightarrow> Inr True
      | Some expected \<Rightarrow>
          (let key = env_or (hr_api_key rq) []; auth = env_or (hr_authorization rq) [];
               presented = strip lb (if key \<noteq> [] then key
                 else if lower lb (take_chars 7 auth) = ''bearer '' then drop_chars 7 auth else [])
           in if expected = [] then Inr True
              else if is_ascii presented \<and> is_ascii expected then Inr (presented = expected)
              else Inl HTypeError))"

definition chunked :: "library \<Rightarrow> connector_request \<Rightarrow> bool" where
  "chunked lb rq \<longleftrightarrow> lower lb (env_or (hr_transfer_encoding rq) []) = ''chunked''"

text \<open>The declared length; one that is no number counts as negative.\<close>

definition content_length :: "library \<Rightarrow> connector_request \<Rightarrow> int" where
  "content_length lb rq =
     (let raw = env_or (hr_content_length rq) []
      in if raw = [] then 0 else case lb_int lb raw of None \<Rightarrow> - 1 | Some n \<Rightarrow> n)"

text \<open>\<open>_reject\<close>: the answer to a request whose body was not read.\<close>

definition reject :: "library \<Rightarrow> connector_request \<Rightarrow> int \<Rightarrow> dict \<Rightarrow> connector_answer" where
  "reject lb rq status body =
     \<lparr>hs_status = status, hs_body = body, hs_close = (chunked lb rq \<or> content_length lb rq < 0)\<rparr>"

definition sent :: "int \<Rightarrow> dict \<Rightarrow> connector_answer" where
  "sent status body = \<lparr>hs_status = status, hs_body = body, hs_close = False\<rparr>"

definition error_body :: "string \<Rightarrow> dict" where
  "error_body text_of_error = [(''error'', JStr text_of_error)]"

definition read_payload :: "library \<Rightarrow> connector \<Rightarrow> connector_request \<Rightarrow> connector_answer + dict" where
  "read_payload lb cn rq =
     (if chunked lb rq
      then Inl (reject lb rq 400 (error_body ''chunked request bodies are not read by this server; send Content-Length''))
      else if content_length lb rq < 0 then Inl (reject lb rq 400 (error_body ''Content-Length required''))
      else if cn_max_body cn < content_length lb rq
      then Inl \<lparr>hs_status = 413,
             hs_body = error_body ''request body too large'' @ [(''max_bytes'', JInt (cn_max_body cn))], hs_close = True\<rparr>
      else case lb_loads lb (if hr_body rq = [] then ''{}'' else hr_body rq) of
             Inl _ \<Rightarrow> Inl (sent 400 (error_body ''request body is not JSON''))
           | Inr (JObj payload) \<Rightarrow> Inr payload
           | Inr _ \<Rightarrow> Inl (sent 400 (error_body ''request body is not a JSON object'')))"

text \<open>\<open>do_POST\<close>. What \<open>_authorised\<close> raises is caught by nobody, so that the connection ends without an answer.\<close>

definition connector_post ::
  "seat \<Rightarrow> connector \<Rightarrow> (json \<Rightarrow> string) \<Rightarrow> (nat \<Rightarrow> ruling_world) \<Rightarrow> request_world \<Rightarrow> counters \<Rightarrow> connector_request
     \<Rightarrow> counters \<times> (hook_exc + connector_answer) option" where
  "connector_post s cn dumps w q c rq =
     (if before_first CHR ''?'' (hr_path rq) \<noteq> endpoint_path
      then (c, Some (Inr (reject (se_lb s) rq 404 (error_body ''not found'' @ [(''endpoint'', JStr endpoint_path)]))))
      else case connector_authorised (se_lb s) cn rq of
        Inl e \<Rightarrow> (c, Some (Inl e))
      | Inr False \<Rightarrow>
          (c\<lparr>ct_unauthorised := Suc (ct_unauthorised c)\<rparr>,
           Some (Inr (reject (se_lb s) rq 401 (error_body ''unauthorised''))))
      | Inr True \<Rightarrow>
          (case read_payload (se_lb s) cn rq of
             Inl ans \<Rightarrow> (c, Some (Inr ans))
           | Inr payload \<Rightarrow>
               (case decide_payload s cn dumps w q c payload of
                  (c', None) \<Rightarrow> (c', None)
                | (c', Some (Inr (answer, _))) \<Rightarrow> (c', Some (Inr (sent 200 answer)))
                | (c', Some (Inl e)) \<Rightarrow>
                    (c'\<lparr>ct_errors := Suc (ct_errors c')\<rparr>,
                     Some (Inr (sent 200 (blocked_for_internal_error dumps s e)))))))"

section \<open>What passes\<close>

text \<open>The payload is no response with tool calls, or each of its calls was cleared for the caller's organisation.\<close>

definition payload_cleared ::
  "seat \<Rightarrow> connector \<Rightarrow> (nat \<Rightarrow> ruling_world) \<Rightarrow> request_world \<Rightarrow> dict \<Rightarrow> bool" where
  "payload_cleared s cn w q payload \<longleftrightarrow>
     (dget payload ''input_type'' = JStr ''response'' \<longrightarrow>
        (\<forall>raws. dget payload ''tool_calls'' = JArr raws \<longrightarrow> raws \<noteq> [] \<longrightarrow>
           (\<exists>t. rs_tenant (connector_resolution s q payload) = Some t
              \<and> list_all (cleared s w (connector_asked s cn q payload t) t) raws)))"

lemma rule_normalized_cleared:
  assumes "rule_normalized s w a t k calls = Some (Inr outs)" "refusals_of outs = []"
    and "map_exc (normalize_tool_call (se_lb s) (se_gv s)) raws = Inr calls"
  shows "list_all (cleared s w a t) raws"
  using assms
proof (induction raws arbitrary: k calls outs)
  case (Cons raw raws)
  then obtain call calls' where n: "normalize_tool_call (se_lb s) (se_gv s) raw = Inr call"
    "map_exc (normalize_tool_call (se_lb s) (se_gv s)) raws = Inr calls'" "calls = call # calls'"
    by (auto simp: py_simps)
  with Cons.prems(1) obtain out outs' where o: "rule_one_call s (w k) a t call = Some (Inr out)"
    "rule_normalized s w a t (Suc k) calls' = Some (Inr outs')" "outs = out # outs'"
    by (auto split: option.splits sum.splits)
  have a: "oc_allowed out" "refusals_of outs' = []" using Cons.prems(2) by (auto simp: refusals_of_def o(3) split: if_splits)
  then have "cleared s w a t raw" using n(1) o(1) unfolding cleared_def by blast
  with Cons.IH [OF o(2) a(2) n(2)] show ?case by simp
qed simp

lemma blocked_action [simp]: "dget (blocked dumps lb refusals) ''action'' = JStr ''BLOCKED''"
  by (simp add: blocked_def Let_def dget_Cons)

lemma decide_payload_cleared:
  assumes "decide_payload s cn dumps w q c payload = (c', Some (Inr (answer, x)))"
  shows "dget answer ''action'' = JStr ''BLOCKED'' \<or> payload_cleared s cn w q payload"
proof (cases "dget payload ''input_type'' = JStr ''response'' \<and> (\<exists>r rs. dget payload ''tool_calls'' = JArr (r # rs))")
  case False
  then show ?thesis by (auto simp: payload_cleared_def neq_Nil_conv)
next
  case True
  then obtain raw raws where p: "dget payload ''input_type'' = JStr ''response''"
    "dget payload ''tool_calls'' = JArr (raw # raws)" by blast
  obtain calls where n: "map_exc (normalize_tool_call (se_lb s) (se_gv s)) (raw # raws) = Inr calls"
    using assms p by (cases "map_exc (normalize_tool_call (se_lb s) (se_gv s)) (raw # raws)")
      (auto simp: decide_payload_def Let_def simp del: map_exc.simps)
  show ?thesis
  proof (cases "rs_tenant (connector_resolution s q payload)")
    case None
    then show ?thesis using assms p n by (auto simp: decide_payload_def Let_def simp del: map_exc.simps)
  next
    case (Some t)
    obtain outs where o: "rule_normalized s w (connector_asked s cn q payload t) t 0 calls = Some (Inr outs)"
      using assms p n Some
      by (auto simp: decide_payload_def Let_def simp del: map_exc.simps split: option.splits sum.splits)
    show ?thesis
    proof (cases "refusals_of outs = []")
      case True
      from rule_normalized_cleared [OF o True n] show ?thesis using p Some by (auto simp: payload_cleared_def)
    next
      case False
      then show ?thesis using assms p n Some o by (auto simp: decide_payload_def Let_def simp del: map_exc.simps)
    qed
  qed
qed

definition lets_through :: "connector_answer \<Rightarrow> bool" where
  "lets_through ans \<longleftrightarrow> hs_status ans = 200 \<and> dget (hs_body ans) ''action'' \<noteq> JStr ''BLOCKED''"

text \<open>C18: over HTTP, a response passes the proxy only if the caller of the connector was authorised and every tool call
  of the payload was cleared for the organisation the proxy authenticated; every other answer is \<open>BLOCKED\<close> in the
  body of a 200, or one of the statuses 400, 401, 404 and 413, and never one that the proxy may take for an
  unreachable server and let the response through.\<close>

theorem connector_passes_only_cleared_calls:
  "case connector_post s cn dumps w q c rq of
     (_, Some (Inr ans)) \<Rightarrow>
       (if lets_through ans
        then connector_authorised (se_lb s) cn rq = Inr True
             \<and> (case read_payload (se_lb s) cn rq of Inl _ \<Rightarrow> False | Inr payload \<Rightarrow> payload_cleared s cn w q payload)
        else hs_status ans \<in> {200, 400, 401, 404, 413})
   | _ \<Rightarrow> True"
proof -
  let ?auth = "connector_authorised (se_lb s) cn rq"
  consider (path) "before_first CHR ''?'' (hr_path rq) \<noteq> endpoint_path"
    | (raised) e where "before_first CHR ''?'' (hr_path rq) = endpoint_path" "?auth = Inl e"
    | (no) "before_first CHR ''?'' (hr_path rq) = endpoint_path" "?auth = Inr False"
    | (yes) "before_first CHR ''?'' (hr_path rq) = endpoint_path" "?auth = Inr True"
    by (cases ?auth) auto
  then show ?thesis
  proof cases
    case yes
    show ?thesis
    proof (cases "read_payload (se_lb s) cn rq")
      case (Inl ans)
      then have "hs_status ans = 400 \<or> hs_status ans = 413"
        by (auto simp: read_payload_def reject_def sent_def split: if_splits sum.splits json.splits)
      then show ?thesis using yes Inl by (auto simp: connector_post_def lets_through_def)
    next
      case body: (Inr payload)
      obtain c' res where d: "decide_payload s cn dumps w q c payload = (c', res)" by force
      show ?thesis
      proof (cases res)
        case None
        then show ?thesis using yes body d by (simp add: connector_post_def)
      next
        case (Some x)
        show ?thesis
        proof (cases x)
          case (Inl e)
          then show ?thesis using yes body d Some
            by (simp add: connector_post_def lets_through_def sent_def blocked_for_internal_error_def)
        next
          case (Inr y)
          obtain answer z where y: "y = (answer, z)" by force
          with decide_payload_cleared [of s cn dumps w q c payload c' answer z] d Some Inr
          show ?thesis using yes body by (auto simp: connector_post_def lets_through_def sent_def)
        qed
      qed
    qed
  qed (simp_all add: connector_post_def lets_through_def reject_def)
qed

end
