(* ===== verification/McpCalls.thy ===== *)
theory McpCalls
  imports HookEnvelope Holds
begin

text \<open>
  The MCP gateway's view of a \<open>tools/call\<close> (\<open>reeflex-mcp/reeflex_mcp\<close>: \<open>mappings.py\<close>, \<open>normalize.py\<close>): the
  operator's declarative mappings, the tool annotations of a server that the operator trusts, the reading of a
  tool's name, and the envelope for the engine. Reading YAML is an argument; a YAML value is a \<open>yaml\<close>.
\<close>

section \<open>YAML\<close>

text \<open>What \<open>yaml.safe_load\<close> gives. \<open>YOther\<close> is any further scalar, such as a date.\<close>

datatype yaml = YNull | YBool bool | YInt int | YFloat pyfloat | YStr string | YOther string
  | YSeq "yaml list" | YMap "(yaml \<times> yaml) list"

type_synonym ymap = "(yaml \<times> yaml) list"

definition yget :: "ymap \<Rightarrow> string \<Rightarrow> yaml" where
  "yget m k = (case map_of m (YStr k) of None \<Rightarrow> YNull | Some v \<Rightarrow> v)"

fun yaml_truth :: "yaml \<Rightarrow> bool" where
  "yaml_truth YNull = False"
| "yaml_truth (YBool b) = b"
| "yaml_truth (YInt n) = (n \<noteq> 0)"
| "yaml_truth (YFloat f) = (f \<noteq> Fin 0)"
| "yaml_truth (YStr s) = (s \<noteq> [])"
| "yaml_truth (YOther s) = True"
| "yaml_truth (YSeq xs) = (xs \<noteq> [])"
| "yaml_truth (YMap m) = (m \<noteq> [])"

text \<open>A list or a mapping is no member of a \<open>frozenset\<close>: the test itself raises.\<close>

fun yaml_hashable :: "yaml \<Rightarrow> bool" where
  "yaml_hashable (YSeq _) = False"
| "yaml_hashable (YMap _) = False"
| "yaml_hashable _ = True"

fun ytext :: "yaml \<Rightarrow> string option" where
  "ytext (YStr s) = Some s"
| "ytext _ = None"

text \<open>\<open>isinstance(x, str) and x.strip()\<close>.\<close>

definition filled :: "library \<Rightarrow> yaml \<Rightarrow> string option" where
  "filled lb y = (case ytext y of None \<Rightarrow> None | Some s \<Rightarrow> if strip lb s = [] then None else Some s)"

section \<open>Declarative mappings\<close>

definition valid_verbs :: "string list" where
  "valid_verbs = [''read'', ''create'', ''update'', ''delete'', ''execute'', ''transact'', ''emit'']"

definition mcp_axis_allowed :: "(string \<times> string list) list" where
  "mcp_axis_allowed =
     [(''reversibility'', [''reversible'', ''recoverable'', ''irreversible'']),
      (''blast_radius'', [''single'', ''scoped'', ''broad'', ''systemic'']),
      (''externality'', [''internal'', ''outbound'', ''physical''])]"

definition core_axis_defaults :: "(string \<times> string) list" where
  "core_axis_defaults =
     [(''reversibility'', ''irreversible''), (''blast_radius'', ''systemic''), (''externality'', ''outbound'')]"

record tool_mapping =
  tm_verb :: string
  tm_axes :: "(string \<times> string) list"

record system_mapping =
  sm_tools :: "(string \<times> tool_mapping) list"
  sm_from_arg :: "string option"

type_synonym mapping_registry = "(string \<times> system_mapping) list"

text \<open>Every constructor but the last two is a \<open>MappingError\<close>.\<close>

datatype mapping_exc =
    NotYaml | NotAMapping | NoTools | ToolNameBlank | EntryNotAMapping string | VerbNotKnown string yaml
  | AxesNotAMapping string | AxisNotKnown string string yaml | StrayAxes string "yaml list"
  | StrayKeys string "yaml list" | MagnitudeNoRule | MagnitudeBlank | StrayTopKeys "yaml list"
  | Unhashable yaml | Unreadable

definition stray :: "string list \<Rightarrow> ymap \<Rightarrow> yaml list" where
  "stray known m = filter (\<lambda>k. k \<notin> YStr ` set known) (map fst m)"

fun read_axes :: "string \<Rightarrow> (string \<times> string list) list \<Rightarrow> ymap \<Rightarrow> mapping_exc + (string \<times> string) list" where
  "read_axes tool [] m = Inr []"
| "read_axes tool ((a, allowed) # axes) m =
     (case map_of m (YStr a) of
        None \<Rightarrow> read_axes tool axes m
      | Some v \<Rightarrow>
          if \<not> yaml_hashable v then Inl (Unhashable v)
          else case ytext v of
            Some s \<Rightarrow> if s \<in> set allowed then bindE (read_axes tool axes m) (\<lambda>rest. Inr ((a, s) # rest))
                      else Inl (AxisNotKnown tool a v)
          | None \<Rightarrow> Inl (AxisNotKnown tool a v))"

text \<open>\<open>entry.get("axes") or {}\<close>.\<close>

definition ymap_or_empty :: "yaml \<Rightarrow> ymap option" where
  "ymap_or_empty y = (if \<not> yaml_truth y then Some [] else case y of YMap m \<Rightarrow> Some m | _ \<Rightarrow> None)"

definition parse_tool_entry :: "string \<Rightarrow> yaml \<Rightarrow> mapping_exc + tool_mapping" where
  "parse_tool_entry tool y =
     (case y of
        YMap entry \<Rightarrow>
          (let verb = yget entry ''verb''
           in if \<not> yaml_hashable verb then Inl (Unhashable verb)
              else case ytext verb of
                None \<Rightarrow> Inl (VerbNotKnown tool verb)
              | Some v \<Rightarrow>
                  if v \<notin> set valid_verbs then Inl (VerbNotKnown tool verb)
                  else case ymap_or_empty (yget entry ''axes'') of
                    None \<Rightarrow> Inl (AxesNotAMapping tool)
                  | Some m \<Rightarrow> bindE (read_axes tool mcp_axis_allowed m) (\<lambda>axes.
                      if stray (map fst mcp_axis_allowed) m \<noteq> [] then Inl (StrayAxes tool (stray (map fst mcp_axis_allowed) m))
                      else if stray [''verb'', ''axes''] entry \<noteq> []
                      then Inl (StrayKeys tool (stray [''verb'', ''axes''] entry))
                      else Inr \<lparr>tm_verb = v, tm_axes = axes\<rparr>))
      | _ \<Rightarrow> Inl (EntryNotAMapping tool))"

fun read_tools :: "library \<Rightarrow> ymap \<Rightarrow> mapping_exc + (string \<times> tool_mapping) list" where
  "read_tools lb [] = Inr []"
| "read_tools lb ((k, v) # m) =
     (case filled lb k of
        None \<Rightarrow> Inl ToolNameBlank
      | Some tool \<Rightarrow> bindE (parse_tool_entry tool v) (\<lambda>e. bindE (read_tools lb m) (\<lambda>rest. Inr ((tool, e) # rest))))"

definition read_magnitude :: "library \<Rightarrow> yaml \<Rightarrow> mapping_exc + string option" where
  "read_magnitude lb y =
     (case y of
        YNull \<Rightarrow> Inr None
      | YMap m \<Rightarrow>
          (case map_of m (YStr ''from_arg'') of
             None \<Rightarrow> Inl MagnitudeNoRule
           | Some v \<Rightarrow> (case filled lb v of None \<Rightarrow> Inl MagnitudeBlank | Some s \<Rightarrow> Inr (Some (strip lb s))))
      | _ \<Rightarrow> Inl MagnitudeNoRule)"

text \<open>One file. A file that cannot be opened or decoded raises what opening it raises.\<close>

definition load_one_file :: "library \<Rightarrow> (string \<Rightarrow> yaml option) \<Rightarrow> text_file \<Rightarrow> mapping_exc + system_mapping" where
  "load_one_file lb load f =
     (case f of
        FText t \<Rightarrow>
          (case load t of
             None \<Rightarrow> Inl NotYaml
           | Some raw \<Rightarrow>
               (case (if raw = YNull then YMap [] else raw) of
                  YMap doc \<Rightarrow>
                    (case yget doc ''tools'' of
                       YMap tools \<Rightarrow>
                         if tools = [] then Inl NoTools
                         else bindE (read_tools lb tools) (\<lambda>ts. bindE (read_magnitude lb (yget doc ''magnitude'')) (\<lambda>arg.
                           if stray [''tools'', ''magnitude''] doc \<noteq> []
                           then Inl (StrayTopKeys (stray [''tools'', ''magnitude''] doc))
                           else Inr \<lparr>sm_tools = ts, sm_from_arg = arg\<rparr>))
                     | _ \<Rightarrow> Inl NoTools)
                | _ \<Rightarrow> Inl NotAMapping))
      | _ \<Rightarrow> Inl Unreadable)"

fun load_files ::
  "library \<Rightarrow> (string \<Rightarrow> yaml option) \<Rightarrow> (string \<times> text_file) list \<Rightarrow> mapping_exc + mapping_registry" where
  "load_files lb load [] = Inr []"
| "load_files lb load ((system, f) # fs) =
     bindE (load_one_file lb load f) (\<lambda>m. bindE (load_files lb load fs) (\<lambda>rest. Inr ((system, m) # rest)))"

text \<open>The directory, as the names of its \<open>.yaml\<close> files without the suffix, or nothing where there is none.\<close>

definition load_mappings_dir ::
  "library \<Rightarrow> (string \<Rightarrow> yaml option) \<Rightarrow> (string \<times> text_file) list option \<Rightarrow> mapping_exc + mapping_registry" where
  "load_mappings_dir lb load dir =
     (case dir of None \<Rightarrow> Inr [] | Some fs \<Rightarrow> load_files lb load (sort_key (\<lambda>p. fst p @ ''.yaml'') fs))"

record mcp_class =
  mk_verb :: string
  mk_reversibility :: string
  mk_blast_radius :: string
  mk_externality :: string

definition magnitude_from_arg :: "dict \<Rightarrow> string option \<Rightarrow> int" where
  "magnitude_from_arg args rule =
     (case rule of
        None \<Rightarrow> 1
      | Some k \<Rightarrow> if k = [] then 1 else case dget args k of JArr xs \<Rightarrow> max (int (length xs)) 1 | _ \<Rightarrow> 1)"

definition mapped_axis :: "tool_mapping \<Rightarrow> string \<Rightarrow> string" where
  "mapped_axis t a =
     (case map_of (tm_axes t) a of Some v \<Rightarrow> v | None \<Rightarrow> the (map_of core_axis_defaults a))"

definition registry_classify ::
  "mapping_registry \<Rightarrow> string \<Rightarrow> string \<Rightarrow> dict \<Rightarrow> (mcp_class \<times> int) option" where
  "registry_classify reg system tool args =
     (case map_of reg system of
        None \<Rightarrow> None
      | Some sm \<Rightarrow>
          (case map_of (sm_tools sm) tool of
             None \<Rightarrow> None
           | Some t \<Rightarrow> Some (\<lparr>mk_verb = tm_verb t, mk_reversibility = mapped_axis t ''reversibility'',
                 mk_blast_radius = mapped_axis t ''blast_radius'', mk_externality = mapped_axis t ''externality''\<rparr>,
               magnitude_from_arg args (sm_from_arg sm))))"

section \<open>Reading a tool's name\<close>

definition delete_prefixes :: "string list" where
  "delete_prefixes = [''delete_'', ''remove_'', ''drop_'']"

definition create_prefixes :: "string list" where
  "create_prefixes = [''send_'', ''post_'', ''create_'', ''push_'']"

definition read_prefixes :: "string list" where
  "read_prefixes = [''get_'', ''list_'', ''read_'', ''search_'', ''count_'', ''fetch_'', ''query_'', ''describe_'',
     ''find_'', ''select_'', ''get'', ''list'']"

definition mutating_stems :: "string list" where
  "mutating_stems = [''delete'', ''del'', ''remove'', ''rm'', ''drop'', ''destroy'', ''purge'', ''prune'', ''wipe'',
     ''erase'', ''truncate'', ''clear'', ''flush'', ''expire'', ''revoke'', ''reset'', ''restore'', ''rotate'',
     ''replace'', ''overwrite'', ''write'', ''insert'', ''upsert'', ''update'', ''patch'', ''modify'', ''edit'',
     ''rename'', ''move'', ''merge'', ''commit'', ''push'', ''apply'', ''migrate'', ''compact'', ''vacuum'', ''kill'',
     ''terminate'', ''stop'', ''disable'', ''exec'', ''execute'', ''run'', ''install'', ''uninstall'', ''deploy'',
     ''send'', ''publish'', ''grant'', ''create'', ''set'']"

definition noun_sense_stems :: "string list" where
  "noun_sense_stems = [''commit'', ''run'', ''set'', ''merge'']"

definition coordinators :: "string list" where
  "coordinators = [''and'', ''or'', ''then'']"

definition mutating_stem_prefixes :: "string list" where
  "mutating_stem_prefixes = mutating_stems @ map butlast (filter (\<lambda>s. last s = CHR ''e'') mutating_stems)"

definition starts_with_any :: "string list \<Rightarrow> string \<Rightarrow> bool" where
  "starts_with_any ps s \<longleftrightarrow> list_ex (\<lambda>p. prefix p s) ps"

text \<open>A space goes between a small letter or a digit and a capital.\<close>

fun space_humps :: "string \<Rightarrow> string" where
  "space_humps (a # b # cs) =
     (if (is_lower_char a \<or> is_digit_char a) \<and> is_upper_char b then a # CHR '' '' # space_humps (b # cs)
      else a # space_humps (b # cs))"
| "space_humps cs = cs"

definition alnum_char :: "char \<Rightarrow> bool" where
  "alnum_char c \<longleftrightarrow> is_lower_char c \<or> is_upper_char c \<or> is_digit_char c"

text \<open>\<open>[t for t in re.split("[^A-Za-z0-9]+", s) if t]\<close>: the maximal runs of letters and digits.\<close>

definition alnum_runs :: "string \<Rightarrow> string list" where
  "alnum_runs s = filter (\<lambda>t. t \<noteq> []) (split_on CHR '' '' (map (\<lambda>c. if alnum_char c then c else CHR '' '') s))"

definition name_tokens :: "library \<Rightarrow> string \<Rightarrow> string list" where
  "name_tokens lb name = alnum_runs (lower lb (space_humps name))"

text \<open>The loop over the tokens, each with the one before it.\<close>

fun mutates_after :: "string \<Rightarrow> string list \<Rightarrow> bool" where
  "mutates_after before [] = False"
| "mutates_after before (t # ts) =
     ((if before \<in> set coordinators then starts_with_any mutating_stem_prefixes t
       else t \<in> set mutating_stems \<and> t \<notin> set noun_sense_stems) \<or> mutates_after t ts)"

definition has_mutating_stem :: "library \<Rightarrow> string \<Rightarrow> bool" where
  "has_mutating_stem lb name = (case name_tokens lb name of [] \<Rightarrow> False | t # ts \<Rightarrow> mutates_after t ts)"

section \<open>Classification\<close>

definition magnitude_count :: "dict \<Rightarrow> int" where
  "magnitude_count args =
     (case find is_arr (map snd args) of Some (JArr xs) \<Rightarrow> max (int (length xs)) 1 | _ \<Rightarrow> 1)"

definition blast_radius_for_count :: "int \<Rightarrow> string" where
  "blast_radius_for_count count = (if 20 < count then ''broad'' else if 1 < count then ''scoped'' else ''single'')"

definition execute_floor :: mcp_class where
  "execute_floor = \<lparr>mk_verb = ''execute'', mk_reversibility = ''irreversible'', mk_blast_radius = ''systemic'',
     mk_externality = ''outbound''\<rparr>"

definition classify_name :: "library \<Rightarrow> string \<Rightarrow> dict \<Rightarrow> mcp_class \<times> string" where
  "classify_name lb tool args =
     (let blast = blast_radius_for_count (magnitude_count args)
      in if starts_with_any delete_prefixes tool
         then (\<lparr>mk_verb = ''delete'', mk_reversibility = ''irreversible'', mk_blast_radius = blast,
                mk_externality = ''internal''\<rparr>, ''heuristic:delete'')
         else if starts_with_any create_prefixes tool
         then (\<lparr>mk_verb = ''create'', mk_reversibility = ''recoverable'', mk_blast_radius = blast,
                mk_externality = ''outbound''\<rparr>, ''heuristic:create'')
         else if starts_with_any read_prefixes tool \<and> \<not> has_mutating_stem lb tool
         then (\<lparr>mk_verb = ''read'', mk_reversibility = ''reversible'', mk_blast_radius = blast,
                mk_externality = ''internal''\<rparr>, ''heuristic:read'')
         else (execute_floor, ''heuristic:default''))"

text \<open>The hints a server declares for a tool; a missing hint is \<open>None\<close>.\<close>

record tool_hints =
  th_read_only :: "bool option"
  th_destructive :: "bool option"

definition classify_from_annotations :: "tool_hints option \<Rightarrow> int \<Rightarrow> bool \<Rightarrow> (mcp_class \<times> string) option" where
  "classify_from_annotations hints count trusted =
     (case hints of
        None \<Rightarrow> None
      | Some h \<Rightarrow>
          if \<not> trusted then None
          else if th_read_only h = Some True
          then Some (\<lparr>mk_verb = ''read'', mk_reversibility = ''reversible'',
                 mk_blast_radius = blast_radius_for_count count, mk_externality = ''internal''\<rparr>, ''annotation:read'')
          else if th_destructive h = Some True
          then Some (\<lparr>mk_verb = ''delete'', mk_reversibility = ''irreversible'', mk_blast_radius = ''systemic'',
                 mk_externality = ''internal''\<rparr>, ''annotation:destructive'')
          else None)"

definition classify_call ::
  "library \<Rightarrow> mapping_registry option \<Rightarrow> string \<Rightarrow> string \<Rightarrow> dict \<Rightarrow> tool_hints option \<Rightarrow> bool
     \<Rightarrow> mcp_class \<times> int \<times> string" where
  "classify_call lb reg system tool args hints trusted =
     (let named = (case reg of None \<Rightarrow> None | Some r \<Rightarrow> registry_classify r system tool args);
          count = magnitude_count args
      in case named of
           Some (c, n) \<Rightarrow> (c, n, ''mapping'')
         | None \<Rightarrow>
             (case classify_from_annotations hints count trusted of
                Some (c, tier) \<Rightarrow> (c, count, tier)
              | None \<Rightarrow> (case classify_name lb tool args of (c, tier) \<Rightarrow> (c, count, tier))))"

section \<open>The envelope\<close>

definition ref_arg_priority :: "string list" where
  "ref_arg_priority = [''id'', ''path'', ''name'', ''ref'', ''key'']"

fun guess_ref_from :: "library \<Rightarrow> dict \<Rightarrow> string list \<Rightarrow> string option" where
  "guess_ref_from lb args [] = None"
| "guess_ref_from lb args (k # ks) =
     (case dget args k of
        JStr s \<Rightarrow> if s \<noteq> [] then Some s else guess_ref_from lb args ks
      | JInt n \<Rightarrow> Some (str_int n)
      | JFloat f \<Rightarrow> Some (u_float_str (lb_ucd lb) f)
      | _ \<Rightarrow> guess_ref_from lb args ks)"

definition guess_ref :: "library \<Rightarrow> dict \<Rightarrow> string option" where
  "guess_ref lb args = guess_ref_from lb args ref_arg_priority"

record mcp_stamps = stamps +
  st_uuid :: string

definition mcp_nonce_text :: "mcp_stamps \<Rightarrow> string \<Rightarrow> string \<Rightarrow> string \<Rightarrow> string" where
  "mcp_nonce_text st session upstream tool =
     join_with '':'' [session, st_now st, upstream, tool, str_int (st_monotonic_ns st), st_uuid st]"

record mcp_call =
  mc_session :: string
  mc_agent :: string
  mc_behalf :: "string option"
  mc_upstream :: string
  mc_system :: string
  mc_environment :: string
  mc_tool :: string
  mc_arguments :: dict
  mc_hints :: "tool_hints option"
  mc_trusted :: bool

definition build_mcp_envelope ::
  "library \<Rightarrow> mcp_stamps \<Rightarrow> mapping_registry option \<Rightarrow> mcp_call \<Rightarrow> hook_exc + dict" where
  "build_mcp_envelope lb st reg c =
     (if mc_session c = [] then Inl HValueError
      else case classify_call lb reg (mc_system c) (mc_tool c) (mc_arguments c) (mc_hints c) (mc_trusted c) of
        (cls, count, source) \<Rightarrow>
          bindE (make_nonce lb (mcp_nonce_text st (mc_session c) (mc_upstream c) (mc_tool c))) (\<lambda>nonce.
            Inr [(''reeflex_version'', JStr ''0.1''),
                 (''agent'', JObj [(''id'', JStr (mc_agent c)), (''on_behalf_of'', jopt (mc_behalf c)),
                    (''session_id'', JStr (mc_session c))]),
                 (''action'', JObj [(''namespace'', JStr (mc_system c)), (''verb'', JStr (mk_verb cls)),
                    (''ability'', JStr (mc_system c @ ''/'' @ mc_tool c))]),
                 (''target'', JObj [(''kind'', JStr (mc_tool c)), (''ref'', jopt (guess_ref lb (mc_arguments c))),
                    (''environment'', JStr (mc_environment c))]),
                 (''params'', JObj [(''upstream'', JStr (mc_upstream c)), (''tool_name'', JStr (mc_tool c)),
                    (''arguments'', JObj (mc_arguments c))]),
                 (''magnitude'', JObj [(''count'', JInt count)]),
                 (''axes'', JObj [(''reversibility'', JStr (mk_reversibility cls)),
                    (''blast_radius'', JStr (mk_blast_radius cls)), (''externality'', JStr (mk_externality cls))]),
                 (''approval'', JObj [(''present'', JBool False), (''hold_id'', JNull)]),
                 (''trajectory_ref'', JNull),
                 (''context'', JObj [(''gateway'', JStr ''reeflex-mcp''), (''upstream'', JStr (mc_upstream c)),
                    (''classification_source'', JStr source)]),
                 (''meta'', JObj [(''timestamp'', JStr (st_now st)), (''nonce'', JStr nonce),
                    (''signature'', JStr (''ed25519:stub:'' @ take 16 nonce))])]))"

section \<open>What a loaded directory holds\<close>

definition proper_axis :: "string \<Rightarrow> string \<Rightarrow> bool" where
  "proper_axis a v \<longleftrightarrow> (case map_of mcp_axis_allowed a of None \<Rightarrow> False | Some ms \<Rightarrow> v \<in> set ms)"

definition proper_tool :: "tool_mapping \<Rightarrow> bool" where
  "proper_tool t \<longleftrightarrow> tm_verb t \<in> set valid_verbs \<and> list_all (\<lambda>(a, v). proper_axis a v) (tm_axes t)"

definition proper_registry :: "mapping_registry \<Rightarrow> bool" where
  "proper_registry reg \<longleftrightarrow> list_all (\<lambda>(_, sm). list_all (\<lambda>(_, t). proper_tool t) (sm_tools sm)) reg"

lemma read_axes_allowed:
  "read_axes tool axes m = Inr out \<Longrightarrow> (a, v) \<in> set out \<Longrightarrow> \<exists>ms. (a, ms) \<in> set axes \<and> v \<in> set ms"
  by (induction tool axes m arbitrary: out rule: read_axes.induct)
    (fastforce simp: py_simps split: option.splits if_splits)+

lemma distinct_axes: "distinct (map fst mcp_axis_allowed)"
  by code_simp

lemma parse_tool_entry_proper: "parse_tool_entry tool y = Inr t \<Longrightarrow> proper_tool t"
  using read_axes_allowed [of tool mcp_axis_allowed] map_of_is_SomeI [OF distinct_axes]
  by (fastforce simp: parse_tool_entry_def proper_tool_def proper_axis_def list_all_iff Let_def py_simps
      split: yaml.splits if_splits option.splits)

lemma read_tools_proper: "read_tools lb m = Inr ts \<Longrightarrow> list_all (\<lambda>(_, t). proper_tool t) ts"
  by (induction lb m arbitrary: ts rule: read_tools.induct)
    (auto simp: py_simps parse_tool_entry_proper split: option.splits)

lemma load_one_file_proper: "load_one_file lb load f = Inr sm \<Longrightarrow> list_all (\<lambda>(_, t). proper_tool t) (sm_tools sm)"
  by (auto simp: load_one_file_def py_simps read_tools_proper split: text_file.splits option.splits yaml.splits if_splits)

lemma load_files_proper: "load_files lb load fs = Inr reg \<Longrightarrow> proper_registry reg"
  by (induction lb load fs arbitrary: reg rule: load_files.induct)
    (auto simp: proper_registry_def py_simps load_one_file_proper)

lemma loaded_proper: "load_mappings_dir lb load dir = Inr reg \<Longrightarrow> proper_registry reg"
  using load_files_proper by (cases dir) (auto simp: load_mappings_dir_def proper_registry_def [of "[]"])

section \<open>Every classification is in the vocabulary\<close>

definition proper_class :: "mcp_class \<Rightarrow> bool" where
  "proper_class c \<longleftrightarrow> mk_verb c \<in> set spec_verbs \<and> mk_reversibility c \<in> set (axis_members ''reversibility'')
     \<and> mk_blast_radius c \<in> set (axis_members ''blast_radius'') \<and> mk_externality c \<in> set (axis_members ''externality'')"

lemma the_engines_axes: "mcp_axis_allowed = Envelope.axis_allowed" "core_axis_defaults = axis_defaults"
  "valid_verbs = spec_verbs"
  by (simp_all add: mcp_axis_allowed_def Envelope.axis_allowed_def core_axis_defaults_def axis_defaults_def
      valid_verbs_def spec_verbs_def)

lemma words:
  "''read'' \<in> set spec_verbs" "''create'' \<in> set spec_verbs" "''delete'' \<in> set spec_verbs" "''execute'' \<in> set spec_verbs"
  "''reversible'' \<in> set (axis_members ''reversibility'')" "''recoverable'' \<in> set (axis_members ''reversibility'')"
  "''irreversible'' \<in> set (axis_members ''reversibility'')" "''systemic'' \<in> set (axis_members ''blast_radius'')"
  "''internal'' \<in> set (axis_members ''externality'')" "''outbound'' \<in> set (axis_members ''externality'')"
  "blast_radius_for_count n \<in> set (axis_members ''blast_radius'')"
  by (simp_all add: spec_verbs_def axis_members_def Envelope.axis_allowed_def blast_radius_for_count_def)

lemma axis_default_member:
  "a \<in> {''reversibility'', ''blast_radius'', ''externality''} \<Longrightarrow> the (map_of core_axis_defaults a) \<in> set (axis_members a)"
  by (auto simp: core_axis_defaults_def axis_members_def Envelope.axis_allowed_def)

lemma mapped_axis_member:
  assumes "proper_tool t" "a \<in> {''reversibility'', ''blast_radius'', ''externality''}"
  shows "mapped_axis t a \<in> set (axis_members a)"
proof (cases "map_of (tm_axes t) a")
  case (Some v)
  then have "proper_axis a v" using assms(1) map_of_SomeD by (fastforce simp: proper_tool_def list_all_iff)
  then show ?thesis
    by (auto simp: mapped_axis_def Some proper_axis_def axis_members_def the_engines_axes split: option.splits)
qed (use axis_default_member [OF assms(2)] in \<open>simp add: mapped_axis_def\<close>)

lemma registry_classify_proper:
  assumes "proper_registry reg" "registry_classify reg system tool args = Some (c, n)"
  shows "proper_class c \<and> 1 \<le> n"
proof -
  obtain sm t where m: "map_of reg system = Some sm" "map_of (sm_tools sm) tool = Some t"
    "c = \<lparr>mk_verb = tm_verb t, mk_reversibility = mapped_axis t ''reversibility'',
       mk_blast_radius = mapped_axis t ''blast_radius'', mk_externality = mapped_axis t ''externality''\<rparr>"
    "n = magnitude_from_arg args (sm_from_arg sm)"
    using assms(2) by (auto simp: registry_classify_def split: option.splits)
  have t: "proper_tool t" using assms(1) map_of_SomeD [OF m(1)] map_of_SomeD [OF m(2)]
    by (fastforce simp: proper_registry_def list_all_iff)
  have "1 \<le> n" by (auto simp: m(4) magnitude_from_arg_def split: option.split json.split)
  moreover have "tm_verb t \<in> set spec_verbs" using t by (simp add: proper_tool_def the_engines_axes)
  ultimately show ?thesis by (simp add: proper_class_def m(3) mapped_axis_member [OF t])
qed

lemma classify_name_proper: "proper_class (fst (classify_name lb tool args))"
  by (simp add: classify_name_def execute_floor_def proper_class_def words Let_def)

lemma annotations_proper: "classify_from_annotations hints n trusted = Some (c, tier) \<Longrightarrow> proper_class c"
  by (auto simp: classify_from_annotations_def proper_class_def words split: option.splits if_splits)

lemma magnitude_count_pos: "1 \<le> magnitude_count args"
  by (auto simp: magnitude_count_def split: option.split json.split)

lemma classify_call_proper:
  assumes "proper_registry reg" "classify_call lb (Some reg) system tool args hints trusted = (c, n, tier)"
  shows "proper_class c \<and> 1 \<le> n"
  using assms registry_classify_proper [OF assms(1)] classify_name_proper [of lb tool args] annotations_proper
    magnitude_count_pos [of args]
  by (auto simp: classify_call_def Let_def split: option.splits prod.splits)

section \<open>Compound names\<close>

lemma alnum_runs_append: "\<not> alnum_char c \<Longrightarrow> alnum_runs (a @ c # b) = alnum_runs a @ alnum_runs b"
  by (simp add: alnum_runs_def split_on_append_sep)

lemma split_on_plain: "list_all (\<lambda>x. x \<noteq> c) w \<Longrightarrow> \<exists>t ts. split_on c (w @ s) = (w @ t) # ts"
proof (induction w)
  case Nil
  then show ?case using split_on_nonempty [of c s] by (cases "split_on c s") auto
qed (auto split: list.split)

lemma split_on_whole: "list_all (\<lambda>x. x \<noteq> c) w \<Longrightarrow> split_on c w = [w]"
  by (induction w) auto

lemma blanked_alnum:
  "list_all alnum_char w \<Longrightarrow> map (\<lambda>c. if alnum_char c then c else CHR '' '') w = w \<and> list_all (\<lambda>x. x \<noteq> CHR '' '') w"
  by (induction w) (auto simp: alnum_char_def is_lower_char_def is_upper_char_def is_digit_char_def)

lemma alnum_runs_starts:
  assumes "list_all alnum_char w" "w \<noteq> []"
  shows "\<exists>t ts. alnum_runs (w @ s) = (w @ t) # ts"
proof -
  note w = blanked_alnum [OF assms(1)]
  obtain t ts where "split_on CHR '' '' (w @ map (\<lambda>c. if alnum_char c then c else CHR '' '') s) = (w @ t) # ts"
    using split_on_plain w by blast
  then show ?thesis using assms(2) w by (simp add: alnum_runs_def)
qed

lemma alnum_runs_whole: "list_all alnum_char w \<Longrightarrow> w \<noteq> [] \<Longrightarrow> alnum_runs w = [w]"
  using blanked_alnum [of w] split_on_whole by (simp add: alnum_runs_def)

lemma space_humps_break:
  "\<not> is_lower_char c \<Longrightarrow> \<not> is_digit_char c \<Longrightarrow> \<not> is_upper_char c
     \<Longrightarrow> space_humps (a @ c # b) = space_humps a @ c # space_humps b"
  by (induction a rule: space_humps.induct; cases b) auto

lemma lower_not_upper: "is_lower_char c \<Longrightarrow> \<not> is_upper_char c"
  by (simp add: is_lower_char_def is_upper_char_def)

lemma space_humps_small:
  "list_all is_lower_char w \<Longrightarrow> \<exists>r. space_humps (w @ s) = w @ r"
  by (induction w rule: space_humps.induct; cases s) (auto simp: lower_not_upper)

lemma space_humps_whole: "list_all is_lower_char w \<Longrightarrow> space_humps w = w"
  by (induction w rule: space_humps.induct) (auto simp: is_lower_char_def is_upper_char_def)

lemma lower_small: "list_all is_lower_char w \<Longrightarrow> map lower_char w = w \<and> list_all alnum_char w \<and> is_ascii w"
  by (induction w) (auto simp: lower_char_def is_lower_char_def is_upper_char_def alnum_char_def is_ascii_def)

lemma space_humps_ascii: "is_ascii s \<Longrightarrow> is_ascii (space_humps s)"
  by (induction s rule: space_humps.induct) (auto simp: is_ascii_def)

text \<open>What a name with two underscores is cut into.\<close>

lemma compound_tokens:
  assumes "is_ascii p" "is_ascii rest" "list_all is_lower_char co" "co \<noteq> []" "list_all is_lower_char stem" "stem \<noteq> []"
  shows "\<exists>t ts. name_tokens lb (p @ ''_'' @ co @ ''_'' @ stem @ rest)
    = alnum_runs (map lower_char (space_humps p)) @ co # (stem @ t) # ts"
proof -
  have u: "\<not> is_lower_char CHR ''_''" "\<not> is_digit_char CHR ''_''" "\<not> is_upper_char CHR ''_''" "\<not> alnum_char CHR ''_''"
    "lower_char CHR ''_'' = CHR ''_''"
    by (simp_all add: is_lower_char_def is_digit_char_def is_upper_char_def alnum_char_def lower_char_def)
  note low = lower_small [OF assms(3)] lower_small [OF assms(5)]
  obtain r where r: "space_humps (stem @ rest) = stem @ r" using space_humps_small [OF assms(5)] by blast
  have "is_ascii (p @ ''_'' @ co @ ''_'' @ stem @ rest)" using assms(1,2) low
    by (simp add: is_ascii_def)
  then have "is_ascii (space_humps (p @ ''_'' @ co @ ''_'' @ stem @ rest))" by (rule space_humps_ascii)
  moreover have "space_humps (p @ ''_'' @ co @ ''_'' @ stem @ rest) = space_humps p @ CHR ''_'' # co @ CHR ''_'' # stem @ r"
    by (simp add: space_humps_break u space_humps_whole [OF assms(3)] r)
  ultimately have "lower lb (space_humps (p @ ''_'' @ co @ ''_'' @ stem @ rest))
      = map lower_char (space_humps p) @ CHR ''_'' # co @ CHR ''_'' # stem @ map lower_char r"
    by (simp add: lower_def u low)
  moreover obtain t ts where "alnum_runs (stem @ map lower_char r) = (stem @ t) # ts"
    using alnum_runs_starts low assms(6) by blast
  moreover have "alnum_runs co = [co]" using alnum_runs_whole low assms(4) by blast
  ultimately show ?thesis by (simp add: name_tokens_def alnum_runs_append u)
qed

lemma mutates_after_compound:
  "co \<in> set coordinators \<Longrightarrow> starts_with_any mutating_stem_prefixes t \<Longrightarrow> mutates_after b (xs @ co # t # ts)"
  by (induction xs arbitrary: b) auto

definition small_word :: "string \<Rightarrow> bool" where
  "small_word w \<longleftrightarrow> list_all is_lower_char w \<and> w \<noteq> []"

lemma stems_small: "list_all small_word mutating_stems" "list_all small_word coordinators"
  by code_simp+

lemma compound_has_mutating_stem:
  assumes "is_ascii p" "is_ascii rest" "co \<in> set coordinators" "stem \<in> set mutating_stems"
  shows "has_mutating_stem lb (p @ ''_'' @ co @ ''_'' @ stem @ rest)"
proof -
  have "small_word co" "small_word stem" using stems_small assms(3,4) unfolding list_all_iff by blast+
  then have small: "list_all is_lower_char co" "co \<noteq> []" "list_all is_lower_char stem" "stem \<noteq> []"
    by (simp_all add: small_word_def)
  obtain t ts where t: "name_tokens lb (p @ ''_'' @ co @ ''_'' @ stem @ rest)
      = alnum_runs (map lower_char (space_humps p)) @ co # (stem @ t) # ts"
    using compound_tokens [OF assms(1,2) small] by blast
  have m: "starts_with_any mutating_stem_prefixes (stem @ t)"
    unfolding starts_with_any_def mutating_stem_prefixes_def list_ex_iff by (intro bexI [of _ stem]) (auto simp: assms(4))
  show ?thesis
  proof (cases "alnum_runs (map lower_char (space_humps p))")
    case Nil
    then show ?thesis using assms(3) m unfolding has_mutating_stem_def t by simp
  next
    case (Cons x xs)
    then show ?thesis using mutates_after_compound [OF assms(3) m, of x xs ts] unfolding has_mutating_stem_def t by simp
  qed
qed

text \<open>A tool whose name joins a second verb to the first, \<open>search_and_replace\<close>, is never priced as a read on the
  word of its name: unless the operator mapped it, it is a deletion, a creation or, failing both, the restrictive
  floor, whatever hints the server itself declares, as long as the operator does not trust them.\<close>

theorem compound_name_is_no_read:
  assumes "is_ascii p" "is_ascii rest" "co \<in> set coordinators" "stem \<in> set mutating_stems"
    and "tool = p @ ''_'' @ co @ ''_'' @ stem @ rest"
    and "case reg of None \<Rightarrow> True | Some r \<Rightarrow> registry_classify r system tool args = None"
  shows "case classify_call lb reg system tool args hints False of
      (c, _, _) \<Rightarrow> mk_verb c \<in> {''delete'', ''create''} \<or> c = execute_floor"
proof -
  have "has_mutating_stem lb tool" unfolding assms(5) by (rule compound_has_mutating_stem [OF assms(1-4)])
  then have "mk_verb (fst (classify_name lb tool args)) \<in> {''delete'', ''create''} \<or> fst (classify_name lb tool args) = execute_floor"
    by (simp add: classify_name_def Let_def)
  moreover have "classify_from_annotations hints n False = None" for n
    by (simp add: classify_from_annotations_def split: option.split)
  ultimately show ?thesis using assms(6) by (auto simp: classify_call_def Let_def split: option.split prod.split)
qed

theorem compound_name_is_no_read_witness:
  "case classify_call sample_library None ''fs'' ''search_and_replace'' [] (Some \<lparr>th_read_only = Some True, th_destructive = None\<rparr>) False of
      (c, _, _) \<Rightarrow> mk_verb c \<in> {''delete'', ''create''} \<or> c = execute_floor"
  by (rule compound_name_is_no_read [of "''search''" "[]" "''and''" "''replace''"]) code_simp+

section \<open>The engine accepts the envelope\<close>

lemma mcp_envelope_fields:
  assumes "build_mcp_envelope lb st reg c = Inr e"
    "classify_call lb reg (mc_system c) (mc_tool c) (mc_arguments c) (mc_hints c) (mc_trusted c) = (cls, count, source)"
  obtains nonce where
    "make_nonce lb (mcp_nonce_text st (mc_session c) (mc_upstream c) (mc_tool c)) = Inr nonce"
    "dget e ''agent'' = JObj [(''id'', JStr (mc_agent c)), (''on_behalf_of'', jopt (mc_behalf c)),
       (''session_id'', JStr (mc_session c))]"
    "dget e ''action'' = JObj [(''namespace'', JStr (mc_system c)), (''verb'', JStr (mk_verb cls)),
       (''ability'', JStr (mc_system c @ ''/'' @ mc_tool c))]"
    "dget e ''target'' = JObj [(''kind'', JStr (mc_tool c)), (''ref'', jopt (guess_ref lb (mc_arguments c))),
       (''environment'', JStr (mc_environment c))]"
    "dget e ''params'' = JObj [(''upstream'', JStr (mc_upstream c)), (''tool_name'', JStr (mc_tool c)),
       (''arguments'', JObj (mc_arguments c))]"
    "dget e ''magnitude'' = JObj [(''count'', JInt count)]"
    "dget e ''axes'' = JObj [(''reversibility'', JStr (mk_reversibility cls)),
       (''blast_radius'', JStr (mk_blast_radius cls)), (''externality'', JStr (mk_externality cls))]"
    "dget e ''approval'' = JObj [(''present'', JBool False), (''hold_id'', JNull)]"
    "dget e ''meta'' = JObj [(''timestamp'', JStr (st_now st)), (''nonce'', JStr nonce),
       (''signature'', JStr (''ed25519:stub:'' @ take 16 nonce))]"
proof -
  obtain nonce where n: "make_nonce lb (mcp_nonce_text st (mc_session c) (mc_upstream c) (mc_tool c)) = Inr nonce"
    using assms by (auto simp: build_mcp_envelope_def py_simps split: if_splits)
  have "mc_session c \<noteq> []" using assms(1) by (auto simp: build_mcp_envelope_def)
  note e = assms(1) [unfolded build_mcp_envelope_def assms(2) prod.case n bindE.simps if_not_P [OF this] sum.inject, symmetric]
  show thesis
    by (rule that [OF n]) (simp_all only: e dget_Cons fst_conv snd_conv if_True list.inject char.inject simp_thms if_False list.distinct)
qed

lemma mcp_required:
  assumes "dget e ''agent'' = JObj [(''id'', i), (''on_behalf_of'', b), (''session_id'', JStr sid)]"
    "dget e ''action'' = JObj [(''namespace'', n), (''verb'', JStr v), (''ability'', a)]" "v \<noteq> []"
    "dget e ''target'' = JObj [(''kind'', k), (''ref'', r), (''environment'', JStr en)]" "en \<noteq> []"
    "dget e ''axes'' = JObj x" "py_strip u sid \<noteq> []"
  shows "required_fields u e = Inr ()"
  using assms by (simp add: required_fields_def Let_def nonempty_str_def)

text \<open>The engine accepts every envelope the MCP gateway builds, whatever mapping files the operator wrote, as long as they
  load, and whatever the call: it reads the axes, the environment and the count that the gateway classified, with
  nothing filled in, and the verb unless the tool's name asks for a guarded \<open>delete\<close>.\<close>

theorem mcp_envelope_accepted:
  assumes "load_mappings_dir lb load dir = Inr reg" "build_mcp_envelope lb st (Some reg) c = Inr e"
    and "mc_environment c \<in> {''production'', ''staging'', ''dev''}" "py_strip u (mc_session c) \<noteq> []"
    and "\<And>s. length (lb_sha256 lb s) = 64"
    and "\<not> nonce_seen seen (dget (as_obj (dget e ''meta'')) ''nonce'')"
  shows "case (snd (validate_and_fill_defaults u seen (JObj e)),
      classify_call lb (Some reg) (mc_system c) (mc_tool c) (mc_arguments c) (mc_hints c) (mc_trusted c)) of
      (Inr d, (cls, count, _)) \<Rightarrow> env_axis d ''reversibility'' = mk_reversibility cls
         \<and> env_axis d ''blast_radius'' = mk_blast_radius cls
         \<and> env_axis d ''externality'' = mk_externality cls
         \<and> env_environment d = mc_environment c
         \<and> env_verb d \<in> {mk_verb cls, ''delete''}
         \<and> env_undeclared d = JArr []
    | _ \<Rightarrow> False"
proof -
  obtain cls count source where c:
    "classify_call lb (Some reg) (mc_system c) (mc_tool c) (mc_arguments c) (mc_hints c) (mc_trusted c) = (cls, count, source)"
    using prod_cases3 by blast
  have "proper_class cls \<and> 1 \<le> count" by (rule classify_call_proper [OF loaded_proper [OF assms(1)] c])
  then have verb: "mk_verb cls \<in> set spec_verbs" and count: "1 \<le> count"
    and axes: "mk_reversibility cls \<in> set (axis_members ''reversibility'')"
      "mk_blast_radius cls \<in> set (axis_members ''blast_radius'')" "mk_externality cls \<in> set (axis_members ''externality'')"
    by (simp_all add: proper_class_def)
  obtain nonce where f: "make_nonce lb (mcp_nonce_text st (mc_session c) (mc_upstream c) (mc_tool c)) = Inr nonce"
    "dget e ''agent'' = JObj [(''id'', JStr (mc_agent c)), (''on_behalf_of'', jopt (mc_behalf c)),
       (''session_id'', JStr (mc_session c))]"
    "dget e ''action'' = JObj [(''namespace'', JStr (mc_system c)), (''verb'', JStr (mk_verb cls)),
       (''ability'', JStr (mc_system c @ ''/'' @ mc_tool c))]"
    "dget e ''target'' = JObj [(''kind'', JStr (mc_tool c)), (''ref'', jopt (guess_ref lb (mc_arguments c))),
       (''environment'', JStr (mc_environment c))]"
    "dget e ''params'' = JObj [(''upstream'', JStr (mc_upstream c)), (''tool_name'', JStr (mc_tool c)),
       (''arguments'', JObj (mc_arguments c))]"
    "dget e ''magnitude'' = JObj [(''count'', JInt count)]"
    "dget e ''axes'' = JObj [(''reversibility'', JStr (mk_reversibility cls)),
       (''blast_radius'', JStr (mk_blast_radius cls)), (''externality'', JStr (mk_externality cls))]"
    "dget e ''approval'' = JObj [(''present'', JBool False), (''hold_id'', JNull)]"
    "dget e ''meta'' = JObj [(''timestamp'', JStr (st_now st)), (''nonce'', JStr nonce),
       (''signature'', JStr (''ed25519:stub:'' @ take 16 nonce))]"
    by (rule mcp_envelope_fields [OF assms(2) c])
  have "nonce \<noteq> []"
    using f(1) assms(5) [of "mcp_nonce_text st (mc_session c) (mc_upstream c) (mc_tool c)"]
    by (auto simp: make_nonce_def split: if_splits)
  then have nonce: "check_nonce seen (JStr nonce) = (JStr nonce # seen, Inr ())"
    using assms(6) f(9) by (simp add: check_nonce_def)
  have meta: "meta_nonce e = Inr (JStr nonce)" by (simp add: meta_nonce_def f(9))
  have vne: "mk_verb cls \<noteq> []" using verb by (auto simp: spec_verbs_def)
  have req: "required_fields u e = Inr ()"
    by (rule mcp_required [OF f(2) f(3) vne f(4) _ f(7) assms(4)]) (use assms(3) in auto)
  obtain t where t: "fill_target u e = Inr (dput ''target'' (JObj t) e)" using hook_target_filled [OF f(4)] by blast
  have "dget (dput ''target'' (JObj t) e) ''params'' = JObj [(''upstream'', JStr (mc_upstream c)),
      (''tool_name'', JStr (mc_tool c)), (''arguments'', JObj (mc_arguments c))]" by (simp add: f(5))
  from hook_params_filled [OF this] obtain e2 where e2: "fill_params u (dput ''target'' (JObj t) e) = Inr e2" by auto
  obtain d where d: "fill_defaults u e = Inr d"
    using hook_magnitude_filled [OF f(6) count] by (simp add: fill_defaults_def t e2)
  have v: "snd (validate_and_fill_defaults u seen (JObj e)) = Inr d"
    by (simp add: validate_and_fill_defaults_def req meta nonce d)
  have ax: "canonical_axis e ''reversibility'' = mk_reversibility cls"
    "canonical_axis e ''blast_radius'' = mk_blast_radius cls" "canonical_axis e ''externality'' = mk_externality cls"
    using declared_axes [OF f(7) axes] by simp_all
  have rv: "raw_verb e = mk_verb cls" and re: "raw_environment e = mc_environment c"
    by (simp_all add: raw_verb_def raw_environment_def f(3,4))
  have vd: "canonical_verb u e \<in> {mk_verb cls, ''delete''}"
    using declared_verb [OF verb]
    by (simp add: canonical_verb_def Let_def rv ax canonicalize_verb_def not_physical [OF verb])
  have und: "undeclared_fields u e = []"
    using axes verb_declared [OF verb, of u] declared_environment [OF assms(3), of u] count
    by (simp add: undeclared_fields_def Let_def f(6,7) rv re members_declared environment_is_declared_def
        count_is_declared_def)
  show ?thesis
    using fill_defaults_read [OF d] vd und declared_environment [OF assms(3)] by (simp add: v c ax re)
qed

definition sample_mapping_text :: "string \<Rightarrow> yaml option" where
  "sample_mapping_text t =
     (if t = ''m'' then Some (YMap [(YStr ''tools'', YMap [(YStr ''write_file'',
        YMap [(YStr ''verb'', YStr ''create''), (YStr ''axes'', YMap [(YStr ''blast_radius'', YStr ''single'')])])])])
      else None)"

definition sample_mcp_call :: mcp_call where
  "sample_mcp_call = \<lparr>mc_session = ''mcp-gateway:1'', mc_agent = ''agent:mcp-client/mcp-gateway:1'', mc_behalf = None,
     mc_upstream = ''fs'', mc_system = ''filesystem'', mc_environment = ''staging'', mc_tool = ''write_file'',
     mc_arguments = [(''path'', JStr ''/srv/a'')], mc_hints = None, mc_trusted = False\<rparr>"

definition sample_mcp_stamps :: mcp_stamps where
  "sample_mcp_stamps = \<lparr>st_now = ''t'', st_monotonic_ns = 7, st_uuid = ''u''\<rparr>"

text \<open>The axes the operator left open are the engine's own restrictive defaults.\<close>

theorem mcp_envelope_accepted_witness:
  "case load_mappings_dir sample_library sample_mapping_text (Some [(''filesystem'', FText ''m'')]) of
     Inl _ \<Rightarrow> False
   | Inr reg \<Rightarrow> (case build_mcp_envelope sample_library sample_mcp_stamps (Some reg) sample_mcp_call of
       Inl _ \<Rightarrow> False
     | Inr e \<Rightarrow> (case snd (validate_and_fill_defaults plain_ucd [] (JObj e)) of
         Inl _ \<Rightarrow> False
       | Inr d \<Rightarrow> env_axis d ''blast_radius'' = ''single'' \<and> env_axis d ''externality'' = ''outbound''))"
proof -
  let ?dir = "Some [(''filesystem'', FText ''m'')]"
  obtain reg where reg: "load_mappings_dir sample_library sample_mapping_text ?dir = Inr reg"
    "registry_classify reg ''filesystem'' ''write_file'' [(''path'', JStr ''/srv/a'')]
      = Some (\<lparr>mk_verb = ''create'', mk_reversibility = ''irreversible'', mk_blast_radius = ''single'',
          mk_externality = ''outbound''\<rparr>, 1)"
  proof -
    have "case load_mappings_dir sample_library sample_mapping_text ?dir of Inl _ \<Rightarrow> False
      | Inr reg \<Rightarrow> registry_classify reg ''filesystem'' ''write_file'' [(''path'', JStr ''/srv/a'')]
         = Some (\<lparr>mk_verb = ''create'', mk_reversibility = ''irreversible'', mk_blast_radius = ''single'',
             mk_externality = ''outbound''\<rparr>, 1)" by code_simp
    then show thesis using that by (auto split: sum.splits)
  qed
  have m: "mc_system sample_mcp_call = ''filesystem''" "mc_tool sample_mcp_call = ''write_file''"
    "mc_arguments sample_mcp_call = [(''path'', JStr ''/srv/a'')]" "mc_environment sample_mcp_call = ''staging''"
    "mc_session sample_mcp_call = ''mcp-gateway:1''"
    by (simp_all add: sample_mcp_call_def)
  have n: "make_nonce sample_library s = Inr (replicate 32 CHR ''a'') \<or> make_nonce sample_library s = Inl HEncodeError" for s
    by (simp add: make_nonce_def sample_library_def)
  have "encodable (mcp_nonce_text sample_mcp_stamps ''mcp-gateway:1'' ''fs'' ''write_file'')" by code_simp
  then have "make_nonce sample_library (mcp_nonce_text sample_mcp_stamps (mc_session sample_mcp_call)
      (mc_upstream sample_mcp_call) (mc_tool sample_mcp_call)) \<noteq> Inl HEncodeError"
    by (simp add: make_nonce_def sample_mcp_call_def)
  then obtain e where e: "build_mcp_envelope sample_library sample_mcp_stamps (Some reg) sample_mcp_call = Inr e"
    by (cases "make_nonce sample_library (mcp_nonce_text sample_mcp_stamps (mc_session sample_mcp_call)
      (mc_upstream sample_mcp_call) (mc_tool sample_mcp_call))")
     (auto simp: build_mcp_envelope_def classify_call_def m reg(2) make_nonce_def split: if_splits)
  have s: "length (lb_sha256 sample_library s) = 64" for s by (simp add: sample_library_def)
  have u: "mc_environment sample_mcp_call \<in> {''production'', ''staging'', ''dev''}" "py_strip plain_ucd (mc_session sample_mcp_call) \<noteq> []"
    unfolding m by code_simp+
  show ?thesis
    using mcp_envelope_accepted [OF reg(1) e u s, of "[]"]
    by (auto simp: reg(1) e classify_call_def m reg(2) nonce_seen_def split: sum.splits)
qed

end
