(* ===== verification/McpConfig.thy ===== *)
theory McpConfig
  imports McpCalls
begin

text \<open>
  The MCP gateway's settings and its registry of upstream servers (\<open>reeflex-mcp/reeflex_mcp\<close>: \<open>config.py\<close>,
  \<open>registry.py\<close>): the environment, the loading of \<open>reeflex-mcp.yaml\<close> with every refusal of it, the precedence of
  the environment over the file, and the editing of the raw file. Reading and printing YAML are arguments.
\<close>

section \<open>The environment\<close>

type_synonym environ = "string \<Rightarrow> string option"

definition env_strip :: "library \<Rightarrow> environ \<Rightarrow> string \<Rightarrow> string" where
  "env_strip lb env k = strip lb (env_or (env k) [])"

definition mcp_core_url :: "environ \<Rightarrow> string" where
  "mcp_core_url env = rstrip_slashes (env_or (env ''REEFLEX_CORE_URL'') ''http://127.0.0.1:8080'')"

definition mcp_core_token :: "library \<Rightarrow> environ \<Rightarrow> string" where
  "mcp_core_token lb env = env_strip lb env ''REEFLEX_CORE_TOKEN''"

definition mcp_verify_ssl :: "library \<Rightarrow> environ \<Rightarrow> bool" where
  "mcp_verify_ssl lb env \<longleftrightarrow> lower lb (env_strip lb env ''REEFLEX_VERIFY_SSL'') \<notin> set [''0'', ''false'', ''no'', ''off'']"

text \<open>\<open>value if value > 0 else dflt\<close>; a \<open>NaN\<close> is not.\<close>

fun above_zero :: "pyfloat \<Rightarrow> bool" where
  "above_zero (Fin x) = (0 < x)"
| "above_zero PosInf = True"
| "above_zero _ = False"

definition seconds_or :: "library \<Rightarrow> environ \<Rightarrow> string \<Rightarrow> rat \<Rightarrow> pyfloat" where
  "seconds_or lb env k dflt =
     (case lb_float lb (env_or (env k) []) of
        None \<Rightarrow> Fin dflt
      | Some v \<Rightarrow> if above_zero v then v else Fin dflt)"

definition mcp_core_timeout :: "library \<Rightarrow> environ \<Rightarrow> pyfloat" where
  "mcp_core_timeout lb env = seconds_or lb env ''REEFLEX_MCP_TIMEOUT'' 10"

definition mcp_connect_timeout :: "library \<Rightarrow> environ \<Rightarrow> pyfloat" where
  "mcp_connect_timeout lb env = seconds_or lb env ''REEFLEX_MCP_UPSTREAM_CONNECT_TIMEOUT'' 10"

definition mcp_call_timeout :: "library \<Rightarrow> environ \<Rightarrow> pyfloat" where
  "mcp_call_timeout lb env = seconds_or lb env ''REEFLEX_MCP_CALL_TIMEOUT'' 30"

definition env_mode :: "library \<Rightarrow> environ \<Rightarrow> string" where
  "env_mode lb env =
     (let raw = lower lb (strip lb (env_or (env ''REEFLEX_MODE'') ''observe''))
      in if raw \<in> set [''observe'', ''enforce''] then raw else ''observe'')"

definition mcp_config_path :: "library \<Rightarrow> environ \<Rightarrow> string" where
  "mcp_config_path lb env =
     (let p = env_strip lb env ''REEFLEX_MCP_CONFIG'' in if p = [] then ''./reeflex-mcp.yaml'' else p)"

definition mappings_dir_env :: "library \<Rightarrow> environ \<Rightarrow> string option" where
  "mappings_dir_env lb env =
     (let p = env_strip lb env ''REEFLEX_MCP_MAPPINGS_DIR'' in if p = [] then None else Some p)"

definition mcp_transport :: "library \<Rightarrow> environ \<Rightarrow> string" where
  "mcp_transport lb env =
     (let raw = lower lb (env_strip lb env ''REEFLEX_MCP_TRANSPORT'')
      in if raw \<in> set [''stdio'', ''streamable-http''] then raw else ''stdio'')"

definition mcp_host :: "library \<Rightarrow> environ \<Rightarrow> string" where
  "mcp_host lb env = (let h = env_strip lb env ''REEFLEX_MCP_HOST'' in if h = [] then ''127.0.0.1'' else h)"

definition mcp_port :: "library \<Rightarrow> environ \<Rightarrow> int" where
  "mcp_port lb env =
     (case lb_int lb (env_or (env ''REEFLEX_MCP_PORT'') []) of
        None \<Rightarrow> 8000
      | Some n \<Rightarrow> if 0 < n then n else 8000)"

section \<open>The registry\<close>

record upstream_spec =
  us_name :: string
  us_kind :: string
  us_system :: string
  us_environment :: string
  us_required :: bool
  us_trust :: bool
  us_command :: "string option"
  us_args :: "string list"
  us_env :: "(string \<times> string) list"
  us_url :: "string option"
  us_auth :: "string option"

record client_spec =
  cs_token_env :: string
  cs_session :: string

record mcp_config =
  mg_mode :: "string option"
  mg_upstreams :: "upstream_spec list"
  mg_clients :: "client_spec list"
  mg_mappings :: "string option"

text \<open>Every constructor but the last two is a \<open>ConfigError\<close>.\<close>

datatype config_exc =
    ConfigAbsent | ConfigNotYaml | ConfigNotAMapping | ModeUnknown yaml | NoUpstreams
  | UpstreamNotAMapping nat | NameRequired nat | NameReserved nat string | NameTwice string
  | CommandOrUrl string | TargetRequired string | SystemRequired string | EnvironmentUnknown string yaml
  | RequiredNotBool string | TrustNotBool string | CommandShape string | CommandEmpty string | EnvShape string
  | UrlBlank string | AuthShape string | AuthBlank string
  | ClientsNotAList | ClientNotAMapping nat | TokenEnvRequired nat | SessionRequired nat | MappingsDirBlank
  | UpstreamsNotAList | ConfigUnhashable yaml | ConfigUnreadable

definition valid_environments :: "string list" where
  "valid_environments = [''production'', ''staging'', ''dev'']"

text \<open>\<open>entry.get(k, dflt)\<close> where only a boolean is taken.\<close>

definition flag_of :: "ymap \<Rightarrow> string \<Rightarrow> bool \<Rightarrow> bool option" where
  "flag_of entry k dflt =
     (case map_of entry (YStr k) of None \<Rightarrow> Some dflt | Some (YBool b) \<Rightarrow> Some b | Some _ \<Rightarrow> None)"

fun all_texts :: "yaml list \<Rightarrow> string list option" where
  "all_texts [] = Some []"
| "all_texts (YStr s # ys) = map_option (Cons s) (all_texts ys)"
| "all_texts _ = None"

text \<open>The command line; \<open>say\<close> is \<open>str\<close> on values that are no texts.\<close>

definition parse_argv :: "string \<Rightarrow> yaml \<Rightarrow> config_exc + string list" where
  "parse_argv name y =
     (case y of
        YStr s \<Rightarrow> Inr [s]
      | YSeq ys \<Rightarrow> (case all_texts ys of None \<Rightarrow> Inl (CommandShape name)
          | Some [] \<Rightarrow> Inl (CommandEmpty name) | Some argv \<Rightarrow> Inr argv)
      | _ \<Rightarrow> Inl (CommandShape name))"

definition yaml_str :: "(yaml \<Rightarrow> string) \<Rightarrow> yaml \<Rightarrow> string" where
  "yaml_str say y = (case y of YStr s \<Rightarrow> s | _ \<Rightarrow> say y)"

definition str_entries :: "(yaml \<Rightarrow> string) \<Rightarrow> ymap \<Rightarrow> (string \<times> string) list" where
  "str_entries say m = fold (\<lambda>(k, v). dput (yaml_str say k) (yaml_str say v)) m []"

definition parse_auth :: "library \<Rightarrow> string \<Rightarrow> yaml \<Rightarrow> config_exc + string option" where
  "parse_auth lb name y =
     (case y of
        YNull \<Rightarrow> Inr None
      | YMap m \<Rightarrow>
          (case yget m ''token_env'' of
             YStr s \<Rightarrow> if strip lb s = [] then Inl (AuthBlank name) else Inr (Some (strip lb s))
           | _ \<Rightarrow> Inl (AuthShape name))
      | _ \<Rightarrow> Inl (AuthShape name))"

text \<open>The two kinds of upstream, once the parts they share are known.\<close>

definition parse_stdio :: "(yaml \<Rightarrow> string) \<Rightarrow> ymap \<Rightarrow> upstream_spec \<Rightarrow> config_exc + upstream_spec" where
  "parse_stdio say entry base =
     bindE (parse_argv (us_name base) (yget entry ''command'')) (\<lambda>argv.
       case ymap_or_empty (yget entry ''env'') of
         None \<Rightarrow> Inl (EnvShape (us_name base))
       | Some m \<Rightarrow> Inr (base\<lparr>us_kind := ''stdio'', us_command := Some (hd argv), us_args := tl argv,
                         us_env := str_entries say m\<rparr>))"

definition parse_http :: "library \<Rightarrow> ymap \<Rightarrow> upstream_spec \<Rightarrow> config_exc + upstream_spec" where
  "parse_http lb entry base =
     (case filled lb (yget entry ''url'') of
        None \<Rightarrow> Inl (UrlBlank (us_name base))
      | Some url \<Rightarrow> bindE (parse_auth lb (us_name base) (yget entry ''auth'')) (\<lambda>auth.
          Inr (base\<lparr>us_kind := ''http'', us_url := Some (strip lb url), us_auth := auth\<rparr>)))"

definition parse_target :: "library \<Rightarrow> string \<Rightarrow> yaml \<Rightarrow> config_exc + string \<times> string" where
  "parse_target lb name y =
     (case y of
        YMap target \<Rightarrow>
          (case filled lb (yget target ''system'') of
             None \<Rightarrow> Inl (SystemRequired name)
           | Some system \<Rightarrow>
               (let env = yget target ''environment''
                in if \<not> yaml_hashable env then Inl (ConfigUnhashable env)
                   else case env of
                     YStr e \<Rightarrow> if e \<in> set valid_environments then Inr (strip lb system, e)
                               else Inl (EnvironmentUnknown name env)
                   | _ \<Rightarrow> Inl (EnvironmentUnknown name env)))
      | _ \<Rightarrow> Inl (TargetRequired name))"

definition has_command :: "ymap \<Rightarrow> bool" where
  "has_command entry \<longleftrightarrow> yget entry ''command'' \<notin> set [YNull, YStr [], YSeq []]"

definition has_url :: "ymap \<Rightarrow> bool" where
  "has_url entry \<longleftrightarrow> yget entry ''url'' \<notin> set [YNull, YStr []]"

definition parse_upstream ::
  "library \<Rightarrow> (yaml \<Rightarrow> string) \<Rightarrow> nat \<Rightarrow> yaml \<Rightarrow> config_exc + upstream_spec" where
  "parse_upstream lb say i y =
     (case y of
        YMap entry \<Rightarrow>
          (case filled lb (yget entry ''name'') of
             None \<Rightarrow> Inl (NameRequired i)
           | Some raw \<Rightarrow>
               (let name = strip lb raw
                in if contains_text ''__'' name then Inl (NameReserved i name)
                   else if has_command entry = has_url entry then Inl (CommandOrUrl name)
                   else bindE (parse_target lb name (yget entry ''target'')) (\<lambda>(system, environment).
                     case flag_of entry ''required'' True of
                       None \<Rightarrow> Inl (RequiredNotBool name)
                     | Some required \<Rightarrow>
                         (case flag_of entry ''trust_annotations'' False of
                            None \<Rightarrow> Inl (TrustNotBool name)
                          | Some trust \<Rightarrow>
                              (let base = \<lparr>us_name = name, us_kind = [], us_system = system,
                                     us_environment = environment, us_required = required, us_trust = trust,
                                     us_command = None, us_args = [], us_env = [], us_url = None, us_auth = None\<rparr>
                               in if has_command entry then parse_stdio say entry base
                                  else parse_http lb entry base)))))
      | _ \<Rightarrow> Inl (UpstreamNotAMapping i))"

fun parse_upstreams ::
  "library \<Rightarrow> (yaml \<Rightarrow> string) \<Rightarrow> nat \<Rightarrow> string list \<Rightarrow> yaml list \<Rightarrow> config_exc + upstream_spec list" where
  "parse_upstreams lb say i seen [] = Inr []"
| "parse_upstreams lb say i seen (y # ys) =
     bindE (parse_upstream lb say i y) (\<lambda>spec.
       if us_name spec \<in> set seen then Inl (NameTwice (us_name spec))
       else bindE (parse_upstreams lb say (Suc i) (us_name spec # seen) ys) (\<lambda>rest. Inr (spec # rest)))"

definition parse_client :: "library \<Rightarrow> nat \<Rightarrow> yaml \<Rightarrow> config_exc + client_spec" where
  "parse_client lb i y =
     (case y of
        YMap entry \<Rightarrow>
          (case filled lb (yget entry ''token_env'') of
             None \<Rightarrow> Inl (TokenEnvRequired i)
           | Some t \<Rightarrow>
               (case filled lb (yget entry ''session_id'') of
                  None \<Rightarrow> Inl (SessionRequired i)
                | Some s \<Rightarrow> Inr \<lparr>cs_token_env = strip lb t, cs_session = strip lb s\<rparr>))
      | _ \<Rightarrow> Inl (ClientNotAMapping i))"

fun parse_clients :: "library \<Rightarrow> nat \<Rightarrow> yaml list \<Rightarrow> config_exc + client_spec list" where
  "parse_clients lb i [] = Inr []"
| "parse_clients lb i (y # ys) =
     bindE (parse_client lb i y) (\<lambda>c. bindE (parse_clients lb (Suc i) ys) (\<lambda>rest. Inr (c # rest)))"

definition parse_mode :: "yaml \<Rightarrow> config_exc + string option" where
  "parse_mode y =
     (case y of
        YNull \<Rightarrow> Inr None
      | YStr s \<Rightarrow> if s \<in> set [''observe'', ''enforce''] then Inr (Some s) else Inl (ModeUnknown y)
      | _ \<Rightarrow> Inl (ModeUnknown y))"

definition parse_client_list :: "library \<Rightarrow> yaml \<Rightarrow> config_exc + client_spec list" where
  "parse_client_list lb y =
     (if \<not> yaml_truth y then Inr []
      else case y of YSeq ys \<Rightarrow> parse_clients lb 0 ys | _ \<Rightarrow> Inl ClientsNotAList)"

definition parse_mappings_dir :: "library \<Rightarrow> yaml \<Rightarrow> config_exc + string option" where
  "parse_mappings_dir lb y =
     (if y = YNull then Inr None
      else case filled lb y of None \<Rightarrow> Inl MappingsDirBlank | Some s \<Rightarrow> Inr (Some (strip lb s)))"

text \<open>The file as a value: \<open>None\<close> is no YAML.\<close>

definition yaml_file :: "(string \<Rightarrow> yaml option) \<Rightarrow> text_file \<Rightarrow> config_exc + yaml" where
  "yaml_file load f =
     (case f of
        FText t \<Rightarrow> (case load t of None \<Rightarrow> Inl ConfigNotYaml | Some y \<Rightarrow> Inr y)
      | FAbsent \<Rightarrow> Inl ConfigAbsent
      | FUnreadable \<Rightarrow> Inl ConfigUnreadable)"

definition parse_config :: "library \<Rightarrow> (yaml \<Rightarrow> string) \<Rightarrow> ymap \<Rightarrow> config_exc + mcp_config" where
  "parse_config lb say raw =
     bindE (parse_mode (yget raw ''mode'')) (\<lambda>mode.
       case yget raw ''upstreams'' of
         YSeq ys \<Rightarrow>
           if ys = [] then Inl NoUpstreams
           else bindE (parse_upstreams lb say 0 [] ys) (\<lambda>ups.
             bindE (parse_client_list lb (yget raw ''clients'')) (\<lambda>clients.
             bindE (parse_mappings_dir lb (yget raw ''mappings_dir'')) (\<lambda>dir.
               Inr \<lparr>mg_mode = mode, mg_upstreams = ups, mg_clients = clients, mg_mappings = dir\<rparr>)))
       | _ \<Rightarrow> Inl NoUpstreams)"

definition load_config ::
  "library \<Rightarrow> (string \<Rightarrow> yaml option) \<Rightarrow> (yaml \<Rightarrow> string) \<Rightarrow> text_file \<Rightarrow> config_exc + mcp_config" where
  "load_config lb load say f =
     bindE (yaml_file load f) (\<lambda>y. case y of
         YNull \<Rightarrow> parse_config lb say []
       | YMap raw \<Rightarrow> parse_config lb say raw
       | _ \<Rightarrow> Inl ConfigNotAMapping)"

section \<open>Precedence and lookups\<close>

definition resolve_env_ref :: "library \<Rightarrow> environ \<Rightarrow> string option \<Rightarrow> string option" where
  "resolve_env_ref lb env var =
     (case var of
        None \<Rightarrow> None
      | Some v \<Rightarrow> if v = [] then None else let x = env_strip lb env v in if x = [] then None else Some x)"

definition effective_mode :: "library \<Rightarrow> environ \<Rightarrow> mcp_config \<Rightarrow> string" where
  "effective_mode lb env g =
     (if env_strip lb env ''REEFLEX_MODE'' \<noteq> [] then env_mode lb env
      else case mg_mode g of
        Some m \<Rightarrow> if m \<in> set [''observe'', ''enforce''] then m else ''observe''
      | None \<Rightarrow> ''observe'')"

definition effective_mappings_dir :: "library \<Rightarrow> environ \<Rightarrow> mcp_config \<Rightarrow> string option" where
  "effective_mappings_dir lb env g =
     (case mappings_dir_env lb env of Some d \<Rightarrow> Some d | None \<Rightarrow> mg_mappings g)"

definition session_id_for_token :: "library \<Rightarrow> environ \<Rightarrow> mcp_config \<Rightarrow> string option \<Rightarrow> string option" where
  "session_id_for_token lb env g bearer =
     (case bearer of
        None \<Rightarrow> None
      | Some b \<Rightarrow>
          if b = [] then None
          else map_option cs_session (find (\<lambda>c. resolve_env_ref lb env (Some (cs_token_env c)) = Some b) (mg_clients g)))"

section \<open>Editing the raw file\<close>

definition fresh_raw :: ymap where
  "fresh_raw = [(YStr ''mode'', YStr ''observe''), (YStr ''upstreams'', YSeq [])]"

definition set_default :: "string \<Rightarrow> yaml \<Rightarrow> ymap \<Rightarrow> ymap" where
  "set_default k v m = (if map_of m (YStr k) = None then dput (YStr k) v m else m)"

definition load_raw_yaml :: "(string \<Rightarrow> yaml option) \<Rightarrow> text_file \<Rightarrow> config_exc + ymap" where
  "load_raw_yaml load f =
     (if f = FAbsent then Inr fresh_raw
      else bindE (yaml_file load f) (\<lambda>y. case y of
          YNull \<Rightarrow> Inr fresh_raw
        | YMap m \<Rightarrow>
            (let raw = set_default ''upstreams'' (YSeq []) m
             in case yget raw ''upstreams'' of YSeq _ \<Rightarrow> Inr raw | _ \<Rightarrow> Inl UpstreamsNotAList)
        | _ \<Rightarrow> Inl ConfigNotAMapping))"

text \<open>An entry is found by its name, not by its place.\<close>

definition named_entry :: "string \<Rightarrow> yaml \<Rightarrow> bool" where
  "named_entry name y \<longleftrightarrow> (case y of YMap m \<Rightarrow> yget m ''name'' = YStr name | _ \<Rightarrow> False)"

fun upsert_entry :: "string \<Rightarrow> ymap \<Rightarrow> yaml list \<Rightarrow> yaml list" where
  "upsert_entry name entry [] = [YMap entry]"
| "upsert_entry name entry (y # ys) =
     (if named_entry name y then YMap entry # ys else y # upsert_entry name entry ys)"

text \<open>The answer says whether an entry was replaced.\<close>

definition upsert_upstream_raw :: "ymap \<Rightarrow> string \<Rightarrow> ymap \<Rightarrow> config_exc + ymap \<times> bool" where
  "upsert_upstream_raw raw name entry =
     (let raw' = set_default ''upstreams'' (YSeq []) raw
      in case yget raw' ''upstreams'' of
           YSeq ys \<Rightarrow> Inr (dput (YStr ''upstreams'') (YSeq (upsert_entry name entry ys)) raw', list_ex (named_entry name) ys)
         | _ \<Rightarrow> Inl UpstreamsNotAList)"

definition remove_upstream_raw :: "ymap \<Rightarrow> string \<Rightarrow> ymap \<times> bool" where
  "remove_upstream_raw raw name =
     (case yget raw ''upstreams'' of
        YSeq ys \<Rightarrow>
          (let kept = filter (\<lambda>y. \<not> named_entry name y) ys
           in (dput (YStr ''upstreams'') (YSeq kept) raw, length kept \<noteq> length ys))
      | _ \<Rightarrow> (raw, False))"

section \<open>What a loaded registry holds\<close>

definition proper_spec :: "upstream_spec \<Rightarrow> bool" where
  "proper_spec s \<longleftrightarrow> us_name s \<noteq> [] \<and> \<not> contains_text ''__'' (us_name s) \<and> us_system s \<noteq> []
     \<and> us_environment s \<in> set valid_environments
     \<and> (if us_kind s = ''stdio'' then us_command s \<noteq> None \<and> us_url s = None \<and> us_auth s = None
        else us_kind s = ''http'' \<and> us_command s = None \<and> us_url s \<noteq> None \<and> us_url s \<noteq> Some [])"

definition proper_client :: "client_spec \<Rightarrow> bool" where
  "proper_client c \<longleftrightarrow> cs_token_env c \<noteq> [] \<and> cs_session c \<noteq> []"

text \<open>What an entry of the file says in so many words.\<close>

definition says :: "ymap \<Rightarrow> string \<Rightarrow> yaml \<Rightarrow> bool" where
  "says m k v \<longleftrightarrow> map_of m (YStr k) = Some v"

definition declared :: "yaml \<Rightarrow> upstream_spec \<Rightarrow> bool" where
  "declared y s \<longleftrightarrow> (case y of YMap m \<Rightarrow> us_trust s = says m ''trust_annotations'' (YBool True)
       \<and> (case yget m ''target'' of YMap t \<Rightarrow> says t ''environment'' (YStr (us_environment s)) | _ \<Rightarrow> False)
     | _ \<Rightarrow> False)"

lemma filled_strip: "filled lb y = Some s \<Longrightarrow> y = YStr s \<and> strip lb s \<noteq> []"
  by (cases y) (auto simp: filled_def split: if_splits)

lemma yget_says: "yget m k = v \<Longrightarrow> v \<noteq> YNull \<Longrightarrow> says m k v"
  by (auto simp: yget_def says_def split: option.splits)

lemma flag_of_trust: "flag_of m k False = Some b \<Longrightarrow> b = says m k (YBool True)"
  by (auto simp: flag_of_def says_def split: option.splits yaml.splits)

lemma parse_target_Inr:
  assumes "parse_target lb name y = Inr (system, e)"
  shows "system \<noteq> [] \<and> e \<in> set valid_environments \<and> (case y of YMap t \<Rightarrow> says t ''environment'' (YStr e) | _ \<Rightarrow> False)"
proof -
  obtain t where y: "y = YMap t" using assms by (cases y) (simp_all add: parse_target_def)
  obtain raw where r: "filled lb (yget t ''system'') = Some raw"
    using assms by (cases "filled lb (yget t ''system'')") (simp_all add: parse_target_def y)
  have "yget t ''environment'' = YStr e \<and> system = strip lb raw \<and> e \<in> set valid_environments"
    using assms by (auto simp: parse_target_def y r Let_def split: if_splits yaml.splits)
  then show ?thesis using filled_strip [OF r] yget_says [of t "''environment''"] by (simp add: y)
qed

text \<open>The parts of a base that the two kinds keep.\<close>

definition same_base :: "upstream_spec \<Rightarrow> upstream_spec \<Rightarrow> bool" where
  "same_base b s \<longleftrightarrow> us_name s = us_name b \<and> us_system s = us_system b \<and> us_environment s = us_environment b
     \<and> us_required s = us_required b \<and> us_trust s = us_trust b"

lemma parse_stdio_Inr: "parse_stdio say m b = Inr s \<Longrightarrow>
    same_base b s \<and> us_kind s = ''stdio'' \<and> us_command s \<noteq> None \<and> us_url s = us_url b \<and> us_auth s = us_auth b"
  by (auto simp: parse_stdio_def py_simps same_base_def split: option.splits)

lemma parse_http_Inr: "parse_http lb m b = Inr s \<Longrightarrow>
    same_base b s \<and> us_kind s = ''http'' \<and> us_command s = us_command b \<and> us_url s \<noteq> None \<and> us_url s \<noteq> Some []"
  by (auto simp: parse_http_def py_simps same_base_def split: option.splits dest!: filled_strip)

lemma parse_upstream_Inr:
  assumes "parse_upstream lb say i y = Inr s"
  shows "proper_spec s \<and> declared y s"
proof -
  obtain m where y: "y = YMap m" using assms by (cases y) (simp_all add: parse_upstream_def)
  obtain raw where r: "filled lb (yget m ''name'') = Some raw"
    using assms by (cases "filled lb (yget m ''name'')") (simp_all add: parse_upstream_def y)
  let ?name = "strip lb raw"
  have n: "\<not> contains_text ''__'' ?name" "has_command m \<noteq> has_url m"
    using assms by (auto simp: parse_upstream_def y r Let_def split: if_splits)
  obtain system e where t: "parse_target lb ?name (yget m ''target'') = Inr (system, e)"
    using assms n by (auto simp: parse_upstream_def y r Let_def py_simps)
  obtain rq tr where f: "flag_of m ''required'' True = Some rq" "flag_of m ''trust_annotations'' False = Some tr"
    using assms n by (auto simp: parse_upstream_def y r Let_def py_simps t split: option.splits)
  let ?base = "\<lparr>us_name = ?name, us_kind = [], us_system = system, us_environment = e, us_required = rq, us_trust = tr,
     us_command = None, us_args = [], us_env = [], us_url = None, us_auth = None\<rparr>"
  have s: "(if has_command m then parse_stdio say m ?base else parse_http lb m ?base) = Inr s"
    using assms n by (simp add: parse_upstream_def y r Let_def t f)
  have b: "same_base ?base s"
    using s parse_stdio_Inr [of say m ?base s] parse_http_Inr [of lb m ?base s] by (auto split: if_splits)
  have k: "if us_kind s = ''stdio'' then us_command s \<noteq> None \<and> us_url s = None \<and> us_auth s = None
      else us_kind s = ''http'' \<and> us_command s = None \<and> us_url s \<noteq> None \<and> us_url s \<noteq> Some []"
    using s parse_stdio_Inr [of say m ?base s] parse_http_Inr [of lb m ?base s] by (auto split: if_splits)
  show ?thesis
    using b k n parse_target_Inr [OF t] filled_strip [OF r] flag_of_trust [OF f(2)]
    by (auto simp: proper_spec_def declared_def same_base_def y split: yaml.splits)
qed

lemma parse_upstreams_Inr:
  "parse_upstreams lb say i seen ys = Inr ss \<Longrightarrow>
     list_all proper_spec ss \<and> list_all2 declared ys ss \<and> distinct (map us_name ss) \<and> set (map us_name ss) \<inter> set seen = {}"
proof (induction lb say i seen ys arbitrary: ss rule: parse_upstreams.induct)
  case (2 lb say i seen y ys)
  then obtain s rest where s: "parse_upstream lb say i y = Inr s" "us_name s \<notin> set seen" "ss = s # rest"
    "parse_upstreams lb say (Suc i) (us_name s # seen) ys = Inr rest"
    by (auto simp: py_simps split: if_splits)
  show ?case using 2(1) [OF s(2,4)] parse_upstream_Inr [OF s(1)] s(2) by (auto simp: s(3))
qed simp

lemma parse_clients_Inr: "parse_clients lb i ys = Inr cs \<Longrightarrow> list_all proper_client cs"
  by (induction lb i ys arbitrary: cs rule: parse_clients.induct)
    (auto simp: py_simps parse_client_def proper_client_def split: yaml.splits option.splits dest!: filled_strip)

definition upstream_entries :: "(string \<Rightarrow> yaml option) \<Rightarrow> text_file \<Rightarrow> yaml list" where
  "upstream_entries load f =
     (case yaml_file load f of
        Inr (YMap raw) \<Rightarrow> (case yget raw ''upstreams'' of YSeq ys \<Rightarrow> ys | _ \<Rightarrow> [])
      | _ \<Rightarrow> [])"

lemma loaded_parts:
  assumes "load_config lb load say f = Inr g"
  obtains ys cl where "ys \<noteq> []" "upstream_entries load f = ys" "parse_upstreams lb say 0 [] ys = Inr (mg_upstreams g)"
    "parse_client_list lb cl = Inr (mg_clients g)"
proof -
  obtain y where y: "yaml_file load f = Inr y" using assms by (auto simp: load_config_def py_simps)
  obtain raw where raw: "parse_config lb say raw = Inr g" "y = YMap raw \<or> y = YNull \<and> raw = []"
    using assms by (auto simp: load_config_def y split: yaml.splits)
  have "\<exists>ys. yget raw ''upstreams'' = YSeq ys \<and> ys \<noteq> []"
    using raw(1) by (cases "yget raw ''upstreams''") (auto simp: parse_config_def py_simps split: if_splits)
  then obtain ys where ys: "yget raw ''upstreams'' = YSeq ys" "ys \<noteq> []" by blast
  then have "y = YMap raw" using raw(2) by (auto simp: yget_def)
  then have e: "upstream_entries load f = ys" by (simp add: upstream_entries_def y ys)
  have "parse_upstreams lb say 0 [] ys = Inr (mg_upstreams g)" "parse_client_list lb (yget raw ''clients'') = Inr (mg_clients g)"
    using raw(1) by (auto simp: parse_config_def py_simps ys)
  then show thesis using that ys(2) e by blast
qed

lemma loaded_specs:
  assumes "load_config lb load say f = Inr g"
  shows "distinct (map us_name (mg_upstreams g)) \<and> list_all proper_spec (mg_upstreams g)"
  by (rule loaded_parts [OF assms]) (use parse_upstreams_Inr in blast)

text \<open>A registry that loads names every upstream once, by a name without the separator of the tool
  names, gives each a system, one of the three environments and exactly one way to reach it, and holds no
  blank session; and it trusts a server's own annotations, and takes its environment, only on the word of the file.\<close>

theorem loaded_registry_is_proper:
  "case load_config lb load say f of
     Inl _ \<Rightarrow> True
   | Inr g \<Rightarrow> mg_upstreams g \<noteq> [] \<and> distinct (map us_name (mg_upstreams g))
       \<and> list_all proper_spec (mg_upstreams g) \<and> list_all proper_client (mg_clients g)
       \<and> list_all2 declared (upstream_entries load f) (mg_upstreams g)"
proof (cases "load_config lb load say f")
  case (Inr g)
  obtain ys cl where p: "ys \<noteq> []" "upstream_entries load f = ys" "parse_upstreams lb say 0 [] ys = Inr (mg_upstreams g)"
    "parse_client_list lb cl = Inr (mg_clients g)" by (rule loaded_parts [OF Inr])
  have "list_all proper_client (mg_clients g)"
    using p(4) parse_clients_Inr by (auto simp: parse_client_list_def split: if_splits yaml.splits)
  then show ?thesis using parse_upstreams_Inr [OF p(3)] p(1,2) by (auto simp: Inr)
qed simp

section \<open>What an edit leaves\<close>

lemma upsert_entry_named:
  "named_entry name (YMap entry) \<Longrightarrow> find (named_entry name) (upsert_entry name entry ys) = Some (YMap entry)"
  by (induction ys) auto

lemma upsert_entry_others:
  "named_entry name (YMap entry) \<Longrightarrow>
     filter (\<lambda>y. \<not> named_entry name y) (upsert_entry name entry ys) = filter (\<lambda>y. \<not> named_entry name y) ys"
  by (induction ys) auto

lemma upsert_entry_twice:
  "named_entry name (YMap entry) \<Longrightarrow> upsert_entry name entry (upsert_entry name entry ys) = upsert_entry name entry ys"
  by (induction ys) auto

end
