(* ===== verification/McpUpstreams.thy ===== *)
theory McpUpstreams
  imports McpConfig
begin

text \<open>
  The upstream servers behind the MCP gateway (\<open>reeflex-mcp/reeflex_mcp/upstream.py\<close>): what a connection is opened
  with, the process-wide registry of connections with the tools each server declared, and the names under which
  the gateway offers them. How an attempt to connect, a listing or a call ends is an argument of the operation.
\<close>

section \<open>Connections\<close>

datatype transport =
    Stdio string "string list" "(string \<times> string) list option"
  | Http string "(string \<times> string) list option"

text \<open>A connection is open while it has a session.\<close>

record connection =
  cn_name :: string
  cn_system :: string
  cn_environment :: string
  cn_transport :: transport
  cn_open :: bool

text \<open>A bearer token is read at the moment of connecting.\<close>

definition bearer_headers :: "string option \<Rightarrow> (string \<times> string) list option" where
  "bearer_headers token =
     (case token of
        None \<Rightarrow> None
      | Some t \<Rightarrow> if t = [] then None else Some [(''Authorization'', ''Bearer '' @ t)])"

definition build_connection :: "library \<Rightarrow> environ \<Rightarrow> upstream_spec \<Rightarrow> connection option" where
  "build_connection lb env s =
     (let conn = (\<lambda>t. \<lparr>cn_name = us_name s, cn_system = us_system s, cn_environment = us_environment s,
            cn_transport = t, cn_open = False\<rparr>)
      in if us_kind s = ''stdio''
         then Some (conn (Stdio (case us_command s of Some c \<Rightarrow> c | None \<Rightarrow> []) (us_args s)
                (if us_env s = [] then None else Some (us_env s))))
         else if us_kind s = ''http''
         then Some (conn (Http (case us_url s of Some u \<Rightarrow> u | None \<Rightarrow> [])
                (bearer_headers (resolve_env_ref lb env (us_auth s)))))
         else None)"

section \<open>The registry of connections\<close>

record mcp_tool =
  mt_name :: string
  mt_hints :: "tool_hints option"
  mt_rest :: json

record upstreams =
  ur_specs :: "(string \<times> upstream_spec) list"
  ur_conns :: "(string \<times> connection) list"
  ur_up :: "(string \<times> bool) list"
  ur_cache :: "(string \<times> mcp_tool list) list"

text \<open>A connection fails within its time, or opens and then does or does not list its tools.\<close>

datatype attempt = ConnectFails string | ListFails string | Connects "mcp_tool list"

definition is_up :: "upstreams \<Rightarrow> string \<Rightarrow> bool" where
  "is_up st n \<longleftrightarrow> map_of (ur_up st) n = Some True"

definition connect_and_register ::
  "library \<Rightarrow> environ \<Rightarrow> upstream_spec \<Rightarrow> attempt \<Rightarrow> upstreams \<Rightarrow> hook_exc + upstreams \<times> string option" where
  "connect_and_register lb env s a st =
     (let n = us_name s
      in case build_connection lb env s of
           None \<Rightarrow> Inl HValueError
         | Some c \<Rightarrow>
             (case a of
                ConnectFails err \<Rightarrow> Inr (st\<lparr>ur_conns := dput n c (ur_conns st), ur_up := dput n False (ur_up st)\<rparr>, Some err)
              | ListFails err \<Rightarrow> Inr (st\<lparr>ur_conns := dput n (c\<lparr>cn_open := True\<rparr>) (ur_conns st),
                                       ur_up := dput n False (ur_up st)\<rparr>, Some err)
              | Connects tools \<Rightarrow> Inr (st\<lparr>ur_conns := dput n (c\<lparr>cn_open := True\<rparr>) (ur_conns st),
                                         ur_cache := dput n tools (ur_cache st), ur_up := dput n True (ur_up st)\<rparr>, None)))"

definition close_connection :: "connection \<Rightarrow> connection" where
  "close_connection c = c\<lparr>cn_open := False\<rparr>"

definition close_all :: "upstreams \<Rightarrow> upstreams" where
  "close_all st = st\<lparr>ur_conns := map (\<lambda>(n, c). (n, close_connection c)) (ur_conns st)\<rparr>"

text \<open>The loop over the configured upstreams, with the failures that are fatal.\<close>

fun connect_each ::
  "library \<Rightarrow> environ \<Rightarrow> (string \<Rightarrow> attempt) \<Rightarrow> upstream_spec list \<Rightarrow> upstreams
     \<Rightarrow> hook_exc + upstreams \<times> (string \<times> string) list" where
  "connect_each lb env a [] st = Inr (st, [])"
| "connect_each lb env a (s # ss) st =
     bindE (connect_and_register lb env s (a (us_name s)) st) (\<lambda>(st', err).
       bindE (connect_each lb env a ss st') (\<lambda>(st'', fatal).
         Inr (st'', (case err of Some e \<Rightarrow> if us_required s then [(us_name s, if e = [] then ''unknown error'' else e)] else []
                               | None \<Rightarrow> []) @ fatal)))"

definition fresh_upstreams :: "upstream_spec list \<Rightarrow> upstreams" where
  "fresh_upstreams specs = \<lparr>ur_specs = fold (\<lambda>s. dput (us_name s) s) specs [], ur_conns = [], ur_up = [], ur_cache = []\<rparr>"

text \<open>Booting: a required upstream that fails closes what was opened and stops the boot.\<close>

definition connect_all ::
  "library \<Rightarrow> environ \<Rightarrow> (string \<Rightarrow> attempt) \<Rightarrow> upstreams \<Rightarrow> hook_exc + upstreams \<times> (string \<times> string) list" where
  "connect_all lb env a st =
     bindE (connect_each lb env a (map snd (ur_specs st)) st) (\<lambda>(st', fatal).
       Inr (if fatal \<noteq> [] then close_all st' else st', fatal))"

text \<open>One upstream more, or again, while the gateway runs.\<close>

definition connect_one ::
  "library \<Rightarrow> environ \<Rightarrow> attempt \<Rightarrow> upstream_spec \<Rightarrow> upstreams \<Rightarrow> hook_exc + upstreams \<times> string option" where
  "connect_one lb env a s st =
     connect_and_register lb env s a
       (st\<lparr>ur_conns := filter (\<lambda>(n, _). n \<noteq> us_name s) (ur_conns st), ur_specs := dput (us_name s) s (ur_specs st)\<rparr>)"

definition known_upstream_names :: "upstreams \<Rightarrow> string list" where
  "known_upstream_names st = map fst (ur_specs st)"

definition up_upstream_names :: "upstreams \<Rightarrow> string list" where
  "up_upstream_names st = map fst (filter snd (ur_up st))"

text \<open>What a server's message does: only the news that its tools changed lists them again. The answer says whether
  the fronts are told.\<close>

datatype server_message = SessionError string | ToolsChanged "string + mcp_tool list" | OtherMessage

definition handle_upstream_message :: "string \<Rightarrow> server_message \<Rightarrow> upstreams \<Rightarrow> upstreams \<times> bool" where
  "handle_upstream_message n m st =
     (case m of
        ToolsChanged listing \<Rightarrow>
          if map_of (ur_conns st) n = None \<or> \<not> is_up st n then (st, False)
          else (case listing of Inl err \<Rightarrow> (st, False) | Inr tools \<Rightarrow> (st\<lparr>ur_cache := dput n tools (ur_cache st)\<rparr>, True))
      | _ \<Rightarrow> (st, False))"

definition tool_annotations :: "upstreams \<Rightarrow> string \<Rightarrow> string \<Rightarrow> tool_hints option" where
  "tool_annotations st n tool =
     (case map_of (ur_cache st) n of
        None \<Rightarrow> None
      | Some tools \<Rightarrow> (case find (\<lambda>t. mt_name t = tool) tools of None \<Rightarrow> None | Some t \<Rightarrow> mt_hints t))"

section \<open>The names of the tools\<close>

definition namespaced :: "string \<Rightarrow> string \<Rightarrow> string" where
  "namespaced n tool = n @ ''__'' @ tool"

text \<open>The tools of the upstreams that are up, each with the upstream it is from.\<close>

definition listed_tools :: "upstreams \<Rightarrow> (string \<times> mcp_tool) list" where
  "listed_tools st = concat (map (\<lambda>(n, tools). map (Pair n) tools) (filter (\<lambda>(n, _). is_up st n) (ur_cache st)))"

definition aggregated_tools :: "upstreams \<Rightarrow> mcp_tool list" where
  "aggregated_tools st = map (\<lambda>(n, t). t\<lparr>mt_name := namespaced n (mt_name t)\<rparr>) (listed_tools st)"

text \<open>\<open>s.split("__", 1)\<close>, if the separator occurs.\<close>

fun split_name :: "string \<Rightarrow> (string \<times> string) option" where
  "split_name (a # b # cs) =
     (if a = CHR ''_'' \<and> b = CHR ''_'' then Some ([], cs)
      else map_option (\<lambda>(n, t). (a # n, t)) (split_name (b # cs)))"
| "split_name _ = None"

definition resolve_tool :: "upstreams \<Rightarrow> string \<Rightarrow> (string \<times> string) option" where
  "resolve_tool st name =
     (case split_name name of
        None \<Rightarrow> None
      | Some (n, tool) \<Rightarrow>
          if tool = [] \<or> map_of (ur_specs st) n = None \<or> \<not> is_up st n then None else Some (n, tool))"

definition target_for :: "upstreams \<Rightarrow> string \<Rightarrow> string \<times> string" where
  "target_for st n = (case map_of (ur_specs st) n of
     Some s \<Rightarrow> (us_system s, us_environment s) | None \<Rightarrow> ([], []))"

section \<open>Dispatch\<close>

record mcp_result =
  mr_content :: json
  mr_structured :: json
  mr_is_error :: bool
  mr_meta :: "dict option"

datatype call_end = Returns mcp_result | Raises string | TimesOut

datatype dispatched = Unavailable string | NotConnected string | Called connection string dict call_end

text \<open>The call goes to the connection of that name; how it ends is the server's.\<close>

definition dispatch ::
  "upstreams \<Rightarrow> (connection \<Rightarrow> string \<Rightarrow> dict \<Rightarrow> call_end) \<Rightarrow> string \<Rightarrow> string \<Rightarrow> dict \<Rightarrow> dispatched" where
  "dispatch st server n tool args =
     (case map_of (ur_conns st) n of
        None \<Rightarrow> Unavailable n
      | Some c \<Rightarrow> if \<not> is_up st n then Unavailable n
                  else if \<not> cn_open c then NotConnected n else Called c tool args (server c tool args))"

section \<open>The front sessions\<close>

definition register_front :: "'s \<Rightarrow> 's list \<Rightarrow> 's list" where
  "register_front s fronts = (if s \<in> set fronts then fronts else fronts @ [s])"

text \<open>Telling the fronts drops those that cannot be told.\<close>

definition broadcast_fronts :: "('s \<Rightarrow> bool) \<Rightarrow> 's list \<Rightarrow> 's list" where
  "broadcast_fronts alive fronts = filter alive fronts"

section \<open>Runs of the registry\<close>

inductive registry_reach :: "library \<Rightarrow> upstreams \<Rightarrow> bool" for lb where
  boot: "registry_reach lb st" if "load_config lb load say f = Inr g"
    "connect_all lb env a (fresh_upstreams (mg_upstreams g)) = Inr (st, [])"
| hot_add: "registry_reach lb st'" if "registry_reach lb st" "load_config lb load say f = Inr g" "s \<in> set (mg_upstreams g)"
    "connect_one lb env a s st = Inr (st', err)"
| message: "registry_reach lb (fst (handle_upstream_message n m st))" if "registry_reach lb st"

text \<open>What is up has an open connection of its own, to the place its entry of the registry names, and its tools are
  known.\<close>

definition sound_upstream :: "upstreams \<Rightarrow> string \<Rightarrow> bool" where
  "sound_upstream st n \<longleftrightarrow>
     (case (map_of (ur_specs st) n, map_of (ur_conns st) n, map_of (ur_cache st) n) of
        (Some s, Some c, Some _) \<Rightarrow> us_name s = n \<and> proper_spec s \<and> cn_open c \<and> cn_name c = n
          \<and> cn_system c = us_system s \<and> cn_environment c = us_environment s
      | _ \<Rightarrow> False)"

definition registry_inv :: "upstreams \<Rightarrow> bool" where
  "registry_inv st \<longleftrightarrow> (\<forall>n. is_up st n \<longrightarrow> sound_upstream st n)"

lemma is_up_dput: "map_of (ur_up st) = (map_of up)(m \<mapsto> b) \<Longrightarrow> is_up st n \<longleftrightarrow> (if n = m then b else map_of up n = Some True)"
  by (simp add: is_up_def)

lemma built_connection: "build_connection lb env s = Some c \<Longrightarrow>
    cn_name c = us_name s \<and> cn_system c = us_system s \<and> cn_environment c = us_environment s"
  by (auto simp: build_connection_def Let_def split: if_splits)

lemma register_inv:
  assumes "connect_and_register lb env s a st = Inr (st', err)" "registry_inv (st\<lparr>ur_up := dput (us_name s) False (ur_up st)\<rparr>)"
    "map_of (ur_specs st) (us_name s) = Some s" "proper_spec s"
  shows "registry_inv st' \<and> ur_specs st' = ur_specs st"
proof -
  obtain c where c: "build_connection lb env s = Some c"
    using assms(1) by (auto simp: connect_and_register_def Let_def split: option.splits)
  have o: "sound_upstream st n" if "map_of (ur_up st) n = Some True" "n \<noteq> us_name s" for n
    using assms(2) that by (auto simp: registry_inv_def is_up_def sound_upstream_def)
  have off: "registry_inv (st\<lparr>ur_conns := dput (us_name s) c' (ur_conns st), ur_up := dput (us_name s) False (ur_up st)\<rparr>)"
    (is "registry_inv ?off") for c'
  proof -
    have "sound_upstream ?off n" if "is_up ?off n" for n
      using o [of n] that by (cases "n = us_name s") (simp_all add: sound_upstream_def is_up_def)
    then show ?thesis by (simp add: registry_inv_def)
  qed
  show ?thesis
  proof (cases a)
    case (Connects tools)
    then have st': "st' = st\<lparr>ur_conns := dput (us_name s) (c\<lparr>cn_open := True\<rparr>) (ur_conns st),
        ur_cache := dput (us_name s) tools (ur_cache st), ur_up := dput (us_name s) True (ur_up st)\<rparr>"
      using assms(1) by (auto simp: connect_and_register_def c Let_def)
    have "sound_upstream st' n" if "is_up st' n" for n
    proof (cases "n = us_name s")
      case True
      then show ?thesis using assms(3,4) built_connection [OF c] by (simp add: st' sound_upstream_def)
    next
      case False
      then show ?thesis using o [of n] that by (simp add: st' sound_upstream_def is_up_def)
    qed
    then show ?thesis by (simp add: registry_inv_def st')
  qed (use assms(1) off in \<open>auto simp: connect_and_register_def c Let_def\<close>)
qed

lemma down_inv: "registry_inv st \<Longrightarrow> registry_inv (st\<lparr>ur_up := dput n False (ur_up st)\<rparr>)"
  by (auto simp: registry_inv_def is_up_def sound_upstream_def)

lemma connect_each_inv:
  "connect_each lb env a ss st = Inr (st', fatal) \<Longrightarrow> registry_inv st
     \<Longrightarrow> list_all (\<lambda>s. map_of (ur_specs st) (us_name s) = Some s \<and> proper_spec s) ss
     \<Longrightarrow> registry_inv st' \<and> ur_specs st' = ur_specs st"
proof (induction ss arbitrary: st fatal)
  case (Cons s ss)
  then obtain st1 err fatal1 where r: "connect_and_register lb env s (a (us_name s)) st = Inr (st1, err)"
    "connect_each lb env a ss st1 = Inr (st', fatal1)"
    by (auto simp: py_simps)
  have "registry_inv st1 \<and> ur_specs st1 = ur_specs st"
    by (rule register_inv [OF r(1) down_inv [OF Cons.prems(2)]]) (use Cons.prems(3) in auto)
  then show ?case using Cons.IH [OF r(2)] Cons.prems(3) by simp
qed simp

lemma dput_new: "k \<notin> set (map fst d) \<Longrightarrow> dput k v d = d @ [(k, v)]"
  by (induction k v d rule: dput.induct) auto

lemma fresh_specs:
  "distinct (map us_name specs) \<Longrightarrow> ur_specs (fresh_upstreams specs) = map (\<lambda>s. (us_name s, s)) specs"
proof -
  have "set (map us_name specs) \<inter> set (map fst acc) = {} \<Longrightarrow> distinct (map us_name specs) \<Longrightarrow>
      fold (\<lambda>s. dput (us_name s) s) specs acc = acc @ map (\<lambda>s. (us_name s, s)) specs" for acc
  proof (induction specs arbitrary: acc)
    case (Cons s ss)
    have "dput (us_name s) s acc = acc @ [(us_name s, s)]" by (rule dput_new) (use Cons.prems in auto)
    then show ?case using Cons by auto
  qed simp
  from this [of "[]"] show "distinct (map us_name specs) \<Longrightarrow> ?thesis" by (simp add: fresh_upstreams_def)
qed

lemma map_of_named: "distinct (map us_name specs) \<Longrightarrow> s \<in> set specs \<Longrightarrow> map_of (map (\<lambda>s. (us_name s, s)) specs) (us_name s) = Some s"
  by (rule map_of_is_SomeI) (auto simp: comp_def)

lemma recache_inv: "registry_inv st \<Longrightarrow> registry_inv (st\<lparr>ur_cache := dput n tools (ur_cache st)\<rparr>)"
proof -
  have "sound_upstream st k \<Longrightarrow> sound_upstream (st\<lparr>ur_cache := dput n tools (ur_cache st)\<rparr>) k" for k
    by (auto simp: sound_upstream_def split: option.splits)
  then show "registry_inv st \<Longrightarrow> ?thesis" by (simp add: registry_inv_def is_up_def)
qed

lemma handled_message:
  "fst (handle_upstream_message n m st) \<in> insert st (range (\<lambda>tools. st\<lparr>ur_cache := dput n tools (ur_cache st)\<rparr>))"
  by (auto simp: handle_upstream_message_def split: server_message.split sum.split)

lemma reach_inv: "registry_reach lb st \<Longrightarrow> registry_inv st"
proof (induction rule: registry_reach.induct)
  case (boot load say f g env a st)
  note l = loaded_specs [OF boot(1)]
  obtain st1 where c: "connect_each lb env a (mg_upstreams g) (fresh_upstreams (mg_upstreams g)) = Inr (st1, [])" "st = st1"
    using boot(2) l by (auto simp: connect_all_def py_simps fresh_specs comp_def)
  have "registry_inv (fresh_upstreams (mg_upstreams g))" by (simp add: registry_inv_def is_up_def fresh_upstreams_def)
  moreover have "list_all (\<lambda>s. map_of (ur_specs (fresh_upstreams (mg_upstreams g))) (us_name s) = Some s \<and> proper_spec s) (mg_upstreams g)"
    using l by (auto simp: fresh_specs list_all_iff intro!: map_of_named)
  ultimately show ?case using connect_each_inv [OF c(1)] c(2) by blast
next
  case (hot_add st load say f g s env a st' err)
  let ?st = "st\<lparr>ur_conns := filter (\<lambda>(n, _). n \<noteq> us_name s) (ur_conns st), ur_specs := dput (us_name s) s (ur_specs st)\<rparr>"
  have f: "map_of (filter (\<lambda>(n, _). n \<noteq> us_name s) xs) n = map_of xs n" if "n \<noteq> us_name s" for n and xs :: "(string \<times> connection) list"
    using that by (induction xs) auto
  have "sound_upstream (?st\<lparr>ur_up := dput (us_name s) False (ur_up ?st)\<rparr>) n"
    if "is_up (?st\<lparr>ur_up := dput (us_name s) False (ur_up ?st)\<rparr>) n" for n
  proof -
    have "n \<noteq> us_name s" "is_up st n" using that by (auto simp: is_up_def split: if_splits)
    then show ?thesis using hot_add.IH f [of n "ur_conns st"] by (simp add: registry_inv_def sound_upstream_def)
  qed
  then have "registry_inv (?st\<lparr>ur_up := dput (us_name s) False (ur_up ?st)\<rparr>)" by (simp add: registry_inv_def)
  moreover have "connect_and_register lb env s a ?st = Inr (st', err)" using hot_add(4) by (simp add: connect_one_def)
  moreover have "proper_spec s" using loaded_specs [OF hot_add(2)] hot_add(3) by (simp add: list_all_iff)
  ultimately show ?case using register_inv by fastforce
next
  case (message st n m)
  then show ?case using handled_message [of n m st] recache_inv by auto
qed

section \<open>What a listed name resolves to\<close>

lemma split_name_namespaced:
  "\<not> contains_text ''__'' n \<Longrightarrow> n = [] \<or> last n \<noteq> CHR ''_'' \<Longrightarrow> split_name (namespaced n t) = Some (n, t)"
proof (induction n rule: split_name.induct)
  case (1 a b cs)
  have "\<not> contains_text ''__'' (b # cs)" using 1(2) by (simp add: contains_text_def sublist_Cons_right)
  moreover have "\<not> (a = CHR ''_'' \<and> b = CHR ''_'')" using 1(2) by (auto simp: contains_text_def)
  ultimately show ?case using 1 by (auto simp: namespaced_def)
qed (auto simp: namespaced_def)

lemma split_name_ends:
  "\<not> contains_text ''__'' n \<Longrightarrow> n \<noteq> [] \<Longrightarrow> last n = CHR ''_'' \<Longrightarrow> split_name (namespaced n t) = Some (butlast n, CHR ''_'' # t)"
proof (induction n rule: split_name.induct)
  case (1 a b cs)
  have "\<not> contains_text ''__'' (b # cs)" using 1(2) by (simp add: contains_text_def sublist_Cons_right)
  moreover have "\<not> (a = CHR ''_'' \<and> b = CHR ''_'')" using 1(2) by (auto simp: contains_text_def)
  ultimately show ?case using 1 by (auto simp: namespaced_def)
qed (auto simp: namespaced_def)

lemma split_name_before: "split_name s = Some (n, t) \<Longrightarrow> s = namespaced n t"
  by (induction s arbitrary: n rule: split_name.induct) (auto simp: namespaced_def split: if_splits)

lemma listed_up: "(n, t) \<in> set (listed_tools st) \<Longrightarrow> is_up st n"
  by (auto simp: listed_tools_def)


definition sample_server :: "string \<Rightarrow> string \<Rightarrow> yaml" where
  "sample_server name environment = YMap [(YStr ''name'', YStr name), (YStr ''command'', YStr ''serve''),
     (YStr ''target'', YMap [(YStr ''system'', YStr ''filesystem''), (YStr ''environment'', YStr environment)])]"

definition sample_registry_text :: "string \<Rightarrow> yaml option" where
  "sample_registry_text t = Some (YMap [(YStr ''upstreams'',
     YSeq [sample_server ''fs'' ''dev'', sample_server ''fs_'' ''production''])])"

definition sample_tool :: mcp_tool where
  "sample_tool = \<lparr>mt_name = ''write'', mt_hints = None, mt_rest = JNull\<rparr>"

definition booted :: "upstreams option" where
  "booted =
     (case load_config sample_library sample_registry_text (\<lambda>_. []) (FText []) of
        Inl _ \<Rightarrow> None
      | Inr g \<Rightarrow> (case connect_all sample_library (\<lambda>_. None) (\<lambda>_. Connects [sample_tool]) (fresh_upstreams (mg_upstreams g)) of
          Inr (st, []) \<Rightarrow> Some st | _ \<Rightarrow> None))"

lemma booted_reach: "booted = Some st \<Longrightarrow> registry_reach sample_library st"
  by (auto simp: booted_def split: sum.splits list.splits intro: registry_reach.boot)


end
