(* ===== verification/McpGateway.thy ===== *)
theory McpGateway
  imports McpUpstreams HookEnforce "HOL-Library.Multiset"
begin

text \<open>
  One \<open>tools/call\<close> through the MCP gateway (\<open>reeflex-mcp/reeflex_mcp\<close>: \<open>core_client.py\<close>, \<open>canonical.py\<close>,
  \<open>holds_tracker.py\<close>, \<open>obligations.py\<close>, \<open>gateway.py\<close>): the question to the engine, the holds the gateway remembers, the
  verdict as an outcome, the obligations, and the call to the upstream. What the network, the clock and the server
  answer is a \<open>call_world\<close>. A text for the client is a constructor with the values it is written from. Calls are handled one
  after another; nothing a call remembers depends on which other calls run while it waits.
\<close>

section \<open>Asking the engine\<close>

record mcp_request =
  mq_url :: string
  mq_method :: string
  mq_body :: "dict option"
  mq_headers :: "(string \<times> string) list"
  mq_timeout :: pyfloat
  mq_insecure :: bool

definition mcp_headers :: "library \<Rightarrow> environ \<Rightarrow> bool \<Rightarrow> (string \<times> string) list" where
  "mcp_headers lb env with_body =
     [(''Accept'', ''application/json'')] @ (if with_body then [(''Content-Type'', ''application/json'')] else [])
     @ (let token = mcp_core_token lb env in if token \<noteq> [] then [(''Authorization'', ''Bearer '' @ token)] else [])"

definition mcp_request_for :: "library \<Rightarrow> environ \<Rightarrow> string \<Rightarrow> string \<Rightarrow> dict option \<Rightarrow> mcp_request" where
  "mcp_request_for lb env method path body =
     (let url = mcp_core_url env @ path
      in \<lparr>mq_url = url, mq_method = method, mq_body = body, mq_headers = mcp_headers lb env (body \<noteq> None),
          mq_timeout = mcp_core_timeout lb env,
          mq_insecure = prefix ''https://'' (lower lb url) \<and> \<not> mcp_verify_ssl lb env\<rparr>)"

text \<open>How a question ends: past the gateway's own patience, or with what the network gave. \<open>CoreConnectionError\<close> and
  \<open>CoreAPIError\<close> are the first two failures; the last is any other exception.\<close>

datatype core_end = CoreSilent | CoreAnswers core_reply

datatype core_failure = NotReached string | NotJson hook_exc | NoDecision int dict | TimedOut | Unexpected hook_exc

text \<open>A connection error of \<open>json.loads\<close> or of the decoding is one of the two the code names.\<close>

fun json_error :: "hook_exc \<Rightarrow> bool" where
  "json_error HValueError = True"
| "json_error HEncodeError = True"
| "json_error _ = False"

definition read_mcp_body :: "library \<Rightarrow> int \<Rightarrow> string \<Rightarrow> core_failure + int \<times> dict" where
  "read_mcp_body lb status raw =
     (if raw = [] then Inr (status, [])
      else case lb_loads lb raw of
        Inl e \<Rightarrow> Inl (if json_error e then NotJson e else Unexpected e)
      | Inr (JObj d) \<Rightarrow> Inr (status, d)
      | Inr j \<Rightarrow> Inr (status, [(''value'', j)]))"

definition mcp_ask ::
  "library \<Rightarrow> environ \<Rightarrow> (mcp_request \<Rightarrow> core_end) \<Rightarrow> string \<Rightarrow> string \<Rightarrow> dict option \<Rightarrow> core_failure + int \<times> dict" where
  "mcp_ask lb env net method path body =
     (let rq = mcp_request_for lb env method path body
      in case lb_url_error lb (mq_url rq) of
           Some e \<Rightarrow> Inl (Unexpected e)
         | None \<Rightarrow>
             (case net rq of
                CoreSilent \<Rightarrow> Inl TimedOut
              | CoreAnswers (NetError text) \<Rightarrow> Inl (NotReached text)
              | CoreAnswers (HttpError status reason None) \<Rightarrow> Inl (Unexpected (HOther ''read''))
              | CoreAnswers (HttpError status reason (Some raw)) \<Rightarrow> read_mcp_body lb status raw
              | CoreAnswers (Replied status raw) \<Rightarrow> read_mcp_body lb status raw))"

definition mcp_decide ::
  "library \<Rightarrow> environ \<Rightarrow> (mcp_request \<Rightarrow> core_end) \<Rightarrow> dict \<Rightarrow> core_failure + dict" where
  "mcp_decide lb env net envelope =
     bindE (mcp_ask lb env net ''POST'' ''/v1/decide'' (Some envelope)) (\<lambda>(status, parsed).
       if map_of parsed ''decision'' \<noteq> None then Inr parsed else Inl (NoDecision status parsed))"

text \<open>Only a \<open>CoreConnectionError\<close> is caught by the probe.\<close>

definition mcp_healthz :: "library \<Rightarrow> environ \<Rightarrow> (mcp_request \<Rightarrow> core_end) \<Rightarrow> hook_exc + bool" where
  "mcp_healthz lb env net =
     (case mcp_ask lb env net ''GET'' ''/healthz'' None of
        Inl (Unexpected e) \<Rightarrow> Inl e
      | Inl _ \<Rightarrow> Inr False
      | Inr (status, parsed) \<Rightarrow> Inr (status = 200 \<and> dget parsed ''status'' = JStr ''ok''))"

section \<open>The hash of an action\<close>

text \<open>The gateway's own copy of the engine's hash. \<open>order\<close> is the order in which the set of names is read.\<close>

definition mcp_hash_allowlist :: "string list" where
  "mcp_hash_allowlist = [''action'', ''axes'', ''magnitude'', ''target'']"

definition mcp_projection :: "string list \<Rightarrow> dict \<Rightarrow> dict" where
  "mcp_projection order envelope = List.map_filter (\<lambda>k. map_option (Pair k) (map_of envelope k)) order"

definition mcp_canonical_hash :: "(json \<Rightarrow> string) \<Rightarrow> string list \<Rightarrow> dict \<Rightarrow> string" where
  "mcp_canonical_hash digest order envelope = digest (sort_keys (JObj (mcp_projection order envelope)))"

section \<open>Pending holds\<close>

record pending_hold =
  ph_hold_id :: json
  ph_decision_id :: json
  ph_expires :: json
  ph_rule :: json
  ph_reason :: json

type_synonym pending_holds = "((string \<times> string) \<times> pending_hold) list"

text \<open>\<open>epoch\<close> reads a time stamp; one it cannot read never expires here. A stamp that is no text raises.\<close>

definition hold_expired :: "(string \<Rightarrow> rat option) \<Rightarrow> rat \<Rightarrow> json \<Rightarrow> hook_exc + bool" where
  "hold_expired epoch now expires =
     (if \<not> py_truth expires then Inr False
      else case expires of
        JStr s \<Rightarrow> (case epoch s of None \<Rightarrow> Inr False | Some t \<Rightarrow> Inr (t \<le> now))
      | _ \<Rightarrow> Inl HTypeError)"

definition tracker_clear :: "pending_holds \<Rightarrow> string \<times> string \<Rightarrow> pending_holds" where
  "tracker_clear p key = filter (\<lambda>(k, _). k \<noteq> key) p"

definition tracker_put :: "pending_holds \<Rightarrow> string \<times> string \<Rightarrow> pending_hold \<Rightarrow> pending_holds" where
  "tracker_put p key h = dput key h p"

definition tracker_get ::
  "(string \<Rightarrow> rat option) \<Rightarrow> rat \<Rightarrow> pending_holds \<Rightarrow> string \<times> string \<Rightarrow> pending_holds \<times> (hook_exc + pending_hold option)" where
  "tracker_get epoch now p key =
     (case map_of p key of
        None \<Rightarrow> (p, Inr None)
      | Some h \<Rightarrow> (case hold_expired epoch now (ph_expires h) of
            Inl e \<Rightarrow> (p, Inl e)
          | Inr True \<Rightarrow> (tracker_clear p key, Inr None)
          | Inr False \<Rightarrow> (p, Inr (Some h))))"

section \<open>Who is calling\<close>

text \<open>The front is the process's own standard input, or an HTTP request with its headers.\<close>

datatype front = StdioFront | HttpFront "string \<Rightarrow> string option"

definition bearer_of :: "library \<Rightarrow> (string \<Rightarrow> string option) \<Rightarrow> string option" where
  "bearer_of lb headers =
     (let h = env_or (headers ''authorization'') []
      in if prefix ''bearer '' (lower lb h) then Some (strip lb (drop 7 h)) else None)"

definition anonymous :: "string \<Rightarrow> string \<times> string \<times> string option" where
  "anonymous session = (session, ''agent:mcp-client/'' @ session, None)"

definition derive_session_and_agent ::
  "library \<Rightarrow> environ \<Rightarrow> mcp_config \<Rightarrow> string \<Rightarrow> front \<Rightarrow> string \<Rightarrow> string \<times> string \<times> string option" where
  "derive_session_and_agent lb env g stdio_session fr uuid =
     (case fr of
        StdioFront \<Rightarrow> anonymous stdio_session
      | HttpFront headers \<Rightarrow>
          (let mapped = or_text (session_id_for_token lb env g (bearer_of lb headers)) [];
               transport_session = strip lb (env_or (headers ''mcp-session-id'') [])
           in if mapped \<noteq> [] then (mapped, mapped, None)
              else if transport_session \<noteq> [] then anonymous (''mcp-http:'' @ transport_session)
              else anonymous (''mcp-http:unmapped:'' @ uuid)))"

definition trust_annotations_of :: "mcp_config \<Rightarrow> string \<Rightarrow> bool" where
  "trust_annotations_of g n = (case find (\<lambda>s. us_name s = n) (mg_upstreams g) of None \<Rightarrow> False | Some s \<Rightarrow> us_trust s)"

section \<open>The verdict as an outcome\<close>

datatype mcp_message =
    UnknownTool string | NotNormalized hook_exc | CoreFailed core_failure
  | Held "json list" | StillHeld pending_hold json | Denied json json json | UnknownDecision json json
  | UnsupportedObligation string json | UpstreamDown string | UpstreamSilent | UpstreamRaised string

record enforce_outcome =
  eo_forward :: bool
  eo_message :: "mcp_message option"
  eo_decision_id :: json
  eo_parent :: json
  eo_store :: "pending_hold option"
  eo_clear :: bool

definition block_with :: "mcp_message \<Rightarrow> json \<Rightarrow> bool \<Rightarrow> enforce_outcome" where
  "block_with m decision_id clear =
     \<lparr>eo_forward = False, eo_message = Some m, eo_decision_id = decision_id, eo_parent = JNull, eo_store = None,
      eo_clear = clear\<rparr>"

definition classify_enforce_verdict :: "core_failure + dict \<Rightarrow> pending_hold option \<Rightarrow> enforce_outcome" where
  "classify_enforce_verdict answer pending =
     (case answer of
        Inl note \<Rightarrow> block_with (CoreFailed note) (JStr []) False
      | Inr d \<Rightarrow>
          (let verdict = dget d ''decision''; decision_id = get_or d ''decision_id'' (JStr []);
               rule = dget_or d ''rule'' (JStr ''unknown''); reason = dget_or d ''reason'' (JStr []);
               held = (pending \<noteq> None)
           in if verdict = JStr ''allow''
              then \<lparr>eo_forward = True, eo_message = None, eo_decision_id = decision_id,
                    eo_parent = get_or d ''parent_decision_id'' JNull, eo_store = None, eo_clear = held\<rparr>
              else if verdict = JStr ''require_approval''
              then (let hold_id = get_or d ''hold_id'' (JStr []); expires = get_or d ''expires_ts'' (JStr [])
                    in (block_with (Held [reason, rule, hold_id, expires, decision_id]) decision_id False)
                         \<lparr>eo_store := (if py_truth hold_id
                            then Some \<lparr>ph_hold_id = hold_id, ph_decision_id = decision_id, ph_expires = expires,
                                   ph_rule = rule, ph_reason = reason\<rparr> else None)\<rparr>)
              else if verdict = JStr ''deny''
              then (case pending of
                      Some h \<Rightarrow>
                        if rule = JStr ''reeflex.core/hold_validation'' \<and> reason = JStr ''reeflex_hold_not_approved''
                        then block_with (StillHeld h decision_id) decision_id False
                        else block_with (Denied reason rule decision_id) decision_id True
                    | None \<Rightarrow> block_with (Denied reason rule decision_id) decision_id False)
              else block_with (UnknownDecision verdict decision_id) decision_id held))"

section \<open>Obligations\<close>

text \<open>The table of handlers by the exact text of the obligation, each with the exception it raises, if any.\<close>

type_synonym obligation_handlers = "(string \<times> hook_exc option) list"

definition register_obligation ::
  "string \<Rightarrow> hook_exc option \<Rightarrow> obligation_handlers \<Rightarrow> hook_exc + obligation_handlers" where
  "register_obligation name h hs = (if name = [] then Inl HValueError else Inr (dput name h hs))"

definition known_set :: obligation_handlers where
  "known_set = [(''audit:full'', None)]"

definition known_obligations :: "obligation_handlers \<Rightarrow> string list" where
  "known_obligations hs = map fst hs"

text \<open>The obligations of a decision as the loop sees them: no list is no obligation, and neither is anything in the list
  that is no text.\<close>

definition obligations_of :: "dict \<Rightarrow> string list" where
  "obligations_of d =
     (case dget d ''obligations'' of
        JArr xs \<Rightarrow> List.map_filter (\<lambda>x. case x of JStr s \<Rightarrow> if s = [] then None else Some s | _ \<Rightarrow> None) xs
      | _ \<Rightarrow> [])"

fun apply_obligations :: "obligation_handlers \<Rightarrow> json \<Rightarrow> string list \<Rightarrow> hook_exc + mcp_message option" where
  "apply_obligations hs decision_id [] = Inr None"
| "apply_obligations hs decision_id (ob # obs) =
     (case map_of hs ob of
        None \<Rightarrow> Inr (Some (UnsupportedObligation ob decision_id))
      | Some (Some e) \<Rightarrow> Inl e
      | Some None \<Rightarrow> apply_obligations hs decision_id obs)"

definition apply_enforce_obligations :: "obligation_handlers \<Rightarrow> core_failure + dict \<Rightarrow> hook_exc + mcp_message option" where
  "apply_enforce_obligations hs answer =
     (case answer of
        Inl _ \<Rightarrow> Inr None
      | Inr d \<Rightarrow> apply_obligations hs (get_or d ''decision_id'' (JStr [])) (obligations_of d))"

section \<open>One call\<close>

datatype front_answer = ErrorAnswer mcp_message "string option" | ToolAnswer mcp_result

text \<open>What a call did: a question with its answer, or a call to a server.\<close>

datatype call_event = Asked dict "core_failure + dict" | Sent connection string dict

record mcp_seat =
  ms_lb :: library
  ms_env :: environ
  ms_config :: mcp_config
  ms_mappings :: mapping_registry
  ms_stdio :: string
  ms_digest :: "json \<Rightarrow> string"

definition ms_mode :: "mcp_seat \<Rightarrow> string" where
  "ms_mode s = effective_mode (ms_lb s) (ms_env s) (ms_config s)"

record call_world =
  cw_front :: front
  cw_uuid :: string
  cw_stamps :: mcp_stamps
  cw_epoch :: "string \<Rightarrow> rat option"
  cw_now :: rat
  cw_core :: "mcp_request \<Rightarrow> core_end"
  cw_server :: "connection \<Rightarrow> string \<Rightarrow> dict \<Rightarrow> call_end"
  cw_handlers :: obligation_handlers

text \<open>The server's result as it is, with the ids added to its meta block.\<close>

definition put_true :: "string \<Rightarrow> json \<Rightarrow> dict \<Rightarrow> dict" where
  "put_true k v d = (if py_truth v then dput k v d else d)"

definition tag_result :: "mcp_result \<Rightarrow> string \<Rightarrow> json \<Rightarrow> json \<Rightarrow> mcp_result" where
  "tag_result r corr decision_id parent =
     r\<lparr>mr_meta := Some (put_true ''parent_decision_id'' parent (put_true ''decision_id'' decision_id
         (dput ''gateway_correlation_id'' (JStr corr) (case mr_meta r of None \<Rightarrow> [] | Some m \<Rightarrow> m))))\<rparr>"

definition dispatch_and_tag ::
  "upstreams \<Rightarrow> call_world \<Rightarrow> string \<Rightarrow> string \<Rightarrow> dict \<Rightarrow> string \<Rightarrow> json \<Rightarrow> json \<Rightarrow> call_event list \<times> front_answer" where
  "dispatch_and_tag st w n tool args corr decision_id parent =
     (case dispatch st (cw_server w) n tool args of
        Unavailable u \<Rightarrow> ([], ErrorAnswer (UpstreamDown u) (Some corr))
      | NotConnected u \<Rightarrow> ([], ErrorAnswer (UpstreamRaised u) (Some corr))
      | Called c t x e \<Rightarrow>
          ([Sent c t x],
           case e of
             Returns r \<Rightarrow> ToolAnswer (tag_result r corr decision_id parent)
           | TimesOut \<Rightarrow> ErrorAnswer UpstreamSilent (Some corr)
           | Raises text \<Rightarrow> ErrorAnswer (UpstreamRaised text) (Some corr)))"

definition call_parts :: "mcp_seat \<Rightarrow> upstreams \<Rightarrow> call_world \<Rightarrow> string \<Rightarrow> string \<Rightarrow> dict \<Rightarrow> mcp_call" where
  "call_parts s st w n tool args =
     (case (derive_session_and_agent (ms_lb s) (ms_env s) (ms_config s) (ms_stdio s) (cw_front w) (cw_uuid w), target_for st n) of
        ((sid, agent, behalf), (system, environment)) \<Rightarrow>
          \<lparr>mc_session = sid, mc_agent = agent, mc_behalf = behalf, mc_upstream = n, mc_system = system,
           mc_environment = environment, mc_tool = tool, mc_arguments = args,
           mc_hints = tool_annotations st n tool, mc_trusted = trust_annotations_of (ms_config s) n\<rparr>)"

definition call_envelope :: "mcp_seat \<Rightarrow> upstreams \<Rightarrow> call_world \<Rightarrow> string \<Rightarrow> string \<Rightarrow> dict \<Rightarrow> hook_exc + dict" where
  "call_envelope s st w n tool args =
     build_mcp_envelope (ms_lb s) (cw_stamps w) (Some (ms_mappings s)) (call_parts s st w n tool args)"

definition nonce_of :: "dict \<Rightarrow> string" where
  "nonce_of e = (case dget (as_obj (dget e ''meta'')) ''nonce'' of JStr n \<Rightarrow> n | _ \<Rightarrow> [])"

definition with_hold :: "pending_hold option \<Rightarrow> dict \<Rightarrow> dict" where
  "with_hold pending e =
     (case pending of
        None \<Rightarrow> e
      | Some h \<Rightarrow> dput ''approval'' (JObj [(''present'', JBool True), (''hold_id'', ph_hold_id h),
                    (''parent_decision_id'', ph_decision_id h)]) e)"

text \<open>Enforcing: the remembered hold of this session and action, the question, the outcome, the obligations, the call.\<close>

definition enforce_call ::
  "mcp_seat \<Rightarrow> upstreams \<Rightarrow> call_world \<Rightarrow> pending_holds \<Rightarrow> string \<Rightarrow> string \<Rightarrow> dict \<Rightarrow> dict
     \<Rightarrow> pending_holds \<times> call_event list \<times> (hook_exc + front_answer)" where
  "enforce_call s st w p n tool args e =
     (let key = (mc_session (call_parts s st w n tool args), mcp_canonical_hash (ms_digest s) mcp_hash_allowlist e)
      in case tracker_get (cw_epoch w) (cw_now w) p key of
           (p1, Inl x) \<Rightarrow> (p1, [], Inl x)
         | (p1, Inr pending) \<Rightarrow>
             (let sent = with_hold pending e;
                  answer = mcp_decide (ms_lb s) (ms_env s) (cw_core w) sent;
                  out = classify_enforce_verdict answer pending;
                  p2 = (case eo_store out of None \<Rightarrow> p1 | Some h \<Rightarrow> tracker_put p1 key h);
                  p3 = (if eo_clear out then tracker_clear p2 key else p2);
                  corr = Some (nonce_of e)
              in if \<not> eo_forward out
                 then (p3, [Asked sent answer], Inr (ErrorAnswer (the (eo_message out)) corr))
                 else case apply_enforce_obligations (cw_handlers w) answer of
                   Inl x \<Rightarrow> (p3, [Asked sent answer], Inl x)
                 | Inr (Some m) \<Rightarrow> (p3, [Asked sent answer], Inr (ErrorAnswer m corr))
                 | Inr None \<Rightarrow>
                     (case dispatch_and_tag st w n tool args (nonce_of e) (eo_decision_id out) (eo_parent out) of
                        (evs, a) \<Rightarrow> (p3, Asked sent answer # evs, Inr a))))"

text \<open>Observing: the engine is asked for the record, and the call goes through whatever it says.\<close>

definition observe_call ::
  "mcp_seat \<Rightarrow> upstreams \<Rightarrow> call_world \<Rightarrow> string \<Rightarrow> string \<Rightarrow> dict \<Rightarrow> dict \<Rightarrow> call_event list \<times> front_answer" where
  "observe_call s st w n tool args e =
     (let answer = mcp_decide (ms_lb s) (ms_env s) (cw_core w) e;
          d = (case answer of Inl _ \<Rightarrow> [] | Inr d \<Rightarrow> d)
      in case dispatch_and_tag st w n tool args (nonce_of e) (get_or d ''decision_id'' JNull)
            (get_or d ''parent_decision_id'' JNull) of
           (evs, a) \<Rightarrow> (Asked e answer # evs, a))"

definition handle_call_tool ::
  "mcp_seat \<Rightarrow> upstreams \<Rightarrow> call_world \<Rightarrow> pending_holds \<Rightarrow> string \<Rightarrow> dict
     \<Rightarrow> pending_holds \<times> call_event list \<times> (hook_exc + front_answer)" where
  "handle_call_tool s st w p name args =
     (case resolve_tool st name of
        None \<Rightarrow> (p, [], Inr (ErrorAnswer (UnknownTool name) None))
      | Some (n, tool) \<Rightarrow>
          (case call_envelope s st w n tool args of
             Inl x \<Rightarrow> (p, [], Inr (ErrorAnswer (NotNormalized x) None))
           | Inr e \<Rightarrow>
               if ms_mode s = ''observe''
               then (case observe_call s st w n tool args e of (evs, a) \<Rightarrow> (p, evs, Inr a))
               else enforce_call s st w p n tool args e))"

section \<open>The admin route\<close>

datatype admin_answer = Unauthorized | InvalidConfig config_exc | Reloaded "string list" "(string \<times> string) list"

text \<open>\<open>hmac.compare_digest\<close> refuses texts that are not ASCII.\<close>

definition admin_authorised :: "library \<Rightarrow> environ \<Rightarrow> (string \<Rightarrow> string option) \<Rightarrow> hook_exc + bool" where
  "admin_authorised lb env headers =
     (let expected = env_strip lb env ''REEFLEX_MCP_ADMIN_TOKEN''; provided = or_text (bearer_of lb headers) []
      in if expected = [] then Inr True
         else if is_ascii provided \<and> is_ascii expected then Inr (provided = expected) else Inl HTypeError)"

fun connect_new ::
  "library \<Rightarrow> environ \<Rightarrow> (string \<Rightarrow> attempt) \<Rightarrow> upstream_spec list \<Rightarrow> upstreams
     \<Rightarrow> hook_exc + upstreams \<times> string list \<times> (string \<times> string) list" where
  "connect_new lb env a [] st = Inr (st, [], [])"
| "connect_new lb env a (s # ss) st =
     bindE (connect_one lb env (a (us_name s)) s st) (\<lambda>(st', err).
       bindE (connect_new lb env a ss st') (\<lambda>(st'', added, failed).
         Inr (st'', (if err = None then us_name s # added else added),
              (case err of None \<Rightarrow> failed | Some e \<Rightarrow> (us_name s, e) # failed))))"

text \<open>A reload adds what is in the file and not up; an exception of the loading that is no \<open>ConfigError\<close> is the route's
  own. The fronts are told when something was added.\<close>

fun is_config_error :: "config_exc \<Rightarrow> bool" where
  "is_config_error (ConfigUnhashable _) = False"
| "is_config_error ConfigUnreadable = False"
| "is_config_error _ = True"

definition admin_reload ::
  "mcp_seat \<Rightarrow> (string \<Rightarrow> string option) \<Rightarrow> (config_exc + mcp_config) \<Rightarrow> (string \<Rightarrow> attempt) \<Rightarrow> upstreams
     \<Rightarrow> upstreams \<times> (config_exc + hook_exc + admin_answer)" where
  "admin_reload s headers loaded a st =
     (case admin_authorised (ms_lb s) (ms_env s) headers of
        Inl x \<Rightarrow> (st, Inr (Inl x))
      | Inr False \<Rightarrow> (st, Inr (Inr Unauthorized))
      | Inr True \<Rightarrow>
          (case loaded of
             Inl e \<Rightarrow> (st, if is_config_error e then Inr (Inr (InvalidConfig e)) else Inl e)
           | Inr g \<Rightarrow>
               (let fresh = filter (\<lambda>u. \<not> is_up st (us_name u)) (mg_upstreams g)
                in case connect_new (ms_lb s) (ms_env s) a fresh st of
                     Inl x \<Rightarrow> (st, Inr (Inl x))
                   | Inr (st', added, failed) \<Rightarrow> (st', Inr (Inr (Reloaded added failed))))))"

section \<open>The two hashes agree\<close>

lemma sort_key_same:
  assumes "mset xs = mset ys" "distinct (map f ys)"
  shows "sort_key f xs = sort_key f ys"
proof (rule sort_key_inj_key_eq)
  show "inj_on f (set xs)" using assms mset_eq_setD [OF assms(1)] by (simp add: distinct_map)
qed (simp_all add: assms(1))

lemma map_filter_mset: "mset xs = mset ys \<Longrightarrow> mset (List.map_filter f xs) = mset (List.map_filter f ys)"
  by (simp add: List.map_filter_def)

text \<open>The hash under which the gateway remembers a hold is the hash to which the engine binds it, in whatever order the
  gateway's set of field names is read.\<close>

theorem the_engines_hash:
  assumes "mset order = mset mcp_hash_allowlist"
  shows "mcp_canonical_hash digest order envelope = canonical_hash digest envelope"
proof -
  let ?s = "map (\<lambda>p. (fst p, sort_keys (snd p)))"
  have al: "mcp_hash_allowlist = hash_allowlist" "distinct hash_allowlist"
    by (simp_all add: mcp_hash_allowlist_def hash_allowlist_def)
  have m: "mset (?s (mcp_projection order envelope)) = mset (?s (projection envelope))"
    by (simp add: mcp_projection_def projection_def map_filter_mset [OF assms [unfolded al]])
  have "map fst (?s (projection envelope)) = map fst (projection envelope)" by (simp add: comp_def)
  moreover have "distinct (map fst (projection envelope))"
    unfolding projection_def using map_filter_keys_distinct [OF al(2), of id "map_of envelope"] by simp
  ultimately have "distinct (map fst (?s (projection envelope)))" by (simp only:)
  from sort_key_same [OF m this] show ?thesis by (simp add: mcp_canonical_hash_def canonical_hash_def)
qed

theorem the_engines_hash_witness:
  "mcp_canonical_hash null_digest [''target'', ''axes'', ''action'', ''magnitude''] [(''action'', JNull), (''agent'', JInt 1)]
   = canonical_hash null_digest [(''action'', JNull), (''agent'', JInt 1)]"
  by (rule the_engines_hash) (simp add: mcp_hash_allowlist_def)

section \<open>Runs of the gateway\<close>

inductive mcp_run :: "mcp_seat \<Rightarrow> pending_holds \<Rightarrow> call_event list \<Rightarrow> bool" for s where
  fresh: "mcp_run s [] []"
| call: "mcp_run s p' (past @ evs)" if "mcp_run s p past" "handle_call_tool s st w p name args = (p', evs, r)"

definition session_of :: "dict \<Rightarrow> json" where
  "session_of e = dget (as_obj (dget e ''agent'')) ''session_id''"

definition hash_in :: "mcp_seat \<Rightarrow> dict \<Rightarrow> string" where
  "hash_in s e = mcp_canonical_hash (ms_digest s) mcp_hash_allowlist e"

text \<open>The engine once held an action of this session and this hash under this hold.\<close>

definition was_held :: "mcp_seat \<Rightarrow> call_event list \<Rightarrow> json \<Rightarrow> string \<Rightarrow> json \<Rightarrow> bool" where
  "was_held s past session h hold \<longleftrightarrow> (\<exists>e d. Asked e (Inr d) \<in> set past \<and> dget d ''decision'' = JStr ''require_approval''
     \<and> dget d ''hold_id'' = hold \<and> session_of e = session \<and> hash_in s e = h)"

lemma was_held_more: "was_held s past session h hold \<Longrightarrow> was_held s (past @ evs) session h hold"
  by (auto simp: was_held_def)

lemma map_filter_same: "(\<And>x. x \<in> set xs \<Longrightarrow> f x = g x) \<Longrightarrow> List.map_filter f xs = List.map_filter g xs"
  by (induction xs) (auto simp: List.map_filter_simps split: option.split)

lemma with_hold_same: "session_of (with_hold pending e) = session_of e \<and> hash_in s (with_hold pending e) = hash_in s e"
proof (cases pending)
  case (Some h)
  then have "map_of (with_hold pending e) k = map_of e k" if "k \<noteq> ''approval''" for k
    using that by (simp add: with_hold_def)
  note k = this
  have "mcp_projection mcp_hash_allowlist (with_hold pending e) = mcp_projection mcp_hash_allowlist e"
    unfolding mcp_projection_def by (rule map_filter_same) (auto simp: mcp_hash_allowlist_def k)
  then show ?thesis by (simp add: session_of_def dget_def hash_in_def mcp_canonical_hash_def k)
qed (simp add: with_hold_def)

lemma call_envelope_session:
  assumes "call_envelope s st w n tool args = Inr e"
  shows "session_of e = JStr (mc_session (call_parts s st w n tool args))"
proof -
  obtain cls count source where c: "classify_call (ms_lb s) (Some (ms_mappings s)) (mc_system (call_parts s st w n tool args))
      (mc_tool (call_parts s st w n tool args)) (mc_arguments (call_parts s st w n tool args))
      (mc_hints (call_parts s st w n tool args)) (mc_trusted (call_parts s st w n tool args)) = (cls, count, source)"
    using prod_cases3 by blast
  show ?thesis
    by (rule mcp_envelope_fields [OF assms [unfolded call_envelope_def] c]) (simp add: session_of_def)
qed

lemma tracker_get_some:
  assumes "tracker_get epoch now p key = (p1, x)"
  shows "set p1 \<subseteq> set p \<and> (case x of Inr (Some h) \<Rightarrow> (key, h) \<in> set p | _ \<Rightarrow> True)"
  using assms by (auto simp: tracker_get_def tracker_clear_def dest: map_of_SomeD split: option.splits sum.splits bool.splits)

lemma verdict_stores:
  assumes "eo_store (classify_enforce_verdict answer pending) = Some h"
  obtains d where "answer = Inr d" "dget d ''decision'' = JStr ''require_approval''" "dget d ''hold_id'' = ph_hold_id h"
  using assms
  by (auto simp: classify_enforce_verdict_def block_with_def get_or_def Let_def split: sum.splits if_splits option.splits)

lemma verdict_forwards: "eo_forward (classify_enforce_verdict answer pending) \<Longrightarrow>
    \<exists>d. answer = Inr d \<and> dget d ''decision'' = JStr ''allow''"
  by (auto simp: classify_enforce_verdict_def block_with_def Let_def split: sum.splits if_splits option.splits)

lemma obligations_known:
  "apply_obligations hs decision_id obs = Inr None \<Longrightarrow> set obs \<subseteq> set (known_obligations hs)"
  by (induction hs decision_id obs rule: apply_obligations.induct)
    (auto simp: known_obligations_def split: option.splits dest: map_of_SomeD intro: rev_image_eqI)

lemma set_dput: "set (dput k v d) \<subseteq> insert (k, v) (set d)"
  by (induction k v d rule: dput.induct) auto

text \<open>What one enforced call does: what it asks, what it remembers, and what a call to a server rests on.\<close>

lemma enforce_call_facts:
  assumes "enforce_call s st w p n tool args e = (p', evs, r)"
    "key = (mc_session (call_parts s st w n tool args), hash_in s e)"
  obtains pending answer where "pending = None \<or> (\<exists>h. pending = Some h \<and> (key, h) \<in> set p)"
    "set evs \<subseteq> insert (Asked (with_hold pending e) answer) {Sent c t x |c t x. True}"
    "set p' \<subseteq> set p \<union> {(key, h) |h. eo_store (classify_enforce_verdict answer pending) = Some h \<and> Asked (with_hold pending e) answer \<in> set evs}"
    "\<And>c t x. Sent c t x \<in> set evs \<Longrightarrow> x = args \<and> t = tool \<and> map_of (ur_conns st) n = Some c
       \<and> Asked (with_hold pending e) answer \<in> set evs \<and> eo_forward (classify_enforce_verdict answer pending)
       \<and> apply_enforce_obligations (cw_handlers w) answer = Inr None"
proof -
  have k: "(mc_session (call_parts s st w n tool args), mcp_canonical_hash (ms_digest s) mcp_hash_allowlist e) = key"
    by (simp add: assms(2) hash_in_def)
  obtain p1 x where g: "tracker_get (cw_epoch w) (cw_now w) p key = (p1, x)" by force
  note gs = tracker_get_some [OF g]
  show thesis
  proof (cases x)
    case (Inl err)
    then have "p' = p1" "evs = []" using assms(1) by (simp_all add: enforce_call_def k g Let_def)
    then show thesis using gs by (intro that [of None "Inl TimedOut"]) auto
  next
    case (Inr pending)
    let ?sent = "with_hold pending e"
    let ?answer = "mcp_decide (ms_lb s) (ms_env s) (cw_core w) ?sent"
    let ?out = "classify_enforce_verdict ?answer pending"
    define p2 where "p2 = (case eo_store ?out of None \<Rightarrow> p1 | Some h \<Rightarrow> tracker_put p1 key h)"
    define p3 where "p3 = (if eo_clear ?out then tracker_clear p2 key else p2)"
    have "set p3 \<subseteq> set p2" by (auto simp: p3_def tracker_clear_def)
    moreover have "set p2 \<subseteq> set p1 \<union> {(key, h) |h. eo_store ?out = Some h}"
      using set_dput by (fastforce simp: p2_def tracker_put_def split: option.splits)
    ultimately have p3: "set p3 \<subseteq> set p \<union> {(key, h) |h. eo_store ?out = Some h}" using gs by blast
    have dt: "dispatch_and_tag st w n tool args corr di pa = (evs', a) \<Longrightarrow>
        set evs' \<subseteq> {Sent c tool args |c. map_of (ur_conns st) n = Some c}" for corr di pa evs' a
      by (auto simp: dispatch_and_tag_def dispatch_def split: option.splits if_splits)
    show thesis
    proof (rule that [of pending ?answer])
      show "pending = None \<or> (\<exists>h. pending = Some h \<and> (key, h) \<in> set p)"
        using gs by (cases pending) (auto simp: Inr)
      have c: "(p', evs, r) = (if \<not> eo_forward ?out
           then (p3, [Asked ?sent ?answer], Inr (ErrorAnswer (the (eo_message ?out)) (Some (nonce_of e))))
           else case apply_enforce_obligations (cw_handlers w) ?answer of
             Inl x \<Rightarrow> (p3, [Asked ?sent ?answer], Inl x)
           | Inr (Some m) \<Rightarrow> (p3, [Asked ?sent ?answer], Inr (ErrorAnswer m (Some (nonce_of e))))
           | Inr None \<Rightarrow> (case dispatch_and_tag st w n tool args (nonce_of e) (eo_decision_id ?out) (eo_parent ?out) of
                  (evs, a) \<Rightarrow> (p3, Asked ?sent ?answer # evs, Inr a)))"
        using assms(1) by (simp only: enforce_call_def k Let_def g Inr prod.case sum.case p2_def p3_def)
      then have a: "Asked ?sent ?answer \<in> set evs" "p' = p3"
        by (auto split: if_splits sum.splits option.splits prod.splits)
      show "set evs \<subseteq> insert (Asked ?sent ?answer) {Sent c t x |c t x. True}"
        using c dt by (fastforce split: if_splits sum.splits option.splits prod.splits)
      show "set p' \<subseteq> set p \<union> {(key, h) |h. eo_store ?out = Some h \<and> Asked ?sent ?answer \<in> set evs}"
        using p3 a by auto
      show "x = args \<and> t = tool \<and> map_of (ur_conns st) n = Some c \<and> Asked ?sent ?answer \<in> set evs \<and> eo_forward ?out
          \<and> apply_enforce_obligations (cw_handlers w) ?answer = Inr None" if "Sent c t x \<in> set evs" for c t x
        using c dt that a by (fastforce split: if_splits sum.splits option.splits prod.splits)
    qed
  qed
qed

lemma run_remembers:
  "mcp_run s p past \<Longrightarrow> ((sid, h), hold) \<in> set p \<Longrightarrow> was_held s past (JStr sid) h (ph_hold_id hold)"
proof (induction arbitrary: sid h hold rule: mcp_run.induct)
  case (call p past st w name args p' evs r)
  have old: "((sid, h), hold) \<in> set p \<Longrightarrow> ?case" using call.IH was_held_more by blast
  show ?case
  proof (cases "resolve_tool st name")
    case None
    then show ?thesis using call old by (simp add: handle_call_tool_def)
  next
    case (Some nt)
    obtain n tool where nt: "nt = (n, tool)" by force
    show ?thesis
    proof (cases "call_envelope s st w n tool args")
      case (Inl x)
      then show ?thesis using call old by (simp add: handle_call_tool_def Some nt)
    next
      case (Inr e)
      show ?thesis
      proof (cases "ms_mode s = ''observe''")
        case True
        then show ?thesis using call old by (simp add: handle_call_tool_def Some nt Inr split: prod.splits)
      next
        case False
        then have c: "enforce_call s st w p n tool args e = (p', evs, r)"
          using call.hyps(2) by (simp add: handle_call_tool_def Some nt Inr)
        show ?thesis
        proof (rule enforce_call_facts [OF c refl])
          fix pending answer
          let ?key = "(mc_session (call_parts s st w n tool args), hash_in s e)"
          assume a: "set p' \<subseteq> set p \<union> {(?key, h) |h. eo_store (classify_enforce_verdict answer pending) = Some h
              \<and> Asked (with_hold pending e) answer \<in> set evs}"
          show ?thesis
          proof (cases "((sid, h), hold) \<in> set p")
            case False
            then have k: "?key = (sid, h)" "eo_store (classify_enforce_verdict answer pending) = Some hold"
              "Asked (with_hold pending e) answer \<in> set evs" using a call.prems by blast+
            obtain d where d: "answer = Inr d" "dget d ''decision'' = JStr ''require_approval''" "dget d ''hold_id'' = ph_hold_id hold"
              using verdict_stores [OF k(2)] by blast
            have "was_held s evs (JStr sid) h (ph_hold_id hold)"
              using k d call_envelope_session [OF Inr] with_hold_same [of pending e s] by (auto simp: was_held_def)
            then show ?thesis by (auto simp: was_held_def)
          qed (rule old)
        qed
      qed
    qed
  qed
qed simp

definition cleared_call :: "mcp_seat \<Rightarrow> call_world \<Rightarrow> call_event list \<Rightarrow> call_event list \<Rightarrow> dict \<Rightarrow> bool" where
  "cleared_call s w past evs e \<longleftrightarrow> (\<exists>sent d. Asked sent (Inr d) \<in> set evs \<and> dget d ''decision'' = JStr ''allow''
     \<and> set (obligations_of d) \<subseteq> set (known_obligations (cw_handlers w))
     \<and> (sent = e \<or> (\<exists>h. sent = with_hold (Some h) e \<and> was_held s past (session_of e) (hash_in s e) (ph_hold_id h))))"


definition sample_mcp_seat :: mcp_seat where
  "sample_mcp_seat = \<lparr>ms_lb = sample_library, ms_env = (\<lambda>k. if k = ''REEFLEX_MODE'' then Some ''enforce'' else None),
     ms_config = \<lparr>mg_mode = None, mg_upstreams = [], mg_clients = [], mg_mappings = None\<rparr>, ms_mappings = [],
     ms_stdio = ''mcp-gateway:1'', ms_digest = (\<lambda>_. ''h'')\<rparr>"

definition sample_call_world :: call_world where
  "sample_call_world = \<lparr>cw_front = StdioFront, cw_uuid = ''u'', cw_stamps = sample_mcp_stamps, cw_epoch = (\<lambda>_. None),
     cw_now = 0, cw_core = (\<lambda>_. CoreAnswers (Replied 200 ''allow'')),
     cw_server = (\<lambda>_ _ _. Returns \<lparr>mr_content = JArr [], mr_structured = JNull, mr_is_error = False, mr_meta = None\<rparr>),
     cw_handlers = known_set\<rparr>"


end
