(* ===== verification/McpSetup.thy ===== *)
theory McpSetup
  imports McpConfig HookSettings
begin

text \<open>
  The set-up of the MCP gateway in the configuration of a client (\<open>reeflex-mcp/reeflex_mcp\<close>: \<open>client_configs.py\<close>,
  \<open>lifecycle.py\<close>): the servers of a client are moved into \<open>reeflex-mcp.yaml\<close>, the client's file is backed up and
  rewritten to the gateway's entry, restored, and checked for drift. Where the files are, printing and reading them, and
  how each write ends are arguments.
\<close>

section \<open>A client's configuration\<close>

datatype client_exc = ClientNotJson | ClientNotAnObject | ClientUnreadable

definition load_client_config :: "library \<Rightarrow> text_file \<Rightarrow> client_exc + dict" where
  "load_client_config lb f =
     (case f of
        FAbsent \<Rightarrow> Inr []
      | FUnreadable \<Rightarrow> Inl ClientUnreadable
      | FText t \<Rightarrow>
          if strip lb t = [] then Inr []
          else case lb_loads lb t of
            Inl HValueError \<Rightarrow> Inl ClientNotJson
          | Inl _ \<Rightarrow> Inl ClientUnreadable
          | Inr (JObj d) \<Rightarrow> Inr d
          | Inr _ \<Rightarrow> Inl ClientNotAnObject)"

definition get_mcp_servers :: "dict \<Rightarrow> dict" where
  "get_mcp_servers data = as_obj (dget data ''mcpServers'')"

definition ownership_name :: string where
  "ownership_name = ''reeflex-mcp''"

definition ownership_markers :: "string list" where
  "ownership_markers = [''reeflex_mcp'', ''reeflex-mcp'']"

definition mentions_us :: "json \<Rightarrow> bool" where
  "mentions_us j = (case j of JStr s \<Rightarrow> list_ex (\<lambda>m. contains_text m s) ownership_markers | _ \<Rightarrow> False)"

definition is_our_server :: "string \<Rightarrow> json \<Rightarrow> bool" where
  "is_our_server name entry \<longleftrightarrow> name = ownership_name \<or>
     (case entry of
        JObj e \<Rightarrow> mentions_us (dget e ''command'')
          \<or> (case dget e ''args'' of JArr xs \<Rightarrow> list_ex mentions_us xs | _ \<Rightarrow> False)
      | _ \<Rightarrow> False)"

definition foreign_servers :: "dict \<Rightarrow> dict" where
  "foreign_servers servers = filter (\<lambda>(n, e). \<not> is_our_server n e) servers"

definition gateway_present :: "dict \<Rightarrow> bool" where
  "gateway_present servers = list_ex (\<lambda>(n, e). is_our_server n e) servers"

definition if_given :: "string option \<Rightarrow> (string \<Rightarrow> 'a list) \<Rightarrow> 'a list" where
  "if_given x f = (case x of Some (c # s) \<Rightarrow> f (c # s) | _ \<Rightarrow> [])"

text \<open>\<open>exe\<close> is what \<open>shutil.which\<close> found.\<close>

definition gateway_entry ::
  "string option \<Rightarrow> string \<Rightarrow> string option \<Rightarrow> string \<Rightarrow> string option \<Rightarrow> string option \<Rightarrow> json" where
  "gateway_entry exe python config transport core_url mode =
     (let launch = (case exe of
            Some (c # e) \<Rightarrow> (c # e, [''--transport'', transport])
          | _ \<Rightarrow> (python, [''-m'', ''reeflex_mcp'', ''--transport'', transport]));
          args = snd launch @ if_given config (\<lambda>p. [''--config'', p]);
          env = if_given core_url (\<lambda>u. [(''REEFLEX_CORE_URL'', JStr u)]) @ if_given mode (\<lambda>m. [(''REEFLEX_MODE'', JStr m)])
      in JObj ([(''command'', JStr (fst launch)), (''args'', JArr (map JStr args))]
           @ (if env = [] then [] else [(''env'', JObj env)])))"

section \<open>One server\<close>

text \<open>\<open>name.replace("__", "_")\<close>.\<close>

fun squeeze :: "string \<Rightarrow> string" where
  "squeeze (a # b # cs) =
     (if a = CHR ''_'' \<and> b = CHR ''_'' then CHR ''_'' # squeeze cs else a # squeeze (b # cs))"
| "squeeze cs = cs"

datatype import_note = Renamed string string | EnvCopied string | HeadersLeft string | SkippedNoObject string
  | SkippedUnusable string

definition sanitize_upstream_name :: "string \<Rightarrow> string \<times> import_note list" where
  "sanitize_upstream_name name =
     (if contains_text ''__'' name then (squeeze name, [Renamed name (squeeze name)]) else (name, []))"

fun yaml_of :: "json \<Rightarrow> yaml" where
  "yaml_of JNull = YNull"
| "yaml_of (JBool b) = YBool b"
| "yaml_of (JInt n) = YInt n"
| "yaml_of (JFloat f) = YFloat f"
| "yaml_of (JStr s) = YStr s"
| "yaml_of (JArr xs) = YSeq (map yaml_of xs)"
| "yaml_of (JObj d) = YMap (map (\<lambda>(k, v). (YStr k, yaml_of v)) d)"

text \<open>\<open>isinstance(x, str) and x.strip()\<close>.\<close>

definition usable :: "library \<Rightarrow> json \<Rightarrow> string option" where
  "usable lb j = (case j of JStr s \<Rightarrow> if strip lb s = [] then None else Some s | _ \<Rightarrow> None)"

definition client_args :: "dict \<Rightarrow> json list" where
  "client_args ce = (case dget ce ''args'' of JArr xs \<Rightarrow> xs | _ \<Rightarrow> [])"

definition client_env :: "library \<Rightarrow> dict \<Rightarrow> (string \<times> string) list" where
  "client_env lb ce = fold (\<lambda>(k, v). dput k (py_str (lb_ucd lb) v)) (as_obj (dget ce ''env'')) []"

definition base_entry :: "string \<Rightarrow> string \<Rightarrow> bool \<Rightarrow> ymap" where
  "base_entry n environment required =
     [(YStr ''name'', YStr n),
      (YStr ''target'', YMap [(YStr ''system'', YStr n), (YStr ''environment'', YStr environment)]),
      (YStr ''required'', YBool required)]"

text \<open>\<open>None\<close> is the \<open>LifecycleError\<close> of an entry with neither a command nor a URL.\<close>

definition derive_upstream_entry ::
  "library \<Rightarrow> string \<Rightarrow> dict \<Rightarrow> string \<Rightarrow> bool \<Rightarrow> (ymap \<times> import_note list) option" where
  "derive_upstream_entry lb name ce environment required =
     (let (n, notes) = sanitize_upstream_name name; entry = base_entry n environment required
      in case usable lb (dget ce ''command'') of
           Some c \<Rightarrow>
             (let argv = YSeq (YStr c # map yaml_of (client_args ce));
                  env = client_env lb ce
              in Some (entry @ [(YStr ''command'', argv)]
                         @ (if env = [] then [] else [(YStr ''env'', YMap (map (\<lambda>(k, v). (YStr k, YStr v)) env))]),
                       notes @ (if env = [] then [] else [EnvCopied n])))
         | None \<Rightarrow>
             (case usable lb (dget ce ''url'') of
                Some u \<Rightarrow> Some (entry @ [(YStr ''url'', YStr u)],
                  notes @ (if as_obj (dget ce ''headers'') = [] then [] else [HeadersLeft n]))
              | None \<Rightarrow> None))"

section \<open>Import\<close>

text \<open>How a write ends: the text is there, or an \<open>OSError\<close> left the file like this.\<close>

datatype save_end = Saved | SaveFailed text_file

definition saved :: "save_end \<Rightarrow> text_file \<Rightarrow> text_file \<times> bool" where
  "saved e f = (case e of Saved \<Rightarrow> (f, True) | SaveFailed left \<Rightarrow> (left, False))"

record setup_disk =
  sd_client :: text_file
  sd_backup :: text_file
  sd_registry :: text_file

record setup_io =
  si_registry :: save_end
  si_backup :: save_end
  si_client :: save_end

record setup_seat =
  st_lb :: library
  st_load :: "string \<Rightarrow> yaml option"
  st_dump :: "ymap \<Rightarrow> string"
  st_dumps :: "dict \<Rightarrow> string"
  st_entry :: json

record import_request =
  iq_only :: "string option"
  iq_environment_for :: "(string \<times> string) list"
  iq_default :: string
  iq_interactive :: bool
  iq_tty :: "string \<Rightarrow> terminal"

datatype import_exc = ClientError client_exc | NotForeign string | RegistryError config_exc | SaveError

record import_result =
  ir_backup :: bool
  ir_imported :: "string list"
  ir_notes :: "import_note list"
  ir_already :: bool

text \<open>The copy is made only where none is; the answer is whether there is one now.\<close>

definition make_backup :: "save_end \<Rightarrow> setup_disk \<Rightarrow> setup_disk \<times> (import_exc + bool)" where
  "make_backup io d =
     (if sd_client d = FAbsent then (d, Inr False)
      else if sd_backup d \<noteq> FAbsent then (d, Inr True)
      else (let (f, ok) = saved io (sd_client d) in (d\<lparr>sd_backup := f\<rparr>, if ok then Inr True else Inl SaveError)))"

definition restore_backup :: "save_end \<Rightarrow> setup_disk \<Rightarrow> setup_disk \<times> (import_exc + bool)" where
  "restore_backup io d =
     (if sd_backup d = FAbsent then (d, Inr False)
      else (let (f, ok) = saved io (sd_backup d) in (d\<lparr>sd_client := f\<rparr>, if ok then Inr True else Inl SaveError)))"

definition environment_of_import :: "library \<Rightarrow> import_request \<Rightarrow> string \<Rightarrow> string" where
  "environment_of_import lb q name =
     (case map_of (iq_environment_for q) name of
        Some e \<Rightarrow> e
      | None \<Rightarrow> prompt_or_default lb (iq_tty q name) (if iq_interactive q then None else Some (iq_default q))
          (iq_default q) valid_environments)"

text \<open>The loop over the servers to import: the raw registry, the names imported and the warnings.\<close>

fun import_servers ::
  "library \<Rightarrow> import_request \<Rightarrow> dict \<Rightarrow> ymap \<Rightarrow> config_exc + ymap \<times> string list \<times> import_note list" where
  "import_servers lb q [] raw = Inr (raw, [], [])"
| "import_servers lb q ((name, client) # ts) raw =
     (case client of
        JObj ce \<Rightarrow>
          (case derive_upstream_entry lb name ce (environment_of_import lb q name) True of
             None \<Rightarrow> bindE (import_servers lb q ts raw) (\<lambda>(raw', ns, ws). Inr (raw', ns, SkippedUnusable name # ws))
           | Some (entry, notes) \<Rightarrow>
               (let n = fst (sanitize_upstream_name name)
                in bindE (upsert_upstream_raw raw n entry) (\<lambda>(raw1, _).
                   bindE (import_servers lb q ts raw1) (\<lambda>(raw', ns, ws). Inr (raw', n # ns, notes @ ws)))))
      | _ \<Rightarrow> bindE (import_servers lb q ts raw) (\<lambda>(raw', ns, ws). Inr (raw', ns, SkippedNoObject name # ws)))"

text \<open>The client's servers afterwards.\<close>

definition rewritten_servers :: "json \<Rightarrow> string option \<Rightarrow> dict \<Rightarrow> dict" where
  "rewritten_servers entry only servers =
     (case only of
        Some n \<Rightarrow> dput ownership_name entry (filter (\<lambda>(k, v). k \<noteq> n) servers)
      | None \<Rightarrow> [(ownership_name, entry)])"

definition import_targets :: "string option \<Rightarrow> dict \<Rightarrow> import_exc + dict" where
  "import_targets only servers =
     (case only of
        None \<Rightarrow> Inr (foreign_servers servers)
      | Some n \<Rightarrow> (case map_of (foreign_servers servers) n of None \<Rightarrow> Inl (NotForeign n) | Some e \<Rightarrow> Inr [(n, e)]))"

text \<open>The client's file is written last, the backup before it, the registry first.\<close>

definition rewrite_client ::
  "setup_seat \<Rightarrow> setup_io \<Rightarrow> import_request \<Rightarrow> dict \<Rightarrow> string list \<Rightarrow> import_note list \<Rightarrow> setup_disk
     \<Rightarrow> setup_disk \<times> (import_exc + import_result)" where
  "rewrite_client s io q data imported ws d =
     (case make_backup (si_backup io) d of
        (d1, Inl e) \<Rightarrow> (d1, Inl e)
      | (d1, Inr made) \<Rightarrow>
          (let new = dput ''mcpServers'' (JObj (rewritten_servers (st_entry s) (iq_only q) (get_mcp_servers data))) data;
               (f, ok) = saved (si_client io) (FText (st_dumps s new @ [CHR 0x0A]))
           in (d1\<lparr>sd_client := f\<rparr>,
               if ok then Inr \<lparr>ir_backup = made, ir_imported = imported, ir_notes = ws, ir_already = False\<rparr>
               else Inl SaveError)))"

definition import_into ::
  "setup_seat \<Rightarrow> setup_io \<Rightarrow> import_request \<Rightarrow> dict \<Rightarrow> dict \<Rightarrow> setup_disk
     \<Rightarrow> setup_disk \<times> (import_exc + import_result)" where
  "import_into s io q data targets d =
     (case bindE (load_raw_yaml (st_load s) (sd_registry d)) (import_servers (st_lb s) q targets) of
        Inl e \<Rightarrow> (d, Inl (RegistryError e))
      | Inr (raw, imported, notes) \<Rightarrow>
          (let (f, ok) = saved (si_registry io) (FText (st_dump s raw)); d1 = d\<lparr>sd_registry := f\<rparr>
           in if ok then rewrite_client s io q data imported notes d1 else (d1, Inl SaveError)))"

definition import_profile ::
  "setup_seat \<Rightarrow> setup_io \<Rightarrow> import_request \<Rightarrow> setup_disk \<Rightarrow> setup_disk \<times> (import_exc + import_result)" where
  "import_profile s io q d =
     (case load_client_config (st_lb s) (sd_client d) of
        Inl e \<Rightarrow> (d, Inl (ClientError e))
      | Inr data \<Rightarrow>
          (let servers = get_mcp_servers data
           in case import_targets (iq_only q) servers of
                Inl e \<Rightarrow> (d, Inl e)
              | Inr targets \<Rightarrow>
                  if targets = []
                  then (d, Inr \<lparr>ir_backup = False, ir_imported = [], ir_notes = [],
                             ir_already = (gateway_present servers \<and> foreign_servers servers = [])\<rparr>)
                  else import_into s io q data targets d))"

section \<open>Drift\<close>

record client_profile =
  cf_key :: string
  cf_label :: string
  cf_path :: string

definition resolve_profile :: "client_profile list \<Rightarrow> string \<Rightarrow> client_profile option" where
  "resolve_profile profiles key = find (\<lambda>p. cf_key p = key) profiles"

datatype drift_kind = ForeignServer string | GatewayMissing | InvalidConfig client_exc

type_synonym drift_finding = "client_profile \<times> drift_kind"

text \<open>A file that cannot be read or decoded raises out of the check.\<close>

definition drift_of :: "library \<Rightarrow> client_profile \<Rightarrow> text_file \<Rightarrow> client_exc + drift_finding list" where
  "drift_of lb p f =
     (if f = FAbsent then Inr []
      else case load_client_config lb f of
        Inl ClientUnreadable \<Rightarrow> Inl ClientUnreadable
      | Inl e \<Rightarrow> Inr [(p, InvalidConfig e)]
      | Inr data \<Rightarrow>
          (let servers = get_mcp_servers data; foreign = foreign_servers servers
           in Inr (map (\<lambda>(n, e). (p, ForeignServer n)) foreign
                @ (if foreign \<noteq> [] \<and> \<not> gateway_present servers then [(p, GatewayMissing)] else []))))"

fun check_drift :: "library \<Rightarrow> (string \<Rightarrow> text_file) \<Rightarrow> client_profile list \<Rightarrow> client_exc + drift_finding list" where
  "check_drift lb files [] = Inr []"
| "check_drift lb files (p # ps) =
     bindE (drift_of lb p (files (cf_path p))) (\<lambda>here. bindE (check_drift lb files ps) (\<lambda>rest. Inr (here @ rest)))"

section \<open>The client's own configuration survives\<close>

text \<open>What a run leaves: the client's file as it was, or the copy of it that was there or has just been made.\<close>

definition kept_safe :: "setup_disk \<Rightarrow> setup_disk \<Rightarrow> bool" where
  "kept_safe d d' \<longleftrightarrow> (sd_client d' = sd_client d \<or> sd_backup d' \<noteq> FAbsent)
     \<and> (if sd_backup d = FAbsent then sd_backup d' \<in> {FAbsent, sd_client d} else sd_backup d' = sd_backup d)"

lemma kept_same [simp]: "sd_client d' = sd_client d \<Longrightarrow> sd_backup d' = sd_backup d \<Longrightarrow> kept_safe d d'"
  by (simp add: kept_safe_def)

lemma kept_registry: "kept_safe (d\<lparr>sd_registry := f\<rparr>) d' = kept_safe d d'"
  by (simp add: kept_safe_def)

lemma make_backup_keeps:
  assumes "make_backup io d = (d', r)"
  shows "sd_client d' = sd_client d" "sd_backup d \<noteq> FAbsent \<Longrightarrow> sd_backup d' = sd_backup d"
    and "io = Saved \<Longrightarrow> sd_client d \<noteq> FAbsent \<Longrightarrow> sd_backup d = FAbsent \<Longrightarrow> sd_backup d' = sd_client d"
    and "sd_client d = FAbsent \<Longrightarrow> d' = d"
  using assms by (auto simp: make_backup_def saved_def Let_def split: if_splits save_end.splits)

lemma rewrite_client_keeps:
  assumes "si_backup io = Saved" "sd_client d \<noteq> FAbsent"
  shows "kept_safe d (fst (rewrite_client s io q data imported ws d))"
proof -
  obtain d1 r where m: "make_backup (si_backup io) d = (d1, r)" by (metis surj_pair)
  note k = make_backup_keeps [OF m]
  have b: "sd_backup d1 = (if sd_backup d = FAbsent then sd_client d else sd_backup d)"
    using k(2,3) assms by simp
  show ?thesis
    using k(1) b assms(2)
    by (auto simp: rewrite_client_def m kept_safe_def Let_def split: sum.split prod.split)
qed

lemma import_into_keeps:
  assumes "si_backup io = Saved" "sd_client d \<noteq> FAbsent"
  shows "kept_safe d (fst (import_into s io q data targets d))"
proof -
  have "kept_safe d (fst (rewrite_client s io q data imported ws (d\<lparr>sd_registry := f\<rparr>)))" for imported ws f
    using rewrite_client_keeps [OF assms(1), of "d\<lparr>sd_registry := f\<rparr>"] assms(2) by (simp add: kept_registry)
  then show ?thesis by (auto simp: import_into_def Let_def split: sum.split prod.split)
qed

lemma no_servers [simp]: "get_mcp_servers [] = []"
  by (simp add: get_mcp_servers_def)

lemma no_targets: "import_targets only [] = Inr targets \<Longrightarrow> targets = []"
  by (auto simp: import_targets_def foreign_servers_def split: option.splits)

lemma import_profile_keeps:
  assumes "si_backup io = Saved"
  shows "kept_safe d (fst (import_profile s io q d))"
proof (cases "sd_client d = FAbsent")
  case True
  then show ?thesis
    using no_targets by (auto simp: import_profile_def load_client_config_def Let_def split: sum.split)
next
  case False
  then show ?thesis
    using import_into_keeps [OF assms False]
    by (auto simp: import_profile_def Let_def split: sum.split)
qed

text \<open>The life of one client's file from a state without a backup: imports that may fail anywhere but in the middle of
  the copy, restorations that may fail, and, once there is a copy, edits by others.\<close>

inductive client_history :: "text_file \<Rightarrow> setup_disk \<Rightarrow> bool" for f0 where
  start: "sd_client d = f0 \<Longrightarrow> sd_backup d = FAbsent \<Longrightarrow> client_history f0 d"
| imported: "client_history f0 d \<Longrightarrow> si_backup io = Saved \<Longrightarrow> client_history f0 (fst (import_profile s io q d))"
| restored: "client_history f0 d \<Longrightarrow> client_history f0 (fst (restore_backup e d))"
| edited: "client_history f0 d \<Longrightarrow> sd_backup d \<noteq> FAbsent \<Longrightarrow> client_history f0 (d\<lparr>sd_client := f\<rparr>)"

lemma history_backup:
  "client_history f0 d \<Longrightarrow> if sd_backup d = FAbsent then sd_client d = f0 else sd_backup d = f0"
proof (induction rule: client_history.induct)
  case (imported d io s q)
  then show ?case using import_profile_keeps [of io d s q] by (auto simp: kept_safe_def split: if_splits)
next
  case (restored d e)
  then show ?case by (auto simp: restore_backup_def saved_def Let_def split: save_end.split if_splits)
qed auto

text \<open>C22: Through any history of imports, restorations and edits, whatever fails but the copy itself: the client's
  file is still the one from before the gateway, or restoring brings exactly that file back.\<close>

theorem restore_brings_back_the_client:
  assumes "client_history f0 d"
  shows "sd_client (if sd_backup d = FAbsent then d else fst (restore_backup Saved d)) = f0"
  using history_backup [OF assms] by (auto simp: restore_backup_def saved_def Let_def split: if_splits)

text \<open>A copy that was torn is taken for a copy ever after: no later run renews it.\<close>

lemma a_backup_is_never_renewed:
  assumes "sd_backup d \<noteq> FAbsent"
  shows "sd_backup (fst (import_profile s io q d)) = sd_backup d"
proof -
  have m: "sd_backup (fst (make_backup e d')) = sd_backup d" if "sd_backup d' = sd_backup d" for e d'
    using that assms by (auto simp: make_backup_def)
  have r: "sd_backup (fst (rewrite_client s io q data imported ws d')) = sd_backup d"
    if "sd_backup d' = sd_backup d" for data imported ws d'
    using m [OF that, of "si_backup io"]
    by (cases "make_backup (si_backup io) d'") (auto simp: rewrite_client_def Let_def split: sum.split prod.split)
  have "sd_backup (fst (import_into s io q data targets d)) = sd_backup d" for data targets
    using r by (auto simp: import_into_def Let_def split: sum.split prod.split)
  then show ?thesis by (auto simp: import_profile_def Let_def split: sum.split)
qed

definition sample_client :: dict where
  "sample_client = [(''mcpServers'', JObj [(''files'', JObj [(''command'', JStr ''npx''), (''args'', JArr [JStr ''-y''])])])]"

definition sample_setup_seat :: setup_seat where
  "sample_setup_seat = \<lparr>st_lb = sample_library\<lparr>lb_loads := (\<lambda>_. Inr (JObj sample_client))\<rparr>, st_load = (\<lambda>_. None),
     st_dump = (\<lambda>_. ''yaml''), st_dumps = (\<lambda>_. ''new''),
     st_entry = gateway_entry (Some ''/bin/reeflex-mcp'') ''python3'' None ''stdio'' None None\<rparr>"

definition sample_import :: import_request where
  "sample_import = \<lparr>iq_only = None, iq_environment_for = [], iq_default = ''production'', iq_interactive = False,
     iq_tty = (\<lambda>_. NoTty)\<rparr>"

definition sample_disk :: setup_disk where
  "sample_disk = \<lparr>sd_client = FText ''{..}'', sd_backup = FAbsent, sd_registry = FAbsent\<rparr>"

definition sample_moved :: setup_disk where
  "sample_moved = fst (import_profile sample_setup_seat \<lparr>si_registry = Saved, si_backup = Saved, si_client = Saved\<rparr>
     sample_import sample_disk)"

lemma sample_moved: "sample_moved = \<lparr>sd_client = FText (''new'' @ [CHR 0x0A]), sd_backup = FText ''{..}'', sd_registry = FText ''yaml''\<rparr>"
proof -
  let ?lb = "sample_library\<lparr>lb_loads := (\<lambda>_. Inr (JObj sample_client))\<rparr>"
  let ?f = "[(''files'', JObj [(''command'', JStr ''npx''), (''args'', JArr [JStr ''-y''])])]"
  have l: "load_client_config ?lb (FText ''{..}'') = Inr sample_client"
    by (simp add: load_client_config_def sample_library_def py_strip_def strip_ascii_def is_ascii_def is_space_char_def)
  have g: "get_mcp_servers sample_client = ?f" by (simp add: get_mcp_servers_def sample_client_def)
  have t: "import_targets None ?f = Inr ?f"
    by (simp add: import_targets_def foreign_servers_def is_our_server_def ownership_name_def mentions_us_def
        ownership_markers_def contains_text_def sublist_Cons_right)
  have u: "usable ?lb (JStr ''npx'') = Some ''npx''"
    by (simp add: usable_def sample_library_def py_strip_def strip_ascii_def is_ascii_def is_space_char_def)
  have "\<exists>r. import_servers ?lb sample_import ?f fresh_raw = Inr r"
    by (simp add: derive_upstream_entry_def u sanitize_upstream_name_def contains_text_def sublist_Cons_right
        upsert_upstream_raw_def fresh_raw_def set_default_def yget_def Let_def bindE.simps)
  then obtain r where r: "import_servers ?lb sample_import ?f fresh_raw = Inr r" by blast
  then show ?thesis
    by (cases r) (simp add: sample_moved_def import_profile_def sample_setup_seat_def sample_disk_def l g t sample_import_def
        import_into_def load_raw_yaml_def bindE.simps saved_def rewrite_client_def make_backup_def Let_def)
qed

theorem restore_brings_back_the_client_witness:
  "sd_client sample_moved = FText (''new'' @ [CHR 0x0A]) \<and> sd_client (fst (restore_backup Saved sample_moved)) = FText ''{..}''"
proof -
  have "client_history (FText ''{..}'') sample_disk" by (rule start) (simp_all add: sample_disk_def)
  then have h: "client_history (FText ''{..}'') sample_moved" unfolding sample_moved_def by (rule imported) simp
  then show ?thesis using restore_brings_back_the_client [OF h] by (simp add: sample_moved)
qed

section \<open>What is written loads\<close>

definition texts_of :: "json list \<Rightarrow> string list" where
  "texts_of xs = map (\<lambda>j. case j of JStr s \<Rightarrow> s | _ \<Rightarrow> []) xs"

text \<open>The upstream that the gateway will make of a server of the client.\<close>

definition imported_spec :: "library \<Rightarrow> string \<Rightarrow> string \<Rightarrow> dict \<Rightarrow> upstream_spec" where
  "imported_spec lb n environment ce =
     (let base = \<lparr>us_name = strip lb n, us_kind = [], us_system = strip lb n, us_environment = environment,
            us_required = True, us_trust = False, us_command = None, us_args = [], us_env = [], us_url = None, us_auth = None\<rparr>
      in case usable lb (dget ce ''command'') of
           Some c \<Rightarrow> base\<lparr>us_kind := ''stdio'', us_command := Some c, us_args := texts_of (client_args ce),
                       us_env := client_env lb ce\<rparr>
         | None \<Rightarrow> base\<lparr>us_kind := ''http'', us_url := map_option (strip lb) (usable lb (dget ce ''url''))\<rparr>)"

lemma usable_filled: "usable lb j = Some s \<Longrightarrow> filled lb (YStr s) = Some s"
  by (auto simp: usable_def filled_def split: json.splits if_splits)

lemma all_texts_strings: "list_all is_str xs \<Longrightarrow> all_texts (map yaml_of xs) = Some (texts_of xs)"
proof (induction xs)
  case (Cons x xs)
  then show ?case by (cases x) (simp_all add: texts_of_def)
qed (simp add: texts_of_def)

lemma fold_dput_again:
  "distinct (map fst acc) \<Longrightarrow> distinct (map fst d) \<Longrightarrow> set (map fst acc) \<inter> set (map fst d) = {} \<Longrightarrow>
     fold (\<lambda>(k, v). dput (yaml_str say (YStr k)) (yaml_str say (YStr v))) d acc = acc @ d"
proof (induction d arbitrary: acc)
  case (Cons p d)
  obtain k v where p: "p = (k, v)" by fastforce
  have "dput k v acc = acc @ [(k, v)]" if "k \<notin> set (map fst acc)" for acc :: "(string \<times> string) list"
    using that by (induction acc) auto
  then have "dput k v acc = acc @ [(k, v)]" using Cons.prems(3) by (auto simp: p)
  then show ?case using Cons.prems Cons.IH [of "acc @ [(k, v)]"] by (auto simp: p yaml_str_def)
qed simp

lemma str_entries_texts:
  "distinct (map fst d) \<Longrightarrow> str_entries say (map (\<lambda>(k, v). (YStr k, YStr v)) d) = d"
proof -
  assume d: "distinct (map fst d)"
  have "fold (\<lambda>(k, v). dput (yaml_str say k) (yaml_str say v)) (map (\<lambda>(k, v). (YStr k, YStr v)) d) [] =
      fold (\<lambda>(k, v). dput (yaml_str say (YStr k)) (yaml_str say (YStr v))) d []"
    by (simp add: fold_map comp_def split_def)
  then show ?thesis using fold_dput_again [of "[]" d say] d by (simp add: str_entries_def)
qed

lemma client_env_distinct: "distinct (map fst (client_env lb ce))"
proof -
  have "distinct (map fst acc) \<Longrightarrow> distinct (map fst (fold (\<lambda>(k, v). dput k (py_str u v)) d acc))"
    for u and d :: dict and acc :: "(string \<times> string) list"
    by (induction d arbitrary: acc) (auto simp: distinct_keys_dput)
  then show ?thesis by (simp add: client_env_def)
qed

lemma entry_lookups:
  "yget (base_entry n environment r @ rest) ''name'' = YStr n"
  "yget (base_entry n environment r @ rest) ''target'' = YMap [(YStr ''system'', YStr n), (YStr ''environment'', YStr environment)]"
  "flag_of (base_entry n environment r @ rest) ''required'' dflt = Some r"
  "yget (base_entry n environment r @ rest) ''command'' = yget rest ''command''"
  "yget (base_entry n environment r @ rest) ''url'' = yget rest ''url''"
  "yget (base_entry n environment r @ rest) ''env'' = yget rest ''env''"
  "yget (base_entry n environment r @ rest) ''auth'' = yget rest ''auth''"
  "flag_of (base_entry n environment r @ rest) ''trust_annotations'' dflt = flag_of rest ''trust_annotations'' dflt"
  by (simp_all add: base_entry_def yget_def flag_of_def)

lemma base_target:
  assumes "strip lb n \<noteq> []" "environment \<in> set valid_environments"
  shows "parse_target lb x (YMap [(YStr ''system'', YStr n), (YStr ''environment'', YStr environment)])
    = Inr (strip lb n, environment)"
  using assms by (simp add: parse_target_def yget_def filled_def Let_def)

lemma parse_base_entry:
  assumes "strip lb n \<noteq> []" "\<not> contains_text ''__'' (strip lb n)" "environment \<in> set valid_environments"
    and "has_command rest \<noteq> has_url rest" "map_of rest (YStr ''trust_annotations'') = None"
  shows "parse_upstream lb say i (YMap (base_entry n environment True @ rest)) =
    (let base = \<lparr>us_name = strip lb n, us_kind = [], us_system = strip lb n, us_environment = environment,
            us_required = True, us_trust = False, us_command = None, us_args = [], us_env = [], us_url = None, us_auth = None\<rparr>
     in if has_command rest then parse_stdio say (base_entry n environment True @ rest) base
        else parse_http lb (base_entry n environment True @ rest) base)"
proof -
  have h: "has_command (base_entry n environment True @ rest) = has_command rest"
    "has_url (base_entry n environment True @ rest) = has_url rest"
    by (simp_all add: has_command_def has_url_def entry_lookups)
  have t: "flag_of rest ''trust_annotations'' False = Some False" by (simp add: flag_of_def assms(5))
  have n: "filled lb (YStr n) = Some n" using assms(1) by (simp add: filled_def)
  show ?thesis
    using assms(2,4) by (simp add: parse_upstream_def entry_lookups h t n base_target [OF assms(1,3)] bindE.simps Let_def)
qed



text \<open>A name with three underscores keeps two, and the registry with it no longer loads.\<close>

lemma three_underscores_stay:
  "sanitize_upstream_name ''a___b'' = (''a__b'', [Renamed ''a___b'' ''a__b''])"
  by (simp add: sanitize_upstream_name_def contains_text_def sublist_Cons_right)

lemma reserved_name_refused:
  "filled lb (YStr n) = Some n \<Longrightarrow> contains_text ''__'' (strip lb n) \<Longrightarrow>
     parse_upstream lb say i (YMap (base_entry n environment r @ rest)) = Inl (NameReserved i (strip lb n))"
  by (simp add: parse_upstream_def entry_lookups Let_def)

section \<open>What is left in the client\<close>

text \<open>Once the rewritten text reads back, the set-up of all servers leaves nothing for the drift check to report.\<close>

lemma gateway_entry_is_ours: "is_our_server ownership_name entry"
  by (simp add: is_our_server_def)

lemma rewritten_is_clean:
  "foreign_servers (rewritten_servers entry None servers) = []
     \<and> foreign_servers (rewritten_servers entry (Some n) servers) = filter (\<lambda>(k, v). k \<noteq> n) (foreign_servers servers)"
proof -
  have "foreign_servers (dput ownership_name entry d) = foreign_servers d" for d
    by (induction d) (auto simp: foreign_servers_def gateway_entry_is_ours split: if_split_asm)
  then show ?thesis
    by (simp add: rewritten_servers_def foreign_servers_def gateway_entry_is_ours conj_commute case_prod_beta)
qed

lemma setup_leaves_no_drift:
  assumes "load_client_config lb (FText t) = Inr (dput ''mcpServers'' (JObj (rewritten_servers entry None servers)) data)"
  shows "drift_of lb p (FText t) = Inr []"
  using rewritten_is_clean [of entry servers]
  by (simp add: drift_of_def assms get_mcp_servers_def Let_def)

text \<open>A server whose command or argument mentions the gateway anywhere is taken for the gateway: it is not reported,
  and the set-up of all servers drops it without importing it.\<close>

lemma mention_hides_a_server:
  assumes "dget e ''args'' = JArr xs" "JStr (u @ ''reeflex-mcp'' @ v) \<in> set xs"
  shows "is_our_server n (JObj e)"
proof -
  have "mentions_us (JStr (u @ ''reeflex-mcp'' @ v))"
    unfolding mentions_us_def ownership_markers_def contains_text_def
    using sublist_appendI [of "''reeflex-mcp''" u v] by simp
  then show ?thesis using assms by (auto simp: is_our_server_def list_ex_iff)
qed

text \<open>A server that cannot be imported leaves the client's file all the same.\<close>

lemma skipped_server_is_removed:
  "n \<notin> fst ` set (filter (\<lambda>(k, v). k \<noteq> ownership_name) (rewritten_servers entry (Some n) servers))"
proof -
  have "set (map fst (dput ownership_name entry d)) = insert ownership_name (set (map fst d))" for d :: dict
    unfolding keys_dput by auto
  then have "fst ` set (rewritten_servers entry (Some n) servers)
      = insert ownership_name (fst ` set (filter (\<lambda>(k, v). k \<noteq> n) servers))"
    by (simp add: rewritten_servers_def)
  then show ?thesis by force
qed

end
