(* ===== verification/Spec2Isabelle.thy ===== *)
theory Spec2Isabelle
  imports Envelope Principal AppendLog Holds Ledger Guard FieldTreatments Opa Decide GateCredential Server ServerPool AuditLog Emitters
    HookClock Credentials HookEnvelope HookEnforce HookRun HookThreads ClassifyLaws HookSettings HookPosture
    GatewayCalls GatewayTenants GatewayCore GatewayEvidence GatewayEnforce GatewayRouting GatewayReply
    GatewayStream GatewayConnector McpGateway McpSetup
begin

text \<open>
  A verification library for Reeflex: its decision engine, the Python package \<open>src/reeflex-core/app\<close>, its
  adapter for Claude Code, the package \<open>src/reeflex-claude/reeflex_claude\<close>, its gateway for LiteLLM, the package
  \<open>src/reeflex-litellm/reeflex_litellm\<close>, and its gateway for MCP, the package \<open>src/reeflex-mcp/reeflex_mcp\<close>.

  An agent's adapter sends every action it is about to take to \<open>POST /v1/decide\<close> as an action envelope. The
  engine normalises the envelope, asks a policy engine for a verdict given what the session has already
  done, and answers allow, deny or require_approval; in the last case it opens a hold, which a human resolves
  over \<open>POST /v1/holds/{id}/resolve\<close> and the agent then resubmits. Holds and the session's spending are
  append-only files shared by any number of engine processes.

  Theories and what they model:

  \<^item> \<open>Prelude\<close>, \<open>PyText\<close>: Python values (JSON, dictionaries as association lists, floats, exceptions as sums,
    state passing) and texts. Texts are their UTF-8 bytes; operations that need the Unicode database are
    written out on ASCII text and are fields of a record \<open>ucd\<close> elsewhere.
  \<^item> \<open>Envelope\<close> (\<open>envelope.py\<close>): validation and canonicalisation, verb election, currency, target
    references, the nonce store. Accepted envelopes are canonical; guessed verbs err on the guarded side; a
    nonce is accepted once.
  \<^item> \<open>Principal\<close> (\<open>principal.py\<close>): who approves. Identities and self-approval, credentials bound to principals,
    strict mode, what \<open>/healthz\<close> reports of it.
  \<^item> \<open>AppendLog\<close> (\<open>appendlog.py\<close>): append-and-verify and tail-following on a file of bytes, with torn lines.
    \<open>Holds\<close> and \<open>Ledger\<close> build on the line-level reading that this theory justifies.
  \<^item> \<open>LogView\<close>: the locale \<open>log_view\<close>, a view folded incrementally from a growing file. It is interpreted by the
    hold index (\<open>hold_index\<close>) and by the ledger's windows (\<open>ledger_view\<close>).
  \<^item> \<open>Holds\<close> (\<open>holds.py\<close>): the hold store. Every operation under its file lock, the index of each process, expiry,
    resolution, consumption, listing. Runs of many processes are the relation \<open>hold_reach\<close>. The locale
    \<open>file_order\<close> carries facts about what a run does to the file through all operations.
  \<^item> \<open>Ledger\<close> (\<open>ledger.py\<close>): the per-session spending file, its windows, pruning, cumulative sums.
  \<^item> \<open>Guard\<close> (\<open>ledger.session_guard\<close>): the lock around reading, deciding and recording, as a step relation over
    processes and threads.
  \<^item> \<open>FieldTreatments\<close> (\<open>field_treatments.py\<close>): the table of decision inputs and how an approval binds them.
  \<^item> \<open>Opa\<close> (\<open>opa.py\<close>): the call to the policy engine and the reading of what it prints.
  \<^item> \<open>Decide\<close> (\<open>decide.py\<close>): the decision handler \<open>process\<close>, composed of all of the above.
  \<^item> \<open>GateCredential\<close> (\<open>gate_credential.py\<close>): credentials checked against an outside portal, with a cache.
  \<^item> \<open>Server\<close>, \<open>ServerPool\<close> (\<open>server.py\<close>): the HTTP routes, authorisation, resolution of holds, and the worker
    pool as a step relation.
  \<^item> \<open>AuditLog\<close> (\<open>audit.py\<close>): the records of the audit log and their append; every decision is audited once.
  \<^item> \<open>Emitters\<close> (\<open>webhook.py\<close>, \<open>telemetry.py\<close>): the two fire-and-forget emitters as a queue and a worker, interpretations
    of the locale \<open>delivery_queue\<close>; CEF and syslog texts.

  The adapter (\<open>reeflex_claude\<close>) runs as a hook before every tool call of Claude Code. It classifies the call,
  asks the engine and prints allow, ask or deny before the runner's own timeout, after which the tool would run.

  \<^item> \<open>HookBase\<close>: the part of the standard library it uses, characters of texts, the record \<open>classification\<close>.
  \<^item> \<open>HookClock\<close> (\<open>deadline.py\<close>): the deadline and the budget for the engine call; every wait ends in time.
  \<^item> \<open>Credentials\<close> (\<open>credentials.py\<close>): the stored credentials; what is stored is found and nothing else changes.
  \<^item> \<open>HookEnvelope\<close> (\<open>envelope.py\<close>): the envelope of a call; the engine model of \<open>Envelope\<close> accepts it.
  \<^item> \<open>HookEnforce\<close> (\<open>enforce.py\<close>): the request to the engine and the reading of its answer.
  \<^item> \<open>HookRun\<close> (\<open>hook.py\<close>, \<open>audit.py\<close>): one run, its answer and its audit record. Only the engine allows.
  \<^item> \<open>HookThreads\<close> (\<open>hook.py\<close>): the pipeline and the watchdog as a step relation; one answer is printed.
  \<^item> \<open>HookSettings\<close> (\<open>setup_settings.py\<close>, \<open>cli.py\<close>): the merge of the hook into the settings of Claude Code and the
    comparison of the two timeouts.
  \<^item> \<open>HookPosture\<close> (\<open>posture.py\<close>): which tools reach the hook, and the one record of a session for which not all do.
  \<^item> \<open>PyRegex\<close>: regular expressions of the module \<open>re\<close> as far as the classifier uses them, with a matcher proved
    against their meaning.
  \<^item> \<open>ShellText\<close>, \<open>ShellWalk\<close> (\<open>classify.py\<close>): cutting a line at operators, peeling groups, substitutions, \<open>sh -c\<close>,
    wrappers, and the walk to all commands of a line under a budget.
  \<^item> \<open>ShellFlags\<close>, \<open>ShellPaths\<close> (\<open>classify.py\<close>): options as each command reads them; what files a command overwrites
    and how far a deletion reaches.
  \<^item> \<open>ClassifyCommand\<close>, \<open>ClassifyLine\<close>, \<open>ClassifyTool\<close> (\<open>classify.py\<close>): the price of one command, of a line, of a
    tool call.
  \<^item> \<open>ShellLaws\<close>, \<open>WalkLaws\<close>, \<open>ClassifyLaws\<close>: what all this guarantees: the cut and the peel against their plain
    readings, the walk against the list \<open>commands_within\<close> of all commands, and the price of a line against the
    prices of its commands.

  The gateway (\<open>reeflex_litellm\<close>) stands between a model and its client. It reads the tool calls of a model's
  answer, has the engine rule on each, and lets only the calls through that were cleared.

  \<^item> \<open>GatewayCalls\<close> (\<open>normalize.py\<close>): from a tool call of a model to a classification and an envelope. A call whose
    tool is not mapped asks, and no argument is invented.
  \<^item> \<open>GatewayTenants\<close> (\<open>tenancy.py\<close>): which organisation a request belongs to, and the scope its session, agent
    and evidence take from that.
  \<^item> \<open>GatewayCore\<close> (\<open>core.py\<close>): the request to the engine, the reading of its answer, the wait for a human as a
    loop over readings of the clock. It reads an answer as the hook does.
  \<^item> \<open>GatewayEvidence\<close> (\<open>evidence.py\<close>): the record of a ruling that leaves the process, freed of what may not leave.
  \<^item> \<open>GatewayEnforce\<close> (\<open>vintage.py\<close>, \<open>envelope.py\<close>, \<open>enforce.py\<close>): one ruling from the envelope to the wait
    and the resubmission, its ledger record, and the separation of organisations.
  \<^item> \<open>GatewayRouting\<close> (\<open>routing.py\<close>): the facts about a request's route that are recorded beside a decision.
  \<^item> \<open>GatewayReply\<close> (\<open>response.py\<close>, \<open>guardrail.py\<close>): the rewriting of a complete answer.
  \<^item> \<open>GatewayStream\<close> (\<open>streaming.py\<close>, \<open>guardrail.py\<close>): the assembling, holding back and rewriting of a streamed answer.
  \<^item> \<open>GatewayConnector\<close> (\<open>connector.py\<close>): the same for requests posted by an outside proxy, all fail-closed answers included.

  The MCP gateway (\<open>reeflex_mcp\<close>) is one server in front of many: it offers the tools of all upstream servers and has
  the engine rule on every call before it reaches one.

  \<^item> \<open>McpCalls\<close> (\<open>mappings.py\<close>, \<open>normalize.py\<close>): the operator's mapping files, the tiers of classification, the reading of a
    tool's name, the envelope; the engine model of \<open>Envelope\<close> accepts it.
  \<^item> \<open>McpConfig\<close> (\<open>config.py\<close>, \<open>registry.py\<close>): the settings and the registry file; what loads is well formed.
  \<^item> \<open>McpUpstreams\<close> (\<open>upstream.py\<close>): the connections under booting, hot adding and news of changed tools as the relation
    \<open>registry_reach\<close>, and the names under which tools are offered.
  \<^item> \<open>McpGateway\<close> (\<open>core_client.py\<close>, \<open>canonical.py\<close>, \<open>holds_tracker.py\<close>, \<open>obligations.py\<close>, \<open>gateway.py\<close>): one call, and
    runs of calls as the relation \<open>mcp_run\<close>. A tool runs only if the engine allowed it.
  \<^item> \<open>McpSetup\<close> (\<open>client_configs.py\<close>, \<open>lifecycle.py\<close>): the servers of a client moved into the registry, the backup and the
    relation \<open>client_history\<close> of all that happens to the client's file, and the check for drift.

  State. One process is a record \<open>core\<close> (nonces, hold store with its file, ledger file and index, last freeze
  state, calls made to audit and telemetry) inside a record \<open>server\<close> (with the credential cache). The clock
  readings, fresh ids, lock and write outcomes that one request meets are records of its inputs
  (\<open>call_env\<close>, \<open>timing\<close>, \<open>hio\<close>, \<open>lenv\<close>), so every definition is a function and a theorem about all inputs covers
  every fault and every interleaving that the file locks allow. For the gateway one ruling meets a record
  \<open>ruling_world\<close> (the answers of the engine, the clock, the status of the hold at each look), and the
  rulings of a request are a list of them.

  What is a parameter: the policy engine (\<open>engine\<close>, any function from a query and an input to what the process
  prints), the digest of canonical JSON, rounding to doubles, the JSON decoder, the portal, the Unicode
  database, and the standard library on texts that are not ASCII. For the adapter the same parts of the standard
  library are fields of the record \<open>library\<close>, and the existence of a file, the network and the clock are arguments. What the
  proxy hands to the gateway (its request, its response objects as trees, its key metadata) is an argument as well.

  The main theorems. An allow of \<open>process\<close> rests on the policy's verdict over the session's true sums or on a
  stored approval that passed all eight checks, and is charged to the ledger; no approval is spent twice unless
  resolutions race, and that race is exhibited; processes sharing a volume share one budget; the guard keeps
  a session within its limit under every interleaving; a hold is resolved over HTTP only through the whole
  chain of checks and only by an entitled caller; every decision is audited; the hook allows only what the engine
  allowed for exactly this call, answers once and in time, and no command of a line escapes its classifier; the
  gateway lets a call out, in a complete answer, in a stream or through the connector, only if it was cleared,
  and organisations share neither session nor agent; the MCP gateway runs a tool only if the engine allowed this
  call, and no session uses the hold of another; the installers keep what others wrote, and a session for which
  not every tool is governed leaves a record; and every parser, fold and counter does what its readers rely on.
  Each property stands after a text block with its number.

  Bounds. Recursion is structural except for a few well-founded functions proved terminating. Fuel stands in
  two places: \<open>client_pages\<close> (a client following \<open>next_cursor\<close>), where as much fuel as there are holds is proved
  enough, and \<open>await_loop\<close> (the wait of the gateway for a human), where \<open>ruling_ends\<close> proves that a clock which
  reaches the deadline ends the wait, and a lemma exhibits that a clock which never does never ends it. The
  bounds of the walk over a command line (depth 64, 16384 commands, 262144 characters) are the program's own; a walk that meets one says so, and one that does not has read everything. Counters are
  unbounded integers as in Python.

  Not modelled. In the engine: explanatory texts in answers and log lines, the boot banner, sockets and TLS
  (their outcomes are inputs), environment variables whose values are inputs, and the Rego policy, which an
  outside engine evaluates. In the adapter: texts on stderr, file names and permissions, the commands of
  \<open>cli.py\<close> other than the set-up, the device connection (\<open>connect.py\<close>) and the conformance runner, which are
  input and output around the modelled parts. In the gateway: its command line (\<open>cli.py\<close>), the connector's health
  page, set-up and socket, the asynchronous wrappers and their thread pool, log lines, and what only objects that
  are no JSON trees can cause. In the MCP gateway: the SDK and its transports, the command line, the standard
  places of the configuration of clients, and log lines.
  The hold client, the release scripts, integrations and demonstrations talk to the engine over HTTP and are left
  out.
\<close>

end
